(* ===== verification/Prelude.thy ===== *)
theory Prelude
  imports Complex_Main "HOL-Library.AList" "HOL-Library.Char_ord" "HOL-Library.List_Lexorder"
    "HOL-Library.Product_Lexorder" "HOL-Library.Multiset"
begin

text \<open>
  What the components share: the exceptions the program raises and the sum type that carries
  them, Python dictionaries as association lists in insertion order, the string operations the
  sources use, and general lemmas on lists.

  Strings are lists of 8-bit characters; the case conversions act on the ASCII letters, which
  is what symbols, currencies and sides consist of.  Instants are integers (microseconds since
  the epoch, UTC): \<open>ensure_utc\<close> and \<open>astimezone(UTC)\<close> of the sources are the identity on
  them.
\<close>

type_synonym instant = int

subsection \<open>Exceptions as values\<close>

text \<open>
  What an exchange client raises: the classes of \<open>httpx\<close> the program tells apart, the built-in
  \<open>TimeoutError\<close>, the open circuit breaker, and the \<open>ExchangeError\<close> of the sources with its
  status, text, response body, error code and error message.
\<close>

datatype reject_code = Code_int int | Code_str string

datatype exchange_exn =
    HttpTimeout
  | HttpNetworkError
  | HttpStatusError int
  | HttpTransportError
  | BuiltinTimeoutError
  | BreakerOpenError
  | ExchangeError "int option" string "string option" "reject_code option" "string option"
  | OtherException string

datatype py_error =
    ValueError string
  | TypeError string
  | ValidationError string
  | InvalidOperation
  | DivisionByZero
  | KeyError string
  | IndexError
  | AccountingIntegrityError string
  | CapitalPolicyError string
  | FeeConversionRateError string
  | ExchangeRulesUnavailableError string
  | IdempotencyConflictError string
  | AdapterError string
  | IntegrityError string
  | OperationalError string
  | RuntimeError string
  | NetworkTimeout
  | RateLimitError
  | TemporaryUnavailable
  | NonRetryableOMSAdapterError
  | ExchangeExn exchange_exn
  | SubmitBlockedDueToUnknownError string
  | LiveTradingNotArmedError string
  | RetryableExecutionError py_error

type_synonym 'a result = "py_error + 'a"

definition rbind :: "'a result \<Rightarrow> ('a \<Rightarrow> 'b result) \<Rightarrow> 'b result" where
  "rbind m f = (case m of Inl e \<Rightarrow> Inl e | Inr x \<Rightarrow> f x)"

lemma rbind_simps [simp]: "rbind (Inl e) f = Inl e" "rbind (Inr x) f = f x"
  by (simp_all add: rbind_def)

lemma rbind_eq_Inr_iff: "rbind m f = Inr y \<longleftrightarrow> (\<exists>x. m = Inr x \<and> f x = Inr y)"
  by (cases m) auto

lemma rbind_eq_Inl_iff: "rbind m f = Inl e \<longleftrightarrow> m = Inl e \<or> (\<exists>x. m = Inr x \<and> f x = Inl e)"
  by (cases m) auto

lemma rbind_assoc: "rbind (rbind m f) g = rbind m (\<lambda>x. rbind (f x) g)"
  by (cases m) auto

lemma rbind_Inr_right [simp]: "rbind m Inr = m"
  by (cases m) auto

lemma rbind_cong [fundef_cong]:
  "m = m' \<Longrightarrow> (\<And>x. m' = Inr x \<Longrightarrow> f x = g x) \<Longrightarrow> rbind m f = rbind m' g"
  by (cases m') auto

text \<open>A loop that stops at the first exception.\<close>

fun rfold :: "('s \<Rightarrow> 'a \<Rightarrow> 's result) \<Rightarrow> 's \<Rightarrow> 'a list \<Rightarrow> 's result" where
  "rfold f s [] = Inr s"
| "rfold f s (x # xs) = rbind (f s x) (\<lambda>s'. rfold f s' xs)"

lemma rfold_append: "rfold f s (xs @ ys) = rbind (rfold f s xs) (\<lambda>s'. rfold f s' ys)"
  by (induction xs arbitrary: s) (auto simp: rbind_assoc)

lemma rfold_invariant:
  assumes "rfold f s xs = Inr t" "I s"
    and "\<And>s x s'. x \<in> set xs \<Longrightarrow> I s \<Longrightarrow> f s x = Inr s' \<Longrightarrow> I s'"
  shows "I t"
  using assms
proof (induction xs arbitrary: s)
  case (Cons x xs)
  from Cons.prems(1) obtain s' where s': "f s x = Inr s'" "rfold f s' xs = Inr t"
    by (auto simp: rbind_eq_Inr_iff)
  then have "I s'" using Cons.prems(2,3) by auto
  then show ?case using Cons.IH [OF s'(2)] Cons.prems(3) by auto
qed simp

fun rmap :: "('a \<Rightarrow> 'b result) \<Rightarrow> 'a list \<Rightarrow> 'b list result" where
  "rmap f [] = Inr []"
| "rmap f (x # xs) = rbind (f x) (\<lambda>y. rbind (rmap f xs) (\<lambda>ys. Inr (y # ys)))"

subsection \<open>Dictionaries\<close>

text \<open>
  A Python dictionary is an association list with distinct keys, in insertion order:
  \<open>map_of d k\<close> is \<open>d.get(k)\<close> and \<open>AList.update k v d\<close> is \<open>d[k] = v\<close>, which keeps the place of
  an existing key and appends a new one.
\<close>

type_synonym ('k, 'v) dict = "('k \<times> 'v) list"

abbreviation dict_get :: "('k, 'v) dict \<Rightarrow> 'k \<Rightarrow> 'v \<Rightarrow> 'v" where
  "dict_get d k v \<equiv> (case map_of d k of None \<Rightarrow> v | Some x \<Rightarrow> x)"

abbreviation dict_wf :: "('k, 'v) dict \<Rightarrow> bool" where
  "dict_wf d \<equiv> distinct (map fst d)"

text \<open>A dictionary comprehension \<open>{f(k): g(v) for k, v in d.items()}\<close>: later entries win.\<close>

definition dict_comp :: "('a \<Rightarrow> 'k) \<Rightarrow> ('b \<Rightarrow> 'v) \<Rightarrow> ('a, 'b) dict \<Rightarrow> ('k, 'v) dict" where
  "dict_comp f g d = fold (\<lambda>(k, v). AList.update (f k) (g v)) d []"

lemma map_of_update [simp]: "map_of (AList.update k v d) = (map_of d)(k \<mapsto> v)"
  by (rule update_conv')

lemma dict_wf_update [simp]: "dict_wf d \<Longrightarrow> dict_wf (AList.update k v d)"
  by (rule distinct_update)

lemma map_of_dict_comp_in:
  "map_of (fold (\<lambda>(k, v). AList.update (f k) (g v)) d acc) k' = Some w
    \<Longrightarrow> map_of acc k' = Some w \<or> (\<exists>k v. (k, v) \<in> set d \<and> f k = k' \<and> g v = w)"
  by (induction d arbitrary: acc) (force split: if_splits)+

lemma dict_comp_SomeD:
  "map_of (dict_comp f g d) k' = Some w \<Longrightarrow> \<exists>k v. (k, v) \<in> set d \<and> f k = k' \<and> g v = w"
  using map_of_dict_comp_in [of f g d "[]"] by (auto simp: dict_comp_def)

subsection \<open>Strings\<close>

definition char_upper :: "char \<Rightarrow> char" where
  "char_upper c = (let n = (of_char c :: int) in if 97 \<le> n \<and> n \<le> 122 then char_of (n - 32) else c)"

definition char_lower :: "char \<Rightarrow> char" where
  "char_lower c = (let n = (of_char c :: int) in if 65 \<le> n \<and> n \<le> 90 then char_of (n + 32) else c)"

definition str_upper :: "string \<Rightarrow> string" where
  "str_upper = map char_upper"

definition str_lower :: "string \<Rightarrow> string" where
  "str_lower = map char_lower"

definition is_space :: "char \<Rightarrow> bool" where
  "is_space c = (c \<in> set [CHR '' '', CHR 0x09, CHR 0x0A, CHR 0x0B, CHR 0x0C, CHR 0x0D])"

definition str_strip :: "string \<Rightarrow> string" where
  "str_strip s = rev (dropWhile is_space (rev (dropWhile is_space s)))"

definition starts_with :: "string \<Rightarrow> string \<Rightarrow> bool" where
  "starts_with s p = (take (length p) s = p)"

definition ends_with :: "string \<Rightarrow> string \<Rightarrow> bool" where
  "ends_with s p = (length p \<le> length s \<and> drop (length s - length p) s = p)"

text \<open>\<open>str(n)\<close> of a natural number.\<close>

fun str_nat :: "nat \<Rightarrow> string" where
  "str_nat n = (if n < 10 then [char_of (48 + n)] else str_nat (n div 10) @ [char_of (48 + n mod 10)])"

text \<open>
  Code equations on the bits of a character and with monomorphic operations: the evaluation of
  concrete examples does not need the class hierarchy of the integers.
\<close>

definition char_code :: "char \<Rightarrow> int" where
  "char_code c = of_char c"

lemma of_char_int_code [code_unfold]: "(of_char :: char \<Rightarrow> int) = char_code"
  by (simp add: fun_eq_iff char_code_def)

lemma of_char_nat_code [code_unfold]: "(of_char :: char \<Rightarrow> nat) = (\<lambda>c. nat (char_code c))"
proof
  fix c :: char
  have "int (of_char c :: nat) = char_code c" by (simp add: char_code_def of_nat_of_char)
  then show "of_char c = nat (char_code c)" by simp
qed

lemma char_code_bits [code]:
  "char_code (Char b0 b1 b2 b3 b4 b5 b6 b7) =
     (if b0 then 1 else 0) + ((if b1 then 2 else 0) + ((if b2 then 4 else 0) + ((if b3 then 8 else 0)
     + ((if b4 then 16 else 0) + ((if b5 then 32 else 0) + ((if b6 then 64 else 0) + (if b7 then 128 else 0)))))))"
  by (simp add: char_code_def of_char_def)

lemma char_upper_bits [code]:
  "char_upper (Char b0 b1 b2 b3 b4 b5 b6 b7) =
     (if b6 \<and> b5 \<and> \<not> b7 \<and> (b0 \<or> b1 \<or> b2 \<or> b3 \<or> b4) \<and> \<not> (b4 \<and> b3 \<and> (b2 \<or> b1 \<and> b0))
      then Char b0 b1 b2 b3 b4 False b6 b7 else Char b0 b1 b2 b3 b4 b5 b6 b7)"
  by (cases b0; cases b1; cases b2; cases b3; cases b4; cases b5; cases b6; cases b7) (simp_all add: char_upper_def char_of_eq_iff)

lemma char_lower_bits [code]:
  "char_lower (Char b0 b1 b2 b3 b4 b5 b6 b7) =
     (if b6 \<and> \<not> b5 \<and> \<not> b7 \<and> (b0 \<or> b1 \<or> b2 \<or> b3 \<or> b4) \<and> \<not> (b4 \<and> b3 \<and> (b2 \<or> b1 \<and> b0))
      then Char b0 b1 b2 b3 b4 True b6 b7 else Char b0 b1 b2 b3 b4 b5 b6 b7)"
  by (cases b0; cases b1; cases b2; cases b3; cases b4; cases b5; cases b6; cases b7) (simp_all add: char_lower_def char_of_eq_iff)

lemma digit_char: "n < 10 \<Longrightarrow> (char_of (48 + n) :: char) = ''0123456789'' ! n" for n :: nat
proof -
  assume "n < 10"
  then have "n \<in> {0, 1, 2, 3, 4, 5, 6, 7, 8, 9}" by auto
  then show ?thesis by (auto simp: char_of_eq_iff)
qed

lemma str_nat_code [code]:
  "str_nat n = (if n < 10 then [''0123456789'' ! n] else str_nat (n div 10) @ [''0123456789'' ! (n mod 10)])"
  using str_nat.simps [of n] by (simp add: digit_char del: str_nat.simps)

fun int_of_nat :: "nat \<Rightarrow> int" where
  "int_of_nat 0 = 0"
| "int_of_nat (Suc n) = int_of_nat n + 1"

lemma of_nat_int_code [code_unfold]: "(of_nat :: nat \<Rightarrow> int) = int_of_nat"
proof
  show "of_nat n = int_of_nat n" for n by (induction n) simp_all
qed

lemma char_upper_cases:
  "(of_char (char_upper c) :: int) =
     (if 97 \<le> (of_char c :: int) \<and> (of_char c :: int) \<le> 122 then of_char c - 32 else of_char c)"
  by (simp add: char_upper_def Let_def)

lemma char_upper_idem [simp]: "char_upper (char_upper c) = char_upper c"
  by (auto simp: char_upper_def Let_def)

lemma str_upper_idem [simp]: "str_upper (str_upper s) = str_upper s"
  by (simp add: str_upper_def comp_def)

lemma length_str_upper [simp]: "length (str_upper s) = length s"
  by (simp add: str_upper_def)

lemma str_upper_append [simp]: "str_upper (s @ t) = str_upper s @ str_upper t"
  by (simp add: str_upper_def)

lemma ends_with_append [simp]: "ends_with (s @ p) p"
  by (simp add: ends_with_def)

lemma ends_with_iff: "ends_with s p \<longleftrightarrow> (\<exists>q. s = q @ p)"
proof
  assume "ends_with s p"
  then have "s = take (length s - length p) s @ p"
    by (metis append_take_drop_id ends_with_def)
  then show "\<exists>q. s = q @ p" ..
qed auto

subsection \<open>Sorting\<close>

text \<open>Python's \<open>sorted\<close> is stable, as \<open>sort_key\<close> is.\<close>

lemma insort_key_append:
  "\<forall>y \<in> set ys. f x \<le> f y \<Longrightarrow> insort_key f x (xs @ ys) = insort_key f x xs @ ys"
  by (induction xs) (auto simp: insort_is_Cons)

lemma sort_key_append:
  assumes "\<forall>x \<in> set xs. \<forall>y \<in> set ys. f x \<le> f y"
  shows "sort_key f (xs @ ys) = sort_key f xs @ sort_key f ys"
  using assms by (induction xs) (auto simp: insort_key_append)

lemma sort_key_perm:
  assumes "mset xs = mset ys" "inj_on f (set xs)"
  shows "sort_key f xs = sort_key f ys"
  using assms by (intro sort_key_inj_key_eq) (auto simp: mset_sort)

lemma sum_list_sort_key: "(\<Sum>x \<leftarrow> sort_key f xs. g x) = (\<Sum>x \<leftarrow> xs. (g x :: 'b :: comm_monoid_add))"
  by (metis mset_map mset_sort sum_mset_sum_list)

end
