(* ===== verification/Rounding.thy ===== *)
theory Rounding
  imports Prelude
begin

text \<open>
  Rounding of exact rational results to a fixed number of significant digits.

  Every number the program computes with is either a Python \<open>Decimal\<close> (28 significant
  decimal digits, ties to even, the default context of the \<open>decimal\<close> module) or a Python
  \<open>float\<close> (53 significant binary digits, ties to even).  Both are instances of one function,
  \<open>rnd_sig b p\<close>: round to \<open>p\<close> significant digits in base \<open>b\<close>.  The exponent range of the
  two formats (overflow, underflow, subnormals) and their special values are not modelled.

  The locale \<open>rounding\<close> is the interface the rest of the development relies on: rounding is
  monotone, odd, idempotent and keeps signs.  It is interpreted on \<open>rnd_sig 10 28\<close> in
  \<open>Py_Decimal\<close> and on \<open>rnd_sig 2 53\<close> in \<open>Py_Float\<close>.
\<close>

subsection \<open>Definitions\<close>

definition round_half_even :: "rat \<Rightarrow> int" where
  "round_half_even x =
     (let f = \<lfloor>x\<rfloor>; r = x - of_int f
      in if r < 1/2 then f else if 1/2 < r then f + 1 else if even f then f else f + 1)"

text \<open>Code equations that do not need the class hierarchy of the rationals.\<close>

definition rat_floor :: "rat \<Rightarrow> int" where
  "rat_floor x = (case quotient_of x of (n, d) \<Rightarrow> n div d)"

lemma floor_rat_code [code_unfold]: "(floor :: rat \<Rightarrow> int) = rat_floor"
  by (simp add: fun_eq_iff rat_floor_def rat_floor_code)

lemma ceiling_rat_code [code_unfold]: "(ceiling :: rat \<Rightarrow> int) = (\<lambda>x. - rat_floor (- x))"
  by (simp add: fun_eq_iff ceiling_def floor_rat_code)

definition int_even :: "int \<Rightarrow> bool" where
  "int_even n = (n div 2 * 2 = n)"

lemma int_even [simp]: "int_even n = even n"
proof
  assume "int_even n"
  then have "n = 2 * (n div 2)" by (simp add: int_even_def mult.commute)
  then show "even n" by (metis dvd_triv_left)
qed (simp add: int_even_def)

lemma round_half_even_code [code]:
  "round_half_even x =
     (let f = \<lfloor>x\<rfloor>; r = x - of_int f
      in if r < 1/2 then f else if 1/2 < r then f + 1 else if int_even f then f else f + 1)"
  unfolding round_half_even_def int_even by (rule refl)

lemma of_nat_rat_code [code_unfold]: "(of_nat :: nat \<Rightarrow> rat) = (\<lambda>n. of_int (int_of_nat n))"
  by (simp add: fun_eq_iff of_nat_int_code [symmetric])

text \<open>The number of base-\<open>b\<close> digits of a positive integer; 0 for the others.\<close>

function int_digits :: "int \<Rightarrow> int \<Rightarrow> nat" where
  "int_digits b n = (if b \<le> 1 \<or> n \<le> 0 then 0 else Suc (int_digits b (n div b)))"
  by pat_completeness auto
termination
  by (relation "measure (\<lambda>(b, n). nat n)") (auto simp: div_less_dividend int_div_less_self)

declare int_digits.simps [simp del]

text \<open>\<open>bpow b k\<close> is \<open>b\<close> to the integer power \<open>k\<close>.\<close>

definition bpow :: "int \<Rightarrow> int \<Rightarrow> rat" where
  "bpow b k = (if 0 \<le> k then of_int b ^ nat k else 1 / of_int b ^ nat (- k))"

text \<open>The exponent of the leading digit of a positive rational.\<close>

definition magnitude :: "int \<Rightarrow> rat \<Rightarrow> int" where
  "magnitude b x =
     (if 1 \<le> x then int (int_digits b \<lfloor>x\<rfloor>) - 1
      else - int (int_digits b (\<lceil>1 / x\<rceil> - 1)))"

definition rnd_sig :: "int \<Rightarrow> int \<Rightarrow> rat \<Rightarrow> rat" where
  "rnd_sig b p x =
     (if x = 0 then 0
      else let u = bpow b (magnitude b \<bar>x\<bar> + 1 - p)
           in of_int (round_half_even (x / u)) * u)"

subsection \<open>Rounding to the nearest integer\<close>

lemma round_half_even_of_int [simp]: "round_half_even (of_int n) = n"
  by (simp add: round_half_even_def)

lemma round_half_even_bounds:
  "x - 1/2 \<le> of_int (round_half_even x)" "of_int (round_half_even x) \<le> x + 1/2"
proof -
  have "of_int \<lfloor>x\<rfloor> \<le> x" "x < of_int \<lfloor>x\<rfloor> + 1"
    using floor_correct [of x] by auto
  then show "x - 1/2 \<le> of_int (round_half_even x)" "of_int (round_half_even x) \<le> x + 1/2"
    by (simp_all add: round_half_even_def Let_def) linarith+
qed

lemma round_half_even_cases:
  "round_half_even x = \<lfloor>x\<rfloor> \<or> round_half_even x = \<lfloor>x\<rfloor> + 1"
  by (simp add: round_half_even_def Let_def)

lemma round_half_even_mono:
  assumes "x \<le> y"
  shows "round_half_even x \<le> round_half_even y"
proof (cases "\<lfloor>x\<rfloor> = \<lfloor>y\<rfloor>")
  case True
  with assms show ?thesis by (auto simp: round_half_even_def Let_def)
next
  case False
  with assms have "\<lfloor>x\<rfloor> + 1 \<le> \<lfloor>y\<rfloor>" using floor_mono [OF assms] by simp
  then show ?thesis
    using round_half_even_cases [of x] round_half_even_cases [of y] by auto
qed

lemma round_half_even_minus: "round_half_even (- x) = - round_half_even x"
proof (cases "x = of_int \<lfloor>x\<rfloor>")
  case True
  then have "- x = of_int (- \<lfloor>x\<rfloor>)" by simp
  then have "round_half_even (- x) = - \<lfloor>x\<rfloor>" by (simp only: round_half_even_of_int)
  moreover have "round_half_even x = \<lfloor>x\<rfloor>" using True round_half_even_of_int [of "\<lfloor>x\<rfloor>"] by simp
  ultimately show ?thesis by simp
next
  case False
  then have "\<lfloor>- x\<rfloor> = - \<lfloor>x\<rfloor> - 1"
    by (simp add: floor_eq_iff) (use floor_correct [of x] in linarith)
  then show ?thesis
    by (auto simp: round_half_even_def Let_def)
qed

subsection \<open>Powers and magnitudes\<close>

lemma bpow_powi: "bpow b k = of_int b powi k"
  by (simp add: bpow_def power_int_def field_simps)

lemma bpow_pos [simp]: "1 < b \<Longrightarrow> 0 < bpow b k"
  by (simp add: bpow_powi)

lemma bpow_nonzero [simp]: "1 < b \<Longrightarrow> bpow b k \<noteq> 0"
  using bpow_pos [of b k] by (metis less_irrefl)

lemma abs_bpow [simp]: "1 < b \<Longrightarrow> \<bar>bpow b k\<bar> = bpow b k"
  using bpow_pos [of b k] by (metis abs_of_pos)

lemma bpow_0 [simp]: "bpow b 0 = 1"
  by (simp add: bpow_def)

lemma bpow_add: "1 < b \<Longrightarrow> bpow b (j + k) = bpow b j * bpow b k"
  by (simp add: bpow_powi power_int_add)

lemma bpow_mono: "1 < b \<Longrightarrow> j \<le> k \<Longrightarrow> bpow b j \<le> bpow b k"
  by (simp add: bpow_powi power_int_increasing)

lemma bpow_strict_mono: "1 < b \<Longrightarrow> bpow b j < bpow b k \<Longrightarrow> j < k"
  by (meson bpow_mono leD le_less_linear)

lemma bpow_nat: "bpow b (int n) = of_int (b ^ n)"
  by (simp add: bpow_def)

lemma bpow_Ints: "0 \<le> k \<Longrightarrow> \<exists>n. bpow b k = of_int n"
  by (metis bpow_nat nat_0_le)

lemma int_digits_bounds:
  assumes "1 < b" "0 < n"
  shows "0 < int_digits b n" "b ^ (int_digits b n - 1) \<le> n" "n < b ^ int_digits b n"
proof -
  have "0 < int_digits b n \<and> b ^ (int_digits b n - 1) \<le> n \<and> n < b ^ int_digits b n"
    using assms
  proof (induction b n rule: int_digits.induct)
    case (1 b n)
    show ?case
    proof (cases "n div b = 0")
      case True
      with 1 have "n < b" by (simp add: zdiv_eq_0_iff)
      then have "int_digits b n = 1"
        using 1 by (simp add: int_digits.simps [of b n] int_digits.simps [of b 0] True)
      with 1 \<open>n < b\<close> show ?thesis by simp
    next
      case False
      with 1 have pos: "0 < n div b"
        by (smt (verit) pos_imp_zdiv_neg_iff)
      let ?d = "int_digits b (n div b)"
      from 1 pos have IH: "0 < ?d" "b ^ (?d - 1) \<le> n div b" "n div b < b ^ ?d" by auto
      have step: "int_digits b n = Suc ?d" using 1 by (simp add: int_digits.simps [of b n])
      have lo: "b ^ ?d \<le> n"
      proof -
        have "b ^ ?d = b * b ^ (?d - 1)" using IH(1) by (simp add: power_eq_if)
        also have "\<dots> \<le> b * (n div b)" using IH(2) 1 by simp
        also have "\<dots> \<le> n"
          using 1 pos_mod_sign [of b n] by (simp add: minus_mult_div_eq_mod [symmetric])
        finally show ?thesis .
      qed
      have hi: "n < b * b ^ ?d"
      proof -
        have "n div b + 1 \<le> b ^ ?d" using IH(3) by simp
        then have "b * (n div b + 1) \<le> b * b ^ ?d" using 1 by simp
        moreover have "n < b * (n div b + 1)"
          using 1 pos_mod_bound [of b n] by (simp add: algebra_simps minus_mult_div_eq_mod [symmetric])
        ultimately show ?thesis by simp
      qed
      show ?thesis using step lo hi by simp
    qed
  qed
  then show "0 < int_digits b n" "b ^ (int_digits b n - 1) \<le> n" "n < b ^ int_digits b n"
    by auto
qed


lemma magnitude_bounds:
  assumes b: "1 < b" and x: "0 < x"
  shows "bpow b (magnitude b x) \<le> x" "x < bpow b (magnitude b x + 1)"
proof -
  have "bpow b (magnitude b x) \<le> x \<and> x < bpow b (magnitude b x + 1)"
  proof (cases "1 \<le> x")
    case True
    then have n: "0 < \<lfloor>x\<rfloor>" by simp
    let ?d = "int_digits b \<lfloor>x\<rfloor>"
    note D = int_digits_bounds [OF b n]
    have "of_int (b ^ (?d - 1)) \<le> x" using D(2) by (simp only: le_floor_iff)
    moreover have "x < of_int (b ^ ?d)" using D(3) by (simp only: floor_less_iff)
    moreover have "magnitude b x = int (?d - 1)" "magnitude b x + 1 = int ?d"
      using True D(1) by (simp_all add: magnitude_def of_nat_diff)
    ultimately show ?thesis by (simp only: bpow_nat)
  next
    case False
    then have gt: "1 < 1 / x" using x by simp
    let ?n = "\<lceil>1 / x\<rceil> - 1"
    have n: "0 < ?n" using gt by (simp add: less_ceiling_iff)
    let ?d = "int_digits b ?n"
    note D = int_digits_bounds [OF b n]
    have "\<lceil>1 / x\<rceil> \<le> b ^ ?d" using D(3) by linarith
    then have hi: "1 / x \<le> of_int (b ^ ?d)" by (simp only: ceiling_le_iff)
    have lo: "of_int (b ^ (?d - 1)) < 1 / x" using D(2) by (simp add: less_ceiling_iff)
    have m: "magnitude b x = - int ?d" "magnitude b x + 1 = - int (?d - 1)"
      using False D(1) by (simp_all add: magnitude_def of_nat_diff)
    have inv: "bpow b (- int k) = 1 / of_int (b ^ k)" for k
      by (simp add: bpow_powi power_int_minus field_simps)
    have "bpow b (magnitude b x) = 1 / of_int (b ^ ?d)" unfolding m(1) by (rule inv)
    moreover have "bpow b (magnitude b x + 1) = 1 / of_int (b ^ (?d - 1))" unfolding m(2) by (rule inv)
    moreover have "0 < (of_int (b ^ ?d) :: rat)" "0 < (of_int (b ^ (?d - 1)) :: rat)"
      using b by simp_all
    ultimately show ?thesis using hi lo x
      by (simp only: divide_le_eq le_divide_eq less_divide_eq divide_less_eq) (simp add: mult.commute)
  qed
  then show "bpow b (magnitude b x) \<le> x" "x < bpow b (magnitude b x + 1)" by auto
qed

lemma magnitude_mono:
  assumes "1 < b" "0 < x" "x \<le> y"
  shows "magnitude b x \<le> magnitude b y"
proof -
  have "bpow b (magnitude b x) < bpow b (magnitude b y + 1)"
    using magnitude_bounds(1) [OF assms(1,2)] magnitude_bounds(2) [OF assms(1), of y] assms by linarith
  then show ?thesis using bpow_strict_mono [OF assms(1)] by fastforce
qed

lemma magnitude_less:
  assumes "1 < b" "0 < x" "x < bpow b k"
  shows "magnitude b x < k"
  using magnitude_bounds(1) [OF assms(1,2)] assms(3) bpow_strict_mono [OF assms(1)]
  by (meson le_less_trans)

subsection \<open>Rounding to significant digits\<close>

lemma rnd_sig_0 [simp]: "rnd_sig b p 0 = 0"
  by (simp add: rnd_sig_def)

lemma rnd_sig_minus: "rnd_sig b p (- x) = - rnd_sig b p x"
  by (simp add: rnd_sig_def Let_def round_half_even_minus)

lemma rnd_sig_pos_eq:
  "0 < x \<Longrightarrow> rnd_sig b p x =
     of_int (round_half_even (x / bpow b (magnitude b x + 1 - p))) * bpow b (magnitude b x + 1 - p)"
  by (simp add: rnd_sig_def Let_def)

text \<open>A rounded positive value stays within the decade of the exact one.\<close>

lemma rnd_sig_decade:
  assumes b: "1 < b" and p: "1 \<le> p" and x: "0 < x"
  shows "bpow b (magnitude b x) \<le> rnd_sig b p x" "rnd_sig b p x \<le> bpow b (magnitude b x + 1)"
proof -
  let ?e = "magnitude b x"
  let ?u = "bpow b (?e + 1 - p)"
  have u: "0 < ?u" using b by simp
  have split: "bpow b ?e = bpow b (p - 1) * ?u" "bpow b (?e + 1) = bpow b p * ?u"
    using bpow_add [OF b, of "p - 1" "?e + 1 - p"] bpow_add [OF b, of p "?e + 1 - p"] by simp_all
  obtain m n where m: "bpow b (p - 1) = of_int m" and n: "bpow b p = of_int n"
    using bpow_Ints [of "p - 1" b] bpow_Ints [of p b] p by auto
  have "of_int m \<le> x / ?u" "x / ?u \<le> of_int n"
    using magnitude_bounds [OF b x] u unfolding split m n by (simp_all add: field_simps)
  then have "m \<le> round_half_even (x / ?u)" "round_half_even (x / ?u) \<le> n"
    using round_half_even_mono [of "of_int m" "x / ?u"] round_half_even_mono [of "x / ?u" "of_int n"]
    by simp_all
  then show "bpow b ?e \<le> rnd_sig b p x" "rnd_sig b p x \<le> bpow b (?e + 1)"
    using u unfolding split m n rnd_sig_pos_eq [OF x] by simp_all
qed

lemma rnd_sig_pos: "1 < b \<Longrightarrow> 1 \<le> p \<Longrightarrow> 0 < x \<Longrightarrow> 0 < rnd_sig b p x"
  using rnd_sig_decade(1) [of b p x] bpow_pos [of b "magnitude b x"] by linarith

lemma rnd_sig_mono_pos:
  assumes b: "1 < b" and p: "1 \<le> p" and x: "0 < x" and xy: "x \<le> y"
  shows "rnd_sig b p x \<le> rnd_sig b p y"
proof (cases "magnitude b x = magnitude b y")
  case True
  let ?u = "bpow b (magnitude b y + 1 - p)"
  have u: "0 < ?u" using b by simp
  have "round_half_even (x / ?u) \<le> round_half_even (y / ?u)"
    using u xy by (intro round_half_even_mono divide_right_mono) auto
  then show ?thesis using u x xy by (simp add: rnd_sig_pos_eq True)
next
  case False
  then have "magnitude b x + 1 \<le> magnitude b y" using magnitude_mono [OF b x xy] by simp
  then have "bpow b (magnitude b x + 1) \<le> bpow b (magnitude b y)" by (rule bpow_mono [OF b])
  then show ?thesis
    using rnd_sig_decade(2) [OF b p x] rnd_sig_decade(1) [OF b p, of y] x xy by linarith
qed

lemma rnd_sig_mono:
  assumes b: "1 < b" and p: "1 \<le> p" and xy: "x \<le> y"
  shows "rnd_sig b p x \<le> rnd_sig b p y"
proof -
  consider "0 < x" | "x \<le> 0" "0 \<le> y" | "y < 0" by linarith
  then show ?thesis
  proof cases
    case 1
    then show ?thesis using rnd_sig_mono_pos [OF b p _ xy] by simp
  next
    case 2
    have "0 \<le> rnd_sig b p y" using 2 rnd_sig_pos [OF b p, of y] by (cases "y = 0") auto
    moreover have "0 \<le> rnd_sig b p (- x)" using 2 rnd_sig_pos [OF b p, of "- x"] by (cases "x = 0") auto
    ultimately show ?thesis by (simp add: rnd_sig_minus)
  next
    case 3
    then have "rnd_sig b p (- y) \<le> rnd_sig b p (- x)"
      using xy by (intro rnd_sig_mono_pos [OF b p]) auto
    then show ?thesis by (simp add: rnd_sig_minus)
  qed
qed


text \<open>A value with at most \<open>p\<close> significant digits is not changed.\<close>

lemma rnd_sig_exact:
  assumes b: "1 < b" and p: "1 \<le> p" and x: "x = of_int n * bpow b k" and n: "\<bar>of_int n\<bar> < bpow b p"
  shows "rnd_sig b p x = x"
proof (cases "x = 0")
  case False
  let ?e = "magnitude b \<bar>x\<bar>"
  let ?u = "bpow b (?e + 1 - p)"
  have "\<bar>x\<bar> = \<bar>of_int n\<bar> * bpow b k" using b by (simp add: x abs_mult)
  also have "\<dots> < bpow b p * bpow b k" using n b by simp
  also have "\<dots> = bpow b (p + k)" using bpow_add [OF b] by simp
  finally have "?e < p + k" using False by (intro magnitude_less [OF b]) auto
  then obtain j where j: "bpow b (k - (?e + 1 - p)) = of_int j"
    using bpow_Ints [of "k - (?e + 1 - p)" b] by auto
  have "bpow b k = of_int j * ?u"
    using bpow_add [OF b, of "k - (?e + 1 - p)" "?e + 1 - p"] j by simp
  then have "x = of_int (n * j) * ?u" by (subst x) simp
  then have "x / ?u = of_int (n * j)" using b by (metis bpow_nonzero nonzero_mult_div_cancel_right)
  then have "round_half_even (x / ?u) = n * j" by (simp only: round_half_even_of_int)
  moreover have "of_int (n * j) * ?u = x"
    using \<open>x / ?u = of_int (n * j)\<close> b by (simp add: field_simps)
  ultimately show ?thesis using False by (simp add: rnd_sig_def Let_def)
qed simp

lemma rnd_sig_exact_int:
  assumes "1 < b" "1 \<le> p" "\<bar>n\<bar> < b ^ nat p"
  shows "rnd_sig b p (of_int n) = of_int n"
proof (rule rnd_sig_exact [OF assms(1,2), of _ n 0])
  have "\<bar>of_int n :: rat\<bar> = of_int \<bar>n\<bar>" by simp
  also have "\<dots> < of_int (b ^ nat p)" using assms(3) by (simp only: of_int_less_iff)
  finally show "\<bar>of_int n\<bar> < bpow b p" using assms(2) by (simp add: bpow_def)
qed simp

lemma rnd_sig_repr:
  assumes b: "1 < b" and p: "1 \<le> p"
  obtains n k where "rnd_sig b p x = of_int n * bpow b k" "\<bar>of_int n\<bar> < bpow b p"
proof (cases "x = 0")
  case True
  have "rnd_sig b p x = of_int 0 * bpow b 0" "\<bar>of_int 0\<bar> < bpow b p" using True b by simp_all
  then show ?thesis by (rule that)
next
  case False
  let ?y = "\<bar>x\<bar>"
  let ?u = "bpow b (magnitude b ?y + 1 - p)"
  let ?n = "round_half_even (x / ?u)"
  have eq: "rnd_sig b p x = of_int ?n * ?u" using False by (simp add: rnd_sig_def Let_def)
  have "\<bar>rnd_sig b p x\<bar> \<le> bpow b (magnitude b ?y + 1)"
    using rnd_sig_decade [OF b p, of ?y] rnd_sig_pos [OF b p, of ?y] False
    by (cases "0 < x") (auto simp: rnd_sig_minus)
  also have "\<dots> = bpow b p * ?u" using bpow_add [OF b, of p "magnitude b ?y + 1 - p"] by simp
  finally have le: "\<bar>of_int ?n\<bar> \<le> bpow b p" using b by (simp add: eq abs_mult)
  show ?thesis
  proof (cases "\<bar>of_int ?n\<bar> = bpow b p")
    case True
    have "of_int ?n = (of_int (sgn ?n * \<bar>?n\<bar>) :: rat)" by (simp only: sgn_mult_abs)
    then have "of_int ?n = of_int (sgn ?n) * bpow b p" using True by simp
    then have "rnd_sig b p x = of_int (sgn ?n) * bpow b (p + (magnitude b ?y + 1 - p))"
      unfolding eq bpow_add [OF b] by simp
    moreover have "\<bar>of_int (sgn ?n) :: rat\<bar> \<le> 1" by (simp add: sgn_if)
    moreover have "1 < bpow b p"
      using b p bpow_mono [OF b, of 1 p] by (simp add: bpow_def)
    ultimately show ?thesis using that by fastforce
  next
    case False
    then show ?thesis using le eq that by fastforce
  qed
qed

lemma rnd_sig_idem: "1 < b \<Longrightarrow> 1 \<le> p \<Longrightarrow> rnd_sig b p (rnd_sig b p x) = rnd_sig b p x"
  by (metis rnd_sig_exact rnd_sig_repr)

text \<open>The rounding error is at most half a unit of the last digit kept.\<close>

lemma rnd_sig_error:
  assumes b: "1 < b" and x: "x \<noteq> 0"
  shows "\<bar>rnd_sig b p x - x\<bar> \<le> bpow b (magnitude b \<bar>x\<bar> + 1 - p) / 2"
proof -
  let ?u = "bpow b (magnitude b \<bar>x\<bar> + 1 - p)"
  have u: "0 < ?u" using b by simp
  have "\<bar>of_int (round_half_even (x / ?u)) - x / ?u\<bar> \<le> 1/2"
    unfolding abs_le_iff using round_half_even_bounds [of "x / ?u"] by linarith
  then have "\<bar>of_int (round_half_even (x / ?u)) - x / ?u\<bar> * ?u \<le> 1/2 * ?u"
    using u by (intro mult_right_mono) auto
  moreover have "\<bar>of_int (round_half_even (x / ?u)) - x / ?u\<bar> * ?u = \<bar>rnd_sig b p x - x\<bar>"
  proof -
    let ?d = "of_int (round_half_even (x / ?u)) - x / ?u"
    have "\<bar>?d\<bar> * ?u = \<bar>?d * ?u\<bar>" using u by (simp only: abs_mult abs_of_pos)
    also have "?d * ?u = rnd_sig b p x - x"
      using u x by (simp add: rnd_sig_def Let_def left_diff_distrib)
    finally show ?thesis .
  qed
  ultimately show ?thesis by simp
qed

subsection \<open>The interface of a rounding function\<close>

locale rounding =
  fixes rnd :: "rat \<Rightarrow> rat"
  assumes rnd_mono: "x \<le> y \<Longrightarrow> rnd x \<le> rnd y"
    and rnd_minus: "rnd (- x) = - rnd x"
    and rnd_idem: "rnd (rnd x) = rnd x"
    and rnd_pos: "0 < x \<Longrightarrow> 0 < rnd x"
begin

lemma rnd_zero: "rnd 0 = 0"
  using rnd_minus [of 0] by simp

lemma rnd_nonneg: "0 \<le> x \<Longrightarrow> 0 \<le> rnd x"
  using rnd_mono [of 0 x] rnd_zero by simp

lemma rnd_neg: "x < 0 \<Longrightarrow> rnd x < 0"
  using rnd_pos [of "- x"] by (simp add: rnd_minus)

lemma rnd_nonpos: "x \<le> 0 \<Longrightarrow> rnd x \<le> 0"
  using rnd_mono [of x 0] rnd_zero by simp

lemma rnd_pos_iff: "0 < rnd x \<longleftrightarrow> 0 < x"
  using rnd_pos [of x] rnd_nonpos [of x] by linarith

lemma rnd_nonneg_iff: "0 \<le> rnd x \<longleftrightarrow> 0 \<le> x"
  using rnd_nonneg [of x] rnd_neg [of x] by linarith

lemma rnd_eq_0_iff: "rnd x = 0 \<longleftrightarrow> x = 0"
  using rnd_zero rnd_pos [of x] rnd_neg [of x] by (cases "x = 0") (auto simp: neq_iff)

text \<open>Comparison with a value the format can hold survives rounding.\<close>

lemma rnd_le_exact: "rnd y = y \<Longrightarrow> x \<le> y \<Longrightarrow> rnd x \<le> y"
  using rnd_mono [of x y] by simp

lemma rnd_ge_exact: "rnd y = y \<Longrightarrow> y \<le> x \<Longrightarrow> y \<le> rnd x"
  using rnd_mono [of y x] by simp

lemma rnd_less_imp: "rnd x < rnd y \<Longrightarrow> x < y"
  using rnd_mono [of y x] by linarith

end

lemma rounding_rnd_sig: "1 < b \<Longrightarrow> 1 \<le> p \<Longrightarrow> rounding (rnd_sig b p)"
  by unfold_locales (auto intro: rnd_sig_mono rnd_sig_pos simp: rnd_sig_minus rnd_sig_idem)

end
