(* ===== verification/Py_Decimal.thy ===== *)
theory Py_Decimal
  imports Rounding
begin

text \<open>
  Python's \<open>decimal.Decimal\<close> under its default context (28 digits, ties to even), as the
  sources use it.  A finite \<open>Decimal\<close> is the rational number it denotes; the exponent it is
  stored with only shows in its printed form and is not kept.  The arithmetic operators
  compute the exact result and round it with \<open>drnd\<close>; comparisons, \<open>min\<close> and \<open>max\<close> are exact.

  Division by zero and \<open>quantize\<close> beyond 28 digits raise in Python, so \<open>ddiv_r\<close> and
  \<open>dquantize\<close> return a result; \<open>ddiv\<close> is used only where the source has just tested the
  divisor.  The interpretation \<open>dec\<close> discharges the laws of the rounding interface for
  \<open>drnd\<close>; the lemmas after it, in the collection \<open>dec_sign\<close>, say which comparisons survive
  the rounding of an operation.
\<close>

named_theorems dec_sign \<open>signs and comparisons that survive the rounding of an operation\<close>

type_synonym dec = rat

definition drnd :: "rat \<Rightarrow> dec" where
  "drnd = rnd_sig 10 28"

definition dadd :: "dec \<Rightarrow> dec \<Rightarrow> dec" where
  "dadd a b = drnd (a + b)"

definition dsub :: "dec \<Rightarrow> dec \<Rightarrow> dec" where
  "dsub a b = drnd (a - b)"

definition dmul :: "dec \<Rightarrow> dec \<Rightarrow> dec" where
  "dmul a b = drnd (a * b)"

definition ddiv :: "dec \<Rightarrow> dec \<Rightarrow> dec" where
  "ddiv a b = drnd (a / b)"

definition ddiv_r :: "dec \<Rightarrow> dec \<Rightarrow> dec result" where
  "ddiv_r a b =
     (if b = 0 then Inl (if a = 0 then InvalidOperation else DivisionByZero) else Inr (ddiv a b))"

definition dneg :: "dec \<Rightarrow> dec" where
  "dneg a = drnd (- a)"

definition dabs :: "dec \<Rightarrow> dec" where
  "dabs a = drnd \<bar>a\<bar>"

text \<open>\<open>sum(xs, Decimal("0"))\<close>: a left fold of the rounded addition.\<close>

definition dsum :: "dec list \<Rightarrow> dec" where
  "dsum xs = fold (\<lambda>x acc. dadd acc x) xs 0"

datatype rounding_mode = ROUND_DOWN | ROUND_UP | ROUND_CEILING | ROUND_HALF_UP | ROUND_HALF_EVEN

definition trunc_int :: "rat \<Rightarrow> int" where
  "trunc_int x = (if 0 \<le> x then \<lfloor>x\<rfloor> else \<lceil>x\<rceil>)"

fun round_int :: "rounding_mode \<Rightarrow> rat \<Rightarrow> int" where
  "round_int ROUND_DOWN x = trunc_int x"
| "round_int ROUND_UP x = (if 0 \<le> x then \<lceil>x\<rceil> else \<lfloor>x\<rfloor>)"
| "round_int ROUND_CEILING x = \<lceil>x\<rceil>"
| "round_int ROUND_HALF_UP x = (if 0 \<le> x then \<lfloor>x + 1/2\<rfloor> else \<lceil>x - 1/2\<rceil>)"
| "round_int ROUND_HALF_EVEN x = round_half_even x"

text \<open>\<open>x.to_integral_value(rounding)\<close>: exact, whatever the number of digits.\<close>

definition to_integral_value :: "rounding_mode \<Rightarrow> dec \<Rightarrow> dec" where
  "to_integral_value m x = of_int (round_int m x)"

text \<open>\<open>Decimal("1").scaleb(-k)\<close>: ten to the power \<open>-k\<close>.\<close>

definition quantum :: "int \<Rightarrow> dec" where
  "quantum k = bpow 10 (- k)"

text \<open>\<open>x.quantize(Decimal("1").scaleb(-k), rounding)\<close>: InvalidOperation beyond 28 digits.\<close>

definition dquantize :: "rounding_mode \<Rightarrow> int \<Rightarrow> dec \<Rightarrow> dec result" where
  "dquantize m k x =
     (let n = round_int m (x / quantum k)
      in if \<bar>n\<bar> < 10 ^ 28 then Inr (of_int n * quantum k) else Inl InvalidOperation)"

text \<open>A value of at most 28 significant digits.\<close>

definition fits :: "dec \<Rightarrow> bool" where
  "fits x \<longleftrightarrow> drnd x = x"

subsection \<open>The laws of the context's rounding\<close>

interpretation dec: rounding drnd
  unfolding drnd_def by (rule rounding_rnd_sig) simp_all

declare dec.rnd_zero [simp]

lemmas dec_defs = dadd_def dsub_def dmul_def ddiv_def dneg_def dabs_def

lemma fits_drnd [simp]: "fits (drnd x)"
  by (simp add: fits_def dec.rnd_idem)

lemma fits_0 [simp]: "fits 0"
  by (simp add: fits_def)

lemma fits_ops [simp]:
  "fits (dadd a b)" "fits (dsub a b)" "fits (dmul a b)" "fits (ddiv a b)" "fits (dneg a)" "fits (dabs a)"
  by (simp_all add: dec_defs)

lemma fits_minus [simp]: "fits (- x) \<longleftrightarrow> fits x"
  by (simp add: fits_def dec.rnd_minus)

lemma fits_scaled:
  assumes "\<bar>n\<bar> < 10 ^ 28"
  shows "fits (of_int n * bpow 10 k)"
  unfolding fits_def drnd_def
proof (rule rnd_sig_exact)
  have "\<bar>of_int n :: rat\<bar> = of_int \<bar>n\<bar>" by simp
  also have "\<dots> < of_int (10 ^ 28)" using assms by (simp only: of_int_less_iff)
  finally show "\<bar>of_int n\<bar> < bpow 10 28" by (simp add: bpow_def)
qed auto

text \<open>
  A code equation that recognises values with at most 20 decimals below \<open>10^8\<close>, which need no
  rounding: it makes evaluation of concrete examples fast.
\<close>

lemma drnd_code [code]:
  "drnd x =
     (case quotient_of x of (n, d) \<Rightarrow>
        if 100000000000000000000 mod d = 0 \<and> \<bar>n\<bar> < 100000000 * d then x else rnd_sig 10 28 x)"
proof -
  obtain n d where nd: "quotient_of x = (n, d)" by fastforce
  have d: "0 < d" using quotient_of_denom_pos [OF nd] .
  have x: "x = of_int n / of_int d" using quotient_of_div [OF nd] .
  have "fits x" if "100000000000000000000 mod d = 0" "\<bar>n\<bar> < 100000000 * d"
  proof -
    from that(1) obtain c where c: "(100000000000000000000 :: int) = d * c" by (auto simp: dvd_def mod_eq_0_iff_dvd)
    then have "0 < c" using d by (simp add: zero_less_mult_iff) (metis zero_less_mult_pos zero_less_numeral)
    then have "\<bar>n\<bar> * c < 100000000 * d * c" using that(2) by (rule mult_strict_right_mono [rotated])
    moreover have "100000000 * d * c = 10 ^ 28" unfolding mult.assoc c [symmetric] by simp
    ultimately have b: "\<bar>n * c\<bar> < 10 ^ 28" using \<open>0 < c\<close> by (simp add: abs_mult)
    have "(100000000000000000000 :: rat) = of_int (d * c)" unfolding c [symmetric] by simp
    then have "x = of_int (n * c) * bpow 10 (- 20)"
      using d \<open>0 < c\<close> by (simp add: x bpow_def field_simps)
    then show ?thesis using fits_scaled [OF b, of "- 20"] by simp
  qed
  then show ?thesis using nd by (simp add: fits_def drnd_def)
qed

lemma fits_of_int: "\<bar>n\<bar> < 10 ^ 28 \<Longrightarrow> fits (of_int n)"
  using fits_scaled [of n 0] by simp

lemma fits_1 [simp]: "fits 1"
  using fits_of_int [of 1] by simp

lemma fits_max: "fits a \<Longrightarrow> fits b \<Longrightarrow> fits (max a b)"
  by (simp add: max_def)

lemma fits_min: "fits a \<Longrightarrow> fits b \<Longrightarrow> fits (min a b)"
  by (simp add: min_def)

lemma dadd_exact: "fits (a + b) \<Longrightarrow> dadd a b = a + b"
  by (simp add: dadd_def fits_def)

lemma dsub_exact: "fits (a - b) \<Longrightarrow> dsub a b = a - b"
  by (simp add: dsub_def fits_def)

lemma dmul_exact: "fits (a * b) \<Longrightarrow> dmul a b = a * b"
  by (simp add: dmul_def fits_def)

lemma dsub_self [simp]: "dsub a a = 0"
  by (simp add: dsub_def)

lemma dsub_0 [simp]: "dsub a 0 = drnd a"
  by (simp add: dsub_def)

lemma dadd_0 [simp]: "dadd a 0 = drnd a" "dadd 0 a = drnd a"
  by (simp_all add: dadd_def)

lemma dmul_0 [simp]: "dmul a 0 = 0" "dmul 0 a = 0"
  by (simp_all add: dmul_def)

lemma dmul_1 [simp]: "dmul a 1 = drnd a" "dmul 1 a = drnd a"
  by (simp_all add: dmul_def)

subsection \<open>Comparisons that survive rounding\<close>

lemma dsub_nonneg_iff [dec_sign]: "0 \<le> dsub a b \<longleftrightarrow> b \<le> a"
  by (simp add: dsub_def dec.rnd_nonneg_iff)

lemma dsub_pos_iff [dec_sign]: "0 < dsub a b \<longleftrightarrow> b < a"
  by (simp add: dsub_def dec.rnd_pos_iff)

lemma dsub_eq_0_iff [dec_sign]: "dsub a b = 0 \<longleftrightarrow> a = b"
  by (simp add: dsub_def dec.rnd_eq_0_iff)

lemma dadd_nonneg [dec_sign]: "0 \<le> a \<Longrightarrow> 0 \<le> b \<Longrightarrow> 0 \<le> dadd a b"
  by (simp add: dadd_def dec.rnd_nonneg_iff)

lemma dadd_pos_iff [dec_sign]: "0 < dadd a b \<longleftrightarrow> 0 < a + b"
  by (simp add: dadd_def dec.rnd_pos_iff)

lemma dadd_nonneg_iff: "0 \<le> dadd a b \<longleftrightarrow> 0 \<le> a + b"
  by (simp add: dadd_def dec.rnd_nonneg_iff)

lemma dmul_nonneg [dec_sign]: "0 \<le> a \<Longrightarrow> 0 \<le> b \<Longrightarrow> 0 \<le> dmul a b"
  by (simp add: dmul_def dec.rnd_nonneg_iff)

lemma dmul_pos [dec_sign]: "0 < a \<Longrightarrow> 0 < b \<Longrightarrow> 0 < dmul a b"
  by (simp add: dmul_def dec.rnd_pos_iff)

lemma ddiv_nonneg [dec_sign]: "0 \<le> a \<Longrightarrow> 0 \<le> b \<Longrightarrow> 0 \<le> ddiv a b"
  by (simp add: ddiv_def dec.rnd_nonneg_iff)

lemma ddiv_pos [dec_sign]: "0 < a \<Longrightarrow> 0 < b \<Longrightarrow> 0 < ddiv a b"
  by (simp add: ddiv_def dec.rnd_pos_iff)

lemma dabs_nonneg [dec_sign]: "0 \<le> dabs a"
  by (simp add: dabs_def dec.rnd_nonneg_iff)

lemma dadd_mono: "a \<le> a' \<Longrightarrow> b \<le> b' \<Longrightarrow> dadd a b \<le> dadd a' b'"
  by (simp add: dadd_def dec.rnd_mono)

lemma dsub_mono: "a \<le> a' \<Longrightarrow> b' \<le> b \<Longrightarrow> dsub a b \<le> dsub a' b'"
  by (simp add: dsub_def dec.rnd_mono)

lemma dmul_mono: "0 \<le> b \<Longrightarrow> a \<le> a' \<Longrightarrow> dmul a b \<le> dmul a' b"
  by (simp add: dmul_def dec.rnd_mono mult_right_mono)

lemma ddiv_mono: "0 \<le> b \<Longrightarrow> a \<le> a' \<Longrightarrow> ddiv a b \<le> ddiv a' b"
  by (simp add: ddiv_def dec.rnd_mono divide_right_mono)

lemma drnd_le_fits: "fits y \<Longrightarrow> x \<le> y \<Longrightarrow> drnd x \<le> y"
  using dec.rnd_le_exact by (simp add: fits_def)

lemma drnd_ge_fits: "fits y \<Longrightarrow> y \<le> x \<Longrightarrow> y \<le> drnd x"
  using dec.rnd_ge_exact by (simp add: fits_def)

lemma dsub_le: "fits a \<Longrightarrow> 0 \<le> b \<Longrightarrow> dsub a b \<le> a"
  by (simp add: dsub_def drnd_le_fits)

lemma dadd_ge: "fits a \<Longrightarrow> 0 \<le> b \<Longrightarrow> a \<le> dadd a b"
  by (simp add: dadd_def drnd_ge_fits)

lemma dmul_le: "fits a \<Longrightarrow> 0 \<le> a \<Longrightarrow> 0 \<le> b \<Longrightarrow> b \<le> 1 \<Longrightarrow> dmul a b \<le> a"
  unfolding dmul_def by (rule drnd_le_fits) (auto simp: mult_left_le)

lemma ddiv_le: "fits a \<Longrightarrow> 0 \<le> a \<Longrightarrow> 1 \<le> b \<Longrightarrow> ddiv a b \<le> a"
  unfolding ddiv_def by (rule drnd_le_fits) (auto simp: divide_le_eq mult_right_le_one_le mult_le_cancel_left1)

lemma dsum_nonneg:
  assumes "\<forall>x \<in> set xs. 0 \<le> x"
  shows "0 \<le> dsum xs"
proof -
  have "0 \<le> acc \<Longrightarrow> \<forall>x \<in> set xs. 0 \<le> x \<Longrightarrow> 0 \<le> fold (\<lambda>x acc. dadd acc x) xs acc" for acc
    by (induction xs arbitrary: acc) (auto simp: dec_sign)
  then show ?thesis using assms by (simp add: dsum_def)
qed

lemma fits_dsum [simp]: "fits (dsum xs)"
proof -
  have "fits acc \<Longrightarrow> fits (fold (\<lambda>x acc. dadd acc x) xs acc)" for acc
    by (induction xs arbitrary: acc) auto
  then show ?thesis by (simp add: dsum_def)
qed

subsection \<open>Rounding to integers and to a quantum\<close>

lemma trunc_int_of_int [simp]: "trunc_int (of_int n) = n"
  by (simp add: trunc_int_def)

lemma round_int_of_int [simp]: "round_int m (of_int n) = n"
proof (cases m)
  case ROUND_HALF_UP
  have "\<lfloor>(of_int n :: rat) + 1/2\<rfloor> = n" "\<lceil>(of_int n :: rat) - 1/2\<rceil> = n" by linarith+
  then show ?thesis by (simp add: ROUND_HALF_UP)
qed auto

lemma trunc_int_bounds:
  "0 \<le> x \<Longrightarrow> 0 \<le> trunc_int x" "0 \<le> x \<Longrightarrow> of_int (trunc_int x) \<le> x"
  "0 \<le> x \<Longrightarrow> x < of_int (trunc_int x) + 1"
  using floor_correct [of x] by (simp_all add: trunc_int_def)

lemma trunc_int_mono:
  assumes "x \<le> y"
  shows "trunc_int x \<le> trunc_int y"
proof -
  consider "0 \<le> x" | "x < 0" "0 \<le> y" | "x < 0" "y < 0" by linarith
  then show ?thesis
  proof cases
    case 1
    then show ?thesis using assms by (simp add: trunc_int_def floor_mono)
  next
    case 2
    then have "\<lceil>x\<rceil> \<le> 0" "0 \<le> \<lfloor>y\<rfloor>" by (simp_all add: ceiling_le_iff)
    then have "\<lceil>x\<rceil> \<le> \<lfloor>y\<rfloor>" by (rule order_trans)
    then show ?thesis using 2 by (simp add: trunc_int_def)
  next
    case 3
    then show ?thesis using assms by (simp add: trunc_int_def ceiling_mono)
  qed
qed

lemma trunc_int_abs_le: "\<bar>of_int (trunc_int x)\<bar> \<le> \<bar>x\<bar>"
proof (cases "0 \<le> x")
  case True
  then show ?thesis by (simp add: trunc_int_def)
next
  case False
  then have "x \<le> of_int \<lceil>x\<rceil>" "\<lceil>x\<rceil> \<le> 0" by (simp_all add: ceiling_le_iff)
  moreover have "(of_int \<lceil>x\<rceil> :: rat) \<le> 0" using \<open>\<lceil>x\<rceil> \<le> 0\<close> by simp
  ultimately show ?thesis using False by (simp add: trunc_int_def)
qed

lemma quantum_pos [simp]: "0 < quantum k"
  by (simp add: quantum_def)

lemma quantum_nonzero [simp]: "quantum k \<noteq> 0"
  using quantum_pos [of k] by linarith

lemma quantum_nonneg [simp]: "0 \<le> quantum k"
  using quantum_pos [of k] by (rule less_imp_le)

lemma dquantize_fits: "dquantize m k x = Inr y \<Longrightarrow> fits y"
  by (auto simp: dquantize_def Let_def quantum_def fits_scaled split: if_splits)

lemma dquantize_idem: "dquantize m k x = Inr y \<Longrightarrow> dquantize m k y = Inr y"
  by (auto simp: dquantize_def Let_def split: if_splits)

lemma dquantize_0 [simp]: "dquantize m k 0 = Inr 0"
  using round_int_of_int [of m 0] by (simp add: dquantize_def)

lemma dquantize_down_bounds:
  assumes "dquantize ROUND_DOWN k x = Inr y" "0 \<le> x"
  shows "0 \<le> y" "y \<le> x" "x < y + quantum k"
proof -
  let ?q = "quantum k"
  let ?n = "trunc_int (x / ?q)"
  have y: "y = of_int ?n * ?q" using assms(1) by (simp add: dquantize_def Let_def split: if_splits)
  have d: "0 \<le> x / ?q" using assms(2) by simp
  note t = trunc_int_bounds [OF d]
  show "0 \<le> y" using t(1) by (simp add: y)
  show "y \<le> x" using t(2) by (simp add: y field_simps)
  show "x < y + ?q" using t(3) by (simp add: y field_simps)
qed

lemma dquantize_down_mono:
  "dquantize ROUND_DOWN k x = Inr y \<Longrightarrow> dquantize ROUND_DOWN k x' = Inr y' \<Longrightarrow> x \<le> x' \<Longrightarrow> y \<le> y'"
  by (auto simp: dquantize_def Let_def divide_right_mono less_imp_le split: if_splits
      intro!: mult_right_mono trunc_int_mono)

subsection \<open>Relative error\<close>

text \<open>One rounding changes a value by at most five units in the twenty-ninth digit.\<close>

definition dec_slack :: rat where
  "dec_slack = 1 + 5 / 10 ^ 28"

lemma dec_slack_ge_1 [simp]: "1 \<le> dec_slack" "0 \<le> dec_slack" "0 < dec_slack"
  by (simp_all add: dec_slack_def)

lemma dec_slack_power_ge_1 [simp]: "1 \<le> dec_slack ^ n"
  by (simp add: one_le_power)

lemma drnd_upper:
  assumes "0 \<le> x"
  shows "drnd x \<le> x * dec_slack"
proof (cases "x = 0")
  case False
  then have x: "0 < x" using assms by simp
  have "bpow 10 (magnitude 10 x + 1 - 28) = bpow 10 (magnitude 10 x) * bpow 10 (- 27)"
    using bpow_add [of 10 "magnitude 10 x" "- 27"] by simp
  also have "\<dots> \<le> x * bpow 10 (- 27)"
    using magnitude_bounds(1) [of 10 x] x by (intro mult_right_mono) (auto simp: less_imp_le)
  finally have u: "bpow 10 (magnitude 10 x + 1 - 28) \<le> x * bpow 10 (- 27)" .
  have "\<bar>drnd x - x\<bar> \<le> bpow 10 (magnitude 10 x + 1 - 28) / 2"
    using rnd_sig_error [of 10 x 28] x unfolding drnd_def by simp
  then have "drnd x - x \<le> x * bpow 10 (- 27) / 2" using u by linarith
  then show ?thesis by (simp add: dec_slack_def bpow_def field_simps)
qed simp

lemma dmul_upper: "0 \<le> a \<Longrightarrow> 0 \<le> b \<Longrightarrow> dmul a b \<le> a * b * dec_slack"
  by (simp add: dmul_def drnd_upper)

lemma ddiv_upper: "0 \<le> a \<Longrightarrow> 0 \<le> b \<Longrightarrow> ddiv a b \<le> a / b * dec_slack"
  using drnd_upper [of "a / b"] by (simp add: ddiv_def)

subsection \<open>Amounts on a decimal grid\<close>

text \<open>Sums and differences of multiples of a power of ten are exact below 28 digits.\<close>

definition grid_multiple :: "int \<Rightarrow> rat \<Rightarrow> bool" where
  "grid_multiple k x \<longleftrightarrow> (\<exists>n. x = of_int n * bpow 10 k)"

lemma grid_multiple_add: "grid_multiple k x \<Longrightarrow> grid_multiple k y \<Longrightarrow> grid_multiple k (x + y)"
  unfolding grid_multiple_def by (metis distrib_right of_int_add)

lemma grid_multiple_diff: "grid_multiple k x \<Longrightarrow> grid_multiple k y \<Longrightarrow> grid_multiple k (x - y)"
  unfolding grid_multiple_def by (metis left_diff_distrib of_int_diff)

lemma grid_multiple_0 [simp]: "grid_multiple k 0"
  by (auto simp: grid_multiple_def intro: exI [of _ 0])

lemma grid_multiple_fits:
  assumes "grid_multiple k x" "\<bar>x\<bar> < bpow 10 (28 + k)"
  shows "fits x"
proof -
  obtain n where n: "x = of_int n * bpow 10 k" using assms(1) by (auto simp: grid_multiple_def)
  have "\<bar>of_int n :: rat\<bar> * bpow 10 k < bpow 10 28 * bpow 10 k"
    using assms(2) by (simp add: n abs_mult bpow_add)
  then have "\<bar>of_int n :: rat\<bar> < bpow 10 28" by simp
  then show ?thesis unfolding fits_def drnd_def by (rule rnd_sig_exact [OF _ _ n, rotated 2]) simp_all
qed

lemma dadd_grid: "grid_multiple k x \<Longrightarrow> grid_multiple k y \<Longrightarrow> \<bar>x + y\<bar> < bpow 10 (28 + k) \<Longrightarrow> dadd x y = x + y"
  using grid_multiple_fits [OF grid_multiple_add] by (simp add: dadd_def fits_def)

lemma dsub_grid: "grid_multiple k x \<Longrightarrow> grid_multiple k y \<Longrightarrow> \<bar>x - y\<bar> < bpow 10 (28 + k) \<Longrightarrow> dsub x y = x - y"
  using grid_multiple_fits [OF grid_multiple_diff] by (simp add: dsub_def fits_def)

end
