(* ===== verification/Money.thy ===== *)
theory Money
  imports Py_Decimal
begin

text \<open>
  Exchange rules and money arithmetic: \<open>SymbolRules\<close>, \<open>quantize_price\<close>, \<open>quantize_quantity\<close>
  and \<open>validate_order\<close> of \<open>src/src/btcbot/domain/models.py\<close>, the money policy and
  \<open>size_order_from_notional\<close> of \<open>src/src/btcbot/domain/money_policy.py\<close>, and the stage 4
  \<open>Quantizer\<close> of \<open>src/src/btcbot/domain/stage4.py\<close>.

  The locale \<open>down_quantizer\<close> is what the order-sizing code relies on when it rounds a
  quantity down to the exchange's grid: the result is a non-negative representable value that
  does not exceed its argument by more than two context roundings.  Its client lemma bounds
  the cost of an order sized from a budget.  It is interpreted on every quantiser of the
  program.
\<close>

subsection \<open>Definitions: exchange rules\<close>

record symbol_rules =
  sr_pair_symbol :: string
  sr_price_scale :: int
  sr_quantity_scale :: int
  sr_min_total :: "dec option"
  sr_min_price :: "dec option"
  sr_max_price :: "dec option"
  sr_min_qty :: "dec option"
  sr_max_qty :: "dec option"
  sr_tick_size :: "dec option"
  sr_step_size :: "dec option"

definition snap :: "rounding_mode \<Rightarrow> dec \<Rightarrow> dec \<Rightarrow> dec" where
  "snap m step v = dmul (to_integral_value m (ddiv v step)) step"

definition quantize_price :: "dec \<Rightarrow> symbol_rules \<Rightarrow> dec result" where
  "quantize_price price rules =
     (if price < 0 then Inl (ValidationError ''price must be >= 0'')
      else case sr_tick_size rules of
        Some tick \<Rightarrow> if 0 < tick then Inr (snap ROUND_DOWN tick price)
                    else dquantize ROUND_DOWN (sr_price_scale rules) price
      | None \<Rightarrow> dquantize ROUND_DOWN (sr_price_scale rules) price)"

definition quantize_quantity :: "dec \<Rightarrow> symbol_rules \<Rightarrow> dec result" where
  "quantize_quantity qty rules =
     (if qty < 0 then Inl (ValidationError ''quantity must be >= 0'')
      else case sr_step_size rules of
        Some step \<Rightarrow> if 0 < step then Inr (snap ROUND_DOWN step qty)
                    else dquantize ROUND_DOWN (sr_quantity_scale rules) qty
      | None \<Rightarrow> dquantize ROUND_DOWN (sr_quantity_scale rules) qty)"

definition below :: "dec \<Rightarrow> dec option \<Rightarrow> bool" where
  "below x bnd = (case bnd of None \<Rightarrow> False | Some l \<Rightarrow> x < l)"

definition above :: "dec \<Rightarrow> dec option \<Rightarrow> bool" where
  "above x bnd = (case bnd of None \<Rightarrow> False | Some l \<Rightarrow> l < x)"

definition validate_order :: "dec \<Rightarrow> dec \<Rightarrow> symbol_rules \<Rightarrow> unit result" where
  "validate_order price qty rules =
     (if price \<le> 0 then Inl (ValidationError ''price must be > 0'')
      else if qty \<le> 0 then Inl (ValidationError ''quantity must be > 0'')
      else rbind (quantize_price price rules) (\<lambda>qp.
        if qp \<noteq> price then Inl (ValidationError ''price scale violation'')
        else rbind (quantize_quantity qty rules) (\<lambda>qq.
          if qq \<noteq> qty then Inl (ValidationError ''quantity scale violation'')
          else if below price (sr_min_price rules) then Inl (ValidationError ''price below min_price'')
          else if above price (sr_max_price rules) then Inl (ValidationError ''price above max_price'')
          else if below qty (sr_min_qty rules) then Inl (ValidationError ''quantity below min_qty'')
          else if above qty (sr_max_qty rules) then Inl (ValidationError ''quantity above max_qty'')
          else if below (dmul price qty) (sr_min_total rules)
            then Inl (ValidationError ''total below min_total'')
          else Inr ())))"

text \<open>Exceptions that \<open>except ValueError\<close> catches; \<open>ValidationError\<close> is a subclass.\<close>

fun is_value_error :: "py_error \<Rightarrow> bool" where
  "is_value_error (ValueError _) = True"
| "is_value_error (ValidationError _) = True"
| "is_value_error _ = False"

subsection \<open>Definitions: order sizing\<close>

datatype order_sizing_status = OK | BELOW_MIN_NOTIONAL | INVALID_PRICE | INVALID_QUANTITY | VIOLATES_RULES

record order_sizing_result =
  osr_status :: order_sizing_status
  osr_price :: dec
  osr_quantity :: dec
  osr_notional :: dec
  osr_reason :: "string option"

definition sizing :: "order_sizing_status \<Rightarrow> dec \<Rightarrow> dec \<Rightarrow> dec \<Rightarrow> string option \<Rightarrow> order_sizing_result" where
  "sizing st p q n r =
     \<lparr>osr_status = st, osr_price = p, osr_quantity = q, osr_notional = n, osr_reason = r\<rparr>"

text \<open>\<open>a or b\<close> on an optional decimal: \<open>None\<close> and zero are falsy.\<close>

definition dec_or :: "dec option \<Rightarrow> dec \<Rightarrow> dec" where
  "dec_or a b = (case a of None \<Rightarrow> b | Some x \<Rightarrow> if x = 0 then b else x)"

definition size_order_from_notional ::
  "dec \<Rightarrow> dec \<Rightarrow> symbol_rules \<Rightarrow> dec \<Rightarrow> bool \<Rightarrow> order_sizing_result result" where
  "size_order_from_notional desired_notional desired_price rules fallback_min upgrade =
     (let min_notional = dec_or (sr_min_total rules) fallback_min in
      if desired_notional \<le> 0 then
        Inr (sizing INVALID_QUANTITY 0 0 0 (Some ''desired_notional_non_positive''))
      else if desired_price \<le> 0 then
        Inr (sizing INVALID_PRICE 0 0 0 (Some ''desired_price_non_positive''))
      else if desired_notional < min_notional \<and> \<not> upgrade then
        rbind (quantize_price desired_price rules) (\<lambda>qp.
          Inr (sizing BELOW_MIN_NOTIONAL qp 0 0 (Some ''desired_below_min_notional'')))
      else
        let target = (if upgrade then max desired_notional min_notional else desired_notional) in
        rbind (quantize_price desired_price rules) (\<lambda>qp.
          if qp \<le> 0 then
            Inr (sizing INVALID_PRICE qp 0 0 (Some ''price_non_positive_after_quantize''))
          else rbind (quantize_quantity (ddiv target qp) rules) (\<lambda>qq.
            let notional = dmul qp qq in
            if qq \<le> 0 then
              Inr (sizing INVALID_QUANTITY qp qq notional (Some ''quantity_non_positive_after_quantize''))
            else if 0 < min_notional \<and> notional < min_notional then
              Inr (sizing BELOW_MIN_NOTIONAL qp qq notional
                     (Some ''notional_below_min_notional_after_quantize''))
            else case validate_order qp qq rules of
              Inl e \<Rightarrow> if is_value_error e
                       then Inr (sizing VIOLATES_RULES qp qq notional
                                   (Some ''symbol_rule_validation_failed''))
                       else Inl e
            | Inr _ \<Rightarrow> Inr (sizing OK qp qq notional None))))"

subsection \<open>Definitions: the money policy\<close>

record money_policy =
  mp_price_tick :: dec
  mp_qty_step :: dec
  mp_quote_precision :: int
  mp_base_precision :: int
  mp_fee_precision :: int
  mp_rounding_of :: rounding_mode
  mp_epsilon :: dec

definition DEFAULT_MONEY_POLICY :: money_policy where
  "DEFAULT_MONEY_POLICY =
     \<lparr>mp_price_tick = 1 / 100, mp_qty_step = 1 / 10 ^ 8, mp_quote_precision = 8, mp_base_precision = 8,
      mp_fee_precision = 8, mp_rounding_of = ROUND_DOWN, mp_epsilon = 1 / 10 ^ 8\<rparr>"

definition quantize_to_step :: "dec \<Rightarrow> dec \<Rightarrow> rounding_mode \<Rightarrow> dec" where
  "quantize_to_step value step m = (if step \<le> 0 then value else snap m step value)"

definition round_price :: "dec \<Rightarrow> money_policy \<Rightarrow> dec" where
  "round_price price policy = quantize_to_step price (mp_price_tick policy) (mp_rounding_of policy)"

definition round_qty :: "dec \<Rightarrow> money_policy \<Rightarrow> dec" where
  "round_qty qty policy = quantize_to_step qty (mp_qty_step policy) (mp_rounding_of policy)"

definition round_fee :: "dec \<Rightarrow> money_policy \<Rightarrow> dec result" where
  "round_fee fee policy = dquantize (mp_rounding_of policy) (max 0 (mp_fee_precision policy)) fee"

definition round_quote :: "dec \<Rightarrow> money_policy \<Rightarrow> dec result" where
  "round_quote amount policy = dquantize (mp_rounding_of policy) (max 0 (mp_quote_precision policy)) amount"

subsection \<open>Definitions: the stage 4 quantiser\<close>

record exchange_rules =
  er_tick_size :: dec
  er_step_size :: dec
  er_min_notional :: dec
  er_price_precision :: int
  er_qty_precision :: int

definition Quantizer_quantize_price :: "dec \<Rightarrow> exchange_rules \<Rightarrow> dec result" where
  "Quantizer_quantize_price price rules =
     (if price \<le> 0 then Inl (ValueError ''price must be > 0'')
      else if 0 < er_tick_size rules then Inr (snap ROUND_DOWN (er_tick_size rules) price)
      else dquantize ROUND_DOWN (er_price_precision rules) price)"

definition Quantizer_quantize_qty :: "dec \<Rightarrow> exchange_rules \<Rightarrow> dec result" where
  "Quantizer_quantize_qty qty rules =
     (if qty \<le> 0 then Inl (ValueError ''qty must be > 0'')
      else if 0 < er_step_size rules then Inr (snap ROUND_DOWN (er_step_size rules) qty)
      else dquantize ROUND_DOWN (er_qty_precision rules) qty)"

definition Quantizer_quantize_qty_up :: "dec \<Rightarrow> exchange_rules \<Rightarrow> dec result" where
  "Quantizer_quantize_qty_up qty rules =
     (if qty \<le> 0 then Inr 0
      else if 0 < er_step_size rules then Inr (snap ROUND_CEILING (er_step_size rules) qty)
      else dquantize ROUND_UP (er_qty_precision rules) qty)"

definition validate_min_notional :: "dec \<Rightarrow> dec \<Rightarrow> exchange_rules \<Rightarrow> bool" where
  "validate_min_notional price qty rules = (er_min_notional rules \<le> dmul price qty)"

subsection \<open>Snapping to a grid\<close>

lemma snap_fits [simp]: "fits (snap m step v)"
  by (simp add: snap_def)

lemma snap_0 [simp]: "snap m step 0 = 0"
  using round_int_of_int [of m 0] by (simp add: snap_def ddiv_def to_integral_value_def)

lemma snap_down_nonneg: "0 < step \<Longrightarrow> 0 \<le> v \<Longrightarrow> 0 \<le> snap ROUND_DOWN step v"
  by (simp add: snap_def to_integral_value_def trunc_int_bounds(1) dec_sign)

lemma snap_down_upper:
  assumes "0 < step" "0 \<le> v"
  shows "snap ROUND_DOWN step v \<le> v * dec_slack ^ 2"
proof -
  let ?n = "of_int (trunc_int (ddiv v step)) :: rat"
  have d: "0 \<le> ddiv v step" using assms by (simp add: dec_sign)
  have "?n \<le> v / step * dec_slack"
    using trunc_int_bounds(2) [OF d] ddiv_upper [of v step] assms by linarith
  then have "?n * step * dec_slack \<le> v / step * dec_slack * step * dec_slack"
    using assms by (intro mult_right_mono) auto
  moreover have "snap ROUND_DOWN step v \<le> ?n * step * dec_slack"
    using assms trunc_int_bounds(1) [OF d] by (simp add: snap_def to_integral_value_def dmul_upper)
  ultimately have "snap ROUND_DOWN step v \<le> v / step * dec_slack * step * dec_slack"
    by (rule order_trans [rotated])
  also have "\<dots> = v * dec_slack ^ 2" using assms by (simp add: power2_eq_square)
  finally show ?thesis .
qed

lemma snap_mono:
  assumes "0 < step" "v \<le> w"
  shows "snap ROUND_DOWN step v \<le> snap ROUND_DOWN step w"
  unfolding snap_def to_integral_value_def using assms
  by (intro dmul_mono) (auto intro!: trunc_int_mono ddiv_mono)

text \<open>Where the quotient and the product need no rounding, snapping is exact.\<close>

lemma snap_down_exact:
  assumes "0 < step" "0 \<le> v" "fits (v / step)" "fits (of_int (trunc_int (v / step)) * step)"
  shows "snap ROUND_DOWN step v \<le> v" "v < snap ROUND_DOWN step v + step"
proof -
  have eq: "snap ROUND_DOWN step v = of_int (trunc_int (v / step)) * step"
    using assms(3,4) by (simp add: snap_def to_integral_value_def ddiv_def dmul_def fits_def)
  have d: "0 \<le> v / step" using assms by simp
  show "snap ROUND_DOWN step v \<le> v"
    using trunc_int_bounds(2) [OF d] assms(1) by (simp add: eq field_simps)
  show "v < snap ROUND_DOWN step v + step"
    using trunc_int_bounds(3) [OF d] assms(1) by (simp add: eq field_simps)
qed

lemma fits_trunc: "fits (of_int (trunc_int (drnd x)))"
proof (cases "\<bar>drnd x\<bar> < 10 ^ 28")
  case True
  then have "\<bar>of_int (trunc_int (drnd x)) :: rat\<bar> < of_int (10 ^ 28)"
    using trunc_int_abs_le [of "drnd x"] by simp
  then have "of_int \<bar>trunc_int (drnd x)\<bar> < (of_int (10 ^ 28) :: rat)" by simp
  then show ?thesis by (intro fits_of_int) (simp only: of_int_less_iff)
next
  case False
  obtain n k where nk: "drnd x = of_int n * bpow 10 k" "\<bar>of_int n\<bar> < bpow 10 28"
    using rnd_sig_repr [of 10 28 x] unfolding drnd_def by auto
  have "\<not> k < 0"
  proof
    assume "k < 0"
    then have "bpow 10 k \<le> 1" using bpow_mono [of 10 k 0] by simp
    then have "\<bar>drnd x\<bar> \<le> \<bar>of_int n\<bar>" by (simp add: nk abs_mult mult_left_le)
    then show False using nk(2) False by (simp add: bpow_def)
  qed
  then obtain m where "bpow 10 k = of_int m" using bpow_Ints [of k 10] by auto
  then have "drnd x = of_int (n * m)" using nk by simp
  then have "of_int (trunc_int (drnd x)) = drnd x" by (metis trunc_int_of_int)
  then show ?thesis by simp
qed

lemma snap_idem:
  assumes "0 < step" "fits (of_int (trunc_int (ddiv v step)) * step)"
  shows "snap ROUND_DOWN step (snap ROUND_DOWN step v) = snap ROUND_DOWN step v"
proof -
  let ?n = "trunc_int (ddiv v step)"
  have eq: "snap ROUND_DOWN step v = of_int ?n * step"
    using assms(2) by (simp add: snap_def to_integral_value_def dmul_exact)
  have "fits (of_int ?n)" unfolding ddiv_def by (rule fits_trunc)
  then have "ddiv (of_int ?n * step) step = of_int ?n"
    using assms(1) by (simp add: ddiv_def fits_def)
  then have "snap ROUND_DOWN step (of_int ?n * step) = of_int ?n * step"
    using assms(2) by (simp add: snap_def to_integral_value_def dmul_exact)
  then show ?thesis by (simp add: eq)
qed

text \<open>The grid of a positive step: its multiples, each rounded once.\<close>

definition on_step :: "dec \<Rightarrow> dec \<Rightarrow> bool" where
  "on_step step x \<longleftrightarrow> (0 < step \<longrightarrow> (\<exists>n. x = dmul (of_int n) step))"

lemma on_step_quantized [simp]: "on_step step (quantize_to_step v step m)"
  by (auto simp: on_step_def quantize_to_step_def snap_def to_integral_value_def)

subsection \<open>The interface of a quantiser that rounds down\<close>

locale down_quantizer =
  fixes q :: "dec \<Rightarrow> dec result"
  assumes q_nonneg: "0 \<le> x \<Longrightarrow> q x = Inr y \<Longrightarrow> 0 \<le> y"
    and q_upper: "0 \<le> x \<Longrightarrow> q x = Inr y \<Longrightarrow> y \<le> x * dec_slack ^ 2"
begin

text \<open>An order sized as \<open>q(budget / price)\<close> costs at most the budget, up to four roundings.\<close>

lemma spend_bound:
  assumes "0 < price" "0 \<le> budget" "q (ddiv budget price) = Inr qty"
  shows "dmul price qty \<le> budget * dec_slack ^ 4"
proof -
  have d: "0 \<le> ddiv budget price" using assms by (simp add: dec_sign)
  have y: "0 \<le> qty" "qty \<le> ddiv budget price * dec_slack ^ 2"
    using q_nonneg [OF d assms(3)] q_upper [OF d assms(3)] by auto
  have "qty \<le> budget / price * dec_slack * dec_slack ^ 2"
    using y(2) ddiv_upper [of budget price] assms
    by (meson dec_slack_ge_1(2) less_imp_le mult_right_mono order_trans zero_le_power)
  then have "price * qty \<le> price * (budget / price * dec_slack * dec_slack ^ 2)"
    using assms(1) by (intro mult_left_mono) auto
  then have "price * qty * dec_slack \<le> price * (budget / price * dec_slack * dec_slack ^ 2) * dec_slack"
    by (intro mult_right_mono) auto
  moreover have "dmul price qty \<le> price * qty * dec_slack" using assms y by (simp add: dmul_upper)
  ultimately have "dmul price qty \<le> price * (budget / price * dec_slack * dec_slack ^ 2) * dec_slack"
    by (rule order_trans [rotated])
  also have "\<dots> = budget * dec_slack ^ 4"
    using assms by (simp add: power2_eq_square power4_eq_xxxx)
  finally show ?thesis .
qed

lemma q_zero: "q 0 = Inr y \<Longrightarrow> y = 0"
  using q_nonneg [of 0 y] q_upper [of 0 y] by simp

end

lemma slack_square: "0 \<le> x \<Longrightarrow> x \<le> x * dec_slack ^ 2"
  using mult_left_mono [of 1 "dec_slack ^ 2" x] by simp

lemma dquantize_down_slack:
  "0 \<le> x \<Longrightarrow> dquantize ROUND_DOWN k x = Inr y \<Longrightarrow> y \<le> x * dec_slack ^ 2"
  using dquantize_down_bounds(2) [of k x y] slack_square [of x] by linarith

interpretation qprice: down_quantizer "\<lambda>x. quantize_price x rules" for rules
  by unfold_locales
    (auto simp: quantize_price_def snap_down_nonneg snap_down_upper dquantize_down_slack
      intro: dquantize_down_bounds(1) split: option.splits if_splits)

interpretation qqty: down_quantizer "\<lambda>x. quantize_quantity x rules" for rules
  by unfold_locales
    (auto simp: quantize_quantity_def snap_down_nonneg snap_down_upper dquantize_down_slack
      intro: dquantize_down_bounds(1) split: option.splits if_splits)

interpretation s4price: down_quantizer "\<lambda>x. Quantizer_quantize_price x rules" for rules
  by unfold_locales
    (auto simp: Quantizer_quantize_price_def snap_down_nonneg snap_down_upper dquantize_down_slack
      intro: dquantize_down_bounds(1) split: if_splits)

interpretation s4qty: down_quantizer "\<lambda>x. Quantizer_quantize_qty x rules" for rules
  by unfold_locales
    (auto simp: Quantizer_quantize_qty_def snap_down_nonneg snap_down_upper dquantize_down_slack
      intro: dquantize_down_bounds(1) split: if_splits)

text \<open>The money policy rounds down in every policy the program builds.\<close>

definition down_policy :: "money_policy \<Rightarrow> bool" where
  "down_policy policy \<longleftrightarrow> mp_rounding_of policy = ROUND_DOWN"

lemma down_policy_default [simp]: "down_policy DEFAULT_MONEY_POLICY"
  by (simp add: down_policy_def DEFAULT_MONEY_POLICY_def)

lemma down_quantizer_round_qty:
  "down_policy policy \<Longrightarrow> down_quantizer (\<lambda>x. Inr (round_qty x policy))"
  by unfold_locales
    (auto simp: down_policy_def round_qty_def quantize_to_step_def snap_down_nonneg snap_down_upper
      slack_square)

lemma down_quantizer_round_price:
  "down_policy policy \<Longrightarrow> down_quantizer (\<lambda>x. Inr (round_price x policy))"
  by unfold_locales
    (auto simp: down_policy_def round_price_def quantize_to_step_def snap_down_nonneg snap_down_upper
      slack_square)

interpretation rqty: down_quantizer "\<lambda>x. Inr (round_qty x DEFAULT_MONEY_POLICY)"
  by (rule down_quantizer_round_qty) simp

lemma round_qty_nonneg: "down_policy policy \<Longrightarrow> 0 \<le> x \<Longrightarrow> 0 \<le> round_qty x policy"
  using down_quantizer.q_nonneg [OF down_quantizer_round_qty] by blast

lemma round_price_nonneg: "down_policy policy \<Longrightarrow> 0 \<le> x \<Longrightarrow> 0 \<le> round_price x policy"
  using down_quantizer.q_nonneg [OF down_quantizer_round_price] by blast

lemma round_qty_0 [simp]: "round_qty 0 policy = 0"
  by (simp add: round_qty_def quantize_to_step_def)

subsection \<open>Correctness of order validation and sizing\<close>

definition within_rules :: "dec \<Rightarrow> dec \<Rightarrow> symbol_rules \<Rightarrow> bool" where
  "within_rules price qty rules \<longleftrightarrow>
     0 < price \<and> 0 < qty \<and> quantize_price price rules = Inr price \<and>
     quantize_quantity qty rules = Inr qty \<and> \<not> below price (sr_min_price rules) \<and>
     \<not> above price (sr_max_price rules) \<and> \<not> below qty (sr_min_qty rules) \<and>
     \<not> above qty (sr_max_qty rules) \<and> \<not> below (dmul price qty) (sr_min_total rules)"

lemma validate_order_within: "validate_order price qty rules = Inr () \<Longrightarrow> within_rules price qty rules"
  by (auto simp: validate_order_def within_rules_def rbind_eq_Inr_iff split: if_splits)

text \<open>
  Order validation accepts exactly the orders that are inside the exchange's rules:
  positive, on the price and quantity grid, inside the price and quantity ranges, and worth at
  least the minimum total.
\<close>

theorem validate_order_iff: "validate_order price qty rules = Inr () \<longleftrightarrow> within_rules price qty rules"
  by (auto dest: validate_order_within) (auto simp: validate_order_def within_rules_def)

lemma quantize_price_error:
  "quantize_price p rules = Inl e \<Longrightarrow> 0 \<le> p \<Longrightarrow> e = InvalidOperation"
  by (auto simp: quantize_price_def dquantize_def Let_def split: if_splits option.splits)

lemma quantize_quantity_error:
  "quantize_quantity p rules = Inl e \<Longrightarrow> 0 \<le> p \<Longrightarrow> e = InvalidOperation"
  by (auto simp: quantize_quantity_def dquantize_def Let_def split: if_splits option.splits)

lemma validate_order_error:
  "validate_order price qty rules = Inl e \<Longrightarrow> is_value_error e \<or> e = InvalidOperation"
  by (auto simp: validate_order_def rbind_eq_Inl_iff
      dest: quantize_price_error quantize_quantity_error split: if_splits)

lemma size_order_OK_elim:
  assumes "size_order_from_notional desired price rules fallback upgrade = Inr r" "osr_status r = OK"
  obtains "0 < desired" "0 < price"
    "quantize_price price rules = Inr (osr_price r)" "0 < osr_price r"
    "quantize_quantity
       (ddiv (if upgrade then max desired (dec_or (sr_min_total rules) fallback) else desired)
         (osr_price r)) rules = Inr (osr_quantity r)"
    "osr_notional r = dmul (osr_price r) (osr_quantity r)" "osr_reason r = None"
    "dec_or (sr_min_total rules) fallback \<le> 0 \<or> dec_or (sr_min_total rules) fallback \<le> osr_notional r"
    "validate_order (osr_price r) (osr_quantity r) rules = Inr ()"
  using assms
  by (auto simp: size_order_from_notional_def Let_def sizing_def rbind_eq_Inr_iff not_less not_le
      split: if_splits sum.splits)

text \<open>
  (C27) An order sized with status OK is one the exchange accepts: it is inside the symbol's
  rules, its notional is the rounded product of its price and quantity and reaches the
  effective minimum, and it costs no more than the requested notional (or the minimum it was
  upgraded to), up to the four context roundings of the computation.
\<close>

theorem size_order_ok_sound:
  assumes "size_order_from_notional desired price rules fallback upgrade = Inr r"
    and "osr_status r = OK"
  shows "within_rules (osr_price r) (osr_quantity r) rules
    \<and> osr_notional r = dmul (osr_price r) (osr_quantity r)
    \<and> (0 < dec_or (sr_min_total rules) fallback \<longrightarrow> dec_or (sr_min_total rules) fallback \<le> osr_notional r)
    \<and> osr_notional r
        \<le> (if upgrade then max desired (dec_or (sr_min_total rules) fallback) else desired) * dec_slack ^ 4"
proof (rule size_order_OK_elim [OF assms], intro conjI)
  let ?t = "if upgrade then max desired (dec_or (sr_min_total rules) fallback) else desired"
  assume d: "0 < desired" and p: "0 < osr_price r"
    and q: "quantize_quantity (ddiv ?t (osr_price r)) rules = Inr (osr_quantity r)"
    and n: "osr_notional r = dmul (osr_price r) (osr_quantity r)"
    and m: "dec_or (sr_min_total rules) fallback \<le> 0
            \<or> dec_or (sr_min_total rules) fallback \<le> osr_notional r"
    and v: "validate_order (osr_price r) (osr_quantity r) rules = Inr ()"
  show "within_rules (osr_price r) (osr_quantity r) rules" using v by (rule validate_order_within)
  show "osr_notional r = dmul (osr_price r) (osr_quantity r)" by (rule n)
  show "0 < dec_or (sr_min_total rules) fallback
        \<longrightarrow> dec_or (sr_min_total rules) fallback \<le> osr_notional r" using m by auto
  show "osr_notional r \<le> ?t * dec_slack ^ 4"
    unfolding n by (rule qqty.spend_bound [OF p _ q]) (use d in auto)
qed

definition btc_rules :: symbol_rules where
  "btc_rules =
     \<lparr>sr_pair_symbol = ''BTCTRY'', sr_price_scale = 2, sr_quantity_scale = 8, sr_min_total = Some 100,
      sr_min_price = Some 1, sr_max_price = None, sr_min_qty = None, sr_max_qty = None,
      sr_tick_size = Some (1 / 10), sr_step_size = Some (1 / 10 ^ 4)\<rparr>"

definition btc_sized :: order_sizing_result where
  "btc_sized = sizing OK (12345 / 10) (4050 / 10 ^ 4) (49997250 / 10 ^ 5) None"

lemma btc_sized_eq: "size_order_from_notional 500 (123456 / 100) btc_rules 10 False = Inr btc_sized"
  by code_simp

theorem size_order_ok_sound_witness:
  "size_order_from_notional 500 (123456 / 100) btc_rules 10 False = Inr btc_sized
   \<and> osr_status btc_sized = OK \<and> within_rules (osr_price btc_sized) (osr_quantity btc_sized) btc_rules"
  using size_order_ok_sound [OF btc_sized_eq] btc_sized_eq by (simp add: btc_sized_def sizing_def)

definition quantizer_fails :: "symbol_rules \<Rightarrow> py_error \<Rightarrow> bool" where
  "quantizer_fails rules e \<longleftrightarrow>
     (\<exists>p \<ge> 0. quantize_price p rules = Inl e) \<or> (\<exists>q \<ge> 0. quantize_quantity q rules = Inl e)"

lemma quantizer_failsI:
  "0 \<le> p \<Longrightarrow> quantize_price p rules = Inl e \<Longrightarrow> quantizer_fails rules e"
  "0 \<le> p \<Longrightarrow> quantize_quantity p rules = Inl e \<Longrightarrow> quantizer_fails rules e"
  by (auto simp: quantizer_fails_def)

lemma validate_order_fails:
  "validate_order p q rules = Inl e \<Longrightarrow> \<not> is_value_error e \<Longrightarrow> quantizer_fails rules e"
  by (auto simp: validate_order_def rbind_eq_Inl_iff not_le intro: quantizer_failsI [OF less_imp_le]
      split: if_splits)

lemma size_order_error:
  assumes "size_order_from_notional desired price rules fallback upgrade = Inl e"
  shows "quantizer_fails rules e"
proof -
  let ?m = "dec_or (sr_min_total rules) fallback"
  let ?t = "if upgrade then max desired ?m else desired"
  have d: "0 < desired" "0 < price"
    using assms by (auto simp: size_order_from_notional_def Let_def split: if_splits)
  then have t: "0 \<le> ?t" by auto
  show ?thesis
  proof (cases "quantize_price price rules")
    case (Inl e')
    then have "e' = e" using assms d
      by (auto simp: size_order_from_notional_def Let_def split: if_splits)
    then show ?thesis using Inl d quantizer_failsI(1) [of price] by simp
  next
    case (Inr qp)
    have qp: "0 < qp" using assms d Inr
      by (auto simp: size_order_from_notional_def Let_def split: if_splits)
    show ?thesis
    proof (cases "quantize_quantity (ddiv ?t qp) rules")
      case (Inl e')
      then have "e' = e" using assms d Inr qp
        by (auto simp: size_order_from_notional_def Let_def split: if_splits)
      then show ?thesis using Inl quantizer_failsI(2) [OF ddiv_nonneg [OF t less_imp_le [OF qp]]] by simp
    next
      case (Inr qq)
      then have "validate_order qp qq rules = Inl e" "\<not> is_value_error e"
        using assms d \<open>quantize_price price rules = Inr qp\<close> qp
        by (auto simp: size_order_from_notional_def Let_def split: if_splits sum.splits)
      then show ?thesis by (rule validate_order_fails)
    qed
  qed
qed

lemma quantizer_fails_InvalidOperation: "quantizer_fails rules e \<Longrightarrow> e = InvalidOperation"
  unfolding quantizer_fails_def using quantize_price_error quantize_quantity_error by blast

text \<open>
  Sizing raises nothing but the decimal module's own InvalidOperation (more than 28
  digits), and it raises nothing at all for a symbol with a positive tick and step.
\<close>

theorem size_order_errors:
  "(\<forall>e. size_order_from_notional desired price rules fallback upgrade = Inl e \<longrightarrow> e = InvalidOperation)
   \<and> (sr_tick_size rules = Some tick \<and> 0 < tick \<and> sr_step_size rules = Some step \<and> 0 < step
      \<longrightarrow> (\<exists>r. size_order_from_notional desired price rules fallback upgrade = Inr r))"
proof (intro conjI allI impI)
  fix e
  assume "size_order_from_notional desired price rules fallback upgrade = Inl e"
  then show "e = InvalidOperation" by (intro quantizer_fails_InvalidOperation size_order_error)
next
  assume t: "sr_tick_size rules = Some tick \<and> 0 < tick \<and> sr_step_size rules = Some step \<and> 0 < step"
  have "size_order_from_notional desired price rules fallback upgrade \<noteq> Inl e" for e
    using size_order_error [of desired price rules fallback upgrade e] t
    by (auto simp: quantizer_fails_def quantize_price_def quantize_quantity_def)
  then show "\<exists>r. size_order_from_notional desired price rules fallback upgrade = Inr r"
    by (metis sum.exhaust)
qed

theorem size_order_errors_witness:
  "\<exists>r. size_order_from_notional 500 (123456 / 100) btc_rules 10 False = Inr r"
  using size_order_errors [of 500 "123456 / 100" btc_rules 10 False "1 / 10" "1 / 10 ^ 4"]
  by (simp add: btc_rules_def)

end
