(* ===== verification/Symbols.thy ===== *)
theory Symbols
  imports Prelude
begin

text \<open>
  Trading symbols: \<open>src/src/btcbot/domain/symbols.py\<close> and the \<open>split_symbol\<close> of
  \<open>src/src/btcbot/services/portfolio_policy_service.py\<close>.  \<open>normalize_symbol\<close> of
  \<open>domain/models.py\<close> is \<open>canonical_symbol\<close>.
\<close>

subsection \<open>Definitions\<close>

definition canonical_symbol :: "string \<Rightarrow> string" where
  "canonical_symbol s = str_upper (filter (\<lambda>c. c \<noteq> CHR ''_'') s)"

abbreviation normalize_symbol :: "string \<Rightarrow> string" where
  "normalize_symbol \<equiv> canonical_symbol"

definition known_quotes :: "string list" where
  "known_quotes = [''TRY'', ''USDT'', ''USDC'', ''BTC'', ''ETH'', ''EUR'', ''USD'']"

definition matches_quote :: "string \<Rightarrow> string \<Rightarrow> bool" where
  "matches_quote s q \<longleftrightarrow> ends_with s q \<and> length q < length s"

definition strip_quote :: "string \<Rightarrow> string \<Rightarrow> string" where
  "strip_quote s q = take (length s - length q) s"

definition split_symbol :: "string \<Rightarrow> (string \<times> string) result" where
  "split_symbol symbol =
     (let normalized = canonical_symbol symbol in
      if CHR ''_'' \<in> set symbol then
        Inr (str_upper (takeWhile (\<lambda>c. c \<noteq> CHR ''_'') symbol),
             str_upper (tl (dropWhile (\<lambda>c. c \<noteq> CHR ''_'') symbol)))
      else
        (case find (matches_quote normalized) known_quotes of
           Some q \<Rightarrow> Inr (strip_quote normalized q, q)
         | None \<Rightarrow> Inl (ValueError ''Could not split symbol into base/quote'')))"

definition quote_currency :: "string \<Rightarrow> string result" where
  "quote_currency symbol = rbind (split_symbol symbol) (\<lambda>(base, quote). Inr quote)"

text \<open>The portfolio policy's own variant: it never raises and takes the quote currency.\<close>

definition split_at :: "char \<Rightarrow> string \<Rightarrow> string \<times> string" where
  "split_at sep s = (takeWhile (\<lambda>c. c \<noteq> sep) s, tl (dropWhile (\<lambda>c. c \<noteq> sep) s))"

definition split_symbol_quote :: "string \<Rightarrow> string \<Rightarrow> string \<times> string" where
  "split_symbol_quote symbol quote_ccy =
     (let cleaned = filter (\<lambda>c. c \<noteq> CHR '' '') (str_upper (str_strip symbol));
          quote = str_upper (str_strip quote_ccy);
          try_sep = (\<lambda>sep. let (l, r) = split_at sep cleaned
                           in if l \<noteq> [] \<and> r \<noteq> [] then (l, r) else (cleaned, []));
          canonical = normalize_symbol cleaned
      in if cleaned = [] then (cleaned, [])
         else if CHR ''_'' \<in> set cleaned then try_sep (CHR ''_'')
         else if CHR ''-'' \<in> set cleaned then try_sep (CHR ''-'')
         else if quote \<noteq> [] \<and> matches_quote canonical quote
           then (strip_quote canonical quote, quote)
         else (canonical, []))"

subsection \<open>Lemmas\<close>

lemma underscore_upper [simp]: "char_upper c = CHR ''_'' \<longleftrightarrow> c = CHR ''_''"
proof -
  have "char_upper c = CHR ''_'' \<longleftrightarrow> (of_char (char_upper c) :: int) = of_char (CHR ''_'')"
    by (simp only: of_char_eq_iff)
  also have "\<dots> \<longleftrightarrow> (of_char c :: int) = of_char (CHR ''_'')"
    unfolding char_upper_cases by auto
  finally show ?thesis by (simp only: of_char_eq_iff)
qed

lemma underscore_upper' [simp]: "CHR ''_'' = char_upper c \<longleftrightarrow> c = CHR ''_''"
  by (metis underscore_upper)

lemma canonical_symbol_no_underscore: "CHR ''_'' \<notin> set (canonical_symbol s)"
  by (induction s) (simp_all add: canonical_symbol_def str_upper_def del: set_map set_filter)

lemma canonical_symbol_fixed:
  assumes "CHR ''_'' \<notin> set s" "str_upper s = s"
  shows "canonical_symbol s = s"
proof -
  have "filter (\<lambda>c. c \<noteq> CHR ''_'') s = s" using assms(1) by (induction s) auto
  then show ?thesis using assms(2) by (simp add: canonical_symbol_def)
qed

lemma canonical_symbol_idem [simp]: "canonical_symbol (canonical_symbol s) = canonical_symbol s"
proof (rule canonical_symbol_fixed)
  show "CHR ''_'' \<notin> set (canonical_symbol s)" by (rule canonical_symbol_no_underscore)
  show "str_upper (canonical_symbol s) = canonical_symbol s"
    unfolding canonical_symbol_def by (rule str_upper_idem)
qed

lemma canonical_symbol_append:
  "canonical_symbol (s @ t) = canonical_symbol s @ canonical_symbol t"
  by (simp add: canonical_symbol_def)

lemma ends_with_rev: "ends_with s p \<longleftrightarrow> take (length p) (rev s) = rev p"
proof -
  have "ends_with s p \<longleftrightarrow> (\<exists>q. rev s = rev p @ rev q)"
    unfolding ends_with_iff by (metis rev_append rev_rev_ident)
  also have "\<dots> \<longleftrightarrow> (\<exists>r. rev s = rev p @ r)" by (metis rev_rev_ident)
  also have "\<dots> \<longleftrightarrow> take (length p) (rev s) = rev p"
    by (metis append_eq_conv_conj append_take_drop_id length_rev)
  finally show ?thesis .
qed

lemma matches_quote_append:
  "b \<noteq> [] \<Longrightarrow> matches_quote (b @ q) q"
  by (simp add: matches_quote_def)

text \<open>The known quotes are not suffixes of one another, so at most one of them matches.\<close>

lemma known_quote_unique:
  assumes "b \<noteq> []" "q \<in> set known_quotes"
  shows "find (matches_quote (b @ q)) known_quotes = Some q"
  using assms unfolding known_quotes_def list.set insert_iff empty_iff
  by - (elim disjE, simp_all add: matches_quote_def ends_with_rev)

lemma strip_quote_append: "strip_quote (b @ q) q = b"
  by (simp add: strip_quote_def)

lemma strip_quote_matches: "matches_quote s q \<Longrightarrow> strip_quote s q @ q = s"
  using append_take_drop_id [of "length s - length q" s]
  by (simp add: matches_quote_def strip_quote_def ends_with_def)

lemma case_option_InrE:
  assumes "(case f of None \<Rightarrow> Inl e | Some q \<Rightarrow> Inr (g q)) = Inr y"
  obtains q where "f = Some q" "y = g q"
  using assms by (cases f) simp_all

lemma split_symbol_no_underscore:
  assumes "CHR ''_'' \<notin> set s" "split_symbol s = Inr (b, q)"
  shows "b @ q = canonical_symbol s" "b \<noteq> []" "q \<in> set known_quotes"
proof -
  from assms(2) obtain q' where f: "find (matches_quote (canonical_symbol s)) known_quotes = Some q'"
    and "(b, q) = (strip_quote (canonical_symbol s) q', q')"
    unfolding split_symbol_def Let_def if_not_P [OF assms(1)] by (rule case_option_InrE)
  then have bq: "b = strip_quote (canonical_symbol s) q'" "q = q'" by simp_all
  from f have m: "matches_quote (canonical_symbol s) q'" "q' \<in> set known_quotes"
    unfolding find_Some_iff by auto
  show "b @ q = canonical_symbol s" using strip_quote_matches [OF m(1)] bq by simp
  show "b \<noteq> []" using m(1) bq by (auto simp: strip_quote_def matches_quote_def)
  show "q \<in> set known_quotes" using m(2) bq by simp
qed

lemma split_at_underscore:
  assumes "CHR ''_'' \<notin> set b"
  shows "takeWhile (\<lambda>c. c \<noteq> CHR ''_'') (b @ CHR ''_'' # q) = b"
    and "dropWhile (\<lambda>c. c \<noteq> CHR ''_'') (b @ CHR ''_'' # q) = CHR ''_'' # q"
  using assms by (induction b) auto

end
