(* ===== verification/Ledger.thy ===== *)
theory Ledger
  imports Money Symbols
begin

text \<open>
  The canonical accounting ledger, \<open>src/src/btcbot/domain/ledger.py\<close>: ledger events are
  reduced in the order of their time stamps to first-in-first-out position lots, realised
  profit and fees per currency.

  \<open>match_lots\<close> is the loop that matches a sell against the open lots, \<open>apply_event\<close> one turn
  of the loop of \<open>apply_events\<close>.  The abstract view of a symbol is its open quantity
  \<open>lots_qty\<close>; the lemmas on \<open>match_lots\<close> show that buys and sells on the quantity grid change
  it exactly, and that a sell beyond it is refused.
\<close>

subsection \<open>Definitions: data\<close>

datatype ledger_event_type = ORDER_PLACED | ORDER_CANCELED | FILL | FEE | ADJUSTMENT

record ledger_event =
  le_event_id :: string
  le_ts :: instant
  le_symbol :: string
  le_type :: ledger_event_type
  le_side :: "string option"
  le_qty :: dec
  le_price :: "dec option"
  le_fee :: "dec option"
  le_fee_currency :: "string option"
  le_exchange_trade_id :: "string option"
  le_exchange_order_id :: "string option"
  le_client_order_id :: "string option"

record position_lot =
  lot_symbol :: string
  lot_qty :: dec
  lot_unit_cost :: dec
  lot_opened_at :: instant

record symbol_ledger =
  sl_symbol :: string
  sl_lots :: "position_lot list"
  sl_realized_pnl :: dec

record ledger_state =
  ls_symbols :: "(string, symbol_ledger) dict"
  ls_fees :: "(string, dec) dict"

definition empty_ledger_state :: ledger_state where
  "empty_ledger_state = \<lparr>ls_symbols = [], ls_fees = []\<rparr>"

subsection \<open>Definitions: the reducer\<close>

definition event_key :: "ledger_event \<Rightarrow> instant \<times> string" where
  "event_key e = (le_ts e, le_event_id e)"

definition sort_events :: "ledger_event list \<Rightarrow> ledger_event list" where
  "sort_events = sort_key event_key"

text \<open>
  A quantity that rounds to something positive is positive, whatever the rounding mode; this is
  why the matching loop stops.
\<close>

lemma round_int_nonpos: "x \<le> 0 \<Longrightarrow> round_int m x \<le> 0"
proof (cases m)
  case ROUND_HALF_UP
  assume x: "x \<le> 0"
  have "\<lfloor>x + 1/2\<rfloor> < 1" "\<lceil>x - 1/2\<rceil> \<le> 0" using x by (simp_all add: floor_less_iff ceiling_le_iff)
  then show ?thesis by (simp add: ROUND_HALF_UP)
next
  case ROUND_HALF_EVEN
  assume "x \<le> 0"
  then show ?thesis using round_half_even_mono [of x "of_int 0"] ROUND_HALF_EVEN
    by (simp del: of_int_0)
qed (auto simp: trunc_int_def ceiling_le_iff floor_le_iff)

lemma round_qty_pos: "0 < round_qty x policy \<Longrightarrow> 0 < x"
proof (rule ccontr)
  assume pos: "0 < round_qty x policy" and "\<not> 0 < x"
  then have x: "x \<le> 0" by simp
  show False
  proof (cases "mp_qty_step policy \<le> 0")
    case True
    then show False using pos x by (simp add: round_qty_def quantize_to_step_def)
  next
    case False
    then have "ddiv x (mp_qty_step policy) \<le> 0"
      using x by (simp add: ddiv_def dec.rnd_nonpos divide_nonpos_pos)
    then have "of_int (round_int (mp_rounding_of policy) (ddiv x (mp_qty_step policy))) \<le> (0 :: rat)"
      using round_int_nonpos by simp
    then have "round_qty x policy \<le> 0" using False
      by (simp add: round_qty_def quantize_to_step_def snap_def to_integral_value_def dmul_def
          dec.rnd_nonpos mult_nonpos_nonneg)
    then show False using pos by simp
  qed
qed

function match_lots ::
  "money_policy \<Rightarrow> dec \<Rightarrow> dec \<Rightarrow> dec \<Rightarrow> position_lot list \<Rightarrow> (dec \<times> dec \<times> position_lot list) result"
where
  "match_lots policy price remaining realized [] = Inr (remaining, realized, [])"
| "match_lots policy price remaining realized (lot # lots) =
     (if 0 < remaining then
        let matched = min remaining (lot_qty lot) in
        rbind (round_quote (dadd realized (dmul (dsub price (lot_unit_cost lot)) matched)) policy)
          (\<lambda>realized'.
            let remaining' = round_qty (dsub remaining matched) policy;
                leftover = round_qty (dsub (lot_qty lot) matched) policy
            in if leftover \<le> 0 then match_lots policy price remaining' realized' lots
               else match_lots policy price remaining' realized' (lot\<lparr>lot_qty := leftover\<rparr> # lots))
      else Inr (remaining, realized, lot # lots))"
  by pat_completeness auto
termination
proof (relation "measure (\<lambda>(policy, price, remaining, realized, lots).
    2 * length lots + (if 0 < remaining then 1 else 0))", goal_cases)
  case (3 policy price remaining realized lot lots matched r' remaining' leftover)
  then have "0 < round_qty (dsub (lot_qty lot) matched) policy" by (simp only: not_le)
  then have "0 < dsub (lot_qty lot) matched" by (rule round_qty_pos)
  then have "matched < lot_qty lot" by (simp only: dsub_pos_iff)
  moreover have "matched = min remaining (lot_qty lot)" by fact
  ultimately have "matched = remaining" by linarith
  moreover have "remaining' = round_qty (dsub remaining matched) policy" by fact
  ultimately have "remaining' = 0" by (simp only: dsub_self round_qty_0)
  then show ?case using 3(1) by simp
qed auto

text \<open>The \<open>FILL\<close> branch: rounded quantity and price, lots and realised profit.\<close>

definition apply_fill ::
  "money_policy \<Rightarrow> ledger_event \<Rightarrow> position_lot list \<Rightarrow> dec \<Rightarrow> (position_lot list \<times> dec) result" where
  "apply_fill policy e lots realized =
     (case (le_type e, le_price e, le_side e) of
        (FILL, Some p, Some side) \<Rightarrow>
          (let qty = round_qty (le_qty e) policy; price = round_price p policy in
           if str_upper side = ''BUY'' then
             Inr (lots @ [\<lparr>lot_symbol = le_symbol e, lot_qty = qty, lot_unit_cost = price,
                           lot_opened_at = le_ts e\<rparr>], realized)
           else if str_upper side = ''SELL'' then
             rbind (match_lots policy price qty realized lots) (\<lambda>(remaining, realized', lots').
               if 0 < remaining then Inl (ValueError ''oversell_invariant_violation'')
               else Inr (lots', realized'))
           else Inr (lots, realized))
      | _ \<Rightarrow> Inr (lots, realized))"

definition apply_fee :: "money_policy \<Rightarrow> ledger_event \<Rightarrow> (string, dec) dict \<Rightarrow> (string, dec) dict result" where
  "apply_fee policy e fees =
     (case (le_type e, le_fee e, le_fee_currency e) of
        (FEE, Some fee, Some ccy) \<Rightarrow>
          if ccy = [] then Inr fees
          else if le_side e \<noteq> None \<or> le_qty e \<noteq> 0 \<or> le_price e \<noteq> None then
            Inl (ValueError ''fee_event_invariant_violation'')
          else
            let currency = str_upper ccy; total = dadd (dict_get fees currency 0) fee in
            if currency = ''TRY'' then
              rbind (round_fee total policy) (\<lambda>t. Inr (AList.update currency t fees))
            else Inr (AList.update currency total fees)
      | _ \<Rightarrow> Inr fees)"

definition apply_adjustment :: "ledger_event \<Rightarrow> dec \<Rightarrow> dec" where
  "apply_adjustment e realized =
     (case (le_type e, le_fee e) of (ADJUSTMENT, Some fee) \<Rightarrow> dadd realized fee | _ \<Rightarrow> realized)"

definition symbol_ledger_of :: "ledger_state \<Rightarrow> string \<Rightarrow> symbol_ledger" where
  "symbol_ledger_of s symb =
     dict_get (ls_symbols s) symb \<lparr>sl_symbol = symb, sl_lots = [], sl_realized_pnl = 0\<rparr>"

type_synonym policy_resolver = "(string \<Rightarrow> money_policy) option"

definition policy_for :: "policy_resolver \<Rightarrow> string \<Rightarrow> money_policy" where
  "policy_for resolver symb = (case resolver of None \<Rightarrow> DEFAULT_MONEY_POLICY | Some f \<Rightarrow> f symb)"

definition apply_event :: "policy_resolver \<Rightarrow> ledger_state \<Rightarrow> ledger_event \<Rightarrow> ledger_state result" where
  "apply_event resolver s e =
     (let policy = policy_for resolver (le_symbol e); current = symbol_ledger_of s (le_symbol e) in
      rbind (apply_fill policy e (sl_lots current) (sl_realized_pnl current)) (\<lambda>(lots, realized).
        rbind (apply_fee policy e (ls_fees s)) (\<lambda>fees.
          Inr \<lparr>ls_symbols = AList.update (le_symbol e)
                  \<lparr>sl_symbol = le_symbol e, sl_lots = lots,
                   sl_realized_pnl = apply_adjustment e realized\<rparr> (ls_symbols s),
               ls_fees = fees\<rparr>)))"

definition apply_events :: "policy_resolver \<Rightarrow> ledger_state \<Rightarrow> ledger_event list \<Rightarrow> ledger_state result" where
  "apply_events resolver s es = rfold (apply_event resolver) s (sort_events es)"

subsection \<open>Definitions: profit and drawdown\<close>

definition head_policy :: "policy_resolver \<Rightarrow> ledger_state \<Rightarrow> money_policy" where
  "head_policy resolver s =
     (case (resolver, ls_symbols s) of
        (Some f, (symb, _) # _) \<Rightarrow> f symb
      | _ \<Rightarrow> DEFAULT_MONEY_POLICY)"

definition compute_realized_pnl :: "policy_resolver \<Rightarrow> ledger_state \<Rightarrow> dec result" where
  "compute_realized_pnl resolver s =
     round_quote (dsum (map (\<lambda>(k, v). sl_realized_pnl v) (ls_symbols s))) (head_policy resolver s)"

definition unrealized_lot :: "money_policy \<Rightarrow> dec \<Rightarrow> dec \<Rightarrow> position_lot \<Rightarrow> dec result" where
  "unrealized_lot policy mark tot lot =
     round_quote (dadd tot (dmul (dsub mark (lot_unit_cost lot)) (lot_qty lot))) policy"

definition unrealized_symbol ::
  "policy_resolver \<Rightarrow> (string, dec) dict \<Rightarrow> dec \<Rightarrow> string \<times> symbol_ledger \<Rightarrow> dec result" where
  "unrealized_symbol resolver marks tot kv =
     (case map_of marks (fst kv) of
        None \<Rightarrow> Inr tot
      | Some mark \<Rightarrow>
          let policy = policy_for resolver (fst kv); mark' = round_price mark policy
          in rfold (unrealized_lot policy mark') tot (sl_lots (snd kv)))"

definition compute_unrealized_pnl ::
  "policy_resolver \<Rightarrow> ledger_state \<Rightarrow> (string, dec) dict \<Rightarrow> dec result" where
  "compute_unrealized_pnl resolver s marks =
     rbind (rfold (unrealized_symbol resolver marks) 0 (ls_symbols s))
       (\<lambda>tot. round_quote tot (head_policy resolver s))"

definition equity_curve :: "(instant \<times> dec) list \<Rightarrow> (instant \<times> dec) list" where
  "equity_curve points = sort_key fst points"

fun drawdown_loop :: "dec option \<Rightarrow> dec \<Rightarrow> dec list \<Rightarrow> dec" where
  "drawdown_loop peak max_dd [] = max_dd"
| "drawdown_loop None max_dd (x # xs) = drawdown_loop (Some x) max_dd xs"
| "drawdown_loop (Some peak) max_dd (x # xs) =
     (if peak < x then drawdown_loop (Some x) max_dd xs
      else if peak \<le> 0 then drawdown_loop (Some peak) max_dd xs
      else let drawdown = ddiv (dsub peak x) peak
           in drawdown_loop (Some peak) (if max_dd < drawdown then drawdown else max_dd) xs)"

definition compute_max_drawdown :: "(instant \<times> dec) list \<Rightarrow> dec" where
  "compute_max_drawdown points = drawdown_loop None 0 (map snd (sort_key fst points))"

subsection \<open>Quantities on a decimal grid\<close>

definition on_grid :: "int \<Rightarrow> dec \<Rightarrow> bool" where
  "on_grid k x \<longleftrightarrow> (\<exists>n. x = of_int n * bpow 10 k \<and> \<bar>n\<bar> < 10 ^ 28)"

definition grid_policy :: "int \<Rightarrow> money_policy \<Rightarrow> bool" where
  "grid_policy k policy \<longleftrightarrow> mp_qty_step policy = bpow 10 k \<and> down_policy policy"

lemma grid_policy_default [simp]: "grid_policy (- 8) DEFAULT_MONEY_POLICY"
  by (simp add: grid_policy_def DEFAULT_MONEY_POLICY_def down_policy_def bpow_def)

lemma on_grid_fits: "on_grid k x \<Longrightarrow> fits x"
  by (auto simp: on_grid_def fits_scaled)

lemma on_grid_0 [simp]: "on_grid k 0"
  by (auto simp: on_grid_def intro: exI [of _ 0])

lemma on_grid_diff:
  assumes "on_grid k a" "on_grid k b" "0 \<le> b" "b \<le> a"
  shows "on_grid k (a - b)"
proof -
  obtain m n where mn: "a = of_int m * bpow 10 k" "\<bar>m\<bar> < 10 ^ 28" "b = of_int n * bpow 10 k"
    using assms by (auto simp: on_grid_def)
  have u: "0 < bpow 10 k" by simp
  have "0 \<le> n" "n \<le> m" using assms(3,4) u by (simp_all add: mn zero_le_mult_iff)
  then have "\<bar>m - n\<bar> < 10 ^ 28" using mn(2) by linarith
  moreover have "a - b = of_int (m - n) * bpow 10 k" by (simp add: mn left_diff_distrib)
  ultimately show ?thesis unfolding on_grid_def by blast
qed

lemma dsub_on_grid:
  "on_grid k a \<Longrightarrow> on_grid k b \<Longrightarrow> 0 \<le> b \<Longrightarrow> b \<le> a \<Longrightarrow> dsub a b = a - b"
  by (intro dsub_exact on_grid_fits on_grid_diff)

lemma round_qty_on_grid:
  assumes "grid_policy k policy" "on_grid k x"
  shows "round_qty x policy = x"
proof -
  obtain n where n: "x = of_int n * bpow 10 k" "\<bar>n\<bar> < 10 ^ 28" using assms(2) by (auto simp: on_grid_def)
  have "ddiv x (bpow 10 k) = of_int n" using fits_of_int [OF n(2)] by (simp add: ddiv_def n(1) fits_def)
  moreover have "\<not> bpow 10 k \<le> 0" using bpow_pos [of 10 k] by linarith
  moreover have "dmul (of_int n) (bpow 10 k) = x" using on_grid_fits [OF assms(2)] n(1) by (simp add: dmul_exact)
  ultimately show ?thesis
    using assms(1) by (simp add: round_qty_def quantize_to_step_def grid_policy_def down_policy_def snap_def
        to_integral_value_def)
qed

subsection \<open>The matching loop\<close>

text \<open>The abstract view of a symbol: the exact sum of its open lots.\<close>

definition lots_qty :: "position_lot list \<Rightarrow> rat" where
  "lots_qty lots = (\<Sum>l \<leftarrow> lots. lot_qty l)"

definition lots_ok :: "int \<Rightarrow> position_lot list \<Rightarrow> bool" where
  "lots_ok k lots \<longleftrightarrow> (\<forall>l \<in> set lots. on_grid k (lot_qty l) \<and> 0 < lot_qty l)"

lemma lots_qty_simps [simp]:
  "lots_qty [] = 0" "lots_qty (l # ls) = lot_qty l + lots_qty ls" "lots_qty (ls @ ms) = lots_qty ls + lots_qty ms"
  by (simp_all add: lots_qty_def)

lemma lots_ok_simps [simp]:
  "lots_ok k []" "lots_ok k (l # ls) \<longleftrightarrow> on_grid k (lot_qty l) \<and> 0 < lot_qty l \<and> lots_ok k ls"
  "lots_ok k (ls @ ms) \<longleftrightarrow> lots_ok k ls \<and> lots_ok k ms"
  by (auto simp: lots_ok_def)

lemma lots_qty_nonneg: "lots_ok k lots \<Longrightarrow> 0 \<le> lots_qty lots"
  by (induction lots) auto

lemma match_lots_conserves:
  assumes "match_lots policy price remaining realized lots = Inr (remaining', realized', lots')"
    and "grid_policy k policy" "lots_ok k lots" "on_grid k remaining" "0 \<le> remaining"
  shows "lots_qty lots' - remaining' = lots_qty lots - remaining" (is ?P)
    and "lots_ok k lots'" (is ?Q) and "0 \<le> remaining'" (is ?R) and "remaining' = 0 \<or> lots' = []" (is ?S)
proof -
  have "?P \<and> ?Q \<and> ?R \<and> ?S"
    using assms
  proof (induction policy price remaining realized lots rule: match_lots.induct)
    case (2 policy price remaining realized lot lots)
    show ?case
    proof (cases "0 < remaining")
      case False
      then show ?thesis using 2(3,5,6,7) by simp
    next
      case True
      let ?m = "min remaining (lot_qty lot)"
      let ?r = "round_qty (dsub remaining ?m) policy"
      let ?l = "round_qty (dsub (lot_qty lot) ?m) policy"
      have lot: "on_grid k (lot_qty lot)" "0 \<le> lot_qty lot" "lots_ok k lots" using 2(5) by auto
      have m: "on_grid k ?m" "0 \<le> ?m" "?m \<le> remaining" "?m \<le> lot_qty lot"
        using lot 2(6) True by (simp_all add: min_def)
      have g: "on_grid k (remaining - ?m)" "on_grid k (lot_qty lot - ?m)"
        using m lot 2(6) by (auto intro: on_grid_diff)
      have r: "?r = remaining - ?m" and l: "?l = lot_qty lot - ?m"
        using dsub_on_grid [OF 2(6) m(1,2,3)] dsub_on_grid [OF lot(1) m(1,2,4)] g
          round_qty_on_grid [OF 2(4)] by simp_all
      have step: "on_grid k ?r" "0 \<le> ?r" "on_grid k ?l" "0 \<le> ?l" unfolding r l using g m by simp_all
      from 2(3) True obtain realized1 where
        q: "round_quote (dadd realized (dmul (dsub price (lot_unit_cost lot)) ?m)) policy = Inr realized1"
        and rest: "(if ?l \<le> 0 then match_lots policy price ?r realized1 lots
                   else match_lots policy price ?r realized1 (lot\<lparr>lot_qty := ?l\<rparr> # lots))
                  = Inr (remaining', realized', lots')"
        by (auto simp: rbind_eq_Inr_iff Let_def)
      show ?thesis
      proof (cases "?l \<le> 0")
        case True
        then have "?l = 0" using step(4) by simp
        then have "lot_qty lot = ?m" using l by simp
        then show ?thesis
          using "2.IH"(1) [OF \<open>0 < remaining\<close> refl q refl refl True _ 2(4) lot(3) step(1,2)] rest True r
          by auto
      next
        case False
        then show ?thesis
          using "2.IH"(2) [OF \<open>0 < remaining\<close> refl q refl refl False _ 2(4) _ step(1,2)] rest lot step r l
          by auto
      qed
    qed
  qed auto
  then show ?P ?Q ?R ?S by auto
qed

subsection \<open>One event\<close>

text \<open>The signed quantity an event moves, and the events whose quantities are on the grid.\<close>

definition signed_qty :: "ledger_event \<Rightarrow> rat" where
  "signed_qty e =
     (case (le_type e, le_price e, le_side e) of
        (FILL, Some _, Some side) \<Rightarrow>
          if str_upper side = ''BUY'' then le_qty e else if str_upper side = ''SELL'' then - le_qty e else 0
      | _ \<Rightarrow> 0)"

definition event_ok :: "(string \<Rightarrow> int) \<Rightarrow> ledger_event \<Rightarrow> bool" where
  "event_ok K e \<longleftrightarrow> (le_type e = FILL \<longrightarrow> on_grid (K (le_symbol e)) (le_qty e) \<and> 0 < le_qty e)"

definition position :: "ledger_state \<Rightarrow> string \<Rightarrow> rat" where
  "position s symb = lots_qty (sl_lots (symbol_ledger_of s symb))"

definition ledger_ok :: "(string \<Rightarrow> int) \<Rightarrow> ledger_state \<Rightarrow> bool" where
  "ledger_ok K s \<longleftrightarrow> (\<forall>symb. lots_ok (K symb) (sl_lots (symbol_ledger_of s symb)))"

definition resolver_ok :: "(string \<Rightarrow> int) \<Rightarrow> policy_resolver \<Rightarrow> bool" where
  "resolver_ok K resolver \<longleftrightarrow> (\<forall>symb. grid_policy (K symb) (policy_for resolver symb))"

lemma resolver_ok_default: "resolver_ok (\<lambda>_. - 8) None"
  by (simp add: resolver_ok_def policy_for_def)

lemma ledger_ok_empty [simp]: "ledger_ok K empty_ledger_state"
  by (simp add: ledger_ok_def symbol_ledger_of_def empty_ledger_state_def)

lemma position_empty [simp]: "position empty_ledger_state symb = 0"
  by (simp add: position_def symbol_ledger_of_def empty_ledger_state_def)

lemma position_nonneg: "ledger_ok K s \<Longrightarrow> 0 \<le> position s symb"
  by (auto simp: ledger_ok_def position_def intro: lots_qty_nonneg)

lemma apply_fill_conserves:
  assumes "apply_fill policy e lots realized = Inr (lots', realized')"
    and "grid_policy (K (le_symbol e)) policy" "lots_ok (K (le_symbol e)) lots" "event_ok K e"
  shows "lots_ok (K (le_symbol e)) lots' \<and> lots_qty lots' = lots_qty lots + signed_qty e"
proof (cases "\<exists>p side. le_type e = FILL \<and> le_price e = Some p \<and> le_side e = Some side
    \<and> str_upper side \<in> {''BUY'', ''SELL''}")
  case False
  then show ?thesis using assms
    by (auto simp: apply_fill_def signed_qty_def Let_def split: ledger_event_type.splits option.splits if_splits)
next
  case True
  then obtain p side where e: "le_type e = FILL" "le_price e = Some p" "le_side e = Some side" by auto
  have q: "on_grid (K (le_symbol e)) (le_qty e)" "0 < le_qty e" using assms(4) e by (auto simp: event_ok_def)
  note r = round_qty_on_grid [OF assms(2) q(1)]
  from True consider "str_upper side = ''BUY''" | "str_upper side = ''SELL''" using e by auto
  then show ?thesis
  proof cases
    case 1
    then show ?thesis using assms(1,3) e q r by (auto simp: apply_fill_def signed_qty_def Let_def)
  next
    case 2
    obtain rem where m: "match_lots policy (round_price p policy) (le_qty e) realized lots = Inr (rem, realized', lots')"
      and "\<not> 0 < rem"
      using assms(1) e 2 r by (auto simp: apply_fill_def Let_def rbind_eq_Inr_iff split: if_splits)
    then show ?thesis
      using match_lots_conserves [OF m assms(2,3) q(1) less_imp_le [OF q(2)]] e 2 by (simp add: signed_qty_def)
  qed
qed

lemma apply_event_symbol:
  assumes "apply_event resolver s e = Inr s'"
  obtains lots realized fees where
    "apply_fill (policy_for resolver (le_symbol e)) e (sl_lots (symbol_ledger_of s (le_symbol e)))
       (sl_realized_pnl (symbol_ledger_of s (le_symbol e))) = Inr (lots, realized)"
    "apply_fee (policy_for resolver (le_symbol e)) e (ls_fees s) = Inr fees"
    "s' = \<lparr>ls_symbols = AList.update (le_symbol e)
            \<lparr>sl_symbol = le_symbol e, sl_lots = lots, sl_realized_pnl = apply_adjustment e realized\<rparr>
            (ls_symbols s), ls_fees = fees\<rparr>"
  using assms by (auto simp: apply_event_def Let_def rbind_eq_Inr_iff)

lemma symbol_ledger_of_update [simp]:
  "symbol_ledger_of \<lparr>ls_symbols = AList.update k v (ls_symbols s), ls_fees = f\<rparr> symb =
     (if symb = k then v else symbol_ledger_of s symb)"
  by (simp add: symbol_ledger_of_def)

lemma apply_event_frame:
  "apply_event resolver s e = Inr s' \<Longrightarrow> symb \<noteq> le_symbol e \<Longrightarrow> symbol_ledger_of s' symb = symbol_ledger_of s symb"
  by (erule apply_event_symbol) simp

lemma apply_event_position:
  assumes "apply_event resolver s e = Inr s'" "resolver_ok K resolver" "ledger_ok K s" "event_ok K e"
  shows "ledger_ok K s'"
    and "position s' symb = position s symb + (if le_symbol e = symb then signed_qty e else 0)"
proof -
  from assms(1) obtain lots realized fees where
    f: "apply_fill (policy_for resolver (le_symbol e)) e (sl_lots (symbol_ledger_of s (le_symbol e)))
         (sl_realized_pnl (symbol_ledger_of s (le_symbol e))) = Inr (lots, realized)"
    and s': "s' = \<lparr>ls_symbols = AList.update (le_symbol e)
            \<lparr>sl_symbol = le_symbol e, sl_lots = lots, sl_realized_pnl = apply_adjustment e realized\<rparr>
            (ls_symbols s), ls_fees = fees\<rparr>"
    by (rule apply_event_symbol)
  have c: "lots_ok (K (le_symbol e)) lots \<and>
      lots_qty lots = lots_qty (sl_lots (symbol_ledger_of s (le_symbol e))) + signed_qty e"
    using apply_fill_conserves [OF f] assms(2-4) by (auto simp: resolver_ok_def ledger_ok_def)
  show "ledger_ok K s'"
    using c assms(3) unfolding ledger_ok_def s' by simp
  show "position s' symb = position s symb + (if le_symbol e = symb then signed_qty e else 0)"
    using c unfolding position_def s' by simp
qed

lemma rfold_position:
  assumes "rfold (apply_event resolver) s es = Inr s'" "resolver_ok K resolver" "ledger_ok K s"
    "\<forall>e \<in> set es. event_ok K e"
  shows "ledger_ok K s' \<and>
    position s' symb = position s symb + (\<Sum>e \<leftarrow> es. if le_symbol e = symb then signed_qty e else 0)"
  using assms
proof (induction es arbitrary: s)
  case (Cons e es)
  from Cons.prems(1) obtain t where t: "apply_event resolver s e = Inr t" "rfold (apply_event resolver) t es = Inr s'"
    by (auto simp: rbind_eq_Inr_iff)
  note step = apply_event_position [OF t(1) Cons.prems(2,3)]
  then show ?case using Cons.IH [OF t(2) Cons.prems(2)] Cons.prems(4) by simp
qed simp

text \<open>
  (C18) The ledger refines the abstract position: after any successful replay of fills whose
  quantities are positive and on the symbol's quantity grid, the open lots of every symbol add up exactly to
  the previous position plus the bought minus the sold quantities, no matter how many partial
  lot matches, decimal roundings and other symbols' events happened in between; and every lot
  stays on the grid and positive, so no emptied lot is left behind.
\<close>

theorem apply_events_position:
  assumes "apply_events resolver s es = Inr s'"
    and "resolver_ok K resolver" and "ledger_ok K s" and "\<forall>e \<in> set es. event_ok K e"
  shows "(\<forall>x. \<forall>l \<in> set (sl_lots (symbol_ledger_of s' x)). on_grid (K x) (lot_qty l) \<and> 0 < lot_qty l)
    \<and> position s' symb = position s symb + (\<Sum>e \<leftarrow> es. if le_symbol e = symb then signed_qty e else 0)"
  using rfold_position [of resolver s "sort_events es" s' K symb] assms
  unfolding ledger_ok_def [symmetric] lots_ok_def [symmetric]
  by (simp add: apply_events_def sort_events_def sum_list_sort_key)

definition ev_buy :: "string \<Rightarrow> instant \<Rightarrow> dec \<Rightarrow> dec \<Rightarrow> ledger_event" where
  "ev_buy i t q p =
     \<lparr>le_event_id = i, le_ts = t, le_symbol = ''BTCTRY'', le_type = FILL, le_side = Some ''buy'', le_qty = q,
      le_price = Some p, le_fee = None, le_fee_currency = None, le_exchange_trade_id = Some i,
      le_exchange_order_id = None, le_client_order_id = None\<rparr>"

definition ev_sell :: "string \<Rightarrow> instant \<Rightarrow> dec \<Rightarrow> dec \<Rightarrow> ledger_event" where
  "ev_sell i t q p = (ev_buy i t q p)\<lparr>le_side := Some ''SELL''\<rparr>"

definition demo_events :: "ledger_event list" where
  "demo_events = [ev_buy ''a'' 1 2 100, ev_sell ''c'' 3 (5 / 2) 130, ev_buy ''b'' 2 1 110]"

definition demo_state :: ledger_state where
  "demo_state =
     \<lparr>ls_symbols = [(''BTCTRY'', \<lparr>sl_symbol = ''BTCTRY'',
        sl_lots = [\<lparr>lot_symbol = ''BTCTRY'', lot_qty = 1 / 2, lot_unit_cost = 110, lot_opened_at = 2\<rparr>],
        sl_realized_pnl = 70\<rparr>)], ls_fees = []\<rparr>"

lemma demo_replay: "apply_events None empty_ledger_state demo_events = Inr demo_state"
  by code_simp

lemma on_grid_intro: "x * 10 ^ 8 = of_int n \<Longrightarrow> \<bar>n\<bar> < 10 ^ 28 \<Longrightarrow> on_grid (- 8) x"
  unfolding on_grid_def by (intro exI [of _ n]) (simp add: bpow_def field_simps)

lemma demo_events_ok: "\<forall>e \<in> set demo_events. event_ok (\<lambda>_. - 8) e"
  using on_grid_intro [of 2 "2 * 10 ^ 8"] on_grid_intro [of 1 "10 ^ 8"] on_grid_intro [of "5 / 2" "25 * 10 ^ 7"]
  by (simp add: demo_events_def ev_sell_def ev_buy_def event_ok_def)

theorem apply_events_position_witness:
  "apply_events None empty_ledger_state demo_events = Inr demo_state
   \<and> position demo_state ''BTCTRY''
     = 0 + (\<Sum>e \<leftarrow> demo_events. if le_symbol e = ''BTCTRY'' then signed_qty e else 0)"
  using apply_events_position [OF demo_replay resolver_ok_default ledger_ok_empty demo_events_ok, of "''BTCTRY''"]
    demo_replay by simp

lemma match_lots_leftover:
  assumes "match_lots policy price remaining realized lots = Inr (remaining', realized', lots')"
    and "grid_policy k policy" "lots_ok k lots" "on_grid k remaining" "0 \<le> remaining" "remaining \<le> lots_qty lots"
  shows "remaining' \<le> 0"
  using match_lots_conserves [OF assms(1-5)] assms(6) by auto

lemma round_quote_error: "round_quote x policy = Inl err \<Longrightarrow> err = InvalidOperation"
  by (auto simp: round_quote_def dquantize_def Let_def split: if_splits)

lemma match_lots_error:
  assumes "match_lots policy price remaining realized lots = Inl err"
  shows "err = InvalidOperation"
  using assms
proof (induction policy price remaining realized lots rule: match_lots.induct)
  case (2 policy price remaining realized lot lots)
  let ?m = "min remaining (lot_qty lot)"
  let ?r = "round_qty (dsub remaining ?m) policy"
  let ?l = "round_qty (dsub (lot_qty lot) ?m) policy"
  let ?q = "round_quote (dadd realized (dmul (dsub price (lot_unit_cost lot)) ?m)) policy"
  have pos: "0 < remaining" using 2(3) by (simp split: if_splits)
  show ?case
  proof (cases ?q)
    case (Inl e)
    then show ?thesis using 2(3) pos round_quote_error [of _ policy e] by (simp add: Let_def)
  next
    case (Inr r)
    show ?thesis
    proof (cases "?l \<le> 0")
      case True
      then show ?thesis using 2(3) "2.IH"(1) [OF pos refl Inr refl refl True] pos Inr by (simp add: Let_def)
    next
      case False
      then show ?thesis using 2(3) "2.IH"(2) [OF pos refl Inr refl refl False] pos Inr by (simp add: Let_def)
    qed
  qed
qed simp

definition sell_event :: "ledger_event \<Rightarrow> bool" where
  "sell_event e \<longleftrightarrow> le_type e = FILL \<and> le_price e \<noteq> None \<and>
     (\<exists>side. le_side e = Some side \<and> str_upper side = ''SELL'')"

lemma apply_fill_sell:
  assumes "sell_event e"
  obtains p where "apply_fill policy e lots realized =
    rbind (match_lots policy (round_price p policy) (round_qty (le_qty e) policy) realized lots)
      (\<lambda>(remaining, realized', lots').
        if 0 < remaining then Inl (ValueError ''oversell_invariant_violation'') else Inr (lots', realized'))"
proof -
  from assms obtain p side where "le_type e = FILL" "le_price e = Some p" "le_side e = Some side"
    "str_upper side = ''SELL''" by (auto simp: sell_event_def)
  then show thesis by (intro that [of p]) (simp add: apply_fill_def Let_def)
qed

lemma apply_fee_not_fee: "le_type e \<noteq> FEE \<Longrightarrow> apply_fee policy e fees = Inr fees"
  by (cases "le_type e") (auto simp: apply_fee_def)

text \<open>What matching the lots of the symbol against a sell gives: the rest of the sell, the profit and the lots left.\<close>

definition matched_lots :: "policy_resolver \<Rightarrow> ledger_state \<Rightarrow> ledger_event \<Rightarrow> dec \<Rightarrow> (dec \<times> dec \<times> position_lot list) result" where
  "matched_lots resolver s e p =
     (let policy = policy_for resolver (le_symbol e); current = symbol_ledger_of s (le_symbol e) in
      match_lots policy (round_price p policy) (round_qty (le_qty e) policy) (sl_realized_pnl current) (sl_lots current))"

lemma apply_event_sell:
  assumes "sell_event e" "le_price e = Some p"
  shows "matched_lots resolver s e p = Inl err \<Longrightarrow> apply_event resolver s e = Inl err"
    and "matched_lots resolver s e p = Inr (rem, realized, lots) \<Longrightarrow> 0 < rem
      \<Longrightarrow> apply_event resolver s e = Inl (ValueError ''oversell_invariant_violation'')"
    and "matched_lots resolver s e p = Inr (rem, realized, lots) \<Longrightarrow> \<not> 0 < rem \<Longrightarrow> \<exists>s'. apply_event resolver s e = Inr s'"
proof -
  have fee: "apply_fee policy e fees = Inr fees" for policy fees
    using assms(1) apply_fee_not_fee [of e] by (simp add: sell_event_def)
  have fill: "apply_fill policy e lots realized =
    rbind (match_lots policy (round_price p policy) (round_qty (le_qty e) policy) realized lots)
      (\<lambda>(remaining, realized', lots').
        if 0 < remaining then Inl (ValueError ''oversell_invariant_violation'') else Inr (lots', realized'))" for policy lots realized
    using apply_fill_sell [OF assms(1)] assms by (auto simp: sell_event_def apply_fill_def Let_def)
  show "matched_lots resolver s e p = Inl err \<Longrightarrow> apply_event resolver s e = Inl err"
    and "matched_lots resolver s e p = Inr (rem, realized, lots) \<Longrightarrow> 0 < rem
      \<Longrightarrow> apply_event resolver s e = Inl (ValueError ''oversell_invariant_violation'')"
    and "matched_lots resolver s e p = Inr (rem, realized, lots) \<Longrightarrow> \<not> 0 < rem \<Longrightarrow> \<exists>s'. apply_event resolver s e = Inr s'"
    by (simp_all add: apply_event_def fill fee matched_lots_def Let_def)
qed

text \<open>
  (C25) No oversell: when the lots of the symbol can be matched, a sell raises the oversell error exactly if
  its quantity exceeds the symbol's open position, so the ledger never goes short, and it is booked exactly if the
  position covers it; the only other error is the decimal module's InvalidOperation, which the
  matching raises on a profit of more than 28 digits and which the sell then passes on.
\<close>

theorem sell_oversell_iff:
  assumes "resolver_ok K resolver" and "ledger_ok K s" and "event_ok K e" and "sell_event e" and "le_price e = Some p"
  shows "(apply_event resolver s e = Inl (ValueError ''oversell_invariant_violation'')
        \<longleftrightarrow> position s (le_symbol e) < le_qty e \<and> (\<exists>m. matched_lots resolver s e p = Inr m))
    \<and> ((\<exists>s'. apply_event resolver s e = Inr s')
        \<longleftrightarrow> le_qty e \<le> position s (le_symbol e) \<and> (\<exists>m. matched_lots resolver s e p = Inr m))
    \<and> (\<forall>err. matched_lots resolver s e p = Inl err \<longrightarrow> err = InvalidOperation \<and> apply_event resolver s e = Inl InvalidOperation)"
proof (cases "matched_lots resolver s e p")
  case (Inl err)
  have "err = InvalidOperation" using Inl match_lots_error unfolding matched_lots_def Let_def by blast
  then show ?thesis using apply_event_sell(1) [OF assms(4,5) Inl] Inl by simp
next
  case (Inr m)
  obtain rem realized lots where m: "m = (rem, realized, lots)" by (metis prod.exhaust)
  let ?k = "K (le_symbol e)" and ?lots = "sl_lots (symbol_ledger_of s (le_symbol e))"
  have q: "on_grid ?k (le_qty e)" "0 \<le> le_qty e"
    using assms(3,4) by (auto simp: event_ok_def sell_event_def)
  have g: "grid_policy ?k (policy_for resolver (le_symbol e))" and l: "lots_ok ?k ?lots"
    using assms(1,2) by (auto simp: resolver_ok_def ledger_ok_def)
  have matching: "match_lots (policy_for resolver (le_symbol e)) (round_price p (policy_for resolver (le_symbol e))) (le_qty e)
      (sl_realized_pnl (symbol_ledger_of s (le_symbol e))) ?lots = Inr (rem, realized, lots)"
    using Inr m round_qty_on_grid [OF g q(1)] by (simp add: matched_lots_def Let_def)
  note c = match_lots_conserves [OF matching g l q]
  have short: "0 < rem \<longleftrightarrow> position s (le_symbol e) < le_qty e"
    using c(1,3,4) lots_qty_nonneg [OF c(2)] by (auto simp: position_def)
  note run = apply_event_sell(2,3) [OF assms(4,5) Inr [unfolded m]]
  show ?thesis
  proof (cases "0 < rem")
    case True
    then show ?thesis using run(1) short Inr m by simp
  next
    case False
    then obtain s' where "apply_event resolver s e = Inr s'" using run(2) by blast
    then show ?thesis using False short Inr m by simp
  qed
qed

theorem sell_oversell_iff_witness:
  "apply_event None demo_state (ev_sell ''d'' 4 1 120) = Inl (ValueError ''oversell_invariant_violation'')
   \<and> position demo_state ''BTCTRY'' < 1"
proof -
  have ok: "ledger_ok (\<lambda>_. - 8) demo_state" "event_ok (\<lambda>_. - 8) (ev_sell ''d'' 4 1 120)"
    using on_grid_intro [of "1 / 2" "5 * 10 ^ 7"] on_grid_intro [of 1 "10 ^ 8"]
    by (simp_all add: ledger_ok_def symbol_ledger_of_def demo_state_def event_ok_def ev_sell_def ev_buy_def)
  have "sell_event (ev_sell ''d'' 4 1 120)"
    by (simp add: sell_event_def ev_sell_def ev_buy_def str_upper_def char_upper_def)
  moreover have "position demo_state ''BTCTRY'' < 1"
    by (simp add: position_def symbol_ledger_of_def demo_state_def)
  moreover have "map_sum id (\<lambda>_. ()) (matched_lots None demo_state (ev_sell ''d'' 4 1 120) 120) = Inr ()" by code_simp
  then have "\<exists>m. matched_lots None demo_state (ev_sell ''d'' 4 1 120) 120 = Inr m"
    by (cases "matched_lots None demo_state (ev_sell ''d'' 4 1 120) 120") auto
  ultimately show ?thesis
    using sell_oversell_iff [OF resolver_ok_default ok, of 120]
    by (simp add: ev_sell_def ev_buy_def)
qed

end
