(* ===== verification/Ledger_Replay.thy ===== *)
theory Ledger_Replay
  imports Ledger
begin

text \<open>
  Replay of the ledger: the reducer of \<open>domain/ledger.py\<close> over batches and over permuted
  events, its dependence on the order of the dictionaries, the JSON form of a ledger state
  (\<open>serialize_ledger_state\<close>, \<open>deserialize_ledger_state\<close>) with its round trip, and the
  specification of the maximum drawdown.
\<close>

subsection \<open>Definitions: the JSON form\<close>

text \<open>
  The text layer (\<open>json.dumps\<close>, \<open>json.loads\<close>, \<open>format(d, "f")\<close>, \<open>isoformat\<close>) is left out:
  \<open>JDec d\<close> is the string that prints the decimal \<open>d\<close>, \<open>JTime t\<close> the one that prints the
  instant \<open>t\<close>, and \<open>JStr\<close> any other string.  Objects have their keys in the order in which
  \<open>sort_keys=True\<close> writes them.
\<close>

datatype json = JStr string | JDec dec | JTime instant | JArr "json list" | JObj "(string \<times> json) list"

definition sort_items :: "(string, 'v) dict \<Rightarrow> (string, 'v) dict" where
  "sort_items d = sort_key fst d"

definition serialize_lot :: "position_lot \<Rightarrow> json" where
  "serialize_lot l =
     JObj [(''opened_at'', JTime (lot_opened_at l)), (''qty'', JDec (lot_qty l)),
           (''unit_cost'', JDec (lot_unit_cost l))]"

definition serialize_symbol :: "symbol_ledger \<Rightarrow> json" where
  "serialize_symbol sl =
     JObj [(''lots'', JArr (map serialize_lot (sl_lots sl))), (''realized_pnl'', JDec (sl_realized_pnl sl))]"

definition serialize_ledger_state :: "ledger_state \<Rightarrow> json" where
  "serialize_ledger_state s =
     JObj [(''fees_by_currency'', JObj (map (\<lambda>(k, v). (k, JDec v)) (sort_items (ls_fees s)))),
           (''symbols'', JObj (map (\<lambda>(k, v). (k, serialize_symbol v)) (sort_items (ls_symbols s))))]"

fun json_get :: "string \<Rightarrow> json \<Rightarrow> json option result" where
  "json_get k (JObj kvs) = Inr (map_of kvs k)"
| "json_get k j = Inl (TypeError ''not a mapping'')"

definition json_item :: "string \<Rightarrow> json \<Rightarrow> json result" where
  "json_item k j = rbind (json_get k j) (\<lambda>v. case v of None \<Rightarrow> Inl (KeyError k) | Some x \<Rightarrow> Inr x)"

fun json_dec :: "json \<Rightarrow> dec result" where
  "json_dec (JDec d) = Inr d"
| "json_dec _ = Inl InvalidOperation"

fun json_time :: "json \<Rightarrow> instant result" where
  "json_time (JTime t) = Inr t"
| "json_time _ = Inl (ValueError ''Invalid isoformat string'')"

fun json_list :: "json \<Rightarrow> json list result" where
  "json_list (JArr xs) = Inr xs"
| "json_list _ = Inl (TypeError ''not a list'')"

fun json_items :: "json \<Rightarrow> (string \<times> json) list result" where
  "json_items (JObj kvs) = Inr kvs"
| "json_items _ = Inl (TypeError ''not a mapping'')"

definition deserialize_lot :: "string \<Rightarrow> json \<Rightarrow> position_lot result" where
  "deserialize_lot symb j =
     rbind (rbind (json_item ''qty'' j) json_dec) (\<lambda>qty.
     rbind (rbind (json_item ''unit_cost'' j) json_dec) (\<lambda>cost.
     rbind (rbind (json_item ''opened_at'' j) json_time) (\<lambda>opened.
       Inr \<lparr>lot_symbol = symb, lot_qty = qty, lot_unit_cost = cost, lot_opened_at = opened\<rparr>)))"

definition deserialize_symbol :: "string \<times> json \<Rightarrow> (string \<times> symbol_ledger) result" where
  "deserialize_symbol kv =
     rbind (json_get ''lots'' (snd kv)) (\<lambda>lots.
     rbind (case lots of None \<Rightarrow> Inr [] | Some l \<Rightarrow> json_list l) (\<lambda>raw.
     rbind (rmap (deserialize_lot (fst kv)) raw) (\<lambda>ls.
     rbind (json_get ''realized_pnl'' (snd kv)) (\<lambda>pnl.
     rbind (case pnl of None \<Rightarrow> Inr 0 | Some p \<Rightarrow> json_dec p) (\<lambda>realized.
       Inr (fst kv, \<lparr>sl_symbol = fst kv, sl_lots = ls, sl_realized_pnl = realized\<rparr>))))))"

definition deserialize_fee :: "string \<times> json \<Rightarrow> (string \<times> dec) result" where
  "deserialize_fee kv = rbind (json_dec (snd kv)) (\<lambda>d. Inr (fst kv, d))"

definition json_object_or_empty :: "string \<Rightarrow> json \<Rightarrow> (string \<times> json) list result" where
  "json_object_or_empty k j =
     rbind (json_get k j) (\<lambda>v. case v of None \<Rightarrow> Inr [] | Some x \<Rightarrow> json_items x)"

definition deserialize_ledger_state :: "json \<Rightarrow> ledger_state result" where
  "deserialize_ledger_state j =
     rbind (json_object_or_empty ''symbols'' j) (\<lambda>symbols_raw.
     rbind (json_object_or_empty ''fees_by_currency'' j) (\<lambda>fees_raw.
     rbind (rmap deserialize_symbol (sort_items symbols_raw)) (\<lambda>symbols.
     rbind (rmap deserialize_fee (sort_items fees_raw)) (\<lambda>fees.
       Inr \<lparr>ls_symbols = symbols, ls_fees = fees\<rparr>))))"

subsection \<open>Replay in batches and in any order\<close>

lemma apply_events_batches:
  assumes "\<forall>x \<in> set xs. \<forall>y \<in> set ys. event_key x \<le> event_key y"
  shows "apply_events r s (xs @ ys) = rbind (apply_events r s xs) (\<lambda>t. apply_events r t ys)"
  by (simp add: apply_events_def sort_events_def sort_key_append [OF assms] rfold_append)

text \<open>
  (C26) Replay does not depend on the order in which events arrive: any two orders of the same
  events, with distinct time stamp and id pairs, reduce to the same state or the same error.
\<close>

theorem apply_events_order_independent:
  assumes "mset xs = mset ys" and "inj_on event_key (set xs)"
  shows "apply_events r s xs = apply_events r s ys"
  using sort_key_perm [OF assms] by (simp add: apply_events_def sort_events_def)

theorem apply_events_order_independent_witness:
  "apply_events None empty_ledger_state demo_events = apply_events None empty_ledger_state (rev demo_events)"
  by (rule apply_events_order_independent)
    (simp_all add: demo_events_def ev_buy_def ev_sell_def event_key_def inj_on_def)

subsection \<open>States that differ in the order of their dictionaries only\<close>

definition ledger_eq :: "ledger_state \<Rightarrow> ledger_state \<Rightarrow> bool" where
  "ledger_eq s t \<longleftrightarrow> map_of (ls_symbols s) = map_of (ls_symbols t) \<and> map_of (ls_fees s) = map_of (ls_fees t)"

lemma ledger_eq_refl [simp]: "ledger_eq s s"
  by (simp add: ledger_eq_def)

lemma ledger_eq_sym: "ledger_eq s t \<Longrightarrow> ledger_eq t s"
  by (simp add: ledger_eq_def)

lemma ledger_eq_trans [trans]: "ledger_eq s t \<Longrightarrow> ledger_eq t u \<Longrightarrow> ledger_eq s u"
  by (simp add: ledger_eq_def)

definition result_eq :: "ledger_state result \<Rightarrow> ledger_state result \<Rightarrow> bool" where
  "result_eq x y =
     (case (x, y) of (Inl e, Inl e') \<Rightarrow> e = e' | (Inr s, Inr t) \<Rightarrow> ledger_eq s t | _ \<Rightarrow> False)"

lemma result_eq_refl [simp]: "result_eq x x"
  by (auto simp: result_eq_def split: sum.splits)

lemma result_eq_Inr: "result_eq (Inr s) y \<longleftrightarrow> (\<exists>t. y = Inr t \<and> ledger_eq s t)"
  by (auto simp: result_eq_def split: sum.splits)

lemma symbol_ledger_of_eq: "ledger_eq s t \<Longrightarrow> symbol_ledger_of s = symbol_ledger_of t"
  by (simp add: ledger_eq_def symbol_ledger_of_def fun_eq_iff)

lemma apply_fee_eq:
  assumes "map_of fees = map_of fees'"
  shows "(\<exists>e. apply_fee p ev fees = Inl e \<and> apply_fee p ev fees' = Inl e)
    \<or> (\<exists>f f'. apply_fee p ev fees = Inr f \<and> apply_fee p ev fees' = Inr f' \<and> map_of f = map_of f')"
  using assms
  by (cases "round_fee (dadd (dict_get fees' (str_upper (the (le_fee_currency ev))) 0) (the (le_fee ev))) p")
    (auto simp: apply_fee_def Let_def split: ledger_event_type.splits option.splits)

lemma apply_event_eq:
  assumes "ledger_eq s t"
  shows "result_eq (apply_event r s e) (apply_event r t e)"
proof -
  have m: "map_of (ls_symbols s) = map_of (ls_symbols t)" "map_of (ls_fees s) = map_of (ls_fees t)"
    using assms by (auto simp: ledger_eq_def)
  show ?thesis
    using apply_fee_eq [OF m(2), of "policy_for r (le_symbol e)" e] m(1)
    by (cases "apply_fill (policy_for r (le_symbol e)) e (sl_lots (symbol_ledger_of t (le_symbol e)))
        (sl_realized_pnl (symbol_ledger_of t (le_symbol e)))")
      (auto simp: apply_event_def Let_def symbol_ledger_of_eq [OF assms] result_eq_def ledger_eq_def)
qed

lemma rfold_apply_event_eq:
  "ledger_eq s t \<Longrightarrow> result_eq (rfold (apply_event r) s es) (rfold (apply_event r) t es)"
proof (induction es arbitrary: s t)
  case (Cons e es)
  then show ?case using apply_event_eq [OF Cons.prems, of r e]
    by (cases "apply_event r s e"; cases "apply_event r t e") (auto simp: result_eq_def)
qed (simp add: result_eq_def)

lemma apply_events_eq: "ledger_eq s t \<Longrightarrow> result_eq (apply_events r s es) (apply_events r t es)"
  by (simp add: apply_events_def rfold_apply_event_eq)

subsection \<open>The JSON round trip\<close>

definition ledger_wf :: "ledger_state \<Rightarrow> bool" where
  "ledger_wf s \<longleftrightarrow> dict_wf (ls_symbols s) \<and> dict_wf (ls_fees s) \<and>
     (\<forall>(k, v) \<in> set (ls_symbols s). sl_symbol v = k \<and> (\<forall>l \<in> set (sl_lots v). lot_symbol l = k))"

lemma sort_items_map:
  "sort_items (map (\<lambda>(k, v). (k, g v)) (sort_items d)) = map (\<lambda>(k, v). (k, g v)) (sort_items d)"
  unfolding sort_items_def
  by (rule sort_key_id_if_sorted) (simp add: comp_def case_prod_unfold)

lemma dict_wf_sort_items [simp]: "dict_wf (sort_items d) = dict_wf d"
  unfolding sort_items_def by (metis mset_eq_imp_distinct_iff mset_map mset_sort)

lemma map_of_sort_items: "dict_wf d \<Longrightarrow> map_of (sort_items d) = map_of d"
  by (subst map_of_inject_set) (auto simp: sort_items_def [symmetric], auto simp: sort_items_def)

lemma rmap_map_Inr:
  "(\<And>x. x \<in> set xs \<Longrightarrow> f (g x) = Inr (h x)) \<Longrightarrow> rmap f (map g xs) = Inr (map h xs)"
  by (induction xs) auto

lemma deserialize_serialize_lot:
  "lot_symbol l = k \<Longrightarrow> deserialize_lot k (serialize_lot l) = Inr l"
  by (simp add: deserialize_lot_def serialize_lot_def json_item_def)

lemma deserialize_serialize_symbol:
  assumes "sl_symbol v = k" "\<forall>l \<in> set (sl_lots v). lot_symbol l = k"
  shows "deserialize_symbol (k, serialize_symbol v) = Inr (k, v)"
proof -
  have "rmap (deserialize_lot k) (map serialize_lot (sl_lots v)) = Inr (map id (sl_lots v))"
    using assms(2) by (intro rmap_map_Inr) (simp add: deserialize_serialize_lot)
  then show ?thesis using assms(1) by (simp add: deserialize_symbol_def serialize_symbol_def)
qed

lemma deserialize_serialize:
  assumes "ledger_wf s"
  shows "deserialize_ledger_state (serialize_ledger_state s)
    = Inr \<lparr>ls_symbols = sort_items (ls_symbols s), ls_fees = sort_items (ls_fees s)\<rparr>"
proof -
  have "rmap deserialize_symbol (map (\<lambda>(k, v). (k, serialize_symbol v)) (sort_items (ls_symbols s)))
      = Inr (map id (sort_items (ls_symbols s)))"
    using assms by (intro rmap_map_Inr)
      (auto simp: ledger_wf_def sort_items_def deserialize_serialize_symbol)
  moreover have "rmap deserialize_fee (map (\<lambda>(k, v). (k, JDec v)) (sort_items (ls_fees s)))
      = Inr (map id (sort_items (ls_fees s)))"
    by (intro rmap_map_Inr) (auto simp: deserialize_fee_def)
  ultimately show ?thesis
    by (simp add: deserialize_ledger_state_def serialize_ledger_state_def json_object_or_empty_def
        sort_items_map)
qed

lemma deserialize_serialize_eq:
  assumes "ledger_wf s" "deserialize_ledger_state (serialize_ledger_state s) = Inr t"
  shows "ledger_eq t s" "ledger_wf t"
proof -
  have t: "t = \<lparr>ls_symbols = sort_items (ls_symbols s), ls_fees = sort_items (ls_fees s)\<rparr>"
    using assms by (simp add: deserialize_serialize)
  show "ledger_eq t s" using assms(1) by (auto simp: t ledger_eq_def map_of_sort_items ledger_wf_def)
  show "ledger_wf t"
    using assms(1) by (auto simp: t ledger_wf_def) (auto simp: sort_items_def)
qed

text \<open>
  The checkpoint format loses nothing: reading back a written ledger state always
  succeeds and gives a state with the same symbols, lots, profits and fees (in the sorted key
  order of the file).
\<close>

theorem ledger_json_round_trip:
  assumes "ledger_wf s"
  shows "\<exists>t. deserialize_ledger_state (serialize_ledger_state s) = Inr t \<and> ledger_eq t s \<and> ledger_wf t"
  using deserialize_serialize [OF assms] deserialize_serialize_eq [OF assms] by blast

lemma demo_state_wf: "ledger_wf demo_state"
  by (simp add: ledger_wf_def demo_state_def)

theorem ledger_json_round_trip_witness:
  "ledger_wf demo_state
   \<and> (\<exists>t. deserialize_ledger_state (serialize_ledger_state demo_state) = Inr t \<and> ledger_eq t demo_state)"
  using ledger_json_round_trip [OF demo_state_wf] demo_state_wf by blast

lemma match_lots_symbol:
  assumes "match_lots policy price remaining realized lots = Inr (remaining', realized', lots')"
    and "\<forall>l \<in> set lots. lot_symbol l = k"
  shows "\<forall>l \<in> set lots'. lot_symbol l = k"
  using assms
proof (induction policy price remaining realized lots rule: match_lots.induct)
  case (2 policy price remaining realized lot lots)
  show ?case
  proof (cases "0 < remaining")
    case True
    then obtain r where
      q: "round_quote (dadd realized (dmul (dsub price (lot_unit_cost lot)) (min remaining (lot_qty lot)))) policy = Inr r"
      using 2(3) by (auto simp: rbind_eq_Inr_iff Let_def)
    show ?thesis
      using "2.IH"(1) [OF True refl q refl refl] "2.IH"(2) [OF True refl q refl refl] 2(3,4) True q
      by (simp add: Let_def split: if_splits)
  qed (use 2(3,4) in simp)
qed simp

lemma apply_fill_symbol:
  "apply_fill policy e lots realized = Inr (lots', realized') \<Longrightarrow> \<forall>l \<in> set lots. lot_symbol l = le_symbol e
    \<Longrightarrow> \<forall>l \<in> set lots'. lot_symbol l = le_symbol e"
  by (auto simp: apply_fill_def Let_def rbind_eq_Inr_iff dest: match_lots_symbol
      split: ledger_event_type.splits option.splits if_splits prod.splits)

lemma apply_fee_wf: "apply_fee policy e fees = Inr fees' \<Longrightarrow> dict_wf fees \<Longrightarrow> dict_wf fees'"
  by (auto simp: apply_fee_def Let_def rbind_eq_Inr_iff
      split: ledger_event_type.splits option.splits if_splits)

lemma set_update_subset: "set (AList.update k v d) \<subseteq> insert (k, v) (set d)"
  by (induction d) auto

lemma apply_event_wf:
  assumes "apply_event r s e = Inr s'" "ledger_wf s"
  shows "ledger_wf s'"
proof -
  from assms(1) obtain lots realized fees where
    f: "apply_fill (policy_for r (le_symbol e)) e (sl_lots (symbol_ledger_of s (le_symbol e)))
         (sl_realized_pnl (symbol_ledger_of s (le_symbol e))) = Inr (lots, realized)"
    and fee: "apply_fee (policy_for r (le_symbol e)) e (ls_fees s) = Inr fees"
    and s': "s' = \<lparr>ls_symbols = AList.update (le_symbol e)
            \<lparr>sl_symbol = le_symbol e, sl_lots = lots, sl_realized_pnl = apply_adjustment e realized\<rparr>
            (ls_symbols s), ls_fees = fees\<rparr>"
    by (rule apply_event_symbol)
  have w: "dict_wf (ls_symbols s)" "dict_wf (ls_fees s)"
    and v: "\<And>k v. (k, v) \<in> set (ls_symbols s) \<Longrightarrow> sl_symbol v = k \<and> (\<forall>l \<in> set (sl_lots v). lot_symbol l = k)"
    using assms(2) by (auto simp: ledger_wf_def)
  have "\<forall>l \<in> set (sl_lots (symbol_ledger_of s (le_symbol e))). lot_symbol l = le_symbol e"
    using v by (auto simp: symbol_ledger_of_def split: option.splits dest: map_of_SomeD)
  then have "\<forall>l \<in> set lots. lot_symbol l = le_symbol e" by (rule apply_fill_symbol [OF f])
  then have "\<forall>(k, v) \<in> set (ls_symbols s'). sl_symbol v = k \<and> (\<forall>l \<in> set (sl_lots v). lot_symbol l = k)"
    using set_update_subset [of "le_symbol e"
        "\<lparr>sl_symbol = le_symbol e, sl_lots = lots, sl_realized_pnl = apply_adjustment e realized\<rparr>" "ls_symbols s"] v
    unfolding s' by auto
  then show ?thesis using w apply_fee_wf [OF fee] unfolding ledger_wf_def by (simp add: s')
qed

lemma apply_events_wf: "apply_events r s es = Inr s' \<Longrightarrow> ledger_wf s \<Longrightarrow> ledger_wf s'"
  unfolding apply_events_def by (erule rfold_invariant [where I = ledger_wf]) (auto intro: apply_event_wf)

lemma ledger_wf_empty [simp]: "ledger_wf empty_ledger_state"
  by (simp add: ledger_wf_def empty_ledger_state_def)

subsection \<open>Maximum drawdown\<close>

text \<open>The specification: the drawdown of a point from the highest equity up to that point.\<close>

definition drawdown_at :: "dec list \<Rightarrow> nat \<Rightarrow> dec" where
  "drawdown_at xs j =
     (let peak = Max (set (take (Suc j) xs)) in if peak \<le> 0 then 0 else ddiv (dsub peak (xs ! j)) peak)"

lemma drawdown_at_nonneg: "j < length xs \<Longrightarrow> 0 \<le> drawdown_at xs j"
proof -
  assume j: "j < length xs"
  have "xs ! j \<le> Max (set (take (Suc j) xs))"
    using j by (intro Max_ge) (auto simp: take_Suc_conv_app_nth)
  then show ?thesis by (simp add: drawdown_at_def Let_def dec_sign)
qed

lemma Max_insert_max:
  "finite A \<Longrightarrow> Max (insert (max a b) A) = Max (insert a (insert b (A :: 'a :: linorder set)))"
  by (cases "A = {}") (auto simp: max.assoc)

lemma drawdown_loop_spec:
  assumes "ys \<noteq> []" "0 \<le> m"
  shows "drawdown_loop (Some (Max (set ys))) m xs
    = Max (insert m (drawdown_at (ys @ xs) ` {length ys ..< length ys + length xs}))"
  using assms
proof (induction xs arbitrary: ys m)
  case (Cons x xs)
  let ?p = "Max (set ys)"
  let ?p' = "Max (set (ys @ [x]))"
  let ?d = "drawdown_at (ys @ x # xs) (length ys)"
  have p': "?p' = max x ?p" using Cons.prems(1) by simp
  have d: "?d = (if ?p' \<le> 0 then 0 else ddiv (dsub ?p' x) ?p')"
    using Cons.prems(1) by (simp add: drawdown_at_def Let_def)
  have "drawdown_loop (Some ?p) m (x # xs) = drawdown_loop (Some ?p') (max m ?d) xs"
    unfolding d p' using Cons.prems(2) by (auto simp: max_def ddiv_def Let_def)
  also have "\<dots> = Max (insert (max m ?d)
      (drawdown_at ((ys @ [x]) @ xs) ` {length (ys @ [x]) ..< length (ys @ [x]) + length xs}))"
    using Cons.prems(2) by (intro Cons.IH) auto
  also have "\<dots> = Max (insert m (drawdown_at (ys @ x # xs) ` {length ys ..< length ys + length (x # xs)}))"
  proof -
    have "{length ys ..< length ys + length (x # xs)} = insert (length ys) {Suc (length ys) ..< Suc (length ys + length xs)}"
      by auto
    then show ?thesis by (simp add: Max_insert_max)
  qed
  finally show ?case .
qed simp

text \<open>
  The maximum drawdown is what its name says: the largest relative drop, over all equity
  points in time order, from the highest equity seen up to the point (and 0 if there is none);
  for non-negative equities of at most 28 digits it lies between 0 and 1.
\<close>

theorem max_drawdown_spec:
  assumes "xs = map snd (sort_key fst points)"
  shows "compute_max_drawdown points = Max (insert 0 (drawdown_at xs ` {..< length xs}))
    \<and> ((\<forall>x \<in> set xs. 0 \<le> x \<and> fits x) \<longrightarrow> 0 \<le> compute_max_drawdown points \<and> compute_max_drawdown points \<le> 1)"
proof -
  have eq: "compute_max_drawdown points = Max (insert 0 (drawdown_at xs ` {..< length xs}))"
  proof (cases xs)
    case Nil
    then show ?thesis using assms by (simp add: compute_max_drawdown_def)
  next
    case (Cons x zs)
    have "drawdown_at xs 0 = 0" by (simp add: Cons drawdown_at_def ddiv_def)
    moreover have "{..< length xs} = insert 0 {1 ..< Suc (length zs)}" by (auto simp: Cons)
    moreover have "compute_max_drawdown points = drawdown_loop (Some (Max (set [x]))) 0 zs"
      unfolding compute_max_drawdown_def assms [symmetric] Cons by simp
    ultimately show ?thesis using drawdown_loop_spec [of "[x]" 0 zs] by (simp add: Cons)
  qed
  have "drawdown_at xs j \<le> 1" if "\<forall>x \<in> set xs. 0 \<le> x \<and> fits x" "j < length xs" for j
  proof -
    let ?p = "Max (set (take (Suc j) xs))"
    have "?p \<in> set (take (Suc j) xs)" using that(2) by (intro Max_in) auto
    then have p: "?p \<in> set xs" using set_take_subset [of "Suc j" xs] by blast
    have "dsub ?p (xs ! j) \<le> ?p" using that p by (intro dsub_le) auto
    then have "dsub ?p (xs ! j) / ?p \<le> 1" if "\<not> ?p \<le> 0" using that by simp
    then show ?thesis using drnd_le_fits [OF fits_1] by (auto simp: drawdown_at_def Let_def ddiv_def)
  qed
  then show ?thesis using eq by (auto simp: drawdown_at_nonneg)
qed

theorem max_drawdown_spec_witness:
  "compute_max_drawdown [(2, 80), (1, 100), (3, 120), (4, 90)]
     = Max (insert 0 (drawdown_at [100, 80, 120, 90] ` {..< length [100, 80, 120, 90 :: dec]}))
   \<and> compute_max_drawdown [(2, 80), (1, 100), (3, 120), (4, 90)] \<le> 1"
proof -
  have s: "[100, 80, 120, 90 :: dec] = map snd (sort_key fst [(2 :: instant, 80), (1, 100), (3, 120), (4, 90)])"
    by simp
  have "\<forall>x \<in> set [100, 80, 120, 90 :: dec]. 0 \<le> x \<and> fits x"
    using fits_of_int [of 100] fits_of_int [of 80] fits_of_int [of 120] fits_of_int [of 90] by simp
  then show ?thesis using max_drawdown_spec [OF s] by blast
qed

end
