(* ===== verification/Stage4.thy ===== *)
theory Stage4
  imports Prelude Py_Decimal
begin

text \<open>
  The data of the stage 4 pipeline, \<open>src/src/btcbot/domain/stage4.py\<close>: orders, fills,
  positions, profit snapshots and lifecycle actions, and the classification of rejections.
\<close>

subsection \<open>Definitions\<close>

datatype lifecycle_action_type = SUBMIT | CANCEL | REPLACE

datatype stage4_reject_reason = MIN_TOTAL | MIN_QTY | TICK_SIZE | STEP_SIZE | BREAKER_OPEN | KILLSWITCH
  | FREEZE | MISSING_RULES | MAX_ORDER_NOTIONAL | UNKNOWN

record s4_order =
  o4_symbol :: string
  o4_side :: string
  o4_type :: string
  o4_price :: dec
  o4_qty :: dec
  o4_status :: string
  o4_created_at :: instant
  o4_updated_at :: instant
  o4_exchange_order_id :: "string option"
  o4_client_order_id :: "string option"
  o4_exchange_client_id :: "string option"
  o4_mode :: string

record s4_fill =
  f4_fill_id :: string
  f4_order_id :: string
  f4_symbol :: string
  f4_side :: string
  f4_price :: dec
  f4_qty :: dec
  f4_fee :: dec
  f4_fee_asset :: string
  f4_ts :: instant

record s4_position =
  p4_symbol :: string
  p4_qty :: dec
  p4_avg_cost_try :: dec
  p4_realized_pnl_try :: dec
  p4_last_update_ts :: instant

record pnl_snapshot =
  pn_total_equity_try :: dec
  pn_realized_today_try :: dec
  pn_drawdown_pct :: dec
  pn_ts :: instant
  pn_realized_total_try :: dec

record lifecycle_action =
  la_type :: lifecycle_action_type
  la_symbol :: string
  la_side :: string
  la_price :: dec
  la_qty :: dec
  la_reason :: string
  la_client_order_id :: "string option"
  la_exchange_order_id :: "string option"
  la_replace_for :: "string option"

text \<open>\<open>int(s)\<close>: white space, a sign and single underscores between digits are accepted.\<close>

fun dec_digits :: "bool \<Rightarrow> int \<Rightarrow> string \<Rightarrow> int option" where
  "dec_digits prev acc [] = (if prev then Some acc else None)"
| "dec_digits prev acc (c # cs) =
     (let n = (of_char c :: int) in
      if c = CHR ''_'' then if prev then dec_digits False acc cs else None
      else if 48 \<le> n \<and> n \<le> 57 then dec_digits True (10 * acc + (n - 48)) cs else None)"

definition int_of_str :: "string \<Rightarrow> int option" where
  "int_of_str s =
     (let t = str_strip s; neg = starts_with t ''-'';
          t' = (if neg \<or> starts_with t ''+'' then drop 1 t else t)
      in map_option (\<lambda>n. if neg then - n else n) (dec_digits False 0 t'))"

fun numeric_code :: "reject_code option \<Rightarrow> int option" where
  "numeric_code None = None"
| "numeric_code (Some (Code_int n)) = Some n"
| "numeric_code (Some (Code_str s)) = int_of_str s"

definition map_stage4_reject_reason :: "reject_code option \<Rightarrow> string option \<Rightarrow> stage4_reject_reason" where
  "map_stage4_reject_reason code reject_token =
     (let token = str_lower (str_strip (case reject_token of None \<Rightarrow> [] | Some t \<Rightarrow> t)) in
      if token \<in> set [''min_total'', ''min_notional_violation'', ''failed_min_total_amount'', ''prefilter_min_notional'']
        then MIN_TOTAL
      else if token \<in> set [''min_qty'', ''qty_below_min_qty_after_quantize''] then MIN_QTY
      else if token \<in> set [''tick_size'', ''price_tick_violation''] then TICK_SIZE
      else if token \<in> set [''step_size'', ''qty_step_violation''] then STEP_SIZE
      else if starts_with token ''missing_exchange_rules'' then MISSING_RULES
      else if starts_with token ''max_order_notional'' then MAX_ORDER_NOTIONAL
      else if starts_with token ''kill_switch'' then KILLSWITCH
      else if starts_with token ''freeze'' then FREEZE
      else if starts_with token ''exchange_reject_1123'' then BREAKER_OPEN
      else if numeric_code code = Some 1123 then BREAKER_OPEN
      else UNKNOWN)"

end
