(* ===== verification/Ledger_Service.thy ===== *)
theory Ledger_Service
  imports Ledger_Replay Stage4
begin

text \<open>
  The ledger service, \<open>src/src/btcbot/services/ledger_service.py\<close>, with the tables
  \<open>ledger_events\<close> and \<open>ledger_reducer_checkpoints\<close> of \<open>services/state_store.py\<close> and the
  converter of \<open>services/price_conversion_service.py\<close>.

  The rows of \<open>ledger_events\<close> are a list: no row is ever deleted, so the row with rowid \<open>n\<close> is
  the \<open>n\<close>-th of the list.  The unique index over fills without a trade id compares the texts
  of price and quantity; \<open>texts\<close> is the pair of these texts.  \<open>fallback_id\<close> is the identifier
  composed for a fill without one.

  The lemmas show that ingestion is idempotent and that loading from a checkpoint gives what a
  replay of all events gives, as long as events arrive in the order of their keys.
\<close>

subsection \<open>Definitions: the tables\<close>

record ledger_checkpoint_row =
  cp_last_rowid :: nat
  cp_snapshot :: json
  cp_version :: int
  cp_updated_at :: instant

record ledger_store =
  lg_events :: "ledger_event list"
  lg_checkpoints :: "(string, ledger_checkpoint_row) dict"
  lg_equity_points :: "(instant \<times> dec) list"

record append_result =
  ap_attempted :: nat
  ap_inserted :: nat
  ap_ignored :: nat

definition fallback_fill :: "ledger_event \<Rightarrow> bool" where
  "fallback_fill e = (le_type e = FILL \<and> le_exchange_trade_id e = None \<and> le_client_order_id e \<noteq> None
     \<and> le_side e \<noteq> None \<and> le_price e \<noteq> None)"

definition ledger_conflict :: "(ledger_event \<Rightarrow> string \<times> string) \<Rightarrow> ledger_event \<Rightarrow> ledger_event \<Rightarrow> bool" where
  "ledger_conflict texts r e =
     (le_event_id r = le_event_id e
      \<or> (le_exchange_trade_id e \<noteq> None \<and> le_exchange_trade_id r = le_exchange_trade_id e)
      \<or> (fallback_fill r \<and> fallback_fill e \<and> le_client_order_id r = le_client_order_id e \<and> le_symbol r = le_symbol e
         \<and> le_side r = le_side e \<and> texts r = texts e \<and> le_ts r = le_ts e))"

definition insert_ledger_event :: "(ledger_event \<Rightarrow> string \<times> string) \<Rightarrow> ledger_event list \<Rightarrow> ledger_event \<Rightarrow> ledger_event list" where
  "insert_ledger_event texts rows e =
     (let e' = e\<lparr>le_symbol := normalize_symbol (le_symbol e)\<rparr>
      in if list_ex (\<lambda>r. ledger_conflict texts r e') rows then rows else rows @ [e'])"

definition append_ledger_events ::
  "(ledger_event \<Rightarrow> string \<times> string) \<Rightarrow> ledger_store \<Rightarrow> ledger_event list \<Rightarrow> ledger_store \<times> append_result" where
  "append_ledger_events texts s events =
     (let rows = foldl (insert_ledger_event texts) (lg_events s) events;
          inserted = length rows - length (lg_events s)
      in (s\<lparr>lg_events := rows\<rparr>,
          \<lparr>ap_attempted = length events, ap_inserted = inserted, ap_ignored = length events - inserted\<rparr>))"

definition load_ledger_events :: "ledger_store \<Rightarrow> instant option \<Rightarrow> instant option \<Rightarrow> string option \<Rightarrow> ledger_event list" where
  "load_ledger_events s time_min time_max symb =
     sort_key event_key (filter (\<lambda>e. (case time_min of None \<Rightarrow> True | Some t \<Rightarrow> t \<le> le_ts e)
        \<and> (case time_max of None \<Rightarrow> True | Some t \<Rightarrow> le_ts e \<le> t)
        \<and> (case symb of None \<Rightarrow> True | Some x \<Rightarrow> le_symbol e = normalize_symbol x)) (lg_events s))"

definition load_ledger_events_after_rowid :: "ledger_store \<Rightarrow> nat \<Rightarrow> ledger_event list \<times> nat" where
  "load_ledger_events_after_rowid s last_rowid =
     (let rows = drop last_rowid (lg_events s)
      in (rows, if rows = [] then last_rowid else length (lg_events s)))"

definition get_latest_ledger_event_rowid :: "ledger_store \<Rightarrow> nat" where
  "get_latest_ledger_event_rowid s = length (lg_events s)"

definition get_ledger_checkpoint :: "ledger_store \<Rightarrow> string \<Rightarrow> ledger_checkpoint_row option" where
  "get_ledger_checkpoint s scope = map_of (lg_checkpoints s) scope"

definition upsert_ledger_checkpoint :: "ledger_store \<Rightarrow> string \<Rightarrow> ledger_checkpoint_row \<Rightarrow> ledger_store" where
  "upsert_ledger_checkpoint s scope c = s\<lparr>lg_checkpoints := AList.update scope c (lg_checkpoints s)\<rparr>"

subsection \<open>Definitions: ingestion\<close>

definition fill_events :: "(s4_fill \<Rightarrow> string) \<Rightarrow> s4_fill \<Rightarrow> ledger_event list" where
  "fill_events fallback_id f =
     (let symb = normalize_symbol (f4_symbol f);
          stripped = str_strip (f4_fill_id f);
          fill_id = (if stripped = [] then fallback_id f else stripped)
      in [\<lparr>le_event_id = ''fill:'' @ fill_id, le_ts = f4_ts f, le_symbol = symb, le_type = FILL,
           le_side = Some (str_upper (f4_side f)), le_qty = f4_qty f, le_price = Some (f4_price f), le_fee = None,
           le_fee_currency = None, le_exchange_trade_id = Some fill_id, le_exchange_order_id = Some (f4_order_id f),
           le_client_order_id = None\<rparr>]
         @ (if 0 < f4_fee f then
              [\<lparr>le_event_id = ''fee:'' @ fill_id, le_ts = f4_ts f, le_symbol = symb, le_type = FEE, le_side = None,
                le_qty = 0, le_price = None, le_fee = Some (f4_fee f), le_fee_currency = Some (str_upper (f4_fee_asset f)),
                le_exchange_trade_id = Some (''fee:'' @ fill_id), le_exchange_order_id = Some (f4_order_id f),
                le_client_order_id = None\<rparr>]
            else []))"

definition ingest_exchange_updates ::
  "(ledger_event \<Rightarrow> string \<times> string) \<Rightarrow> (s4_fill \<Rightarrow> string) \<Rightarrow> ledger_store \<Rightarrow> s4_fill list \<Rightarrow> ledger_store \<times> append_result" where
  "ingest_exchange_updates texts fallback_id s fills =
     append_ledger_events texts s (concat (map (fill_events fallback_id) fills))"

record simulated_fill =
  sf_event :: ledger_event
  sf_fee_event :: ledger_event
  sf_applied_price :: dec
  sf_baseline_price :: dec

definition first_id :: "string option list \<Rightarrow> string \<Rightarrow> string" where
  "first_id ids d = (case find (\<lambda>x. x \<noteq> None \<and> x \<noteq> Some []) ids of Some (Some s) \<Rightarrow> s | _ \<Rightarrow> d)"

definition simulated_fee :: "dec \<Rightarrow> string \<Rightarrow> dec option \<Rightarrow> dec" where
  "simulated_fee fee_try fee_ccy rate =
     (case rate of None \<Rightarrow> fee_try
      | Some r \<Rightarrow> if fee_ccy \<noteq> ''TRY'' \<and> 0 < r then ddiv fee_try r else fee_try)"

definition simulate_action ::
  "string \<Rightarrow> (string, dec) dict \<Rightarrow> dec \<Rightarrow> dec \<Rightarrow> instant \<Rightarrow> string \<Rightarrow> dec option \<Rightarrow> nat \<times> lifecycle_action \<Rightarrow> simulated_fill list" where
  "simulate_action cycle_id mark_prices slippage_bps fees_bps ts fee_currency rate ia =
     (let a = snd ia; symb = normalize_symbol (la_symbol a) in
      if la_type a \<noteq> SUBMIT then []
      else case map_of mark_prices symb of
        None \<Rightarrow> []
      | Some baseline \<Rightarrow>
          if baseline \<le> 0 then []
          else
            let side = str_upper (la_side a);
                sign = (if side = ''BUY'' then 1 else - 1);
                applied = dmul baseline (dadd 1 (dmul sign (ddiv slippage_bps 10000)));
                fee_try = dmul (dmul applied (la_qty a)) (ddiv fees_bps 10000);
                fee_ccy = str_upper fee_currency;
                fill_id = ''s7:'' @ cycle_id @ '':''
                   @ first_id [la_client_order_id a, la_exchange_order_id a] (str_nat (fst ia))
            in [\<lparr>sf_event = \<lparr>le_event_id = ''fill:'' @ fill_id, le_ts = ts, le_symbol = symb, le_type = FILL,
                    le_side = Some side, le_qty = la_qty a, le_price = Some applied, le_fee = None, le_fee_currency = None,
                    le_exchange_trade_id = Some fill_id, le_exchange_order_id = la_exchange_order_id a,
                    le_client_order_id = la_client_order_id a\<rparr>,
                 sf_fee_event = \<lparr>le_event_id = ''fee:'' @ fill_id, le_ts = ts, le_symbol = symb, le_type = FEE,
                    le_side = None, le_qty = 0, le_price = None, le_fee = Some (simulated_fee fee_try fee_ccy rate),
                    le_fee_currency = Some fee_ccy, le_exchange_trade_id = Some (''fee:'' @ fill_id),
                    le_exchange_order_id = la_exchange_order_id a, le_client_order_id = la_client_order_id a\<rparr>,
                 sf_applied_price = applied, sf_baseline_price = baseline\<rparr>])"

definition simulate_dry_run_fills ::
  "string \<Rightarrow> lifecycle_action list \<Rightarrow> (string, dec) dict \<Rightarrow> dec \<Rightarrow> dec \<Rightarrow> instant \<Rightarrow> string \<Rightarrow> dec option \<Rightarrow> simulated_fill list" where
  "simulate_dry_run_fills cycle_id actions mark_prices slippage_bps fees_bps ts fee_currency rate =
     concat (map (simulate_action cycle_id mark_prices slippage_bps fees_bps ts fee_currency rate) (enumerate 0 actions))"

definition append_simulated_fills ::
  "(ledger_event \<Rightarrow> string \<times> string) \<Rightarrow> ledger_store \<Rightarrow> simulated_fill list \<Rightarrow> ledger_store \<times> append_result" where
  "append_simulated_fills texts s fills = append_ledger_events texts s (concat (map (\<lambda>f. [sf_event f, sf_fee_event f]) fills))"

subsection \<open>Definitions: loading the state\<close>

text \<open>The exceptions that send the loader back to a full replay; an \<open>InvalidOperation\<close> is not one.\<close>

fun restore_caught :: "py_error \<Rightarrow> bool" where
  "restore_caught (ValueError m) = True"
| "restore_caught (ValidationError m) = True"
| "restore_caught (TypeError m) = True"
| "restore_caught (KeyError m) = True"
| "restore_caught e = False"

definition LEDGER_REDUCER_SNAPSHOT_VERSION :: int where
  "LEDGER_REDUCER_SNAPSHOT_VERSION = 1"

text \<open>The state and the row to start from, and whether they come from a checkpoint.\<close>

definition restore_checkpoint :: "ledger_store \<Rightarrow> string \<Rightarrow> (ledger_state \<times> nat \<times> bool) result" where
  "restore_checkpoint s scope =
     (case get_ledger_checkpoint s scope of
        None \<Rightarrow> Inr (empty_ledger_state, 0, False)
      | Some c \<Rightarrow>
          if cp_version c \<noteq> LEDGER_REDUCER_SNAPSHOT_VERSION then Inr (empty_ledger_state, 0, False)
          else case deserialize_ledger_state (cp_snapshot c) of
                 Inr st \<Rightarrow> Inr (st, cp_last_rowid c, True)
               | Inl e \<Rightarrow> if restore_caught e then Inr (empty_ledger_state, 0, False) else Inl e)"

definition apply_new_events :: "ledger_state \<Rightarrow> ledger_event list \<Rightarrow> ledger_state result" where
  "apply_new_events st events = (if events = [] then Inr st else apply_events None st events)"

definition load_state_incremental ::
  "instant \<Rightarrow> ledger_store \<Rightarrow> string \<Rightarrow> (ledger_state \<times> nat \<times> bool \<times> nat \<times> ledger_store) result" where
  "load_state_incremental now s scope =
     rbind (restore_checkpoint s scope) (\<lambda>(st, cursor, used).
       let (new_events, max_rowid) = load_ledger_events_after_rowid s cursor in
       rbind (apply_new_events st new_events) (\<lambda>st'.
         if new_events = [] \<and> used then Inr (st', cursor, True, 0, s)
         else
           let last_rowid = (if new_events = [] then cursor else max_rowid)
           in Inr (st', last_rowid, used, length new_events,
                upsert_ledger_checkpoint s scope \<lparr>cp_last_rowid = last_rowid, cp_snapshot = serialize_ledger_state st',
                  cp_version = LEDGER_REDUCER_SNAPSHOT_VERSION, cp_updated_at = now\<rparr>)))"

subsection \<open>Ingestion\<close>

lemma insert_ledger_event_cases:
  "insert_ledger_event texts rows e = rows \<or> insert_ledger_event texts rows e = rows @ [e\<lparr>le_symbol := normalize_symbol (le_symbol e)\<rparr>]"
  by (simp add: insert_ledger_event_def Let_def)

lemma insert_ledger_event_conflicts:
  "list_ex (\<lambda>r. ledger_conflict texts r (e\<lparr>le_symbol := normalize_symbol (le_symbol e)\<rparr>)) (insert_ledger_event texts rows e)"
  by (auto simp: insert_ledger_event_def Let_def ledger_conflict_def)

lemma foldl_insert_extends: "\<exists>new. foldl (insert_ledger_event texts) rows es = rows @ new"
proof (induction es arbitrary: rows)
  case (Cons e es)
  then show ?case using insert_ledger_event_cases [of texts rows e] by (metis append_assoc foldl_Cons)
qed simp

lemma foldl_insert_known:
  "\<forall>e \<in> set es. list_ex (\<lambda>r. ledger_conflict texts r (e\<lparr>le_symbol := normalize_symbol (le_symbol e)\<rparr>)) rows
    \<Longrightarrow> foldl (insert_ledger_event texts) rows es = rows"
  by (induction es) (auto simp: insert_ledger_event_def Let_def)

lemma foldl_insert_makes_known:
  "\<forall>e \<in> set es. list_ex (\<lambda>r. ledger_conflict texts r (e\<lparr>le_symbol := normalize_symbol (le_symbol e)\<rparr>))
     (foldl (insert_ledger_event texts) rows es)"
proof (induction es arbitrary: rows)
  case (Cons e es)
  obtain new where "foldl (insert_ledger_event texts) (insert_ledger_event texts rows e) es = insert_ledger_event texts rows e @ new"
    using foldl_insert_extends by blast
  then show ?case using Cons [of "insert_ledger_event texts rows e"] insert_ledger_event_conflicts [of texts e rows] by simp
qed simp

text \<open>Ingesting fills is idempotent: a second ingestion of the same fills inserts nothing and leaves
  the table as it is, and no ingestion changes or removes a row.\<close>

theorem ingest_idempotent:
  "case ingest_exchange_updates texts fallback_id s fills of (s1, r1) \<Rightarrow>
     ingest_exchange_updates texts fallback_id s1 fills = (s1, \<lparr>ap_attempted = ap_attempted r1, ap_inserted = 0, ap_ignored = ap_attempted r1\<rparr>)
     \<and> (\<exists>new. lg_events s1 = lg_events s @ new \<and> length new = ap_inserted r1)"
proof -
  let ?es = "concat (map (fill_events fallback_id) fills)"
  let ?rows = "foldl (insert_ledger_event texts) (lg_events s) ?es"
  have "foldl (insert_ledger_event texts) ?rows ?es = ?rows"
    using foldl_insert_known foldl_insert_makes_known by blast
  moreover obtain new where "?rows = lg_events s @ new" using foldl_insert_extends by blast
  ultimately show ?thesis by (simp add: ingest_exchange_updates_def append_ledger_events_def Let_def)
qed

subsection \<open>A reducer with checkpoints\<close>

text \<open>
  What the loader relies on: the reducer composes over batches in order, respects the
  equivalence of states, and a stored state is read back up to that equivalence.  Then resuming
  from a stored state is as good as starting over.
\<close>

locale checkpointed =
  fixes reduce :: "'s \<Rightarrow> 'e list \<Rightarrow> 's result" and initial :: 's and eqv :: "'s \<Rightarrow> 's \<Rightarrow> bool" and wf :: "'s \<Rightarrow> bool"
    and save :: "'s \<Rightarrow> 'j" and restore :: "'j \<Rightarrow> 's result" and before :: "'e \<Rightarrow> 'e \<Rightarrow> bool"
  assumes reduce_nil: "reduce s [] = Inr s"
    and reduce_batches: "\<forall>x \<in> set xs. \<forall>y \<in> set ys. before x y \<Longrightarrow> reduce s (xs @ ys) = rbind (reduce s xs) (\<lambda>t. reduce t ys)"
    and reduce_cong: "eqv s t \<Longrightarrow> reduce s es = Inr s' \<Longrightarrow> \<exists>t'. reduce t es = Inr t' \<and> eqv s' t'"
    and reduce_cong_error: "eqv s t \<Longrightarrow> reduce s es = Inl e \<Longrightarrow> reduce t es = Inl e"
    and reduce_wf: "wf s \<Longrightarrow> reduce s es = Inr s' \<Longrightarrow> wf s'"
    and initial_wf: "wf initial"
    and eqv_refl: "eqv s s" and eqv_sym: "eqv s t \<Longrightarrow> eqv t s" and eqv_trans: "eqv s t \<Longrightarrow> eqv t u \<Longrightarrow> eqv s u"
    and restore_save: "wf s \<Longrightarrow> \<exists>t. restore (save s) = Inr t \<and> eqv t s \<and> wf t"
begin

definition saved :: "'e list \<Rightarrow> nat \<Rightarrow> 'j \<Rightarrow> bool" where
  "saved es n j \<longleftrightarrow> n \<le> length es \<and> (\<exists>s t. reduce initial (take n es) = Inr s \<and> eqv t s \<and> wf t \<and> j = save t)"

lemma saved_initial: "saved es 0 (save initial)"
  unfolding saved_def using reduce_nil eqv_refl initial_wf by auto

lemma saved_append: "saved es n j \<Longrightarrow> saved (es @ es') n j"
  by (auto simp: saved_def)

lemma saved_restore: "saved es n j \<Longrightarrow> \<exists>t s. restore j = Inr t \<and> wf t \<and> reduce initial (take n es) = Inr s \<and> eqv t s"
  unfolding saved_def using restore_save eqv_trans by blast

lemma resume_ok:
  assumes "\<forall>x \<in> set (take n es). \<forall>y \<in> set (drop n es). before x y"
    and "reduce initial (take n es) = Inr s" "eqv t s" "reduce t (drop n es) = Inr t'"
  shows "\<exists>u. reduce initial es = Inr u \<and> eqv t' u"
proof -
  have "reduce initial es = reduce s (drop n es)"
    using reduce_batches [OF assms(1), of initial] assms(2) by simp
  then show ?thesis using reduce_cong [OF assms(3,4)] by simp
qed

lemma resume_error:
  assumes "\<forall>x \<in> set (take n es). \<forall>y \<in> set (drop n es). before x y"
    and "reduce initial (take n es) = Inr s" "eqv t s" "reduce t (drop n es) = Inl e"
  shows "reduce initial es = Inl e"
  using reduce_batches [OF assms(1), of initial] assms(2) reduce_cong_error [OF assms(3,4)] by simp

lemma saved_after:
  assumes "reduce initial es = Inr u" "eqv t' u" "wf t'"
  shows "saved es (length es) (save t')"
  using assms by (auto simp: saved_def)

end

abbreviation key_before :: "ledger_event \<Rightarrow> ledger_event \<Rightarrow> bool" where
  "key_before x y \<equiv> event_key x \<le> event_key y"

lemma apply_events_Nil: "apply_events r s [] = Inr s"
  by (simp add: apply_events_def sort_events_def)

lemma apply_events_cong:
  assumes "ledger_eq s t"
  shows "apply_events r s es = Inr s' \<Longrightarrow> \<exists>t'. apply_events r t es = Inr t' \<and> ledger_eq s' t'"
    "apply_events r s es = Inl e \<Longrightarrow> apply_events r t es = Inl e"
  using apply_events_eq [OF assms, of r es] by (auto simp: result_eq_def split: sum.splits)

lemma restore_serialized: "ledger_wf s \<Longrightarrow> \<exists>t. deserialize_ledger_state (serialize_ledger_state s) = Inr t \<and> ledger_eq t s \<and> ledger_wf t"
  using deserialize_serialize [of s] deserialize_serialize_eq [of s] by blast

interpretation led: checkpointed "apply_events None" empty_ledger_state ledger_eq ledger_wf serialize_ledger_state
  deserialize_ledger_state key_before
proof
  show "apply_events None s (xs @ ys) = rbind (apply_events None s xs) (\<lambda>t. apply_events None t ys)"
    if "\<forall>x \<in> set xs. \<forall>y \<in> set ys. event_key x \<le> event_key y" for xs ys s
    using that by (rule apply_events_batches)
qed (auto simp: apply_events_Nil intro: apply_events_cong apply_events_wf restore_serialized ledger_eq_sym ledger_eq_trans)

subsection \<open>Loading\<close>

text \<open>The tables the service builds when events arrive in the order of their keys.\<close>

definition chronological :: "ledger_event list \<Rightarrow> bool" where
  "chronological es \<longleftrightarrow> sorted (map event_key es)"

inductive ledger_reachable :: "(ledger_event \<Rightarrow> string \<times> string) \<Rightarrow> ledger_store \<Rightarrow> bool" for texts where
  ledger_init: "lg_events s = [] \<Longrightarrow> lg_checkpoints s = [] \<Longrightarrow> ledger_reachable texts s"
| ledger_ingest: "ledger_reachable texts s \<Longrightarrow> chronological (lg_events s @ es) \<Longrightarrow>
    ledger_reachable texts (fst (append_ledger_events texts s es))"
| ledger_load: "ledger_reachable texts s \<Longrightarrow> load_state_incremental now s scope = Inr (st, n, used, k, s') \<Longrightarrow>
    ledger_reachable texts s'"

definition store_inv :: "ledger_store \<Rightarrow> bool" where
  "store_inv s \<longleftrightarrow> chronological (lg_events s) \<and>
     (\<forall>scope c. map_of (lg_checkpoints s) scope = Some c \<longrightarrow> led.saved (lg_events s) (cp_last_rowid c) (cp_snapshot c))"

lemma event_key_symbol [simp]: "event_key (e\<lparr>le_symbol := x\<rparr>) = event_key e"
  by (simp add: event_key_def)

lemma foldl_insert_chronological:
  "chronological (rows @ es) \<Longrightarrow> chronological (foldl (insert_ledger_event texts) rows es)"
proof (induction es arbitrary: rows)
  case (Cons e es)
  have "chronological (insert_ledger_event texts rows e @ es)"
    using insert_ledger_event_cases [of texts rows e] Cons.prems
    by (auto simp: chronological_def sorted_append)
  then show ?case using Cons.IH by simp
qed (simp add: chronological_def)

lemma chronological_split: "chronological es \<Longrightarrow> \<forall>x \<in> set (take n es). \<forall>y \<in> set (drop n es). event_key x \<le> event_key y"
proof -
  assume "chronological es"
  then have "sorted (map event_key (take n es @ drop n es))" by (simp only: append_take_drop_id chronological_def)
  then show ?thesis unfolding map_append sorted_append set_map by blast
qed

lemma restore_checkpoint_ok:
  assumes "store_inv s"
  obtains st n used t where "restore_checkpoint s scope = Inr (st, n, used)" "n \<le> length (lg_events s)" "ledger_wf st"
    "apply_events None empty_ledger_state (take n (lg_events s)) = Inr t" "ledger_eq st t"
proof (cases "map_of (lg_checkpoints s) scope")
  case None
  then show ?thesis using that [of empty_ledger_state 0 False empty_ledger_state]
    by (simp add: restore_checkpoint_def get_ledger_checkpoint_def apply_events_Nil)
next
  case (Some c)
  then have sv: "led.saved (lg_events s) (cp_last_rowid c) (cp_snapshot c)" using assms by (auto simp: store_inv_def)
  then obtain st t where st: "deserialize_ledger_state (cp_snapshot c) = Inr st" "ledger_wf st"
      "apply_events None empty_ledger_state (take (cp_last_rowid c) (lg_events s)) = Inr t" "ledger_eq st t"
    using led.saved_restore by blast
  show ?thesis
  proof (cases "cp_version c = LEDGER_REDUCER_SNAPSHOT_VERSION")
    case True
    then show ?thesis using that [of st "cp_last_rowid c" True t] Some st sv
      by (simp add: restore_checkpoint_def get_ledger_checkpoint_def led.saved_def)
  next
    case False
    then show ?thesis using that [of empty_ledger_state 0 False empty_ledger_state] Some
      by (simp add: restore_checkpoint_def get_ledger_checkpoint_def apply_events_Nil)
  qed
qed

lemma apply_new_events_eq: "apply_new_events st es = apply_events None st es"
  by (simp add: apply_new_events_def apply_events_Nil)

lemma load_state_spec:
  assumes inv: "store_inv s"
  shows "case load_state_incremental now s scope of
      Inl e \<Rightarrow> apply_events None empty_ledger_state (lg_events s) = Inl e
    | Inr (st, n, used, k, s') \<Rightarrow> n = length (lg_events s) \<and> lg_events s' = lg_events s \<and> store_inv s' \<and>
        (\<exists>t. apply_events None empty_ledger_state (lg_events s) = Inr t \<and> ledger_eq st t)"
proof -
  obtain st n used t where r: "restore_checkpoint s scope = Inr (st, n, used)" "n \<le> length (lg_events s)" "ledger_wf st"
    "apply_events None empty_ledger_state (take n (lg_events s)) = Inr t" "ledger_eq st t"
    using restore_checkpoint_ok [OF inv] by blast
  have c: "\<forall>x \<in> set (take n (lg_events s)). \<forall>y \<in> set (drop n (lg_events s)). event_key x \<le> event_key y"
    using inv chronological_split unfolding store_inv_def by blast
  have last: "n = length (lg_events s)" if "drop n (lg_events s) = []" using that r(2) by simp
  show ?thesis
  proof (cases "apply_events None st (drop n (lg_events s))")
    case (Inl e)
    then show ?thesis using led.resume_error [OF c r(4,5) Inl] r(1)
      by (simp add: load_state_incremental_def load_ledger_events_after_rowid_def Let_def apply_new_events_eq)
  next
    case (Inr st')
    obtain u where u: "apply_events None empty_ledger_state (lg_events s) = Inr u" "ledger_eq st' u"
      using led.resume_ok [OF c r(4,5) Inr] by blast
    have wf: "ledger_wf st'" using apply_events_wf [OF Inr r(3)] .
    have "store_inv (upsert_ledger_checkpoint s scope \<lparr>cp_last_rowid = length (lg_events s),
        cp_snapshot = serialize_ledger_state st', cp_version = v, cp_updated_at = now\<rparr>)" for v
      using inv led.saved_after [OF u wf] by (auto simp: store_inv_def upsert_ledger_checkpoint_def)
    moreover have "load_state_incremental now s scope =
        (if drop n (lg_events s) = [] \<and> used then Inr (st', length (lg_events s), True, 0, s)
         else Inr (st', length (lg_events s), used, length (drop n (lg_events s)),
           upsert_ledger_checkpoint s scope \<lparr>cp_last_rowid = length (lg_events s),
             cp_snapshot = serialize_ledger_state st', cp_version = LEDGER_REDUCER_SNAPSHOT_VERSION, cp_updated_at = now\<rparr>))"
      using last by (simp add: load_state_incremental_def r(1) load_ledger_events_after_rowid_def Let_def
          apply_new_events_eq Inr del: drop_eq_Nil drop_eq_Nil2)
    ultimately show ?thesis using u inv by (simp add: upsert_ledger_checkpoint_def)
  qed
qed

lemma store_inv_ingest:
  assumes "store_inv s" "chronological (lg_events s @ es)"
  shows "store_inv (fst (append_ledger_events texts s es))"
proof -
  obtain new where "foldl (insert_ledger_event texts) (lg_events s) es = lg_events s @ new"
    using foldl_insert_extends by blast
  then show ?thesis
    using assms foldl_insert_chronological [OF assms(2), of texts]
    by (auto simp: store_inv_def append_ledger_events_def Let_def led.saved_append)
qed

lemma ledger_reachable_inv: "ledger_reachable texts s \<Longrightarrow> store_inv s"
proof (induction rule: ledger_reachable.induct)
  case (ledger_init s)
  then show ?case by (simp add: store_inv_def chronological_def)
next
  case (ledger_load s now scope st n used k s')
  then show ?case using load_state_spec [of s now scope] by auto
qed (rule store_inv_ingest)

text \<open>(C14) Loading is replay: in every state reached by ingesting events in the order of their keys and by
  loading, for any scope, \<open>load_state_incremental\<close> returns a state equal to the reduction of the
  whole event table, or raises the exception that this reduction raises; its row cursor is the
  last row.\<close>

theorem incremental_load_is_replay:
  assumes "ledger_reachable texts s"
  shows "case load_state_incremental now s scope of
      Inl e \<Rightarrow> apply_events None empty_ledger_state (lg_events s) = Inl e
    | Inr (st, n, used, k, s') \<Rightarrow> n = length (lg_events s) \<and>
        (\<exists>t. apply_events None empty_ledger_state (lg_events s) = Inr t \<and> ledger_eq st t)"
  using load_state_spec [OF ledger_reachable_inv [OF assms], of now scope] by (auto split: sum.splits)

definition empty_ledger_store :: ledger_store where
  "empty_ledger_store = \<lparr>lg_events = [], lg_checkpoints = [], lg_equity_points = []\<rparr>"

definition chron_events :: "ledger_event list" where
  "chron_events = [ev_buy ''a'' 1 2 100, ev_buy ''b'' 2 1 110, ev_sell ''c'' 3 (5 / 2) 130]"

lemma chron_replay: "apply_events None empty_ledger_state chron_events = Inr demo_state"
  by code_simp

theorem incremental_load_is_replay_witness:
  "\<exists>st n used k s'. load_state_incremental 0 (fst (append_ledger_events (\<lambda>_. ([], [])) empty_ledger_store chron_events)) ''global''
      = Inr (st, n, used, k, s') \<and> n = length chron_events"
proof -
  let ?s = "fst (append_ledger_events (\<lambda>_. ([], [])) empty_ledger_store chron_events)"
  have e: "lg_events ?s = chron_events" by code_simp
  have "chronological chron_events" by code_simp
  then have r: "ledger_reachable (\<lambda>_. ([], [])) ?s"
    by (intro ledger_ingest ledger_init) (simp_all add: empty_ledger_store_def)
  show ?thesis
    using incremental_load_is_replay [OF r, of 0 "''global''"] chron_replay
    by (auto simp: e split: sum.splits)
qed

theorem ingest_idempotent_witness:
  "\<exists>s1 r1. ingest_exchange_updates (\<lambda>_. ([], [])) (\<lambda>_. ''x'') empty_ledger_store [] = (s1, r1) \<and>
     ingest_exchange_updates (\<lambda>_. ([], [])) (\<lambda>_. ''x'') s1 [] = (s1, \<lparr>ap_attempted = ap_attempted r1, ap_inserted = 0, ap_ignored = ap_attempted r1\<rparr>)"
  using ingest_idempotent [where texts = "\<lambda>_. ([], [])" and fallback_id = "\<lambda>_. ''x''" and s = empty_ledger_store and fills = "[]"]
  by (cases "ingest_exchange_updates (\<lambda>_. ([], [])) (\<lambda>_. ''x'') empty_ledger_store []") auto

text \<open>
  Events that arrive late are reduced after the checkpoint and not at their place: a buy at 100
  of time 1 that arrives after a checkpoint with a buy at 200 of time 2 is consumed second, so
  that the incremental state has other lots than the full replay.
\<close>

definition late_store :: ledger_store where
  "late_store = (case load_state_incremental 0 (fst (append_ledger_events (\<lambda>_. ([], [])) empty_ledger_store [ev_buy ''b'' 2 1 200])) ''global''
     of Inr (_, _, _, _, s) \<Rightarrow> fst (append_ledger_events (\<lambda>_. ([], [])) s [ev_buy ''a'' 1 1 100]))"

definition lot_costs :: "ledger_state \<Rightarrow> dec list" where
  "lot_costs st = map lot_unit_cost (concat (map (sl_lots \<circ> snd) (ls_symbols st)))"

lemma late_event_diverges:
  "(case load_state_incremental 1 late_store ''global'' of Inr (st, _) \<Rightarrow> lot_costs st | Inl _ \<Rightarrow> []) = [200, 100]"
  "(case apply_events None empty_ledger_state (lg_events late_store) of Inr st \<Rightarrow> lot_costs st | Inl _ \<Rightarrow> []) = [100, 200]"
  by code_simp+

end
