(* ===== verification/Ledger_Report.thy ===== *)
theory Ledger_Report
  imports Ledger_Service
begin

text \<open>
  The reports of the ledger service (\<open>financial_breakdown\<close>, \<open>snapshot\<close>, \<open>report\<close>, \<open>checkpoint\<close> of
  \<open>src/src/btcbot/services/ledger_service.py\<close>) and the fee converter of
  \<open>src/src/btcbot/services/price_conversion_service.py\<close>.

  A price converter is a function with a state, which \<open>MarkPriceConverter\<close> uses for its cache;
  the locale \<open>fee_converter\<close> is what the fee computation relies on: answers that do not depend
  on the calls made before.  Its interpretation on \<open>MarkPriceConverter\<close> shows that the cache
  changes no answer.
\<close>

subsection \<open>Definitions: the converter\<close>

record mark_converter =
  mc_marks :: "(string, dec) dict"
  mc_cache :: "(string \<times> string, dec) dict"

definition MarkPriceConverter :: "(string, dec) dict \<Rightarrow> mark_converter" where
  "MarkPriceConverter mark_prices = \<lparr>mc_marks = dict_comp normalize_symbol (\<lambda>v. v) mark_prices, mc_cache = []\<rparr>"

definition converter_call :: "mark_converter \<Rightarrow> string \<Rightarrow> string \<Rightarrow> dec result \<times> mark_converter" where
  "converter_call c base_ccy quote_ccy =
     (let base = str_upper base_ccy; quote = str_upper quote_ccy; key = (base, quote);
          keep = (\<lambda>rate. (Inr rate, c\<lparr>mc_cache := AList.update key rate (mc_cache c)\<rparr>));
          missing = (Inl (FeeConversionRateError (''fee_conversion_missing_rate:'' @ base @ ''->'' @ quote)), c)
      in if base = quote then (Inr 1, c)
         else case map_of (mc_cache c) key of
           Some rate \<Rightarrow> (Inr rate, c)
         | None \<Rightarrow>
             (let inverse = (case map_of (mc_marks c) (normalize_symbol (quote @ base)) of
                  None \<Rightarrow> missing
                | Some im \<Rightarrow> if 0 < im then keep (ddiv 1 im) else missing)
              in case map_of (mc_marks c) (normalize_symbol (base @ quote)) of
                   None \<Rightarrow> inverse
                 | Some direct \<Rightarrow> if 0 < direct then keep direct else inverse))"

text \<open>The conversion without the cache.\<close>

definition conversion_rate :: "(string, dec) dict \<Rightarrow> string \<Rightarrow> string \<Rightarrow> dec result" where
  "conversion_rate marks base_ccy quote_ccy =
     (let base = str_upper base_ccy; quote = str_upper quote_ccy;
          positive = (\<lambda>symb. case map_of marks (normalize_symbol symb) of Some m \<Rightarrow> if 0 < m then Some m else None | None \<Rightarrow> None)
      in if base = quote then Inr 1
         else case positive (base @ quote) of
           Some m \<Rightarrow> Inr m
         | None \<Rightarrow> (case positive (quote @ base) of
               Some m \<Rightarrow> Inr (ddiv 1 m)
             | None \<Rightarrow> Inl (FeeConversionRateError (''fee_conversion_missing_rate:'' @ base @ ''->'' @ quote))))"

subsection \<open>Definitions: the reports\<close>

type_synonym 'c converter = "'c \<Rightarrow> string \<Rightarrow> string \<Rightarrow> dec result \<times> 'c"

fun is_conversion_error :: "py_error \<Rightarrow> bool" where
  "is_conversion_error (FeeConversionRateError m) = True"
| "is_conversion_error e = False"

text \<open>
  One currency of \<open>_compute_fees_try\<close>; \<open>conv\<close> is \<open>None\<close> when no converter is given.  Missing
  currencies are collected in a list in place of a set.
\<close>

definition fee_turn ::
  "'c converter option \<Rightarrow> bool \<Rightarrow> dec \<times> string list \<times> 'c \<Rightarrow> string \<times> dec \<Rightarrow> (dec \<times> string list \<times> 'c) result" where
  "fee_turn conv strict acc fee =
     (let (fees_try, missing, c) = acc; normalized = str_upper (fst fee); amount = snd fee;
          miss = (fees_try, List.insert normalized missing)
      in if normalized = ''TRY'' then Inr (dadd fees_try amount, missing, c)
         else case conv of
           None \<Rightarrow> if strict then Inl (FeeConversionRateError (''missing fee conversion rate for '' @ normalized @ ''/TRY'')) else Inr (fst miss, snd miss, c)
         | Some f \<Rightarrow>
             (case f c normalized ''TRY'' of
                (Inl e, c') \<Rightarrow> if is_conversion_error e \<and> \<not> strict then Inr (fst miss, snd miss, c') else Inl e
              | (Inr rate, c') \<Rightarrow>
                  rbind (round_quote (dmul amount rate) DEFAULT_MONEY_POLICY) (\<lambda>q. Inr (dadd fees_try q, missing, c'))))"

definition compute_fees_try ::
  "'c converter option \<Rightarrow> 'c \<Rightarrow> bool \<Rightarrow> (string, dec) dict \<Rightarrow> (dec \<times> string list \<times> 'c) result" where
  "compute_fees_try conv c strict fees = rfold (fee_turn conv strict) (0, [], c) fees"

definition position_mtm :: "ledger_state \<Rightarrow> (string, dec) dict \<Rightarrow> dec" where
  "position_mtm st marks =
     fold (\<lambda>(symb, led) tot. case map_of marks symb of
         None \<Rightarrow> tot
       | Some mark \<Rightarrow> dadd tot (dsum (map (\<lambda>lot. dmul (lot_qty lot) mark) (sl_lots led)))) (ls_symbols st) 0"

definition compute_turnover_try :: "ledger_store \<Rightarrow> dec" where
  "compute_turnover_try s =
     dsum (map (\<lambda>e. dabs (dmul (the (le_price e)) (le_qty e))) (filter (\<lambda>e. le_type e = FILL \<and> le_price e \<noteq> None) (lg_events s)))"

record financial_breakdown_rec =
  fb_cash_try :: dec
  fb_position_mtm_try :: dec
  fb_realized_pnl_try :: dec
  fb_unrealized_pnl_try :: dec
  fb_fees_try :: dec
  fb_slippage_try :: dec
  fb_gross_pnl_try :: dec
  fb_net_pnl_try :: dec
  fb_equity_try :: dec
  fb_turnover_try :: dec

text \<open>\<open>ledger_state or self.load_state_incremental()[0]\<close>, with the store the load leaves behind.\<close>

definition state_or_load :: "instant \<Rightarrow> ledger_store \<Rightarrow> ledger_state option \<Rightarrow> (ledger_state \<times> ledger_store) result" where
  "state_or_load now s st =
     (case st of
        Some x \<Rightarrow> Inr (x, s)
      | None \<Rightarrow> rbind (load_state_incremental now s ''global'') (\<lambda>(x, _, _, _, s'). Inr (x, s')))"

text \<open>The converter given, or one made from the mark prices.\<close>

definition fees_with ::
  "'c converter option \<Rightarrow> 'c \<Rightarrow> (string, dec) dict \<Rightarrow> bool \<Rightarrow> (string, dec) dict \<Rightarrow> (dec \<times> string list) result" where
  "fees_with conv c marks strict fees =
     (case conv of
        Some f \<Rightarrow> rbind (compute_fees_try (Some f) c strict fees) (\<lambda>(x, m, _). Inr (x, m))
      | None \<Rightarrow> rbind (compute_fees_try (Some converter_call) (MarkPriceConverter marks) strict fees) (\<lambda>(x, m, _). Inr (x, m)))"

definition financial_breakdown ::
  "instant \<Rightarrow> ledger_store \<Rightarrow> (string, dec) dict \<Rightarrow> dec \<Rightarrow> 'c converter option \<Rightarrow> 'c \<Rightarrow> dec \<Rightarrow> ledger_state option \<Rightarrow> bool \<Rightarrow>
   (financial_breakdown_rec \<times> ledger_store) result" where
  "financial_breakdown now s mark_prices cash_try conv c slippage_try ledger_st strict =
     rbind (state_or_load now s ledger_st) (\<lambda>(st, s').
     rbind (compute_realized_pnl None st) (\<lambda>realized.
       let marks = dict_comp normalize_symbol (\<lambda>v. v) mark_prices in
     rbind (compute_unrealized_pnl None st marks) (\<lambda>unrealized.
     rbind (fees_with conv c marks strict (ls_fees st)) (\<lambda>(fees_try, _).
       let gross = dadd realized unrealized;
           net = dsub (dsub gross fees_try) slippage_try;
           mtm = position_mtm st marks
       in Inr (\<lparr>fb_cash_try = cash_try, fb_position_mtm_try = mtm, fb_realized_pnl_try = realized,
            fb_unrealized_pnl_try = unrealized, fb_fees_try = fees_try, fb_slippage_try = slippage_try,
            fb_gross_pnl_try = gross, fb_net_pnl_try = net, fb_equity_try = dadd cash_try mtm,
            fb_turnover_try = compute_turnover_try s'\<rparr>, s')))))"

record ledger_snapshot =
  sn_breakdown :: financial_breakdown_rec
  sn_max_drawdown :: dec

definition snapshot ::
  "instant \<Rightarrow> ledger_store \<Rightarrow> (string, dec) dict \<Rightarrow> dec \<Rightarrow> 'c converter option \<Rightarrow> 'c \<Rightarrow> dec \<Rightarrow> instant option \<Rightarrow>
   ledger_state option \<Rightarrow> bool \<Rightarrow> (ledger_snapshot \<times> ledger_store) result" where
  "snapshot now s mark_prices cash_try conv c slippage_try ts ledger_st strict =
     rbind (financial_breakdown now s mark_prices cash_try conv c slippage_try ledger_st strict) (\<lambda>(fb, s').
       let points = sort_key fst (lg_equity_points s') @ (case ts of None \<Rightarrow> [] | Some t \<Rightarrow> [(t, fb_equity_try fb)])
       in Inr (\<lparr>sn_breakdown = fb, sn_max_drawdown = (if points = [] then 0 else compute_max_drawdown points)\<rparr>, s'))"

record symbol_pnl =
  sp_symbol :: string
  sp_realized_pnl :: dec
  sp_unrealized_pnl :: dec
  sp_position_qty :: dec

record pnl_report =
  pr_realized_pnl_total :: dec
  pr_unrealized_pnl_total :: dec
  pr_fees_total_by_currency :: "(string, dec) dict"
  pr_per_symbol :: "symbol_pnl list"
  pr_equity_estimate :: dec
  pr_fees_total_try :: "dec option"
  pr_missing_currencies :: "string list"

definition symbol_report :: "(string, dec) dict \<Rightarrow> string \<times> symbol_ledger \<Rightarrow> symbol_pnl" where
  "symbol_report marks kv =
     \<lparr>sp_symbol = fst kv, sp_realized_pnl = sl_realized_pnl (snd kv),
      sp_unrealized_pnl = (case map_of marks (fst kv) of
         None \<Rightarrow> 0
       | Some mark \<Rightarrow> dsum (map (\<lambda>lot. dmul (dsub mark (lot_unit_cost lot)) (lot_qty lot)) (sl_lots (snd kv)))),
      sp_position_qty = dsum (map lot_qty (sl_lots (snd kv)))\<rparr>"

definition report ::
  "instant \<Rightarrow> ledger_store \<Rightarrow> (string, dec) dict \<Rightarrow> dec \<Rightarrow> 'c converter option \<Rightarrow> 'c \<Rightarrow> ledger_state option \<Rightarrow>
   (pnl_report \<times> ledger_store) result" where
  "report now s mark_prices cash_try conv c ledger_st =
     rbind (state_or_load now s ledger_st) (\<lambda>(st, s').
       let marks = dict_comp normalize_symbol (\<lambda>v. v) mark_prices in
     rbind (compute_realized_pnl None st) (\<lambda>realized.
     rbind (compute_unrealized_pnl None st marks) (\<lambda>unrealized.
     rbind (fees_with conv c marks False (ls_fees st)) (\<lambda>(fees_try, missing).
       Inr (\<lparr>pr_realized_pnl_total = realized, pr_unrealized_pnl_total = unrealized,
             pr_fees_total_by_currency = ls_fees st, pr_per_symbol = map (symbol_report marks) (sort_items (ls_symbols st)),
             pr_equity_estimate = dadd cash_try (position_mtm st marks), pr_fees_total_try = Some fees_try,
             pr_missing_currencies = sort missing\<rparr>, s')))))"

record ledger_checkpoint_info =
  ci_event_count :: nat
  ci_last_ts :: "instant option"
  ci_last_event_id :: "string option"

definition checkpoint :: "instant \<Rightarrow> ledger_store \<Rightarrow> (ledger_checkpoint_info \<times> ledger_store) result" where
  "checkpoint now s =
     rbind (load_state_incremental now s ''global'') (\<lambda>(_, _, _, _, s').
       Inr ((if lg_events s' = [] then \<lparr>ci_event_count = 0, ci_last_ts = None, ci_last_event_id = None\<rparr>
             else let e = last (sort_key event_key (lg_events s'))
                  in \<lparr>ci_event_count = length (lg_events s'), ci_last_ts = Some (le_ts e),
                      ci_last_event_id = Some (le_event_id e)\<rparr>), s'))"

subsection \<open>The converter\<close>

locale fee_converter =
  fixes conv :: "'c converter" and ok :: "'c \<Rightarrow> bool" and rate :: "string \<Rightarrow> string \<Rightarrow> dec result"
  assumes conv_rate: "ok c \<Longrightarrow> fst (conv c b q) = rate b q"
    and conv_ok: "ok c \<Longrightarrow> ok (snd (conv c b q))"
begin

text \<open>The fees in TRY do not depend on the state of the converter.\<close>

definition convertible :: "string \<Rightarrow> bool" where
  "convertible ccy \<longleftrightarrow> str_upper ccy = ''TRY'' \<or> (\<exists>r. rate (str_upper ccy) ''TRY'' = Inr r)"

lemma fee_turn_cases:
  assumes "ok c" "fee_turn (Some conv) strict (x, missing, c) fee = Inr (x', missing', c')"
  shows "ok c' \<and> (if convertible (fst fee) then missing' = missing
     else \<not> strict \<and> x' = x \<and> missing' = List.insert (str_upper (fst fee)) missing)"
proof -
  define TRY where "TRY = ''TRY''"
  define ccy where "ccy = str_upper (fst fee)"
  obtain r c1 where f: "conv c ccy TRY = (r, c1)" by force
  then have r: "rate ccy TRY = r" "ok c1" using conv_rate [OF assms(1), of ccy TRY] conv_ok [OF assms(1), of ccy TRY] by auto
  have eq: "fee_turn (Some conv) strict (x, missing, c) fee =
     (if ccy = TRY then Inr (dadd x (snd fee), missing, c)
      else case r of
        Inl e \<Rightarrow> if is_conversion_error e \<and> \<not> strict then Inr (x, List.insert ccy missing, c1) else Inl e
      | Inr q \<Rightarrow> rbind (round_quote (dmul (snd fee) q) DEFAULT_MONEY_POLICY) (\<lambda>y. Inr (dadd x y, missing, c1)))"
    unfolding fee_turn_def ccy_def [symmetric] TRY_def [symmetric] using f by (simp add: Let_def split: sum.split)
  show ?thesis
    using assms(2) r assms(1) unfolding eq convertible_def ccy_def [symmetric] TRY_def [symmetric]
    by (cases r) (auto simp: rbind_eq_Inr_iff split: if_splits)
qed

lemma fees_loop:
  assumes "ok c" "rfold (fee_turn (Some conv) strict) (x, missing, c) fees = Inr (x', missing', c')"
  shows "ok c' \<and> set missing' = set missing \<union> str_upper ` {ccy \<in> fst ` set fees. \<not> convertible ccy}
    \<and> (strict \<longrightarrow> (\<forall>fee \<in> set fees. convertible (fst fee)))"
  using assms
proof (induction fees arbitrary: x missing c)
  case (Cons fee fees)
  then obtain x1 m1 c1 where t: "fee_turn (Some conv) strict (x, missing, c) fee = Inr (x1, m1, c1)"
    "rfold (fee_turn (Some conv) strict) (x1, m1, c1) fees = Inr (x', missing', c')"
    by (auto simp: rbind_eq_Inr_iff)
  note turn = fee_turn_cases [OF Cons.prems(1) t(1)]
  then have "ok c1" by simp
  note IH = Cons.IH [OF this t(2)]
  show ?case
  proof (cases "convertible (fst fee)")
    case True
    then have "{ccy \<in> fst ` set (fee # fees). \<not> convertible ccy} = {ccy \<in> fst ` set fees. \<not> convertible ccy}" by auto
    then show ?thesis using IH turn True by simp
  next
    case False
    then have "{ccy \<in> fst ` set (fee # fees). \<not> convertible ccy} = insert (fst fee) {ccy \<in> fst ` set fees. \<not> convertible ccy}"
      by auto
    then show ?thesis using IH turn False by auto
  qed
qed auto

lemma compute_fees_missing:
  assumes "ok c" "compute_fees_try (Some conv) c strict fees = Inr (x, missing, c')"
  shows "set missing = str_upper ` {ccy \<in> fst ` set fees. \<not> convertible ccy}" "strict \<Longrightarrow> fee \<in> set fees \<Longrightarrow> convertible (fst fee)"
  using fees_loop [OF assms(1), of strict 0 "[]" fees x missing c'] assms(2) by (auto simp: compute_fees_try_def)

end

text \<open>The cache of \<open>MarkPriceConverter\<close> holds computed rates only.\<close>

definition entry_ok :: "(string, dec) dict \<Rightarrow> string \<times> string \<Rightarrow> dec \<Rightarrow> bool" where
  "entry_ok marks key r \<longleftrightarrow> conversion_rate marks (fst key) (snd key) = Inr r"

definition cache_ok :: "(string, dec) dict \<Rightarrow> mark_converter \<Rightarrow> bool" where
  "cache_ok marks c \<longleftrightarrow> mc_marks c = marks \<and>
     (\<forall>key r. map_of (mc_cache c) key = Some r \<longrightarrow> entry_ok marks key r)"

lemma cache_ok_new: "cache_ok (dict_comp normalize_symbol (\<lambda>v. v) marks) (MarkPriceConverter marks)"
  by (simp add: cache_ok_def MarkPriceConverter_def)

lemma conversion_rate_upper: "conversion_rate marks (str_upper b) (str_upper q) = conversion_rate marks b q"
  by (simp add: conversion_rate_def)

lemma converter_call_cases:
  assumes "cache_ok marks c"
  shows "converter_call c b q = (conversion_rate marks b q, c) \<or>
    (\<exists>r. converter_call c b q = (conversion_rate marks b q, c\<lparr>mc_cache := AList.update (str_upper b, str_upper q) r (mc_cache c)\<rparr>)
       \<and> str_upper b \<noteq> str_upper q \<and> conversion_rate marks b q = Inr r)"
proof (cases "str_upper b = str_upper q")
  case True
  then show ?thesis by (simp add: converter_call_def conversion_rate_def)
next
  case False
  have m: "mc_marks c = marks" using assms by (simp add: cache_ok_def)
  show ?thesis
  proof (cases "map_of (mc_cache c) (str_upper b, str_upper q)")
    case (Some r)
    then have "conversion_rate marks (str_upper b) (str_upper q) = Inr r" using assms unfolding cache_ok_def entry_ok_def by fastforce
    then have "conversion_rate marks b q = Inr r" by (simp only: conversion_rate_upper)
    then show ?thesis using False Some by (simp add: converter_call_def Let_def)
  next
    case None
    then show ?thesis using False by (simp add: converter_call_def conversion_rate_def Let_def m split: option.split)
  qed
qed

lemma fee_converter_marks: "fee_converter converter_call (cache_ok marks) (conversion_rate marks)"
proof
  show "fst (converter_call c b q) = conversion_rate marks b q" if "cache_ok marks c" for c b q
    using converter_call_cases [OF that, of b q] by auto
  show "cache_ok marks (snd (converter_call c b q))" if "cache_ok marks c" for c b q
    using converter_call_cases [OF that, of b q] that
      entry_ok_def [of marks "(str_upper b, str_upper q)"] by (auto simp: cache_ok_def conversion_rate_upper split: if_splits)
qed

interpretation mpc: fee_converter converter_call "cache_ok marks" "conversion_rate marks" for marks
  by (rule fee_converter_marks)

definition has_try_rate :: "(string, dec) dict \<Rightarrow> string \<Rightarrow> bool" where
  "has_try_rate mark_prices ccy \<longleftrightarrow> str_upper ccy = ''TRY''
     \<or> (case conversion_rate (dict_comp normalize_symbol (\<lambda>v. v) mark_prices) (str_upper ccy) ''TRY'' of Inr _ \<Rightarrow> True | Inl _ \<Rightarrow> False)"

lemma has_try_rate_convertible:
  "has_try_rate mark_prices ccy = mpc.convertible (dict_comp normalize_symbol (\<lambda>v. v) mark_prices) ccy"
  unfolding has_try_rate_def mpc.convertible_def by (simp split: sum.split)

lemma update_new_key: "k \<notin> fst ` set d \<Longrightarrow> AList.update k v d = d @ [(k, v)]"
  by (induction d) auto

lemma fold_update_new:
  "dict_wf (acc @ d) \<Longrightarrow> \<forall>kv \<in> set d. f (fst kv) = fst kv
    \<Longrightarrow> fold (\<lambda>(k, v). AList.update (f k) v) d acc = acc @ d"
  by (induction d arbitrary: acc) (auto simp: update_new_key)

lemma fold_update_wf: "dict_wf acc \<Longrightarrow> dict_wf (fold (\<lambda>(k, v). AList.update (f k) (g v)) d acc)"
  by (induction d arbitrary: acc) auto

text \<open>Normalising the mark prices a second time changes nothing.\<close>

lemma dict_comp_normalize_idem:
  "dict_comp normalize_symbol (\<lambda>v. v) (dict_comp normalize_symbol (\<lambda>v. v) marks) = dict_comp normalize_symbol (\<lambda>v. v) marks"
proof -
  let ?d = "dict_comp normalize_symbol (\<lambda>v. v) marks"
  have wf: "dict_wf ?d" unfolding dict_comp_def by (rule fold_update_wf) simp
  have "normalize_symbol (fst kv) = fst kv" if "kv \<in> set ?d" for kv
    using dict_comp_SomeD [of normalize_symbol "\<lambda>v. v" marks "fst kv" "snd kv"] map_of_is_SomeI [OF wf, of "fst kv" "snd kv"] that
    by (metis canonical_symbol_idem prod.collapse)
  then show ?thesis unfolding dict_comp_def [of _ _ ?d] using fold_update_new [of "[]" ?d normalize_symbol] wf by simp
qed

lemma fees_with_marks:
  assumes "fees_with (None :: 'c converter option) c (dict_comp normalize_symbol (\<lambda>v. v) marks) strict fees = Inr (x, missing)"
  shows "set missing = str_upper ` {ccy \<in> fst ` set fees. \<not> has_try_rate marks ccy}"
    and "strict \<Longrightarrow> fee \<in> set fees \<Longrightarrow> has_try_rate marks (fst fee)"
proof -
  let ?marks = "dict_comp normalize_symbol (\<lambda>v. v) marks"
  obtain c' where c': "compute_fees_try (Some converter_call) (MarkPriceConverter ?marks) strict fees = Inr (x, missing, c')"
    using assms by (auto simp: fees_with_def rbind_eq_Inr_iff)
  have "cache_ok ?marks (MarkPriceConverter ?marks)"
    using cache_ok_new [of ?marks] by (simp add: dict_comp_normalize_idem)
  note facts = mpc.compute_fees_missing [OF this c']
  show "set missing = str_upper ` {ccy \<in> fst ` set fees. \<not> has_try_rate marks ccy}"
    using facts(1) by (simp add: has_try_rate_convertible)
  show "strict \<Longrightarrow> fee \<in> set fees \<Longrightarrow> has_try_rate marks (fst fee)"
    using facts(2) by (simp add: has_try_rate_convertible)
qed

text \<open>Strict fee conversion fails closed: when a strict breakdown is produced from mark prices, every
  currency with recorded fees is TRY or has a rate to TRY, and a report that is not strict lists
  exactly the currencies without one, whatever the cache of the converter held before.\<close>

theorem strict_fees_fail_closed:
  "(financial_breakdown now s mark_prices cash_try (None :: 'c converter option) c slippage_try (Some st) True = Inr r
      \<longrightarrow> (\<forall>fee \<in> set (ls_fees st). has_try_rate mark_prices (fst fee)))
   \<and> (report now s mark_prices cash_try (None :: 'c converter option) c (Some st) = Inr (rep, s')
      \<longrightarrow> set (pr_missing_currencies rep) = str_upper ` {ccy \<in> fst ` set (ls_fees st). \<not> has_try_rate mark_prices ccy})"
proof (intro conjI impI)
  assume "financial_breakdown now s mark_prices cash_try (None :: 'c converter option) c slippage_try (Some st) True = Inr r"
  then obtain x missing where
    "fees_with (None :: 'c converter option) c (dict_comp normalize_symbol (\<lambda>v. v) mark_prices) True (ls_fees st) = Inr (x, missing)"
    by (auto simp: financial_breakdown_def state_or_load_def rbind_eq_Inr_iff Let_def)
  from fees_with_marks(2) [OF this TrueI] show "\<forall>fee \<in> set (ls_fees st). has_try_rate mark_prices (fst fee)" ..
next
  assume "report now s mark_prices cash_try (None :: 'c converter option) c (Some st) = Inr (rep, s')"
  then obtain x missing where
    "fees_with (None :: 'c converter option) c (dict_comp normalize_symbol (\<lambda>v. v) mark_prices) False (ls_fees st) = Inr (x, missing)"
    and "pr_missing_currencies rep = sort missing"
    by (auto simp: report_def state_or_load_def rbind_eq_Inr_iff Let_def)
  then show "set (pr_missing_currencies rep) = str_upper ` {ccy \<in> fst ` set (ls_fees st). \<not> has_try_rate mark_prices ccy}"
    using fees_with_marks(1) by simp
qed

definition example_store :: ledger_store where
  "example_store = \<lparr>lg_events = [], lg_checkpoints = [], lg_equity_points = []\<rparr>"

abbreviation example_fees :: "(string, dec) dict \<Rightarrow> ledger_state" where
  "example_fees fees \<equiv> empty_ledger_state\<lparr>ls_fees := fees\<rparr>"

lemma example_breakdown:
  "financial_breakdown 0 example_store [(''USDT_TRY'', 30)] 100 (None :: unit converter option) () 0 (Some (example_fees [(''usdt'', 2)])) True
     = Inr (\<lparr>fb_cash_try = 100, fb_position_mtm_try = 0, fb_realized_pnl_try = 0, fb_unrealized_pnl_try = 0, fb_fees_try = 60,
            fb_slippage_try = 0, fb_gross_pnl_try = 0, fb_net_pnl_try = - 60, fb_equity_try = 100, fb_turnover_try = 0\<rparr>, example_store)"
  by code_simp

lemma example_report:
  "report 0 example_store [(''USDT_TRY'', 30)] 0 (None :: unit converter option) () (Some (example_fees [(''usdt'', 2), (''bnb'', 1)]))
     = Inr (\<lparr>pr_realized_pnl_total = 0, pr_unrealized_pnl_total = 0, pr_fees_total_by_currency = [(''usdt'', 2), (''bnb'', 1)],
            pr_per_symbol = [], pr_equity_estimate = 0, pr_fees_total_try = Some 60, pr_missing_currencies = [''BNB'']\<rparr>, example_store)"
  by code_simp

theorem strict_fees_fail_closed_witness:
  "has_try_rate [(''USDT_TRY'', 30)] ''usdt''
   \<and> {''BNB''} = str_upper ` {ccy \<in> {''usdt'', ''bnb''}. \<not> has_try_rate [(''USDT_TRY'', 30)] ccy}"
proof
  show "has_try_rate [(''USDT_TRY'', 30)] ''usdt''"
    using strict_fees_fail_closed [THEN conjunct1, rule_format, OF example_breakdown] by simp
  show "{''BNB''} = str_upper ` {ccy \<in> {''usdt'', ''bnb''}. \<not> has_try_rate [(''USDT_TRY'', 30)] ccy}"
    using strict_fees_fail_closed [THEN conjunct2, rule_format, OF example_report] by simp
qed

end
