(* ===== verification/Py_Float.thy ===== *)
theory Py_Float
  imports Rounding
begin

text \<open>
  Python's \<open>float\<close>: a rational rounded to 53 binary digits, half to even, after every operation.
  The exponent range is not bounded, so there are no infinities and no underflow.  This is the
  second interpretation of the locale \<open>rounding\<close>.
\<close>

subsection \<open>Definitions: floats\<close>

definition frnd :: "rat \<Rightarrow> rat" where
  "frnd = rnd_sig 2 53"

definition fadd :: "rat \<Rightarrow> rat \<Rightarrow> rat" where
  "fadd x y = frnd (x + y)"

definition fsub :: "rat \<Rightarrow> rat \<Rightarrow> rat" where
  "fsub x y = frnd (x - y)"

definition fmul :: "rat \<Rightarrow> rat \<Rightarrow> rat" where
  "fmul x y = frnd (x * y)"

definition fdiv :: "rat \<Rightarrow> rat \<Rightarrow> rat" where
  "fdiv x y = frnd (x / y)"

subsection \<open>Float arithmetic\<close>

interpretation flt: rounding frnd
  unfolding frnd_def by (rule rounding_rnd_sig) simp_all

definition float_slack :: rat where
  "float_slack = 1 + 1 / 2 ^ 53"

lemma float_slack_ge_1 [simp]: "1 \<le> float_slack" "0 < float_slack" "0 \<le> float_slack"
  by (simp_all add: float_slack_def)

lemma frnd_upper:
  assumes "0 \<le> x"
  shows "frnd x \<le> x * float_slack"
proof (cases "x = 0")
  case False
  then have x: "0 < x" using assms by simp
  have "bpow 2 (magnitude 2 x + 1 - 53) = bpow 2 (magnitude 2 x) * bpow 2 (- 52)"
    using bpow_add [of 2 "magnitude 2 x" "- 52"] by simp
  also have "\<dots> \<le> x * bpow 2 (- 52)"
    using magnitude_bounds(1) [of 2 x] x by (intro mult_right_mono) (auto simp: less_imp_le)
  finally have "bpow 2 (magnitude 2 x + 1 - 53) \<le> x * bpow 2 (- 52)" .
  moreover have "\<bar>frnd x - x\<bar> \<le> bpow 2 (magnitude 2 x + 1 - 53) / 2"
    using rnd_sig_error [of 2 x 53] x unfolding frnd_def by simp
  ultimately have "frnd x - x \<le> x * bpow 2 (- 52) / 2" by linarith
  then show ?thesis by (simp add: float_slack_def bpow_def field_simps)
qed (simp add: flt.rnd_zero)

lemma fsub_pos_iff: "0 < fsub x y \<longleftrightarrow> y < x"
  by (simp add: fsub_def flt.rnd_pos_iff)

lemma elapsed_pos_iff: "0 < max 0 (fsub x y) \<longleftrightarrow> y < x"
  by (simp add: less_max_iff_disj fsub_pos_iff)

lemma elapsed_pos: "y < x \<Longrightarrow> max 0 (fsub x y) = fsub x y"
  using fsub_pos_iff [of x y] by simp

lemma frnd_1 [simp]: "frnd 1 = 1"
  using rnd_sig_exact_int [of 2 53 1] by (simp add: frnd_def)

text \<open>A code equation that recognises short binary fractions, which need no rounding.\<close>

lemma frnd_code [code]:
  "frnd x = (case quotient_of x of (n, d) \<Rightarrow>
     if 1048576 mod d = 0 \<and> \<bar>n\<bar> < 4294967296 * d then x else rnd_sig 2 53 x)"
proof -
  obtain n d where nd: "quotient_of x = (n, d)" by fastforce
  have d: "0 < d" using quotient_of_denom_pos [OF nd] .
  have x: "x = of_int n / of_int d" using quotient_of_div [OF nd] .
  have "frnd x = x" if a: "1048576 mod d = 0" "\<bar>n\<bar> < 4294967296 * d"
  proof -
    from a(1) obtain c where c: "(1048576 :: int) = d * c" by (auto simp: dvd_def mod_eq_0_iff_dvd)
    then have "0 < c" using d by (metis zero_less_mult_pos zero_less_numeral)
    then have "\<bar>n\<bar> * c < 4294967296 * d * c" using a(2) by (rule mult_strict_right_mono [rotated])
    moreover have "4294967296 * d * c = 2 ^ 52" using c by (simp add: mult.assoc)
    ultimately have b: "\<bar>n * c\<bar> < 2 ^ 52" using \<open>0 < c\<close> by (simp add: abs_mult)
    have dc: "(of_int d :: rat) * of_int c = 1048576" using c by (metis of_int_mult of_int_numeral)
    have "x * 1048576 = (of_int n / of_int d) * (of_int d * of_int c)" by (simp only: dc x)
    also have "\<dots> = of_int (n * c)" using d by simp
    finally have "x = of_int (n * c) * bpow 2 (- 20)" by (simp add: bpow_def)
    moreover have "\<bar>of_int (n * c)\<bar> < (bpow 2 53 :: rat)"
      using b by (simp add: bpow_def of_int_abs [symmetric] del: of_int_abs of_int_mult)
    ultimately show ?thesis unfolding frnd_def by (rule rnd_sig_exact [of 2 53, rotated 2]) simp_all
  qed
  then show ?thesis by (simp add: nd frnd_def)
qed

lemma frnd_2 [simp]: "frnd 2 = 2"
  using rnd_sig_exact_int [of 2 53 2] by (simp add: frnd_def)

end
