(* ===== verification/Rate_Limiter.thy ===== *)
theory Rate_Limiter
  imports Py_Float Prelude
begin

text \<open>
  The token bucket rate limiter, \<open>src/src/btcbot/services/rate_limiter.py\<close>.  Its tokens and
  time stamps are Python floats.  \<open>clock n\<close> is what the \<open>n\<close>-th call of \<open>self._clock()\<close>
  returns; the limiter counts its calls in \<open>rl_reads\<close>.  The monotonic clock of the standard
  library is such a clock with \<open>mono clock\<close>.

  The lemmas show that a bucket never leaves \<open>[0, burst]\<close> and that the tokens granted in a run
  of operations are bounded by the burst and the refill rate, with the float errors written out.
\<close>

subsection \<open>Definitions: the limiter\<close>

record endpoint_budget =
  eb_name :: string
  eb_rps :: rat
  eb_burst :: int

record bucket =
  bk_tokens :: rat
  bk_updated_at :: rat
  bk_cooldown_until :: rat

record limiter =
  rl_budgets :: "(string, endpoint_budget) dict"
  rl_state :: "(string, bucket) dict"
  rl_reads :: nat

type_synonym clock = "nat \<Rightarrow> rat"

definition EndpointBudget_validate :: "endpoint_budget \<Rightarrow> unit result" where
  "EndpointBudget_validate b =
     (if eb_rps b \<le> 0 then Inl (ValueError ''rps must be > 0'')
      else if eb_burst b < 1 then Inl (ValueError ''burst must be >= 1'')
      else Inr ())"

definition read_clock :: "clock \<Rightarrow> limiter \<Rightarrow> rat \<times> limiter" where
  "read_clock clock rl = (clock (rl_reads rl), rl\<lparr>rl_reads := Suc (rl_reads rl)\<rparr>)"

definition full_bucket :: "endpoint_budget \<Rightarrow> rat \<Rightarrow> bucket" where
  "full_bucket b now = \<lparr>bk_tokens = frnd (of_int (eb_burst b)), bk_updated_at = now, bk_cooldown_until = 0\<rparr>"

definition add_bucket :: "clock \<Rightarrow> limiter \<Rightarrow> string \<times> endpoint_budget \<Rightarrow> limiter" where
  "add_bucket clock rl gb =
     (let (now, rl1) = read_clock clock rl
      in rl1\<lparr>rl_state := AList.update (fst gb) (full_bucket (snd gb) now) (rl_state rl1)\<rparr>)"

definition TokenBucketRateLimiter :: "clock \<Rightarrow> (string, endpoint_budget) dict \<Rightarrow> limiter result" where
  "TokenBucketRateLimiter clock budgets =
     (if budgets = [] then Inl (ValueError ''budgets must include at least one group'')
      else if map_of budgets ''default'' = None then Inl (ValueError ''budgets must include default'')
      else rbind (rmap (EndpointBudget_validate \<circ> snd) budgets) (\<lambda>_.
        Inr (fold (\<lambda>gb rl. add_bucket clock rl gb) budgets
              \<lparr>rl_budgets = budgets, rl_state = [], rl_reads = 0\<rparr>)))"

definition budget_for :: "limiter \<Rightarrow> string \<Rightarrow> endpoint_budget" where
  "budget_for rl grp = dict_get (rl_budgets rl) grp (the (map_of (rl_budgets rl) ''default''))"

definition state_for :: "clock \<Rightarrow> limiter \<Rightarrow> string \<Rightarrow> bucket \<times> limiter" where
  "state_for clock rl grp =
     (case map_of (rl_state rl) grp of
        Some st \<Rightarrow> (st, rl)
      | None \<Rightarrow>
          (let (now, rl1) = read_clock clock rl; st = full_bucket (budget_for rl grp) now
           in (st, rl1\<lparr>rl_state := AList.update grp st (rl_state rl1)\<rparr>)))"

definition set_bucket :: "string \<Rightarrow> bucket \<Rightarrow> limiter \<Rightarrow> limiter" where
  "set_bucket grp st rl = rl\<lparr>rl_state := AList.update grp st (rl_state rl)\<rparr>"

definition refill :: "clock \<Rightarrow> limiter \<Rightarrow> string \<Rightarrow> limiter" where
  "refill clock rl grp =
     (let (st, rl1) = state_for clock rl grp;
          budget = budget_for rl1 grp;
          (now, rl2) = read_clock clock rl1;
          elapsed = max 0 (fsub now (bk_updated_at st))
      in if 0 < elapsed then
           set_bucket grp (st\<lparr>bk_tokens := min (frnd (of_int (eb_burst budget)))
                                 (fadd (bk_tokens st) (fmul elapsed (eb_rps budget))),
                              bk_updated_at := now\<rparr>) rl2
         else rl2)"

definition wait_seconds_locked :: "clock \<Rightarrow> limiter \<Rightarrow> string \<Rightarrow> rat \<Rightarrow> rat \<times> limiter" where
  "wait_seconds_locked clock rl grp tokens =
     (let rl1 = refill clock rl grp;
          (st, rl2) = state_for clock rl1 grp;
          budget = budget_for rl2 grp;
          (now, rl3) = read_clock clock rl2;
          cooldown_wait = max 0 (fsub (bk_cooldown_until st) now)
      in if 0 < cooldown_wait then (cooldown_wait, rl3)
         else if tokens \<le> bk_tokens st then (0, rl3)
         else (fdiv (fsub tokens (bk_tokens st)) (max (eb_rps budget) (frnd (1 / 10 ^ 9))), rl3))"

definition take_tokens :: "clock \<Rightarrow> limiter \<Rightarrow> string \<Rightarrow> rat \<Rightarrow> limiter" where
  "take_tokens clock rl grp tokens =
     (let (st, rl1) = state_for clock rl grp
      in set_bucket grp (st\<lparr>bk_tokens := fsub (bk_tokens st) tokens\<rparr>) rl1)"

definition consume :: "clock \<Rightarrow> limiter \<Rightarrow> string \<Rightarrow> rat \<Rightarrow> bool \<times> limiter" where
  "consume clock rl grp tokens =
     (if tokens \<le> 0 then (True, rl)
      else let (wait_seconds, rl1) = wait_seconds_locked clock rl grp tokens
           in if 0 < wait_seconds then (False, rl1)
              else (True, take_tokens clock rl1 grp tokens))"

definition seconds_until_available :: "clock \<Rightarrow> limiter \<Rightarrow> string \<Rightarrow> rat \<Rightarrow> rat \<times> limiter" where
  "seconds_until_available clock rl grp tokens =
     (if tokens \<le> 0 then (0, rl)
      else let (wait_seconds, rl1) = wait_seconds_locked clock rl grp tokens
           in (max 0 wait_seconds, rl1))"

definition penalize_on_429 :: "clock \<Rightarrow> limiter \<Rightarrow> string \<Rightarrow> rat option \<Rightarrow> limiter" where
  "penalize_on_429 clock rl grp retry_after =
     (let (st, rl1) = state_for clock rl grp;
          budget = budget_for rl1 grp;
          (now, rl2) = read_clock clock rl1;
          cooldown = (case retry_after of
             Some s \<Rightarrow> if 0 < s then s else min (3/2) (max (1/4) (fdiv 1 (eb_rps budget)))
           | None \<Rightarrow> min (3/2) (max (1/4) (fdiv 1 (eb_rps budget))))
      in set_bucket grp (st\<lparr>bk_tokens := 0,
           bk_cooldown_until := max (bk_cooldown_until st) (fadd now cooldown)\<rparr>) rl2)"

text \<open>
  One turn of the blocking loop of \<open>acquire\<close>, which holds the lock: the seconds to sleep, and zero when a
  token was taken.  Between the turns other threads may call the limiter.
\<close>

definition acquire_turn :: "clock \<Rightarrow> limiter \<Rightarrow> string \<Rightarrow> rat \<times> limiter" where
  "acquire_turn clock rl grp =
     (let (wait_seconds, rl1) = wait_seconds_locked clock rl grp 1
      in (wait_seconds, if wait_seconds = 0 then take_tokens clock rl1 grp 1 else rl1))"

text \<open>
  The loop itself.  A call of \<open>self._sleep\<close> shows only in the later readings of
  the clock; \<open>fuel\<close> bounds the turns of the loop, and \<open>None\<close> means that they did not suffice.
\<close>

fun acquire :: "nat \<Rightarrow> clock \<Rightarrow> limiter \<Rightarrow> string \<Rightarrow> rat \<Rightarrow> (rat \<times> limiter) option" where
  "acquire 0 clock rl grp waited = None"
| "acquire (Suc fuel) clock rl grp waited =
     (let (wait_seconds, rl1) = acquire_turn clock rl grp
      in if wait_seconds = 0 then Some (waited, rl1)
         else acquire fuel clock rl1 grp (fadd waited wait_seconds))"

fun async_acquire :: "nat \<Rightarrow> clock \<Rightarrow> limiter \<Rightarrow> string \<Rightarrow> rat \<Rightarrow> (rat \<times> limiter) option" where
  "async_acquire 0 clock rl grp waited = None"
| "async_acquire (Suc fuel) clock rl grp waited =
     (let (granted, rl1) = consume clock rl grp 1
      in if granted then Some (waited, rl1)
         else let (wait_seconds, rl2) = seconds_until_available clock rl1 grp 1
              in async_acquire fuel clock rl2 grp (fadd waited wait_seconds))"

definition contains :: "string \<Rightarrow> string \<Rightarrow> bool" where
  "contains s p = (\<exists>i \<le> length s. starts_with (drop i s) p)"

lemma contains_code [code]: "contains s p = list_ex (\<lambda>i. starts_with (drop i s) p) [0..<Suc (length s)]"
  by (auto simp: contains_def list_ex_iff less_Suc_eq_le simp del: upt_Suc)

definition map_endpoint_group :: "string \<Rightarrow> string" where
  "map_endpoint_group path =
     (let normalized = takeWhile (\<lambda>c. c \<noteq> CHR ''?'') (str_lower path) in
      if list_ex (contains normalized) [''/orderbook'', ''/ticker'', ''/ohlc'', ''/api/v2/trades'',
          ''/symbols'', ''/server/exchangeinfo''] then ''market_data''
      else if list_ex (contains normalized) [''/users/'', ''/openorders'', ''/allorders'', ''/balances'',
          ''/transactions'', ''/portfolio'', ''/positions''] then ''account''
      else if normalized = ''/api/v1/order'' \<or> starts_with normalized ''/api/v1/order/'' then ''orders''
      else ''default'')"

subsection \<open>One bucket\<close>

definition bucket_ok :: "endpoint_budget \<Rightarrow> bucket \<Rightarrow> bool" where
  "bucket_ok b st \<longleftrightarrow> 0 \<le> bk_tokens st \<and> bk_tokens st \<le> frnd (of_int (eb_burst b))"

definition refill_bucket :: "endpoint_budget \<Rightarrow> rat \<Rightarrow> bucket \<Rightarrow> bucket" where
  "refill_bucket b now st =
     (if bk_updated_at st < now then
        st\<lparr>bk_tokens := min (frnd (of_int (eb_burst b)))
             (fadd (bk_tokens st) (fmul (fsub now (bk_updated_at st)) (eb_rps b))),
           bk_updated_at := now\<rparr>
      else st)"

definition burst_error :: "endpoint_budget \<Rightarrow> rat" where
  "burst_error b = (float_slack - 1) * frnd (of_int (eb_burst b))"

definition valid_budget :: "endpoint_budget \<Rightarrow> bool" where
  "valid_budget b \<longleftrightarrow> 0 < eb_rps b \<and> 1 \<le> eb_burst b"

lemma frnd_burst_nonneg: "valid_budget b \<Longrightarrow> 0 \<le> frnd (of_int (eb_burst b))"
  by (simp add: valid_budget_def flt.rnd_nonneg)

lemma refill_bucket_ok: "valid_budget b \<Longrightarrow> bucket_ok b st \<Longrightarrow> bucket_ok b (refill_bucket b now st)"
  by (auto simp: bucket_ok_def refill_bucket_def fadd_def fmul_def fsub_def valid_budget_def
      intro!: flt.rnd_nonneg add_nonneg_nonneg mult_nonneg_nonneg)

text \<open>A refill adds at most the rate times the time that has passed, up to the float errors.\<close>

lemma refill_bucket_gain:
  assumes b: "valid_budget b" and ok: "bucket_ok b st"
  shows "bk_tokens (refill_bucket b now st)
    \<le> bk_tokens st + eb_rps b * (bk_updated_at (refill_bucket b now st) - bk_updated_at st) * float_slack ^ 3
      + burst_error b"
proof (cases "bk_updated_at st < now")
  case True
  let ?s = float_slack and ?t = "bk_tokens st" and ?e = "now - bk_updated_at st"
  have t: "0 \<le> ?t" "?t \<le> frnd (of_int (eb_burst b))" using ok by (auto simp: bucket_ok_def)
  have r: "0 < eb_rps b" using b by (simp add: valid_budget_def)
  have e: "0 \<le> fsub now (bk_updated_at st)" "fsub now (bk_updated_at st) \<le> ?e * ?s"
    using frnd_upper [of ?e] True by (auto simp: fsub_def flt.rnd_nonneg)
  have m: "0 \<le> fmul (fsub now (bk_updated_at st)) (eb_rps b)"
    using e r by (simp add: fmul_def flt.rnd_nonneg)
  have "fmul (fsub now (bk_updated_at st)) (eb_rps b) \<le> fsub now (bk_updated_at st) * eb_rps b * ?s"
    unfolding fmul_def by (rule frnd_upper) (use e r in simp)
  also have "\<dots> \<le> ?e * ?s * eb_rps b * ?s"
    using e r by (intro mult_right_mono) auto
  finally have "(?t + fmul (fsub now (bk_updated_at st)) (eb_rps b)) * ?s \<le> (?t + ?e * ?s * eb_rps b * ?s) * ?s"
    by (intro mult_right_mono add_left_mono) auto
  moreover have "fadd ?t (fmul (fsub now (bk_updated_at st)) (eb_rps b))
      \<le> (?t + fmul (fsub now (bk_updated_at st)) (eb_rps b)) * ?s"
    unfolding fadd_def by (rule frnd_upper) (use t m in simp)
  moreover have "(?t + ?e * ?s * eb_rps b * ?s) * ?s = ?t + eb_rps b * ?e * ?s ^ 3 + (?s - 1) * ?t"
    by (simp add: power3_eq_cube algebra_simps)
  moreover have "(?s - 1) * ?t \<le> burst_error b"
    using t unfolding burst_error_def by (intro mult_left_mono) auto
  ultimately have "fadd ?t (fmul (fsub now (bk_updated_at st)) (eb_rps b))
      \<le> ?t + eb_rps b * ?e * ?s ^ 3 + burst_error b"
    by linarith
  then show ?thesis using True by (simp add: refill_bucket_def min.coboundedI2)
next
  case False
  have "0 \<le> burst_error b" using frnd_burst_nonneg [OF b] by (simp add: burst_error_def)
  then show ?thesis using False by (simp add: refill_bucket_def)
qed

lemma take_tokens_bound:
  assumes "bucket_ok b st" "0 < k" "k \<le> bk_tokens st"
  shows "0 \<le> fsub (bk_tokens st) k" "fsub (bk_tokens st) k \<le> frnd (of_int (eb_burst b))"
    "fsub (bk_tokens st) k + k \<le> bk_tokens st + burst_error b"
proof -
  let ?B = "frnd (of_int (eb_burst b))" and ?t = "bk_tokens st"
  have t: "?t \<le> ?B" using assms(1) by (simp add: bucket_ok_def)
  show "0 \<le> fsub ?t k" using assms by (simp add: fsub_def flt.rnd_nonneg)
  have "frnd (?t - k) \<le> ?B" using t assms by (intro flt.rnd_le_exact flt.rnd_idem) auto
  then show "fsub ?t k \<le> ?B" by (simp add: fsub_def)
  have "fsub ?t k \<le> (?t - k) * float_slack" unfolding fsub_def by (rule frnd_upper) (use assms in simp)
  moreover have "(float_slack - 1) * (?t - k) \<le> burst_error b"
    unfolding burst_error_def using t assms by (intro mult_left_mono) auto
  ultimately show "fsub ?t k + k \<le> ?t + burst_error b" by (simp add: algebra_simps)
qed

subsection \<open>The operations on one group\<close>

lemma state_for_present: "map_of (rl_state rl) g = Some st \<Longrightarrow> state_for clock rl g = (st, rl)"
  by (simp add: state_for_def)

lemma budget_for_reads [simp]: "budget_for (rl\<lparr>rl_reads := n\<rparr>) g = budget_for rl g"
  "budget_for (rl\<lparr>rl_state := d\<rparr>) g = budget_for rl g" "budget_for (set_bucket h st rl) g = budget_for rl g"
  by (simp_all add: budget_for_def set_bucket_def cong: option.case_cong)

lemma set_bucket_simps [simp]:
  "map_of (rl_state (set_bucket h st rl)) = (map_of (rl_state rl))(h \<mapsto> st)"
  "rl_reads (set_bucket h st rl) = rl_reads rl" "rl_budgets (set_bucket h st rl) = rl_budgets rl"
  by (simp_all add: set_bucket_def)

lemma refill_present:
  assumes "map_of (rl_state rl) g = Some st"
  shows "map_of (rl_state (refill clock rl g))
      = (map_of (rl_state rl))(g \<mapsto> refill_bucket (budget_for rl g) (clock (rl_reads rl)) st)"
    "rl_reads (refill clock rl g) = Suc (rl_reads rl)" "rl_budgets (refill clock rl g) = rl_budgets rl"
  using assms map_upd_triv [of "map_of (rl_state rl)" g st]
  by (simp_all add: refill_def state_for_present read_clock_def Let_def refill_bucket_def elapsed_pos_iff
      elapsed_pos)

lemma wait_seconds_present:
  fixes clock rl g st
  defines "st' \<equiv> refill_bucket (budget_for rl g) (clock (rl_reads rl)) st"
  assumes st: "map_of (rl_state rl) g = Some st" and b: "valid_budget (budget_for rl g)"
    and w: "wait_seconds_locked clock rl g k = (w, rl')"
  shows "map_of (rl_state rl') = (map_of (rl_state rl))(g \<mapsto> st')"
    "rl_reads rl' = Suc (Suc (rl_reads rl))" "rl_budgets rl' = rl_budgets rl"
    "0 \<le> w" "w = 0 \<longleftrightarrow> bk_cooldown_until st \<le> clock (Suc (rl_reads rl)) \<and> k \<le> bk_tokens st'"
proof -
  let ?c = "clock (Suc (rl_reads rl))"
  have st': "map_of (rl_state (refill clock rl g)) g = Some st'"
    using refill_present(1) [OF st] by (simp add: st'_def)
  have cd: "bk_cooldown_until st' = bk_cooldown_until st" by (simp add: st'_def refill_bucket_def)
  have rps: "0 < max (eb_rps x) (frnd (1 / 10 ^ 9))" for x
    by (simp add: less_max_iff_disj flt.rnd_pos)
  have dw: "fdiv (fsub k (bk_tokens st')) (max (eb_rps x) (frnd (1 / 10 ^ 9))) > 0"
    if "\<not> k \<le> bk_tokens st'" for x
    using that rps [of x] fsub_pos_iff [of k "bk_tokens st'"]
    by (simp only: fdiv_def flt.rnd_pos_iff not_le) (rule divide_pos_pos, simp_all)
  let ?R = "refill clock rl g"
  have eq: "wait_seconds_locked clock rl g k =
     (if bk_cooldown_until st > ?c then (fsub (bk_cooldown_until st) ?c, ?R\<lparr>rl_reads := Suc (Suc (rl_reads rl))\<rparr>)
      else if k \<le> bk_tokens st' then (0, ?R\<lparr>rl_reads := Suc (Suc (rl_reads rl))\<rparr>)
      else (fdiv (fsub k (bk_tokens st')) (max (eb_rps (budget_for ?R g)) (frnd (1 / 10 ^ 9))),
            ?R\<lparr>rl_reads := Suc (Suc (rl_reads rl))\<rparr>))"
    by (simp add: wait_seconds_locked_def state_for_present [OF st'] read_clock_def Let_def cd
        refill_present(2) [OF st] elapsed_pos_iff elapsed_pos)
  show "map_of (rl_state rl') = (map_of (rl_state rl))(g \<mapsto> st')"
    "rl_reads rl' = Suc (Suc (rl_reads rl))" "rl_budgets rl' = rl_budgets rl"
    using w eq refill_present [OF st, of clock] by (auto simp: st'_def split: if_splits)
  show "0 \<le> w" "w = 0 \<longleftrightarrow> bk_cooldown_until st \<le> ?c \<and> k \<le> bk_tokens st'"
    using w eq dw [of "budget_for ?R g"] fsub_pos_iff [of "bk_cooldown_until st" ?c]
    by (auto simp: not_le not_less split: if_splits)
qed

subsection \<open>Runs\<close>

text \<open>
  A run is a list of the steps that change the state: \<open>consume\<close>, which may hand out tokens, a turn of the
  loop of \<open>acquire\<close>, which hands out one when it need not wait, the query of the waiting time and the penalty.
  The asynchronous \<open>acquire\<close> only makes the first and the third.  The number of a step and of
  a run is that of the tokens handed out to a group.
\<close>

datatype limiter_op =
  Consume string rat
| Acquire_turn string
| Seconds_until string rat
| Penalize string "rat option"

fun limiter_step :: "clock \<Rightarrow> string \<Rightarrow> limiter \<Rightarrow> limiter_op \<Rightarrow> rat \<times> limiter" where
  "limiter_step clock g rl (Consume h k) =
     (let (ok, rl') = consume clock rl h k in (if ok \<and> h = g \<and> 0 < k then k else 0, rl'))"
| "limiter_step clock g rl (Acquire_turn h) =
     (let (wait_seconds, rl') = acquire_turn clock rl h in (if wait_seconds = 0 \<and> h = g then 1 else 0, rl'))"
| "limiter_step clock g rl (Seconds_until h k) = (0, snd (seconds_until_available clock rl h k))"
| "limiter_step clock g rl (Penalize h r) = (0, penalize_on_429 clock rl h r)"

fun limiter_run :: "clock \<Rightarrow> string \<Rightarrow> limiter \<Rightarrow> limiter_op list \<Rightarrow> rat \<times> limiter" where
  "limiter_run clock g rl [] = (0, rl)"
| "limiter_run clock g rl (x # xs) =
     (let (k, rl') = limiter_step clock g rl x; (n, rl'') = limiter_run clock g rl' xs in (k + n, rl''))"

text \<open>What one call does to the bucket of a configured group, whichever group it is about.\<close>

definition bucket_step :: "clock \<Rightarrow> limiter \<Rightarrow> string \<Rightarrow> rat \<Rightarrow> limiter \<Rightarrow> bool" where
  "bucket_step clock rl g k rl' \<longleftrightarrow>
     (\<forall>st b. map_of (rl_state rl) g = Some st \<longrightarrow> map_of (rl_budgets rl) g = Some b \<longrightarrow>
        valid_budget b \<longrightarrow> bucket_ok b st \<longrightarrow>
        (\<exists>st'. map_of (rl_state rl') g = Some st' \<and> bucket_ok b st' \<and>
           bk_tokens st' + k \<le> bk_tokens st
             + eb_rps b * (bk_updated_at st' - bk_updated_at st) * float_slack ^ 3 + 2 * burst_error b))"

lemma budget_for_Some: "map_of (rl_budgets rl) g = Some b \<Longrightarrow> budget_for rl g = b"
  by (simp add: budget_for_def)

lemma burst_error_nonneg: "valid_budget b \<Longrightarrow> 0 \<le> burst_error b"
  using frnd_burst_nonneg [of b] by (simp add: burst_error_def)

lemma bucket_step_same:
  "map_of (rl_state rl') g = map_of (rl_state rl) g \<Longrightarrow> k = 0 \<Longrightarrow> bucket_step clock rl g k rl'"
  using burst_error_nonneg by (auto simp: bucket_step_def)

lemma state_for_frame:
  "h \<noteq> g \<Longrightarrow> map_of (rl_state (snd (state_for clock rl h))) g = map_of (rl_state rl) g"
  "rl_budgets (snd (state_for clock rl h)) = rl_budgets rl"
  by (auto simp: state_for_def read_clock_def Let_def split: option.splits)

lemma refill_frame:
  "h \<noteq> g \<Longrightarrow> map_of (rl_state (refill clock rl h)) g = map_of (rl_state rl) g"
  "rl_budgets (refill clock rl h) = rl_budgets rl"
  by (auto simp: refill_def read_clock_def Let_def split_def state_for_frame)

lemma wait_seconds_frame:
  "h \<noteq> g \<Longrightarrow> map_of (rl_state (snd (wait_seconds_locked clock rl h k))) g = map_of (rl_state rl) g"
  "rl_budgets (snd (wait_seconds_locked clock rl h k)) = rl_budgets rl"
  by (auto simp: wait_seconds_locked_def read_clock_def Let_def refill_frame split_def
      state_for_frame)

lemma take_tokens_frame:
  "h \<noteq> g \<Longrightarrow> map_of (rl_state (take_tokens clock rl h k)) g = map_of (rl_state rl) g"
  "rl_budgets (take_tokens clock rl h k) = rl_budgets rl"
  by (auto simp: take_tokens_def Let_def split_def state_for_frame)

lemma penalize_frame:
  "h \<noteq> g \<Longrightarrow> map_of (rl_state (penalize_on_429 clock rl h r)) g = map_of (rl_state rl) g"
  "rl_budgets (penalize_on_429 clock rl h r) = rl_budgets rl"
  by (auto simp: penalize_on_429_def read_clock_def Let_def split_def state_for_frame)

lemma limiter_step_frame:
  "limiter_step clock g rl x = (k, rl') \<Longrightarrow> rl_budgets rl' = rl_budgets rl"
  by (cases x) (auto simp: consume_def acquire_turn_def seconds_until_available_def Let_def split_def penalize_frame
      take_tokens_frame wait_seconds_frame)

lemma wait_seconds_bucket_step:
  "bucket_step clock rl g 0 (snd (wait_seconds_locked clock rl g k))"
proof (unfold bucket_step_def, intro allI impI)
  fix st b
  assume a: "map_of (rl_state rl) g = Some st" "map_of (rl_budgets rl) g = Some b" "valid_budget b" "bucket_ok b st"
  have w: "wait_seconds_locked clock rl g k = (fst (wait_seconds_locked clock rl g k), snd (wait_seconds_locked clock rl g k))"
    by simp
  have v: "valid_budget (budget_for rl g)" using a by (simp add: budget_for_Some)
  show "\<exists>st'. map_of (rl_state (snd (wait_seconds_locked clock rl g k))) g = Some st' \<and> bucket_ok b st' \<and>
           bk_tokens st' + 0 \<le> bk_tokens st
             + eb_rps b * (bk_updated_at st' - bk_updated_at st) * float_slack ^ 3 + 2 * burst_error b"
    using refill_bucket_gain [OF a(3,4), of "clock (rl_reads rl)"] burst_error_nonneg [OF a(3)]
      refill_bucket_ok [OF a(3,4)] wait_seconds_present(1) [OF a(1) v w] budget_for_Some [OF a(2)]
    by auto
qed

lemma consume_bucket_step:
  assumes "consume clock rl g k = (ok, rl')"
  shows "bucket_step clock rl g (if ok \<and> 0 < k then k else 0) rl'"
proof (cases "0 < k \<and> ok")
  case False
  then show ?thesis
    using assms wait_seconds_bucket_step [of clock rl g k] bucket_step_same [of rl g rl]
    by (auto simp: consume_def Let_def split_def split: if_splits)
next
  case True
  then have k: "0 < k" and ok: ok by auto
  show ?thesis
  proof (unfold bucket_step_def, intro allI impI)
    fix st b
    assume a: "map_of (rl_state rl) g = Some st" "map_of (rl_budgets rl) g = Some b" "valid_budget b" "bucket_ok b st"
    obtain w rl1 where w: "wait_seconds_locked clock rl g k = (w, rl1)" by force
    have b: "budget_for rl g = b" using a by (simp add: budget_for_Some)
    then have v: "valid_budget (budget_for rl g)" using a by simp
    define st1 where "st1 = refill_bucket b (clock (rl_reads rl)) st"
    note p = wait_seconds_present [OF a(1) v w, unfolded b, folded st1_def]
    have "w = 0" and rl': "rl' = take_tokens clock rl1 g k"
      using assms w k ok p(4) by (auto simp: consume_def split: if_splits)
    then have le: "k \<le> bk_tokens st1" using p(5) by simp
    have ok1: "bucket_ok b st1" unfolding st1_def by (rule refill_bucket_ok [OF a(3,4)])
    have "state_for clock rl1 g = (st1, rl1)" using p(1) by (simp add: state_for_present)
    then have "map_of (rl_state rl') g = Some (st1\<lparr>bk_tokens := fsub (bk_tokens st1) k\<rparr>)"
      by (simp add: rl' take_tokens_def)
    moreover note take_tokens_bound [OF ok1 k le] refill_bucket_gain [OF a(3,4), of "clock (rl_reads rl)", folded st1_def]
    ultimately show "\<exists>st'. map_of (rl_state rl') g = Some st' \<and> bucket_ok b st' \<and>
        bk_tokens st' + (if ok \<and> 0 < k then k else 0) \<le> bk_tokens st
          + eb_rps b * (bk_updated_at st' - bk_updated_at st) * float_slack ^ 3 + 2 * burst_error b"
      using k ok by (auto simp: bucket_ok_def)
  qed
qed

lemma acquire_turn_bucket_step:
  assumes "acquire_turn clock rl g = (w, rl')"
  shows "bucket_step clock rl g (if w = 0 then 1 else 0) rl'"
proof (cases "w = 0")
  case False
  then show ?thesis using assms wait_seconds_bucket_step [of clock rl g 1] by (auto simp: acquire_turn_def split_def Let_def)
next
  case True
  then have "consume clock rl g 1 = (True, rl')" using assms by (auto simp: acquire_turn_def consume_def split_def Let_def)
  from consume_bucket_step [OF this] show ?thesis using True by simp
qed

lemma penalize_bucket_step: "bucket_step clock rl g 0 (penalize_on_429 clock rl g r)"
  using burst_error_nonneg
  by (auto simp: bucket_step_def penalize_on_429_def state_for_present read_clock_def Let_def bucket_ok_def
      frnd_burst_nonneg add_increasing2)

lemma limiter_step_bucket: "limiter_step clock g rl x = (k, rl') \<Longrightarrow> bucket_step clock rl g k rl'"
proof (cases x)
  case (Consume h t)
  assume "limiter_step clock g rl x = (k, rl')"
  then obtain ok where c: "consume clock rl h t = (ok, rl')" and k: "k = (if ok \<and> h = g \<and> 0 < t then t else 0)"
    using Consume by (auto split: prod.splits)
  show ?thesis
  proof (cases "h = g")
    case True
    then show ?thesis using consume_bucket_step [of clock rl g t ok rl'] c k by simp
  next
    case False
    then have "map_of (rl_state rl') g = map_of (rl_state rl) g"
      using c wait_seconds_frame(1) [OF False, of clock rl t] take_tokens_frame(1) [OF False]
      by (auto simp: consume_def Let_def split_def split: if_splits)
    then show ?thesis using k False by (intro bucket_step_same) auto
  qed
next
  case (Acquire_turn h)
  assume "limiter_step clock g rl x = (k, rl')"
  then obtain w where c: "acquire_turn clock rl h = (w, rl')" and k: "k = (if w = 0 \<and> h = g then 1 else 0)"
    using Acquire_turn by (auto split: prod.splits)
  show ?thesis
  proof (cases "h = g")
    case True
    then show ?thesis using acquire_turn_bucket_step [of clock rl g w rl'] c k by simp
  next
    case False
    then have "map_of (rl_state rl') g = map_of (rl_state rl) g"
      using c wait_seconds_frame(1) [OF False, of clock rl 1] take_tokens_frame(1) [OF False]
      by (auto simp: acquire_turn_def Let_def split_def split: if_splits)
    then show ?thesis using k False by (intro bucket_step_same) auto
  qed
next
  case (Seconds_until h t)
  assume s: "limiter_step clock g rl x = (k, rl')"
  show ?thesis
  proof (cases "h = g \<and> 0 < t")
    case True
    then show ?thesis using s Seconds_until wait_seconds_bucket_step [of clock rl g t]
      by (auto simp: seconds_until_available_def split_def Let_def)
  next
    case False
    then have "map_of (rl_state rl') g = map_of (rl_state rl) g"
      using s Seconds_until wait_seconds_frame(1) [of h g clock rl t]
      by (auto simp: seconds_until_available_def split_def Let_def)
    then show ?thesis using s Seconds_until by (intro bucket_step_same) auto
  qed
next
  case (Penalize h r)
  assume s: "limiter_step clock g rl x = (k, rl')"
  then show ?thesis using Penalize penalize_bucket_step [of clock rl g r] penalize_frame(1) [of h g clock rl r]
    by (cases "h = g") (auto intro: bucket_step_same)
qed

text \<open>A call of \<open>acquire\<close> that returns is a run of its turns, and hands out one token.\<close>

lemma acquire_is_run:
  assumes "acquire fuel clock rl g waited = Some (waited', rl')"
  shows "\<exists>turns. turns \<noteq> [] \<and> set turns \<subseteq> {Acquire_turn g} \<and> limiter_run clock g rl turns = (1, rl')"
  using assms
proof (induction fuel arbitrary: rl waited)
  case (Suc fuel)
  obtain w rl1 where w: "acquire_turn clock rl g = (w, rl1)" by force
  show ?case
  proof (cases "w = 0")
    case True
    then show ?thesis using Suc.prems w by (intro exI [of _ "[Acquire_turn g]"]) simp
  next
    case False
    then obtain turns where "turns \<noteq> []" "set turns \<subseteq> {Acquire_turn g}" "limiter_run clock g rl1 turns = (1, rl')"
      using Suc.prems w Suc.IH [of rl1 "fadd waited w"] by auto
    then show ?thesis using False w by (intro exI [of _ "Acquire_turn g # turns"]) simp
  qed
qed simp

text \<open>(C28) The rate bound: over any run of calls of \<open>consume\<close>, turns of the loop of \<open>acquire\<close>, queries
  and penalties, on this and on other groups, the tokens granted to a
  configured group are at most its burst plus its rate times the time between the first and the
  last refill, with the rounding of the float operations as the only excess; and a call of \<open>acquire\<close>
  that returns is such a run of its turns, which grants one token.\<close>

theorem limiter_rate_bound:
  assumes "map_of (rl_budgets rl) g = Some b" "valid_budget b"
    and "map_of (rl_state rl) g = Some st" "bucket_ok b st"
    and "limiter_run clock g rl xs = (n, rl')"
  shows "(\<exists>st'. map_of (rl_state rl') g = Some st' \<and> bucket_ok b st' \<and>
      n \<le> frnd (of_int (eb_burst b)) * (1 + 2 * of_nat (length xs) * (float_slack - 1))
         + eb_rps b * (bk_updated_at st' - bk_updated_at st) * float_slack ^ 3)
    \<and> (\<forall>fuel h waited waited' rl2. acquire fuel clock rl h waited = Some (waited', rl2) \<longrightarrow>
      (\<exists>turns. turns \<noteq> [] \<and> set turns \<subseteq> {Acquire_turn h} \<and> limiter_run clock h rl turns = (1, rl2)))"
proof -
  have "\<exists>st'. map_of (rl_state rl') g = Some st' \<and> bucket_ok b st' \<and>
    bk_tokens st' + n \<le> bk_tokens st + eb_rps b * (bk_updated_at st' - bk_updated_at st) * float_slack ^ 3
      + 2 * of_nat (length xs) * burst_error b"
    using assms
  proof (induction xs arbitrary: rl st n)
    case (Cons x xs)
    obtain k rl1 m where s: "limiter_step clock g rl x = (k, rl1)" and r: "limiter_run clock g rl1 xs = (m, rl')"
      and n: "n = k + m"
      using Cons.prems(5) by (auto simp: Let_def split: prod.splits)
    obtain st1 where st1: "map_of (rl_state rl1) g = Some st1" "bucket_ok b st1"
        "bk_tokens st1 + k \<le> bk_tokens st
          + eb_rps b * (bk_updated_at st1 - bk_updated_at st) * float_slack ^ 3 + 2 * burst_error b"
      using limiter_step_bucket [OF s] Cons.prems(1-4) unfolding bucket_step_def by blast
    have "map_of (rl_budgets rl1) g = Some b" using limiter_step_frame [OF s] Cons.prems(1) by simp
    then obtain st' where st': "map_of (rl_state rl') g = Some st'" "bucket_ok b st'"
        "bk_tokens st' + m \<le> bk_tokens st1 + eb_rps b * (bk_updated_at st' - bk_updated_at st1) * float_slack ^ 3
          + 2 * of_nat (length xs) * burst_error b"
      using Cons.IH [OF _ Cons.prems(2) st1(1,2) r] by blast
    have "eb_rps b * (bk_updated_at st' - bk_updated_at st) * float_slack ^ 3
        = eb_rps b * (bk_updated_at st' - bk_updated_at st1) * float_slack ^ 3
        + eb_rps b * (bk_updated_at st1 - bk_updated_at st) * float_slack ^ 3"
      by (simp add: algebra_simps)
    then show ?case using st' st1(3) n by (intro exI [of _ st']) (simp add: algebra_simps)
  qed simp
  then obtain st' where st': "map_of (rl_state rl') g = Some st'" "bucket_ok b st'"
    "bk_tokens st' + n \<le> bk_tokens st + eb_rps b * (bk_updated_at st' - bk_updated_at st) * float_slack ^ 3
      + 2 * of_nat (length xs) * burst_error b"
    by blast
  have "0 \<le> bk_tokens st'" "bk_tokens st \<le> frnd (of_int (eb_burst b))"
    using st'(2) assms(4) by (auto simp: bucket_ok_def)
  then have "n \<le> frnd (of_int (eb_burst b)) * (1 + 2 * of_nat (length xs) * (float_slack - 1))
         + eb_rps b * (bk_updated_at st' - bk_updated_at st) * float_slack ^ 3"
    using st'(3) by (simp add: burst_error_def algebra_simps)
  then show ?thesis using st'(1,2) acquire_is_run by blast
qed

definition demo_limiter :: limiter where
  "demo_limiter = \<lparr>rl_budgets = [(''default'', \<lparr>eb_name = ''default'', eb_rps = 5, eb_burst = 2\<rparr>)],
     rl_state = [(''default'', \<lparr>bk_tokens = 2, bk_updated_at = 0, bk_cooldown_until = 0\<rparr>)], rl_reads = 1\<rparr>"

definition demo_clock :: clock where
  "demo_clock n = of_nat n / 16"

lemma demo_run:
  "fst (limiter_run demo_clock ''default'' demo_limiter [Consume ''default'' 1, Acquire_turn ''default'', Acquire_turn ''default'', Acquire_turn ''default'']) = 3"
  by code_simp

lemma demo_limiter_new:
  "TokenBucketRateLimiter demo_clock [(''default'', \<lparr>eb_name = ''default'', eb_rps = 5, eb_burst = 2\<rparr>)]
    = Inr demo_limiter"
  by (simp add: TokenBucketRateLimiter_def EndpointBudget_validate_def add_bucket_def read_clock_def full_bucket_def
      demo_limiter_def demo_clock_def)

theorem limiter_rate_bound_witness:
  "\<exists>n rl'. limiter_run demo_clock ''default'' demo_limiter [Consume ''default'' 1, Acquire_turn ''default'', Acquire_turn ''default'', Acquire_turn ''default''] = (n, rl') \<and> n = 3 \<and>
     (\<exists>st'. map_of (rl_state rl') ''default'' = Some st' \<and>
        3 \<le> 2 * (1 + 2 * 4 * (float_slack - 1)) + 5 * bk_updated_at st' * float_slack ^ 3)"
proof -
  obtain n rl' where r: "limiter_run demo_clock ''default'' demo_limiter [Consume ''default'' 1, Acquire_turn ''default'', Acquire_turn ''default'', Acquire_turn ''default''] = (n, rl')"
    by force
  then have n: "n = 3" using demo_run by simp
  show ?thesis
    using conjunct1 [OF limiter_rate_bound [OF _ _ _ _ r, of "\<lparr>eb_name = ''default'', eb_rps = 5, eb_burst = 2\<rparr>"
        "\<lparr>bk_tokens = 2, bk_updated_at = 0, bk_cooldown_until = 0\<rparr>"]] r n
    by (auto simp: demo_limiter_def valid_budget_def bucket_ok_def)
qed

text \<open>After a 429 answer with a positive retry delay no request of the group is granted before the
  clock has passed that delay, whatever the bucket has been refilled with.\<close>

theorem penalize_blocks_until:
  assumes "map_of (rl_state rl) g = Some st" "valid_budget (budget_for rl g)" "0 < s" "0 < k"
    and "rl1 = penalize_on_429 clock rl g (Some s)"
    and "rl_reads rl2 = n" "map_of (rl_state rl2) g = map_of (rl_state rl1) g" "rl_budgets rl2 = rl_budgets rl1"
    and "clock (Suc n) < frnd (clock (rl_reads rl) + s)"
  shows "fst (consume clock rl2 g k) = False"
proof -
  define st1 where "st1 = st\<lparr>bk_tokens := 0,
      bk_cooldown_until := max (bk_cooldown_until st) (fadd (clock (rl_reads rl)) s)\<rparr>"
  have st2: "map_of (rl_state rl2) g = Some st1" and b2: "budget_for rl2 g = budget_for rl g"
    using assms by (simp_all add: penalize_on_429_def state_for_present read_clock_def Let_def st1_def
        budget_for_def cong: option.case_cong)
  obtain w rl3 where w: "wait_seconds_locked clock rl2 g k = (w, rl3)" by force
  have "\<not> bk_cooldown_until st1 \<le> clock (Suc (rl_reads rl2))"
    using assms(6,9) by (simp add: st1_def fadd_def)
  then have "0 < w" using wait_seconds_present(4,5) [OF st2 _ w] b2 assms(2) by (simp add: less_le)
  then show ?thesis using w assms(4) by (simp add: consume_def)
qed

theorem penalize_blocks_until_witness:
  "fst (consume demo_clock (penalize_on_429 demo_clock demo_limiter ''default'' (Some 1)) ''default'' 1) = False"
proof -
  have v: "valid_budget (budget_for demo_limiter ''default'')"
    by (simp add: budget_for_def demo_limiter_def valid_budget_def)
  have c: "demo_clock (Suc 2) < frnd (demo_clock (rl_reads demo_limiter) + 1)" by code_simp
  have r: "rl_reads (penalize_on_429 demo_clock demo_limiter ''default'' (Some 1)) = 2"
    by (simp add: demo_limiter_def penalize_on_429_def state_for_def read_clock_def Let_def)
  show ?thesis
    by (rule penalize_blocks_until [OF _ v _ _ refl r refl refl c]) (simp_all add: demo_limiter_def)
qed

end
