(* ===== verification/Retry.thy ===== *)
theory Retry
  imports Rate_Limiter
begin

text \<open>
  Retrying with exponential backoff, \<open>src/src/btcbot/services/retry.py\<close>.

  The function retried is a state transformer \<open>fn\<close> that returns a value or an exception.
  Parameters stand for what the loop is given: \<open>retryable\<close> is the \<open>isinstance\<close> test on
  \<open>retry_on_exceptions\<close>, \<open>after\<close> the \<open>Retry-After\<close> seconds that \<open>retry_after_getter\<close> and
  \<open>parse_retry_after_seconds\<close> extract from an exception, and \<open>rand n\<close> the \<open>n\<close>-th number drawn
  from the seeded generator, a float in \<open>[0, 1)\<close>.  Sleeping and \<open>on_retry\<close> show as the list of
  attempts returned.
\<close>

subsection \<open>Definitions\<close>

record retry_attempt =
  ra_attempt :: int
  ra_delay_ms :: int
  ra_error :: py_error
  ra_used_retry_after :: bool

record retry_config =
  rc_max_attempts :: int
  rc_base_delay_ms :: int
  rc_max_delay_ms :: int
  rc_max_total_sleep :: "rat option"

definition int_of_float :: "rat \<Rightarrow> int" where
  "int_of_float x = (if 0 \<le> x then \<lfloor>x\<rfloor> else \<lceil>x\<rceil>)"

definition compute_delay_ms :: "int \<Rightarrow> int \<Rightarrow> int \<Rightarrow> rat \<Rightarrow> rat option \<Rightarrow> int \<times> bool" where
  "compute_delay_ms attempt base_delay_ms max_delay_ms rand retry_after_s =
     (case retry_after_s of
        Some s \<Rightarrow> (min max_delay_ms (int_of_float (fmul s 1000)), True)
      | None \<Rightarrow>
          (let raw = min max_delay_ms (base_delay_ms * 2 ^ nat (max 0 (attempt - 1)))
           in (int_of_float (fmul (frnd (of_int raw)) (fadd (1 / 2) rand)), False)))"

definition delay_s_of :: "int \<Rightarrow> rat" where
  "delay_s_of delay_ms = fdiv (frnd (of_int delay_ms)) 1000"

text \<open>
  The loop: \<open>k\<close> turns are left, \<open>attempt\<close> is the number of the current one, \<open>draws\<close> counts the
  random numbers used, \<open>slept\<close> is \<open>total_sleep_s\<close>.
\<close>

fun retry_loop ::
  "retry_config \<Rightarrow> (py_error \<Rightarrow> bool) \<Rightarrow> (py_error \<Rightarrow> rat option) \<Rightarrow> (nat \<Rightarrow> rat) \<Rightarrow> ('s \<Rightarrow> 's \<times> 'a result) \<Rightarrow>
   nat \<Rightarrow> int \<Rightarrow> nat \<Rightarrow> rat \<Rightarrow> retry_attempt list \<Rightarrow> 's \<Rightarrow> 'a result \<times> retry_attempt list \<times> rat \<times> 's"
where
  "retry_loop cfg retryable after rand fn 0 attempt draws slept acc s =
     (Inl (RuntimeError ''retry loop exhausted unexpectedly''), acc, slept, s)"
| "retry_loop cfg retryable after rand fn (Suc k) attempt draws slept acc s =
     (case fn s of
        (s', Inr v) \<Rightarrow> (Inr v, acc, slept, s')
      | (s', Inl e) \<Rightarrow>
          if \<not> retryable e \<or> rc_max_attempts cfg \<le> attempt then (Inl e, acc, slept, s')
          else
            let retry_after_s = after e;
                (delay_ms, used) = compute_delay_ms attempt (rc_base_delay_ms cfg) (rc_max_delay_ms cfg)
                    (rand draws) retry_after_s;
                delay_s = delay_s_of delay_ms;
                over = (case rc_max_total_sleep cfg of None \<Rightarrow> False | Some m \<Rightarrow> m < fadd slept delay_s)
            in if over then (Inl e, acc, slept, s')
               else retry_loop cfg retryable after rand fn k (attempt + 1)
                      (if retry_after_s = None then Suc draws else draws) (fadd slept delay_s)
                      (acc @ [\<lparr>ra_attempt = attempt, ra_delay_ms = delay_ms, ra_error = e,
                               ra_used_retry_after = used\<rparr>]) s')"

definition retry_with_backoff ::
  "retry_config \<Rightarrow> (py_error \<Rightarrow> bool) \<Rightarrow> (py_error \<Rightarrow> rat option) \<Rightarrow> (nat \<Rightarrow> rat) \<Rightarrow> ('s \<Rightarrow> 's \<times> 'a result) \<Rightarrow>
   's \<Rightarrow> 'a result \<times> retry_attempt list \<times> rat \<times> 's" where
  "retry_with_backoff cfg retryable after rand fn s =
     (if rc_max_attempts cfg < 1 then (Inl (ValueError ''max_attempts must be >= 1''), [], 0, s)
      else if rc_base_delay_ms cfg < 0 \<or> rc_max_delay_ms cfg < 0
        then (Inl (ValueError ''delay values must be >= 0''), [], 0, s)
      else retry_loop cfg retryable after rand fn (nat (rc_max_attempts cfg)) 1 0 0 [] s)"

text \<open>The coroutine has the same loop without the checks of the arguments.\<close>

definition retry_with_backoff_async ::
  "retry_config \<Rightarrow> (py_error \<Rightarrow> bool) \<Rightarrow> (py_error \<Rightarrow> rat option) \<Rightarrow> (nat \<Rightarrow> rat) \<Rightarrow> ('s \<Rightarrow> 's \<times> 'a result) \<Rightarrow>
   's \<Rightarrow> 'a result \<times> retry_attempt list \<times> rat \<times> 's" where
  "retry_with_backoff_async cfg retryable after rand fn s =
     retry_loop cfg retryable after rand fn (nat (rc_max_attempts cfg)) 1 0 0 [] s"

subsection \<open>What the loop returns\<close>

text \<open>The reference: the \<open>j\<close>-th call of \<open>fn\<close> when all earlier ones have been made.\<close>

fun nth_call :: "('s \<Rightarrow> 's \<times> 'a result) \<Rightarrow> 's \<Rightarrow> nat \<Rightarrow> 's \<times> 'a result" where
  "nth_call fn s 0 = fn s"
| "nth_call fn s (Suc j) = nth_call fn (fst (fn s)) j"

fun retry_failure :: "(py_error \<Rightarrow> bool) \<Rightarrow> 'a result \<Rightarrow> bool" where
  "retry_failure retryable (Inl e) = retryable e"
| "retry_failure retryable (Inr v) = False"

text \<open>What was slept for the attempts recorded, and the delay that follows them when a call fails with \<open>e\<close>.\<close>

definition slept_for :: "retry_attempt list \<Rightarrow> rat" where
  "slept_for atts = foldl fadd 0 (map (\<lambda>a. delay_s_of (ra_delay_ms a)) atts)"

definition draws_of :: "retry_attempt list \<Rightarrow> nat" where
  "draws_of atts = length (filter (\<lambda>a. \<not> ra_used_retry_after a) atts)"

definition next_delay_ms ::
  "retry_config \<Rightarrow> (py_error \<Rightarrow> rat option) \<Rightarrow> (nat \<Rightarrow> rat) \<Rightarrow> retry_attempt list \<Rightarrow> py_error \<Rightarrow> int" where
  "next_delay_ms cfg after rand atts e = fst (compute_delay_ms (int (length atts) + 1) (rc_base_delay_ms cfg)
     (rc_max_delay_ms cfg) (rand (draws_of atts)) (after e))"

definition over_cap :: "retry_config \<Rightarrow> (py_error \<Rightarrow> rat option) \<Rightarrow> (nat \<Rightarrow> rat) \<Rightarrow> retry_attempt list \<Rightarrow> py_error \<Rightarrow> bool" where
  "over_cap cfg after rand atts e \<longleftrightarrow>
     (\<exists>m. rc_max_total_sleep cfg = Some m \<and> m < fadd (slept_for atts) (delay_s_of (next_delay_ms cfg after rand atts e)))"

definition sleep_capped :: "retry_config \<Rightarrow> retry_attempt list \<Rightarrow> bool" where
  "sleep_capped cfg atts \<longleftrightarrow> (\<forall>m. rc_max_total_sleep cfg = Some m \<and> atts \<noteq> [] \<longrightarrow> slept_for atts \<le> m)"

lemma compute_delay_used: "snd (compute_delay_ms n base most x ra) = (ra \<noteq> None)"
  by (simp add: compute_delay_ms_def Let_def split: option.split)

text \<open>One turn of the loop whose call fails with a retryable exception and is not the last allowed one.\<close>

lemma retry_loop_turn:
  assumes "fn s = (s1, Inl e)" "retryable e" "attempt < rc_max_attempts cfg" "attempt = int (length acc) + 1"
  obtains (over) "over_cap cfg after rand acc e"
      "retry_loop cfg retryable after rand fn (Suc k) attempt (draws_of acc) (slept_for acc) acc s = (Inl e, acc, slept_for acc, s1)"
  | (again) a where "sleep_capped cfg (acc @ [a])"
      "retry_loop cfg retryable after rand fn (Suc k) attempt (draws_of acc) (slept_for acc) acc s
        = retry_loop cfg retryable after rand fn k (attempt + 1) (draws_of (acc @ [a])) (slept_for (acc @ [a])) (acc @ [a]) s1"
proof -
  let ?d = "compute_delay_ms attempt (rc_base_delay_ms cfg) (rc_max_delay_ms cfg) (rand (draws_of acc)) (after e)"
  define a where "a = \<lparr>ra_attempt = attempt, ra_delay_ms = fst ?d, ra_error = e, ra_used_retry_after = snd ?d\<rparr>"
  have next_is: "next_delay_ms cfg after rand acc e = fst ?d" using assms(4) by (simp add: next_delay_ms_def)
  have slept: "slept_for (acc @ [a]) = fadd (slept_for acc) (delay_s_of (fst ?d))" by (simp add: slept_for_def a_def)
  have draws: "draws_of (acc @ [a]) = (if after e = None then Suc (draws_of acc) else draws_of acc)"
    by (simp add: draws_of_def a_def compute_delay_used)
  have run: "retry_loop cfg retryable after rand fn (Suc k) attempt (draws_of acc) (slept_for acc) acc s =
      (if over_cap cfg after rand acc e then (Inl e, acc, slept_for acc, s1)
       else retry_loop cfg retryable after rand fn k (attempt + 1) (draws_of (acc @ [a])) (slept_for (acc @ [a])) (acc @ [a]) s1)"
    using assms(1-3) unfolding slept draws over_cap_def next_is unfolding a_def
    by (cases ?d) (auto simp: Let_def split: option.split)
  show thesis
  proof (cases "over_cap cfg after rand acc e")
    case True
    then show thesis using over run by simp
  next
    case False
    then have "sleep_capped cfg (acc @ [a])" unfolding over_cap_def sleep_capped_def next_is slept by auto
    then show thesis using again run False by simp
  qed
qed

lemma retry_loop_spec:
  assumes "retry_loop cfg retryable after rand fn k attempt (draws_of acc) (slept_for acc) acc s = (r, atts, tot, s')"
    and "rc_max_attempts cfg = attempt + int k - 1" "0 < k" "attempt = int (length acc) + 1" "sleep_capped cfg acc"
  shows "\<exists>j < k. nth_call fn s j = (s', r) \<and> length atts = length acc + j \<and>
    (\<forall>i < j. retry_failure retryable (snd (nth_call fn s i))) \<and> tot = slept_for atts \<and> sleep_capped cfg atts \<and>
    (retry_failure retryable r \<longrightarrow> j = k - 1 \<or> (\<exists>e. r = Inl e \<and> over_cap cfg after rand atts e))"
  using assms
proof (induction k arbitrary: attempt acc s)
  case (Suc k)
  obtain s1 r1 where call: "fn s = (s1, r1)" by force
  show ?case
  proof (cases "\<exists>e. r1 = Inl e \<and> retryable e \<and> attempt < rc_max_attempts cfg")
    case False
    then have "r = r1 \<and> s' = s1 \<and> atts = acc \<and> tot = slept_for acc"
      using Suc.prems(1) call by (cases r1) (auto split: if_splits)
    moreover have "k = 0" if "retry_failure retryable r1"
      using that False Suc.prems(2,4) by (cases r1) auto
    ultimately show ?thesis using Suc.prems(5) call by (intro exI [of _ 0]) auto
  next
    case True
    then obtain e where e: "r1 = Inl e" "retryable e" "attempt < rc_max_attempts cfg" by blast
    have call: "fn s = (s1, Inl e)" using call e(1) by simp
    show ?thesis
    proof (rule retry_loop_turn [of fn s s1 e retryable attempt cfg acc after rand k])
      assume "over_cap cfg after rand acc e" and "retry_loop cfg retryable after rand fn (Suc k) attempt (draws_of acc)
          (slept_for acc) acc s = (Inl e, acc, slept_for acc, s1)"
      then show ?thesis using Suc.prems(1,5) call by (intro exI [of _ 0]) auto
    next
      fix a
      assume a: "sleep_capped cfg (acc @ [a])"
        and "retry_loop cfg retryable after rand fn (Suc k) attempt (draws_of acc) (slept_for acc) acc s
          = retry_loop cfg retryable after rand fn k (attempt + 1) (draws_of (acc @ [a])) (slept_for (acc @ [a])) (acc @ [a]) s1"
      then have l: "retry_loop cfg retryable after rand fn k (attempt + 1) (draws_of (acc @ [a])) (slept_for (acc @ [a])) (acc @ [a]) s1
          = (r, atts, tot, s')" using Suc.prems(1) by simp
      have k: "0 < k" "rc_max_attempts cfg = attempt + 1 + int k - 1" "attempt + 1 = int (length (acc @ [a])) + 1"
        using e(3) Suc.prems(2,4) by auto
      obtain j where j: "j < k" "nth_call fn s1 j = (s', r)" "length atts = length (acc @ [a]) + j"
          "\<forall>i < j. retry_failure retryable (snd (nth_call fn s1 i))" "tot = slept_for atts" "sleep_capped cfg atts"
          "retry_failure retryable r \<longrightarrow> j = k - 1 \<or> (\<exists>e. r = Inl e \<and> over_cap cfg after rand atts e)"
        using Suc.IH [OF l k(2,1,3) a] by blast
      have "retry_failure retryable (snd (nth_call fn s i))" if "i < Suc j" for i
        using that j(4) call e by (cases i) auto
      then show ?thesis using j k call by (intro exI [of _ "Suc j"]) auto
    qed (use call e Suc.prems(4) in auto)
  qed
qed simp

text \<open>(C29) The result of \<open>retry_with_backoff\<close> is that of the call at which it stopped: every earlier call
  failed with a retryable exception, at most \<open>max_attempts\<close> calls are made, one attempt is
  recorded for each repeated call, the time slept is the sum of the delays of these attempts and
  within the cap on the total sleep, and a retryable failure is passed on only after the last
  allowed call or when the next delay, computed for the next attempt, would exceed that cap.\<close>

theorem retry_with_backoff_spec:
  assumes "retry_with_backoff cfg retryable after rand fn s = (r, atts, tot, s')"
    and "1 \<le> rc_max_attempts cfg" "0 \<le> rc_base_delay_ms cfg" "0 \<le> rc_max_delay_ms cfg"
  shows "\<exists>j < nat (rc_max_attempts cfg). nth_call fn s j = (s', r) \<and> length atts = j \<and>
    (\<forall>i < j. retry_failure retryable (snd (nth_call fn s i))) \<and>
    tot = foldl fadd 0 (map (\<lambda>a. delay_s_of (ra_delay_ms a)) atts) \<and>
    (\<forall>m. rc_max_total_sleep cfg = Some m \<and> atts \<noteq> [] \<longrightarrow> tot \<le> m) \<and>
    (retry_failure retryable r \<longrightarrow> j = nat (rc_max_attempts cfg) - 1 \<or>
      (\<exists>e m. r = Inl e \<and> rc_max_total_sleep cfg = Some m \<and>
         m < fadd tot (delay_s_of (fst (compute_delay_ms (int j + 1) (rc_base_delay_ms cfg) (rc_max_delay_ms cfg)
               (rand (length (filter (\<lambda>a. \<not> ra_used_retry_after a) atts))) (after e))))))"
proof -
  have "retry_loop cfg retryable after rand fn (nat (rc_max_attempts cfg)) 1 (draws_of []) (slept_for []) [] s = (r, atts, tot, s')"
    using assms by (simp add: retry_with_backoff_def draws_of_def slept_for_def)
  from retry_loop_spec [OF this] assms(2) obtain j where j: "j < nat (rc_max_attempts cfg)" "nth_call fn s j = (s', r)" "length atts = j"
      "\<forall>i < j. retry_failure retryable (snd (nth_call fn s i))" "tot = slept_for atts" "sleep_capped cfg atts"
      "retry_failure retryable r \<longrightarrow> j = nat (rc_max_attempts cfg) - 1 \<or> (\<exists>e. r = Inl e \<and> over_cap cfg after rand atts e)"
    by (auto simp: sleep_capped_def)
  then show ?thesis
    unfolding over_cap_def next_delay_ms_def draws_of_def sleep_capped_def slept_for_def by (intro exI [of _ j]) auto
qed

definition demo_retry_config :: retry_config where
  "demo_retry_config = \<lparr>rc_max_attempts = 3, rc_base_delay_ms = 100, rc_max_delay_ms = 1000, rc_max_total_sleep = None\<rparr>"

definition demo_fn :: "py_error list \<Rightarrow> py_error list \<times> unit result" where
  "demo_fn q = (case q of [] \<Rightarrow> ([], Inr ()) | e # es \<Rightarrow> (es, Inl e))"

theorem retry_with_backoff_spec_witness:
  "\<exists>atts tot. retry_with_backoff demo_retry_config (\<lambda>e. e = NetworkTimeout) (\<lambda>_. None) (\<lambda>_. 1/2) demo_fn
      [NetworkTimeout, NetworkTimeout] = (Inr (), atts, tot, []) \<and> length atts = 2"
proof -
  let ?run = "retry_with_backoff demo_retry_config (\<lambda>e. e = NetworkTimeout) (\<lambda>_. None) (\<lambda>_. 1/2) demo_fn
      [NetworkTimeout, NetworkTimeout]"
  obtain r atts tot s' where run: "?run = (r, atts, tot, s')" by (metis prod_cases4)
  have "fst ?run = Inr () \<and> snd (snd (snd ?run)) = []"
    by (simp add: retry_with_backoff_def demo_retry_config_def demo_fn_def numeral_3_eq_3 Let_def
        compute_delay_ms_def)
  then have r: "r = Inr ()" "s' = []" using run by simp_all
  obtain j where j: "j < 3" "nth_call demo_fn [NetworkTimeout, NetworkTimeout] j = (s', r)" "length atts = j"
    using retry_with_backoff_spec [OF run] by (auto simp: demo_retry_config_def)
  then have "j = 2" using r by (cases j rule: nat.exhaust) (auto simp: demo_fn_def less_Suc_eq numeral_3_eq_3 numeral_2_eq_2)
  then show ?thesis using run r j by auto
qed

subsection \<open>The delays\<close>

lemma int_of_float_bounds: "0 \<le> x \<Longrightarrow> x \<le> of_int n / 2 \<Longrightarrow> 0 \<le> int_of_float x \<and> 2 * int_of_float x \<le> n"
proof -
  assume x: "0 \<le> x" "x \<le> of_int n / 2"
  have "of_int (2 * \<lfloor>x\<rfloor>) \<le> 2 * x" using of_int_floor_le [of x] by simp
  also have "\<dots> \<le> of_int n" using x by simp
  finally show ?thesis using x by (simp add: int_of_float_def)
qed

lemma frnd_half_int: "\<bar>n\<bar> < 2 ^ 53 \<Longrightarrow> frnd (of_int n / 2) = of_int n / 2"
  using rnd_sig_exact [of 2 53 "of_int n / 2" n "- 1"]
  by (simp add: frnd_def bpow_def of_int_abs [symmetric] del: of_int_abs) 

lemma frnd_int: "\<bar>n\<bar> < 2 ^ 53 \<Longrightarrow> frnd (of_int n) = of_int n"
  using rnd_sig_exact_int [of 2 53 n] by (simp add: frnd_def)

text \<open>A delay is never negative; a server's \<open>Retry-After\<close> is cut at \<open>max_delay_ms\<close>, while the jitter
  of the exponential backoff is applied after the cut and can exceed it by half.\<close>

theorem compute_delay_bounds:
  assumes "compute_delay_ms attempt base max_delay r ra = (d, used)"
    and "0 \<le> base" "0 \<le> max_delay" "max_delay < 2 ^ 51" "0 \<le> r" "r < 1" "\<forall>x. ra = Some x \<longrightarrow> 0 \<le> x"
  shows "0 \<le> d \<and> 2 * d \<le> 3 * max_delay \<and> (ra \<noteq> None \<longrightarrow> d \<le> max_delay)"
proof (cases ra)
  case (Some x)
  have "0 \<le> fmul x 1000" using assms(7) Some by (simp add: fmul_def flt.rnd_nonneg)
  then have "0 \<le> int_of_float (fmul x 1000)" by (simp add: int_of_float_def)
  then show ?thesis using assms Some by (auto simp: compute_delay_ms_def min_def)
next
  case None
  define raw where "raw = min max_delay (base * 2 ^ nat (max 0 (attempt - 1)))"
  have raw: "0 \<le> raw" "raw \<le> max_delay" using assms by (auto simp: raw_def)
  have t: "0 \<le> fadd (1 / 2) r" "fadd (1 / 2) r \<le> 3 / 2"
    using assms frnd_half_int [of 3] flt.rnd_mono [of "1 / 2 + r" "3 / 2"]
    by (auto simp: fadd_def intro!: flt.rnd_nonneg)
  have f: "frnd (of_int raw) = of_int raw" using raw assms(4) by (intro frnd_int) simp
  have "frnd (of_int (3 * raw) / 2) = of_int (3 * raw) / 2"
    using raw assms(4) by (intro frnd_half_int) simp
  moreover have "of_int raw * fadd (1 / 2) r \<le> of_int raw * (3 / 2)"
    using t raw by (intro mult_left_mono) auto
  ultimately have "fmul (of_int raw) (fadd (1 / 2) r) \<le> of_int (3 * raw) / 2"
    unfolding fmul_def by (intro flt.rnd_le_exact) simp_all
  moreover have "0 \<le> fmul (of_int raw) (fadd (1 / 2) r)"
    using t raw by (simp add: fmul_def flt.rnd_nonneg)
  ultimately have "0 \<le> int_of_float (fmul (of_int raw) (fadd (1 / 2) r))
      \<and> 2 * int_of_float (fmul (of_int raw) (fadd (1 / 2) r)) \<le> 3 * raw"
    by (intro int_of_float_bounds)
  moreover have "d = int_of_float (fmul (of_int raw) (fadd (1 / 2) r))"
    using assms(1) None f by (simp add: compute_delay_ms_def Let_def raw_def)
  ultimately show ?thesis using None raw by auto
qed

lemma demo_delay: "compute_delay_ms 1 1000 1000 (3 / 4) None = (1250, False)"
  by code_simp

text \<open>The witness takes a draw of 0.75: the delay of 1250 ms exceeds \<open>max_delay_ms = 1000\<close>.\<close>

theorem compute_delay_bounds_witness:
  "\<exists>d. compute_delay_ms 1 1000 1000 (3 / 4) None = (d, False) \<and> 1000 < d \<and> 0 \<le> d \<and> 2 * d \<le> 3 * 1000"
  using compute_delay_bounds [OF demo_delay] demo_delay by simp

end
