(* ===== verification/Oms.thy ===== *)
theory Oms
  imports Retry Symbols Py_Decimal
begin

text \<open>
  The stage 7 order management service: \<open>src/src/btcbot/domain/order_intent.py\<close>,
  \<open>domain/order_state.py\<close>, \<open>services/oms_service.py\<close> with its market simulator, and the tables
  \<open>stage7_orders\<close>, \<open>stage7_order_events\<close> and \<open>stage7_idempotency_keys\<close> of
  \<open>services/state_store.py\<close>.

  An event type is a datatype instead of a string; \<open>event_type_name\<close> gives the string, which
  enters the event identifiers.  The hash functions are parameters of the service
  (\<open>oms_env\<close>), as are the clock of the rate limiter and the random numbers of the backoff.

  Idempotency keys are registered in transactions of their own while the loop runs; orders and
  events are written in one transaction at its end.  An exception inside the loop therefore
  leaves the keys and loses the orders and events, which the model keeps apart: every
  operation returns the state together with its outcome.
\<close>

subsection \<open>Definitions: data\<close>

datatype order_status = PLANNED | SUBMITTED | ACKED | PARTIALLY_FILLED | FILLED | CANCELED | REJECTED

datatype event_type = Ev_SUBMIT_REQUESTED | Ev_ACKED | Ev_REJECTED | Ev_CANCELED | Ev_PARTIAL_FILL | Ev_FILLED
  | Ev_DUPLICATE_IGNORED | Ev_THROTTLED | Ev_IDEMPOTENCY_CONFLICT | Ev_RETRY_SCHEDULED | Ev_RETRY_GIVEUP

fun event_type_name :: "event_type \<Rightarrow> string" where
  "event_type_name Ev_SUBMIT_REQUESTED = ''SUBMIT_REQUESTED''"
| "event_type_name Ev_ACKED = ''ACKED''"
| "event_type_name Ev_REJECTED = ''REJECTED''"
| "event_type_name Ev_CANCELED = ''CANCELED''"
| "event_type_name Ev_PARTIAL_FILL = ''PARTIAL_FILL''"
| "event_type_name Ev_FILLED = ''FILLED''"
| "event_type_name Ev_DUPLICATE_IGNORED = ''DUPLICATE_IGNORED''"
| "event_type_name Ev_THROTTLED = ''THROTTLED''"
| "event_type_name Ev_IDEMPOTENCY_CONFLICT = ''IDEMPOTENCY_CONFLICT''"
| "event_type_name Ev_RETRY_SCHEDULED = ''RETRY_SCHEDULED''"
| "event_type_name Ev_RETRY_GIVEUP = ''RETRY_GIVEUP''"

record order_intent =
  oi_cycle_id :: string
  oi_symbol :: string
  oi_side :: string
  oi_order_type :: string
  oi_price_try :: dec
  oi_qty :: dec
  oi_notional_try :: dec
  oi_client_order_id :: string
  oi_reason :: string
  oi_constraints :: "(string, string) dict"
  oi_skipped :: bool
  oi_skip_reason :: "string option"

record stage7_order =
  so_order_id :: string
  so_client_order_id :: string
  so_cycle_id :: string
  so_symbol :: string
  so_side :: string
  so_order_type :: string
  so_price_try :: dec
  so_qty :: dec
  so_filled_qty :: dec
  so_avg_fill_price_try :: "dec option"
  so_status :: order_status
  so_last_update :: instant
  so_intent_hash :: string

datatype payload_value = PStr string | PInt int | PDec dec | PError py_error | PAfter instant rat

record order_event =
  oe_event_id :: string
  oe_ts :: instant
  oe_client_order_id :: string
  oe_order_id :: string
  oe_type :: event_type
  oe_payload :: "(string, payload_value) dict"
  oe_cycle_id :: string

record oms_settings =
  st_sim_reject_prob_bps :: dec
  st_rate_limit_rps :: rat
  st_rate_limit_burst :: int
  st_retry_max_attempts :: int
  st_retry_base_delay_ms :: int
  st_retry_max_delay_ms :: int
  st_slippage_bps :: dec

record oms_env =
  en_short_hash :: "string \<Rightarrow> string"
  en_intent_hash :: "order_intent \<Rightarrow> string"
  en_clock :: clock
  en_rand :: "nat \<Rightarrow> rat"

definition make_order_id :: "oms_env \<Rightarrow> string \<Rightarrow> string" where
  "make_order_id env cid = ''s7o:'' @ en_short_hash env cid"

definition make_event_id :: "oms_env \<Rightarrow> string \<Rightarrow> nat \<Rightarrow> event_type \<Rightarrow> string" where
  "make_event_id env cid n ty =
     ''s7e:'' @ en_short_hash env (cid @ '':'' @ str_nat n @ '':'' @ event_type_name ty)"

subsection \<open>Definitions: the store\<close>

record s7_store =
  s7_orders :: "stage7_order list"
  s7_events :: "order_event list"
  s7_keys :: "(string, string) dict"

definition get_stage7_order_by_client_id :: "s7_store \<Rightarrow> string \<Rightarrow> stage7_order option" where
  "get_stage7_order_by_client_id s cid = find (\<lambda>o'. so_client_order_id o' = cid) (s7_orders s)"

definition get_stage7_order_events_by_client_id :: "s7_store \<Rightarrow> string \<Rightarrow> order_event list" where
  "get_stage7_order_events_by_client_id s cid =
     sort_key (\<lambda>e. (oe_ts e, oe_event_id e)) (filter (\<lambda>e. oe_client_order_id e = cid) (s7_events s))"

text \<open>The columns that \<open>ON CONFLICT(client_order_id) DO UPDATE\<close> sets: all but the two identifiers.\<close>

fun upsert_stage7_order :: "stage7_order list \<Rightarrow> stage7_order \<Rightarrow> stage7_order list result" where
  "upsert_stage7_order os o' =
     (if list_ex (\<lambda>r. so_client_order_id r = so_client_order_id o') os then
        Inr (map (\<lambda>r. if so_client_order_id r = so_client_order_id o'
                      then o'\<lparr>so_order_id := so_order_id r\<rparr> else r) os)
      else if list_ex (\<lambda>r. so_order_id r = so_order_id o') os then Inl (IntegrityError ''stage7_orders.order_id'')
      else Inr (os @ [o']))"

definition upsert_stage7_orders :: "stage7_order list \<Rightarrow> stage7_order list \<Rightarrow> stage7_order list result" where
  "upsert_stage7_orders os new = rfold upsert_stage7_order os new"

definition append_stage7_order_event :: "order_event list \<Rightarrow> order_event \<Rightarrow> order_event list" where
  "append_stage7_order_event es e =
     (if list_ex (\<lambda>r. oe_event_id r = oe_event_id e) es then es else es @ [e])"

definition append_stage7_order_events :: "order_event list \<Rightarrow> order_event list \<Rightarrow> order_event list" where
  "append_stage7_order_events es new = fold (\<lambda>e acc. append_stage7_order_event acc e) new es"

definition try_register_idempotency_key :: "s7_store \<Rightarrow> string \<Rightarrow> string \<Rightarrow> (bool \<times> s7_store) result" where
  "try_register_idempotency_key s key payload_hash =
     (case map_of (s7_keys s) key of
        Some h \<Rightarrow> if h \<noteq> payload_hash then Inl (IdempotencyConflictError key) else Inr (False, s)
      | None \<Rightarrow> Inr (True, s\<lparr>s7_keys := AList.update key payload_hash (s7_keys s)\<rparr>))"

definition terminal :: "order_status \<Rightarrow> bool" where
  "terminal x = (x \<in> set [FILLED, CANCELED, REJECTED])"

definition load_non_terminal_orders :: "s7_store \<Rightarrow> stage7_order list" where
  "load_non_terminal_orders s =
     sort_key (\<lambda>o'. (so_last_update o', so_client_order_id o'))
       (filter (\<lambda>o'. \<not> terminal (so_status o')) (s7_orders s))"

subsection \<open>Definitions: the market simulator\<close>

record market_sim =
  ms_mark_prices :: "(string, dec) dict"
  ms_failures :: "(string, string list) dict"

definition Stage7MarketSimulator :: "(string, dec) dict \<Rightarrow> (string, string list) dict \<Rightarrow> market_sim" where
  "Stage7MarketSimulator marks failures =
     \<lparr>ms_mark_prices = dict_comp normalize_symbol (\<lambda>v. v) marks, ms_failures = failures\<rparr>"

text \<open>\<open>int(s, 16)\<close>: white space, a sign, a prefix \<open>0x\<close> and single underscores are accepted.\<close>

definition hex_digit :: "char \<Rightarrow> int option" where
  "hex_digit c = (let n = (of_char c :: int) in
     if 48 \<le> n \<and> n \<le> 57 then Some (n - 48)
     else if 97 \<le> n \<and> n \<le> 102 then Some (n - 87)
     else if 65 \<le> n \<and> n \<le> 70 then Some (n - 55) else None)"

fun hex_digits :: "bool \<Rightarrow> int \<Rightarrow> string \<Rightarrow> int option" where
  "hex_digits prev acc [] = (if prev then Some acc else None)"
| "hex_digits prev acc (c # cs) =
     (if c = CHR ''_'' then if prev then hex_digits False acc cs else None
      else case hex_digit c of Some d \<Rightarrow> hex_digits True (16 * acc + d) cs | None \<Rightarrow> None)"

definition hex_prefix :: "string \<Rightarrow> string" where
  "hex_prefix t = (if starts_with t ''0x'' \<or> starts_with t ''0X''
     then let u = drop 2 t in if starts_with u ''_'' then drop 1 u else u else t)"

definition int_base16 :: "string \<Rightarrow> int result" where
  "int_base16 s =
     (let t = str_strip s;
          neg = starts_with t ''-'';
          t' = (if neg \<or> starts_with t ''+'' then drop 1 t else t)
      in case hex_digits False 0 (hex_prefix t') of
           Some n \<Rightarrow> Inr (if neg then - n else n)
         | None \<Rightarrow> Inl (ValueError ''invalid literal for int() with base 16''))"

definition should_reject :: "order_intent \<Rightarrow> oms_settings \<Rightarrow> bool result" where
  "should_reject intent st =
     (let reject_bps = st_sim_reject_prob_bps st; cid = oi_client_order_id intent in
      if oi_qty intent \<le> 0 \<or> oi_price_try intent \<le> 0 then Inr True
      else if reject_bps \<le> 0 then Inr False
      else rbind (if cid \<noteq> [] then rbind (int_base16 (drop (length cid - 4) cid)) (\<lambda>n. Inr (n mod 10000)) else Inr 0)
             (\<lambda>bucket. Inr (bucket < trunc_int reject_bps)))"

definition maybe_raise_submit_error :: "string \<Rightarrow> market_sim \<Rightarrow> market_sim \<times> unit result" where
  "maybe_raise_submit_error cid sim =
     (case map_of (ms_failures sim) cid of
        None \<Rightarrow> (sim, Inr ())
      | Some [] \<Rightarrow> (sim, Inr ())
      | Some (x # queue) \<Rightarrow>
          (let token = str_upper (str_strip x); sim' = sim\<lparr>ms_failures := AList.update cid queue (ms_failures sim)\<rparr>
           in (sim', if token = ''RATE_LIMIT'' then Inl RateLimitError
                     else if token = ''TIMEOUT'' then Inl NetworkTimeout
                     else if token = ''UNAVAILABLE'' then Inl TemporaryUnavailable
                     else if token = ''NON_RETRYABLE'' then Inl NonRetryableOMSAdapterError
                     else Inr ())))"

definition fill_slices :: "market_sim \<Rightarrow> order_intent \<Rightarrow> oms_settings \<Rightarrow> (dec \<times> dec) list result" where
  "fill_slices sim intent st =
     (let symb = normalize_symbol (oi_symbol intent);
          baseline = dict_get (ms_mark_prices sim) symb (oi_price_try intent);
          sign = (if str_upper (oi_side intent) = ''BUY'' then 1 else - 1);
          applied = dmul baseline (dadd 1 (dmul sign (ddiv (st_slippage_bps st) 10000)));
          cid = oi_client_order_id intent; qty = oi_qty intent
      in rbind (if cid \<noteq> [] then rbind (int_base16 [last cid]) (\<lambda>n. Inr (n mod 2 = 0)) else Inr False)
        (\<lambda>partial_candidate.
          if partial_candidate \<and> 1 / 10000 < qty then
            rbind (dquantize ROUND_HALF_EVEN 8 (dmul qty (6 / 10))) (\<lambda>x.
              let first = max 0 (min x qty); second = dsub qty first
              in if 0 < first \<and> 0 < second then Inr [(first, applied), (second, applied)]
                 else Inr [(qty, applied)])
          else Inr [(qty, applied)]))"

subsection \<open>Definitions: transitions\<close>

fun allowed_transitions :: "order_status \<Rightarrow> order_status list" where
  "allowed_transitions PLANNED = [SUBMITTED, CANCELED, REJECTED]"
| "allowed_transitions SUBMITTED = [ACKED, CANCELED, REJECTED]"
| "allowed_transitions ACKED = [PARTIALLY_FILLED, FILLED, CANCELED, REJECTED]"
| "allowed_transitions PARTIALLY_FILLED = [PARTIALLY_FILLED, FILLED, CANCELED]"
| "allowed_transitions FILLED = []"
| "allowed_transitions CANCELED = []"
| "allowed_transitions REJECTED = []"

fun default_target :: "event_type \<Rightarrow> order_status \<Rightarrow> order_status" where
  "default_target Ev_SUBMIT_REQUESTED old = SUBMITTED"
| "default_target Ev_ACKED old = ACKED"
| "default_target Ev_REJECTED old = REJECTED"
| "default_target Ev_CANCELED old = CANCELED"
| "default_target ty old = old"

text \<open>The local variables of one turn of the loop.\<close>

record oms_local =
  ol_order :: stage7_order
  ol_events :: "order_event list"
  ol_types :: "event_type list"
  ol_seq :: nat

definition new_event :: "oms_env \<Rightarrow> instant \<Rightarrow> event_type \<Rightarrow> (string, payload_value) dict \<Rightarrow> oms_local \<Rightarrow> order_event" where
  "new_event env now ty payload loc =
     (let order = ol_order loc in
      \<lparr>oe_event_id = make_event_id env (so_client_order_id order) (Suc (ol_seq loc)) ty, oe_ts = now,
       oe_client_order_id = so_client_order_id order, oe_order_id = so_order_id order, oe_type = ty,
       oe_payload = payload, oe_cycle_id = so_cycle_id order\<rparr>)"

definition append_event :: "oms_env \<Rightarrow> instant \<Rightarrow> event_type \<Rightarrow> (string, payload_value) dict \<Rightarrow> oms_local \<Rightarrow> oms_local" where
  "append_event env now ty payload loc =
     loc\<lparr>ol_order := (ol_order loc)\<lparr>so_last_update := now\<rparr>,
         ol_events := ol_events loc @ [new_event env now ty payload loc], ol_seq := Suc (ol_seq loc)\<rparr>"

definition average_fill :: "stage7_order \<Rightarrow> dec \<Rightarrow> dec option \<Rightarrow> dec option" where
  "average_fill order fill_qty fill_price =
     (case fill_price of
        None \<Rightarrow> so_avg_fill_price_try order
      | Some p \<Rightarrow>
          let new_filled = dadd (so_filled_qty order) fill_qty;
              avg = (case so_avg_fill_price_try order of None \<Rightarrow> 0 | Some a \<Rightarrow> a);
              new_notional = dadd (dmul avg (so_filled_qty order)) (dmul p fill_qty)
          in if 0 < fill_qty \<and> 0 < new_filled then Some (ddiv new_notional new_filled)
             else so_avg_fill_price_try order)"

text \<open>
  \<open>_transition_once\<close> together with the appending of the event it returns.  \<open>target\<close> is the new
  status; the callers that also extend \<open>existing_event_types\<close> are \<open>transition_note\<close>.
\<close>

definition transition_allowed :: "event_type \<Rightarrow> order_status \<Rightarrow> oms_local \<Rightarrow> bool" where
  "transition_allowed ty target loc =
     (ty \<notin> set (ol_types loc) \<and>
      (target = so_status (ol_order loc) \<or> target \<in> set (allowed_transitions (so_status (ol_order loc)))))"

definition transition_once ::
  "oms_env \<Rightarrow> instant \<Rightarrow> event_type \<Rightarrow> (string, payload_value) dict \<Rightarrow> dec \<Rightarrow> dec option \<Rightarrow> order_status option \<Rightarrow>
   oms_local \<Rightarrow> oms_local" where
  "transition_once env now ty payload fill_qty fill_price target loc =
     (let order = ol_order loc;
          status = (case target of Some x \<Rightarrow> x | None \<Rightarrow> default_target ty (so_status order))
      in if transition_allowed ty status loc then
           loc\<lparr>ol_order := order\<lparr>so_status := status, so_filled_qty := dadd (so_filled_qty order) fill_qty,
                 so_avg_fill_price_try := average_fill order fill_qty fill_price, so_last_update := now\<rparr>,
               ol_events := ol_events loc @ [new_event env now ty payload loc], ol_seq := Suc (ol_seq loc)\<rparr>
         else loc)"

definition transition_note ::
  "oms_env \<Rightarrow> instant \<Rightarrow> event_type \<Rightarrow> (string, payload_value) dict \<Rightarrow> dec \<Rightarrow> dec option \<Rightarrow> order_status option \<Rightarrow>
   oms_local \<Rightarrow> oms_local" where
  "transition_note env now ty payload fill_qty fill_price target loc =
     (let loc' = transition_once env now ty payload fill_qty fill_price target loc
      in if length (ol_events loc') = length (ol_events loc) then loc'
         else loc'\<lparr>ol_types := ol_types loc' @ [ty]\<rparr>)"

subsection \<open>Definitions: the service\<close>

record oms_run =
  or_store :: s7_store
  or_limiter :: limiter
  or_sim :: market_sim
  or_orders :: "stage7_order list"
  or_events :: "order_event list"

definition finish :: "oms_run \<Rightarrow> oms_local \<Rightarrow> oms_run" where
  "finish run loc = run\<lparr>or_orders := or_orders run @ [ol_order loc], or_events := ol_events loc\<rparr>"

definition idempotency_key :: "string \<Rightarrow> string" where
  "idempotency_key cid = ''submit:'' @ cid"

definition planned_order :: "oms_env \<Rightarrow> string \<Rightarrow> instant \<Rightarrow> order_intent \<Rightarrow> stage7_order" where
  "planned_order env cycle_id now intent =
     \<lparr>so_order_id = make_order_id env (oi_client_order_id intent),
      so_client_order_id = oi_client_order_id intent, so_cycle_id = cycle_id,
      so_symbol = normalize_symbol (oi_symbol intent), so_side = oi_side intent,
      so_order_type = oi_order_type intent, so_price_try = oi_price_try intent, so_qty = oi_qty intent,
      so_filled_qty = 0, so_avg_fill_price_try = None, so_status = PLANNED, so_last_update = now,
      so_intent_hash = en_intent_hash env intent\<rparr>"

definition initial_local :: "oms_env \<Rightarrow> string \<Rightarrow> instant \<Rightarrow> oms_run \<Rightarrow> order_intent \<Rightarrow> oms_local" where
  "initial_local env cycle_id now run intent =
     (let cid = oi_client_order_id intent;
          existing_events = get_stage7_order_events_by_client_id (or_store run) cid
      in \<lparr>ol_order = (case get_stage7_order_by_client_id (or_store run) cid of
             Some o' \<Rightarrow> o' | None \<Rightarrow> planned_order env cycle_id now intent),
          ol_events = or_events run, ol_types = map oe_type existing_events, ol_seq = length existing_events\<rparr>)"

definition append_retries :: "oms_env \<Rightarrow> instant \<Rightarrow> retry_attempt list \<Rightarrow> oms_local \<Rightarrow> oms_local" where
  "append_retries env now atts loc =
     fold (\<lambda>a. append_event env now Ev_RETRY_SCHEDULED
       [(''attempt'', PInt (ra_attempt a)), (''delay_ms'', PInt (ra_delay_ms a)), (''error_type'', PError (ra_error a))])
       atts loc"

fun transient_error :: "py_error \<Rightarrow> bool" where
  "transient_error NetworkTimeout = True"
| "transient_error RateLimitError = True"
| "transient_error TemporaryUnavailable = True"
| "transient_error e = False"

definition retry_config_of :: "oms_settings \<Rightarrow> retry_config" where
  "retry_config_of st = \<lparr>rc_max_attempts = st_retry_max_attempts st, rc_base_delay_ms = st_retry_base_delay_ms st,
     rc_max_delay_ms = st_retry_max_delay_ms st, rc_max_total_sleep = None\<rparr>"

text \<open>The fills of an accepted order: an optional partial fill, then the rest.\<close>

definition apply_slices :: "oms_env \<Rightarrow> instant \<Rightarrow> (dec \<times> dec) list \<Rightarrow> oms_local \<Rightarrow> oms_local" where
  "apply_slices env now slices loc =
     (let loc1 = (if 1 < length slices then
            let (q, p) = hd slices in
            transition_note env now Ev_PARTIAL_FILL [(''fill_qty'', PDec q), (''fill_price_try'', PDec p)]
              q (Some p) (Some PARTIALLY_FILLED) loc
          else loc);
          total_fill_qty = dsum (map fst slices); fill_price = snd (last slices)
      in transition_once env now Ev_FILLED
           [(''filled_qty'', PDec total_fill_qty), (''avg_fill_price_try'', PDec fill_price)]
           (dsub total_fill_qty (so_filled_qty (ol_order loc1))) (Some fill_price) (Some FILLED) loc1)"

text \<open>What follows a successful submission.\<close>

definition after_submit ::
  "oms_env \<Rightarrow> oms_settings \<Rightarrow> instant \<Rightarrow> order_intent \<Rightarrow> oms_run \<Rightarrow> oms_local \<Rightarrow> oms_run \<times> unit result" where
  "after_submit env st now intent run loc =
     (let payload = [(''symbol'', PStr (so_symbol (ol_order loc))), (''side'', PStr (so_side (ol_order loc)))];
          loc1 = transition_note env now Ev_SUBMIT_REQUESTED payload 0 None None loc;
          loc2 = transition_note env now Ev_ACKED payload 0 None None loc1
      in case should_reject intent st of
           Inl e \<Rightarrow> (run, Inl e)
         | Inr True \<Rightarrow> (finish run (transition_once env now Ev_REJECTED [(''reason'', PStr ''sim_reject'')] 0 None None loc2), Inr ())
         | Inr False \<Rightarrow>
             (case fill_slices (or_sim run) intent st of
                Inl e \<Rightarrow> (run, Inl e)
              | Inr slices \<Rightarrow> (finish run (apply_slices env now slices loc2), Inr ())))"

text \<open>The \<open>except\<close> and the normal exit of the retried submission.\<close>

fun submit_outcome ::
  "oms_env \<Rightarrow> oms_settings \<Rightarrow> instant \<Rightarrow> order_intent \<Rightarrow> oms_run \<Rightarrow> oms_local \<Rightarrow>
   unit result \<times> retry_attempt list \<times> rat \<times> market_sim \<Rightarrow> oms_run \<times> unit result" where
  "submit_outcome env st now intent run loc (Inl e, atts, slept, sim') =
     (if transient_error e then
        (finish (run\<lparr>or_sim := sim'\<rparr>) (append_event env now Ev_RETRY_GIVEUP [(''reason'', PStr ''transient_failure_exhausted'')]
           (append_retries env now atts loc)), Inr ())
      else (run\<lparr>or_sim := sim'\<rparr>, Inl e))"
| "submit_outcome env st now intent run loc (Inr u, atts, slept, sim') =
     after_submit env st now intent (run\<lparr>or_sim := sim'\<rparr>) (append_retries env now atts loc)"

definition submit_intent ::
  "oms_env \<Rightarrow> oms_settings \<Rightarrow> instant \<Rightarrow> order_intent \<Rightarrow> oms_run \<Rightarrow> oms_local \<Rightarrow> oms_run \<times> unit result" where
  "submit_intent env st now intent run loc =
     submit_outcome env st now intent run loc
       (retry_with_backoff (retry_config_of st) transient_error (\<lambda>_. None) (en_rand env)
          (maybe_raise_submit_error (oi_client_order_id intent)) (or_sim run))"

definition register_and_submit ::
  "oms_env \<Rightarrow> oms_settings \<Rightarrow> instant \<Rightarrow> order_intent \<Rightarrow> oms_run \<Rightarrow> oms_local \<Rightarrow> oms_run \<times> unit result" where
  "register_and_submit env st now intent run loc =
     (let key = idempotency_key (oi_client_order_id intent) in
      case try_register_idempotency_key (or_store run) key (en_intent_hash env intent) of
        Inl _ \<Rightarrow>
          (finish run (transition_once env now Ev_REJECTED
              [(''reason'', PStr ''idempotency_conflict''), (''key'', PStr key)] 0 None None
              (append_event env now Ev_IDEMPOTENCY_CONFLICT [(''key'', PStr key)] loc)), Inr ())
      | Inr (registered, store') \<Rightarrow>
          if registered then submit_intent env st now intent (run\<lparr>or_store := store'\<rparr>) loc
          else (finish run (append_event env now Ev_DUPLICATE_IGNORED [(''key'', PStr key)] loc), Inr ()))"

definition process_intent ::
  "oms_env \<Rightarrow> oms_settings \<Rightarrow> string \<Rightarrow> instant \<Rightarrow> string list \<Rightarrow> oms_run \<Rightarrow> order_intent \<Rightarrow> oms_run \<times> unit result" where
  "process_intent env st cycle_id now cancels run intent =
     (if oi_skipped intent then (run, Inr ())
      else
        let cid = oi_client_order_id intent; loc = initial_local env cycle_id now run intent in
        if oi_qty intent \<le> 0 \<or> oi_price_try intent \<le> 0 \<or> oi_notional_try intent \<le> 0 then
          (finish run (transition_once env now Ev_REJECTED [(''reason'', PStr ''invalid_price_or_qty'')] 0 None None loc), Inr ())
        else if cid \<in> set cancels then
          (finish run (transition_once env now Ev_CANCELED [(''reason'', PStr ''cancel_requested'')] 0 None None loc), Inr ())
        else if terminal (so_status (ol_order loc)) then
          (finish run (append_event env now Ev_DUPLICATE_IGNORED
             [(''key'', PStr (idempotency_key cid)), (''reason'', PStr ''terminal_order'')] loc), Inr ())
        else
          let (granted, lim1) = consume (en_clock env) (or_limiter run) ''default'' 1 in
          if \<not> granted then
            let (secs, lim2) = seconds_until_available (en_clock env) lim1 ''default'' 1 in
            (finish (run\<lparr>or_limiter := lim2\<rparr>)
               (append_event env now Ev_THROTTLED [(''next_eligible_ts'', PAfter now secs)] loc), Inr ())
          else register_and_submit env st now intent (run\<lparr>or_limiter := lim1\<rparr>) loc)"

fun process_loop ::
  "oms_env \<Rightarrow> oms_settings \<Rightarrow> string \<Rightarrow> instant \<Rightarrow> string list \<Rightarrow> oms_run \<Rightarrow> order_intent list \<Rightarrow> oms_run \<times> unit result" where
  "process_loop env st cycle_id now cancels run [] = (run, Inr ())"
| "process_loop env st cycle_id now cancels run (x # xs) =
     (case process_intent env st cycle_id now cancels run x of
        (run', Inl e) \<Rightarrow> (run', Inl e)
      | (run', Inr _) \<Rightarrow> process_loop env st cycle_id now cancels run' xs)"

definition default_limiter :: "oms_env \<Rightarrow> oms_settings \<Rightarrow> limiter result" where
  "default_limiter env st = TokenBucketRateLimiter (en_clock env)
     [(''default'', \<lparr>eb_name = ''default'', eb_rps = st_rate_limit_rps st, eb_burst = st_rate_limit_burst st\<rparr>)]"

text \<open>
  The state the service works on: the tables, the limiter given to the constructor if there is
  one, and the simulator.
\<close>

record oms_state =
  os_store :: s7_store
  os_limiter :: "limiter option"
  os_sim :: market_sim

definition start_run :: "oms_state \<Rightarrow> limiter \<Rightarrow> oms_run" where
  "start_run s rl = \<lparr>or_store = os_store s, or_limiter = rl, or_sim = os_sim s, or_orders = [], or_events = []\<rparr>"

definition end_run :: "oms_state \<Rightarrow> oms_run \<Rightarrow> oms_state" where
  "end_run s run = \<lparr>os_store = or_store run,
     os_limiter = (case os_limiter s of None \<Rightarrow> None | Some _ \<Rightarrow> Some (or_limiter run)), os_sim = or_sim run\<rparr>"

definition process_intents ::
  "oms_env \<Rightarrow> oms_settings \<Rightarrow> string \<Rightarrow> instant \<Rightarrow> string list \<Rightarrow> oms_state \<Rightarrow> order_intent list \<Rightarrow>
   oms_state \<times> (stage7_order list \<times> order_event list) result" where
  "process_intents env st cycle_id now cancels s intents =
     (case (case os_limiter s of Some rl \<Rightarrow> Inr rl | None \<Rightarrow> default_limiter env st) of
        Inl e \<Rightarrow> (s, Inl e)
      | Inr rl \<Rightarrow>
          (case process_loop env st cycle_id now cancels (start_run s rl) (sort_key oi_client_order_id intents) of
             (run, Inl e) \<Rightarrow> (end_run s run, Inl e)
           | (run, Inr _) \<Rightarrow>
               (case upsert_stage7_orders (s7_orders (or_store run)) (or_orders run) of
                  Inl e \<Rightarrow> (end_run s run, Inl e)
                | Inr os \<Rightarrow>
                    (end_run s (run\<lparr>or_store := (or_store run)\<lparr>s7_orders := os,
                       s7_events := append_stage7_order_events (s7_events (or_store run)) (or_events run)\<rparr>\<rparr>),
                     Inr (or_orders run, or_events run)))))"

definition reconcile_intent :: "string \<Rightarrow> stage7_order \<Rightarrow> order_intent" where
  "reconcile_intent cycle_id o' =
     \<lparr>oi_cycle_id = cycle_id, oi_symbol = so_symbol o', oi_side = so_side o', oi_order_type = so_order_type o',
      oi_price_try = so_price_try o', oi_qty = so_qty o', oi_notional_try = dmul (so_price_try o') (so_qty o'),
      oi_client_order_id = so_client_order_id o', oi_reason = ''reconcile'', oi_constraints = [],
      oi_skipped = False, oi_skip_reason = None\<rparr>"

definition reconcile_open_orders ::
  "oms_env \<Rightarrow> oms_settings \<Rightarrow> string \<Rightarrow> instant \<Rightarrow> oms_state \<Rightarrow>
   oms_state \<times> (stage7_order list \<times> order_event list) result" where
  "reconcile_open_orders env st cycle_id now s =
     process_intents env st cycle_id now [] s
       (map (reconcile_intent cycle_id) (load_non_terminal_orders (os_store s)))"

end
