(* ===== verification/Oms_Props.thy ===== *)
theory Oms_Props
  imports Oms Ledger
begin

text \<open>
  Properties of the order management service: stored orders move only along the allowed
  transitions and terminal orders stay as they are, no client order is submitted twice, and
  what a fresh intent becomes.  Two concrete runs show where the bookkeeping of a batch is
  weaker than one would wish: a repeated client order id in one batch, and an exception in the
  middle of a batch.
\<close>

subsection \<open>The status machine\<close>

inductive status_path :: "order_status \<Rightarrow> order_status \<Rightarrow> bool" where
  status_path_refl: "status_path a a"
| status_path_step: "status_path a b \<Longrightarrow> c \<in> set (allowed_transitions b) \<Longrightarrow> status_path a c"

lemma status_path_trans: "status_path b c \<Longrightarrow> status_path a b \<Longrightarrow> status_path a c"
  by (induction rule: status_path.induct) (auto intro: status_path.intros)

lemma terminal_allowed: "terminal a \<longleftrightarrow> allowed_transitions a = []"
  by (cases a) (auto simp: terminal_def)

lemma status_path_terminal: "status_path a b \<Longrightarrow> terminal a \<Longrightarrow> b = a"
  by (induction rule: status_path.induct) (auto simp: terminal_allowed)

text \<open>The terms of an order: what no operation of the service changes.\<close>

definition order_terms :: "stage7_order \<Rightarrow> string \<times> string \<times> string \<times> string \<times> string \<times> dec \<times> dec \<times> string" where
  "order_terms o' = (so_client_order_id o', so_cycle_id o', so_symbol o', so_side o', so_order_type o',
     so_price_try o', so_qty o', so_intent_hash o')"

definition order_evolves :: "stage7_order \<Rightarrow> stage7_order \<Rightarrow> bool" where
  "order_evolves a b \<longleftrightarrow> order_terms b = order_terms a \<and> so_order_id b = so_order_id a
     \<and> status_path (so_status a) (so_status b)"

lemma order_evolves_refl [simp]: "order_evolves a a"
  by (simp add: order_evolves_def status_path_refl)

lemma order_evolves_trans [trans]: "order_evolves a b \<Longrightarrow> order_evolves b c \<Longrightarrow> order_evolves a c"
  by (auto simp: order_evolves_def intro: status_path_trans)

lemma order_evolves_cid: "order_evolves a b \<Longrightarrow> so_client_order_id b = so_client_order_id a"
  by (simp add: order_evolves_def order_terms_def)

lemma append_event_evolves: "order_evolves (ol_order loc) (ol_order (append_event env now ty p loc))"
  by (simp add: append_event_def order_evolves_def order_terms_def status_path_refl)

lemma transition_once_evolves: "order_evolves (ol_order loc) (ol_order (transition_once env now ty p q fp t loc))"
  by (auto simp: transition_once_def Let_def transition_allowed_def order_evolves_def order_terms_def
      intro: status_path.intros split: option.splits)

lemma transition_note_order: "ol_order (transition_note env now ty p q fp t loc) = ol_order (transition_once env now ty p q fp t loc)"
  "ol_events (transition_note env now ty p q fp t loc) = ol_events (transition_once env now ty p q fp t loc)"
  by (simp_all add: transition_note_def Let_def)

lemma append_retries_evolves: "order_evolves (ol_order loc) (ol_order (append_retries env now atts loc))"
  unfolding append_retries_def
  by (induction atts arbitrary: loc) (auto intro: order_evolves_trans append_event_evolves)

lemmas evolves_intros = append_event_evolves transition_once_evolves append_retries_evolves

lemma apply_slices_evolves: "order_evolves (ol_order loc) (ol_order (apply_slices env now slices loc))"
  unfolding apply_slices_def Let_def
  by (rule order_evolves_trans [OF _ transition_once_evolves])
    (auto simp: transition_note_order transition_once_evolves split: prod.split)

subsection \<open>The submissions in a list of events\<close>

definition submits :: "string \<Rightarrow> order_event list \<Rightarrow> nat" where
  "submits cid es = length (filter (\<lambda>e. oe_client_order_id e = cid \<and> oe_type e = Ev_SUBMIT_REQUESTED) es)"

lemma submits_simps [simp]:
  "submits cid [] = 0" "submits cid (xs @ ys) = submits cid xs + submits cid ys"
  "submits cid (e # es) = (if oe_client_order_id e = cid \<and> oe_type e = Ev_SUBMIT_REQUESTED then 1 else 0) + submits cid es"
  by (simp_all add: submits_def)

lemma new_event_simps [simp]:
  "oe_client_order_id (new_event env now ty p loc) = so_client_order_id (ol_order loc)"
  "oe_type (new_event env now ty p loc) = ty"
  by (simp_all add: new_event_def Let_def)

lemma append_event_submits:
  "ty \<noteq> Ev_SUBMIT_REQUESTED \<Longrightarrow> submits cid (ol_events (append_event env now ty p loc)) = submits cid (ol_events loc)"
  by (simp add: append_event_def)

lemma transition_once_submits:
  "submits cid (ol_events (transition_once env now ty p q fp t loc)) \<le> submits cid (ol_events loc)
     + (if ty = Ev_SUBMIT_REQUESTED \<and> so_client_order_id (ol_order loc) = cid then 1 else 0)"
  by (simp add: transition_once_def Let_def)

lemma append_retries_submits: "submits cid (ol_events (append_retries env now atts loc)) = submits cid (ol_events loc)"
  unfolding append_retries_def by (induction atts arbitrary: loc) (auto simp: append_event_submits)

lemma transition_other_submits:
  "ty \<noteq> Ev_SUBMIT_REQUESTED \<Longrightarrow> submits cid (ol_events (transition_once env now ty p q fp t loc)) \<le> submits cid (ol_events loc)"
  using transition_once_submits [of cid env now ty p q fp t loc] by simp

lemma apply_slices_submits: "submits cid (ol_events (apply_slices env now slices loc)) \<le> submits cid (ol_events loc)"
  unfolding apply_slices_def Let_def
  by (rule order_trans [OF transition_other_submits])
    (auto simp: transition_note_order split: prod.split intro: transition_other_submits)

subsection \<open>One intent\<close>

text \<open>A terminal order keeps its fills as well.\<close>

definition order_moves :: "stage7_order \<Rightarrow> stage7_order \<Rightarrow> bool" where
  "order_moves a b \<longleftrightarrow> order_evolves a b \<and>
     (terminal (so_status a) \<and> fits (so_filled_qty a) \<longrightarrow>
        so_filled_qty b = so_filled_qty a \<and> so_avg_fill_price_try b = so_avg_fill_price_try a)"

lemma order_moves_cid: "order_moves a b \<Longrightarrow> so_client_order_id b = so_client_order_id a"
  by (simp add: order_moves_def order_evolves_cid)

lemma order_moves_live: "order_evolves a b \<Longrightarrow> \<not> terminal (so_status a) \<Longrightarrow> order_moves a b"
  by (simp add: order_moves_def)

lemma append_event_moves: "order_moves (ol_order loc) (ol_order (append_event env now ty p loc))"
  using append_event_evolves [of loc] by (simp add: order_moves_def append_event_def)

lemma transition_once_moves: "order_moves (ol_order loc) (ol_order (transition_once env now ty p 0 None t loc))"
  using transition_once_evolves [of loc]
  by (simp add: order_moves_def transition_once_def Let_def average_fill_def dadd_def fits_def)

text \<open>
  What processing an intent does to the run: the stored orders and events are not touched, and
  unless an exception aborts the batch one order is added that has evolved from the stored or
  planned one.  \<open>fresh\<close> says that the key of the intent was registered by this call.
\<close>

definition base_order :: "oms_env \<Rightarrow> string \<Rightarrow> instant \<Rightarrow> stage7_order list \<Rightarrow> order_intent \<Rightarrow> stage7_order" where
  "base_order env cycle_id now os x =
     (case find (\<lambda>o'. so_client_order_id o' = oi_client_order_id x) os of
        Some o' \<Rightarrow> o' | None \<Rightarrow> planned_order env cycle_id now x)"

definition key_known :: "s7_store \<Rightarrow> string \<Rightarrow> bool" where
  "key_known s cid \<longleftrightarrow> map_of (s7_keys s) (idempotency_key cid) \<noteq> None"

definition tables_kept :: "oms_run \<Rightarrow> oms_run \<Rightarrow> bool" where
  "tables_kept run run' \<longleftrightarrow> s7_orders (or_store run') = s7_orders (or_store run)
     \<and> s7_events (or_store run') = s7_events (or_store run)
     \<and> (\<forall>c. key_known (or_store run) c \<longrightarrow> key_known (or_store run') c)"

definition turn_result :: "oms_run \<Rightarrow> stage7_order \<Rightarrow> oms_run \<times> unit result \<Rightarrow> bool" where
  "turn_result run o' res \<longleftrightarrow> tables_kept run (fst res)
     \<and> (case snd res of
          Inl _ \<Rightarrow> True
        | Inr _ \<Rightarrow> (\<exists>o''. order_moves o' o'' \<and> or_orders (fst res) = or_orders run @ [o''])
            \<and> (\<forall>c. submits c (or_events (fst res)) \<le> submits c (or_events run)
                  + (if c = so_client_order_id o' \<and> \<not> key_known (or_store run) c \<and> key_known (or_store (fst res)) c
                     then 1 else 0)))"

lemma tables_kept_refl [simp]: "tables_kept run run" "tables_kept run (run\<lparr>or_sim := m\<rparr>)"
  "tables_kept run (run\<lparr>or_limiter := l\<rparr>)"
  by (simp_all add: tables_kept_def)

lemma turn_result_finish:
  assumes "order_moves o' (ol_order loc)" "tables_kept run run'" "or_orders run' = or_orders run"
    and "\<And>c. submits c (ol_events loc) \<le> submits c (or_events run)
          + (if c = so_client_order_id o' \<and> \<not> key_known (or_store run) c \<and> key_known (or_store run') c then 1 else 0)"
  shows "turn_result run o' (finish run' loc, Inr ())"
  using assms by (auto simp: turn_result_def finish_def tables_kept_def)

lemma after_submit_turn:
  assumes ev: "order_evolves o' (ol_order loc)" and nt: "\<not> terminal (so_status o')" and tk: "tables_kept run run'" and os: "or_orders run' = or_orders run"
    and sub: "\<And>c. submits c (ol_events loc) = submits c (or_events run)"
    and key: "\<not> key_known (or_store run) (so_client_order_id o')" "key_known (or_store run') (so_client_order_id o')"
  shows "turn_result run o' (after_submit env st now intent run' loc)"
proof -
  define payload where "payload = [(''symbol'', PStr (so_symbol (ol_order loc))), (''side'', PStr (so_side (ol_order loc)))]"
  define loc1 where "loc1 = transition_note env now Ev_SUBMIT_REQUESTED payload 0 None None loc"
  define loc2 where "loc2 = transition_note env now Ev_ACKED payload 0 None None loc1"
  have ev2: "order_evolves o' (ol_order loc2)"
    unfolding loc2_def loc1_def transition_note_order
    by (intro order_evolves_trans [OF _ transition_once_evolves])
      (simp add: transition_note_order order_evolves_trans [OF ev transition_once_evolves])
  have cid: "so_client_order_id (ol_order loc) = so_client_order_id o'" using ev by (rule order_evolves_cid)
  have sub2: "submits c (ol_events loc2) \<le> submits c (or_events run) + (if c = so_client_order_id o' then 1 else 0)" for c
    unfolding loc2_def transition_note_order
    by (rule order_trans [OF transition_other_submits], simp, unfold loc1_def transition_note_order,
        rule order_trans [OF transition_once_submits]) (auto simp: sub cid)
  have fin: "turn_result run o' (finish run' l, Inr ())"
    if "order_evolves (ol_order loc2) (ol_order l)" "\<And>c. submits c (ol_events l) \<le> submits c (ol_events loc2)" for l
  proof (rule turn_result_finish [OF order_moves_live [OF order_evolves_trans [OF ev2 that(1)] nt] tk os])
    fix c
    show "submits c (ol_events l) \<le> submits c (or_events run)
        + (if c = so_client_order_id o' \<and> \<not> key_known (or_store run) c \<and> key_known (or_store run') c then 1 else 0)"
      using order_trans [OF that(2) sub2, of c] key by auto
  qed
  have abort: "turn_result run o' (run', Inl e)" for e using tk by (simp add: turn_result_def)
  show ?thesis
    unfolding after_submit_def Let_def payload_def [symmetric] loc1_def [symmetric] loc2_def [symmetric]
    by (auto split: sum.split bool.split intro!: fin abort transition_once_evolves apply_slices_evolves
        transition_other_submits apply_slices_submits)
qed

lemma submit_intent_turn:
  assumes ev: "order_evolves o' (ol_order loc)" and nt: "\<not> terminal (so_status o')" and tk: "tables_kept run run'" and os: "or_orders run' = or_orders run"
    and sub: "ol_events loc = or_events run"
    and key: "\<not> key_known (or_store run) (so_client_order_id o')" "key_known (or_store run') (so_client_order_id o')"
  shows "turn_result run o' (submit_intent env st now intent run' loc)"
proof -
  obtain r atts t sim' where r: "retry_with_backoff (retry_config_of st) transient_error (\<lambda>_. None) (en_rand env)
      (maybe_raise_submit_error (oi_client_order_id intent)) (or_sim run') = (r, atts, t, sim')"
    by (metis prod_cases4)
  let ?loc = "append_retries env now atts loc"
  have tk1: "tables_kept run (run'\<lparr>or_sim := sim'\<rparr>)" using tk by (simp add: tables_kept_def)
  have ev1: "order_evolves o' (ol_order ?loc)" by (rule order_evolves_trans [OF ev append_retries_evolves])
  have sub1: "submits c (ol_events ?loc) = submits c (or_events run)" for c
    by (simp add: append_retries_submits sub)
  show ?thesis
  proof (cases r)
    case (Inl e)
    have "turn_result run o' (finish (run'\<lparr>or_sim := sim'\<rparr>) (append_event env now Ev_RETRY_GIVEUP
        [(''reason'', PStr ''transient_failure_exhausted'')] ?loc), Inr ())"
      by (rule turn_result_finish [OF order_moves_live [OF order_evolves_trans [OF ev1 append_event_evolves] nt] tk1])
        (simp_all add: os append_event_submits sub1)
    moreover have "turn_result run o' (run'\<lparr>or_sim := sim'\<rparr>, Inl e)" using tk1 by (simp add: turn_result_def)
    ultimately show ?thesis using Inl by (simp add: submit_intent_def r Let_def)
  next
    case (Inr u)
    have "turn_result run o' (after_submit env st now intent (run'\<lparr>or_sim := sim'\<rparr>) ?loc)"
      by (rule after_submit_turn [OF ev1 nt tk1]) (use key os sub1 in simp_all)
    then show ?thesis using Inr by (simp add: submit_intent_def r Let_def)
  qed
qed

lemma register_and_submit_turn:
  assumes ev: "order_evolves o' (ol_order loc)" and nt: "\<not> terminal (so_status o')" and tk: "tables_kept run run'" and os: "or_orders run' = or_orders run"
    and st: "or_store run' = or_store run" and sub: "ol_events loc = or_events run"
    and cid: "so_client_order_id o' = oi_client_order_id intent"
  shows "turn_result run o' (register_and_submit env st now intent run' loc)"
proof -
  let ?key = "idempotency_key (oi_client_order_id intent)"
  show ?thesis
  proof (cases "map_of (s7_keys (or_store run')) ?key")
    case None
    let ?store = "(or_store run')\<lparr>s7_keys := AList.update ?key (en_intent_hash env intent) (s7_keys (or_store run'))\<rparr>"
    have "turn_result run o' (submit_intent env st now intent (run'\<lparr>or_store := ?store\<rparr>) loc)"
      by (rule submit_intent_turn [OF ev nt]) (use None st os sub tk cid in \<open>auto simp: tables_kept_def key_known_def\<close>)
    then show ?thesis using None by (simp add: register_and_submit_def try_register_idempotency_key_def Let_def)
  next
    case (Some h)
    have 1: "turn_result run o' (finish run' (transition_once env now Ev_REJECTED p 0 None None
        (append_event env now Ev_IDEMPOTENCY_CONFLICT p' loc)), Inr ())" for p p'
      by (rule turn_result_finish [OF order_moves_live [OF order_evolves_trans [OF order_evolves_trans
            [OF ev append_event_evolves] transition_once_evolves] nt] tk os])
        (rule order_trans [OF transition_other_submits], simp_all add: append_event_submits sub)
    have 2: "turn_result run o' (finish run' (append_event env now Ev_DUPLICATE_IGNORED p loc), Inr ())" for p
      by (rule turn_result_finish [OF order_moves_live [OF order_evolves_trans [OF ev append_event_evolves] nt] tk os])
        (simp_all add: append_event_submits sub)
    show ?thesis using Some 1 2 by (auto simp: register_and_submit_def try_register_idempotency_key_def Let_def)
  qed
qed

lemma initial_local_simps:
  "ol_order (initial_local env cycle_id now run x) = base_order env cycle_id now (s7_orders (or_store run)) x"
  "ol_events (initial_local env cycle_id now run x) = or_events run"
  by (simp_all add: initial_local_def Let_def base_order_def get_stage7_order_by_client_id_def)

lemma base_order_cid: "so_client_order_id (base_order env cycle_id now os x) = oi_client_order_id x"
  by (auto simp: base_order_def planned_order_def find_Some_iff split: option.split)

lemma process_intent_turn:
  assumes "\<not> oi_skipped x"
  shows "turn_result run (base_order env cycle_id now (s7_orders (or_store run)) x)
    (process_intent env st cycle_id now cancels run x)"
proof -
  define loc where "loc = initial_local env cycle_id now run x"
  define o' where "o' = base_order env cycle_id now (s7_orders (or_store run)) x"
  have loc: "ol_order loc = o'" "ol_events loc = or_events run" by (simp_all add: loc_def o'_def initial_local_simps)
  have cid: "so_client_order_id o' = oi_client_order_id x" by (simp add: o'_def base_order_cid)
  have tr: "turn_result run o' (finish run (transition_once env now ty p 0 None None loc), Inr ())"
    if "ty \<noteq> Ev_SUBMIT_REQUESTED" for ty p
    by (rule turn_result_finish [OF transition_once_moves [of loc, unfolded loc]])
      (use transition_other_submits [OF that, of _ env now p 0 None None loc] loc in auto)
  have ap: "turn_result run o' (finish (run\<lparr>or_limiter := l\<rparr>) (append_event env now ty p loc), Inr ())"
    if "ty \<noteq> Ev_SUBMIT_REQUESTED" for ty p l
    by (rule turn_result_finish [OF append_event_moves [of loc, unfolded loc]])
      (use append_event_submits [OF that, of _ env now p loc] loc in \<open>auto simp: tables_kept_def\<close>)
  have rs: "turn_result run o' (register_and_submit env st now x (run\<lparr>or_limiter := l\<rparr>) loc)"
    if "\<not> terminal (so_status o')" for l
    by (rule register_and_submit_turn) (use loc cid that in simp_all)
  show ?thesis
    unfolding process_intent_def Let_def loc_def [symmetric] o'_def [symmetric]
    using assms tr ap [of _ "or_limiter run"] ap rs loc(1) by (auto split: prod.split)
qed

subsection \<open>A batch\<close>

abbreviation live :: "order_intent list \<Rightarrow> order_intent list" where
  "live xs \<equiv> filter (\<lambda>x. \<not> oi_skipped x) xs"

lemma process_loop_tables:
  "process_loop env st cycle_id now cancels run xs = (run', r) \<Longrightarrow> tables_kept run run'"
proof (induction xs arbitrary: run)
  case (Cons x xs)
  obtain run1 r1 where x: "process_intent env st cycle_id now cancels run x = (run1, r1)" by force
  have "tables_kept run run1"
    using process_intent_turn [of x run env cycle_id now st cancels] x
    by (cases "oi_skipped x") (auto simp: turn_result_def process_intent_def)
  then show ?case using Cons x by (cases r1) (auto simp: tables_kept_def)
qed simp

lemma process_loop_orders:
  "process_loop env st cycle_id now cancels run xs = (run', Inr u) \<Longrightarrow>
    \<exists>new. or_orders run' = or_orders run @ new \<and>
      list_all2 order_moves (map (base_order env cycle_id now (s7_orders (or_store run))) (live xs)) new"
proof (induction xs arbitrary: run)
  case (Cons x xs)
  obtain run1 r1 where x: "process_intent env st cycle_id now cancels run x = (run1, r1)" by force
  then obtain v where r1: "r1 = Inr v" and rest: "process_loop env st cycle_id now cancels run1 xs = (run', Inr u)"
    using Cons.prems by (cases r1) auto
  obtain new where new: "or_orders run' = or_orders run1 @ new"
      "list_all2 order_moves (map (base_order env cycle_id now (s7_orders (or_store run1))) (live xs)) new"
    using Cons.IH [OF rest] by blast
  show ?case
  proof (cases "oi_skipped x")
    case True
    then have "run1 = run" using x by (simp add: process_intent_def)
    then show ?thesis using new True by auto
  next
    case False
    then have t: "turn_result run (base_order env cycle_id now (s7_orders (or_store run)) x) (run1, Inr v)"
      using process_intent_turn [of x run env cycle_id now st cancels] x r1 by simp
    then obtain o'' where "order_moves (base_order env cycle_id now (s7_orders (or_store run)) x) o''"
      "or_orders run1 = or_orders run @ [o'']" "s7_orders (or_store run1) = s7_orders (or_store run)"
      by (auto simp: turn_result_def tables_kept_def)
    then show ?thesis using new False by (intro exI [of _ "o'' # new"]) auto
  qed
qed simp

text \<open>The row of a client order after an upsert of orders with distinct client order ids.\<close>

definition row :: "stage7_order list \<Rightarrow> string \<Rightarrow> stage7_order option" where
  "row os cid = find (\<lambda>o'. so_client_order_id o' = cid) os"

lemma row_Nil [simp]: "row [] cid = None"
  and row_Cons [simp]: "row (o' # os) cid = (if so_client_order_id o' = cid then Some o' else row os cid)"
  by (simp_all add: row_def)

lemma row_append: "row (xs @ ys) cid = (case row xs cid of None \<Rightarrow> row ys cid | Some x \<Rightarrow> Some x)"
  by (induction xs) auto

lemma row_None_iff: "row os cid = None \<longleftrightarrow> (\<forall>o' \<in> set os. so_client_order_id o' \<noteq> cid)"
  by (induction os) auto

lemma row_SomeD: "row os cid = Some o' \<Longrightarrow> so_client_order_id o' = cid \<and> o' \<in> set os"
  by (induction os) (auto split: if_splits)

lemma row_map_update:
  "row (map (\<lambda>r. if so_client_order_id r = so_client_order_id n then n\<lparr>so_order_id := so_order_id r\<rparr> else r) os) cid
    = (case row os cid of None \<Rightarrow> None
       | Some r \<Rightarrow> Some (if cid = so_client_order_id n then n\<lparr>so_order_id := so_order_id r\<rparr> else r))"
  by (induction os) auto

lemma upsert_row:
  assumes "upsert_stage7_order os n = Inr os'"
  shows "row os' cid = (if cid = so_client_order_id n
      then Some (case row os cid of None \<Rightarrow> n | Some r \<Rightarrow> n\<lparr>so_order_id := so_order_id r\<rparr>) else row os cid)"
proof (cases "row os (so_client_order_id n)")
  case None
  then have "os' = os @ [n]" using assms by (auto simp: row_None_iff list_ex_iff split: if_splits)
  then show ?thesis using None by (auto simp: row_append split: option.split)
next
  case (Some r)
  then have "list_ex (\<lambda>r. so_client_order_id r = so_client_order_id n) os"
    using row_SomeD [OF Some] by (auto simp: list_ex_iff)
  then have "os' = map (\<lambda>r. if so_client_order_id r = so_client_order_id n then n\<lparr>so_order_id := so_order_id r\<rparr> else r) os"
    using assms by simp
  then show ?thesis using Some by (auto simp: row_map_update split: option.split)
qed

lemma upserts_row:
  assumes "upsert_stage7_orders os new = Inr os'" "distinct (map so_client_order_id new)"
  shows "row os' cid = (case row new cid of
      Some n \<Rightarrow> Some (case row os cid of None \<Rightarrow> n | Some r \<Rightarrow> n\<lparr>so_order_id := so_order_id r\<rparr>) | None \<Rightarrow> row os cid)"
  using assms
proof (induction new arbitrary: os)
  case (Cons n new)
  obtain os1 where u: "upsert_stage7_order os n = Inr os1" "upsert_stage7_orders os1 new = Inr os'"
    using Cons.prems(1) by (auto simp only: upsert_stage7_orders_def rfold.simps rbind_eq_Inr_iff)
  have d: "distinct (map so_client_order_id new)" "so_client_order_id n \<notin> so_client_order_id ` set new"
    using Cons.prems(2) by auto
  have nn: "row new (so_client_order_id n) = None" unfolding row_None_iff using d(2) by (metis image_eqI)
  show ?case using Cons.IH [OF u(2) d(1)] upsert_row [OF u(1), of cid] nn by (auto split: option.split)
qed (simp add: upsert_stage7_orders_def)

lemma row_evolves:
  assumes "list_all2 order_moves olds news" "row olds cid = Some a"
  shows "\<exists>b. row news cid = Some b \<and> order_moves a b"
  using assms by (induction rule: list_all2_induct) (auto dest: order_moves_cid split: if_splits)

lemma row_evolves_None:
  assumes "list_all2 order_moves olds news"
  shows "row olds cid = None \<longleftrightarrow> row news cid = None"
  using assms by (induction rule: list_all2_induct) (auto dest: order_moves_cid)

lemma evolves_cids: "list_all2 order_moves olds news \<Longrightarrow> map so_client_order_id news = map so_client_order_id olds"
  by (induction rule: list_all2_induct) (auto dest: order_moves_cid)

lemma row_base_orders:
  "row (map (base_order env cycle_id now os) xs) cid
    = map_option (base_order env cycle_id now os) (find (\<lambda>x. oi_client_order_id x = cid) xs)"
  by (induction xs) (auto simp: base_order_cid)

lemma base_order_row: "row os (oi_client_order_id x) = Some o' \<Longrightarrow> base_order env cycle_id now os x = o'"
  by (simp add: base_order_def row_def)

lemma end_run_store [simp]: "os_store (end_run s run) = or_store run"
  by (simp add: end_run_def)

text \<open>The two ways a call of \<open>process_intents\<close> ends: aborted, with the tables unchanged, or committed.\<close>

lemma process_intents_cases:
  assumes "process_intents env st cycle_id now cancels s intents = (s', r)"
  obtains (aborted) "s7_orders (os_store s') = s7_orders (os_store s)" "s7_events (os_store s') = s7_events (os_store s)"
      "\<forall>c. key_known (os_store s) c \<longrightarrow> key_known (os_store s') c"
    | (committed) rl run os' where
      "process_loop env st cycle_id now cancels (start_run s rl) (sort_key oi_client_order_id intents) = (run, Inr ())"
      "upsert_stage7_orders (s7_orders (os_store s)) (or_orders run) = Inr os'" "s7_orders (os_store s') = os'"
      "s7_events (os_store s') = append_stage7_order_events (s7_events (os_store s)) (or_events run)"
      "s7_keys (os_store s') = s7_keys (or_store run)"
proof (cases "(case os_limiter s of Some rl \<Rightarrow> Inr rl | None \<Rightarrow> default_limiter env st)")
  case (Inl e)
  then show ?thesis using assms aborted by (auto simp: process_intents_def)
next
  case (Inr rl)
  obtain run r1 where l: "process_loop env st cycle_id now cancels (start_run s rl) (sort_key oi_client_order_id intents) = (run, r1)"
    by force
  have k: "s7_orders (or_store run) = s7_orders (os_store s)" "s7_events (or_store run) = s7_events (os_store s)"
      "\<forall>c. key_known (os_store s) c \<longrightarrow> key_known (or_store run) c"
    using process_loop_tables [OF l] by (auto simp: tables_kept_def start_run_def)
  show ?thesis
  proof (cases r1)
    case (Inl e)
    then show ?thesis using assms Inr l k aborted by (auto simp: process_intents_def)
  next
    case r1: (Inr u)
    show ?thesis
    proof (cases "upsert_stage7_orders (s7_orders (or_store run)) (or_orders run)")
      case (Inl e)
      then show ?thesis using assms Inr r1 l k aborted by (auto simp: process_intents_def)
    next
      case u: (Inr os')
      then show ?thesis using assms Inr r1 l k committed [of rl run os'] by (auto simp: process_intents_def)
    qed
  qed
qed

lemma find_sorted:
  assumes "distinct (map oi_client_order_id (live intents))"
  shows "distinct (map oi_client_order_id (live (sort_key oi_client_order_id intents)))"
proof -
  have "mset (map oi_client_order_id (live (sort_key oi_client_order_id intents))) = mset (map oi_client_order_id (live intents))"
    by simp
  then show ?thesis using assms mset_eq_imp_distinct_iff by blast
qed

text \<open>(C30) Whatever the batch, as long as its live intents have distinct client order ids: a stored order
  keeps its terms and moves only along the allowed transitions; a terminal order keeps its
  status and its fills; and a new order has come from PLANNED along the allowed transitions.\<close>

theorem stored_orders_follow_transitions:
  assumes run: "process_intents env st cycle_id now cancels s intents = (s', r)"
    and d: "distinct (map oi_client_order_id (live intents))"
  shows "(case get_stage7_order_by_client_id (os_store s) cid of
      Some a \<Rightarrow> (\<exists>b. get_stage7_order_by_client_id (os_store s') cid = Some b \<and> order_terms b = order_terms a \<and>
        so_order_id b = so_order_id a \<and> status_path (so_status a) (so_status b) \<and>
        (terminal (so_status a) \<and> fits (so_filled_qty a) \<longrightarrow> so_status b = so_status a \<and>
           so_filled_qty b = so_filled_qty a \<and> so_avg_fill_price_try b = so_avg_fill_price_try a))
    | None \<Rightarrow> (\<forall>b. get_stage7_order_by_client_id (os_store s') cid = Some b \<longrightarrow> status_path PLANNED (so_status b)))"
  using run
proof (cases rule: process_intents_cases)
  case aborted
  then show ?thesis
    by (auto simp: get_stage7_order_by_client_id_def status_path_refl split: option.split)
next
  case (committed rl run os')
  let ?os = "s7_orders (os_store s)" and ?xs = "live (sort_key oi_client_order_id intents)"
  obtain new where new: "or_orders run = new"
      "list_all2 order_moves (map (base_order env cycle_id now ?os) ?xs) new"
    using process_loop_orders [OF committed(1)] by (auto simp: start_run_def)
  have "map so_client_order_id new = map oi_client_order_id ?xs"
    using evolves_cids [OF new(2)] by (simp add: base_order_cid comp_def)
  then have u: "row os' cid = (case row new cid of
      Some n \<Rightarrow> Some (case row ?os cid of None \<Rightarrow> n | Some r \<Rightarrow> n\<lparr>so_order_id := so_order_id r\<rparr>) | None \<Rightarrow> row ?os cid)"
    using upserts_row [OF committed(2) [unfolded new(1)]] find_sorted [OF d] by simp
  have g: "get_stage7_order_by_client_id (os_store s') cid = row os' cid"
    "get_stage7_order_by_client_id (os_store s) cid = row ?os cid"
    using committed(3) by (simp_all add: get_stage7_order_by_client_id_def row_def)
  show ?thesis
  proof (cases "row new cid")
    case None
    then show ?thesis using u by (auto simp: g status_path_refl split: option.split)
  next
    case (Some n)
    then have "row (map (base_order env cycle_id now ?os) ?xs) cid \<noteq> None"
      using row_evolves_None [OF new(2), of cid] by simp
    then obtain x where x: "find (\<lambda>x. oi_client_order_id x = cid) ?xs = Some x"
      by (auto simp: row_base_orders)
    then have m: "order_moves (base_order env cycle_id now ?os x) n"
      using row_evolves [OF new(2), of cid] Some by (auto simp: row_base_orders)
    have xc: "oi_client_order_id x = cid" using x by (auto simp: find_Some_iff)
    show ?thesis
    proof (cases "row ?os cid")
      case None
      then have "base_order env cycle_id now ?os x = planned_order env cycle_id now x"
        using xc by (auto simp: base_order_def row_def)
      then have "status_path PLANNED (so_status n)"
        using m by (simp add: order_moves_def order_evolves_def planned_order_def)
      then show ?thesis using u Some None by (simp add: g)
    next
      case old: (Some a)
      then have "order_moves a n" using m base_order_row [of ?os x a] xc by simp
      then show ?thesis using u Some old status_path_terminal [of "so_status a" "so_status n"]
        by (auto simp: g order_moves_def order_evolves_def order_terms_def)
    qed
  qed
qed

subsection \<open>No client order is submitted twice\<close>

text \<open>
  The invariant: stored events hold at most one submission of a client order, and none while
  its idempotency key is not registered.
\<close>

definition submit_inv :: "s7_store \<Rightarrow> order_event list \<Rightarrow> bool" where
  "submit_inv s es \<longleftrightarrow> (\<forall>c. submits c (s7_events s) + submits c es \<le> (if key_known s c then 1 else 0))"

lemma process_loop_submits:
  assumes "process_loop env st cycle_id now cancels run xs = (run', Inr u)" "submit_inv (or_store run) (or_events run)"
  shows "submit_inv (or_store run') (or_events run')"
  using assms
proof (induction xs arbitrary: run)
  case (Cons x xs)
  obtain run1 r1 where x: "process_intent env st cycle_id now cancels run x = (run1, r1)" by force
  then obtain v where r1: "r1 = Inr v" and rest: "process_loop env st cycle_id now cancels run1 xs = (run', Inr u)"
    using Cons.prems by (cases r1) auto
  have "submit_inv (or_store run1) (or_events run1)"
  proof (cases "oi_skipped x")
    case True
    then show ?thesis using x Cons.prems(2) by (simp add: process_intent_def)
  next
    case False
    then have t: "turn_result run (base_order env cycle_id now (s7_orders (or_store run)) x) (run1, Inr v)"
      using process_intent_turn [of x run env cycle_id now st cancels] x r1 by simp
    show ?thesis
      unfolding submit_inv_def
    proof
      fix c
      have "submits c (s7_events (or_store run)) + submits c (or_events run) \<le> (if key_known (or_store run) c then 1 else 0)"
        using Cons.prems(2) by (auto simp: submit_inv_def)
      moreover have "submits c (or_events run1) \<le> submits c (or_events run)
            + (if c = so_client_order_id (base_order env cycle_id now (s7_orders (or_store run)) x)
                 \<and> \<not> key_known (or_store run) c \<and> key_known (or_store run1) c then 1 else 0)"
        using t unfolding turn_result_def by simp
      moreover have "s7_events (or_store run1) = s7_events (or_store run)"
        "key_known (or_store run) c \<longrightarrow> key_known (or_store run1) c"
        using t by (auto simp: turn_result_def tables_kept_def)
      ultimately show "submits c (s7_events (or_store run1)) + submits c (or_events run1)
          \<le> (if key_known (or_store run1) c then 1 else 0)"
        by (auto split: if_splits)
    qed
  qed
  then show ?case using Cons.IH [OF rest] by simp
qed simp

lemma append_events_submits: "submits c (append_stage7_order_events es new) \<le> submits c es + submits c new"
proof (induction new arbitrary: es)
  case (Cons e new)
  have "submits c (append_stage7_order_events es (e # new))
      \<le> submits c (append_stage7_order_event es e) + submits c new"
    using Cons [of "append_stage7_order_event es e"] by (simp add: append_stage7_order_events_def)
  also have "\<dots> \<le> submits c es + submits c (e # new)" by (simp add: append_stage7_order_event_def)
  finally show ?case .
qed (simp add: append_stage7_order_events_def)

lemma process_intents_submit_inv:
  assumes "process_intents env st cycle_id now cancels s intents = (s', r)" "submit_inv (os_store s) []"
  shows "submit_inv (os_store s') []"
  using assms(1)
proof (cases rule: process_intents_cases)
  case aborted
  then show ?thesis using assms(2) by (fastforce simp: submit_inv_def split: if_splits)
next
  case (committed rl run os')
  have i: "submit_inv (or_store run) (or_events run)"
    using process_loop_submits [OF committed(1)] assms(2) by (simp add: start_run_def)
  have e: "s7_events (or_store run) = s7_events (os_store s)"
    using process_loop_tables [OF committed(1)] by (simp add: tables_kept_def start_run_def)
  have k: "key_known (os_store s') c = key_known (or_store run) c" for c
    using committed(5) by (simp add: key_known_def)
  show ?thesis
    unfolding submit_inv_def
  proof
    fix c
    show "submits c (s7_events (os_store s')) + submits c [] \<le> (if key_known (os_store s') c then 1 else 0)"
      using append_events_submits [of c "s7_events (os_store s)" "or_events run"] i [unfolded submit_inv_def, rule_format, of c] e
      by (simp add: committed(4) k split: if_splits)
  qed
qed

text \<open>The states the service reaches from empty tables by batches and reconciliations, failed ones included.\<close>

definition empty_store :: s7_store where
  "empty_store = \<lparr>s7_orders = [], s7_events = [], s7_keys = []\<rparr>"

inductive oms_reachable :: "oms_env \<Rightarrow> oms_state \<Rightarrow> bool" for env where
  oms_init: "os_store s = empty_store \<Longrightarrow> oms_reachable env s"
| oms_batch: "oms_reachable env s \<Longrightarrow>
    process_intents env st cycle_id now cancels s intents = (s', r) \<Longrightarrow> oms_reachable env s'"
| oms_restart: "oms_reachable env s \<Longrightarrow> oms_reachable env (s\<lparr>os_limiter := rl, os_sim := sim\<rparr>)"

lemma oms_reachable_inv: "oms_reachable env s \<Longrightarrow> submit_inv (os_store s) []"
proof (induction rule: oms_reachable.induct)
  case (oms_init s)
  then show ?case by (simp add: submit_inv_def empty_store_def)
next
  case (oms_batch s st cycle_id now cancels intents s' r)
  then show ?case using process_intents_submit_inv by blast
qed simp

lemma reconcile_reachable:
  "oms_reachable env s \<Longrightarrow> reconcile_open_orders env st cycle_id now s = (s', r) \<Longrightarrow> oms_reachable env s'"
  unfolding reconcile_open_orders_def by (rule oms_batch)

text \<open>(C13) In every reachable state the event table holds at most one SUBMIT\_REQUESTED event of a client
  order, and one only if its idempotency key is registered: batches with repeated client order
  ids, failing batches and reconciliations included.\<close>

theorem submitted_at_most_once:
  assumes "oms_reachable env s"
  shows "submits cid (s7_events (os_store s)) \<le> (if key_known (os_store s) cid then 1 else 0)"
  using oms_reachable_inv [OF assms] by (simp add: submit_inv_def)

subsection \<open>A fresh intent\<close>

lemma retry_no_failure:
  assumes "map_of (ms_failures sim) cid = None \<or> map_of (ms_failures sim) cid = Some []"
    and "1 \<le> st_retry_max_attempts st" "0 \<le> st_retry_base_delay_ms st" "0 \<le> st_retry_max_delay_ms st"
  shows "retry_with_backoff (retry_config_of st) transient_error after rand (maybe_raise_submit_error cid) sim
    = (Inr (), [], 0, sim)"
proof -
  obtain k where k: "nat (st_retry_max_attempts st) = Suc k"
    using assms(2) by (cases "nat (st_retry_max_attempts st)") auto
  have "maybe_raise_submit_error cid sim = (sim, Inr ())"
    using assms(1) by (auto simp: maybe_raise_submit_error_def)
  then show ?thesis using assms k by (simp add: retry_with_backoff_def retry_config_of_def)
qed

text \<open>The slices add up to the quantity of the intent, exactly, when it is on the grid of eight decimals.\<close>

lemma fill_slices_cases:
  assumes "fill_slices sim x st = Inr slices" "on_grid (- 8) (oi_qty x)" "0 < oi_qty x"
  obtains (whole) a where "slices = [(oi_qty x, a)]"
    | (parts) f a where "slices = [(f, a), (dsub (oi_qty x) f, a)]" "dsub (oi_qty x) f = oi_qty x - f"
        "0 < f" "f < oi_qty x" "fits f" "fits (oi_qty x - f)"
proof (cases "length slices = 1")
  case True
  then show ?thesis using assms(1) whole
    by (auto simp: fill_slices_def Let_def rbind_eq_Inr_iff split: if_splits)
next
  case False
  then obtain y a where y: "dquantize ROUND_HALF_EVEN 8 (dmul (oi_qty x) (6 / 10)) = Inr y"
      "slices = [(max 0 (min y (oi_qty x)), a), (dsub (oi_qty x) (max 0 (min y (oi_qty x))), a)]"
      "0 < max 0 (min y (oi_qty x))" "0 < dsub (oi_qty x) (max 0 (min y (oi_qty x)))"
    using assms(1) by (auto simp: fill_slices_def Let_def rbind_eq_Inr_iff split: if_splits)
  define f where "f = max 0 (min y (oi_qty x))"
  have lt: "0 < f" "f < oi_qty x" using y(3,4) by (simp_all add: f_def dsub_pos_iff)
  then have "f = y" by (auto simp: f_def min_def max_def split: if_splits)
  moreover have "on_grid (- 8) y" using y(1)
    by (auto simp: dquantize_def Let_def quantum_def on_grid_def split: if_splits)
  ultimately have g: "on_grid (- 8) f" by simp
  have "on_grid (- 8) (oi_qty x - f)" using on_grid_diff [OF assms(2) g] lt by simp
  then show ?thesis using parts [of f a] y(2) lt g dsub_on_grid [OF assms(2) g]
    by (simp add: f_def [symmetric] on_grid_fits)
qed

lemma transition_note_fresh:
  assumes "ty \<notin> set (ol_types loc)" "status = so_status (ol_order loc) \<or> status \<in> set (allowed_transitions (so_status (ol_order loc)))"
    and "status = (case t of Some x \<Rightarrow> x | None \<Rightarrow> default_target ty (so_status (ol_order loc)))"
  shows "so_status (ol_order (transition_once env now ty p q fp t loc)) = status"
    "so_filled_qty (ol_order (transition_once env now ty p q fp t loc)) = dadd (so_filled_qty (ol_order loc)) q"
    "ol_types (transition_note env now ty p q fp t loc) = ol_types loc @ [ty]"
proof -
  have "transition_allowed ty (case t of Some x \<Rightarrow> x | None \<Rightarrow> default_target ty (so_status (ol_order loc))) loc"
    using assms by (simp add: transition_allowed_def)
  then show "so_status (ol_order (transition_once env now ty p q fp t loc)) = status"
    "so_filled_qty (ol_order (transition_once env now ty p q fp t loc)) = dadd (so_filled_qty (ol_order loc)) q"
    "ol_types (transition_note env now ty p q fp t loc) = ol_types loc @ [ty]"
    using assms(3) by (simp_all add: transition_note_def transition_once_def Let_def)
qed

text \<open>After SUBMIT\_REQUESTED and ACKED the slices complete the order.\<close>

lemma apply_slices_fills:
  assumes "ol_types loc = [Ev_SUBMIT_REQUESTED, Ev_ACKED]" "so_status (ol_order loc) = ACKED"
    "so_filled_qty (ol_order loc) = 0" "fill_slices sim x st = Inr slices" "on_grid (- 8) (oi_qty x)" "0 < oi_qty x"
  shows "so_status (ol_order (apply_slices env now slices loc)) = FILLED
    \<and> so_filled_qty (ol_order (apply_slices env now slices loc)) = oi_qty x"
  using assms(4-6)
proof (cases rule: fill_slices_cases)
  case (whole a)
  then show ?thesis
    using transition_note_fresh [of Ev_FILLED loc FILLED "Some FILLED"] assms on_grid_fits [OF assms(5)]
    by (simp add: apply_slices_def Let_def dsum_def dadd_def dsub_def fits_def)
next
  case (parts f a)
  let ?loc = "transition_note env now Ev_PARTIAL_FILL [(''fill_qty'', PDec f), (''fill_price_try'', PDec a)] f (Some a)
    (Some PARTIALLY_FILLED) loc"
  have l: "ol_types ?loc = [Ev_SUBMIT_REQUESTED, Ev_ACKED, Ev_PARTIAL_FILL]" "so_status (ol_order ?loc) = PARTIALLY_FILLED"
    "so_filled_qty (ol_order ?loc) = f"
    using transition_note_fresh [of Ev_PARTIAL_FILL loc PARTIALLY_FILLED "Some PARTIALLY_FILLED"] assms(1-3) parts(5)
    by (simp_all add: transition_note_order dadd_def fits_def)
  have q: "dsum (map fst slices) = oi_qty x"
    using parts on_grid_fits [OF assms(5)] by (simp add: dsum_def dadd_def fits_def)
  show ?thesis
    using transition_note_fresh [of Ev_FILLED ?loc FILLED "Some FILLED"] parts l q on_grid_fits [OF assms(5)]
    by (simp add: apply_slices_def Let_def) (simp add: dadd_def fits_def)
qed

text \<open>A valid new intent that the limiter admits, that meets no adapter failure and no simulated
  rejection is registered and ends as a FILLED order for exactly the quantity asked for.\<close>

theorem fresh_intent_fills:
  assumes "\<not> oi_skipped x" "0 < oi_qty x" "0 < oi_price_try x" "0 < oi_notional_try x" "on_grid (- 8) (oi_qty x)"
    and "oi_client_order_id x \<notin> set cancels"
    and "get_stage7_order_by_client_id (or_store run) (oi_client_order_id x) = None"
    and "get_stage7_order_events_by_client_id (or_store run) (oi_client_order_id x) = []"
    and "\<not> key_known (or_store run) (oi_client_order_id x)"
    and "fst (consume (en_clock env) (or_limiter run) ''default'' 1)"
    and "map_of (ms_failures (or_sim run)) (oi_client_order_id x) = None"
    and "1 \<le> st_retry_max_attempts st" "0 \<le> st_retry_base_delay_ms st" "0 \<le> st_retry_max_delay_ms st"
    and "st_sim_reject_prob_bps st \<le> 0" "fill_slices (or_sim run) x st = Inr slices"
  shows "\<exists>run' o'. process_intent env st cycle_id now cancels run x = (run', Inr ()) \<and>
    or_orders run' = or_orders run @ [o'] \<and> so_status o' = FILLED \<and> so_filled_qty o' = oi_qty x \<and>
    so_client_order_id o' = oi_client_order_id x \<and> key_known (or_store run') (oi_client_order_id x)"
proof -
  obtain lim where c: "consume (en_clock env) (or_limiter run) ''default'' 1 = (True, lim)" using assms(10) by (metis (full_types) prod.collapse)
  let ?loc = "initial_local env cycle_id now run x"
  have loc: "ol_order ?loc = planned_order env cycle_id now x" "ol_types ?loc = []"
    using assms(7,8) by (simp_all add: initial_local_def Let_def)
  define payload where "payload = [(''symbol'', PStr (so_symbol (ol_order ?loc))), (''side'', PStr (so_side (ol_order ?loc)))]"
  define loc1 where "loc1 = transition_note env now Ev_SUBMIT_REQUESTED payload 0 None None ?loc"
  define loc2 where "loc2 = transition_note env now Ev_ACKED payload 0 None None loc1"
  have l1: "ol_types loc1 = [Ev_SUBMIT_REQUESTED]" "so_status (ol_order loc1) = SUBMITTED" "so_filled_qty (ol_order loc1) = 0"
    using transition_note_fresh [of Ev_SUBMIT_REQUESTED ?loc SUBMITTED None] loc
    by (simp_all add: loc1_def transition_note_order planned_order_def dadd_def)
  have l2: "ol_types loc2 = [Ev_SUBMIT_REQUESTED, Ev_ACKED]" "so_status (ol_order loc2) = ACKED" "so_filled_qty (ol_order loc2) = 0"
    using transition_note_fresh [of Ev_ACKED loc1 ACKED None] l1
    by (simp_all add: loc2_def transition_note_order dadd_def)
  let ?key = "idempotency_key (oi_client_order_id x)"
  let ?run = "run\<lparr>or_limiter := lim, or_store := (or_store run)\<lparr>s7_keys := AList.update ?key (en_intent_hash env x) (s7_keys (or_store run))\<rparr>\<rparr>"
  have sub: "submit_intent env st now x ?run ?loc = (finish ?run (apply_slices env now slices loc2), Inr ())"
    using retry_no_failure [of "or_sim run" "oi_client_order_id x" st "\<lambda>_. None" "en_rand env"] assms
    by (simp add: submit_intent_def append_retries_def after_submit_def Let_def should_reject_def payload_def [symmetric]
        loc1_def [symmetric] loc2_def [symmetric])
  have "process_intent env st cycle_id now cancels run x = submit_intent env st now x ?run ?loc"
    using assms c loc by (simp add: process_intent_def Let_def planned_order_def terminal_def
        register_and_submit_def try_register_idempotency_key_def key_known_def)
  moreover have "so_client_order_id (ol_order (apply_slices env now slices loc2)) = oi_client_order_id x"
    using order_evolves_cid [OF apply_slices_evolves] order_evolves_cid [OF transition_once_evolves] loc(1)
    by (simp add: loc2_def loc1_def transition_note_order planned_order_def)
  ultimately show ?thesis
    using apply_slices_fills [OF l2 assms(16,5,2)] sub by (simp add: finish_def key_known_def)
qed

subsection \<open>Concrete runs\<close>

definition demo_env :: oms_env where
  "demo_env = \<lparr>en_short_hash = (\<lambda>s. s), en_intent_hash = (\<lambda>x. oi_cycle_id x @ oi_reason x), en_clock = demo_clock,
     en_rand = (\<lambda>_. 1/2)\<rparr>"

definition demo_settings :: oms_settings where
  "demo_settings = \<lparr>st_sim_reject_prob_bps = 0, st_rate_limit_rps = 4, st_rate_limit_burst = 8, st_retry_max_attempts = 2,
     st_retry_base_delay_ms = 128, st_retry_max_delay_ms = 1024, st_slippage_bps = 0\<rparr>"

definition demo_intent :: "string \<Rightarrow> order_intent" where
  "demo_intent cid = \<lparr>oi_cycle_id = ''y'', oi_symbol = ''BTCTRY'', oi_side = ''BUY'', oi_order_type = ''LIMIT'',
     oi_price_try = 100, oi_qty = 1, oi_notional_try = 100, oi_client_order_id = cid, oi_reason = ''r'',
     oi_constraints = [], oi_skipped = False, oi_skip_reason = None\<rparr>"

definition demo_oms :: "(string, string list) dict \<Rightarrow> oms_state" where
  "demo_oms failures = \<lparr>os_store = empty_store, os_limiter = None, os_sim = Stage7MarketSimulator [] failures\<rparr>"

definition demo_batch :: "oms_state \<Rightarrow> string list \<Rightarrow> oms_state \<times> (stage7_order list \<times> order_event list) result" where
  "demo_batch s cids = process_intents demo_env demo_settings ''y'' 0 [] s (map demo_intent cids)"

definition statuses :: "oms_state \<Rightarrow> (string \<times> order_status) list" where
  "statuses s = map (\<lambda>o'. (so_client_order_id o', so_status o')) (s7_orders (os_store s))"

lemma demo_single: "statuses (fst (demo_batch (demo_oms []) [''2''])) = [(''2'', FILLED)]"
  by code_simp

theorem stored_orders_follow_transitions_witness:
  "distinct (map oi_client_order_id (live [demo_intent ''2''])) \<and>
   (\<exists>b. get_stage7_order_by_client_id (os_store (fst (demo_batch (demo_oms []) [''2'']))) ''2'' = Some b \<and>
      so_status b = FILLED \<and> status_path PLANNED (so_status b))"
proof -
  obtain s' r where run: "process_intents demo_env demo_settings ''y'' 0 [] (demo_oms []) [demo_intent ''2''] = (s', r)"
    by force
  then have s': "fst (demo_batch (demo_oms []) [''2'']) = s'" by (simp add: demo_batch_def)
  have d: "distinct (map oi_client_order_id (live [demo_intent ''2'']))" by (simp add: demo_intent_def)
  have n: "get_stage7_order_by_client_id (os_store (demo_oms [])) ''2'' = None"
    by (simp add: demo_oms_def empty_store_def get_stage7_order_by_client_id_def)
  obtain b where "s7_orders (os_store s') = [b]" "so_client_order_id b = ''2''" "so_status b = FILLED"
    using demo_single unfolding s' statuses_def by auto
  then have "get_stage7_order_by_client_id (os_store s') ''2'' = Some b" "so_status b = FILLED"
    by (simp_all add: get_stage7_order_by_client_id_def)
  then show ?thesis
    using stored_orders_follow_transitions [OF run d, of "''2''"] d n s' by auto
qed

text \<open>
  A client order id repeated within one batch: the first occurrence is filled, the second is
  recognised as a duplicate but is written back as PLANNED, over the filled row.
\<close>

lemma duplicate_in_batch_regresses:
  "statuses (fst (demo_batch (demo_oms []) [''2'', ''2''])) = [(''2'', PLANNED)]"
  "submits ''2'' (s7_events (os_store (fst (demo_batch (demo_oms []) [''2'', ''2''])))) = 1"
  by code_simp+

theorem submitted_at_most_once_witness:
  "oms_reachable demo_env (fst (demo_batch (demo_oms []) [''2'', ''2''])) \<and>
   (1::nat) \<le> (if key_known (os_store (fst (demo_batch (demo_oms []) [''2'', ''2'']))) ''2'' then 1 else 0)"
proof -
  have "oms_reachable demo_env (demo_oms [])" by (rule oms_init) (simp add: demo_oms_def)
  then have r: "oms_reachable demo_env (fst (demo_batch (demo_oms []) [''2'', ''2'']))"
    unfolding demo_batch_def by (rule oms_batch) (rule prod.collapse [symmetric])
  then show ?thesis using submitted_at_most_once [OF r, of "''2''"] duplicate_in_batch_regresses(2) by simp
qed

text \<open>
  An exception that is not retryable aborts the batch: the first order was submitted and its
  key is registered, but no row is written; in later batches it is a duplicate and stays PLANNED.
\<close>

definition aborted_batch :: oms_state where
  "aborted_batch = fst (demo_batch (demo_oms [(''3'', [''NON_RETRYABLE''])]) [''1'', ''3''])"

lemma aborted_batch_loses_orders:
  "statuses aborted_batch = []" "map fst (s7_keys (os_store aborted_batch)) = [''submit:1'', ''submit:3'']"
  "statuses (fst (demo_batch aborted_batch [''1''])) = [(''1'', PLANNED)]"
  by code_simp+

text \<open>
  A transient failure that outlasts the attempts leaves the order PLANNED with its key
  registered; the reconciliation of open orders submits a payload with another reason, which is
  an idempotency conflict, and rejects the order.
\<close>

definition given_up :: oms_state where
  "given_up = fst (demo_batch (demo_oms [(''1'', [''TIMEOUT'', ''TIMEOUT''])]) [''1''])"

lemma reconcile_rejects_given_up:
  "statuses given_up = [(''1'', PLANNED)]"
  "statuses (fst (reconcile_open_orders demo_env demo_settings ''y'' 1 given_up)) = [(''1'', REJECTED)]"
  by code_simp+

definition demo_run_start :: oms_run where
  "demo_run_start = start_run (demo_oms []) demo_limiter"

theorem fresh_intent_fills_witness:
  "\<exists>run' o'. process_intent demo_env demo_settings ''y'' 0 [] demo_run_start (demo_intent ''2'') = (run', Inr ()) \<and>
    so_status o' = FILLED \<and> so_filled_qty o' = 1 \<and> or_orders run' = [o']"
proof -
  have c: "fst (consume (en_clock demo_env) (or_limiter demo_run_start) ''default'' 1)" by code_simp
  have g: "on_grid (- 8) 1" by (rule on_grid_intro [of _ 100000000]) simp_all
  have f: "fill_slices (or_sim demo_run_start) (demo_intent ''2'') demo_settings = Inr [(3/5, 100), (2/5, 100)]" by code_simp
  show ?thesis
    using fresh_intent_fills [OF _ _ _ _ _ _ _ _ _ c _ _ _ _ _ f, of "[]" "''y''" 0] g
    by (auto simp: demo_intent_def demo_run_start_def start_run_def demo_oms_def empty_store_def demo_settings_def
        key_known_def get_stage7_order_by_client_id_def get_stage7_order_events_by_client_id_def Stage7MarketSimulator_def)
qed

end
