(* ===== verification/Order_Lifecycle.thy ===== *)
theory Order_Lifecycle
  imports Stage4 Py_Float
begin

text \<open>
  The stage 4 lifecycle planner, \<open>src/src/btcbot/services/order_lifecycle_service.py\<close>: from the
  wanted orders and the open orders it makes a list of cancellations and submissions.

  \<open>_is_stale\<close> reads the clock once per open order; \<open>now_of i\<close> is its \<open>i\<close>-th reading.  The lemmas
  show that the plan cancels exactly the stale orders, each once, and submits exactly the valid
  intents that no open order duplicates, cancellations first.
\<close>

subsection \<open>Definitions\<close>

record lifecycle_config =
  lc_stale_after_sec :: int
  lc_drift_bps :: dec
  lc_price_tolerance_bps :: dec
  lc_qty_tolerance_ratio :: dec

definition is_stale :: "lifecycle_config \<Rightarrow> instant \<Rightarrow> dec \<Rightarrow> s4_order \<Rightarrow> bool" where
  "is_stale cfg now mid_price order =
     (let age = frnd (of_int (now - o4_updated_at order) / 10 ^ 6) in
      if of_int (lc_stale_after_sec cfg) \<le> age then True
      else if mid_price \<le> 0 \<or> o4_price order \<le> 0 then False
      else lc_drift_bps cfg \<le> dmul (ddiv (dabs (dsub (o4_price order) mid_price)) mid_price) 10000)"

definition duplicates :: "lifecycle_config \<Rightarrow> s4_order \<Rightarrow> s4_order \<Rightarrow> bool" where
  "duplicates cfg intent order =
     (if o4_symbol order \<noteq> o4_symbol intent \<or> o4_side order \<noteq> o4_side intent then False
      else if o4_price order \<le> 0 \<or> o4_qty order \<le> 0 then False
      else dmul (ddiv (dabs (dsub (o4_price order) (o4_price intent))) (o4_price intent)) 10000
             \<le> lc_price_tolerance_bps cfg
           \<and> ddiv (dabs (dsub (o4_qty order) (o4_qty intent))) (o4_qty intent) \<le> lc_qty_tolerance_ratio cfg)"

definition find_duplicate :: "lifecycle_config \<Rightarrow> s4_order \<Rightarrow> s4_order list \<Rightarrow> s4_order option" where
  "find_duplicate cfg intent open_orders =
     (if o4_price intent \<le> 0 \<or> o4_qty intent \<le> 0 then None else find (duplicates cfg intent) open_orders)"

type_synonym stale_map = "(string \<times> string, s4_order list) dict"

definition order_key :: "s4_order \<Rightarrow> string \<times> string" where
  "order_key x = (o4_symbol x, o4_side x)"

definition add_stale :: "stale_map \<Rightarrow> s4_order \<Rightarrow> stale_map" where
  "add_stale d x = AList.update (order_key x) (dict_get d (order_key x) [] @ [x]) d"

definition stale_orders :: "lifecycle_config \<Rightarrow> (nat \<Rightarrow> instant) \<Rightarrow> dec \<Rightarrow> s4_order list \<Rightarrow> s4_order list" where
  "stale_orders cfg now_of mid_price open_orders =
     map snd (filter (\<lambda>(i, x). is_stale cfg (now_of i) mid_price x) (enumerate 0 open_orders))"

definition cancel_action :: "string \<Rightarrow> s4_order \<Rightarrow> lifecycle_action" where
  "cancel_action reason x = \<lparr>la_type = CANCEL, la_symbol = o4_symbol x, la_side = o4_side x, la_price = o4_price x,
     la_qty = o4_qty x, la_reason = reason, la_client_order_id = o4_client_order_id x,
     la_exchange_order_id = o4_exchange_order_id x, la_replace_for = None\<rparr>"

definition submit_action :: "string \<Rightarrow> string option \<Rightarrow> s4_order \<Rightarrow> lifecycle_action" where
  "submit_action reason replaced x = \<lparr>la_type = SUBMIT, la_symbol = o4_symbol x, la_side = o4_side x, la_price = o4_price x,
     la_qty = o4_qty x, la_reason = reason, la_client_order_id = o4_client_order_id x,
     la_exchange_order_id = None, la_replace_for = replaced\<rparr>"

record lifecycle_plan =
  lp_actions :: "lifecycle_action list"
  lp_audit_reasons :: "string list"

definition id_or :: "string option \<Rightarrow> string \<Rightarrow> string" where
  "id_or x d = (case x of None \<Rightarrow> d | Some s \<Rightarrow> if s = [] then d else s)"

text \<open>One turn of the loop over the intents.\<close>

definition plan_intent ::
  "lifecycle_config \<Rightarrow> s4_order list \<Rightarrow> lifecycle_plan \<times> stale_map \<Rightarrow> s4_order \<Rightarrow> lifecycle_plan \<times> stale_map" where
  "plan_intent cfg open_orders acc intent =
     (let p = fst acc; stale = snd acc;
          audit = (\<lambda>tag. p\<lparr>lp_audit_reasons := lp_audit_reasons p @ [tag @ id_or (o4_client_order_id intent) ''missing'']\<rparr>);
          key = order_key intent; olds = dict_get stale key []
      in if o4_price intent \<le> 0 \<or> o4_qty intent \<le> 0 then (audit ''invalid_intent:'', stale)
         else if find_duplicate cfg intent open_orders \<noteq> None then (audit ''deduped:'', stale)
         else if olds \<noteq> [] then
           (p\<lparr>lp_actions := lp_actions p @ map (cancel_action ''replace_cancel'') olds
                @ [submit_action ''replace_submit'' (o4_client_order_id (hd olds)) intent]\<rparr>,
            AList.update key [] stale)
         else (p\<lparr>lp_actions := lp_actions p @ [submit_action ''new_intent'' None intent]\<rparr>, stale))"

fun action_priority :: "lifecycle_action_type \<Rightarrow> nat" where
  "action_priority CANCEL = 0"
| "action_priority REPLACE = 1"
| "action_priority SUBMIT = 2"

definition action_key :: "lifecycle_action \<Rightarrow> string \<times> string \<times> nat \<times> string" where
  "action_key a = (la_symbol a, la_side a, action_priority (la_type a), id_or (la_client_order_id a) [])"

definition plan :: "lifecycle_config \<Rightarrow> (nat \<Rightarrow> instant) \<Rightarrow> s4_order list \<Rightarrow> s4_order list \<Rightarrow> dec \<Rightarrow> lifecycle_plan" where
  "plan cfg now_of intents open_orders mid_price =
     (let stale_by_key = fold (\<lambda>x d. add_stale d x) (stale_orders cfg now_of mid_price open_orders) [];
          (p, left) = fold (\<lambda>x acc. plan_intent cfg open_orders acc x) intents
             (\<lparr>lp_actions = [], lp_audit_reasons = []\<rparr>, stale_by_key);
          actions = lp_actions p @ concat (map (map (cancel_action ''stale'') \<circ> snd) left)
      in \<lparr>lp_actions = sort_key action_key actions, lp_audit_reasons = lp_audit_reasons p\<rparr>)"

subsection \<open>The stale orders\<close>

definition stale_mset :: "stale_map \<Rightarrow> s4_order multiset" where
  "stale_mset d = sum_list (map (mset \<circ> snd) d)"

lemma stale_mset_update:
  "dict_wf d \<Longrightarrow> stale_mset (AList.update k v d) + mset (dict_get d k []) = stale_mset d + mset v"
proof (induction d)
  case (Cons kv d)
  show ?case
  proof (cases "fst kv = k")
    case True
    have "map_of d k = None" using Cons.prems True by (auto simp: map_of_eq_None_iff)
    then show ?thesis using True by (cases kv) (simp add: stale_mset_def)
  next
    case False
    then show ?thesis using Cons by (cases kv) (simp add: stale_mset_def ac_simps)
  qed
qed (simp add: stale_mset_def)

lemma add_stale_mset: "dict_wf d \<Longrightarrow> stale_mset (add_stale d x) = add_mset x (stale_mset d)"
  using stale_mset_update [of d "order_key x" "dict_get d (order_key x) [] @ [x]"]
  by (simp add: add_stale_def)

lemma fold_add_stale:
  "dict_wf d \<Longrightarrow> dict_wf (fold (\<lambda>x d. add_stale d x) xs d)
     \<and> stale_mset (fold (\<lambda>x d. add_stale d x) xs d) = mset xs + stale_mset d"
proof (induction xs arbitrary: d)
  case (Cons x xs)
  have "dict_wf (add_stale d x)" using Cons.prems by (simp add: add_stale_def)
  then show ?case using Cons.IH [of "add_stale d x"] add_stale_mset [OF Cons.prems] by simp
qed simp

subsection \<open>The plan\<close>

text \<open>The multiset of the cancelled orders is read off the actions through \<open>cancel_target\<close>.\<close>

definition cancel_target :: "lifecycle_action \<Rightarrow> string \<times> string \<times> dec \<times> dec \<times> string option \<times> string option" where
  "cancel_target a = (la_symbol a, la_side a, la_price a, la_qty a, la_client_order_id a, la_exchange_order_id a)"

definition order_target :: "s4_order \<Rightarrow> string \<times> string \<times> dec \<times> dec \<times> string option \<times> string option" where
  "order_target x = (o4_symbol x, o4_side x, o4_price x, o4_qty x, o4_client_order_id x, o4_exchange_order_id x)"

definition submit_target :: "s4_order \<Rightarrow> string \<times> string \<times> dec \<times> dec \<times> string option \<times> string option" where
  "submit_target x = (o4_symbol x, o4_side x, o4_price x, o4_qty x, o4_client_order_id x, None)"

definition targets :: "lifecycle_action_type \<Rightarrow> lifecycle_action list \<Rightarrow>
    (string \<times> string \<times> dec \<times> dec \<times> string option \<times> string option) multiset" where
  "targets ty as = image_mset cancel_target (mset (filter (\<lambda>a. la_type a = ty) as))"

definition wanted :: "lifecycle_config \<Rightarrow> s4_order list \<Rightarrow> s4_order \<Rightarrow> bool" where
  "wanted cfg open_orders x \<longleftrightarrow> 0 < o4_price x \<and> 0 < o4_qty x \<and> (\<forall>y \<in> set open_orders. \<not> duplicates cfg x y)"

lemma targets_simps [simp]:
  "targets ty [] = {#}" "targets ty (xs @ ys) = targets ty xs + targets ty ys"
  "targets CANCEL (map (cancel_action r) os) = image_mset order_target (mset os)"
  "targets SUBMIT (map (cancel_action r) os) = {#}"
  "targets CANCEL [submit_action r b x] = {#}" "targets SUBMIT [submit_action r b x] = {#submit_target x#}"
  by (induction os)
    (auto simp: targets_def cancel_action_def submit_action_def cancel_target_def order_target_def submit_target_def)

lemma targets_concat:
  "targets CANCEL (concat (map (map (cancel_action r) \<circ> snd) d)) = image_mset order_target (stale_mset d)"
  "targets SUBMIT (concat (map (map (cancel_action r) \<circ> snd) d)) = {#}"
  by (induction d) (auto simp: stale_mset_def)

lemma find_duplicate_iff: "0 < o4_price x \<Longrightarrow> 0 < o4_qty x \<Longrightarrow>
    find_duplicate cfg x os = None \<longleftrightarrow> (\<forall>y \<in> set os. \<not> duplicates cfg x y)"
  by (auto simp: find_duplicate_def find_None_iff)

text \<open>One intent: either an audit entry or one submission; cancelled and still pending stale orders add up.\<close>

definition pending :: "lifecycle_plan \<times> stale_map \<Rightarrow> (string \<times> string \<times> dec \<times> dec \<times> string option \<times> string option) multiset" where
  "pending acc = targets CANCEL (lp_actions (fst acc)) + image_mset order_target (stale_mset (snd acc))"

lemma plan_intent_step:
  assumes "dict_wf (snd acc)"
  shows "dict_wf (snd (plan_intent cfg os acc x))" "pending (plan_intent cfg os acc x) = pending acc"
    "targets SUBMIT (lp_actions (fst (plan_intent cfg os acc x)))
      = targets SUBMIT (lp_actions (fst acc)) + (if wanted cfg os x then {#submit_target x#} else {#})"
    "length (lp_audit_reasons (fst (plan_intent cfg os acc x)))
      = length (lp_audit_reasons (fst acc)) + (if wanted cfg os x then 0 else 1)"
proof -
  have w: "wanted cfg os x \<longleftrightarrow> \<not> (o4_price x \<le> 0 \<or> o4_qty x \<le> 0) \<and> find_duplicate cfg x os = None"
    using find_duplicate_iff [of x cfg os] by (auto simp: wanted_def not_le)
  show "dict_wf (snd (plan_intent cfg os acc x))"
    using assms by (simp add: plan_intent_def Let_def)
  have "image_mset order_target (stale_mset (AList.update (order_key x) [] (snd acc)))
      + image_mset order_target (mset (dict_get (snd acc) (order_key x) [])) = image_mset order_target (stale_mset (snd acc))"
    using stale_mset_update [OF assms, of "order_key x" "[]"] by (simp flip: image_mset_union)
  then show "pending (plan_intent cfg os acc x) = pending acc"
    by (auto simp: plan_intent_def Let_def pending_def ac_simps)
  show "targets SUBMIT (lp_actions (fst (plan_intent cfg os acc x)))
      = targets SUBMIT (lp_actions (fst acc)) + (if wanted cfg os x then {#submit_target x#} else {#})"
    by (simp add: plan_intent_def Let_def w)
  show "length (lp_audit_reasons (fst (plan_intent cfg os acc x)))
      = length (lp_audit_reasons (fst acc)) + (if wanted cfg os x then 0 else 1)"
    by (simp add: plan_intent_def Let_def w)
qed

lemma plan_intents:
  fixes cfg os xs acc
  assumes "dict_wf (snd acc)"
  defines "acc' \<equiv> fold (\<lambda>x acc. plan_intent cfg os acc x) xs acc"
  shows "pending acc' = pending acc \<and>
    targets SUBMIT (lp_actions (fst acc')) = targets SUBMIT (lp_actions (fst acc))
      + image_mset submit_target (mset (filter (wanted cfg os) xs)) \<and>
    length (lp_audit_reasons (fst acc')) = length (lp_audit_reasons (fst acc)) + length (filter (\<lambda>x. \<not> wanted cfg os x) xs)"
  using assms(1) unfolding acc'_def
proof (induction xs arbitrary: acc)
  case (Cons x xs)
  note step = plan_intent_step [OF Cons.prems, of cfg os x]
  show ?case using Cons.IH [OF step(1)] step(2-4) by simp
qed simp

text \<open>(C31) The plan cancels exactly the stale open orders, each once, and submits exactly the intents with
  positive price and quantity that no open order duplicates; every other intent leaves one audit
  reason.\<close>

theorem plan_cancels_stale_submits_wanted:
  "targets CANCEL (lp_actions (plan cfg now_of intents open_orders mid_price))
     = image_mset order_target (mset (stale_orders cfg now_of mid_price open_orders)) \<and>
   targets SUBMIT (lp_actions (plan cfg now_of intents open_orders mid_price))
     = image_mset submit_target (mset (filter (wanted cfg open_orders) intents)) \<and>
   length (lp_audit_reasons (plan cfg now_of intents open_orders mid_price))
     = length (filter (\<lambda>x. \<not> wanted cfg open_orders x) intents)"
proof -
  define d where "d = fold (\<lambda>x d. add_stale d x) (stale_orders cfg now_of mid_price open_orders) []"
  define acc where "acc = fold (\<lambda>x acc. plan_intent cfg open_orders acc x) intents
     (\<lparr>lp_actions = [], lp_audit_reasons = []\<rparr>, d)"
  have d: "dict_wf d" "stale_mset d = mset (stale_orders cfg now_of mid_price open_orders)"
    using fold_add_stale [of "[]"] by (simp_all add: d_def stale_mset_def)
  have "targets ty (sort_key action_key as) = targets ty as" for ty as
    by (simp add: targets_def)
  then show ?thesis
    using plan_intents [of "(\<lparr>lp_actions = [], lp_audit_reasons = []\<rparr>, d)" cfg open_orders intents] d
    by (simp add: plan_def Let_def d_def [symmetric] acc_def [symmetric] split_def targets_concat pending_def)
qed

text \<open>In the plan every cancellation of a symbol and side comes before every submission of that symbol
  and side, so that a replaced order is withdrawn before the new one is sent.\<close>

theorem plan_cancels_first:
  assumes "i < j" "j < length (lp_actions (plan cfg now_of intents open_orders mid_price))"
    and "la_type (lp_actions (plan cfg now_of intents open_orders mid_price) ! i) = SUBMIT"
    and "la_symbol (lp_actions (plan cfg now_of intents open_orders mid_price) ! i)
       = la_symbol (lp_actions (plan cfg now_of intents open_orders mid_price) ! j)"
    and "la_side (lp_actions (plan cfg now_of intents open_orders mid_price) ! i)
       = la_side (lp_actions (plan cfg now_of intents open_orders mid_price) ! j)"
  shows "la_type (lp_actions (plan cfg now_of intents open_orders mid_price) ! j) = SUBMIT"
proof -
  define as where "as = lp_actions (plan cfg now_of intents open_orders mid_price)"
  have "sorted (map action_key as)" by (simp add: as_def plan_def Let_def split_def)
  then have "action_key (as ! i) \<le> action_key (as ! j)"
    using assms(1,2) by (simp add: as_def [symmetric] sorted_iff_nth_mono)
  then have "2 \<le> action_priority (la_type (as ! j))"
    using assms(3-5) by (auto simp: as_def [symmetric] action_key_def less_eq_prod_def)
  then show ?thesis unfolding as_def [symmetric] by (cases "la_type (as ! j)") auto
qed

definition demo_order :: "string \<Rightarrow> dec \<Rightarrow> s4_order" where
  "demo_order cid price = \<lparr>o4_symbol = ''BTCTRY'', o4_side = ''buy'', o4_type = ''limit'', o4_price = price, o4_qty = 1,
     o4_status = ''open'', o4_created_at = 0, o4_updated_at = 0, o4_exchange_order_id = None,
     o4_client_order_id = Some cid, o4_exchange_client_id = None, o4_mode = ''dry_run''\<rparr>"

definition demo_lifecycle :: lifecycle_config where
  "demo_lifecycle = \<lparr>lc_stale_after_sec = 120, lc_drift_bps = 25, lc_price_tolerance_bps = 5, lc_qty_tolerance_ratio = 1 / 100\<rparr>"

abbreviation demo_plan :: lifecycle_plan where
  "demo_plan \<equiv> plan demo_lifecycle (\<lambda>_. 1) [demo_order ''a'' 99, demo_order ''b'' 100] [demo_order ''z'' 120] 100"

theorem plan_cancels_first_witness:
  "la_type (lp_actions demo_plan ! 1) = SUBMIT \<and> la_type (lp_actions demo_plan ! 2) = SUBMIT"
proof -
  have "map (\<lambda>a. (la_type a, la_symbol a, la_side a)) (lp_actions demo_plan)
    = [(CANCEL, ''BTCTRY'', ''buy''), (SUBMIT, ''BTCTRY'', ''buy''), (SUBMIT, ''BTCTRY'', ''buy'')]"
    by code_simp
  then have "length (lp_actions demo_plan) = 3" "map la_type (lp_actions demo_plan) = [CANCEL, SUBMIT, SUBMIT]"
    "map la_symbol (lp_actions demo_plan) = [''BTCTRY'', ''BTCTRY'', ''BTCTRY'']"
    "map la_side (lp_actions demo_plan) = [''buy'', ''buy'', ''buy'']"
    by (auto simp del: plan_def simp: map_eq_Cons_conv)
  then have a: "length (lp_actions demo_plan) = 3" "la_type (lp_actions demo_plan ! 1) = SUBMIT"
    "la_symbol (lp_actions demo_plan ! 1) = la_symbol (lp_actions demo_plan ! 2)"
    "la_side (lp_actions demo_plan ! 1) = la_side (lp_actions demo_plan ! 2)"
    by (auto simp: map_eq_Cons_conv)
  then show ?thesis using plan_cancels_first [of 1 2] a by simp
qed

end
