(* ===== verification/Risk_Policy.thy ===== *)
theory Risk_Policy
  imports Stage4
begin

text \<open>
  The stage 4 risk filter, \<open>src/src/btcbot/services/risk_policy.py\<close>: lifecycle actions are
  accepted or rejected one after the other against projections of the number of open orders and
  of the position value.

  The lemmas show that the decisions answer the actions one by one, what holds of every accepted
  submission, and that the projections stay within the limits.  The projection is that of the
  accepted actions only while no sell is refused for its price: \<open>rejected_sell_frees_budget\<close>
  shows a run in which a refused sell lets a buy through that exceeds the position limit.
\<close>

subsection \<open>Definitions\<close>

datatype risk_reason = R_accepted | R_max_daily_loss | R_max_drawdown | R_max_open_orders | R_max_order_notional_try
  | R_replace_worst_case_exposure_blocked | R_max_position_notional_try | R_min_profit_threshold

record risk_decision =
  rd_action :: lifecycle_action
  rd_accepted :: bool
  rd_reason :: risk_reason

record risk_policy =
  rp_max_open_orders :: int
  rp_max_order_notional_try :: dec
  rp_max_position_notional_try :: dec
  rp_max_daily_loss_try :: dec
  rp_max_drawdown_pct :: dec
  rp_fee_bps_taker :: dec
  rp_slippage_bps_buffer :: dec
  rp_min_profit_bps :: dec
  rp_replace_inflight_budget :: dec
  rp_max_gross_exposure_try :: dec

definition RiskPolicy ::
  "int \<Rightarrow> dec option \<Rightarrow> dec \<Rightarrow> dec \<Rightarrow> dec \<Rightarrow> dec \<Rightarrow> dec \<Rightarrow> dec \<Rightarrow> dec option \<Rightarrow> dec option \<Rightarrow> risk_policy" where
  "RiskPolicy max_open_orders max_order max_position max_daily_loss max_drawdown fee_bps slippage_bps min_profit_bps
      replace_budget max_gross =
     \<lparr>rp_max_open_orders = max_open_orders,
      rp_max_order_notional_try = (case max_order of Some x \<Rightarrow> x | None \<Rightarrow> max_position),
      rp_max_position_notional_try = max_position, rp_max_daily_loss_try = max_daily_loss,
      rp_max_drawdown_pct = max_drawdown, rp_fee_bps_taker = fee_bps, rp_slippage_bps_buffer = slippage_bps,
      rp_min_profit_bps = min_profit_bps,
      rp_replace_inflight_budget = (case replace_budget of Some x \<Rightarrow> x | None \<Rightarrow> max_position),
      rp_max_gross_exposure_try = (case max_gross of Some x \<Rightarrow> x | None \<Rightarrow> max_position)\<rparr>"

record filter_state =
  fs_open :: int
  fs_position :: dec
  fs_accepted :: "lifecycle_action list"
  fs_decisions :: "risk_decision list"

definition accept :: "lifecycle_action \<Rightarrow> filter_state \<Rightarrow> filter_state" where
  "accept a s = s\<lparr>fs_accepted := fs_accepted s @ [a],
     fs_decisions := fs_decisions s @ [\<lparr>rd_action = a, rd_accepted = True, rd_reason = R_accepted\<rparr>]\<rparr>"

definition reject :: "risk_reason \<Rightarrow> lifecycle_action \<Rightarrow> filter_state \<Rightarrow> filter_state" where
  "reject r a s = s\<lparr>fs_decisions := fs_decisions s @ [\<lparr>rd_action = a, rd_accepted = False, rd_reason = r\<rparr>]\<rparr>"

definition action_notional :: "lifecycle_action \<Rightarrow> dec" where
  "action_notional a = dmul (la_price a) (la_qty a)"

definition is_buy :: "lifecycle_action \<Rightarrow> bool" where
  "is_buy a = (str_lower (la_side a) = ''buy'')"

definition is_replace_submit :: "lifecycle_action \<Rightarrow> bool" where
  "is_replace_submit a = (la_reason a = ''replace_submit'' \<or> la_replace_for a \<noteq> None)"

definition replaced_notional :: "(string, s4_order) dict \<Rightarrow> lifecycle_action \<Rightarrow> dec" where
  "replaced_notional lookup a =
     (case la_replace_for a of
        None \<Rightarrow> 0
      | Some cid \<Rightarrow> if cid = [] then 0 else
          (case map_of lookup cid of None \<Rightarrow> 0 | Some x \<Rightarrow> dmul (o4_price x) (o4_qty x)))"

definition replace_blocked :: "risk_policy \<Rightarrow> (string, s4_order) dict \<Rightarrow> dec \<Rightarrow> lifecycle_action \<Rightarrow> bool" where
  "replace_blocked pol lookup pos a =
     (is_replace_submit a \<and>
       (let old = replaced_notional lookup a; new = action_notional a
        in rp_replace_inflight_budget pol < dadd old new \<or> rp_max_gross_exposure_try pol < dadd (dadd pos old) new))"

definition required_price :: "risk_policy \<Rightarrow> s4_position \<Rightarrow> dec" where
  "required_price pol p =
     dmul (p4_avg_cost_try p)
       (dadd 1 (ddiv (dadd (dadd (rp_fee_bps_taker pol) (rp_slippage_bps_buffer pol)) (rp_min_profit_bps pol)) 10000))"

definition below_min_profit :: "risk_policy \<Rightarrow> (string, s4_position) dict \<Rightarrow> lifecycle_action \<Rightarrow> bool" where
  "below_min_profit pol positions a =
     (case map_of positions (la_symbol a) of
        None \<Rightarrow> False
      | Some p \<Rightarrow> 0 < p4_qty p \<and> la_price a < required_price pol p)"

text \<open>The branches of a submission, with the projections as the code leaves them.\<close>

definition filter_buy ::
  "risk_policy \<Rightarrow> (string, s4_order) dict \<Rightarrow> lifecycle_action \<Rightarrow> filter_state \<Rightarrow> filter_state" where
  "filter_buy pol lookup a s =
     (let n = action_notional a; pos = dadd (fs_position s) n in
      if replace_blocked pol lookup (fs_position s) a then reject R_replace_worst_case_exposure_blocked a s
      else if rp_max_position_notional_try pol < pos
        then reject R_max_position_notional_try a (s\<lparr>fs_position := dsub pos n\<rparr>)
      else accept a (s\<lparr>fs_open := fs_open s + 1, fs_position := pos\<rparr>))"

definition filter_sell ::
  "risk_policy \<Rightarrow> (string, s4_position) dict \<Rightarrow> lifecycle_action \<Rightarrow> filter_state \<Rightarrow> filter_state" where
  "filter_sell pol positions a s =
     (let s' = s\<lparr>fs_position := max 0 (dsub (fs_position s) (action_notional a))\<rparr> in
      if below_min_profit pol positions a then reject R_min_profit_threshold a s'
      else accept a (s'\<lparr>fs_open := fs_open s + 1\<rparr>))"

definition filter_action ::
  "risk_policy \<Rightarrow> (string, s4_position) dict \<Rightarrow> (string, s4_order) dict \<Rightarrow> filter_state \<Rightarrow> lifecycle_action \<Rightarrow> filter_state" where
  "filter_action pol positions lookup s a =
     (case la_type a of
        CANCEL \<Rightarrow> accept a (s\<lparr>fs_open := max 0 (fs_open s - 1)\<rparr>)
      | REPLACE \<Rightarrow> accept a s
      | SUBMIT \<Rightarrow>
          if rp_max_open_orders pol < fs_open s + 1 then reject R_max_open_orders a s
          else if rp_max_order_notional_try pol < action_notional a then reject R_max_order_notional_try a s
          else if is_buy a then filter_buy pol lookup a s
          else filter_sell pol positions a s)"

definition filter_loop ::
  "risk_policy \<Rightarrow> (string, s4_position) dict \<Rightarrow> (string, s4_order) dict \<Rightarrow> int \<Rightarrow> dec \<Rightarrow> lifecycle_action list \<Rightarrow> filter_state" where
  "filter_loop pol positions lookup open_count pos actions =
     foldl (filter_action pol positions lookup)
       \<lparr>fs_open = open_count, fs_position = pos, fs_accepted = [], fs_decisions = []\<rparr> actions"

definition halted :: "risk_policy \<Rightarrow> pnl_snapshot \<Rightarrow> risk_reason option" where
  "halted pol pnl =
     (if pn_realized_today_try pnl \<le> dmul (rp_max_daily_loss_try pol) (- 1) then Some R_max_daily_loss
      else if rp_max_drawdown_pct pol \<le> pn_drawdown_pct pnl then Some R_max_drawdown
      else None)"

definition filter_actions ::
  "risk_policy \<Rightarrow> int \<Rightarrow> dec \<Rightarrow> pnl_snapshot \<Rightarrow> (string, s4_position) dict \<Rightarrow> (string, s4_order) dict \<Rightarrow>
   lifecycle_action list \<Rightarrow> lifecycle_action list \<times> risk_decision list" where
  "filter_actions pol open_count pos pnl positions lookup actions =
     (case halted pol pnl of
        Some r \<Rightarrow> ([], map (\<lambda>a. \<lparr>rd_action = a, rd_accepted = False, rd_reason = r\<rparr>) actions)
      | None \<Rightarrow> (let s = filter_loop pol positions lookup open_count pos actions
                in (fs_accepted s, fs_decisions s)))"

subsection \<open>Every decision\<close>

text \<open>What an accepted action satisfies, whatever came before it.\<close>

definition admissible :: "risk_policy \<Rightarrow> (string, s4_position) dict \<Rightarrow> lifecycle_action \<Rightarrow> bool" where
  "admissible pol positions a \<longleftrightarrow>
     (la_type a = SUBMIT \<longrightarrow> action_notional a \<le> rp_max_order_notional_try pol \<and>
        (\<not> is_buy a \<longrightarrow> \<not> below_min_profit pol positions a))"

lemmas filter_defs = filter_action_def filter_buy_def filter_sell_def accept_def reject_def Let_def

text \<open>A turn answers the action with one decision, and accepts it only if it is admissible.\<close>

lemma filter_action_decision:
  "\<exists>d. fs_decisions (filter_action pol positions lookup s a) = fs_decisions s @ [d] \<and> rd_action d = a \<and>
     fs_accepted (filter_action pol positions lookup s a) = fs_accepted s @ (if rd_accepted d then [a] else []) \<and>
     (rd_accepted d \<longrightarrow> rd_reason d = R_accepted \<and> admissible pol positions a) \<and>
     (\<not> rd_accepted d \<longrightarrow> rd_reason d \<noteq> R_accepted \<and> la_type a = SUBMIT)"
  by (cases "la_type a") (auto simp: filter_defs admissible_def not_less)

definition decisions_ok :: "risk_policy \<Rightarrow> (string, s4_position) dict \<Rightarrow> filter_state \<Rightarrow> lifecycle_action list \<Rightarrow> bool" where
  "decisions_ok pol positions s as \<longleftrightarrow> map rd_action (fs_decisions s) = as
     \<and> fs_accepted s = map rd_action (filter rd_accepted (fs_decisions s))
     \<and> (\<forall>a \<in> set (fs_accepted s). admissible pol positions a)
     \<and> (\<forall>d \<in> set (fs_decisions s). rd_accepted d \<longleftrightarrow> rd_reason d = R_accepted)
     \<and> (\<forall>d \<in> set (fs_decisions s). \<not> rd_accepted d \<longrightarrow> la_type (rd_action d) = SUBMIT)"

lemma filter_action_ok:
  "decisions_ok pol positions s as \<Longrightarrow> decisions_ok pol positions (filter_action pol positions lookup s a) (as @ [a])"
  using filter_action_decision [of pol positions lookup s a] by (auto simp: decisions_ok_def)

lemma foldl_filter_ok:
  "decisions_ok pol positions s bs \<Longrightarrow> decisions_ok pol positions (foldl (filter_action pol positions lookup) s as) (bs @ as)"
proof (induction as arbitrary: s bs)
  case (Cons a as)
  then show ?case using Cons.IH [OF filter_action_ok [OF Cons.prems]] by simp
qed simp

text \<open>The filter answers every action, in order; the accepted actions are those with the decision
  "accepted"; cancellations are refused only when trading is halted; an accepted submission is
  within the order limit, an accepted sell of a held symbol earns the required margin; and
  nothing is accepted once the daily loss or the drawdown limit is reached.\<close>

theorem filter_actions_sound:
  "case filter_actions pol open_count pos pnl positions lookup actions of (accepted, decisions) \<Rightarrow>
     map rd_action decisions = actions \<and> accepted = map rd_action (filter rd_accepted decisions) \<and>
     (\<forall>a \<in> set accepted. admissible pol positions a) \<and>
     (if halted pol pnl = None
      then \<forall>d \<in> set decisions. \<not> rd_accepted d \<longrightarrow> la_type (rd_action d) = SUBMIT
      else accepted = [])"
proof -
  have "decisions_ok pol positions (filter_loop pol positions lookup open_count pos actions) actions"
    using foldl_filter_ok [of pol positions "\<lparr>fs_open = open_count, fs_position = pos, fs_accepted = [], fs_decisions = []\<rparr>" "[]"]
    by (simp add: filter_loop_def decisions_ok_def)
  then show ?thesis
    by (auto simp: filter_actions_def decisions_ok_def Let_def comp_def split: option.split)
qed

subsection \<open>The projections\<close>

text \<open>The exposure after a list of accepted actions, in exact arithmetic.\<close>

definition expose :: "rat \<Rightarrow> lifecycle_action \<Rightarrow> rat" where
  "expose p a = (if la_type a = SUBMIT then if is_buy a then p + action_notional a else max 0 (p - action_notional a) else p)"

definition exposure :: "rat \<Rightarrow> lifecycle_action list \<Rightarrow> rat" where
  "exposure = foldl expose"

definition money_ok :: "risk_policy \<Rightarrow> int \<Rightarrow> rat \<Rightarrow> lifecycle_action \<Rightarrow> bool" where
  "money_ok pol k bound a \<longleftrightarrow> 0 \<le> action_notional a \<and> grid_multiple k (action_notional a)
     \<and> bound + rp_max_order_notional_try pol < bpow 10 (28 + k)"

definition projection_ok :: "risk_policy \<Rightarrow> int \<Rightarrow> rat \<Rightarrow> int \<Rightarrow> rat \<Rightarrow> filter_state \<Rightarrow> bool" where
  "projection_ok pol k pos0 open0 bound s \<longleftrightarrow> grid_multiple k (fs_position s) \<and> 0 \<le> fs_position s \<and> fs_position s \<le> bound
     \<and> fs_position s = exposure pos0 (fs_accepted s)
     \<and> fs_open s \<le> max open0 (rp_max_open_orders pol)"

lemma exposure_snoc [simp]: "exposure p (as @ [a]) = expose (exposure p as) a" "exposure p [] = p"
  by (simp_all add: exposure_def)

lemma filter_buy_projection:
  assumes I: "projection_ok pol k pos0 open0 bound s" and ok: "money_ok pol k bound a"
    and a: "la_type a = SUBMIT" "is_buy a" and le: "action_notional a \<le> rp_max_order_notional_try pol"
    and open_le: "fs_open s + 1 \<le> rp_max_open_orders pol" and b: "rp_max_position_notional_try pol \<le> bound"
  shows "projection_ok pol k pos0 open0 bound (filter_buy pol lookup a s)"
proof -
  let ?n = "action_notional a" and ?p = "fs_position s"
  have p: "grid_multiple k ?p" "0 \<le> ?p" "?p \<le> bound" using I by (auto simp: projection_ok_def)
  have n: "0 \<le> ?n" "grid_multiple k ?n" using ok by (auto simp: money_ok_def)
  have "\<bar>?p + ?n\<bar> < bpow 10 (28 + k)" using p n le ok by (simp add: money_ok_def)
  then have add: "dadd ?p ?n = ?p + ?n" using dadd_grid p n by blast
  moreover have "dsub (?p + ?n) ?n = ?p"
    using dsub_grid [of k "?p + ?n" ?n] p n le ok grid_multiple_add by (simp add: money_ok_def)
  moreover have "exposure pos0 (fs_accepted s @ [a]) = ?p + ?n"
    using I a by (simp add: projection_ok_def expose_def)
  ultimately show ?thesis
    using I b open_le p n grid_multiple_add [OF p(1) n(2)]
    by (simp add: filter_buy_def Let_def projection_ok_def accept_def reject_def le_max_iff_disj)
qed

lemma filter_sell_projection:
  assumes I: "projection_ok pol k pos0 open0 bound s" and ok: "money_ok pol k bound a"
    and a: "la_type a = SUBMIT" "\<not> is_buy a" and le: "action_notional a \<le> rp_max_order_notional_try pol"
    and open_le: "fs_open s + 1 \<le> rp_max_open_orders pol"
    and priced: "\<not> below_min_profit pol positions a"
  shows "projection_ok pol k pos0 open0 bound (filter_sell pol positions a s)"
proof -
  let ?n = "action_notional a" and ?p = "fs_position s"
  have p: "grid_multiple k ?p" "0 \<le> ?p" "?p \<le> bound" using I by (auto simp: projection_ok_def)
  have n: "0 \<le> ?n" "grid_multiple k ?n" using ok by (auto simp: money_ok_def)
  have "\<bar>?p - ?n\<bar> < bpow 10 (28 + k)" using p n le ok by (simp add: money_ok_def abs_if)
  then have sub: "dsub ?p ?n = ?p - ?n" using dsub_grid p n by blast
  moreover have "exposure pos0 (fs_accepted s @ [a]) = max 0 (?p - ?n)"
    using I a by (simp add: projection_ok_def expose_def)
  moreover have "grid_multiple k (max 0 (?p - ?n))" using grid_multiple_diff [OF p(1) n(2)] by (simp add: max_def)
  ultimately show ?thesis
    using I priced open_le p n by (simp add: filter_sell_def Let_def projection_ok_def accept_def le_max_iff_disj)
qed

lemma reject_projection: "projection_ok pol k pos0 open0 bound (reject r a s) = projection_ok pol k pos0 open0 bound s"
  by (simp add: projection_ok_def reject_def)

lemma filter_action_projection:
  assumes I: "projection_ok pol k pos0 open0 bound s" and ok: "la_type a = SUBMIT \<Longrightarrow> money_ok pol k bound a"
    and b: "rp_max_position_notional_try pol \<le> bound" and "0 \<le> open0"
    and priced: "la_type a = SUBMIT \<Longrightarrow> \<not> is_buy a \<Longrightarrow> \<not> below_min_profit pol positions a"
  shows "projection_ok pol k pos0 open0 bound (filter_action pol positions lookup s a)"
proof (cases "la_type a")
  case SUBMIT
  then show ?thesis
    using filter_buy_projection [OF I ok [OF SUBMIT] SUBMIT _ _ _ b] filter_sell_projection [OF I ok [OF SUBMIT] SUBMIT] priced I
    by (auto simp: filter_action_def reject_projection not_less)
qed (use I assms(4) in \<open>auto simp: filter_action_def accept_def projection_ok_def expose_def\<close>)

text \<open>(C17) While no sell is refused for its price, the projection is the exposure that the accepted actions
  create, and that exposure never exceeds the larger of the position limit and the value held at
  the start; nor do the open orders exceed the larger of their limit and their initial number.\<close>

theorem filter_exposure_bounded:
  assumes "0 \<le> pos" "grid_multiple k pos" "0 \<le> open_count"
    and "\<forall>a \<in> set actions. la_type a = SUBMIT \<longrightarrow> money_ok pol k (max pos (rp_max_position_notional_try pol)) a"
    and "\<forall>a \<in> set actions. la_type a = SUBMIT \<and> \<not> is_buy a \<longrightarrow> \<not> below_min_profit pol positions a"
  shows "let s = filter_loop pol positions lookup open_count pos actions in
      fs_position s = exposure pos (fs_accepted s) \<and>
      exposure pos (fs_accepted s) \<le> max pos (rp_max_position_notional_try pol) \<and>
      fs_open s \<le> max open_count (rp_max_open_orders pol)"
proof -
  let ?bound = "max pos (rp_max_position_notional_try pol)"
  have "projection_ok pol k pos open_count ?bound (foldl (filter_action pol positions lookup) s actions)"
    if "projection_ok pol k pos open_count ?bound s" for s
    using that assms(4,5)
  proof (induction actions arbitrary: s)
    case (Cons a as)
    have "projection_ok pol k pos open_count ?bound (filter_action pol positions lookup s a)"
      using Cons.prems assms(3) by (intro filter_action_projection) auto
    then show ?case using Cons.IH Cons.prems by simp
  qed simp
  from this [of "\<lparr>fs_open = open_count, fs_position = pos, fs_accepted = [], fs_decisions = []\<rparr>"]
  show ?thesis using assms by (auto simp: filter_loop_def projection_ok_def Let_def)
qed

definition demo_risk_policy :: risk_policy where
  "demo_risk_policy = RiskPolicy 5 None 1000 100 (1 / 5) 10 10 10 None None"

definition demo_action :: "string \<Rightarrow> dec \<Rightarrow> dec \<Rightarrow> lifecycle_action" where
  "demo_action side price qty = \<lparr>la_type = SUBMIT, la_symbol = ''BTCTRY'', la_side = side, la_price = price, la_qty = qty,
     la_reason = ''new_intent'', la_client_order_id = None, la_exchange_order_id = None, la_replace_for = None\<rparr>"

lemma demo_action_notional: "action_notional (demo_action side 100 6) = 600"
  using fits_of_int [of 600] by (simp add: action_notional_def demo_action_def dmul_def fits_def)

definition demo_pnl :: pnl_snapshot where
  "demo_pnl = \<lparr>pn_total_equity_try = 1000, pn_realized_today_try = 0, pn_drawdown_pct = 0, pn_ts = 0, pn_realized_total_try = 0\<rparr>"

lemma demo_filter_accepts:
  "fst (filter_actions demo_risk_policy 0 0 demo_pnl [] [] [demo_action ''buy'' 100 6, demo_action ''buy'' 100 6])
     = [demo_action ''buy'' 100 6]"
  by code_simp

theorem filter_actions_sound_witness:
  "admissible demo_risk_policy [] (demo_action ''buy'' 100 6)"
proof -
  let ?actions = "[demo_action ''buy'' 100 6, demo_action ''buy'' 100 6]"
  have "\<forall>a \<in> set (fst (filter_actions demo_risk_policy 0 0 demo_pnl [] [] ?actions)). admissible demo_risk_policy [] a"
    using filter_actions_sound [where pol = demo_risk_policy and open_count = 0 and pos = 0 and pnl = demo_pnl
        and positions = "[]" and lookup = "[]" and actions = ?actions] by (simp add: split_def)
  then show ?thesis by (simp add: demo_filter_accepts)
qed

theorem filter_exposure_bounded_witness:
  "let s = filter_loop demo_risk_policy [] [] 0 0 [demo_action ''buy'' 100 6, demo_action ''buy'' 100 6] in
      fs_position s = exposure 0 (fs_accepted s) \<and> exposure 0 (fs_accepted s) \<le> max 0 1000 \<and> fs_open s \<le> max 0 5"
proof -
  have m: "money_ok demo_risk_policy 0 (max 0 (rp_max_position_notional_try demo_risk_policy)) (demo_action ''buy'' 100 6)"
    unfolding money_ok_def demo_action_notional
    by (auto simp: demo_risk_policy_def RiskPolicy_def grid_multiple_def bpow_def intro: exI [of _ 600])
  have b: "is_buy (demo_action ''buy'' 100 6)" by (simp add: is_buy_def demo_action_def) code_simp
  show ?thesis
    using filter_exposure_bounded [of 0 0 0 "[demo_action ''buy'' 100 6, demo_action ''buy'' 100 6]" demo_risk_policy "[]" "[]"] m b
    by (simp add: demo_risk_policy_def RiskPolicy_def)
qed

text \<open>
  A refused sell leaves the projection reduced: with 1000 held and a limit of 1000, a sell of 600
  below the required price is refused, and the buy of 600 that follows is accepted, although the
  exposure of the accepted actions is 1600.
\<close>

definition demo_positions :: "(string, s4_position) dict" where
  "demo_positions = [(''BTCTRY'', \<lparr>p4_symbol = ''BTCTRY'', p4_qty = 10, p4_avg_cost_try = 100, p4_realized_pnl_try = 0, p4_last_update_ts = 0\<rparr>)]"

lemma rejected_sell_frees_budget:
  "let s = filter_loop demo_risk_policy demo_positions [] 0 1000 [demo_action ''sell'' 100 6, demo_action ''buy'' 100 6] in
     map rd_reason (fs_decisions s) = [R_min_profit_threshold, R_accepted] \<and> exposure 1000 (fs_accepted s) = 1600"
  by code_simp

end
