(* ===== verification/Strategy_Core.thy ===== *)
theory Strategy_Core
  imports Symbols Py_Decimal
begin

text \<open>
  The values strategies exchange with the rest of the program,
  \<open>src/src/btcbot/domain/strategy_core.py\<close>.  A constructor with a \<open>__post_init__\<close> is a function
  that returns the normalised record or the exception it raises.
\<close>

subsection \<open>Definitions\<close>

datatype signal = Signal_BUY | Signal_SELL | Signal_HOLD

record orderbook_summary =
  ob_best_bid :: dec
  ob_best_ask :: dec

definition OrderBookSummary :: "dec \<Rightarrow> dec \<Rightarrow> orderbook_summary result" where
  "OrderBookSummary best_bid best_ask =
     (if best_bid \<le> 0 then Inl (ValueError ''best_bid must be > 0'')
      else if best_ask \<le> 0 then Inl (ValueError ''best_ask must be > 0'')
      else if best_ask < best_bid then Inl (ValueError ''best_bid must be <= best_ask'')
      else Inr \<lparr>ob_best_bid = best_bid, ob_best_ask = best_ask\<rparr>)"

record position_summary =
  ps_symbol :: string
  ps_qty :: dec
  ps_avg_cost :: dec

definition PositionSummary :: "string \<Rightarrow> dec \<Rightarrow> dec \<Rightarrow> position_summary" where
  "PositionSummary symb qty avg_cost = \<lparr>ps_symbol = normalize_symbol symb, ps_qty = qty, ps_avg_cost = avg_cost\<rparr>"

record open_orders_summary =
  oos_buy_count :: int
  oos_sell_count :: int

record strategy_knobs =
  sk_anchor_price :: "dec option"
  sk_mean_reversion_bps :: dec
  sk_max_notional_try :: dec
  sk_bootstrap_notional_try :: dec

record strategy_context =
  sc_timestamp :: instant
  sc_symbol :: string
  sc_mark_price :: dec
  sc_orderbook :: orderbook_summary
  sc_balances :: "(string, dec) dict"
  sc_position :: "position_summary option"
  sc_open_orders :: open_orders_summary
  sc_knobs :: strategy_knobs

text \<open>Instants are aware time stamps, so the check of the time zone always succeeds.\<close>

definition StrategyContext ::
  "instant \<Rightarrow> string \<Rightarrow> dec \<Rightarrow> orderbook_summary \<Rightarrow> (string, dec) dict \<Rightarrow> position_summary option \<Rightarrow>
   open_orders_summary \<Rightarrow> strategy_knobs \<Rightarrow> strategy_context" where
  "StrategyContext ts symb mark_price orderbook balances pos open_orders knobs =
     \<lparr>sc_timestamp = ts, sc_symbol = normalize_symbol symb, sc_mark_price = mark_price, sc_orderbook = orderbook,
      sc_balances = dict_comp str_upper (\<lambda>v. v) balances, sc_position = pos, sc_open_orders = open_orders,
      sc_knobs = knobs\<rparr>"

record intent =
  si_symbol :: string
  si_side :: string
  si_intent_type :: string
  si_target_notional_try :: "dec option"
  si_rationale :: string
  si_strategy_id :: string
  si_confidence :: "dec option"

definition Intent ::
  "string \<Rightarrow> string \<Rightarrow> string \<Rightarrow> dec option \<Rightarrow> string \<Rightarrow> string \<Rightarrow> dec option \<Rightarrow> intent result" where
  "Intent symb side intent_type target rationale strategy_id confidence =
     (let x = \<lparr>si_symbol = normalize_symbol symb, si_side = side, si_intent_type = intent_type,
               si_target_notional_try = target, si_rationale = rationale, si_strategy_id = strategy_id,
               si_confidence = confidence\<rparr>
      in if side \<notin> set [''buy'', ''sell''] then Inl (ValueError ''side must be one of: buy, sell'')
         else if intent_type \<notin> set [''place'', ''cancel'', ''replace'']
           then Inl (ValueError ''intent_type must be one of: place, cancel, replace'')
         else if intent_type = ''place'' \<and> target = None then Inl (ValueError ''target_notional_try is required'')
         else if intent_type = ''place'' \<and> the target \<le> 0 then Inl (ValueError ''target_notional_try must be > 0'')
         else if intent_type \<noteq> ''place'' \<and> target \<noteq> None then Inl (ValueError ''target_notional_try must be None'')
         else (case confidence of
                 None \<Rightarrow> Inr x
               | Some c \<Rightarrow> if c < 0 \<or> 1 < c then Inl (ValueError ''confidence must be between 0 and 1'') else Inr x))"

text \<open>What the constructor guarantees of an intent.\<close>

definition intent_ok :: "intent \<Rightarrow> bool" where
  "intent_ok x \<longleftrightarrow> si_side x \<in> set [''buy'', ''sell''] \<and> si_symbol x = normalize_symbol (si_symbol x)
     \<and> (if si_intent_type x = ''place'' then \<exists>n. si_target_notional_try x = Some n \<and> 0 < n
        else si_target_notional_try x = None)
     \<and> (\<forall>c. si_confidence x = Some c \<longrightarrow> 0 \<le> c \<and> c \<le> 1)"

lemma Intent_ok:
  assumes "Intent symb side ty target r sid conf = Inr x"
  shows "intent_ok x"
proof -
  have x: "x = \<lparr>si_symbol = normalize_symbol symb, si_side = side, si_intent_type = ty, si_target_notional_try = target,
      si_rationale = r, si_strategy_id = sid, si_confidence = conf\<rparr>"
    using assms by (simp add: Intent_def Let_def split: if_splits option.splits del: set_simps)
  have "side \<in> set [''buy'', ''sell'']" "ty = ''place'' \<Longrightarrow> target \<noteq> None \<and> 0 < the target"
    "ty \<noteq> ''place'' \<Longrightarrow> target = None" "\<forall>c. conf = Some c \<longrightarrow> 0 \<le> c \<and> c \<le> 1"
    using assms by (simp_all add: Intent_def Let_def split: if_splits option.splits del: set_simps)
  then show ?thesis by (simp add: x intent_ok_def del: set_simps) force
qed

end
