(* ===== verification/Allocation.thy ===== *)
theory Allocation
  imports Strategy_Core
begin

text \<open>
  The allocation of cash to intents, \<open>src/src/btcbot/domain/allocation.py\<close> and
  \<open>src/src/btcbot/services/allocation_service.py\<close>.

  A limit that the code sets to \<open>Decimal("Infinity")\<close> is \<open>None\<close>.  The strings that the code
  composes from decimals (the usage reason, the diagnostics) are typed data here.

  The lemmas bound what a cycle spends: the buys stay within the deployable budget, and with
  the fee buffer within the cash above the reserve; the cycle cap bounds buys and sells
  together.  Every rounding of the decimal context is accounted for by a factor \<open>dec_slack\<close>.
\<close>

subsection \<open>Definitions\<close>

datatype alloc_reason = A_ok | A_not_implemented | A_no_mark_price | A_cash_target | A_min_notional | A_max_intent_cap
  | A_cycle_notional_cap | A_max_position_exposure_cap | A_no_position | A_position_value_cap

datatype alloc_status = AS_accepted | AS_scaled | AS_rejected

record alloc_knobs =
  ak_target_try_cash :: dec
  ak_try_cash_max :: dec
  ak_min_order_notional_try :: dec
  ak_fee_buffer_bps :: dec
  ak_fee_buffer_ratio :: dec
  ak_max_intent_notional_try :: dec
  ak_max_position_try_per_symbol :: dec
  ak_max_total_notional_try_per_cycle :: dec
  ak_investable_usage_mode :: string
  ak_investable_usage_fraction :: dec
  ak_max_try_per_cycle :: dec

record sized_action =
  sa_symbol :: string
  sa_side :: string
  sa_notional_try :: dec
  sa_qty :: dec
  sa_rationale :: alloc_reason
  sa_strategy_id :: string
  sa_intent_index :: nat

type_synonym alloc_limits = "(alloc_reason, dec option) dict"

record alloc_diagnostics =
  ad_computed_notional :: dec
  ad_required_min :: dec
  ad_computed_qty :: dec
  ad_adjusted_qty :: "dec option"
  ad_price_used :: dec
  ad_cap_limits :: alloc_limits
  ad_blocking_cap :: "alloc_reason option"
  ad_fee_buffer_ratio :: dec

record alloc_decision =
  al_symbol :: string
  al_side :: string
  al_intent_type :: string
  al_requested :: "dec option"
  al_allocated :: "dec option"
  al_qty :: "dec option"
  al_status :: alloc_status
  al_reason :: alloc_reason
  al_strategy_id :: string
  al_intent_index :: nat
  al_diagnostics :: "alloc_diagnostics option"

type_synonym alloc_counters = "(alloc_status \<times> alloc_reason option, int) dict"

datatype usage_part = U_use_all | U_fraction dec | U_cap dec | U_try_cash_max dec

record alloc_result =
  ar_actions :: "sized_action list"
  ar_decisions :: "alloc_decision list"
  ar_counters :: alloc_counters
  ar_cash_try :: dec
  ar_try_cash_target :: dec
  ar_investable_total_try :: dec
  ar_investable_this_cycle_try :: dec
  ar_deploy_budget_try :: dec
  ar_planned_total_try :: dec
  ar_unused_budget_try :: dec
  ar_investable_usage :: "usage_part list"

definition usage_mode_budget :: "dec \<Rightarrow> alloc_knobs \<Rightarrow> dec \<times> usage_part" where
  "usage_mode_budget tot knobs =
     (let mode = str_lower (str_strip (ak_investable_usage_mode knobs)) in
      if mode = ''fraction'' then
        let fraction = min (max (ak_investable_usage_fraction knobs) 0) 1 in (dmul tot fraction, U_fraction fraction)
      else if mode = ''cap'' then
        let cap = max (ak_max_try_per_cycle knobs) 0 in (min tot cap, U_cap cap)
      else (tot, U_use_all))"

definition resolve_investable_budget :: "dec \<Rightarrow> alloc_knobs \<Rightarrow> dec \<times> usage_part list" where
  "resolve_investable_budget tot knobs =
     (let (budget, part) = usage_mode_budget tot knobs in
      if 0 < ak_try_cash_max knobs then
        let capped = min budget (max (dsub (ak_try_cash_max knobs) (ak_target_try_cash knobs)) 0)
        in (capped, [part] @ (if capped \<noteq> budget then [U_try_cash_max (ak_try_cash_max knobs)] else []))
      else (budget, [part]))"

definition resolve_fee_buffer_ratio :: "alloc_knobs \<Rightarrow> dec" where
  "resolve_fee_buffer_ratio knobs =
     (if 0 < ak_fee_buffer_ratio knobs then max (ak_fee_buffer_ratio knobs) 0
      else ddiv (max (ak_fee_buffer_bps knobs) 0) 10000)"

definition apply_optional_cap :: "dec \<Rightarrow> dec \<Rightarrow> dec \<Rightarrow> dec" where
  "apply_optional_cap requested cap_value configured_cap =
     (if configured_cap \<le> 0 then requested else max cap_value 0)"

definition max_new_position_notional :: "dec \<Rightarrow> dec \<Rightarrow> dec option" where
  "max_new_position_notional current max_position =
     (if max_position \<le> 0 then None else Some (max (dsub max_position current) 0))"

fun min_limit :: "dec \<Rightarrow> dec option \<Rightarrow> dec" where
  "min_limit x None = x"
| "min_limit x (Some y) = min x y"

definition first_binding_reason :: "dec \<Rightarrow> dec \<Rightarrow> alloc_limits \<Rightarrow> alloc_reason list \<Rightarrow> alloc_reason" where
  "first_binding_reason requested allocated limits precedence =
     (if requested \<le> allocated then A_ok
      else case find (\<lambda>r. map_of limits r = Some (Some allocated)) precedence of
             Some r \<Rightarrow> r | None \<Rightarrow> last precedence)"

definition limit_at_least :: "alloc_limits \<Rightarrow> dec \<Rightarrow> alloc_reason \<Rightarrow> bool" where
  "limit_at_least limits x r = (case map_of limits r of Some (Some y) \<Rightarrow> x \<le> y | _ \<Rightarrow> True)"

record alloc_env =
  ae_positions :: "(string, position_summary) dict"
  ae_prices :: "(string, dec) dict"
  ae_knobs :: alloc_knobs
  ae_fee_buffer_ratio :: dec

record alloc_state =
  at_decisions :: "alloc_decision list"
  at_actions :: "sized_action list"
  at_counters :: alloc_counters
  at_deploy :: dec
  at_cycle :: dec

definition increment :: "alloc_status \<times> alloc_reason option \<Rightarrow> alloc_counters \<Rightarrow> alloc_counters" where
  "increment key counters = AList.update key (dict_get counters key 0 + 1) counters"

definition append_decision :: "alloc_decision \<Rightarrow> alloc_state \<Rightarrow> alloc_state" where
  "append_decision d s =
     s\<lparr>at_decisions := at_decisions s @ [d],
       at_counters := increment (al_status d, Some (al_reason d)) (increment (al_status d, None) (at_counters s))\<rparr>"

definition decision :: "intent \<Rightarrow> nat \<Rightarrow> alloc_status \<Rightarrow> alloc_reason \<Rightarrow> (dec \<times> dec) option \<Rightarrow> alloc_diagnostics option \<Rightarrow> alloc_decision" where
  "decision x i status reason sized diag =
     \<lparr>al_symbol = canonical_symbol (si_symbol x), al_side = si_side x, al_intent_type = si_intent_type x,
      al_requested = si_target_notional_try x, al_allocated = map_option fst sized, al_qty = map_option snd sized,
      al_status = status, al_reason = reason, al_strategy_id = si_strategy_id x, al_intent_index = i, al_diagnostics = diag\<rparr>"

definition reject_intent :: "intent \<Rightarrow> nat \<Rightarrow> alloc_reason \<Rightarrow> alloc_diagnostics option \<Rightarrow> alloc_state \<Rightarrow> alloc_state" where
  "reject_intent x i reason diag s = append_decision (decision x i AS_rejected reason None diag) s"

text \<open>The caps that apply to an intent, in the order of precedence; only the last can be absent.\<close>

definition intent_cap :: "alloc_knobs \<Rightarrow> alloc_limits" where
  "intent_cap knobs = (if 0 < ak_max_intent_notional_try knobs then [(A_max_intent_cap, Some (ak_max_intent_notional_try knobs))] else [])"

definition buy_limits :: "alloc_env \<Rightarrow> alloc_state \<Rightarrow> string \<Rightarrow> dec \<Rightarrow> dec \<Rightarrow> alloc_limits" where
  "buy_limits env s symb requested price =
     (let knobs = ae_knobs env;
          current = (case map_of (ae_positions env) symb of None \<Rightarrow> 0 | Some p \<Rightarrow> if 0 < ps_qty p then dmul (ps_qty p) price else 0)
      in [(A_cash_target, Some (at_deploy s)),
          (A_max_position_exposure_cap, max_new_position_notional current (ak_max_position_try_per_symbol knobs)),
          (A_cycle_notional_cap, Some (apply_optional_cap requested (at_cycle s) (ak_max_total_notional_try_per_cycle knobs)))]
         @ intent_cap knobs)"

definition sell_limits :: "alloc_env \<Rightarrow> alloc_state \<Rightarrow> position_summary \<Rightarrow> dec \<Rightarrow> dec \<Rightarrow> alloc_limits" where
  "sell_limits env s p requested price =
     (let knobs = ae_knobs env
      in [(A_position_value_cap, Some (dmul (ps_qty p) price)),
          (A_cycle_notional_cap, Some (apply_optional_cap requested (at_cycle s) (ak_max_total_notional_try_per_cycle knobs)))]
         @ intent_cap knobs)"

text \<open>The common part of the two sides: the smallest cap, the raise to the minimum, the action.\<close>

definition commit_intent :: "alloc_env \<Rightarrow> intent \<Rightarrow> nat \<Rightarrow> dec \<Rightarrow> dec \<Rightarrow> alloc_reason \<Rightarrow> alloc_diagnostics \<Rightarrow> dec \<Rightarrow> alloc_state \<Rightarrow> alloc_state" where
  "commit_intent env x i requested allocated binding diag price s =
     (let reason = (if allocated = requested then A_ok else binding);
          qty = ddiv allocated price;
          s1 = append_decision (decision x i (if reason = A_ok then AS_accepted else AS_scaled) reason (Some (allocated, qty)) (Some diag)) s
      in s1\<lparr>at_actions := at_actions s1 @ [\<lparr>sa_symbol = canonical_symbol (si_symbol x), sa_side = si_side x,
              sa_notional_try = allocated, sa_qty = qty, sa_rationale = reason, sa_strategy_id = si_strategy_id x,
              sa_intent_index = i\<rparr>],
            at_deploy := (if si_side x = ''buy'' then dsub (at_deploy s1) allocated else at_deploy s1),
            at_cycle := (if 0 < ak_max_total_notional_try_per_cycle (ae_knobs env) then dsub (at_cycle s1) allocated
                         else at_cycle s1)\<rparr>)"

definition size_intent :: "alloc_env \<Rightarrow> intent \<Rightarrow> nat \<Rightarrow> dec \<Rightarrow> dec \<Rightarrow> alloc_limits \<Rightarrow> alloc_state \<Rightarrow> alloc_state" where
  "size_intent env x i requested price limits s =
     (let knobs = ae_knobs env; precedence = map fst limits;
          allocated = foldl min_limit requested (map snd limits);
          binding = first_binding_reason requested allocated limits precedence;
          diag = \<lparr>ad_computed_notional = allocated, ad_required_min = ak_min_order_notional_try knobs,
                  ad_computed_qty = ddiv allocated price, ad_adjusted_qty = None, ad_price_used = price,
                  ad_cap_limits = limits, ad_blocking_cap = None, ad_fee_buffer_ratio = ae_fee_buffer_ratio env\<rparr>;
          min_required = ak_min_order_notional_try knobs
      in if allocated < min_required then
           if list_all (limit_at_least limits min_required) (filter (\<lambda>r. r \<noteq> A_max_intent_cap) precedence)
           then commit_intent env x i requested min_required binding
                  (diag\<lparr>ad_adjusted_qty := Some (ddiv min_required price)\<rparr>) price s
           else
             let blocking = (case find (\<lambda>r. \<not> limit_at_least limits min_required r) precedence of Some r \<Rightarrow> r | None \<Rightarrow> binding)
             in reject_intent x i (if blocking = A_cash_target then A_cash_target else A_min_notional)
                  (Some (diag\<lparr>ad_blocking_cap := Some blocking\<rparr>)) s
         else commit_intent env x i requested allocated binding diag price s)"

definition allocate_intent :: "alloc_env \<Rightarrow> alloc_state \<Rightarrow> nat \<times> intent \<Rightarrow> alloc_state" where
  "allocate_intent env s ix =
     (let i = fst ix; x = snd ix; symb = canonical_symbol (si_symbol x) in
      if si_intent_type x \<noteq> ''place'' then reject_intent x i A_not_implemented None s
      else case si_target_notional_try x of
        None \<Rightarrow> reject_intent x i A_min_notional None s
      | Some requested \<Rightarrow>
          if requested \<le> 0 then reject_intent x i A_min_notional None s
          else if si_side x = ''buy'' then
            (case map_of (ae_prices env) symb of
               None \<Rightarrow> reject_intent x i A_no_mark_price None s
             | Some price \<Rightarrow>
                 if price \<le> 0 then reject_intent x i A_no_mark_price None s
                 else size_intent env x i requested price (buy_limits env s symb requested price) s)
          else
            (case map_of (ae_positions env) symb of
               None \<Rightarrow> reject_intent x i A_no_position None s
             | Some p \<Rightarrow>
                 if ps_qty p \<le> 0 then reject_intent x i A_no_position None s
                 else (case map_of (ae_prices env) symb of
                    None \<Rightarrow> reject_intent x i A_no_mark_price None s
                  | Some price \<Rightarrow>
                      if price \<le> 0 then reject_intent x i A_no_mark_price None s
                      else size_intent env x i requested price (sell_limits env s p requested price) s)))"

definition allocate ::
  "intent list \<Rightarrow> (string, dec) dict \<Rightarrow> (string, position_summary) dict \<Rightarrow> (string, dec) dict \<Rightarrow> alloc_knobs \<Rightarrow> alloc_result" where
  "allocate intents balances positions mark_prices knobs =
     (let cash_try = dict_get (dict_comp str_upper (\<lambda>v. v) balances) ''TRY'' 0;
          investable_total = max (dsub cash_try (ak_target_try_cash knobs)) 0;
          (investable_cycle, usage) = resolve_investable_budget investable_total knobs;
          fee_buffer_ratio = resolve_fee_buffer_ratio knobs;
          fee_multiplier = dadd 1 fee_buffer_ratio;
          deploy_budget = (if 0 < fee_multiplier then ddiv investable_cycle fee_multiplier else investable_cycle);
          env = \<lparr>ae_positions = dict_comp canonical_symbol (\<lambda>v. v) positions,
                 ae_prices = dict_comp canonical_symbol (\<lambda>v. v) mark_prices, ae_knobs = knobs,
                 ae_fee_buffer_ratio = fee_buffer_ratio\<rparr>;
          s = foldl (allocate_intent env) \<lparr>at_decisions = [], at_actions = [], at_counters = [], at_deploy = deploy_budget,
                at_cycle = ak_max_total_notional_try_per_cycle knobs\<rparr> (enumerate 0 intents);
          planned_total = dsum (map sa_notional_try (filter (\<lambda>a. sa_side a = ''buy'') (at_actions s)))
      in \<lparr>ar_actions = at_actions s, ar_decisions = at_decisions s, ar_counters = at_counters s, ar_cash_try = cash_try,
          ar_try_cash_target = ak_target_try_cash knobs, ar_investable_total_try = investable_total,
          ar_investable_this_cycle_try = investable_cycle, ar_deploy_budget_try = deploy_budget,
          ar_planned_total_try = planned_total, ar_unused_budget_try = max 0 (dsub deploy_budget planned_total),
          ar_investable_usage = usage\<rparr>)"

subsection \<open>One intent\<close>

lemma foldl_min_limit_le: "foldl min_limit x ys \<le> x"
proof (induction ys arbitrary: x)
  case (Cons y ys)
  then show ?case using Cons [of "min_limit x y"] by (cases y) auto
qed simp

lemma foldl_min_limit_le_limit: "Some y \<in> set ys \<Longrightarrow> foldl min_limit x ys \<le> y"
proof (induction ys arbitrary: x)
  case (Cons z ys)
  then show ?case using foldl_min_limit_le [of "min x y" ys] by auto
qed simp

lemma foldl_min_limit_nonneg: "0 \<le> x \<Longrightarrow> \<forall>y. Some y \<in> set ys \<longrightarrow> 0 \<le> y \<Longrightarrow> 0 \<le> foldl min_limit x ys"
proof (induction ys arbitrary: x)
  case (Cons y ys)
  have "0 \<le> min_limit x y" using Cons.prems by (cases y) auto
  then show ?case using Cons by simp
qed simp

text \<open>
  The allocated notional respects every cap but the one per intent, which the raise to the
  minimum ignores.
\<close>

definition within_limits :: "alloc_limits \<Rightarrow> dec \<Rightarrow> bool" where
  "within_limits limits a \<longleftrightarrow> 0 \<le> a \<and> (\<forall>r y. (r, Some y) \<in> set limits \<and> r \<noteq> A_max_intent_cap \<longrightarrow> a \<le> y)"

lemma size_intent_cases:
  assumes "dict_wf limits" "0 \<le> requested" "\<forall>r y. (r, Some y) \<in> set limits \<longrightarrow> 0 \<le> y"
  obtains (rejected) reason diag where "size_intent env x i requested price limits s = reject_intent x i reason diag s"
    | (sized) a binding diag where "size_intent env x i requested price limits s = commit_intent env x i requested a binding diag price s"
        "within_limits limits a"
proof -
  define a where "a = foldl min_limit requested (map snd limits)"
  define m where "m = ak_min_order_notional_try (ae_knobs env)"
  have a: "within_limits limits a"
    using assms(2,3) foldl_min_limit_le_limit [of _ "map snd limits" requested]
      foldl_min_limit_nonneg [of requested "map snd limits"]
    by (force simp: within_limits_def a_def)
  have m: "within_limits limits m" if "a < m" "list_all (limit_at_least limits m) (filter (\<lambda>r. r \<noteq> A_max_intent_cap) (map fst limits))"
    unfolding within_limits_def
  proof (intro conjI allI impI)
    show "0 \<le> m" using that(1) a by (simp add: within_limits_def)
    fix r y assume ry: "(r, Some y) \<in> set limits \<and> r \<noteq> A_max_intent_cap"
    then have "limit_at_least limits m r" using that(2) by (force simp: list_all_iff)
    then show "m \<le> y" using ry assms(1) by (auto simp: limit_at_least_def)
  qed
  consider (raise) "a < m" "list_all (limit_at_least limits m) (filter (\<lambda>r. r \<noteq> A_max_intent_cap) (map fst limits))"
    | (block) "a < m" "\<not> list_all (limit_at_least limits m) (filter (\<lambda>r. r \<noteq> A_max_intent_cap) (map fst limits))"
    | (plain) "\<not> a < m" by blast
  then show ?thesis
  proof cases
    case raise
    then have "\<exists>b d. size_intent env x i requested price limits s = commit_intent env x i requested m b d price s"
      by (auto simp: size_intent_def Let_def a_def [symmetric] m_def [symmetric])
    then show ?thesis using sized m [OF raise] by blast
  next
    case block
    then have "\<exists>r d. size_intent env x i requested price limits s = reject_intent x i r d s"
      by (auto simp: size_intent_def Let_def a_def [symmetric] m_def [symmetric])
    then show ?thesis using rejected by blast
  next
    case plain
    then have "\<exists>b d. size_intent env x i requested price limits s = commit_intent env x i requested a b d price s"
      by (auto simp: size_intent_def Let_def a_def [symmetric] m_def [symmetric])
    then show ?thesis using sized a by blast
  qed
qed

text \<open>What a turn does to the two running budgets.\<close>

definition buys :: "sized_action list \<Rightarrow> rat" where
  "buys as = sum_list (map sa_notional_try (filter (\<lambda>a. sa_side a = ''buy'') as))"

definition volume :: "sized_action list \<Rightarrow> rat" where
  "volume as = sum_list (map sa_notional_try as)"

definition budget_step :: "alloc_knobs \<Rightarrow> alloc_state \<Rightarrow> alloc_state \<Rightarrow> bool" where
  "budget_step knobs s s' \<longleftrightarrow>
     (at_actions s' = at_actions s \<and> at_deploy s' = at_deploy s \<and> at_cycle s' = at_cycle s) \<or>
     (\<exists>act. at_actions s' = at_actions s @ [act] \<and> 0 \<le> sa_notional_try act \<and>
        at_deploy s' = (if sa_side act = ''buy'' then dsub (at_deploy s) (sa_notional_try act) else at_deploy s) \<and>
        (sa_side act = ''buy'' \<longrightarrow> sa_notional_try act \<le> at_deploy s) \<and>
        (0 < ak_max_total_notional_try_per_cycle knobs \<longrightarrow>
           at_cycle s' = dsub (at_cycle s) (sa_notional_try act) \<and> sa_notional_try act \<le> max (at_cycle s) 0))"

lemma reject_budget_step: "budget_step knobs s (reject_intent x i reason diag s)"
  by (simp add: budget_step_def reject_intent_def append_decision_def)

lemma commit_budget_step:
  assumes "0 \<le> a" "si_side x = ''buy'' \<Longrightarrow> a \<le> at_deploy s"
    and "0 < ak_max_total_notional_try_per_cycle (ae_knobs env) \<Longrightarrow> a \<le> max (at_cycle s) 0"
  shows "budget_step (ae_knobs env) s (commit_intent env x i requested a binding diag price s)"
  using assms by (auto simp: budget_step_def commit_intent_def append_decision_def Let_def)

lemma intent_cap_facts: "(r, Some y) \<in> set (intent_cap knobs) \<Longrightarrow> r = A_max_intent_cap \<and> 0 \<le> y"
  "(r, None) \<notin> set (intent_cap knobs)" "map fst (intent_cap knobs) \<in> {[], [A_max_intent_cap]}"
  by (auto simp: intent_cap_def split: if_splits)

lemma buy_limits_ok:
  assumes "0 \<le> at_deploy s" "0 \<le> requested"
  shows "dict_wf (buy_limits env s symb requested price)"
    "\<forall>r y. (r, Some y) \<in> set (buy_limits env s symb requested price) \<longrightarrow> 0 \<le> y"
    "within_limits (buy_limits env s symb requested price) a \<Longrightarrow> a \<le> at_deploy s"
    "within_limits (buy_limits env s symb requested price) a \<Longrightarrow> 0 < ak_max_total_notional_try_per_cycle (ae_knobs env)
      \<Longrightarrow> a \<le> max (at_cycle s) 0"
  using assms
  by (auto simp: buy_limits_def Let_def intent_cap_def within_limits_def max_new_position_notional_def apply_optional_cap_def
      split: if_splits)

lemma sell_limits_ok:
  assumes "0 < ps_qty p" "0 < price" "0 \<le> requested"
  shows "dict_wf (sell_limits env s p requested price)"
    "\<forall>r y. (r, Some y) \<in> set (sell_limits env s p requested price) \<longrightarrow> 0 \<le> y"
    "within_limits (sell_limits env s p requested price) a \<Longrightarrow> 0 < ak_max_total_notional_try_per_cycle (ae_knobs env)
      \<Longrightarrow> a \<le> max (at_cycle s) 0"
  using assms
  by (auto simp: sell_limits_def Let_def intent_cap_def within_limits_def apply_optional_cap_def dec_sign less_imp_le
      split: if_splits)

lemma size_budget_step:
  assumes "dict_wf limits" "0 \<le> requested" "\<forall>r y. (r, Some y) \<in> set limits \<longrightarrow> 0 \<le> y"
    and "\<And>a. within_limits limits a \<Longrightarrow> si_side x = ''buy'' \<Longrightarrow> a \<le> at_deploy s"
    and "\<And>a. within_limits limits a \<Longrightarrow> 0 < ak_max_total_notional_try_per_cycle (ae_knobs env) \<Longrightarrow> a \<le> max (at_cycle s) 0"
  shows "budget_step (ae_knobs env) s (size_intent env x i requested price limits s)"
  using assms(1-3)
proof (cases rule: size_intent_cases [where env = env and x = x and i = i and price = price and s = s])
  case (sized a binding diag)
  then show ?thesis using assms(4,5) [OF sized(2)] commit_budget_step [of a x s env] by (simp add: within_limits_def)
qed (simp add: reject_budget_step)

lemma allocate_intent_step:
  assumes "0 \<le> at_deploy s"
  shows "budget_step (ae_knobs env) s (allocate_intent env s (i, x))"
proof -
  have buy: "budget_step (ae_knobs env) s (size_intent env x i requested price (buy_limits env s symb requested price) s)"
    if "0 < requested" for requested price symb
    using buy_limits_ok [OF assms less_imp_le [OF that], of env symb price] that
    by (intro size_budget_step) (auto simp: less_imp_le)
  have sell: "budget_step (ae_knobs env) s (size_intent env x i requested price (sell_limits env s p requested price) s)"
    if "0 < requested" "si_side x \<noteq> ''buy''" "0 < ps_qty p" "0 < price" for requested price p
    using sell_limits_ok [OF that(3,4) less_imp_le [OF that(1)], of env s] that
    by (intro size_budget_step) (auto simp: less_imp_le)
  show ?thesis
    using buy sell by (simp add: allocate_intent_def Let_def reject_budget_step not_le split: option.split)
qed

subsection \<open>A cycle\<close>

text \<open>The invariant of the loop after \<open>n\<close> intents.\<close>

definition budget_inv :: "alloc_knobs \<Rightarrow> dec \<Rightarrow> nat \<Rightarrow> alloc_state \<Rightarrow> bool" where
  "budget_inv knobs deploy n s \<longleftrightarrow> 0 \<le> at_deploy s \<and> (\<forall>a \<in> set (at_actions s). 0 \<le> sa_notional_try a) \<and>
     buys (at_actions s) + at_deploy s \<le> deploy * dec_slack ^ n \<and>
     (0 < ak_max_total_notional_try_per_cycle knobs \<longrightarrow> 0 \<le> at_cycle s \<and>
        volume (at_actions s) + at_cycle s \<le> ak_max_total_notional_try_per_cycle knobs * dec_slack ^ n)"

lemma buys_snoc: "buys (as @ [a]) = buys as + (if sa_side a = ''buy'' then sa_notional_try a else 0)"
  by (simp add: buys_def)

lemma volume_snoc: "volume (as @ [a]) = volume as + sa_notional_try a"
  by (simp add: volume_def)

lemma buys_nonneg: "\<forall>a \<in> set as. 0 \<le> sa_notional_try a \<Longrightarrow> 0 \<le> buys as"
  unfolding buys_def by (rule sum_list_nonneg) auto

lemma volume_nonneg: "\<forall>a \<in> set as. 0 \<le> sa_notional_try a \<Longrightarrow> 0 \<le> volume as"
  unfolding volume_def by (rule sum_list_nonneg) auto

text \<open>Spending \<open>a\<close> out of \<open>r\<close>: spent and remaining grow by at most one rounding.\<close>

lemma spend_step:
  assumes "0 \<le> b" "0 \<le> a" "a \<le> r" "b + r \<le> x"
  shows "0 \<le> dsub r a" "b + a + dsub r a \<le> x * dec_slack"
proof -
  show "0 \<le> dsub r a" using assms by (simp add: dec_sign)
  have "dsub r a \<le> (r - a) * dec_slack" using drnd_upper [of "r - a"] assms by (simp add: dsub_def)
  moreover have "b + a \<le> (b + a) * dec_slack" using assms mult_left_mono [of 1 dec_slack "b + a"] by simp
  ultimately have "b + a + dsub r a \<le> (b + r) * dec_slack" by (simp add: algebra_simps)
  also have "\<dots> \<le> x * dec_slack" using assms(4) by (intro mult_right_mono) auto
  finally show "b + a + dsub r a \<le> x * dec_slack" .
qed

lemma slack_step: "0 \<le> x \<Longrightarrow> x \<le> y * dec_slack ^ n \<Longrightarrow> x \<le> y * dec_slack ^ Suc n"
proof -
  assume x: "0 \<le> x" "x \<le> y * dec_slack ^ n"
  then have "x * 1 \<le> (y * dec_slack ^ n) * dec_slack" by (intro mult_mono) auto
  then show ?thesis by (simp add: ac_simps)
qed

lemma budget_inv_step:
  assumes I: "budget_inv knobs deploy n s" and step: "budget_step knobs s s'"
  shows "budget_inv knobs deploy (Suc n) s'"
proof -
  have nn: "0 \<le> at_deploy s" "0 \<le> buys (at_actions s)" "0 \<le> volume (at_actions s)"
    using I buys_nonneg volume_nonneg by (auto simp: budget_inv_def)
  note up = slack_step [of _ deploy n] slack_step [of _ "ak_max_total_notional_try_per_cycle knobs" n]
  from step show ?thesis
    unfolding budget_step_def
  proof (elim disjE exE conjE)
    assume "at_actions s' = at_actions s" "at_deploy s' = at_deploy s" "at_cycle s' = at_cycle s"
    then show ?thesis using I nn up by (simp add: budget_inv_def)
  next
    fix act
    assume a: "at_actions s' = at_actions s @ [act]" "0 \<le> sa_notional_try act"
      "at_deploy s' = (if sa_side act = ''buy'' then dsub (at_deploy s) (sa_notional_try act) else at_deploy s)"
      "sa_side act = ''buy'' \<longrightarrow> sa_notional_try act \<le> at_deploy s"
      "0 < ak_max_total_notional_try_per_cycle knobs \<longrightarrow>
         at_cycle s' = dsub (at_cycle s) (sa_notional_try act) \<and> sa_notional_try act \<le> max (at_cycle s) 0"
    have "0 \<le> at_deploy s' \<and> buys (at_actions s') + at_deploy s' \<le> deploy * dec_slack ^ Suc n"
    proof (cases "sa_side act = ''buy''")
      case True
      then show ?thesis
        using spend_step [of "buys (at_actions s)" "sa_notional_try act" "at_deploy s" "deploy * dec_slack ^ n"] I nn a
        by (simp add: budget_inv_def buys_snoc ac_simps)
    next
      case False
      then show ?thesis using I nn a up(1) by (simp add: budget_inv_def buys_snoc)
    qed
    moreover have "0 \<le> at_cycle s' \<and> volume (at_actions s') + at_cycle s' \<le> ak_max_total_notional_try_per_cycle knobs * dec_slack ^ Suc n"
      if "0 < ak_max_total_notional_try_per_cycle knobs"
      using spend_step [of "volume (at_actions s)" "sa_notional_try act" "at_cycle s"
          "ak_max_total_notional_try_per_cycle knobs * dec_slack ^ n"] I nn a that
      by (simp add: budget_inv_def volume_snoc ac_simps max_def split: if_splits)
    ultimately show ?thesis using I a(1,2) by (auto simp: budget_inv_def)
  qed
qed

lemma budget_inv_loop:
  "budget_inv (ae_knobs env) deploy n s \<Longrightarrow> budget_inv (ae_knobs env) deploy (n + length xs) (foldl (allocate_intent env) s xs)"
proof (induction xs arbitrary: s n)
  case (Cons ix xs)
  have "budget_inv (ae_knobs env) deploy (Suc n) (allocate_intent env s ix)"
    using allocate_intent_step [of s env "fst ix" "snd ix"] Cons.prems
    by (intro budget_inv_step) (auto simp: budget_inv_def)
  then show ?case using Cons.IH by fastforce
qed simp

lemma usage_mode_budget_le:
  assumes "0 \<le> tot" "fits tot"
  shows "0 \<le> fst (usage_mode_budget tot knobs)" "fst (usage_mode_budget tot knobs) \<le> tot"
proof -
  have "dmul tot f \<le> tot" if "0 \<le> f" "f \<le> 1" for f
    unfolding dmul_def by (rule drnd_le_fits [OF assms(2)]) (use assms(1) that in \<open>simp add: mult_left_le\<close>)
  then show "0 \<le> fst (usage_mode_budget tot knobs)" "fst (usage_mode_budget tot knobs) \<le> tot"
    using assms by (auto simp: usage_mode_budget_def Let_def dec_sign)
qed

lemma resolve_budget_le:
  assumes "0 \<le> tot" "fits tot"
  shows "0 \<le> fst (resolve_investable_budget tot knobs)" "fst (resolve_investable_budget tot knobs) \<le> tot"
  using usage_mode_budget_le [OF assms, of knobs]
  by (auto simp: resolve_investable_budget_def Let_def split_def)

lemma resolve_fee_nonneg: "0 \<le> resolve_fee_buffer_ratio knobs"
  by (simp add: resolve_fee_buffer_ratio_def dec_sign)

text \<open>The quantities of a call of \<open>allocate\<close>.\<close>

definition alloc_env_of :: "(string, position_summary) dict \<Rightarrow> (string, dec) dict \<Rightarrow> alloc_knobs \<Rightarrow> alloc_env" where
  "alloc_env_of positions mark_prices knobs =
     \<lparr>ae_positions = dict_comp canonical_symbol (\<lambda>v. v) positions,
      ae_prices = dict_comp canonical_symbol (\<lambda>v. v) mark_prices, ae_knobs = knobs,
      ae_fee_buffer_ratio = resolve_fee_buffer_ratio knobs\<rparr>"

definition alloc_start :: "dec \<Rightarrow> alloc_knobs \<Rightarrow> alloc_state" where
  "alloc_start deploy knobs = \<lparr>at_decisions = [], at_actions = [], at_counters = [], at_deploy = deploy,
     at_cycle = ak_max_total_notional_try_per_cycle knobs\<rparr>"

lemma allocate_fields:
  fixes intents balances positions mark_prices knobs
  defines "R \<equiv> allocate intents balances positions mark_prices knobs"
  shows "ar_actions R = at_actions (foldl (allocate_intent (alloc_env_of positions mark_prices knobs))
      (alloc_start (ar_deploy_budget_try R) knobs) (enumerate 0 intents))"
    "ar_decisions R = at_decisions (foldl (allocate_intent (alloc_env_of positions mark_prices knobs))
      (alloc_start (ar_deploy_budget_try R) knobs) (enumerate 0 intents))"
    "ar_deploy_budget_try R = ddiv (ar_investable_this_cycle_try R) (dadd 1 (resolve_fee_buffer_ratio knobs))"
    "ar_investable_this_cycle_try R = fst (resolve_investable_budget (ar_investable_total_try R) knobs)"
    "ar_investable_total_try R = max (dsub (ar_cash_try R) (ak_target_try_cash knobs)) 0"
proof -
  have m: "0 < dadd 1 (resolve_fee_buffer_ratio knobs)"
    using resolve_fee_nonneg [of knobs] by (simp add: dec_sign)
  show "ar_actions R = at_actions (foldl (allocate_intent (alloc_env_of positions mark_prices knobs))
      (alloc_start (ar_deploy_budget_try R) knobs) (enumerate 0 intents))"
    "ar_decisions R = at_decisions (foldl (allocate_intent (alloc_env_of positions mark_prices knobs))
      (alloc_start (ar_deploy_budget_try R) knobs) (enumerate 0 intents))"
    "ar_deploy_budget_try R = ddiv (ar_investable_this_cycle_try R) (dadd 1 (resolve_fee_buffer_ratio knobs))"
    "ar_investable_this_cycle_try R = fst (resolve_investable_budget (ar_investable_total_try R) knobs)"
    "ar_investable_total_try R = max (dsub (ar_cash_try R) (ak_target_try_cash knobs)) 0"
    unfolding R_def using m by (simp_all add: allocate_def Let_def split_def alloc_env_of_def alloc_start_def)
qed

lemma alloc_total_ok:
  fixes cash target :: dec
  defines "tot \<equiv> max (dsub cash target) 0"
  shows "0 \<le> tot" "fits tot" "tot \<le> max 0 (cash - target) * dec_slack"
proof -
  show "0 \<le> tot" "fits tot" by (simp_all add: tot_def max_def)
  show "tot \<le> max 0 (cash - target) * dec_slack"
  proof (cases "target \<le> cash")
    case True
    then show ?thesis using drnd_upper [of "cash - target"] by (simp add: tot_def dsub_def max_def)
  next
    case False
    then have "dsub cash target \<le> 0" using dsub_pos_iff [of cash target] by linarith
    then show ?thesis using False by (simp add: tot_def max_def)
  qed
qed

text \<open>(C21) The cash reserve is kept: the buys of a cycle together with the fee buffer cost at most the cash
  above the target, up to one decimal rounding per intent and two more; and every notional is
  non-negative.\<close>

theorem allocation_keeps_reserve:
  "let R = allocate intents balances positions mark_prices knobs in
     buys (ar_actions R) * dadd 1 (resolve_fee_buffer_ratio knobs)
       \<le> max 0 (ar_cash_try R - ak_target_try_cash knobs) * dec_slack ^ (length intents + 2)
     \<and> (\<forall>a \<in> set (ar_actions R). 0 \<le> sa_notional_try a)"
proof -
  define R where "R = allocate intents balances positions mark_prices knobs"
  let ?m = "dadd 1 (resolve_fee_buffer_ratio knobs)" and ?D = "ar_deploy_budget_try R"
    and ?I = "ar_investable_this_cycle_try R" and ?n = "length intents"
  note f = allocate_fields [of intents balances positions mark_prices knobs, folded R_def]
  note tot = alloc_total_ok [of "ar_cash_try R" "ak_target_try_cash knobs", folded f(5)]
  have m: "0 < ?m" using resolve_fee_nonneg [of knobs] by (simp add: dec_sign)
  have I: "0 \<le> ?I" "?I \<le> ar_investable_total_try R" using resolve_budget_le [OF tot(1,2)] by (simp_all add: f(4))
  have D: "0 \<le> ?D" "?D \<le> ?I / ?m * dec_slack" using I m ddiv_upper [of ?I ?m] ddiv_nonneg [of ?I ?m] by (simp_all add: f(3) less_imp_le)
  have "budget_inv knobs ?D 0 (alloc_start ?D knobs)"
    using D by (simp add: budget_inv_def alloc_start_def buys_def volume_def)
  then have inv: "budget_inv knobs ?D ?n (foldl (allocate_intent (alloc_env_of positions mark_prices knobs))
      (alloc_start ?D knobs) (enumerate 0 intents))"
    using budget_inv_loop [of "alloc_env_of positions mark_prices knobs" ?D 0 "alloc_start ?D knobs" "enumerate 0 intents"]
    by (simp add: alloc_env_of_def)
  then have "buys (ar_actions R) \<le> ?D * dec_slack ^ ?n" by (simp add: budget_inv_def f(1))
  also have "\<dots> \<le> ?I / ?m * dec_slack * dec_slack ^ ?n" using D by (intro mult_right_mono) auto
  finally have "buys (ar_actions R) * ?m \<le> ?I * dec_slack ^ (?n + 1)" using m by (simp add: field_simps)
  also have "\<dots> \<le> (max 0 (ar_cash_try R - ak_target_try_cash knobs) * dec_slack) * dec_slack ^ (?n + 1)"
    using I tot by (intro mult_right_mono) auto
  finally show ?thesis using inv unfolding R_def [symmetric] by (simp add: budget_inv_def f(1) ac_simps)
qed

text \<open>With a cap on the notional of a cycle, all actions of the cycle together, buys and sells, stay
  within it, up to one decimal rounding per intent.\<close>

theorem allocation_cycle_cap:
  fixes intents balances positions mark_prices knobs
  assumes "0 < ak_max_total_notional_try_per_cycle knobs"
  shows "volume (ar_actions (allocate intents balances positions mark_prices knobs))
    \<le> ak_max_total_notional_try_per_cycle knobs * dec_slack ^ length intents"
proof -
  define R where "R = allocate intents balances positions mark_prices knobs"
  note f = allocate_fields [of intents balances positions mark_prices knobs, folded R_def]
  note tot = alloc_total_ok [of "ar_cash_try R" "ak_target_try_cash knobs", folded f(5)]
  have "0 \<le> ar_deploy_budget_try R"
    using resolve_budget_le [OF tot(1,2)] resolve_fee_nonneg [of knobs] by (simp add: f(3,4) dec_sign)
  then have "budget_inv knobs (ar_deploy_budget_try R) 0 (alloc_start (ar_deploy_budget_try R) knobs)"
    using assms by (simp add: budget_inv_def alloc_start_def buys_def volume_def)
  then have "budget_inv knobs (ar_deploy_budget_try R) (length intents)
      (foldl (allocate_intent (alloc_env_of positions mark_prices knobs)) (alloc_start (ar_deploy_budget_try R) knobs) (enumerate 0 intents))"
    using budget_inv_loop [of "alloc_env_of positions mark_prices knobs" "ar_deploy_budget_try R" 0
        "alloc_start (ar_deploy_budget_try R) knobs" "enumerate 0 intents"]
    by (simp add: alloc_env_of_def)
  then show ?thesis using assms by (simp add: budget_inv_def f(1) R_def [symmetric])
qed

definition demo_knobs :: alloc_knobs where
  "demo_knobs = \<lparr>ak_target_try_cash = 300, ak_try_cash_max = 0, ak_min_order_notional_try = 10, ak_fee_buffer_bps = 0,
     ak_fee_buffer_ratio = 0, ak_max_intent_notional_try = 0, ak_max_position_try_per_symbol = 500,
     ak_max_total_notional_try_per_cycle = 900, ak_investable_usage_mode = ''use_all'',
     ak_investable_usage_fraction = 1, ak_max_try_per_cycle = 0\<rparr>"

definition demo_buy :: "dec \<Rightarrow> intent" where
  "demo_buy n = \<lparr>si_symbol = ''BTCTRY'', si_side = ''buy'', si_intent_type = ''place'', si_target_notional_try = Some n,
     si_rationale = [], si_strategy_id = ''s'', si_confidence = None\<rparr>"

definition demo_alloc :: "alloc_knobs \<Rightarrow> dec list \<Rightarrow> alloc_result" where
  "demo_alloc knobs ns = allocate (map demo_buy ns) [(''TRY'', 2000)] [] [(''BTCTRY'', 100)] knobs"

theorem allocation_keeps_reserve_witness:
  "let R = demo_alloc demo_knobs [500, 500] in
     buys (ar_actions R) * dadd 1 (resolve_fee_buffer_ratio demo_knobs)
       \<le> max 0 (ar_cash_try R - ak_target_try_cash demo_knobs) * dec_slack ^ 4
     \<and> length (ar_actions R) = 2"
proof -
  have "length (ar_actions (demo_alloc demo_knobs [500, 500])) = 2" by code_simp
  then show ?thesis
    using allocation_keeps_reserve [of "map demo_buy [500, 500]" "[(''TRY'', 2000)]" "[]" "[(''BTCTRY'', 100)]" demo_knobs]
    by (simp add: demo_alloc_def Let_def eval_nat_numeral)
qed

theorem allocation_cycle_cap_witness:
  "volume (ar_actions (demo_alloc demo_knobs [500, 500])) \<le> 900 * dec_slack ^ 2"
  using allocation_cycle_cap [of demo_knobs "map demo_buy [500, 500]" "[(''TRY'', 2000)]" "[]" "[(''BTCTRY'', 100)]"]
  by (simp add: demo_alloc_def demo_knobs_def power2_eq_square)

text \<open>
  Two caps hold for a single intent only.  The cap per symbol compares with the position at the
  start of the cycle: two buys of 450 and 450 pass a cap of 500.  And the raise of a small intent
  to the minimum order ignores the cap per intent: with a cap of 5 an intent for 8 is raised to 10.
\<close>

lemma symbol_cap_not_cumulative:
  "map sa_notional_try (ar_actions (demo_alloc demo_knobs [450, 450])) = [450, 450]"
  by code_simp

lemma raise_exceeds_intent_cap:
  "map sa_notional_try (ar_actions (demo_alloc (demo_knobs\<lparr>ak_max_intent_notional_try := 5\<rparr>) [8])) = [10]"
  by code_simp

end
