(* ===== verification/Portfolio_Accounting.thy ===== *)
theory Portfolio_Accounting
  imports Money
begin

text \<open>
  The self-financing accounting of \<open>src/src/btcbot/accounting/models.py\<close> and
  \<open>src/src/btcbot/accounting/ledger.py\<close>: events are deduplicated by identifier, replayed in the
  order of time and identifier, and summed up per symbol.

  The dictionary \<open>balances_try\<close> only ever has the key TRY; its value is \<open>al_cash\<close>.  The order
  in which duplicates are ranked compares the texts of decimals and of the metadata, which the
  values do not determine; \<open>texts\<close> is the function that gives these texts of an event.

  The lemmas show that the result depends on the set of events only, not on the order or the
  number of deliveries, and that the cash is the initial capital plus the cash flows of the
  replayed events.
\<close>

subsection \<open>Definitions: the models\<close>

definition quantize_money :: "dec \<Rightarrow> dec result" where
  "quantize_money value = round_quote value DEFAULT_MONEY_POLICY"

definition quantize_qty :: "dec \<Rightarrow> dec" where
  "quantize_qty value = round_qty value DEFAULT_MONEY_POLICY"

datatype accounting_event_type =
    FILL_RECORDED
  | FEE_RECORDED
  | FUNDING_COST_RECORDED
  | SLIPPAGE_RECORDED
  | TRANSFER
  | REBALANCE
  | WITHDRAWAL

fun accounting_type_name :: "accounting_event_type \<Rightarrow> string" where
  "accounting_type_name FILL_RECORDED = ''FILL_RECORDED''"
| "accounting_type_name FEE_RECORDED = ''FEE_RECORDED''"
| "accounting_type_name FUNDING_COST_RECORDED = ''FUNDING_COST_RECORDED''"
| "accounting_type_name SLIPPAGE_RECORDED = ''SLIPPAGE_RECORDED''"
| "accounting_type_name TRANSFER = ''TRANSFER''"
| "accounting_type_name REBALANCE = ''REBALANCE''"
| "accounting_type_name WITHDRAWAL = ''WITHDRAWAL''"

record accounting_event =
  av_event_id :: string
  av_ts :: instant
  av_type :: accounting_event_type
  av_symbol :: "string option"
  av_side :: "string option"
  av_qty :: dec
  av_price_try :: "dec option"
  av_amount_try :: "dec option"
  av_fee_currency :: "string option"
  av_reference_id :: "string option"

record accounting_lot =
  al_qty :: dec
  al_unit_cost_try :: dec
  al_opened_at :: instant

record symbol_pnl_state =
  sy_qty :: dec
  sy_avg_cost_try :: dec
  sy_realized_pnl_try :: dec
  sy_unrealized_pnl_try :: dec
  sy_fees_try :: dec
  sy_funding_cost_try :: dec
  sy_slippage_try :: dec

record portfolio_state =
  pf_as_of :: instant
  pf_balances_try :: "(string, dec) dict"
  pf_locked_try :: "(string, dec) dict"
  pf_treasury_try :: dec
  pf_trading_capital_try :: dec
  pf_realized_pnl_try :: dec
  pf_unrealized_pnl_try :: dec
  pf_fees_try :: dec
  pf_funding_cost_try :: dec
  pf_slippage_try :: dec
  pf_symbols :: "(string, symbol_pnl_state) dict"

definition equity_try :: "portfolio_state \<Rightarrow> dec result" where
  "equity_try p =
     quantize_money (dsub (dsub (dsub (dadd (dadd (dadd (pf_trading_capital_try p) (pf_treasury_try p))
       (pf_realized_pnl_try p)) (pf_unrealized_pnl_try p)) (pf_fees_try p)) (pf_funding_cost_try p)) (pf_slippage_try p))"

subsection \<open>Definitions: the replay\<close>

record acc_symbol =
  as_lots :: "accounting_lot list"
  as_realized :: dec
  as_fees :: dec
  as_funding :: dec
  as_slippage :: dec

record acc_ledger =
  al_symbols :: "(string, acc_symbol) dict"
  al_cash :: dec
  al_treasury :: dec

definition new_acc_symbol :: acc_symbol where
  "new_acc_symbol = \<lparr>as_lots = [], as_realized = 0, as_fees = 0, as_funding = 0, as_slippage = 0\<rparr>"

text \<open>A round drops the first lot or leaves nothing to sell.\<close>

lemma quantize_qty_0 [simp]: "quantize_qty 0 = 0"
  by (simp add: quantize_qty_def)

lemma sell_round:
  assumes "0 < quantize_qty (dsub q (min r q))"
  shows "quantize_qty (dsub r (min r q)) = 0"
proof -
  have "min r q \<noteq> q" using assms by (auto simp del: min_less_iff_conj)
  then have "min r q = r" by (simp add: min_def split: if_splits)
  then show ?thesis by simp
qed

text \<open>The loop that matches a sale with the lots, oldest first; it returns what is left to sell.\<close>

function sell_lots :: "dec \<Rightarrow> dec \<Rightarrow> dec \<Rightarrow> accounting_lot list \<Rightarrow> (dec \<times> dec \<times> accounting_lot list) result" where
  "sell_lots price remaining realized [] = Inr (remaining, realized, [])"
| "sell_lots price remaining realized (lot # lots) =
     (if remaining \<le> 0 then Inr (remaining, realized, lot # lots)
      else
        let matched = min remaining (al_qty lot);
            left = quantize_qty (dsub (al_qty lot) matched);
            remaining' = quantize_qty (dsub remaining matched)
        in rbind (quantize_money (dmul (dsub price (al_unit_cost_try lot)) matched)) (\<lambda>gain.
             if left \<le> 0 then sell_lots price remaining' (dadd realized gain) lots
             else sell_lots price remaining' (dadd realized gain) (lot\<lparr>al_qty := left\<rparr> # lots)))"
  by pat_completeness auto

termination
  by (relation "measures [\<lambda>(_, _, _, lots). length lots, \<lambda>(_, r, _, _). if 0 < r then 1 else 0]")
    (auto simp: sell_round)

definition apply_sale :: "string \<Rightarrow> dec \<Rightarrow> dec \<Rightarrow> acc_symbol \<Rightarrow> acc_symbol result" where
  "apply_sale symb qty price st =
     rbind (sell_lots price qty (as_realized st) (as_lots st)) (\<lambda>(remaining, realized, lots).
       if 0 < remaining then Inl (ValueError (''oversell symbol='' @ symb))
       else Inr (st\<lparr>as_lots := lots, as_realized := realized\<rparr>))"

definition record_fill :: "string \<Rightarrow> accounting_event \<Rightarrow> acc_symbol \<times> dec \<times> dec \<Rightarrow> (acc_symbol \<times> dec \<times> dec) result" where
  "record_fill symb e work =
     (let (st, cash, treasury) = work;
          qty = quantize_qty (dabs (av_qty e));
          price = dec_or (av_price_try e) 0;
          side = str_upper (case av_side e of None \<Rightarrow> [] | Some x \<Rightarrow> x)
      in rbind (quantize_money (dmul qty price)) (\<lambda>notional.
           if side = ''BUY'' then
             rbind (quantize_money price) (\<lambda>cost.
             rbind (quantize_money (dsub cash notional)) (\<lambda>cash'.
               Inr (st\<lparr>as_lots := as_lots st @ [\<lparr>al_qty = qty, al_unit_cost_try = cost, al_opened_at = av_ts e\<rparr>]\<rparr>, cash', treasury)))
           else if side = ''SELL'' then
             rbind (apply_sale symb qty price st) (\<lambda>st'.
             rbind (quantize_money (dadd cash notional)) (\<lambda>cash'. Inr (st', cash', treasury)))
           else Inr work))"

definition record_event :: "string \<Rightarrow> accounting_event \<Rightarrow> acc_symbol \<times> dec \<times> dec \<Rightarrow> (acc_symbol \<times> dec \<times> dec) result" where
  "record_event symb e work =
     (let (st, cash, treasury) = work;
          amount = dec_or (av_amount_try e) 0;
          cost = quantize_money (dabs amount);
          pay = (\<lambda>st' a. rbind (quantize_money (dsub cash a)) (\<lambda>cash'. Inr (st', cash', treasury)))
      in case av_type e of
           FILL_RECORDED \<Rightarrow> if symb = [] then Inr work else record_fill symb e work
         | FEE_RECORDED \<Rightarrow> rbind cost (\<lambda>a. pay (st\<lparr>as_fees := dadd (as_fees st) a\<rparr>) a)
         | FUNDING_COST_RECORDED \<Rightarrow> rbind cost (\<lambda>a. pay (st\<lparr>as_funding := dadd (as_funding st) a\<rparr>) a)
         | SLIPPAGE_RECORDED \<Rightarrow> rbind cost (\<lambda>a. Inr (st\<lparr>as_slippage := dadd (as_slippage st) a\<rparr>, cash, treasury))
         | TRANSFER \<Rightarrow> rbind (quantize_money amount) (\<lambda>a. rbind (quantize_money (dadd cash a)) (\<lambda>cash'. Inr (st, cash', treasury)))
         | REBALANCE \<Rightarrow> rbind (quantize_money amount) (\<lambda>a.
              rbind (quantize_money (dadd treasury a)) (\<lambda>treasury'.
              rbind (quantize_money (dsub cash a)) (\<lambda>cash'. Inr (st, cash', treasury'))))
         | WITHDRAWAL \<Rightarrow> rbind cost (pay st))"

text \<open>The symbol's state as it is stored at the end of a round.\<close>

definition quantized_symbol :: "acc_symbol \<Rightarrow> acc_symbol result" where
  "quantized_symbol st =
     rbind (quantize_money (as_realized st)) (\<lambda>realized.
     rbind (quantize_money (as_fees st)) (\<lambda>fees.
     rbind (quantize_money (as_funding st)) (\<lambda>funding.
     rbind (quantize_money (as_slippage st)) (\<lambda>slippage.
       Inr (st\<lparr>as_realized := realized, as_fees := fees, as_funding := funding, as_slippage := slippage\<rparr>)))))"

definition event_symbol :: "accounting_event \<Rightarrow> string" where
  "event_symbol e = str_upper (case av_symbol e of None \<Rightarrow> [] | Some s \<Rightarrow> s)"

definition replay_event :: "acc_ledger \<Rightarrow> accounting_event \<Rightarrow> acc_ledger result" where
  "replay_event a e =
     (let symb = event_symbol e; st = dict_get (al_symbols a) symb new_acc_symbol
      in rbind (record_event symb e (st, al_cash a, al_treasury a)) (\<lambda>(st', cash, treasury).
           if symb = [] then Inr (a\<lparr>al_cash := cash, al_treasury := treasury\<rparr>)
           else rbind (quantized_symbol st') (\<lambda>st''.
             Inr (a\<lparr>al_symbols := AList.update symb st'' (al_symbols a), al_cash := cash, al_treasury := treasury\<rparr>))))"

subsection \<open>Definitions: duplicates\<close>

type_synonym event_texts = "accounting_event \<Rightarrow> string \<times> string \<times> string \<times> (string \<times> string) list"

definition or_empty :: "string option \<Rightarrow> string" where
  "or_empty s = (case s of None \<Rightarrow> [] | Some x \<Rightarrow> x)"

definition dedupe_key ::
  "event_texts \<Rightarrow> accounting_event \<Rightarrow>
     int \<times> string \<times> string \<times> string \<times> string \<times> string \<times> string \<times> string \<times> string \<times> (string \<times> string) list" where
  "dedupe_key texts e =
     (case texts e of (qty, price, amount, meta) \<Rightarrow>
        (av_ts e, accounting_type_name (av_type e), or_empty (av_symbol e), or_empty (av_side e), qty, price, amount,
         or_empty (av_fee_currency e), or_empty (av_reference_id e), meta))"

definition dedupe_add ::
  "(accounting_event \<Rightarrow> 'k :: linorder) \<Rightarrow> accounting_event \<Rightarrow> (string, accounting_event) dict \<Rightarrow> (string, accounting_event) dict" where
  "dedupe_add key e d =
     (case map_of d (av_event_id e) of
        None \<Rightarrow> AList.update (av_event_id e) e d
      | Some cur \<Rightarrow> if key e < key cur then AList.update (av_event_id e) e d else d)"

definition dedupe_events :: "event_texts \<Rightarrow> accounting_event list \<Rightarrow> accounting_event list" where
  "dedupe_events texts events = map snd (fold (dedupe_add (dedupe_key texts)) events [])"

definition replay_key :: "accounting_event \<Rightarrow> instant \<times> string" where
  "replay_key e = (av_ts e, av_event_id e)"

definition replay_order :: "event_texts \<Rightarrow> instant \<Rightarrow> accounting_event list \<Rightarrow> accounting_event list" where
  "replay_order texts as_of events = sort_key replay_key (filter (\<lambda>e. av_ts e \<le> as_of) (dedupe_events texts events))"

subsection \<open>Definitions: the summary\<close>

definition symbol_summary :: "(string, dec) dict \<Rightarrow> string \<Rightarrow> acc_symbol \<Rightarrow> symbol_pnl_state result" where
  "symbol_summary marks symb st =
     (let qty = quantize_qty (dsum (map al_qty (as_lots st))) in
      rbind (if 0 < qty then quantize_money (ddiv (dsum (map (\<lambda>l. dmul (al_qty l) (al_unit_cost_try l)) (as_lots st))) qty) else Inr 0) (\<lambda>avg.
      rbind (case map_of marks symb of
               None \<Rightarrow> Inr 0
             | Some mark \<Rightarrow> quantize_money (dsum (map (\<lambda>l. dmul (dsub mark (al_unit_cost_try l)) (al_qty l)) (as_lots st)))) (\<lambda>unrealized.
        Inr \<lparr>sy_qty = qty, sy_avg_cost_try = avg, sy_realized_pnl_try = as_realized st, sy_unrealized_pnl_try = unrealized,
             sy_fees_try = as_fees st, sy_funding_cost_try = as_funding st, sy_slippage_try = as_slippage st\<rparr>)))"

definition summarize :: "instant \<Rightarrow> (string, dec) dict \<Rightarrow> acc_ledger \<Rightarrow> portfolio_state result" where
  "summarize as_of marks a =
     rbind (rmap (\<lambda>(symb, st). rbind (symbol_summary marks symb st) (\<lambda>x. Inr (symb, x))) (sort_key fst (al_symbols a))) (\<lambda>symbols.
       let amounts = (\<lambda>f. quantize_money (dsum (map (\<lambda>kv. f (snd kv)) symbols))) in
     rbind (quantize_money (al_cash a)) (\<lambda>capital.
     rbind (amounts sy_realized_pnl_try) (\<lambda>realized.
     rbind (amounts sy_unrealized_pnl_try) (\<lambda>unrealized.
     rbind (amounts sy_fees_try) (\<lambda>fees.
     rbind (amounts sy_funding_cost_try) (\<lambda>funding.
     rbind (amounts sy_slippage_try) (\<lambda>slippage.
       Inr \<lparr>pf_as_of = as_of, pf_balances_try = [(''TRY'', capital)], pf_locked_try = [], pf_treasury_try = al_treasury a,
            pf_trading_capital_try = capital, pf_realized_pnl_try = realized, pf_unrealized_pnl_try = unrealized,
            pf_fees_try = fees, pf_funding_cost_try = funding, pf_slippage_try = slippage, pf_symbols = symbols\<rparr>)))))))"

definition recompute ::
  "event_texts \<Rightarrow> accounting_event list \<Rightarrow> instant \<Rightarrow> (string, dec) dict \<Rightarrow> dec \<Rightarrow> dec \<Rightarrow> portfolio_state result" where
  "recompute texts events as_of marks initial_trading_capital_try initial_treasury_try =
     rbind (quantize_money initial_trading_capital_try) (\<lambda>cash.
     rbind (quantize_money initial_treasury_try) (\<lambda>treasury.
     rbind (rfold replay_event \<lparr>al_symbols = [], al_cash = cash, al_treasury = treasury\<rparr> (replay_order texts as_of events)) (\<lambda>a.
       summarize as_of marks a)))"

subsection \<open>Duplicates and delivery order\<close>

text \<open>For every identifier the dictionary holds an event of least rank.\<close>

definition least_kept :: "(accounting_event \<Rightarrow> 'k :: linorder) \<Rightarrow> accounting_event set \<Rightarrow> (string, accounting_event) dict \<Rightarrow> bool" where
  "least_kept key E d \<longleftrightarrow> dict_wf d \<and>
     (\<forall>k m. map_of d k = Some m \<longrightarrow> m \<in> E \<and> av_event_id m = k
        \<and> (\<forall>e \<in> E. av_event_id e = k \<longrightarrow> key m \<le> key e)) \<and>
     (\<forall>e \<in> E. map_of d (av_event_id e) \<noteq> None)"

lemma least_kept_add:
  assumes "least_kept key E d"
  shows "least_kept key (insert e E) (dedupe_add key e d)"
proof (cases "map_of d (av_event_id e)")
  case None
  then show ?thesis using assms unfolding least_kept_def dedupe_add_def by (auto split: if_splits)
next
  case (Some cur)
  then have cur: "cur \<in> E" "\<forall>e' \<in> E. av_event_id e' = av_event_id e \<longrightarrow> key cur \<le> key e'"
    using assms unfolding least_kept_def by blast+
  show ?thesis
  proof (cases "key e < key cur")
    case True
    then have "\<forall>e' \<in> insert e E. av_event_id e' = av_event_id e \<longrightarrow> key e \<le> key e'"
      using cur(2) by fastforce
    then show ?thesis using assms Some True unfolding least_kept_def dedupe_add_def by (auto split: if_splits)
  next
    case False
    then have d: "dedupe_add key e d = d" by (simp add: dedupe_add_def Some)
    have "key m \<le> key e'" if "map_of d k = Some m" "e' \<in> insert e E" "av_event_id e' = k" for k m e'
      using that cur False Some assms unfolding least_kept_def by (metis insertE linorder_le_less_linear option.inject)
    then show ?thesis unfolding d using assms Some unfolding least_kept_def by blast
  qed
qed

lemma least_kept_fold: "least_kept key E d \<Longrightarrow> least_kept key (E \<union> set es) (fold (dedupe_add key) es d)"
proof (induction es arbitrary: E d)
  case (Cons e es)
  then show ?case using Cons.IH [OF least_kept_add [OF Cons.prems, of e]] by simp
qed simp

text \<open>Two events with one identifier and one rank are the same event.\<close>

definition ranks_apart :: "(accounting_event \<Rightarrow> 'k) \<Rightarrow> accounting_event list \<Rightarrow> bool" where
  "ranks_apart key events \<longleftrightarrow>
     (\<forall>e \<in> set events. \<forall>e' \<in> set events. av_event_id e = av_event_id e' \<and> key e = key e' \<longrightarrow> e = e')"

lemma ranks_apartD:
  "ranks_apart key events \<Longrightarrow> e \<in> set events \<Longrightarrow> e' \<in> set events \<Longrightarrow> av_event_id e = av_event_id e' \<Longrightarrow> key e = key e' \<Longrightarrow> e = e'"
  unfolding ranks_apart_def by blast

text \<open>What is kept of each identifier.\<close>

definition least_events :: "(accounting_event \<Rightarrow> 'k :: linorder) \<Rightarrow> accounting_event set \<Rightarrow> accounting_event set" where
  "least_events key E = {m \<in> E. \<forall>e \<in> E. av_event_id e = av_event_id m \<longrightarrow> key m \<le> key e}"

lemma least_kept_values:
  assumes "least_kept key E d"
    and "\<And>e e'. e \<in> E \<Longrightarrow> e' \<in> E \<Longrightarrow> av_event_id e = av_event_id e' \<Longrightarrow> key e = key e' \<Longrightarrow> e = e'"
  shows "snd ` set d = least_events key E" "distinct (map (\<lambda>kv. av_event_id (snd kv)) d)"
proof -
  have wf: "dict_wf d"
    and some: "\<And>k m. map_of d k = Some m \<Longrightarrow> m \<in> E \<and> av_event_id m = k \<and> (\<forall>e \<in> E. av_event_id e = k \<longrightarrow> key m \<le> key e)"
    and none: "\<And>e. e \<in> E \<Longrightarrow> \<exists>m. map_of d (av_event_id e) = Some m"
    using assms(1) unfolding least_kept_def by blast+
  have entry: "map_of d (fst kv) = Some (snd kv)" if "kv \<in> set d" for kv using map_of_is_SomeI [OF wf, of "fst kv" "snd kv"] that by simp
  have ids: "map (\<lambda>kv. av_event_id (snd kv)) d = map fst d" using some [OF entry] by (intro map_cong) auto
  show "distinct (map (\<lambda>kv. av_event_id (snd kv)) d)" unfolding ids by (rule wf)
  show "snd ` set d = least_events key E"
  proof
    show "snd ` set d \<subseteq> least_events key E"
    proof (rule image_subsetI)
      fix kv assume "kv \<in> set d"
      note s = some [OF entry [OF this]]
      show "snd kv \<in> least_events key E" unfolding least_events_def using s by auto
    qed
    show "least_events key E \<subseteq> snd ` set d"
    proof
      fix m assume "m \<in> least_events key E"
      then have m: "m \<in> E" "\<And>e. e \<in> E \<Longrightarrow> av_event_id e = av_event_id m \<Longrightarrow> key m \<le> key e" by (auto simp: least_events_def)
      obtain m' where m': "map_of d (av_event_id m) = Some m'" using none [OF m(1)] ..
      have "key m' = key m" using some [OF m'] m by (intro order_antisym) auto
      then have "m' = m" using assms(2) some [OF m'] m(1) by blast
      then show "m \<in> snd ` set d" using map_of_SomeD [OF m'] by force
    qed
  qed
qed

lemma dedupe_events_set:
  assumes "ranks_apart (dedupe_key texts) events"
  shows "set (dedupe_events texts events) = least_events (dedupe_key texts) (set events)"
    and "distinct (map av_event_id (dedupe_events texts events))"
proof -
  have "least_kept (dedupe_key texts) {} []" by (simp add: least_kept_def)
  then have "least_kept (dedupe_key texts) (set events) (fold (dedupe_add (dedupe_key texts)) events [])"
    using least_kept_fold [of "dedupe_key texts" "{}" "[]" events] by simp
  note v = least_kept_values [OF this ranks_apartD [OF assms]]
  show "set (dedupe_events texts events) = least_events (dedupe_key texts) (set events)"
    unfolding dedupe_events_def set_map by (rule v(1))
  show "distinct (map av_event_id (dedupe_events texts events))"
    unfolding dedupe_events_def map_map comp_def by (rule v(2))
qed

lemma replay_order_cong:
  assumes "ranks_apart (dedupe_key texts) events" "set events = set events'"
  shows "replay_order texts as_of events = replay_order texts as_of events'"
proof -
  have r: "ranks_apart (dedupe_key texts) events'" using assms by (simp add: ranks_apart_def)
  let ?f = "filter (\<lambda>e. av_ts e \<le> as_of)"
  have d: "distinct (dedupe_events texts events)" "distinct (dedupe_events texts events')"
    using dedupe_events_set(2) [OF assms(1)] dedupe_events_set(2) [OF r] by (auto simp: distinct_map)
  have "set (dedupe_events texts events) = set (dedupe_events texts events')"
    unfolding dedupe_events_set(1) [OF assms(1)] dedupe_events_set(1) [OF r] assms(2) ..
  then have "mset (?f (dedupe_events texts events)) = mset (?f (dedupe_events texts events'))"
    using d by (metis mset_filter set_eq_iff_mset_eq_distinct)
  moreover have "inj_on replay_key (set (?f (dedupe_events texts events)))"
    using dedupe_events_set(2) [OF assms(1)] by (auto simp: distinct_map inj_on_def replay_key_def)
  ultimately show ?thesis unfolding replay_order_def by (rule sort_key_perm)
qed

text \<open>The accounting state depends on the set of delivered events only: delivering them in another
  order or more than once gives the same state, provided two different events with one identifier
  differ in rank.\<close>

theorem recompute_order_independent:
  assumes "ranks_apart (dedupe_key texts) events" "set events = set events'"
  shows "recompute texts events as_of marks capital treasury = recompute texts events' as_of marks capital treasury"
  unfolding recompute_def replay_order_cong [OF assms] ..

subsection \<open>Cash flows\<close>

definition money :: "dec \<Rightarrow> dec" where
  "money x = (case quantize_money x of Inr y \<Rightarrow> y | Inl _ \<Rightarrow> 0)"

lemma money_eq [simp]: "quantize_money x = Inr y \<Longrightarrow> money x = y"
  by (simp add: money_def)

text \<open>What an event adds to the cash and to the treasury.\<close>

definition fill_flow :: "accounting_event \<Rightarrow> dec" where
  "fill_flow e =
     (let notional = money (dmul (quantize_qty (dabs (av_qty e))) (dec_or (av_price_try e) 0));
          side = str_upper (case av_side e of None \<Rightarrow> [] | Some x \<Rightarrow> x)
      in if side = ''BUY'' then - notional else if side = ''SELL'' then notional else 0)"

definition cash_flow :: "accounting_event \<Rightarrow> dec" where
  "cash_flow e =
     (let amount = dec_or (av_amount_try e) 0
      in case av_type e of
           FILL_RECORDED \<Rightarrow> if event_symbol e = [] then 0 else fill_flow e
         | SLIPPAGE_RECORDED \<Rightarrow> 0
         | TRANSFER \<Rightarrow> money amount
         | REBALANCE \<Rightarrow> - money amount
         | _ \<Rightarrow> - money (dabs amount))"

definition treasury_flow :: "accounting_event \<Rightarrow> dec" where
  "treasury_flow e = (if av_type e = REBALANCE then money (dec_or (av_amount_try e) 0) else 0)"

text \<open>The running balance stays below 28 digits.\<close>

fun digits_ok :: "(accounting_event \<Rightarrow> dec) \<Rightarrow> dec \<Rightarrow> accounting_event list \<Rightarrow> bool" where
  "digits_ok flow x [] = True"
| "digits_ok flow x (e # es) = (\<bar>x + flow e\<bar> < 10 ^ 20 \<and> digits_ok flow (x + flow e) es)"

lemma quantize_money_grid: "quantize_money x = Inr y \<Longrightarrow> grid_multiple (- 8) y"
  by (auto simp: quantize_money_def round_quote_def DEFAULT_MONEY_POLICY_def dquantize_def Let_def quantum_def grid_multiple_def
      split: if_splits)

lemma quantize_money_exact:
  assumes "grid_multiple (- 8) x" "\<bar>x\<bar> < 10 ^ 20"
  shows "quantize_money x = Inr x"
proof -
  obtain n where n: "x = of_int n * bpow 10 (- 8)" using assms(1) by (auto simp: grid_multiple_def)
  then have "\<bar>of_int n :: rat\<bar> < of_int (10 ^ 28)" using assms(2) by (simp add: bpow_def abs_mult)
  then have "\<bar>n\<bar> < 10 ^ 28" by linarith
  moreover have "x / quantum 8 = of_int n" by (simp add: n quantum_def)
  ultimately show ?thesis
    by (simp add: quantize_money_def round_quote_def DEFAULT_MONEY_POLICY_def dquantize_def quantum_def n
        del: round_int.simps)
qed

lemma settle_exact:
  assumes "grid_multiple (- 8) c" "grid_multiple (- 8) a"
  shows "\<bar>c + a\<bar> < 10 ^ 20 \<Longrightarrow> quantize_money (dadd c a) = Inr (c + a)"
    and "\<bar>c - a\<bar> < 10 ^ 20 \<Longrightarrow> quantize_money (dsub c a) = Inr (c - a)"
  using assms dadd_grid [of "- 8" c a] dsub_grid [of "- 8" c a]
  by (simp_all add: bpow_def quantize_money_exact grid_multiple_add grid_multiple_diff)

lemma record_fill_cash:
  assumes "record_fill symb e (st, c, t) = Inr (st', c', t')" "grid_multiple (- 8) c" "\<bar>c + fill_flow e\<bar> < 10 ^ 20"
  shows "c' = c + fill_flow e \<and> t' = t"
proof -
  define side where "side = str_upper (case av_side e of None \<Rightarrow> [] | Some x \<Rightarrow> x)"
  define BUY where "BUY = ''BUY''"
  define SELL where "SELL = ''SELL''"
  obtain n where n: "quantize_money (dmul (quantize_qty (dabs (av_qty e))) (dec_or (av_price_try e) 0)) = Inr n"
    using assms(1) by (auto simp: record_fill_def Let_def rbind_eq_Inr_iff)
  note g = quantize_money_grid [OF n]
  have f: "fill_flow e = (if side = BUY then - n else if side = SELL then n else 0)"
    unfolding fill_flow_def side_def BUY_def SELL_def money_eq [OF n] Let_def ..
  show ?thesis
    using assms(1) settle_exact [OF assms(2) g] assms(3)
    unfolding record_fill_def side_def [symmetric] BUY_def [symmetric] SELL_def [symmetric] Let_def n f
    by (auto simp: rbind_eq_Inr_iff split: if_splits)
qed

lemma record_event_cash:
  assumes "record_event (event_symbol e) e (st, c, t) = Inr (st', c', t')" "grid_multiple (- 8) c" "grid_multiple (- 8) t"
    and "\<bar>c + cash_flow e\<bar> < 10 ^ 20" "\<bar>t + treasury_flow e\<bar> < 10 ^ 20"
  shows "c' = c + cash_flow e \<and> t' = t + treasury_flow e"
proof (cases "av_type e = FILL_RECORDED")
  case True
  then show ?thesis
    using assms record_fill_cash [of "event_symbol e" e st c t st' c' t']
    by (auto simp: record_event_def cash_flow_def treasury_flow_def split: if_splits)
next
  case False
  have s: "\<And>a. grid_multiple (- 8) a \<Longrightarrow> \<bar>c + a\<bar> < 10 ^ 20 \<Longrightarrow> quantize_money (dadd c a) = Inr (c + a)"
    "\<And>a. grid_multiple (- 8) a \<Longrightarrow> \<bar>c - a\<bar> < 10 ^ 20 \<Longrightarrow> quantize_money (dsub c a) = Inr (c - a)"
    "\<And>a. grid_multiple (- 8) a \<Longrightarrow> \<bar>t + a\<bar> < 10 ^ 20 \<Longrightarrow> quantize_money (dadd t a) = Inr (t + a)"
    using settle_exact assms(2,3) by blast+
  show ?thesis
    using False assms(1,4,5) s quantize_money_grid [of "dabs (dec_or (av_amount_try e) 0)"] quantize_money_grid [of "dec_or (av_amount_try e) 0"]
    by (cases "av_type e") (auto simp: record_event_def cash_flow_def treasury_flow_def rbind_eq_Inr_iff Let_def)
qed

lemma money_grid: "grid_multiple (- 8) (money x)"
  using quantize_money_grid by (auto simp: money_def split: sum.split)

lemma flow_grid: "grid_multiple (- 8) (cash_flow e)" "grid_multiple (- 8) (treasury_flow e)"
proof -
  have m: "grid_multiple (- 8) (- money x)" for x using grid_multiple_diff [OF grid_multiple_0 money_grid] by simp
  show "grid_multiple (- 8) (cash_flow e)"
    by (cases "av_type e") (simp_all add: cash_flow_def fill_flow_def Let_def m money_grid del: set_simps)
  show "grid_multiple (- 8) (treasury_flow e)" by (simp add: treasury_flow_def money_grid)
qed

lemma replay_cash:
  assumes "rfold replay_event a es = Inr b" "grid_multiple (- 8) (al_cash a)" "grid_multiple (- 8) (al_treasury a)"
    and "digits_ok cash_flow (al_cash a) es" "digits_ok treasury_flow (al_treasury a) es"
  shows "al_cash b = al_cash a + (\<Sum>e \<leftarrow> es. cash_flow e) \<and> al_treasury b = al_treasury a + (\<Sum>e \<leftarrow> es. treasury_flow e)"
  using assms
proof (induction es arbitrary: a)
  case (Cons e es)
  then obtain a' where a': "replay_event a e = Inr a'" "rfold replay_event a' es = Inr b"
    by (auto simp: rbind_eq_Inr_iff)
  then obtain st c t where r: "record_event (event_symbol e) e (dict_get (al_symbols a) (event_symbol e) new_acc_symbol, al_cash a, al_treasury a) = Inr (st, c, t)"
    "al_cash a' = c" "al_treasury a' = t"
    by (auto simp: replay_event_def Let_def rbind_eq_Inr_iff split: if_splits)
  have c: "al_cash a' = al_cash a + cash_flow e" "al_treasury a' = al_treasury a + treasury_flow e"
    using record_event_cash [OF r(1)] Cons.prems r(2,3) by auto
  have "al_cash b = al_cash a' + (\<Sum>e \<leftarrow> es. cash_flow e) \<and> al_treasury b = al_treasury a' + (\<Sum>e \<leftarrow> es. treasury_flow e)"
    using Cons.prems c flow_grid [of e] by (intro Cons.IH [OF a'(2)]) (auto simp: grid_multiple_add)
  then show ?case by (simp add: c)
qed simp

lemma digits_ok_final: "digits_ok flow x es \<Longrightarrow> \<bar>x\<bar> < 10 ^ 20 \<Longrightarrow> \<bar>x + (\<Sum>e \<leftarrow> es. flow e)\<bar> < 10 ^ 20"
  by (induction es arbitrary: x) (force simp: add.assoc [symmetric])+

lemma grid_flow_sum: "grid_multiple (- 8) (\<Sum>e \<leftarrow> es. cash_flow e)"
  by (induction es) (auto intro: grid_multiple_add flow_grid)

lemma quantize_money_digits:
  assumes "quantize_money x = Inr y"
  shows "\<bar>y\<bar> < 10 ^ 20"
proof -
  obtain n where n: "y = of_int n * quantum 8" "\<bar>n\<bar> < 10 ^ 28"
    using assms by (auto simp: quantize_money_def round_quote_def DEFAULT_MONEY_POLICY_def dquantize_def Let_def split: if_splits)
  have "\<bar>of_int n :: rat\<bar> < of_int (10 ^ 28)" using n(2) by linarith
  then show ?thesis by (simp add: n(1) quantum_def bpow_def abs_mult)
qed

text \<open>(C32) Cash is conserved: the trading capital of the recomputed state is the initial capital plus the
  cash flows of the replayed events (purchases, fees, funding, withdrawals and transfers to the
  treasury out, sales and transfers in), and the treasury is the initial treasury plus what was
  moved to it, as long as the running balances keep to 28 digits.\<close>

theorem recompute_cash_conserved:
  assumes "recompute texts events as_of marks capital treasury = Inr p"
    and "digits_ok cash_flow (money capital) (replay_order texts as_of events)"
    and "digits_ok treasury_flow (money treasury) (replay_order texts as_of events)"
  shows "pf_trading_capital_try p = money capital + (\<Sum>e \<leftarrow> replay_order texts as_of events. cash_flow e)
    \<and> pf_treasury_try p = money treasury + (\<Sum>e \<leftarrow> replay_order texts as_of events. treasury_flow e)"
proof -
  let ?es = "replay_order texts as_of events"
  obtain c t b where b: "quantize_money capital = Inr c" "quantize_money treasury = Inr t"
      "rfold replay_event \<lparr>al_symbols = [], al_cash = c, al_treasury = t\<rparr> ?es = Inr b" "summarize as_of marks b = Inr p"
    using assms(1) by (auto simp: recompute_def rbind_eq_Inr_iff)
  have m: "money capital = c" "money treasury = t" using b(1,2) by simp_all
  have cash: "al_cash b = c + (\<Sum>e \<leftarrow> ?es. cash_flow e)" "al_treasury b = t + (\<Sum>e \<leftarrow> ?es. treasury_flow e)"
    using replay_cash [OF b(3)] assms(2,3) b(1,2) by (simp_all add: m quantize_money_grid)
  have "\<bar>al_cash b\<bar> < 10 ^ 20"
    using digits_ok_final [OF assms(2)] quantize_money_digits [OF b(1)] by (simp add: cash(1) m(1))
  moreover have "grid_multiple (- 8) (al_cash b)"
    unfolding cash(1) by (intro grid_multiple_add grid_flow_sum quantize_money_grid [OF b(1)])
  ultimately have q: "quantize_money (al_cash b) = Inr (al_cash b)" by (rule quantize_money_exact [rotated])
  have "pf_trading_capital_try p = al_cash b \<and> pf_treasury_try p = al_treasury b"
    using b(4) unfolding summarize_def q by (auto simp: rbind_eq_Inr_iff Let_def)
  then show ?thesis by (simp add: cash m)
qed

subsection \<open>A round trip\<close>

definition demo_fill :: "string \<Rightarrow> instant \<Rightarrow> string \<Rightarrow> dec \<Rightarrow> accounting_event" where
  "demo_fill k t side price =
     \<lparr>av_event_id = k, av_ts = t, av_type = FILL_RECORDED, av_symbol = Some ''BTCTRY'', av_side = Some side, av_qty = 1,
      av_price_try = Some price, av_amount_try = None, av_fee_currency = None, av_reference_id = None\<rparr>"

definition demo_trades :: "accounting_event list" where
  "demo_trades = [demo_fill ''b'' 2 ''sell'' 110, demo_fill ''a'' 1 ''buy'' 100, demo_fill ''a'' 1 ''buy'' 100]"

definition demo_texts :: event_texts where
  "demo_texts e = (''1'', [], [], [])"

definition demo_portfolio :: portfolio_state where
  "demo_portfolio =
     \<lparr>pf_as_of = 5, pf_balances_try = [(''TRY'', 1010)], pf_locked_try = [], pf_treasury_try = 0, pf_trading_capital_try = 1010,
      pf_realized_pnl_try = 10, pf_unrealized_pnl_try = 0, pf_fees_try = 0, pf_funding_cost_try = 0, pf_slippage_try = 0,
      pf_symbols = [(''BTCTRY'', \<lparr>sy_qty = 0, sy_avg_cost_try = 0, sy_realized_pnl_try = 10, sy_unrealized_pnl_try = 0,
         sy_fees_try = 0, sy_funding_cost_try = 0, sy_slippage_try = 0\<rparr>)]\<rparr>"

lemma demo_recompute: "recompute demo_texts demo_trades 5 [] 1000 0 = Inr demo_portfolio"
  by code_simp

lemma demo_digits:
  "digits_ok cash_flow (money 1000) (replay_order demo_texts 5 demo_trades)"
  "digits_ok treasury_flow (money 0) (replay_order demo_texts 5 demo_trades)"
  by code_simp+

theorem recompute_cash_conserved_witness:
  "1010 = money 1000 + (\<Sum>e \<leftarrow> replay_order demo_texts 5 demo_trades. cash_flow e)"
  using recompute_cash_conserved [OF demo_recompute demo_digits] by (simp add: demo_portfolio_def)

lemma demo_ranks: "ranks_apart (dedupe_key demo_texts) demo_trades"
  by code_simp

theorem recompute_order_independent_witness:
  "recompute demo_texts demo_trades 5 [] 1000 0 = recompute demo_texts [demo_fill ''a'' 1 ''buy'' 100, demo_fill ''b'' 2 ''sell'' 110] 5 [] 1000 0"
  by (rule recompute_order_independent [OF demo_ranks]) (auto simp: demo_trades_def)

text \<open>
  The profit of a closed trade is part of the cash already; \<open>equity_try\<close> adds it a second time.
  Starting with 1000, a purchase at 100 and a sale at 110 leave 1010, and \<open>equity_try\<close> is 1020.
\<close>

lemma equity_counts_profit_twice: "equity_try demo_portfolio = Inr 1020"
  by code_simp

end
