(* ===== verification/Risk_Budget.thy ===== *)
theory Risk_Budget
  imports Ledger_Report Portfolio_Accounting Py_Float
begin

text \<open>
  Risk modes and the risk budget: \<open>src/src/btcbot/domain/risk_budget.py\<close>,
  \<open>domain/risk_models.py\<close>, \<open>domain/risk_mode_codec.py\<close>, \<open>src/src/btcbot/risk/budget.py\<close> and
  \<open>services/risk_budget_service.py\<close>, with the tables \<open>capital_policy_state\<close>,
  \<open>risk_state_current\<close> and \<open>risk_decisions\<close> of the state store.

  The functions \<open>log\<close>, \<open>sqrt\<close> and \<open>sum\<close> on floats, whose last digits depend on the platform,
  are fields of \<open>math_lib\<close>.  Days are integers (days since the epoch).  Decisions and limits
  are stored as they are in place of their JSON text, and the log output is left out.
\<close>

subsection \<open>Definitions: modes\<close>

datatype risk_mode = NORMAL | REDUCE_RISK_ONLY | OBSERVE_ONLY

fun MODE_ORDER :: "risk_mode \<Rightarrow> nat" where
  "MODE_ORDER NORMAL = 0"
| "MODE_ORDER REDUCE_RISK_ONLY = 1"
| "MODE_ORDER OBSERVE_ONLY = 2"

definition combine_risk_modes :: "risk_mode \<Rightarrow> risk_mode \<Rightarrow> risk_mode" where
  "combine_risk_modes a b = (if MODE_ORDER b \<le> MODE_ORDER a then a else b)"

fun mode_value :: "risk_mode \<Rightarrow> string" where
  "mode_value NORMAL = ''NORMAL''"
| "mode_value REDUCE_RISK_ONLY = ''REDUCE_RISK_ONLY''"
| "mode_value OBSERVE_ONLY = ''OBSERVE_ONLY''"

definition RISK_MODE_ALIASES :: "(string, risk_mode) dict" where
  "RISK_MODE_ALIASES =
     [(''NORMAL'', NORMAL), (''NORMAL_MODE'', NORMAL), (''REDUCE_RISK_ONLY'', REDUCE_RISK_ONLY),
      (''REDUCE_ONLY'', REDUCE_RISK_ONLY), (''REDUCE_RISK'', REDUCE_RISK_ONLY), (''OBSERVE_ONLY'', OBSERVE_ONLY),
      (''OBSERVE'', OBSERVE_ONLY)]"

definition parse_risk_mode :: "string option \<Rightarrow> risk_mode option" where
  "parse_risk_mode value =
     (case value of
        None \<Rightarrow> None
      | Some v \<Rightarrow>
          let normalized = str_upper (str_strip v)
          in if normalized = [] then None else map_of RISK_MODE_ALIASES normalized)"

definition dump_risk_mode :: "risk_mode option \<Rightarrow> string option" where
  "dump_risk_mode m = (case m of None \<Rightarrow> None | Some x \<Rightarrow> Some (mode_value x))"

record risk_limits =
  rl_max_daily_drawdown_try :: dec
  rl_max_drawdown_try :: dec
  rl_max_gross_exposure_try :: dec
  rl_max_position_pct :: dec
  rl_max_order_notional_try :: dec
  rl_min_cash_try :: "dec option"
  rl_max_fee_try_per_day :: "dec option"

record risk_signals =
  rs_equity_try :: dec
  rs_peak_equity_try :: dec
  rs_drawdown_try :: dec
  rs_daily_pnl_try :: dec
  rs_gross_exposure_try :: dec
  rs_largest_position_pct :: dec
  rs_fees_try_today :: dec
  rs_volatility_state :: "string option"
  rs_loss_streak :: "int option"
  rs_missing_mark_prices :: "string list"
  rs_missing_currencies :: "string list"

definition decide_mode :: "risk_limits \<Rightarrow> risk_signals \<Rightarrow> risk_mode \<times> string list" where
  "decide_mode limits signals =
     (if rl_max_drawdown_try limits \<le> rs_drawdown_try signals \<or> rs_daily_pnl_try signals \<le> dneg (rl_max_daily_drawdown_try limits)
      then (OBSERVE_ONLY, [''DRAWDOWN_LIMIT''])
      else if rl_max_gross_exposure_try limits < rs_gross_exposure_try signals
           \<or> rl_max_position_pct limits < rs_largest_position_pct signals
      then (REDUCE_RISK_ONLY, [''EXPOSURE_LIMIT''])
      else case rl_max_fee_try_per_day limits of
             Some m \<Rightarrow> if m < rs_fees_try_today signals then (REDUCE_RISK_ONLY, [''FEE_BUDGET'']) else (NORMAL, [''OK''])
           | None \<Rightarrow> (NORMAL, [''OK'']))"

subsection \<open>Definitions: the budget policy\<close>

record self_financing_policy =
  sf_profit_compound_ratio :: dec
  sf_profit_treasury_ratio :: dec
  sf_loss_streak_reduce_multiplier :: dec
  sf_drawdown_reduce_multiplier :: dec
  sf_halt_drawdown_ratio :: dec
  sf_halt_daily_loss_ratio :: dec
  sf_max_exposure_ratio :: dec
  sf_max_order_ratio :: dec

definition SelfFinancingPolicy :: self_financing_policy where
  "SelfFinancingPolicy =
     \<lparr>sf_profit_compound_ratio = 60 / 100, sf_profit_treasury_ratio = 40 / 100,
      sf_loss_streak_reduce_multiplier = 50 / 100, sf_drawdown_reduce_multiplier = 25 / 100,
      sf_halt_drawdown_ratio = 15 / 100, sf_halt_daily_loss_ratio = 5 / 100,
      sf_max_exposure_ratio = 120 / 100, sf_max_order_ratio = 20 / 100\<rparr>"

record risk_budget_view =
  bv_trading_capital_try :: dec
  bv_treasury_try :: dec
  bv_available_risk_capital_try :: dec
  bv_daily_loss_limit_try :: dec
  bv_drawdown_halt_limit_try :: dec
  bv_max_gross_exposure_try :: dec
  bv_max_order_notional_try :: dec
  bv_position_sizing_multiplier :: dec
  bv_mode :: risk_mode

definition base_multiplier :: "self_financing_policy \<Rightarrow> int \<Rightarrow> string \<Rightarrow> dec" where
  "base_multiplier p streak regime =
     (let m1 = (if 3 \<le> streak then min 1 (sf_loss_streak_reduce_multiplier p) else 1)
      in if str_lower regime \<in> {''high'', ''stressed''} then min m1 (sf_drawdown_reduce_multiplier p) else m1)"

definition halt_mode :: "dec \<Rightarrow> dec \<Rightarrow> dec \<Rightarrow> dec \<Rightarrow> dec \<Rightarrow> risk_mode \<times> dec" where
  "halt_mode multiplier realized_today daily_loss_limit drawdown drawdown_limit =
     (let (mode, m) = (if realized_today \<le> dneg daily_loss_limit then (OBSERVE_ONLY, 0) else (NORMAL, multiplier))
      in if drawdown_limit \<le> drawdown then (OBSERVE_ONLY, 0)
         else if m < 1 \<and> mode = NORMAL then (REDUCE_RISK_ONLY, m)
         else (mode, m))"

definition evaluate ::
  "self_financing_policy \<Rightarrow> portfolio_state \<Rightarrow> dec \<Rightarrow> dec \<Rightarrow> int \<Rightarrow> string \<Rightarrow> risk_budget_view result" where
  "evaluate p accounting peak_equity_try realized_pnl_today_try streak regime =
     rbind (quantize_money (max (pf_trading_capital_try accounting) 0)) (\<lambda>capital.
     rbind (quantize_money (max (pf_treasury_try accounting) 0)) (\<lambda>treasury.
     rbind (quantize_money (dmul capital (sf_halt_daily_loss_ratio p))) (\<lambda>daily_loss_limit.
     rbind (quantize_money (dmul (max peak_equity_try 0) (sf_halt_drawdown_ratio p))) (\<lambda>drawdown_limit.
     rbind (quantize_money (dmul capital (sf_max_exposure_ratio p))) (\<lambda>max_exposure.
     rbind (quantize_money (dmul capital (sf_max_order_ratio p))) (\<lambda>max_order.
     rbind (equity_try accounting) (\<lambda>equity.
       let drawdown = max 0 (dsub peak_equity_try equity);
           (mode, multiplier) = halt_mode (base_multiplier p streak regime) realized_pnl_today_try daily_loss_limit drawdown drawdown_limit
       in rbind (quantize_money (dmul max_exposure multiplier)) (\<lambda>exposure.
          rbind (quantize_money (dmul max_order multiplier)) (\<lambda>order_cap.
            Inr \<lparr>bv_trading_capital_try = capital, bv_treasury_try = treasury, bv_available_risk_capital_try = capital,
                 bv_daily_loss_limit_try = daily_loss_limit, bv_drawdown_halt_limit_try = drawdown_limit,
                 bv_max_gross_exposure_try = exposure, bv_max_order_notional_try = order_cap,
                 bv_position_sizing_multiplier = multiplier, bv_mode = mode\<rparr>)))))))))"

definition apply_self_financing :: "self_financing_policy \<Rightarrow> dec \<Rightarrow> dec \<Rightarrow> dec \<Rightarrow> (dec \<times> dec) result" where
  "apply_self_financing p trading_capital_try treasury_try realized_pnl_delta_try =
     rbind (quantize_money trading_capital_try) (\<lambda>capital.
     rbind (quantize_money treasury_try) (\<lambda>treasury.
     rbind (quantize_money realized_pnl_delta_try) (\<lambda>delta.
       if 0 < delta then
         rbind (quantize_money (dmul delta (sf_profit_compound_ratio p))) (\<lambda>compound.
         rbind (quantize_money (dmul delta (sf_profit_treasury_ratio p))) (\<lambda>reserve.
         rbind (quantize_money (dadd capital compound)) (\<lambda>capital'.
         rbind (quantize_money (dadd treasury reserve)) (\<lambda>treasury'. Inr (capital', treasury')))))
       else rbind (quantize_money (dadd capital delta)) (\<lambda>capital'. Inr (capital', treasury)))))"

subsection \<open>Definitions: the capital checkpoint\<close>

record capital_state =
  cs_trading_capital_try :: dec
  cs_treasury_try :: dec
  cs_last_realized_pnl_total_try :: dec
  cs_last_event_count :: int
  cs_last_checkpoint_id :: "string option"
  cs_last_cycle_id :: string

record capital_policy_result =
  cr_trading_capital_try :: dec
  cr_treasury_try :: dec
  cr_realized_pnl_delta_try :: dec
  cr_checkpoint_id :: string
  cr_applied :: bool

text \<open>The row of \<open>capital_policy_state\<close>, created from the seed when there is none.\<close>

definition load_or_init_capital_state :: "capital_state option \<Rightarrow> string \<Rightarrow> dec \<Rightarrow> dec \<Rightarrow> capital_state" where
  "load_or_init_capital_state row cycle_id seed_trading_capital_try seed_realized_total_try =
     (case row of
        Some st \<Rightarrow> st
      | None \<Rightarrow>
          \<lparr>cs_trading_capital_try = seed_trading_capital_try, cs_treasury_try = 0,
           cs_last_realized_pnl_total_try = seed_realized_total_try, cs_last_event_count = 0,
           cs_last_checkpoint_id = None, cs_last_cycle_id = cycle_id\<rparr>)"

definition next_capital :: "self_financing_policy \<Rightarrow> capital_state \<Rightarrow> dec \<Rightarrow> (dec \<times> dec) result" where
  "next_capital p st delta =
     (if 0 < delta then apply_self_financing p (cs_trading_capital_try st) (cs_treasury_try st) delta
      else if delta < 0 then
        rbind (quantize_money (dadd (cs_trading_capital_try st) delta)) (\<lambda>c. Inr (c, cs_treasury_try st))
      else Inr (cs_trading_capital_try st, cs_treasury_try st))"

text \<open>The answer and the row that is stored afterwards; an exception leaves the loaded row.\<close>

definition apply_self_financing_checkpoint ::
  "self_financing_policy \<Rightarrow> string \<Rightarrow> dec \<Rightarrow> int \<Rightarrow> string \<Rightarrow> dec \<Rightarrow> capital_state option \<Rightarrow> capital_policy_result result \<times> capital_state" where
  "apply_self_financing_checkpoint p cycle_id realized_total event_count checkpoint_id seed row =
     (let st = load_or_init_capital_state row cycle_id seed 0 in
      if event_count < cs_last_event_count st then (Inl (CapitalPolicyError ''non_monotonic_ledger_checkpoint''), st)
      else if event_count = cs_last_event_count st then
        (if realized_total = cs_last_realized_pnl_total_try st then
           (Inr \<lparr>cr_trading_capital_try = cs_trading_capital_try st, cr_treasury_try = cs_treasury_try st,
                 cr_realized_pnl_delta_try = 0, cr_checkpoint_id = checkpoint_id, cr_applied = False\<rparr>, st)
         else (Inl (CapitalPolicyError ''ledger_event_count_same_but_realized_total_mismatch''), st))
      else if realized_total < cs_last_realized_pnl_total_try st then (Inl (CapitalPolicyError ''realized_total_regressed''), st)
      else
        let delta = dsub realized_total (cs_last_realized_pnl_total_try st)
        in case next_capital p st delta of
             Inl e \<Rightarrow> (Inl e, st)
           | Inr (next_trading, next_treasury) \<Rightarrow>
               if next_trading < 0 \<or> next_treasury < 0 then (Inl (CapitalPolicyError ''negative_capital_state''), st)
               else
                 (Inr \<lparr>cr_trading_capital_try = next_trading, cr_treasury_try = next_treasury,
                       cr_realized_pnl_delta_try = delta, cr_checkpoint_id = checkpoint_id, cr_applied = True\<rparr>,
                  \<lparr>cs_trading_capital_try = next_trading, cs_treasury_try = next_treasury,
                   cs_last_realized_pnl_total_try = realized_total, cs_last_event_count = event_count,
                   cs_last_checkpoint_id = Some checkpoint_id, cs_last_cycle_id = cycle_id\<rparr>))"

subsection \<open>Definitions: the signals\<close>

record math_lib =
  ml_log :: "rat \<Rightarrow> rat"
  ml_sqrt :: "rat \<Rightarrow> rat"
  ml_sum :: "rat list \<Rightarrow> rat"

text \<open>\<open>round(x, 8)\<close> of a float.\<close>

definition float_round8 :: "rat \<Rightarrow> rat" where
  "float_round8 x = frnd (of_int (round_half_even (x * 10 ^ 8)) / 10 ^ 8)"

fun log_returns :: "(rat \<Rightarrow> rat) \<Rightarrow> rat list \<Rightarrow> rat list" where
  "log_returns lg (x # y # zs) = lg (fdiv y x) # log_returns lg (y # zs)"
| "log_returns lg xs = []"

definition compute_volatility_regime ::
  "math_lib \<Rightarrow> pnl_snapshot list \<Rightarrow> int \<Rightarrow> dec \<Rightarrow> dec \<Rightarrow> string \<times> rat option" where
  "compute_volatility_regime ml snapshots_desc lookback low_threshold high_threshold =
     (if lookback < 2 then (''normal'', None)
      else
        let equities = map (\<lambda>s. frnd (pn_total_equity_try s))
              (filter (\<lambda>s. 0 < pn_total_equity_try s) (rev (take (nat lookback) snapshots_desc)));
            returns = log_returns (ml_log ml) equities;
            n = frnd (of_nat (length returns))
        in if length equities < 6 \<or> length returns < 5 then (''normal'', None)
           else
             let mean = fdiv (ml_sum ml returns) n;
                 variance = fdiv (ml_sum ml (map (\<lambda>r. fmul (fsub r mean) (fsub r mean)) returns)) n;
                 vol = float_round8 (ml_sqrt ml variance)
             in if vol \<le> frnd low_threshold then (''low'', Some vol)
                else if frnd high_threshold \<le> vol then (''high'', Some vol)
                else (''normal'', Some vol))"

definition compute_consecutive_loss_streak :: "pnl_snapshot list \<Rightarrow> int \<Rightarrow> int" where
  "compute_consecutive_loss_streak snapshots_desc lookback =
     (if lookback \<le> 0 then 0
      else int (length (takeWhile (\<lambda>s. pn_realized_today_try s < 0) (take (nat lookback) snapshots_desc))))"

definition position_notional :: "(string, dec) dict \<Rightarrow> s4_position \<Rightarrow> dec" where
  "position_notional marks pos = dabs (dmul (p4_qty pos) (dict_get marks (p4_symbol pos) (p4_avg_cost_try pos)))"

definition compute_gross_exposure :: "s4_position list \<Rightarrow> (string, dec) dict \<Rightarrow> dec" where
  "compute_gross_exposure positions marks = dsum (map (position_notional marks) positions)"

definition compute_largest_position_pct :: "s4_position list \<Rightarrow> (string, dec) dict \<Rightarrow> dec \<Rightarrow> dec" where
  "compute_largest_position_pct positions marks equity =
     (if equity \<le> 0 then 0 else ddiv (foldl (\<lambda>m pos. max m (position_notional marks pos)) 0 positions) equity)"

definition resolve_fees_today :: "pnl_report \<Rightarrow> bool \<Rightarrow> dec \<times> bool" where
  "resolve_fees_today rep live_mode =
     (case pr_fees_total_try rep of
        Some f \<Rightarrow> (f, False)
      | None \<Rightarrow> (dict_get (pr_fees_total_by_currency rep) ''TRY'' 0, live_mode))"

definition missing_marks :: "bool \<Rightarrow> string list option \<Rightarrow> s4_position list \<Rightarrow> (string, dec) dict \<Rightarrow> string list" where
  "missing_marks live_mode tradable positions marks =
     (if live_mode then
        sort (remdups (filter (\<lambda>s. case map_of marks s of None \<Rightarrow> True | Some m \<Rightarrow> m \<le> 0)
          (case tradable of Some ss \<Rightarrow> ss | None \<Rightarrow> map p4_symbol positions)))
      else [])"

subsection \<open>Definitions: the decision\<close>

record risk_state_row =
  rr_current_mode :: "string option"
  rr_peak_equity_try :: "dec option"
  rr_peak_equity_day :: "int option"
  rr_fees_try_today :: "dec option"
  rr_fees_day :: "int option"

record risk_decision_rec =
  rd_mode :: risk_mode
  rd_reasons :: "string list"
  rd_limits :: risk_limits
  rd_signals :: risk_signals
  rd_decided_at :: instant

record budget_decision =
  bd_risk_decision :: risk_decision_rec
  bd_budget_view :: risk_budget_view

record risk_store =
  rk_current :: risk_state_row
  rk_capital :: "capital_state option"
  rk_snapshots :: "pnl_snapshot list"
  rk_decisions :: "(string, risk_decision_rec \<times> risk_mode option) dict"

record budget_settings =
  bs_max_consecutive_losses :: int
  bs_vol_lookback :: int
  bs_vol_low_threshold :: dec
  bs_vol_high_threshold :: dec
  bs_live_trading :: bool

definition list_pnl_snapshots_recent :: "risk_store \<Rightarrow> int \<Rightarrow> pnl_snapshot list" where
  "list_pnl_snapshots_recent s limit = take (nat limit) (rev (sort_key pn_ts (rk_snapshots s)))"

definition resolve_peak_equity :: "risk_state_row \<Rightarrow> dec \<Rightarrow> dec" where
  "resolve_peak_equity current equity = (case rr_peak_equity_try current of None \<Rightarrow> equity | Some peak \<Rightarrow> max peak equity)"

text \<open>The mode after the checks that fail closed.\<close>

definition guarded_mode :: "bool \<Rightarrow> bool \<Rightarrow> string list \<Rightarrow> string list \<Rightarrow> bool \<Rightarrow> risk_mode \<times> string list \<Rightarrow> risk_mode \<times> string list" where
  "guarded_mode kill_switch live_mode missing_m missing_c fees_unknown decided =
     (if kill_switch then (OBSERVE_ONLY, [''kill_switch_active''])
      else if live_mode \<and> missing_m \<noteq> [] then
        (OBSERVE_ONLY, [''mark_price_missing_fail_closed'', ''missing_symbols_count='' @ str_nat (length missing_m)])
      else if missing_c \<noteq> [] then (REDUCE_RISK_ONLY, [''fee_conversion_missing_rate''])
      else if fees_unknown \<and> live_mode then (REDUCE_RISK_ONLY, [''fees_unknown_live''])
      else decided)"

definition budget_multiplier :: "risk_mode \<Rightarrow> string list \<Rightarrow> dec \<Rightarrow> dec" where
  "budget_multiplier mode reasons m =
     (case mode of
        OBSERVE_ONLY \<Rightarrow> 0
      | REDUCE_RISK_ONLY \<Rightarrow>
          (let m' = min m (1 / 2)
           in if ''fee_conversion_missing_rate'' \<in> set reasons then min m' (1 / 4) else m')
      | NORMAL \<Rightarrow> m)"

definition capital_accounting :: "instant \<Rightarrow> capital_state \<Rightarrow> portfolio_state" where
  "capital_accounting decided_at c =
     \<lparr>pf_as_of = decided_at, pf_balances_try = [(''TRY'', cs_trading_capital_try c)], pf_locked_try = [],
      pf_treasury_try = cs_treasury_try c, pf_trading_capital_try = cs_trading_capital_try c, pf_realized_pnl_try = 0,
      pf_unrealized_pnl_try = 0, pf_fees_try = 0, pf_funding_cost_try = 0, pf_slippage_try = 0, pf_symbols = []\<rparr>"

record budget_inputs =
  bi_cycle_id :: string
  bi_limits :: risk_limits
  bi_report :: pnl_report
  bi_positions :: "s4_position list"
  bi_mark_prices :: "(string, dec) dict"
  bi_realized_today_try :: dec
  bi_kill_switch :: bool
  bi_live_mode :: bool
  bi_tradable_symbols :: "string list option"

definition budget_signals :: "risk_state_row \<Rightarrow> budget_inputs \<Rightarrow> risk_signals" where
  "budget_signals current i =
     (let rep = bi_report i; equity = pr_equity_estimate rep; peak = resolve_peak_equity current equity
      in \<lparr>rs_equity_try = equity, rs_peak_equity_try = peak, rs_drawdown_try = max 0 (dsub peak equity),
          rs_daily_pnl_try = bi_realized_today_try i,
          rs_gross_exposure_try = compute_gross_exposure (bi_positions i) (bi_mark_prices i),
          rs_largest_position_pct = compute_largest_position_pct (bi_positions i) (bi_mark_prices i) equity,
          rs_fees_try_today = fst (resolve_fees_today rep (bi_live_mode i)),
          rs_volatility_state = None, rs_loss_streak = None,
          rs_missing_mark_prices = missing_marks (bi_live_mode i) (bi_tradable_symbols i) (bi_positions i) (bi_mark_prices i),
          rs_missing_currencies = sort (remdups (pr_missing_currencies rep))\<rparr>)"

definition budget_mode :: "budget_inputs \<Rightarrow> risk_signals \<Rightarrow> risk_mode \<times> string list" where
  "budget_mode i signals =
     guarded_mode (bi_kill_switch i) (bi_live_mode i) (rs_missing_mark_prices signals) (pr_missing_currencies (bi_report i))
       (snd (resolve_fees_today (bi_report i) (bi_live_mode i))) (decide_mode (bi_limits i) signals)"

fun final_decision ::
  "budget_inputs \<Rightarrow> instant \<Rightarrow> risk_signals \<Rightarrow> string \<Rightarrow> int \<Rightarrow> risk_mode \<times> string list \<Rightarrow> risk_budget_view \<Rightarrow> budget_decision" where
  "final_decision i decided_at signals regime streak (mode, reasons) view =
     \<lparr>bd_risk_decision = \<lparr>rd_mode = mode, rd_reasons = reasons, rd_limits = bi_limits i,
        rd_signals = signals\<lparr>rs_volatility_state := Some regime, rs_loss_streak := Some streak\<rparr>, rd_decided_at = decided_at\<rparr>,
      bd_budget_view = view\<lparr>bv_position_sizing_multiplier := budget_multiplier mode reasons (bv_position_sizing_multiplier view),
        bv_mode := mode\<rparr>\<rparr>"

definition compute_decision ::
  "math_lib \<Rightarrow> budget_settings \<Rightarrow> self_financing_policy \<Rightarrow> instant \<Rightarrow> instant \<Rightarrow> budget_inputs \<Rightarrow> risk_store \<Rightarrow>
   (budget_decision \<times> risk_mode option \<times> dec \<times> dec \<times> int) result \<times> risk_store" where
  "compute_decision ml cfg p now decided_at i s =
     (let current = rk_current s; rep = bi_report i;
          signals = budget_signals current i;
          capital = load_or_init_capital_state (rk_capital s) (bi_cycle_id i) (pr_equity_estimate rep) (pr_realized_pnl_total rep);
          s' = s\<lparr>rk_capital := Some capital\<rparr>;
          snapshots = list_pnl_snapshots_recent s' (max (bs_max_consecutive_losses cfg) (bs_vol_lookback cfg));
          streak = compute_consecutive_loss_streak snapshots (bs_max_consecutive_losses cfg);
          regime = fst (compute_volatility_regime ml snapshots (bs_vol_lookback cfg) (bs_vol_low_threshold cfg) (bs_vol_high_threshold cfg))
      in (rbind (evaluate p (capital_accounting decided_at capital) (rs_peak_equity_try signals) (bi_realized_today_try i) streak regime) (\<lambda>view.
            Inr (final_decision i decided_at signals regime streak (budget_mode i signals) view,
                 parse_risk_mode (rr_current_mode current), rs_peak_equity_try signals, rs_fees_try_today signals,
                 now div 86400000000)),
          s'))"

text \<open>\<open>persist_decision\<close>: one transaction; \<open>failure\<close> is the exception it ends with, if any.\<close>

definition persist_decision ::
  "budget_settings \<Rightarrow> py_error option \<Rightarrow> string \<Rightarrow> budget_decision \<Rightarrow> risk_mode option \<Rightarrow> dec \<Rightarrow> int \<Rightarrow> dec \<Rightarrow> int \<Rightarrow> risk_store \<Rightarrow>
   unit result \<times> risk_store" where
  "persist_decision cfg failure cycle_id d prev_mode peak peak_day fees_today fees_day s =
     (case failure of
        Some e \<Rightarrow> (if bs_live_trading cfg then Inr () else Inl e, s)
      | None \<Rightarrow>
          (Inr (), s\<lparr>rk_decisions := AList.update cycle_id (bd_risk_decision d, prev_mode) (rk_decisions s),
                    rk_current := \<lparr>rr_current_mode = dump_risk_mode (Some (rd_mode (bd_risk_decision d))),
                      rr_peak_equity_try = Some peak, rr_peak_equity_day = Some peak_day,
                      rr_fees_try_today = Some fees_today, rr_fees_day = Some fees_day\<rparr>\<rparr>))"

subsection \<open>Severity of modes\<close>

instantiation risk_mode :: linorder
begin

definition less_eq_risk_mode :: "risk_mode \<Rightarrow> risk_mode \<Rightarrow> bool" where
  "less_eq_risk_mode a b \<longleftrightarrow> MODE_ORDER a \<le> MODE_ORDER b"

definition less_risk_mode :: "risk_mode \<Rightarrow> risk_mode \<Rightarrow> bool" where
  "less_risk_mode a b \<longleftrightarrow> MODE_ORDER a < MODE_ORDER b"

instance
proof
  fix a b :: risk_mode
  show "a \<le> b \<Longrightarrow> b \<le> a \<Longrightarrow> a = b" by (cases a; cases b) (simp_all add: less_eq_risk_mode_def)
qed (auto simp: less_eq_risk_mode_def less_risk_mode_def)

end

lemma mode_bounds [simp]: "NORMAL \<le> m" "m \<le> OBSERVE_ONLY"
  by (cases m; simp add: less_eq_risk_mode_def)+

lemma combine_risk_modes_max: "combine_risk_modes a b = max a b"
  by (cases a; cases b) (simp_all add: combine_risk_modes_def max_def less_eq_risk_mode_def)

subsection \<open>Profit split\<close>

definition cents :: rat where
  "cents = 1 / 10 ^ 8"

lemma quantize_money_down:
  assumes "0 \<le> x" "x < 10 ^ 19"
  shows "\<exists>y. quantize_money x = Inr y \<and> 0 \<le> y \<and> y \<le> x \<and> x < y + cents \<and> grid_multiple (- 8) y"
proof -
  have "0 \<le> x / quantum 8" "x / quantum 8 < 10 ^ 27" using assms by (simp_all add: quantum_def bpow_def)
  then have "0 \<le> trunc_int (x / quantum 8)" "rat_of_int (trunc_int (x / quantum 8)) < 10 ^ 27"
    using trunc_int_bounds [of "x / quantum 8"] by linarith+
  then have "0 \<le> trunc_int (x / quantum 8)" "rat_of_int (trunc_int (x / quantum 8)) < of_int (10 ^ 28)" by simp_all
  then have "\<bar>trunc_int (x / quantum 8)\<bar> < 10 ^ 28" unfolding of_int_less_iff by simp
  then have "\<exists>y. dquantize ROUND_DOWN 8 x = Inr y" by (simp add: dquantize_def)
  then obtain y where y: "dquantize ROUND_DOWN 8 x = Inr y" ..
  have q: "quantize_money x = Inr y" using y by (simp add: quantize_money_def round_quote_def DEFAULT_MONEY_POLICY_def)
  show ?thesis
    using dquantize_down_bounds [OF y assms(1)] q quantize_money_grid [OF q] by (auto simp: cents_def quantum_def bpow_def)
qed

lemma profit_share:
  assumes "grid_multiple (- 8) d" "0 \<le> d" "d < 10 ^ 18" "0 \<le> r" "r \<le> 1" "r = of_int k / 100"
  shows "\<exists>a. quantize_money (dmul d r) = Inr a \<and> 0 \<le> a \<and> a \<le> d * r \<and> d * r < a + cents \<and> grid_multiple (- 8) a"
proof -
  obtain n where n: "d = of_int n * bpow 10 (- 8)" using assms(1) by (auto simp: grid_multiple_def)
  have b: "0 \<le> d * r" "d * r \<le> d" using assms by (auto intro: mult_left_le)
  have "grid_multiple (- 10) (d * r)"
    unfolding grid_multiple_def by (rule exI [of _ "n * k"]) (simp add: n assms(6) bpow_def)
  then have "fits (d * r)" using b assms(3) by (intro grid_multiple_fits [of "- 10"]) (auto simp: bpow_def)
  then have "dmul d r = d * r" by (rule dmul_exact)
  then show ?thesis using quantize_money_down [OF b(1)] b(2) assms(3) by simp
qed

lemma apply_self_financing_split:
  assumes "grid_multiple (- 8) c" "grid_multiple (- 8) t" "grid_multiple (- 8) d"
    and "0 \<le> c" "0 \<le> t" "0 < d" "c < 10 ^ 18" "t < 10 ^ 18" "d < 10 ^ 18"
  shows "\<exists>c' t'. apply_self_financing SelfFinancingPolicy c t d = Inr (c', t') \<and> c \<le> c' \<and> t \<le> t'
    \<and> c' + t' \<le> c + t + d \<and> c + t + d - 2 * cents \<le> c' + t' \<and> grid_multiple (- 8) c' \<and> grid_multiple (- 8) t'"
proof -
  define x where "x = sf_profit_compound_ratio SelfFinancingPolicy"
  define y where "y = sf_profit_treasury_ratio SelfFinancingPolicy"
  have xy: "0 \<le> x" "x \<le> 1" "x = of_int 60 / 100" "0 \<le> y" "y \<le> 1" "y = of_int 40 / 100" and "x + y = 1"
    by (simp_all add: x_def y_def SelfFinancingPolicy_def)
  then have sum: "d * x + d * y = d" by (metis distrib_left mult.right_neutral)
  have q: "quantize_money c = Inr c" "quantize_money t = Inr t" "quantize_money d = Inr d"
    using assms by (auto intro!: quantize_money_exact)
  obtain a where a: "quantize_money (dmul d x) = Inr a" "0 \<le> a" "a \<le> d * x" "d * x < a + cents" "grid_multiple (- 8) a"
    using profit_share [OF assms(3) _ assms(9) xy(1-3)] assms(6) by auto
  obtain r where r: "quantize_money (dmul d y) = Inr r" "0 \<le> r" "r \<le> d * y" "d * y < r + cents" "grid_multiple (- 8) r"
    using profit_share [OF assms(3) _ assms(9) xy(4-6)] assms(6) by auto
  have "0 \<le> d * x" "0 \<le> d * y" using xy assms(6) by simp_all
  then have "a < 10 ^ 18" "r < 10 ^ 18" using a(3) r(3) sum assms(9) by linarith+
  then have s: "quantize_money (dadd c a) = Inr (c + a)" "quantize_money (dadd t r) = Inr (t + r)"
    using assms a r by (auto intro!: settle_exact(1))
  have "apply_self_financing SelfFinancingPolicy c t d = Inr (c + a, t + r)"
    using q s a(1) r(1) assms(6) by (simp add: apply_self_financing_def x_def [symmetric] y_def [symmetric])
  then show ?thesis
    using a r sum assms(1,2) by (intro exI [of _ "c + a"] exI [of _ "t + r"]) (auto intro: grid_multiple_add)
qed

subsection \<open>The capital row\<close>

text \<open>A checkpoint that is applied, or an exception or a repetition, which leaves the row alone.\<close>

lemma checkpoint_cases:
  "apply_self_financing_checkpoint p cyc rtotal n ck seed (Some st) = (res, st')
    \<Longrightarrow> st' = st \<or> (cs_last_event_count st < n \<and> cs_last_realized_pnl_total_try st \<le> rtotal
       \<and> next_capital p st (dsub rtotal (cs_last_realized_pnl_total_try st)) = Inr (cs_trading_capital_try st', cs_treasury_try st')
       \<and> 0 \<le> cs_trading_capital_try st' \<and> 0 \<le> cs_treasury_try st'
       \<and> cs_last_realized_pnl_total_try st' = rtotal \<and> cs_last_event_count st' = n)"
  by (auto simp: apply_self_financing_checkpoint_def load_or_init_capital_state_def Let_def split: if_splits sum.splits)

inductive capital_run :: "dec \<Rightarrow> dec \<Rightarrow> capital_state \<Rightarrow> bool" for seed base where
  start: "capital_run seed base (load_or_init_capital_state None cyc seed base)"
| checkpoint: "capital_run seed base st \<Longrightarrow> grid_multiple (- 8) rtotal \<Longrightarrow> \<bar>rtotal\<bar> < 10 ^ 17
    \<Longrightarrow> apply_self_financing_checkpoint SelfFinancingPolicy cyc rtotal n ck seed' (Some st) = (res, st')
    \<Longrightarrow> capital_run seed base st'"

definition capital_ok :: "dec \<Rightarrow> dec \<Rightarrow> capital_state \<Rightarrow> bool" where
  "capital_ok seed base st \<longleftrightarrow>
     (let c = cs_trading_capital_try st; t = cs_treasury_try st; profit = cs_last_realized_pnl_total_try st - base
      in 0 \<le> c \<and> 0 \<le> t \<and> 0 \<le> profit \<and> 0 \<le> cs_last_event_count st
         \<and> c + t \<le> seed + profit \<and> seed + profit - 2 * of_int (cs_last_event_count st) * cents \<le> c + t
         \<and> grid_multiple (- 8) c \<and> grid_multiple (- 8) t \<and> grid_multiple (- 8) (cs_last_realized_pnl_total_try st)
         \<and> \<bar>cs_last_realized_pnl_total_try st\<bar> < 10 ^ 17)"

lemma capital_ok_step:
  assumes "capital_ok seed base st" "seed < 10 ^ 17" "\<bar>base\<bar> < 10 ^ 17" "grid_multiple (- 8) rtotal" "\<bar>rtotal\<bar> < 10 ^ 17"
    and "apply_self_financing_checkpoint SelfFinancingPolicy cyc rtotal n ck seed' (Some st) = (res, st')"
  shows "capital_ok seed base st'"
proof -
  define c where "c = cs_trading_capital_try st"
  define t where "t = cs_treasury_try st"
  define last where "last = cs_last_realized_pnl_total_try st"
  define count where "count = cs_last_event_count st"
  note defs = c_def [symmetric] t_def [symmetric] last_def [symmetric] count_def [symmetric]
  have ok: "0 \<le> c" "0 \<le> t" "base \<le> last" "0 \<le> count" "c + t \<le> seed + (last - base)"
      "seed + (last - base) - 2 * of_int count * cents \<le> c + t"
      "grid_multiple (- 8) c" "grid_multiple (- 8) t" "grid_multiple (- 8) last" "\<bar>last\<bar> < 10 ^ 17"
    using assms(1) unfolding capital_ok_def Let_def defs by auto
  consider "st' = st" | "count < n" "last \<le> rtotal" "0 \<le> cs_trading_capital_try st'" "0 \<le> cs_treasury_try st'"
      "next_capital SelfFinancingPolicy st (dsub rtotal last) = Inr (cs_trading_capital_try st', cs_treasury_try st')"
      "cs_last_realized_pnl_total_try st' = rtotal" "cs_last_event_count st' = n"
    using checkpoint_cases [OF assms(6)] unfolding defs by blast
  then show ?thesis
  proof cases
    case 2
    have d: "dsub rtotal last = rtotal - last"
      using dsub_grid [OF assms(4) ok(9)] ok(10) assms(5) by (simp add: bpow_def)
    have m: "2 * of_int count * cents + 2 * cents \<le> 2 * of_int n * cents"
    proof -
      have "of_int count + 1 \<le> (of_int n :: rat)" using 2(1) by linarith
      then have "(of_int count + 1) * (2 * cents) \<le> of_int n * (2 * cents)" by (rule mult_right_mono) (simp add: cents_def)
      then show ?thesis by (simp add: algebra_simps)
    qed
    have n: "0 \<le> n" "(0 :: rat) \<le> cents" using 2(1) ok(4) by (auto simp: cents_def)
    show ?thesis
    proof (cases "rtotal = last")
      case True
      then have "cs_trading_capital_try st' = c" "cs_treasury_try st' = t"
        using 2(5) by (simp_all add: next_capital_def defs)
      then show ?thesis using ok m n 2 True unfolding capital_ok_def by (auto simp: Let_def)
    next
      case False
      then have pos: "0 < rtotal - last" using 2(2) by simp
      have "\<exists>c' t'. apply_self_financing SelfFinancingPolicy c t (rtotal - last) = Inr (c', t') \<and> c \<le> c' \<and> t \<le> t'
        \<and> c' + t' \<le> c + t + (rtotal - last) \<and> c + t + (rtotal - last) - 2 * cents \<le> c' + t'
        \<and> grid_multiple (- 8) c' \<and> grid_multiple (- 8) t'"
        using ok assms(2,3,5) pos grid_multiple_diff [OF assms(4) ok(9)] by (intro apply_self_financing_split) auto
      then show ?thesis
        using 2 ok m n pos assms(4,5) unfolding capital_ok_def Let_def next_capital_def d defs by auto
    qed
  qed (use assms(1) in simp)
qed

text \<open>(C7) Self-financing never creates or loses money: along any sequence of ledger checkpoints the trading
  capital and the treasury are non-negative and together equal the seed plus the realised profit
  accounted for, less at most two units of the eighth decimal per ledger event.\<close>

theorem capital_conserved:
  assumes "capital_run seed base st" "grid_multiple (- 8) seed" "0 \<le> seed" "seed < 10 ^ 17"
    and "grid_multiple (- 8) base" "\<bar>base\<bar> < 10 ^ 17"
  shows "0 \<le> cs_trading_capital_try st \<and> 0 \<le> cs_treasury_try st
    \<and> cs_trading_capital_try st + cs_treasury_try st \<le> seed + (cs_last_realized_pnl_total_try st - base)
    \<and> seed + (cs_last_realized_pnl_total_try st - base) - 2 * of_int (cs_last_event_count st) / 10 ^ 8
        \<le> cs_trading_capital_try st + cs_treasury_try st"
proof -
  have "capital_ok seed base st"
    using assms(1)
  proof induction
    case (start cyc)
    then show ?case using assms by (simp add: capital_ok_def load_or_init_capital_state_def)
  next
    case (checkpoint st rtotal cyc n ck seed' res st')
    then show ?case using capital_ok_step assms by blast
  qed
  then show ?thesis by (simp add: capital_ok_def Let_def cents_def)
qed

lemma checkpoint_accepted:
  assumes "apply_self_financing_checkpoint p cyc rtotal n ck seed row = (Inr r, st)"
  shows "cs_last_event_count st = n" "cs_last_realized_pnl_total_try st = rtotal" "cs_trading_capital_try st = cr_trading_capital_try r"
    "cs_treasury_try st = cr_treasury_try r" "cr_checkpoint_id r = ck"
proof -
  define st0 where "st0 = load_or_init_capital_state row cyc seed 0"
  note a = assms [unfolded apply_self_financing_checkpoint_def st0_def [symmetric] Let_def]
  show "cs_last_event_count st = n" "cs_last_realized_pnl_total_try st = rtotal" "cs_trading_capital_try st = cr_trading_capital_try r"
    "cs_treasury_try st = cr_treasury_try r" "cr_checkpoint_id r = ck"
    using a by (auto split: if_split_asm sum.split_asm prod.split_asm)
qed

text \<open>A checkpoint counts once: after a checkpoint was accepted, the same checkpoint is recognised, changes
  nothing and reports the same capital.\<close>

theorem checkpoint_counts_once:
  assumes "apply_self_financing_checkpoint p cyc rtotal n ck seed row = (Inr r, st)"
  shows "apply_self_financing_checkpoint p cyc' rtotal n ck seed' (Some st) =
    (Inr (r\<lparr>cr_realized_pnl_delta_try := 0, cr_applied := False\<rparr>), st)"
  using checkpoint_accepted [OF assms] by (simp add: apply_self_financing_checkpoint_def load_or_init_capital_state_def)

definition demo_capital :: capital_state where
  "demo_capital = snd (apply_self_financing_checkpoint SelfFinancingPolicy ''c1'' 100 2 ''k1'' 1000 None)"

lemma demo_checkpoint:
  "apply_self_financing_checkpoint SelfFinancingPolicy ''c1'' 100 2 ''k1'' 1000 None
     = (Inr \<lparr>cr_trading_capital_try = 1060, cr_treasury_try = 40, cr_realized_pnl_delta_try = 100, cr_checkpoint_id = ''k1'', cr_applied = True\<rparr>,
        demo_capital)"
  by code_simp

theorem checkpoint_counts_once_witness:
  "apply_self_financing_checkpoint SelfFinancingPolicy ''c2'' 100 2 ''k1'' 5 (Some demo_capital)
     = (Inr \<lparr>cr_trading_capital_try = 1060, cr_treasury_try = 40, cr_realized_pnl_delta_try = 0, cr_checkpoint_id = ''k1'', cr_applied = False\<rparr>,
        demo_capital)"
  using checkpoint_counts_once [OF demo_checkpoint, of "''c2''" 5] by simp

lemma grid_multiple_of_int: "grid_multiple (- 8) (of_int n)"
  unfolding grid_multiple_def by (rule exI [of _ "n * 10 ^ 8"]) (simp add: bpow_def)

theorem capital_conserved_witness:
  "cs_trading_capital_try demo_capital + cs_treasury_try demo_capital \<le> 1000 + (cs_last_realized_pnl_total_try demo_capital - 0)"
proof -
  have "apply_self_financing_checkpoint SelfFinancingPolicy ''c1'' 100 2 ''k1'' 1000 (Some (load_or_init_capital_state None ''c1'' 1000 0))
      = apply_self_financing_checkpoint SelfFinancingPolicy ''c1'' 100 2 ''k1'' 1000 None"
    by (simp add: apply_self_financing_checkpoint_def load_or_init_capital_state_def)
  then have "capital_run 1000 0 demo_capital"
    using capital_run.checkpoint [OF capital_run.start [of 1000 0 "''c1''"], of 100 "''c1''" 2 "''k1''" 1000] demo_checkpoint
      grid_multiple_of_int [of 100] by simp
  then show ?thesis using capital_conserved [of 1000 0 demo_capital] grid_multiple_of_int [of 1000] by simp
qed

subsection \<open>The decision fails closed\<close>

definition within_limits :: "risk_limits \<Rightarrow> risk_signals \<Rightarrow> bool" where
  "within_limits limits signals \<longleftrightarrow>
     rs_drawdown_try signals < rl_max_drawdown_try limits \<and> dneg (rl_max_daily_drawdown_try limits) < rs_daily_pnl_try signals
     \<and> rs_gross_exposure_try signals \<le> rl_max_gross_exposure_try limits
     \<and> rs_largest_position_pct signals \<le> rl_max_position_pct limits
     \<and> (case rl_max_fee_try_per_day limits of None \<Rightarrow> True | Some m \<Rightarrow> rs_fees_try_today signals \<le> m)"

lemma decide_mode_normal: "fst (decide_mode limits signals) = NORMAL \<longleftrightarrow> within_limits limits signals"
  by (auto simp: decide_mode_def within_limits_def split: option.split)

definition all_marked :: "budget_inputs \<Rightarrow> bool" where
  "all_marked i \<longleftrightarrow>
     (\<forall>s \<in> set (case bi_tradable_symbols i of Some ss \<Rightarrow> ss | None \<Rightarrow> map p4_symbol (bi_positions i)).
        \<exists>m. map_of (bi_mark_prices i) s = Some m \<and> 0 < m)"

lemma missing_marks_Nil:
  "missing_marks True (bi_tradable_symbols i) (bi_positions i) (bi_mark_prices i) = [] \<longleftrightarrow> all_marked i"
proof -
  have "missing_marks True (bi_tradable_symbols i) (bi_positions i) (bi_mark_prices i) = []
    \<longleftrightarrow> set (missing_marks True (bi_tradable_symbols i) (bi_positions i) (bi_mark_prices i)) = {}" by (rule set_empty [symmetric])
  also have "\<dots> \<longleftrightarrow> all_marked i"
    unfolding missing_marks_def all_marked_def by (auto simp: filter_empty_conv not_le split: option.split)
  finally show ?thesis .
qed

lemma guarded_mode_normal:
  assumes "fst (budget_mode i (budget_signals current i)) = NORMAL"
  shows "\<not> bi_kill_switch i" "bi_live_mode i \<Longrightarrow> all_marked i" "pr_missing_currencies (bi_report i) = []"
    "within_limits (bi_limits i) (budget_signals current i)"
proof -
  have m: "rs_missing_mark_prices (budget_signals current i)
      = missing_marks (bi_live_mode i) (bi_tradable_symbols i) (bi_positions i) (bi_mark_prices i)"
    by (simp add: budget_signals_def Let_def)
  note a = assms [unfolded budget_mode_def guarded_mode_def m]
  show "\<not> bi_kill_switch i" using a by auto
  show "bi_live_mode i \<Longrightarrow> all_marked i" using a missing_marks_Nil [of i] by (auto split: if_splits)
  show "pr_missing_currencies (bi_report i) = []" using a by (auto split: if_splits)
  show "within_limits (bi_limits i) (budget_signals current i)"
    using a unfolding decide_mode_normal [symmetric] by (auto split: if_splits)
qed

lemma base_multiplier_bounds: "0 \<le> base_multiplier SelfFinancingPolicy streak regime" "base_multiplier SelfFinancingPolicy streak regime \<le> 1"
  unfolding base_multiplier_def SelfFinancingPolicy_def Let_def by (simp_all del: set_simps)

lemma halt_mode_multiplier: "0 \<le> m \<Longrightarrow> m \<le> 1 \<Longrightarrow> 0 \<le> snd (halt_mode m a b c d) \<and> snd (halt_mode m a b c d) \<le> 1"
  by (simp add: halt_mode_def)

lemma evaluate_multiplier:
  assumes "evaluate SelfFinancingPolicy acc peak today streak regime = Inr v"
  shows "0 \<le> bv_position_sizing_multiplier v" "bv_position_sizing_multiplier v \<le> 1"
  using assms halt_mode_multiplier [OF base_multiplier_bounds, of streak regime]
  by (force simp: evaluate_def rbind_eq_Inr_iff Let_def split_def)+

text \<open>(C33) The budget decision fails closed.  In NORMAL mode the kill switch is off, every fee currency could
  be converted and all limits are kept, and in live mode every tradable symbol, or every position where no
  tradable symbols are given, has a positive mark price; outside live mode the marks are not checked.
  REDUCE_RISK_ONLY sizes positions at most at one half, OBSERVE_ONLY at zero.\<close>

theorem budget_fails_closed:
  assumes "compute_decision ml cfg SelfFinancingPolicy now decided_at i s = (Inr (d, prev, peak, fees, day), s')"
  shows "let m = bv_position_sizing_multiplier (bd_budget_view d) in
    case rd_mode (bd_risk_decision d) of
      NORMAL \<Rightarrow> 0 \<le> m \<and> m \<le> 1 \<and> \<not> bi_kill_switch i \<and> (bi_live_mode i \<longrightarrow> all_marked i) \<and> pr_missing_currencies (bi_report i) = []
        \<and> within_limits (bi_limits i) (budget_signals (rk_current s) i)
    | REDUCE_RISK_ONLY \<Rightarrow> 0 \<le> m \<and> m \<le> 1 / 2
    | OBSERVE_ONLY \<Rightarrow> m = 0"
proof -
  obtain mode reasons where b: "budget_mode i (budget_signals (rk_current s) i) = (mode, reasons)" by force
  obtain v acc pk streak regime dec_at signals where v: "evaluate SelfFinancingPolicy acc pk (bi_realized_today_try i) streak regime = Inr v"
    and d: "d = final_decision i dec_at signals regime streak (mode, reasons) v"
    using assms by (auto simp: compute_decision_def Let_def rbind_eq_Inr_iff b)
  note m = evaluate_multiplier [OF v]
  have "fst (budget_mode i (budget_signals (rk_current s) i)) = NORMAL" if "mode = NORMAL" using b that by simp
  note normal = guarded_mode_normal [OF this]
  show ?thesis
    using m normal unfolding d by (cases mode) (auto simp: budget_multiplier_def Let_def)
qed

text \<open>
  A missing conversion rate replaces the mode that the limits give: with the drawdown limit
  reached, which alone stops trading, the decision is to reduce risk only.
\<close>

definition demo_limits :: risk_limits where
  "demo_limits = \<lparr>rl_max_daily_drawdown_try = 100, rl_max_drawdown_try = 200, rl_max_gross_exposure_try = 1000,
     rl_max_position_pct = 1 / 2, rl_max_order_notional_try = 100, rl_min_cash_try = None, rl_max_fee_try_per_day = None\<rparr>"

definition demo_inputs :: "string list \<Rightarrow> dec \<Rightarrow> budget_inputs" where
  "demo_inputs missing today =
     \<lparr>bi_cycle_id = ''c'', bi_limits = demo_limits,
      bi_report = \<lparr>pr_realized_pnl_total = 0, pr_unrealized_pnl_total = 0, pr_fees_total_by_currency = [], pr_per_symbol = [],
        pr_equity_estimate = 1000, pr_fees_total_try = Some 0, pr_missing_currencies = missing\<rparr>,
      bi_positions = [], bi_mark_prices = [(''BTCTRY'', 10)], bi_realized_today_try = today, bi_kill_switch = False,
      bi_live_mode = True, bi_tradable_symbols = Some [''BTCTRY'']\<rparr>"

definition demo_risk_store :: risk_store where
  "demo_risk_store =
     \<lparr>rk_current = \<lparr>rr_current_mode = None, rr_peak_equity_try = None, rr_peak_equity_day = None, rr_fees_try_today = None, rr_fees_day = None\<rparr>,
      rk_capital = None, rk_snapshots = [], rk_decisions = []\<rparr>"

lemma missing_rate_lifts_halt:
  "budget_mode (demo_inputs [] (- 100)) (budget_signals (rk_current demo_risk_store) (demo_inputs [] (- 100)))
     = (OBSERVE_ONLY, [''DRAWDOWN_LIMIT''])"
  "budget_mode (demo_inputs [''BNB''] (- 100)) (budget_signals (rk_current demo_risk_store) (demo_inputs [''BNB''] (- 100)))
     = (REDUCE_RISK_ONLY, [''fee_conversion_missing_rate''])"
  by code_simp+

definition demo_settings :: budget_settings where
  "demo_settings = \<lparr>bs_max_consecutive_losses = 3, bs_vol_lookback = 20, bs_vol_low_threshold = 1 / 100, bs_vol_high_threshold = 1 / 20,
     bs_live_trading = True\<rparr>"

definition demo_decision :: "budget_decision \<times> risk_mode option \<times> dec \<times> dec \<times> int" where
  "demo_decision = projr (fst (compute_decision \<lparr>ml_log = id, ml_sqrt = id, ml_sum = sum_list\<rparr> demo_settings SelfFinancingPolicy 0 0
     (demo_inputs [] 0) demo_risk_store))"

lemma demo_decision_value:
  "compute_decision \<lparr>ml_log = id, ml_sqrt = id, ml_sum = sum_list\<rparr> demo_settings SelfFinancingPolicy 0 0 (demo_inputs [] 0) demo_risk_store
     = (Inr demo_decision, demo_risk_store\<lparr>rk_capital := Some (load_or_init_capital_state None ''c'' 1000 0)\<rparr>)"
  "rd_mode (bd_risk_decision (fst demo_decision)) = NORMAL"
  by code_simp+

theorem budget_fails_closed_witness:
  "all_marked (demo_inputs [] 0) \<and> within_limits demo_limits (budget_signals (rk_current demo_risk_store) (demo_inputs [] 0))
   \<and> bv_position_sizing_multiplier (bd_budget_view (fst demo_decision)) \<le> 1"
proof -
  obtain d prev peak fees day where d: "demo_decision = (d, prev, peak, fees, day)" by (cases demo_decision) auto
  show ?thesis
    using budget_fails_closed [OF demo_decision_value(1) [unfolded d]] demo_decision_value(2)
    by (simp add: d demo_inputs_def Let_def)
qed

end
