(* ===== verification/Stage7_Risk.thy ===== *)
theory Stage7_Risk
  imports Risk_Budget
begin

text \<open>
  The risk decision of a stage 7 cycle, \<open>src/src/btcbot/services/stage7_risk_budget_service.py\<close>
  with the result type of \<open>domain/risk_engine.py\<close>.  The hash of the inputs and the metrics,
  which only go to the log, are left out.

  The lemmas give the mode as the most severe of the triggers and the running cooldown, show
  that a cooldown holds until its end, and that trading resumes when the triggers are gone for
  longer than the cooldown.
\<close>

subsection \<open>Definitions\<close>

record stage7_settings =
  s7_kill_switch :: bool
  s7_risk_cooldown_sec :: int
  s7_max_data_age_sec :: int
  s7_daily_loss_limit_try :: dec
  s7_max_drawdown_bps :: int
  s7_fee_burn_limit_try :: dec
  s7_high_vol_threshold_bps :: dec
  s7_max_order_notional_try :: dec
  s7_notional_cap_try_per_cycle :: dec
  s7_max_orders_per_cycle :: int
  s7_max_symbol_exposure_try :: dec

record stage7_inputs =
  si_max_drawdown_pct :: dec
  si_daily_pnl_try :: dec
  si_market_data_age_sec :: int
  si_observed_spread_bps :: dec
  si_fee_burn_today_try :: dec
  si_exchange_degraded :: bool
  si_stale_age_sec :: int

record cycle_risk_output =
  co_mode :: risk_mode
  co_reasons :: "string list"
  co_max_order_notional_try :: dec
  co_max_orders_per_cycle :: int
  co_max_symbol_exposure_try :: dec
  co_daily_loss_limit_try :: dec
  co_max_drawdown_bps :: int
  co_fee_burn_limit_try :: dec
  co_cooldown_until :: "instant option"
  co_allow_submit :: bool
  co_allow_cancel :: bool
  co_decided_at :: instant

record decide_state =
  ds_mode :: risk_mode
  ds_reasons :: "string list"
  ds_cooldown :: "instant option"

definition add_reason :: "string \<Rightarrow> string list \<Rightarrow> string list" where
  "add_reason r rs = (if r \<in> set rs then rs else rs @ [r])"

definition apply_mode :: "stage7_settings \<Rightarrow> instant \<Rightarrow> risk_mode \<Rightarrow> string \<Rightarrow> decide_state \<Rightarrow> decide_state" where
  "apply_mode cfg now next_mode reason d =
     (let d' = d\<lparr>ds_reasons := add_reason reason (ds_reasons d)\<rparr>
      in if next_mode = OBSERVE_ONLY then
           d'\<lparr>ds_mode := OBSERVE_ONLY,
              ds_cooldown := (if 0 < s7_risk_cooldown_sec cfg then Some (now + s7_risk_cooldown_sec cfg * 1000000) else ds_cooldown d)\<rparr>
         else if next_mode = REDUCE_RISK_ONLY \<and> ds_mode d = NORMAL then d'\<lparr>ds_mode := REDUCE_RISK_ONLY\<rparr>
         else d')"

definition apply_if :: "bool \<Rightarrow> ('a \<Rightarrow> 'a) \<Rightarrow> 'a \<Rightarrow> 'a" where
  "apply_if b f x = (if b then f x else x)"

definition stale :: "stage7_settings \<Rightarrow> stage7_inputs \<Rightarrow> bool" where
  "stale cfg i \<longleftrightarrow> s7_max_data_age_sec cfg < max (si_market_data_age_sec i) (si_stale_age_sec i)"

definition drawdown_bps :: "stage7_inputs \<Rightarrow> int" where
  "drawdown_bps i = trunc_int (to_integral_value ROUND_HALF_EVEN (dmul (si_max_drawdown_pct i) 10000))"

definition loss_limit_hit :: "stage7_settings \<Rightarrow> stage7_inputs \<Rightarrow> bool" where
  "loss_limit_hit cfg i \<longleftrightarrow> si_daily_pnl_try i \<le> dmul (s7_daily_loss_limit_try cfg) (- 1)"

definition high_vol :: "stage7_settings \<Rightarrow> stage7_inputs \<Rightarrow> bool" where
  "high_vol cfg i \<longleftrightarrow> s7_high_vol_threshold_bps cfg \<le> si_observed_spread_bps i"

definition extreme_vol :: "stage7_settings \<Rightarrow> stage7_inputs \<Rightarrow> bool" where
  "extreme_vol cfg i \<longleftrightarrow> high_vol cfg i \<and> dmul (s7_high_vol_threshold_bps cfg) 2 \<le> si_observed_spread_bps i"

definition risk_triggers :: "stage7_settings \<Rightarrow> instant \<Rightarrow> stage7_inputs \<Rightarrow> decide_state" where
  "risk_triggers cfg now i =
     (let am = apply_mode cfg now;
          d0 = \<lparr>ds_mode = NORMAL, ds_reasons = [], ds_cooldown = None\<rparr>;
          d1 = apply_if (s7_kill_switch cfg) (am OBSERVE_ONLY ''KILL_SWITCH'') d0;
          d2 = apply_if (si_exchange_degraded i) (am OBSERVE_ONLY ''EXCHANGE_DEGRADED'') d1;
          d3 = apply_if (stale cfg i) (am OBSERVE_ONLY ''STALE_DATA'') d2;
          d4 = apply_if (loss_limit_hit cfg i) (am REDUCE_RISK_ONLY ''LOSS_LIMIT'') d3;
          d5 = apply_if (s7_max_drawdown_bps cfg \<le> drawdown_bps i) (am REDUCE_RISK_ONLY ''DRAWDOWN_LIMIT'') d4;
          d6 = apply_if (s7_fee_burn_limit_try cfg \<le> si_fee_burn_today_try i) (am REDUCE_RISK_ONLY ''FEE_BURN'') d5;
          d7 = apply_if (high_vol cfg i) (\<lambda>d. d\<lparr>ds_reasons := add_reason ''HIGH_VOL'' (ds_reasons d)\<rparr>) d6
      in apply_if (extreme_vol cfg i) (am REDUCE_RISK_ONLY ''HIGH_VOL'') d7)"

text \<open>The cooldown of the previous decision, when it is still running.\<close>

definition running_cooldown :: "instant \<Rightarrow> cycle_risk_output option \<Rightarrow> (instant \<times> risk_mode) option" where
  "running_cooldown now previous =
     (case previous of
        None \<Rightarrow> None
      | Some p \<Rightarrow>
          (case co_cooldown_until p of
             None \<Rightarrow> None
           | Some t \<Rightarrow> if now < t then Some (t, co_mode p) else None))"

definition keep_cooldown :: "(instant \<times> risk_mode) option \<Rightarrow> decide_state \<Rightarrow> decide_state" where
  "keep_cooldown rc d =
     (case rc of
        None \<Rightarrow> d
      | Some (t, prev_mode) \<Rightarrow>
          d\<lparr>ds_mode := (if prev_mode = OBSERVE_ONLY then OBSERVE_ONLY
                       else if prev_mode = REDUCE_RISK_ONLY \<and> ds_mode d = NORMAL then REDUCE_RISK_ONLY
                       else ds_mode d),
            ds_cooldown := Some t\<rparr>)"

definition decide :: "stage7_settings \<Rightarrow> instant \<Rightarrow> stage7_inputs \<Rightarrow> cycle_risk_output option \<Rightarrow> cycle_risk_output" where
  "decide cfg now i previous =
     (let d = keep_cooldown (running_cooldown now previous) (risk_triggers cfg now i);
          notional = min (s7_max_order_notional_try cfg) (s7_notional_cap_try_per_cycle cfg)
      in \<lparr>co_mode = ds_mode d,
          co_reasons = (if ds_reasons d = [] then [''OK''] else ds_reasons d),
          co_max_order_notional_try = (if high_vol cfg i then dmul notional (1 / 2) else notional),
          co_max_orders_per_cycle =
            (if high_vol cfg i then max 1 (s7_max_orders_per_cycle cfg div 2) else s7_max_orders_per_cycle cfg),
          co_max_symbol_exposure_try =
            (if high_vol cfg i then dmul (s7_max_symbol_exposure_try cfg) (1 / 2) else s7_max_symbol_exposure_try cfg),
          co_daily_loss_limit_try = s7_daily_loss_limit_try cfg, co_max_drawdown_bps = s7_max_drawdown_bps cfg,
          co_fee_burn_limit_try = s7_fee_burn_limit_try cfg, co_cooldown_until = ds_cooldown d,
          co_allow_submit = (ds_mode d \<noteq> OBSERVE_ONLY), co_allow_cancel = True, co_decided_at = now\<rparr>)"

text \<open>The decisions of consecutive cycles, each with the decision before it.\<close>

fun decide_run :: "stage7_settings \<Rightarrow> cycle_risk_output option \<Rightarrow> (instant \<times> stage7_inputs) list \<Rightarrow> cycle_risk_output option" where
  "decide_run cfg previous [] = previous"
| "decide_run cfg previous ((now, i) # cycles) = decide_run cfg (Some (decide cfg now i previous)) cycles"

subsection \<open>The mode of a decision\<close>

definition halting :: "stage7_settings \<Rightarrow> stage7_inputs \<Rightarrow> bool" where
  "halting cfg i \<longleftrightarrow> s7_kill_switch cfg \<or> si_exchange_degraded i \<or> stale cfg i"

definition reducing :: "stage7_settings \<Rightarrow> stage7_inputs \<Rightarrow> bool" where
  "reducing cfg i \<longleftrightarrow> loss_limit_hit cfg i \<or> s7_max_drawdown_bps cfg \<le> drawdown_bps i
     \<or> s7_fee_burn_limit_try cfg \<le> si_fee_burn_today_try i \<or> extreme_vol cfg i"

definition trigger_mode :: "stage7_settings \<Rightarrow> stage7_inputs \<Rightarrow> risk_mode" where
  "trigger_mode cfg i = (if halting cfg i then OBSERVE_ONLY else if reducing cfg i then REDUCE_RISK_ONLY else NORMAL)"

definition fresh_cooldown :: "stage7_settings \<Rightarrow> instant \<Rightarrow> instant option" where
  "fresh_cooldown cfg now = (if 0 < s7_risk_cooldown_sec cfg then Some (now + s7_risk_cooldown_sec cfg * 1000000) else None)"

lemma apply_mode_simps:
  "ds_mode (apply_mode cfg now m r d) = max (ds_mode d) m"
  "ds_cooldown (apply_mode cfg now m r d) = (if m = OBSERVE_ONLY \<and> 0 < s7_risk_cooldown_sec cfg then fresh_cooldown cfg now else ds_cooldown d)"
  by (cases m; cases "ds_mode d"; simp add: apply_mode_def Let_def max_def less_eq_risk_mode_def fresh_cooldown_def)+

lemma max_NORMAL [simp]: "max m NORMAL = m" "max NORMAL m = m"
  by (simp_all add: max_absorb1 max_absorb2)

lemma apply_if_mode:
  "ds_mode (apply_if b (apply_mode cfg now m r) d) = max (ds_mode d) (if b then m else NORMAL)"
  "ds_mode (apply_if b (\<lambda>d. d\<lparr>ds_reasons := f d\<rparr>) d) = ds_mode d"
  by (simp_all add: apply_if_def apply_mode_simps)

lemma gated_max:
  "max (if a then m else NORMAL) (if b then m else NORMAL) = (if a \<or> b then m else NORMAL)"
  "max (if a then m else NORMAL) (max (if b then m else NORMAL) x) = max (if a \<or> b then m else NORMAL) x"
  by (auto simp: max.assoc [symmetric])

lemma risk_triggers_mode: "ds_mode (risk_triggers cfg now i) = trigger_mode cfg i"
proof -
  have "ds_mode (risk_triggers cfg now i)
      = max (if halting cfg i then OBSERVE_ONLY else NORMAL) (if reducing cfg i then REDUCE_RISK_ONLY else NORMAL)"
    unfolding risk_triggers_def Let_def halting_def reducing_def
    by (simp only: apply_if_mode decide_state.simps max.assoc gated_max max_NORMAL disj_assoc)
  then show ?thesis by (simp add: trigger_mode_def max_def less_eq_risk_mode_def)
qed

lemma risk_triggers_cooldown:
  "ds_cooldown (risk_triggers cfg now i) = (if halting cfg i then fresh_cooldown cfg now else None)"
  unfolding risk_triggers_def Let_def apply_if_def halting_def
  by (simp add: apply_mode_simps fresh_cooldown_def)

lemma decide_simps:
  "co_mode (decide cfg now i previous) = ds_mode (keep_cooldown (running_cooldown now previous) (risk_triggers cfg now i))"
  "co_cooldown_until (decide cfg now i previous) = ds_cooldown (keep_cooldown (running_cooldown now previous) (risk_triggers cfg now i))"
  "co_allow_submit (decide cfg now i previous) \<longleftrightarrow> co_mode (decide cfg now i previous) \<noteq> OBSERVE_ONLY"
  by (simp_all add: decide_def Let_def)

text \<open>The mode is the most severe of the triggers and of the previous decision while its cooldown runs.\<close>

lemma decide_mode_eq:
  "co_mode (decide cfg now i previous) =
     max (trigger_mode cfg i) (case running_cooldown now previous of None \<Rightarrow> NORMAL | Some (t, m) \<Rightarrow> m)"
proof (cases "running_cooldown now previous")
  case (Some tm)
  obtain t m where "tm = (t, m)" by force
  then show ?thesis
    by (cases m; cases "trigger_mode cfg i")
      (simp_all add: decide_simps keep_cooldown_def Some risk_triggers_mode max_def less_eq_risk_mode_def)
qed (simp add: decide_simps keep_cooldown_def risk_triggers_mode)

lemma decide_cooldown:
  "co_cooldown_until (decide cfg now i previous) =
     (case running_cooldown now previous of Some (t, m) \<Rightarrow> Some t | None \<Rightarrow> if halting cfg i then fresh_cooldown cfg now else None)"
  by (simp add: decide_simps keep_cooldown_def risk_triggers_cooldown split: option.split)

subsection \<open>The cooldown holds\<close>

text \<open>(C16) A halt holds until the end of its cooldown: after an OBSERVE_ONLY decision with a cooldown, every
  later decision before the end of the cooldown is OBSERVE_ONLY again and allows no submission,
  whatever its inputs.\<close>

theorem halt_holds_until_cooldown:
  assumes "co_mode p = OBSERVE_ONLY" "co_cooldown_until p = Some t" "\<forall>c \<in> set cycles. fst c < t" "cycles \<noteq> []"
  shows "\<exists>q. decide_run cfg (Some p) cycles = Some q \<and> co_mode q = OBSERVE_ONLY \<and> co_cooldown_until q = Some t \<and> \<not> co_allow_submit q"
  using assms
proof (induction cycles arbitrary: p)
  case (Cons c cycles)
  obtain now i where c: "c = (now, i)" by force
  then have rc: "running_cooldown now (Some p) = Some (t, OBSERVE_ONLY)" using Cons.prems by (simp add: running_cooldown_def)
  let ?q = "decide cfg now i (Some p)"
  have q: "co_mode ?q = OBSERVE_ONLY" "co_cooldown_until ?q = Some t"
    by (simp_all add: decide_mode_eq decide_cooldown rc max_absorb2)
  show ?case
  proof (cases "cycles = []")
    case True
    then show ?thesis using q by (simp add: c decide_simps(3))
  next
    case False
    then show ?thesis using Cons.IH [OF q] Cons.prems(3) by (simp add: c)
  qed
qed simp

subsection \<open>Trading resumes\<close>

definition cooldown_le :: "instant \<Rightarrow> cycle_risk_output option \<Rightarrow> bool" where
  "cooldown_le B previous =
     (case previous of None \<Rightarrow> True | Some p \<Rightarrow> (case co_cooldown_until p of None \<Rightarrow> True | Some t \<Rightarrow> t \<le> B))"

lemma decide_cooldown_le:
  assumes "cooldown_le B previous" "now + s7_risk_cooldown_sec cfg * 1000000 \<le> B \<or> \<not> halting cfg i"
  shows "cooldown_le B (Some (decide cfg now i previous))"
  using assms
  by (auto simp: cooldown_le_def decide_cooldown running_cooldown_def fresh_cooldown_def split: option.splits if_splits)

lemma decide_run_cooldown_le:
  assumes "cooldown_le B previous"
    and "\<forall>c \<in> set cycles. fst c + s7_risk_cooldown_sec cfg * 1000000 \<le> B \<or> \<not> halting cfg (snd c)"
  shows "cooldown_le B (decide_run cfg previous cycles)"
  using assms
proof (induction cycles arbitrary: previous)
  case (Cons c cycles)
  then show ?case using decide_cooldown_le [of B previous "fst c" cfg "snd c"] by (cases c) simp
qed simp

lemma decide_run_append: "decide_run cfg previous (cs @ ds) = decide_run cfg (decide_run cfg previous cs) ds"
  by (induction cs arbitrary: previous) auto

text \<open>(C34) Trading resumes: once no trigger is active, and every cycle that saw a halting trigger is at least the
  cooldown in the past, the next decision is NORMAL and allows submissions.\<close>

theorem trading_resumes:
  assumes "\<forall>c \<in> set cycles. fst c + s7_risk_cooldown_sec cfg * 1000000 \<le> now \<or> \<not> halting cfg (snd c)"
    and "trigger_mode cfg i = NORMAL"
  shows "\<exists>q. decide_run cfg None (cycles @ [(now, i)]) = Some q \<and> co_mode q = NORMAL \<and> co_allow_submit q"
proof -
  have "cooldown_le now (decide_run cfg None cycles)"
    using assms(1) by (intro decide_run_cooldown_le) (auto simp: cooldown_le_def)
  then have "running_cooldown now (decide_run cfg None cycles) = None"
    by (auto simp: running_cooldown_def cooldown_le_def split: option.splits)
  then show ?thesis
    using assms(2) by (simp add: decide_run_append decide_simps(3) decide_mode_eq)
qed

subsection \<open>Examples\<close>

definition demo_cfg :: stage7_settings where
  "demo_cfg = \<lparr>s7_kill_switch = False, s7_risk_cooldown_sec = 900, s7_max_data_age_sec = 60, s7_daily_loss_limit_try = 500,
     s7_max_drawdown_bps = 2500, s7_fee_burn_limit_try = 150, s7_high_vol_threshold_bps = 250, s7_max_order_notional_try = 3000,
     s7_notional_cap_try_per_cycle = 1000, s7_max_orders_per_cycle = 2, s7_max_symbol_exposure_try = 8000\<rparr>"

definition demo_in :: "bool \<Rightarrow> stage7_inputs" where
  "demo_in degraded = \<lparr>si_max_drawdown_pct = 0, si_daily_pnl_try = 0, si_market_data_age_sec = 0, si_observed_spread_bps = 10,
     si_fee_burn_today_try = 0, si_exchange_degraded = degraded, si_stale_age_sec = 0\<rparr>"

lemma demo_quiet: "trigger_mode demo_cfg (demo_in False) = NORMAL" "halting demo_cfg (demo_in False) = False"
  by code_simp+

theorem trading_resumes_witness:
  "\<exists>q. decide_run demo_cfg None ([(0, demo_in True), (600000000, demo_in False)] @ [(900000000, demo_in False)]) = Some q
     \<and> co_mode q = NORMAL \<and> co_allow_submit q"
  by (rule trading_resumes) (simp_all add: demo_quiet, simp add: demo_cfg_def)

definition demo_halt :: cycle_risk_output where
  "demo_halt = decide demo_cfg 0 (demo_in True) None"

lemma demo_halt_facts: "co_mode demo_halt = OBSERVE_ONLY" "co_cooldown_until demo_halt = Some 900000000"
  by code_simp+

theorem halt_holds_until_cooldown_witness:
  "\<exists>q. decide_run demo_cfg (Some demo_halt) [(600000000, demo_in False)] = Some q \<and> co_mode q = OBSERVE_ONLY
     \<and> co_cooldown_until q = Some 900000000 \<and> \<not> co_allow_submit q"
  by (rule halt_holds_until_cooldown [OF demo_halt_facts]) simp_all

text \<open>
  A trigger during a running cooldown does not start a new one: the exchange is degraded at
  890 seconds, and the next decision at 901 seconds is NORMAL.
\<close>

lemma cooldown_not_extended:
  "map_option co_mode (decide_run demo_cfg (Some demo_halt) [(890000000, demo_in True), (901000000, demo_in False)]) = Some NORMAL"
  by code_simp

end
