(* ===== verification/Portfolio_Policy.thy ===== *)
theory Portfolio_Policy
  imports Symbols Risk_Budget
begin

text \<open>
  The rebalancing plan: \<open>src/src/btcbot/services/portfolio_policy_service.py\<close>, its value types
  in \<open>domain/portfolio_policy_models.py\<close> and the target weights of \<open>config.py\<close>
  (\<open>get_portfolio_target_weights\<close>).

  Texts that print decimals are kept as data: the reason of an action and the notes of a plan
  are datatypes, and of \<open>constraints_summary\<close> the plan keeps the snapshot, the balances and the
  target weights, which the order builder reads, not the printed settings.  The entries of
  PORTFOLIO_TARGETS come in as the parsed list, \<open>None\<close> when the setting is empty.
\<close>

subsection \<open>Definitions: target weights\<close>

record portfolio_settings =
  po_quote_ccy :: string
  po_max_position_notional_try :: dec
  po_notional_cap_try_per_cycle :: dec
  po_min_order_notional_try :: dec
  po_try_cash_target :: dec
  po_try_cash_max :: dec
  po_max_orders_per_cycle :: int
  po_targets :: "(string \<times> dec) list option"

definition add_weight :: "(string, dec) dict \<Rightarrow> string \<times> dec \<Rightarrow> (string, dec) dict result" where
  "add_weight weights entry =
     (let symb = canonical_symbol (fst entry); w = snd entry
      in if symb = [] \<or> map_of weights symb \<noteq> None then Inr weights
         else if w \<le> 0 then Inl (ValueError ''PORTFOLIO_TARGETS weight must be > 0'')
         else Inr (AList.update symb w weights))"

definition normalized_weights :: "(string, dec) dict \<Rightarrow> (string, dec) dict result" where
  "normalized_weights weights =
     (let tot = dsum (map snd weights)
      in if 1 / 1000000 < \<bar>dsub 1 tot\<bar> then
           (if 95 / 100 < tot \<and> tot < 105 / 100 then Inr (map (\<lambda>(s, w). (s, ddiv w tot)) weights)
            else Inl (ValueError ''PORTFOLIO_TARGETS weights must sum to 1.0''))
         else Inr weights)"

definition get_portfolio_target_weights :: "portfolio_settings \<Rightarrow> string list \<Rightarrow> (string, dec) dict result" where
  "get_portfolio_target_weights cfg universe =
     (let normalized = sort (remdups (map canonical_symbol (filter (\<lambda>s. str_strip s \<noteq> []) universe)))
      in if normalized = [] then Inr []
         else case po_targets cfg of
           None \<Rightarrow> Inr (map (\<lambda>s. (s, ddiv 1 (of_nat (length normalized)))) normalized)
         | Some entries \<Rightarrow>
             rbind (rfold add_weight [] entries) (\<lambda>weights.
               if weights = [] then Inl (ValueError ''PORTFOLIO_TARGETS did not produce any valid symbol weights'')
               else if list_ex (\<lambda>s. s \<notin> set normalized) (map fst weights) then
                 Inl (ValueError ''PORTFOLIO_TARGETS contains symbols outside universe'')
               else rbind (normalized_weights weights) (\<lambda>ws. Inr (sort_key fst ws))))"

subsection \<open>Definitions: the value types\<close>

record balance =
  ba_asset :: string
  ba_free :: dec
  ba_locked :: dec

record position_snapshot =
  ps_symbol :: string
  ps_qty :: dec
  ps_mark_price_try :: dec
  ps_notional_try :: dec

record portfolio_snapshot =
  pt_cash_try :: dec
  pt_positions :: "position_snapshot list"
  pt_equity_try :: dec

record target_allocation =
  ta_symbol :: string
  ta_weight :: dec
  ta_target_notional_try :: dec

datatype side = SELL | BUY

datatype rebalance_reason = Overweight dec dec dec | Underweight dec dec dec

record raw_action =
  ra_symbol :: string
  ra_side :: side
  ra_requested_notional_try :: dec
  ra_current :: dec
  ra_target :: dec

record rebalance_action =
  rb_symbol :: string
  rb_side :: side
  rb_target_notional_try :: dec
  rb_est_qty :: dec
  rb_reason :: rebalance_reason

datatype plan_note =
    NoInvestableEquity
  | LeftoverWeight dec
  | CapHits nat
  | MinNotional nat
  | TurnoverCap nat
  | MaxOrders nat
  | ObserveOnly nat
  | ReduceRiskOnly nat

record portfolio_plan =
  pp_timestamp :: instant
  pp_universe :: "string list"
  pp_cash_target_try :: dec
  pp_allocations :: "target_allocation list"
  pp_actions :: "rebalance_action list"
  pp_snapshot :: portfolio_snapshot
  pp_balances :: "(string, dec \<times> dec) dict"
  pp_planned_turnover_try :: dec
  pp_target_weights :: "(string, dec) dict"
  pp_notes :: "plan_note list"

subsection \<open>Definitions: the plan\<close>

definition snapshot_position :: "(string, dec) dict \<Rightarrow> (string, dec) dict \<Rightarrow> string \<Rightarrow> string \<Rightarrow> position_snapshot result" where
  "snapshot_position marks balance_by_asset quote_ccy symb =
     (let (base_asset, parsed_quote) = split_symbol_quote symb quote_ccy;
          qty = (if parsed_quote \<noteq> quote_ccy then 0 else dict_get balance_by_asset base_asset 0)
      in case map_of marks symb of
           None \<Rightarrow> Inl (KeyError symb)
         | Some mark \<Rightarrow> Inr \<lparr>ps_symbol = symb, ps_qty = qty, ps_mark_price_try = mark, ps_notional_try = dmul qty mark\<rparr>)"

definition build_snapshot :: "string list \<Rightarrow> (string, dec) dict \<Rightarrow> balance list \<Rightarrow> string \<Rightarrow> portfolio_snapshot result" where
  "build_snapshot universe marks balances quote_ccy =
     (let by_asset = fold (\<lambda>b. AList.update (str_upper (ba_asset b)) (ba_free b)) balances [];
          cash = dict_get by_asset quote_ccy 0
      in rbind (rmap (snapshot_position marks by_asset quote_ccy) universe) (\<lambda>positions.
           Inr \<lparr>pt_cash_try = cash, pt_positions = sort_key ps_symbol positions,
                pt_equity_try = dadd cash (dsum (map ps_notional_try positions))\<rparr>))"

definition target_notional :: "dec \<Rightarrow> dec \<Rightarrow> (string, dec) dict \<Rightarrow> string \<Rightarrow> dec" where
  "target_notional investable cap weights symb = min (dmul investable (dict_get weights symb 0)) cap"

definition build_allocations ::
  "string list \<Rightarrow> dec \<Rightarrow> dec \<Rightarrow> (string, dec) dict \<Rightarrow> target_allocation list \<times> plan_note list" where
  "build_allocations universe investable cap weights =
     (if universe = [] \<or> investable \<le> 0 then ([], [NoInvestableEquity])
      else
        let allocations = map (\<lambda>s. let t = target_notional investable cap weights s
               in \<lparr>ta_symbol = s, ta_weight = ddiv t investable, ta_target_notional_try = t\<rparr>) (sort universe);
            capped = length (filter (\<lambda>s. let raw = dmul investable (dict_get weights s 0)
               in 0 < raw \<and> target_notional investable cap weights s < raw) (sort universe));
            leftover = dsub 1 (dsum (map ta_weight allocations))
        in (allocations, [LeftoverWeight (if leftover < 0 then 0 else leftover), CapHits capped]))"

definition raw_action_of :: "(string, position_snapshot) dict \<Rightarrow> target_allocation \<Rightarrow> raw_action option" where
  "raw_action_of current_by_symbol a =
     (let current = (case map_of current_by_symbol (ta_symbol a) of Some p \<Rightarrow> ps_notional_try p | None \<Rightarrow> 0);
          delta = dsub (ta_target_notional_try a) current
      in if delta = 0 then None
         else Some \<lparr>ra_symbol = ta_symbol a, ra_side = (if delta < 0 then SELL else BUY),
                    ra_requested_notional_try = (if delta < 0 then dabs delta else delta),
                    ra_current = current, ra_target = ta_target_notional_try a\<rparr>)"

definition build_raw_actions :: "target_allocation list \<Rightarrow> position_snapshot list \<Rightarrow> raw_action list" where
  "build_raw_actions allocations positions =
     (let by_symbol = fold (\<lambda>p. AList.update (ps_symbol p) p) positions [];
          raw = List.map_filter (raw_action_of by_symbol) allocations
      in sort_key ra_symbol (filter (\<lambda>a. ra_side a = SELL) raw) @ sort_key ra_symbol (filter (\<lambda>a. ra_side a = BUY) raw))"

definition side_rank :: "side \<Rightarrow> nat" where
  "side_rank s = (if s = SELL then 0 else 1)"

definition raw_key :: "raw_action \<Rightarrow> nat \<times> dec \<times> string" where
  "raw_key a = (side_rank (ra_side a), dsub 0 (ra_requested_notional_try a), ra_symbol a)"

definition rebalance_key :: "rebalance_action \<Rightarrow> nat \<times> dec \<times> string" where
  "rebalance_key a = (side_rank (rb_side a), dsub 0 \<bar>rb_target_notional_try a\<bar>, rb_symbol a)"

record turnover_state =
  tv_remaining :: dec
  tv_dropped :: nat
  tv_actions :: "rebalance_action list"

definition action_reason :: "raw_action \<Rightarrow> dec \<Rightarrow> rebalance_reason" where
  "action_reason a remaining =
     (case ra_side a of SELL \<Rightarrow> Overweight (ra_current a) (ra_target a) remaining
      | BUY \<Rightarrow> Underweight (ra_current a) (ra_target a) remaining)"

definition constrain_action ::
  "(string, dec) dict \<Rightarrow> dec \<Rightarrow> turnover_state \<Rightarrow> raw_action \<Rightarrow> turnover_state result" where
  "constrain_action prices min_order t a =
     (if tv_remaining t \<le> 0 then Inr (t\<lparr>tv_dropped := Suc (tv_dropped t)\<rparr>)
      else case map_of prices (ra_symbol a) of
        None \<Rightarrow> Inr t
      | Some price \<Rightarrow>
          if price \<le> 0 then Inr t
          else
            let applied = min (ra_requested_notional_try a) (tv_remaining t)
            in if applied < min_order then Inr (t\<lparr>tv_dropped := Suc (tv_dropped t)\<rparr>)
               else
                 let remaining = dsub (tv_remaining t) applied
                 in rbind (dquantize ROUND_DOWN 8 (ddiv applied price)) (\<lambda>qty.
                      if qty \<le> 0 then Inr (t\<lparr>tv_remaining := remaining, tv_dropped := Suc (tv_dropped t)\<rparr>)
                      else Inr (t\<lparr>tv_remaining := remaining,
                             tv_actions := tv_actions t @ [\<lparr>rb_symbol = ra_symbol a, rb_side = ra_side a,
                               rb_target_notional_try = applied, rb_est_qty = qty, rb_reason = action_reason a remaining\<rparr>]\<rparr>)))"

definition counted :: "(nat \<Rightarrow> plan_note) \<Rightarrow> nat \<Rightarrow> plan_note list" where
  "counted f n = (if 0 < n then [f n] else [])"

definition apply_constraints ::
  "raw_action list \<Rightarrow> (string, dec) dict \<Rightarrow> dec \<Rightarrow> dec \<Rightarrow> int \<Rightarrow> (rebalance_action list \<times> plan_note list) result" where
  "apply_constraints raw prices min_order turnover_cap max_orders =
     (let kept_min = filter (\<lambda>a. \<not> ra_requested_notional_try a < min_order) raw
      in rbind (rfold (constrain_action prices min_order) \<lparr>tv_remaining = turnover_cap, tv_dropped = 0, tv_actions = []\<rparr>
                 (sort_key raw_key kept_min)) (\<lambda>t.
           let constrained = sort_key rebalance_key (tv_actions t);
               kept = take (nat (max 0 max_orders)) constrained
           in Inr (sort_key rb_symbol (filter (\<lambda>a. rb_side a = SELL) kept) @ sort_key rb_symbol (filter (\<lambda>a. rb_side a = BUY) kept),
                   counted MinNotional (length raw - length kept_min) @ counted TurnoverCap (tv_dropped t)
                   @ counted MaxOrders (length constrained - length kept))))"

definition filtered_balance_snapshot :: "balance list \<Rightarrow> string \<Rightarrow> string list \<Rightarrow> rebalance_action list \<Rightarrow> (string, dec \<times> dec) dict" where
  "filtered_balance_snapshot balances quote_ccy universe actions =
     (let needed = str_upper quote_ccy # map fst (filter (\<lambda>(b, q). b \<noteq> [] \<and> q = str_upper quote_ccy)
            (map (\<lambda>s. split_symbol_quote s quote_ccy) (universe @ map rb_symbol actions)))
      in fold (\<lambda>b d. if str_upper (ba_asset b) \<in> set needed
             then AList.update (str_upper (ba_asset b)) (ba_free b, ba_locked b) d else d) balances [])"

text \<open>What the final mode leaves of the actions.\<close>

definition filter_by_mode :: "risk_mode \<Rightarrow> rebalance_action list \<Rightarrow> rebalance_action list \<times> plan_note list" where
  "filter_by_mode mode actions =
     (case mode of
        OBSERVE_ONLY \<Rightarrow> ([], counted ObserveOnly (length actions))
      | REDUCE_RISK_ONLY \<Rightarrow>
          (let sells = filter (\<lambda>a. rb_side a = SELL) actions
           in (sells, counted ReduceRiskOnly (length actions - length sells)))
      | NORMAL \<Rightarrow> (actions, []))"

text \<open>The inputs of a plan after normalisation.\<close>

record plan_env =
  pe_settings :: portfolio_settings
  pe_now :: instant
  pe_mode :: risk_mode
  pe_prices :: "(string, dec) dict"
  pe_universe :: "string list"
  pe_balances :: "balance list"

definition pe_quote :: "plan_env \<Rightarrow> string" where
  "pe_quote env = str_upper (po_quote_ccy (pe_settings env))"

definition pe_cash_target :: "plan_env \<Rightarrow> dec" where
  "pe_cash_target env = min (po_try_cash_target (pe_settings env)) (po_try_cash_max (pe_settings env))"

definition make_plan_env :: "portfolio_settings \<Rightarrow> instant \<Rightarrow> risk_mode \<Rightarrow> string list \<Rightarrow> (string, dec) dict \<Rightarrow> balance list \<Rightarrow> plan_env" where
  "make_plan_env cfg now final_mode universe mark_prices balances =
     (let price_map = dict_comp normalize_symbol (\<lambda>v. v) (filter (\<lambda>kv. 0 < snd kv) mark_prices)
      in \<lparr>pe_settings = cfg, pe_now = now, pe_mode = final_mode, pe_prices = price_map,
          pe_universe = filter (\<lambda>s. map_of price_map s \<noteq> None) (sort (remdups (map normalize_symbol universe))),
          pe_balances = balances\<rparr>)"

fun finish_plan ::
  "plan_env \<Rightarrow> portfolio_snapshot \<Rightarrow> (string, dec) dict \<Rightarrow> target_allocation list \<times> plan_note list \<Rightarrow>
   rebalance_action list \<times> plan_note list \<Rightarrow> portfolio_plan result" where
  "finish_plan env psnap weights (allocations, nts) (constrained, dropped) =
     (let final = filter_by_mode (pe_mode env) constrained
      in Inr \<lparr>pp_timestamp = pe_now env, pp_universe = pe_universe env, pp_cash_target_try = pe_cash_target env,
              pp_allocations = allocations, pp_actions = fst final, pp_snapshot = psnap,
              pp_balances = filtered_balance_snapshot (pe_balances env) (pe_quote env) (pe_universe env) (fst final),
              pp_planned_turnover_try = dsum (map (\<lambda>a. \<bar>rb_target_notional_try a\<bar>) (fst final)),
              pp_target_weights = weights, pp_notes = nts @ dropped @ snd final\<rparr>)"

definition plan_weighted :: "plan_env \<Rightarrow> portfolio_snapshot \<Rightarrow> (string, dec) dict \<Rightarrow> portfolio_plan result" where
  "plan_weighted env psnap weights =
     (let cfg = pe_settings env;
          investable = max 0 (dsub (pt_equity_try psnap) (pe_cash_target env));
          allocated = build_allocations (pe_universe env) investable (po_max_position_notional_try cfg) weights
      in rbind (apply_constraints (build_raw_actions (fst allocated) (pt_positions psnap)) (pe_prices env)
             (po_min_order_notional_try cfg) (po_notional_cap_try_per_cycle cfg) (po_max_orders_per_cycle cfg))
           (finish_plan env psnap weights allocated))"

definition plan_snapshot :: "plan_env \<Rightarrow> portfolio_snapshot \<Rightarrow> portfolio_plan result" where
  "plan_snapshot env psnap =
     rbind (get_portfolio_target_weights (pe_settings env) (pe_universe env)) (plan_weighted env psnap)"

definition build_plan ::
  "portfolio_settings \<Rightarrow> instant \<Rightarrow> risk_mode \<Rightarrow> string list \<Rightarrow> (string, dec) dict \<Rightarrow> balance list \<Rightarrow> portfolio_plan result" where
  "build_plan cfg now final_mode universe mark_prices balances =
     (let env = make_plan_env cfg now final_mode universe mark_prices balances
      in rbind (build_snapshot (pe_universe env) (pe_prices env) (pe_balances env) (pe_quote env)) (plan_snapshot env))"

subsection \<open>Turnover\<close>

definition notional_sum :: "rebalance_action list \<Rightarrow> rat" where
  "notional_sum xs = (\<Sum>a \<leftarrow> xs. rb_target_notional_try a)"

lemma notional_sum_simps [simp]:
  "notional_sum [] = 0" "notional_sum (xs @ ys) = notional_sum xs + notional_sum ys"
  "notional_sum (a # xs) = rb_target_notional_try a + notional_sum xs"
  by (simp_all add: notional_sum_def)

lemma notional_sum_sort [simp]: "notional_sum (sort_key f xs) = notional_sum xs"
  by (simp add: notional_sum_def sum_list_sort_key)

definition action_ok :: "(string, dec) dict \<Rightarrow> dec \<Rightarrow> rebalance_action \<Rightarrow> bool" where
  "action_ok prices min_order a \<longleftrightarrow> min_order \<le> rb_target_notional_try a \<and> 0 \<le> rb_target_notional_try a \<and> 0 < rb_est_qty a
     \<and> (case map_of prices (rb_symbol a) of Some p \<Rightarrow> 0 < p | None \<Rightarrow> False)"

definition turnover_ok :: "(string, dec) dict \<Rightarrow> dec \<Rightarrow> dec \<Rightarrow> nat \<Rightarrow> turnover_state \<Rightarrow> bool" where
  "turnover_ok prices min_order cap n t \<longleftrightarrow>
     (\<forall>a \<in> set (tv_actions t). action_ok prices min_order a)
     \<and> notional_sum (tv_actions t) + max 0 (tv_remaining t) \<le> max 0 cap * dec_slack ^ n"

lemma notional_sum_nonneg: "\<forall>a \<in> set xs. action_ok prices m a \<Longrightarrow> 0 \<le> notional_sum xs"
  by (induction xs) (auto simp: action_ok_def)

lemma slack_step_up: "0 \<le> c \<Longrightarrow> x \<le> c * dec_slack ^ n \<Longrightarrow> x \<le> c * dec_slack ^ Suc n"
  by (rule order_trans [OF _ mult_left_mono [OF power_increasing]]) auto

lemma spend_turnover:
  assumes "0 \<le> S" "0 \<le> a" "a \<le> r" "0 \<le> c" "S + r \<le> c * dec_slack ^ n"
  shows "S + a + dsub r a \<le> c * dec_slack ^ Suc n"
proof -
  have "dsub r a \<le> (r - a) * dec_slack" using assms(3) drnd_upper [of "r - a"] by (simp add: dsub_def)
  moreover have "S + a \<le> (S + a) * dec_slack" using mult_left_mono [of 1 dec_slack "S + a"] assms(1,2) by simp
  ultimately have "S + a + dsub r a \<le> (S + r) * dec_slack" by (simp add: algebra_simps)
  also have "\<dots> \<le> c * dec_slack ^ n * dec_slack" using assms(5) by (simp add: mult_right_mono)
  finally show ?thesis by (simp add: ac_simps)
qed

lemma constrain_action_ok:
  assumes "turnover_ok prices m cap n t" "0 \<le> ra_requested_notional_try a" "constrain_action prices m t a = Inr t'"
  shows "turnover_ok prices m cap (Suc n) t'"
proof -
  have up: "notional_sum (tv_actions t) + max 0 (tv_remaining t) \<le> max 0 cap * dec_slack ^ Suc n"
    and ok: "\<forall>a \<in> set (tv_actions t). action_ok prices m a"
    and b: "notional_sum (tv_actions t) + max 0 (tv_remaining t) \<le> max 0 cap * dec_slack ^ n"
    using assms(1) slack_step_up [of "max 0 cap"] by (auto simp: turnover_ok_def)
  define ap where "ap = min (ra_requested_notional_try a) (tv_remaining t)"
  consider "tv_actions t' = tv_actions t" "tv_remaining t' = tv_remaining t"
    | price where "0 < tv_remaining t" "map_of prices (ra_symbol a) = Some price" "0 < price" "m \<le> ap"
        "tv_remaining t' = dsub (tv_remaining t) ap"
        "tv_actions t' = tv_actions t \<or> (\<exists>x. tv_actions t' = tv_actions t @ [x] \<and> rb_symbol x = ra_symbol a
           \<and> rb_target_notional_try x = ap \<and> 0 < rb_est_qty x)"
    using assms(3) unfolding constrain_action_def ap_def [symmetric] Let_def
    by (auto simp: rbind_eq_Inr_iff not_le not_less split: if_splits option.splits)
  then show ?thesis
  proof cases
    case 1
    then show ?thesis using up ok by (simp add: turnover_ok_def)
  next
    case 2
    have ap: "0 \<le> ap" "ap \<le> tv_remaining t" using 2(1) assms(2) by (auto simp: ap_def)
    have rem: "0 \<le> dsub (tv_remaining t) ap" using ap(2) by (simp add: dec_sign)
    note spend = spend_turnover [OF notional_sum_nonneg [OF ok] ap(1,2), of "max 0 cap" n]
    have s: "notional_sum (tv_actions t) + ap + dsub (tv_remaining t) ap \<le> max 0 cap * dec_slack ^ Suc n"
      using spend b 2(1) by simp
    show ?thesis
      using 2(6)
    proof
      assume "tv_actions t' = tv_actions t"
      then show ?thesis using ok s ap rem by (simp add: turnover_ok_def 2(5))
    next
      assume "\<exists>x. tv_actions t' = tv_actions t @ [x] \<and> rb_symbol x = ra_symbol a \<and> rb_target_notional_try x = ap \<and> 0 < rb_est_qty x"
      then show ?thesis using ok s ap rem 2 by (auto simp: turnover_ok_def action_ok_def)
    qed
  qed
qed

lemma constrain_loop_ok:
  assumes "rfold (constrain_action prices m) t xs = Inr t'" "turnover_ok prices m cap n t" "\<forall>a \<in> set xs. 0 \<le> ra_requested_notional_try a"
  shows "turnover_ok prices m cap (n + length xs) t'"
  using assms
proof (induction xs arbitrary: t n)
  case (Cons a xs)
  then obtain t1 where t1: "constrain_action prices m t a = Inr t1" "rfold (constrain_action prices m) t1 xs = Inr t'"
    by (auto simp: rbind_eq_Inr_iff)
  have "turnover_ok prices m cap (Suc n) t1" using constrain_action_ok [OF Cons.prems(2) _ t1(1)] Cons.prems(3) by simp
  then show ?case using Cons.IH [OF t1(2), of "Suc n"] Cons.prems(3) by simp
qed simp

subsection \<open>The plan keeps its limits\<close>

lemma raw_requested_nonneg: "a \<in> set (build_raw_actions allocations positions) \<Longrightarrow> 0 \<le> ra_requested_notional_try a"
  unfolding build_raw_actions_def Let_def List.map_filter_def raw_action_of_def
  by (auto simp: dabs_nonneg not_less split: if_splits)

lemma length_map_filter: "length (List.map_filter f xs) \<le> length xs"
  by (simp add: List.map_filter_def)

lemma length_sides: "length (filter (\<lambda>a. f a = SELL) xs) + length (filter (\<lambda>a. f a = BUY) xs) = length xs"
  by (induction xs) (auto intro: side.exhaust)

lemma build_raw_length: "length (build_raw_actions allocations positions) \<le> length allocations"
  unfolding build_raw_actions_def Let_def length_append length_sort length_sides by (rule length_map_filter)

lemma notional_sum_sides: "notional_sum (filter (\<lambda>a. rb_side a = SELL) xs) + notional_sum (filter (\<lambda>a. rb_side a = BUY) xs) = notional_sum xs"
  by (induction xs) (auto intro: side.exhaust)

lemma notional_sum_take: "\<forall>a \<in> set xs. action_ok prices m a \<Longrightarrow> notional_sum (take k xs) \<le> notional_sum xs"
  using notional_sum_nonneg [of "drop k xs" prices m] notional_sum_simps(2) [of "take k xs" "drop k xs"] by (auto dest: in_set_dropD)

lemma notional_sum_filter: "\<forall>a \<in> set xs. action_ok prices m a \<Longrightarrow> notional_sum (filter P xs) \<le> notional_sum xs"
  by (induction xs) (auto simp: action_ok_def)

lemma apply_constraints_ok:
  assumes "apply_constraints raw prices m cap k = Inr (xs, notes)" "\<forall>a \<in> set raw. 0 \<le> ra_requested_notional_try a"
  shows "\<forall>a \<in> set xs. action_ok prices m a" "notional_sum xs \<le> max 0 cap * dec_slack ^ length raw" "int (length xs) \<le> max 0 k"
proof -
  let ?kept_min = "filter (\<lambda>a. \<not> ra_requested_notional_try a < m) raw"
  obtain t where t: "rfold (constrain_action prices m) \<lparr>tv_remaining = cap, tv_dropped = 0, tv_actions = []\<rparr> (sort_key raw_key ?kept_min) = Inr t"
    and xs: "xs = (let kept = take (nat (max 0 k)) (sort_key rebalance_key (tv_actions t))
       in sort_key rb_symbol (filter (\<lambda>a. rb_side a = SELL) kept) @ sort_key rb_symbol (filter (\<lambda>a. rb_side a = BUY) kept))"
    using assms(1) by (auto simp: apply_constraints_def Let_def rbind_eq_Inr_iff)
  have "turnover_ok prices m cap 0 \<lparr>tv_remaining = cap, tv_dropped = 0, tv_actions = []\<rparr>" by (simp add: turnover_ok_def)
  from constrain_loop_ok [OF t this] have ok: "turnover_ok prices m cap (length ?kept_min) t" using assms(2) by simp
  then have a: "\<forall>a \<in> set (sort_key rebalance_key (tv_actions t)). action_ok prices m a" by (simp add: turnover_ok_def)
  define kept where "kept = take (nat (max 0 k)) (sort_key rebalance_key (tv_actions t))"
  have kept: "\<forall>a \<in> set kept. action_ok prices m a" using a unfolding kept_def by (metis in_set_takeD)
  then show "\<forall>a \<in> set xs. action_ok prices m a" by (auto simp: xs kept_def [symmetric] Let_def)
  have "notional_sum xs = notional_sum kept" by (simp add: xs kept_def [symmetric] Let_def notional_sum_sides)
  also have "\<dots> \<le> notional_sum (tv_actions t)" using notional_sum_take [OF a, of "nat (max 0 k)"] by (simp add: kept_def)
  also have "\<dots> \<le> max 0 cap * dec_slack ^ length ?kept_min" using ok by (auto simp: turnover_ok_def)
  also have "\<dots> \<le> max 0 cap * dec_slack ^ length raw" by (intro mult_left_mono power_increasing) auto
  finally show "notional_sum xs \<le> max 0 cap * dec_slack ^ length raw" .
  have "length xs = length kept"
    by (simp add: xs kept_def [symmetric] Let_def length_sides)
  then show "int (length xs) \<le> max 0 k" by (simp add: kept_def)
qed

lemma filter_by_mode_ok:
  "fst (filter_by_mode mode xs) = (case mode of NORMAL \<Rightarrow> xs | REDUCE_RISK_ONLY \<Rightarrow> filter (\<lambda>a. rb_side a = SELL) xs | OBSERVE_ONLY \<Rightarrow> [])"
  by (cases mode) (auto simp: filter_by_mode_def Let_def)

definition mode_allows :: "risk_mode \<Rightarrow> rebalance_action \<Rightarrow> bool" where
  "mode_allows mode a \<longleftrightarrow> mode = NORMAL \<or> (mode = REDUCE_RISK_ONLY \<and> rb_side a = SELL)"

text \<open>(C22) A rebalancing plan keeps its limits: it has at most max_orders_per_cycle actions, their notionals add up
  to at most the cycle's turnover cap (up to one decimal rounding per symbol), each is at least the
  minimum order notional with a positive quantity of a symbol with a positive price, REDUCE_RISK_ONLY
  leaves sales only and OBSERVE_ONLY nothing.\<close>

theorem plan_keeps_limits:
  assumes "build_plan cfg now mode universe mark_prices balances = Inr plan"
  shows "int (length (pp_actions plan)) \<le> max 0 (po_max_orders_per_cycle cfg)
    \<and> (\<Sum>a \<leftarrow> pp_actions plan. rb_target_notional_try a) \<le> max 0 (po_notional_cap_try_per_cycle cfg) * dec_slack ^ length (pp_universe plan)
    \<and> (\<forall>a \<in> set (pp_actions plan). mode_allows mode a
         \<and> action_ok (dict_comp normalize_symbol (\<lambda>v. v) (filter (\<lambda>kv. 0 < snd kv) mark_prices)) (po_min_order_notional_try cfg) a)"
proof -
  let ?prices = "dict_comp normalize_symbol (\<lambda>v. v) (filter (\<lambda>kv. 0 < snd kv) mark_prices)"
  define filtered where "filtered = pe_universe (make_plan_env cfg now mode universe mark_prices balances)"
  have env: "pe_settings (make_plan_env cfg now mode universe mark_prices balances) = cfg"
    "pe_prices (make_plan_env cfg now mode universe mark_prices balances) = ?prices"
    "pe_mode (make_plan_env cfg now mode universe mark_prices balances) = mode"
    by (simp_all add: make_plan_env_def Let_def)
  obtain psnap weights investable xs dropped where
    con: "apply_constraints (build_raw_actions (fst (build_allocations filtered investable (po_max_position_notional_try cfg) weights)) (pt_positions psnap))
        ?prices (po_min_order_notional_try cfg) (po_notional_cap_try_per_cycle cfg) (po_max_orders_per_cycle cfg) = Inr (xs, dropped)"
    and fin: "finish_plan (make_plan_env cfg now mode universe mark_prices balances) psnap weights
        (build_allocations filtered investable (po_max_position_notional_try cfg) weights) (xs, dropped) = Inr plan"
    using assms unfolding build_plan_def plan_snapshot_def plan_weighted_def Let_def filtered_def
    by (auto simp: rbind_eq_Inr_iff env)
  define positions where "positions = pt_positions psnap"
  note con = con [folded positions_def]
  have acts: "pp_actions plan = fst (filter_by_mode mode xs)" and uni: "pp_universe plan = filtered"
    using fin by (cases "build_allocations filtered investable (po_max_position_notional_try cfg) weights"; auto simp: Let_def env filtered_def)+
  define allocations where "allocations = fst (build_allocations filtered investable (po_max_position_notional_try cfg) weights)"
  have "\<forall>a \<in> set (build_raw_actions allocations positions). 0 \<le> ra_requested_notional_try a" using raw_requested_nonneg by blast
  note ok = apply_constraints_ok [OF con [folded allocations_def] this]
  note ys = acts [unfolded filter_by_mode_ok]
  have "length allocations \<le> length filtered"
    by (auto simp: allocations_def build_allocations_def Let_def)
  then have n: "length (build_raw_actions allocations positions) \<le> length filtered" using build_raw_length order_trans by blast
  have "notional_sum (pp_actions plan) \<le> notional_sum xs"
    using notional_sum_filter [OF ok(1)] notional_sum_nonneg [OF ok(1)] by (cases mode) (simp_all add: ys)
  also have "\<dots> \<le> max 0 (po_notional_cap_try_per_cycle cfg) * dec_slack ^ length (build_raw_actions allocations positions)" by (rule ok(2))
  also have "\<dots> \<le> max 0 (po_notional_cap_try_per_cycle cfg) * dec_slack ^ length filtered"
    using n by (intro mult_left_mono power_increasing) auto
  finally have s: "(\<Sum>a \<leftarrow> pp_actions plan. rb_target_notional_try a) \<le> max 0 (po_notional_cap_try_per_cycle cfg) * dec_slack ^ length filtered"
    by (simp add: notional_sum_def)
  have l: "length (pp_actions plan) \<le> length xs" by (cases mode) (simp_all add: ys)
  have "\<forall>a \<in> set (pp_actions plan). mode_allows mode a \<and> a \<in> set xs" by (cases mode) (auto simp: ys mode_allows_def)
  then show ?thesis using s l ok(1,3) by (auto simp: uni)
qed

definition demo_portfolio_settings :: portfolio_settings where
  "demo_portfolio_settings = \<lparr>po_quote_ccy = ''TRY'', po_max_position_notional_try = 600, po_notional_cap_try_per_cycle = 500,
     po_min_order_notional_try = 50, po_try_cash_target = 100, po_try_cash_max = 200, po_max_orders_per_cycle = 2, po_targets = None\<rparr>"

lemma demo_plan:
  "map_sum id (\<lambda>plan. (pp_actions plan, length (pp_universe plan)))
     (build_plan demo_portfolio_settings 0 NORMAL [''BTC_TRY''] [(''BTC_TRY'', 100)] [\<lparr>ba_asset = ''try'', ba_free = 1000, ba_locked = 0\<rparr>])
   = Inr ([\<lparr>rb_symbol = ''BTCTRY'', rb_side = BUY, rb_target_notional_try = 500, rb_est_qty = 5, rb_reason = Underweight 0 600 0\<rparr>], 1)"
  by code_simp

theorem plan_keeps_limits_witness:
  "\<exists>plan. build_plan demo_portfolio_settings 0 NORMAL [''BTC_TRY''] [(''BTC_TRY'', 100)] [\<lparr>ba_asset = ''try'', ba_free = 1000, ba_locked = 0\<rparr>]
       = Inr plan \<and> (\<Sum>a \<leftarrow> pp_actions plan. rb_target_notional_try a) = 500
     \<and> (\<Sum>a \<leftarrow> pp_actions plan. rb_target_notional_try a) \<le> 500 * dec_slack ^ length (pp_universe plan)"
proof -
  let ?r = "build_plan demo_portfolio_settings 0 NORMAL [''BTC_TRY''] [(''BTC_TRY'', 100)] [\<lparr>ba_asset = ''try'', ba_free = 1000, ba_locked = 0\<rparr>]"
  obtain plan where p: "?r = Inr plan" using demo_plan by (cases ?r) auto
  have "(\<Sum>a \<leftarrow> pp_actions plan. rb_target_notional_try a) = 500" using demo_plan by (simp add: p)
  then show ?thesis using plan_keeps_limits [OF p] p by (simp add: demo_portfolio_settings_def)
qed

end
