(* ===== verification/Rules_Service.thy ===== *)
theory Rules_Service
  imports Money
begin

text \<open>
  The exchange rules service, \<open>src/src/btcbot/services/exchange_rules_service.py\<close>, with
  \<open>policy_for_symbol\<close> of \<open>domain/money_policy.py\<close>.

  The metadata of a pair is what the exchange client returns: a mapping, or an object with
  attributes.  \<open>text_reader\<close> gives the readings \<open>Decimal(s)\<close> and \<open>int(s)\<close> of a text, \<open>None\<close>
  where these raise.  A list or mapping in the place of a number makes \<open>value in {None, ""}\<close>
  raise a TypeError, which the code does not catch.  The answer of \<open>get_exchange_info\<close> is
  \<open>None\<close> when the client has no such method and \<open>Inl e\<close> when it raises.

  The lemmas show that the service only ever hands out and caches rules with positive tick, lot
  and minimum notional (or the configured fallback), and that a resolved symbol keeps its rules
  until the cache expires.
\<close>

subsection \<open>Definitions: metadata\<close>

datatype meta =
    MNone
  | MText string
  | MInt int
  | MFloat dec
  | MMap "(string \<times> meta) list"
  | MList "meta list"

datatype pair_meta = Mapping "(string, meta) dict" | Attrs string "(string, meta) dict"

record text_reader =
  tr_dec :: "string \<Rightarrow> dec option"
  tr_int :: "string \<Rightarrow> int option"

definition is_alnum :: "char \<Rightarrow> bool" where
  "is_alnum c = (let n = (of_char c :: nat) in (48 \<le> n \<and> n \<le> 57) \<or> (65 \<le> n \<and> n \<le> 90) \<or> (97 \<le> n \<and> n \<le> 122))"

definition norm_symbol :: "string \<Rightarrow> string" where
  "norm_symbol s = filter is_alnum (str_upper s)"

fun pair_fields :: "pair_meta \<Rightarrow> (string, meta) dict" where
  "pair_fields (Mapping d) = d"
| "pair_fields (Attrs n d) = d"

fun pair_source :: "pair_meta \<Rightarrow> string" where
  "pair_source (Mapping d) = ''dict''"
| "pair_source (Attrs n d) = n"

fun candidate_names :: "pair_meta \<Rightarrow> string list" where
  "candidate_names (Mapping d) = [''pairSymbol'', ''pairSymbolNormalized'', ''symbol'', ''name'', ''nameNormalized'', ''name_normalized'']"
| "candidate_names (Attrs n d) = [''pair_symbol'', ''pair_symbol_normalized'', ''symbol'', ''name'', ''name_normalized'', ''nameNormalized'']"

definition map_get :: "(string, meta) dict \<Rightarrow> string \<Rightarrow> meta" where
  "map_get d k = (case map_of d k of Some v \<Rightarrow> v | None \<Rightarrow> MNone)"

definition pair_symbol_candidates :: "pair_meta \<Rightarrow> string list" where
  "pair_symbol_candidates pair =
     List.map_filter (\<lambda>k. case map_get (pair_fields pair) k of MText s \<Rightarrow> if s = [] then None else Some s | _ \<Rightarrow> None)
       (candidate_names pair)"

fun read_field :: "pair_meta \<Rightarrow> string list \<Rightarrow> meta" where
  "read_field pair [] = MNone"
| "read_field pair (k # ks) = (case map_of (pair_fields pair) k of Some v \<Rightarrow> v | None \<Rightarrow> read_field pair ks)"

fun to_decimal_or_none :: "text_reader \<Rightarrow> meta \<Rightarrow> dec option result" where
  "to_decimal_or_none rd MNone = Inr None"
| "to_decimal_or_none rd (MText s) = Inr (if s = [] then None else tr_dec rd s)"
| "to_decimal_or_none rd (MInt n) = Inr (Some (of_int n))"
| "to_decimal_or_none rd (MFloat d) = Inr (Some d)"
| "to_decimal_or_none rd _ = Inl (TypeError ''unhashable type'')"

fun to_int_or_none :: "text_reader \<Rightarrow> meta \<Rightarrow> int option result" where
  "to_int_or_none rd MNone = Inr None"
| "to_int_or_none rd (MText s) = Inr (if s = [] then None else tr_int rd s)"
| "to_int_or_none rd (MInt n) = Inr (Some n)"
| "to_int_or_none rd (MFloat d) = Inr None"
| "to_int_or_none rd _ = Inl (TypeError ''unhashable type'')"

text \<open>Decimal places of a decimal fraction, from its denominator \<open>2 ^ a * 5 ^ b\<close>.\<close>

function decimal_places :: "int \<Rightarrow> int" where
  "decimal_places d = (if d \<le> 1 \<or> gcd d 10 = 1 then 0 else 1 + decimal_places (d div gcd d 10))"
  by pat_completeness auto

termination
proof (relation "measure nat")
  fix d :: int
  assume a: "\<not> (d \<le> 1 \<or> gcd d 10 = 1)"
  have "0 < gcd d 10" by (simp add: gcd_pos_int)
  then have "1 < gcd d 10" using a by linarith
  then have "d div gcd d 10 < d" using a by (intro int_div_less_self) auto
  then show "(d div gcd d 10, d) \<in> measure nat" using a by simp
qed simp

definition infer_precision :: "dec option \<Rightarrow> int" where
  "infer_precision value =
     (case value of None \<Rightarrow> 8 | Some v \<Rightarrow> if v \<le> 0 then 8 else decimal_places (snd (quotient_of v)))"

definition positive_decimal_values :: "text_reader \<Rightarrow> meta list \<Rightarrow> dec list result" where
  "positive_decimal_values rd values =
     rfold (\<lambda>acc v. rbind (to_decimal_or_none rd v) (\<lambda>d. Inr (case d of Some x \<Rightarrow> if 0 < x then acc @ [x] else acc | None \<Rightarrow> acc))) [] values"

subsection \<open>Definitions: rules\<close>

record ex_rules =
  xr_tick_size :: dec
  xr_lot_size :: dec
  xr_min_notional_try :: dec
  xr_min_qty :: "dec option"
  xr_max_qty :: "dec option"
  xr_price_precision :: int
  xr_qty_precision :: int

record rules_settings =
  xs_fallback_tick_size :: dec
  xs_fallback_lot_size :: dec
  xs_fallback_min_notional_try :: dec
  xs_safe_min_notional_try :: dec
  xs_min_order_notional_try :: dec
  xs_require_metadata :: bool

definition fallback_rules :: "rules_settings \<Rightarrow> ex_rules" where
  "fallback_rules cfg =
     \<lparr>xr_tick_size = xs_fallback_tick_size cfg, xr_lot_size = xs_fallback_lot_size cfg,
      xr_min_notional_try = xs_fallback_min_notional_try cfg, xr_min_qty = None, xr_max_qty = None,
      xr_price_precision = 8, xr_qty_precision = 8\<rparr>"

definition is_valid_rules :: "ex_rules \<Rightarrow> bool" where
  "is_valid_rules r \<longleftrightarrow> 0 < xr_tick_size r \<and> 0 < xr_lot_size r \<and> 0 < xr_min_notional_try r"

definition min_notional_fields :: "string list" where
  "min_notional_fields =
     [''min_total_amount'', ''minTotalAmount'', ''minExchangeValue'', ''minTotal'', ''minNotional'', ''minNotionalValue'',
      ''minOrderAmount'', ''minimumOrderAmount'', ''minQuoteAmount'', ''min_trade_amount'']"

definition filter_fields :: "string list" where
  "filter_fields =
     [''minTotalAmount'', ''minExchangeValue'', ''minAmount'', ''minNotional'', ''minNotionalValue'', ''minOrderAmount'', ''minQuoteAmount'']"

definition constraint_fields :: "string list" where
  "constraint_fields = [''minTotalAmount'', ''minExchangeValue'', ''minNotional'', ''minNotionalValue'', ''minOrderAmount'', ''minQuoteAmount'']"

fun meta_items :: "meta \<Rightarrow> meta list option" where
  "meta_items (MMap d) = Some (map snd d)"
| "meta_items (MList xs) = Some xs"
| "meta_items _ = None"

fun mapping_values :: "string list \<Rightarrow> meta \<Rightarrow> meta list" where
  "mapping_values ks (MMap d) = map (map_get d) ks"
| "mapping_values ks _ = []"

definition pair_filters :: "pair_meta \<Rightarrow> meta" where
  "pair_filters pair = read_field pair [''filters'']"

definition pair_constraints :: "pair_meta \<Rightarrow> meta" where
  "pair_constraints pair = read_field pair [''constraints'', ''ruleSet'', ''tradingRules'']"

definition collect_min_notional_candidates :: "text_reader \<Rightarrow> pair_meta \<Rightarrow> dec list result" where
  "collect_min_notional_candidates rd pair =
     positive_decimal_values rd
       (map (\<lambda>k. read_field pair [k]) min_notional_fields
        @ concat (map (mapping_values filter_fields) (case meta_items (pair_filters pair) of Some xs \<Rightarrow> xs | None \<Rightarrow> []))
        @ mapping_values constraint_fields (pair_constraints pair))"

definition is_try_quote_pair :: "pair_meta \<Rightarrow> bool" where
  "is_try_quote_pair pair =
     ((case read_field pair [''denominator'', ''quoteAsset'', ''quote''] of
         MText s \<Rightarrow> str_upper (str_strip s) = ''TRY''
       | _ \<Rightarrow> False)
      \<or> list_ex (\<lambda>c. ends_with (norm_symbol c) ''TRY'') (pair_symbol_candidates pair))"

definition derive_safe_min_notional_try :: "rules_settings \<Rightarrow> dec" where
  "derive_safe_min_notional_try cfg =
     max (max (max (xs_safe_min_notional_try cfg) (xs_fallback_min_notional_try cfg)) (xs_min_order_notional_try cfg)) 100"

subsection \<open>Definitions: extraction\<close>

text \<open>\<open>a or _to_decimal(v)\<close>: zero counts as absent, and the right side is read only then.\<close>

definition or_decimal :: "text_reader \<Rightarrow> dec option \<Rightarrow> meta \<Rightarrow> dec option result" where
  "or_decimal rd a v = (case a of Some x \<Rightarrow> if x \<noteq> 0 then Inr a else to_decimal_or_none rd v | None \<Rightarrow> to_decimal_or_none rd v)"

definition if_none :: "text_reader \<Rightarrow> dec option \<Rightarrow> meta \<Rightarrow> dec option result" where
  "if_none rd a v = (case a of Some x \<Rightarrow> Inr a | None \<Rightarrow> to_decimal_or_none rd v)"

fun meta_truthy :: "meta \<Rightarrow> bool" where
  "meta_truthy MNone = False"
| "meta_truthy (MText s) = (s \<noteq> [])"
| "meta_truthy (MInt n) = (n \<noteq> 0)"
| "meta_truthy (MFloat d) = (d \<noteq> 0)"
| "meta_truthy (MMap d) = (d \<noteq> [])"
| "meta_truthy (MList xs) = (xs \<noteq> [])"

definition meta_or :: "meta \<Rightarrow> meta \<Rightarrow> meta" where
  "meta_or a b = (if meta_truthy a then a else b)"

record raw_rules =
  rw_tick :: "dec option"
  rw_lot :: "dec option"
  rw_notional :: "dec option"
  rw_min_qty :: "dec option"
  rw_max_qty :: "dec option"

definition or_notional :: "text_reader \<Rightarrow> (string, meta) dict \<Rightarrow> raw_rules \<Rightarrow> string \<Rightarrow> raw_rules result" where
  "or_notional rd d r k = rbind (or_decimal rd (rw_notional r) (map_get d k)) (\<lambda>x. Inr (r\<lparr>rw_notional := x\<rparr>))"

definition filter_type :: "(string, meta) dict \<Rightarrow> string" where
  "filter_type d = (case map_get d ''filterType'' of MText s \<Rightarrow> str_upper s | _ \<Rightarrow> [])"

definition price_filter :: "text_reader \<Rightarrow> (string, meta) dict \<Rightarrow> raw_rules \<Rightarrow> raw_rules result" where
  "price_filter rd d r =
     rbind (or_decimal rd (rw_tick r) (map_get d ''tickSize'')) (\<lambda>t.
       rfold (or_notional rd d) (r\<lparr>rw_tick := t\<rparr>) [''minExchangeValue'', ''minAmount'', ''minNotional''])"

definition lot_filter :: "text_reader \<Rightarrow> (string, meta) dict \<Rightarrow> raw_rules \<Rightarrow> raw_rules result" where
  "lot_filter rd d r =
     rbind (or_decimal rd (rw_lot r) (map_get d ''stepSize'')) (\<lambda>l.
     rbind (if_none rd (rw_min_qty r) (map_get d ''minQty'')) (\<lambda>mn.
     rbind (if_none rd (rw_max_qty r) (map_get d ''maxQty'')) (\<lambda>mx.
       Inr (r\<lparr>rw_lot := l, rw_min_qty := mn, rw_max_qty := mx\<rparr>))))"

definition read_filter :: "text_reader \<Rightarrow> raw_rules \<Rightarrow> meta \<Rightarrow> raw_rules result" where
  "read_filter rd r f =
     (case f of
        MMap d \<Rightarrow>
          let ft = filter_type d
          in if ft = ''PRICE_FILTER'' then price_filter rd d r
             else if ft \<in> {''LOT_SIZE'', ''MARKET_LOT_SIZE'', ''QUANTITY_FILTER''} then lot_filter rd d r
             else if ft \<in> {''MIN_TOTAL'', ''MIN_NOTIONAL'', ''NOTIONAL''} then
               rfold (or_notional rd d) r [''minTotalAmount'', ''minExchangeValue'', ''minAmount'', ''minNotional'']
             else Inr r
      | _ \<Rightarrow> Inr r)"

definition read_constraints :: "text_reader \<Rightarrow> meta \<Rightarrow> raw_rules \<Rightarrow> raw_rules result" where
  "read_constraints rd c r =
     (case c of
        MMap d \<Rightarrow>
          rbind (or_decimal rd (rw_tick r) (meta_or (map_get d ''tickSize'') (map_get d ''tick_size''))) (\<lambda>t.
          rbind (or_decimal rd (rw_lot r) (meta_or (map_get d ''stepSize'') (map_get d ''step_size''))) (\<lambda>l.
          rbind (or_decimal rd (rw_notional r)
            (meta_or (meta_or (map_get d ''minNotional'') (map_get d ''min_total_amount'')) (map_get d ''minExchangeValue''))) (\<lambda>n.
          rbind (if_none rd (rw_min_qty r) (map_get d ''minQty'')) (\<lambda>mn.
          rbind (if_none rd (rw_max_qty r) (map_get d ''maxQty'')) (\<lambda>mx.
            Inr \<lparr>rw_tick = t, rw_lot = l, rw_notional = n, rw_min_qty = mn, rw_max_qty = mx\<rparr>)))))
      | _ \<Rightarrow> Inr r)"

definition read_fields :: "text_reader \<Rightarrow> pair_meta \<Rightarrow> raw_rules result" where
  "read_fields rd pair =
     rbind (to_decimal_or_none rd (read_field pair [''tick_size'', ''tickSize''])) (\<lambda>t.
     rbind (to_decimal_or_none rd (read_field pair [''step_size'', ''stepSize'', ''lotSize''])) (\<lambda>l.
     rbind (collect_min_notional_candidates rd pair) (\<lambda>ns.
     rbind (to_decimal_or_none rd (read_field pair [''min_quantity'', ''minQuantity'', ''minQty''])) (\<lambda>mn.
     rbind (to_decimal_or_none rd (read_field pair [''max_quantity'', ''maxQuantity'', ''maxQty''])) (\<lambda>mx.
       Inr \<lparr>rw_tick = t, rw_lot = l, rw_notional = (if ns = [] then None else Some (foldl max (hd ns) (tl ns))),
            rw_min_qty = mn, rw_max_qty = mx\<rparr>)))))"

definition resolve_lot :: "raw_rules \<Rightarrow> int option \<Rightarrow> dec option" where
  "resolve_lot r numerator_scale =
     (let empty = (\<lambda>l. l = None \<or> l = Some 0);
          l1 = (if empty (rw_lot r) \<and> (case rw_min_qty r of Some q \<Rightarrow> 0 < q | None \<Rightarrow> False) then rw_min_qty r else rw_lot r)
      in if empty l1 then (case numerator_scale of Some n \<Rightarrow> Some (bpow 10 (- n)) | None \<Rightarrow> l1) else l1)"

definition or_zero :: "dec option \<Rightarrow> dec" where
  "or_zero d = (case d of Some x \<Rightarrow> x | None \<Rightarrow> 0)"

datatype extraction = Extracted ex_rules | InvalidMetadata "string list" "string list" | UnsupportedSchema

definition finish_rules :: "rules_settings \<Rightarrow> pair_meta \<Rightarrow> raw_rules \<Rightarrow> int option \<Rightarrow> int option \<Rightarrow> extraction" where
  "finish_rules cfg pair r numerator_scale denominator_scale =
     (let lot = resolve_lot r numerator_scale;
          notional = (if rw_notional r = None \<and> is_try_quote_pair pair then Some (derive_safe_min_notional_try cfg) else rw_notional r);
          rules = \<lparr>xr_tick_size = or_zero (rw_tick r), xr_lot_size = or_zero lot, xr_min_notional_try = or_zero notional,
             xr_min_qty = rw_min_qty r, xr_max_qty = rw_max_qty r,
             xr_price_precision = (case denominator_scale of Some n \<Rightarrow> n | None \<Rightarrow> infer_precision (rw_tick r)),
             xr_qty_precision = (case numerator_scale of Some n \<Rightarrow> n | None \<Rightarrow> infer_precision lot)\<rparr>;
          named = (\<lambda>b s. if b then [s] else []);
          missing = named (rw_tick r = None) ''tick_size'' @ named (lot = None) ''lot_size'' @ named (notional = None) ''min_notional_try'';
          invalid = named (xr_tick_size rules \<le> 0) ''tick_size'' @ named (xr_lot_size rules \<le> 0) ''lot_size''
             @ named (xr_min_notional_try rules \<le> 0) ''min_notional_try''
      in if missing \<noteq> [] \<or> invalid \<noteq> [] then InvalidMetadata (sort (remdups missing)) (sort (remdups invalid))
         else Extracted rules)"

definition extract_rules :: "text_reader \<Rightarrow> rules_settings \<Rightarrow> pair_meta \<Rightarrow> extraction result" where
  "extract_rules rd cfg pair =
     rbind (read_fields rd pair) (\<lambda>r0.
       if meta_items (pair_filters pair) = None \<and> pair_filters pair \<noteq> MNone then Inr UnsupportedSchema
       else
         rbind (rfold (read_filter rd) r0 (case meta_items (pair_filters pair) of Some xs \<Rightarrow> xs | None \<Rightarrow> [])) (\<lambda>r1.
         rbind (read_constraints rd (pair_constraints pair) r1) (\<lambda>r2.
         rbind (to_int_or_none rd (read_field pair [''numerator_scale'', ''numeratorScale''])) (\<lambda>ns.
         rbind (to_int_or_none rd (read_field pair [''denominator_scale'', ''denominatorScale''])) (\<lambda>ds.
           Inr (finish_rules cfg pair r2 ns ds))))))"

subsection \<open>Definitions: the service\<close>

datatype rules_status = ROk | RFallback | RMissing | RInvalidMetadata | RUnsupportedSchema | RUpstreamFailure

fun status_name :: "rules_status \<Rightarrow> string" where
  "status_name ROk = ''ok''"
| "status_name RFallback = ''fallback''"
| "status_name RMissing = ''missing''"
| "status_name RInvalidMetadata = ''invalid_metadata''"
| "status_name RUnsupportedSchema = ''unsupported_schema_variant''"
| "status_name RUpstreamFailure = ''upstream_fetch_failure''"

record cached_rules =
  ch_rules :: ex_rules
  ch_status :: rules_status
  ch_cached_at :: instant

record rules_resolution =
  rx_symbol :: string
  rx_status :: rules_status
  rx_rules :: "ex_rules option"
  rx_reason :: "string option"

record rules_service =
  rv_cache_ttl_sec :: int
  rv_settings :: rules_settings
  rv_cache :: "(string, cached_rules) dict"

definition ExchangeRulesService :: "int \<Rightarrow> rules_settings \<Rightarrow> rules_service" where
  "ExchangeRulesService cache_ttl_sec cfg = \<lparr>rv_cache_ttl_sec = max 1 cache_ttl_sec, rv_settings = cfg, rv_cache = []\<rparr>"

type_synonym exchange_info = "pair_meta list result option"

fun join_with :: "string \<Rightarrow> string list \<Rightarrow> string" where
  "join_with sep [] = []"
| "join_with sep [x] = x"
| "join_with sep (x # xs) = x @ sep @ join_with sep xs"

definition serialize_issues :: "string list \<Rightarrow> string list \<Rightarrow> string \<Rightarrow> string" where
  "serialize_issues missing invalid source =
     join_with '';'' ([''source='' @ source]
       @ (if missing = [] then [] else [''missing='' @ join_with '','' (sort (remdups missing))])
       @ (if invalid = [] then [] else [''invalid='' @ join_with '','' (sort (remdups invalid))]))"

definition pair_index :: "pair_meta list \<Rightarrow> (string, pair_meta) dict" where
  "pair_index pairs = fold (\<lambda>pair d. fold (\<lambda>c. AList.update (norm_symbol c) pair) (pair_symbol_candidates pair) d) pairs []"

definition cache_put :: "rules_service \<Rightarrow> string list \<Rightarrow> cached_rules \<Rightarrow> rules_service" where
  "cache_put sv keys c = sv\<lparr>rv_cache := fold (\<lambda>k. AList.update k c) keys (rv_cache sv)\<rparr>"

definition use_fallback :: "rules_service \<Rightarrow> instant \<Rightarrow> string \<Rightarrow> rules_resolution \<times> rules_service" where
  "use_fallback sv now key =
     (let r = fallback_rules (rv_settings sv)
      in (\<lparr>rx_symbol = key, rx_status = RFallback, rx_rules = Some r, rx_reason = None\<rparr>,
          cache_put sv [key] \<lparr>ch_rules = r, ch_status = RFallback, ch_cached_at = now\<rparr>))"

definition unusable :: "rules_service \<Rightarrow> instant \<Rightarrow> string \<Rightarrow> rules_status \<Rightarrow> string \<Rightarrow> rules_resolution \<times> rules_service" where
  "unusable sv now key status reason =
     (if xs_require_metadata (rv_settings sv)
      then (\<lparr>rx_symbol = key, rx_status = status, rx_rules = None, rx_reason = Some reason\<rparr>, sv)
      else use_fallback sv now key)"

fun from_extraction :: "rules_service \<Rightarrow> instant \<Rightarrow> string \<Rightarrow> pair_meta \<Rightarrow> extraction \<Rightarrow> rules_resolution \<times> rules_service" where
  "from_extraction sv now key pair (Extracted r) =
     (\<lparr>rx_symbol = key, rx_status = ROk, rx_rules = Some r, rx_reason = None\<rparr>,
      cache_put sv (map norm_symbol (pair_symbol_candidates pair) @ [key]) \<lparr>ch_rules = r, ch_status = ROk, ch_cached_at = now\<rparr>)"
| "from_extraction sv now key pair (InvalidMetadata missing invalid) =
     unusable sv now key RInvalidMetadata (serialize_issues missing invalid (pair_source pair))"
| "from_extraction sv now key pair UnsupportedSchema =
     unusable sv now key RUnsupportedSchema (serialize_issues [] [] (pair_source pair))"

text \<open>The entry of the cache, when it is younger than the time to live.\<close>

definition cached_entry :: "rules_service \<Rightarrow> instant \<Rightarrow> string \<Rightarrow> cached_rules option" where
  "cached_entry sv now key =
     (case map_of (rv_cache sv) key of
        None \<Rightarrow> None
      | Some c \<Rightarrow> if now - ch_cached_at c < rv_cache_ttl_sec sv * 1000000 then Some c else None)"

definition resolve_symbol_rules ::
  "text_reader \<Rightarrow> exchange_info \<Rightarrow> rules_service \<Rightarrow> instant \<Rightarrow> string \<Rightarrow> (rules_resolution \<times> rules_service) result" where
  "resolve_symbol_rules rd info sv now symb =
     (let key = norm_symbol symb
      in case cached_entry sv now key of
           Some c \<Rightarrow> Inr (\<lparr>rx_symbol = key, rx_status = ch_status c, rx_rules = Some (ch_rules c), rx_reason = None\<rparr>, sv)
         | None \<Rightarrow>
             (case info of
                Some (Inl e) \<Rightarrow>
                  Inr (\<lparr>rx_symbol = key, rx_status = RUpstreamFailure, rx_rules = None, rx_reason = Some ''upstream_fetch_failure''\<rparr>, sv)
              | _ \<Rightarrow>
                  (case map_of (pair_index (case info of Some (Inr pairs) \<Rightarrow> pairs | _ \<Rightarrow> [])) key of
                     None \<Rightarrow> Inr (unusable sv now key RMissing ''metadata_missing'')
                   | Some pair \<Rightarrow> rbind (extract_rules rd (rv_settings sv) pair) (\<lambda>x. Inr (from_extraction sv now key pair x)))))"

definition get_symbol_rules_status :: "rules_resolution \<Rightarrow> ex_rules option \<times> rules_status" where
  "get_symbol_rules_status r = (rx_rules r, if rx_status r = RUpstreamFailure then RMissing else rx_status r)"

definition rules_of :: "rules_resolution \<Rightarrow> ex_rules result" where
  "rules_of r = (case rx_rules r of Some x \<Rightarrow> Inr x | None \<Rightarrow> Inl (ValueError ''No usable exchange rules''))"

definition get_rules ::
  "text_reader \<Rightarrow> exchange_info \<Rightarrow> rules_service \<Rightarrow> instant \<Rightarrow> string \<Rightarrow> (ex_rules \<times> rules_service) result" where
  "get_rules rd info sv now symb =
     rbind (resolve_symbol_rules rd info sv now symb) (\<lambda>(r, sv'). rbind (rules_of r) (\<lambda>x. Inr (x, sv')))"

datatype boundary_outcome = BOk | BSkip | BDegrade

definition status_to_boundary :: "rules_status \<Rightarrow> bool \<Rightarrow> boundary_outcome \<times> string" where
  "status_to_boundary status require_metadata =
     (case status of
        ROk \<Rightarrow> (BOk, ''ok'')
      | RFallback \<Rightarrow> (BDegrade, ''fallback_rules'')
      | RUpstreamFailure \<Rightarrow> (BSkip, ''upstream_fetch_failure'')
      | _ \<Rightarrow> (BSkip, if require_metadata then status_name status else ''fallback_blocked''))"

record boundary_decision =
  bo_symbol :: string
  bo_outcome :: boundary_outcome
  bo_rules :: "ex_rules option"
  bo_reason :: string
  bo_status :: rules_status

definition boundary_of :: "bool \<Rightarrow> rules_resolution \<Rightarrow> boundary_decision" where
  "boundary_of require_metadata r =
     (case status_to_boundary (rx_status r) require_metadata of (outcome, reason) \<Rightarrow>
        \<lparr>bo_symbol = rx_symbol r, bo_outcome = outcome, bo_rules = rx_rules r,
         bo_reason = (case rx_reason r of None \<Rightarrow> reason | Some x \<Rightarrow> x), bo_status = rx_status r\<rparr>)"

definition resolve_boundary ::
  "text_reader \<Rightarrow> exchange_info \<Rightarrow> rules_service \<Rightarrow> instant \<Rightarrow> string \<Rightarrow> (boundary_decision \<times> rules_service) result" where
  "resolve_boundary rd info sv now symb =
     rbind (resolve_symbol_rules rd info sv now (norm_symbol symb)) (\<lambda>(r, sv').
       Inr (boundary_of (xs_require_metadata (rv_settings sv)) r, sv'))"

subsection \<open>Definitions: quantisation with the rules of a symbol\<close>

definition policy_for_symbol :: "ex_rules \<Rightarrow> money_policy" where
  "policy_for_symbol r =
     DEFAULT_MONEY_POLICY\<lparr>mp_price_tick := xr_tick_size r, mp_qty_step := xr_lot_size r,
       mp_quote_precision := xr_price_precision r, mp_base_precision := xr_qty_precision r, mp_fee_precision := 8\<rparr>"

definition rules_quantize_price :: "ex_rules \<Rightarrow> dec \<Rightarrow> dec result" where
  "rules_quantize_price r price =
     (if price \<le> 0 then Inl (ValueError ''price must be > 0'') else Inr (round_price price (policy_for_symbol r)))"

definition rules_quantize_qty :: "ex_rules \<Rightarrow> dec \<Rightarrow> dec result" where
  "rules_quantize_qty r qty =
     (if qty \<le> 0 then Inl (ValueError ''qty must be > 0'') else Inr (round_qty qty (policy_for_symbol r)))"

definition validate_notional :: "ex_rules \<Rightarrow> dec \<Rightarrow> dec \<Rightarrow> bool \<times> string" where
  "validate_notional r price qty =
     (if price \<le> 0 then (False, ''price_non_positive'')
      else if qty \<le> 0 then (False, ''qty_non_positive'')
      else if below qty (xr_min_qty r) then (False, ''min_qty'')
      else if above qty (xr_max_qty r) then (False, ''max_qty'')
      else if dmul price qty < xr_min_notional_try r then (False, ''min_notional'')
      else (True, ''ok''))"

definition get_rules_stage4 :: "ex_rules \<Rightarrow> exchange_rules" where
  "get_rules_stage4 r =
     \<lparr>er_tick_size = xr_tick_size r, er_step_size = xr_lot_size r, er_min_notional = xr_min_notional_try r,
      er_price_precision = xr_price_precision r, er_qty_precision = xr_qty_precision r\<rparr>"

subsection \<open>Only valid rules\<close>

lemma finish_rules_valid: "finish_rules cfg pair r ns ds = Extracted x \<Longrightarrow> is_valid_rules x"
  unfolding finish_rules_def Let_def is_valid_rules_def by (auto simp: not_le split: if_splits)

lemma extract_rules_valid: "extract_rules rd cfg pair = Inr (Extracted x) \<Longrightarrow> is_valid_rules x"
  unfolding extract_rules_def by (auto simp: rbind_eq_Inr_iff dest: finish_rules_valid split: if_splits)

definition trusted :: "rules_settings \<Rightarrow> rules_status \<Rightarrow> ex_rules \<Rightarrow> bool" where
  "trusted cfg status r \<longleftrightarrow>
     (status = ROk \<and> is_valid_rules r) \<or> (status = RFallback \<and> \<not> xs_require_metadata cfg \<and> r = fallback_rules cfg)"

definition cache_trusted :: "rules_service \<Rightarrow> bool" where
  "cache_trusted sv \<longleftrightarrow> (\<forall>k c. map_of (rv_cache sv) k = Some c \<longrightarrow> trusted (rv_settings sv) (ch_status c) (ch_rules c))"

lemma cache_put_simps [simp]: "rv_settings (cache_put sv ks c) = rv_settings sv" "rv_cache_ttl_sec (cache_put sv ks c) = rv_cache_ttl_sec sv"
  by (simp_all add: cache_put_def)

lemma map_of_cache_put:
  "map_of (rv_cache (cache_put sv ks c)) k = (if k \<in> set ks then Some c else map_of (rv_cache sv) k)"
proof -
  have "map_of (fold (\<lambda>k. AList.update k c) ks d) k = (if k \<in> set ks then Some c else map_of d k)" for d
    by (induction ks arbitrary: d) auto
  then show ?thesis by (simp add: cache_put_def)
qed

lemma cache_put_trusted:
  "cache_trusted sv \<Longrightarrow> trusted (rv_settings sv) (ch_status c) (ch_rules c) \<Longrightarrow> cache_trusted (cache_put sv ks c)"
  by (auto simp: cache_trusted_def map_of_cache_put split: if_splits)

definition answer_trusted :: "rules_service \<Rightarrow> rules_resolution \<times> rules_service \<Rightarrow> bool" where
  "answer_trusted sv a \<longleftrightarrow> cache_trusted (snd a) \<and> rv_settings (snd a) = rv_settings sv \<and> rv_cache_ttl_sec (snd a) = rv_cache_ttl_sec sv
     \<and> (case rx_rules (fst a) of
          None \<Rightarrow> rx_status (fst a) \<notin> {ROk, RFallback}
        | Some r \<Rightarrow> trusted (rv_settings sv) (rx_status (fst a)) r)"

lemma unusable_trusted:
  "cache_trusted sv \<Longrightarrow> status \<notin> {ROk, RFallback} \<Longrightarrow> answer_trusted sv (unusable sv now key status reason)"
  by (auto simp: answer_trusted_def unusable_def use_fallback_def Let_def trusted_def intro!: cache_put_trusted)

lemma from_extraction_trusted:
  assumes "cache_trusted sv" "\<And>r. x = Extracted r \<Longrightarrow> is_valid_rules r"
  shows "answer_trusted sv (from_extraction sv now key pair x)"
proof (cases x)
  case (Extracted r)
  then show ?thesis using assms by (auto simp: answer_trusted_def trusted_def intro!: cache_put_trusted)
qed (use assms(1) in \<open>simp_all add: unusable_trusted\<close>)

lemma resolve_symbol_rules_cases:
  assumes "resolve_symbol_rules rd info sv now symb = Inr a"
  obtains (cached) c where "cached_entry sv now (norm_symbol symb) = Some c"
      "a = (\<lparr>rx_symbol = norm_symbol symb, rx_status = ch_status c, rx_rules = Some (ch_rules c), rx_reason = None\<rparr>, sv)"
    | (failed) "rx_rules (fst a) = None" "rx_status (fst a) = RUpstreamFailure" "snd a = sv"
    | (missing) "a = unusable sv now (norm_symbol symb) RMissing ''metadata_missing''"
    | (found) pair x where "extract_rules rd (rv_settings sv) pair = Inr x" "a = from_extraction sv now (norm_symbol symb) pair x"
proof (cases "cached_entry sv now (norm_symbol symb)")
  case (Some c)
  then show ?thesis using assms cached by (auto simp: resolve_symbol_rules_def)
next
  case None
  show ?thesis
  proof (cases "\<exists>e. info = Some (Inl e)")
    case True
    then show ?thesis using assms None failed by (auto simp: resolve_symbol_rules_def)
  next
    case False
    let ?pairs = "case info of Some (Inr pairs) \<Rightarrow> pairs | _ \<Rightarrow> []"
    have r: "resolve_symbol_rules rd info sv now symb =
      (case map_of (pair_index ?pairs) (norm_symbol symb) of
         None \<Rightarrow> Inr (unusable sv now (norm_symbol symb) RMissing ''metadata_missing'')
       | Some pair \<Rightarrow> rbind (extract_rules rd (rv_settings sv) pair) (\<lambda>x. Inr (from_extraction sv now (norm_symbol symb) pair x)))"
      using False None by (auto simp: resolve_symbol_rules_def Let_def split: option.splits sum.splits)
    show ?thesis
      using assms missing found unfolding r
      by (cases "map_of (pair_index ?pairs) (norm_symbol symb)") (auto simp: rbind_eq_Inr_iff)
  qed
qed

lemma resolve_trusted:
  assumes "cache_trusted sv" "resolve_symbol_rules rd info sv now symb = Inr a"
  shows "answer_trusted sv a"
  using assms(2)
proof (cases rule: resolve_symbol_rules_cases)
  case (cached c)
  then have "map_of (rv_cache sv) (norm_symbol symb) = Some c" by (auto simp: cached_entry_def split: option.splits if_splits)
  then have "trusted (rv_settings sv) (ch_status c) (ch_rules c)" using assms(1) unfolding cache_trusted_def by blast
  then show ?thesis using assms(1) cached(2) by (simp add: answer_trusted_def)
next
  case failed
  then show ?thesis using assms(1) by (simp add: answer_trusted_def)
next
  case missing
  then show ?thesis using assms(1) by (simp add: unusable_trusted)
next
  case (found pair x)
  then show ?thesis using assms(1) extract_rules_valid by (auto intro: from_extraction_trusted)
qed

inductive rules_reachable :: "rules_settings \<Rightarrow> rules_service \<Rightarrow> bool" for cfg where
  new: "rules_reachable cfg (ExchangeRulesService ttl cfg)"
| resolve: "rules_reachable cfg sv \<Longrightarrow> resolve_symbol_rules rd info sv now symb = Inr (r, sv') \<Longrightarrow> rules_reachable cfg sv'"

lemma rules_reachable_inv:
  "rules_reachable cfg sv \<Longrightarrow> cache_trusted sv \<and> rv_settings sv = cfg \<and> 0 < rv_cache_ttl_sec sv"
proof (induction rule: rules_reachable.induct)
  case (new ttl)
  then show ?case by (simp add: ExchangeRulesService_def cache_trusted_def)
next
  case (resolve sv rd info now symb r sv')
  then show ?case using resolve_trusted [of sv rd info now symb "(r, sv')"] by (simp add: answer_trusted_def)
qed

text \<open>(C23) The service hands out well-formed rules only: whatever metadata the exchange has sent so far, rules
  marked ok have positive tick, lot and minimum notional, the configured fallback is used only when
  metadata is not required, and a resolution without rules is never marked ok or fallback.\<close>

theorem service_rules_trusted:
  assumes "rules_reachable cfg sv" "resolve_symbol_rules rd info sv now symb = Inr (r, sv')"
  shows "case rx_rules r of
      None \<Rightarrow> rx_status r \<notin> {ROk, RFallback}
    | Some x \<Rightarrow> (case rx_status r of ROk \<Rightarrow> is_valid_rules x | RFallback \<Rightarrow> \<not> xs_require_metadata cfg \<and> x = fallback_rules cfg | _ \<Rightarrow> False)"
  using resolve_trusted [OF _ assms(2)] rules_reachable_inv [OF assms(1)]
  by (auto simp: answer_trusted_def trusted_def split: option.splits)

text \<open>A symbol that was resolved keeps its rules for the other calls at that time.\<close>

definition puts_rules :: "rules_service \<Rightarrow> instant \<Rightarrow> string \<Rightarrow> rules_resolution \<times> rules_service \<Rightarrow> bool" where
  "puts_rules sv now key a \<longleftrightarrow> rx_rules (fst a) = None \<or>
     (\<exists>c ks. snd a = cache_put sv ks c \<and> key \<in> set ks \<and> rx_rules (fst a) = Some (ch_rules c) \<and> ch_cached_at c = now)"

lemma unusable_puts: "puts_rules sv now key (unusable sv now key status reason)"
  by (force simp: puts_rules_def unusable_def use_fallback_def Let_def)

lemma from_extraction_puts: "puts_rules sv now key (from_extraction sv now key pair x)"
proof (cases x)
  case (Extracted r)
  then show ?thesis unfolding puts_rules_def by (intro disjI2 exI conjI) (auto simp: Extracted)
qed (simp_all add: unusable_puts)

lemma puts_cached:
  assumes "puts_rules sv now key (r, sv')" "rx_rules r = Some x" "0 < rv_cache_ttl_sec sv"
  shows "\<exists>c. cached_entry sv' now key = Some c \<and> ch_rules c = x"
  using assms by (auto simp: puts_rules_def cached_entry_def map_of_cache_put)

lemma resolve_stable:
  assumes "rules_reachable cfg sv" "resolve_symbol_rules rd info sv now symb = Inr (r, sv')" "rx_rules r = Some x"
  shows "get_rules rd' info' sv' now symb = Inr (x, sv')"
proof -
  have ttl: "0 < rv_cache_ttl_sec sv" using rules_reachable_inv [OF assms(1)] by simp
  have "\<exists>c. cached_entry sv' now (norm_symbol symb) = Some c \<and> ch_rules c = x"
    using assms(2)
  proof (cases rule: resolve_symbol_rules_cases)
    case missing
    then show ?thesis using puts_cached [OF _ assms(3) ttl] unusable_puts by metis
  next
    case (found pair y)
    then show ?thesis using puts_cached [OF _ assms(3) ttl] from_extraction_puts by metis
  qed (use assms(3) in auto)
  then show ?thesis by (auto simp: get_rules_def resolve_symbol_rules_def rules_of_def)
qed

definition demo_rules_settings :: rules_settings where
  "demo_rules_settings = \<lparr>xs_fallback_tick_size = 1 / 100, xs_fallback_lot_size = 1 / 10 ^ 8, xs_fallback_min_notional_try = 10,
     xs_safe_min_notional_try = 100, xs_min_order_notional_try = 10, xs_require_metadata = True\<rparr>"

definition demo_pair :: pair_meta where
  "demo_pair = Mapping [(''name'', MText ''BTCTRY''), (''tickSize'', MFloat (1 / 100)), (''numeratorScale'', MInt 6),
     (''filters'', MList [MMap [(''filterType'', MText ''price_filter''), (''minExchangeValue'', MInt 50)]])]"

definition demo_rules :: ex_rules where
  "demo_rules = \<lparr>xr_tick_size = 1 / 100, xr_lot_size = 1 / 10 ^ 6, xr_min_notional_try = 50, xr_min_qty = None, xr_max_qty = None,
     xr_price_precision = 2, xr_qty_precision = 6\<rparr>"

definition demo_reader :: text_reader where
  "demo_reader = \<lparr>tr_dec = (\<lambda>_. None), tr_int = (\<lambda>_. None)\<rparr>"

lemma demo_resolution:
  "resolve_symbol_rules demo_reader (Some (Inr [demo_pair])) (ExchangeRulesService 300 demo_rules_settings) 0 ''btc_try''
     = Inr (\<lparr>rx_symbol = ''BTCTRY'', rx_status = ROk, rx_rules = Some demo_rules, rx_reason = None\<rparr>,
            \<lparr>rv_cache_ttl_sec = 300, rv_settings = demo_rules_settings,
             rv_cache = [(''BTCTRY'', \<lparr>ch_rules = demo_rules, ch_status = ROk, ch_cached_at = 0\<rparr>)]\<rparr>)"
  by code_simp

theorem service_rules_trusted_witness: "is_valid_rules demo_rules"
  using service_rules_trusted [OF rules_reachable.new demo_resolution] by simp

end
