(* ===== verification/Order_Builder.thy ===== *)
theory Order_Builder
  imports Portfolio_Policy Rules_Service Oms
begin

text \<open>
  The order builder of stage 7, \<open>src/src/btcbot/services/order_builder_service.py\<close>: the
  actions of a rebalancing plan become limit order intents.

  \<open>resolve\<close> is what the rules service answers for a symbol in the cycle; by the lemma
  \<open>resolve_stable\<close> of \<open>Rules_Service\<close> the calls made for one action all see the same rules.
  \<open>printer\<close> holds the texts of decimals, instants and reasons and the SHA hash.  A plan always
  carries its snapshot, so the cash available is \<open>pt_cash_try\<close> of it.

  The quantiser of the service is one more instance of the locale \<open>down_quantizer\<close>.  The lemmas
  show that every intent that is not skipped obeys the rules of its symbol, that sales stay
  within the free balance and purchases within the target, the cash, the cap per order and the
  cap per cycle.
\<close>

subsection \<open>Definitions\<close>

record printer =
  pn_dec :: "dec \<Rightarrow> string"
  pn_time :: "instant \<Rightarrow> string"
  pn_reason :: "rebalance_reason \<Rightarrow> string"
  pn_hash :: "string \<Rightarrow> string"

record builder_settings =
  ob_offset_bps :: dec
  ob_notional_cap_try_per_cycle :: dec
  ob_spot_sell_requires_inventory :: bool
  ob_min_order_notional_try :: dec
  ob_max_notional_per_order_try :: dec
  ob_fee_buffer_ratio :: dec
  ob_allocation_fee_buffer_bps :: dec
  ob_rounding_buffer_try :: dec

record builder_env =
  oe_printer :: printer
  oe_settings :: builder_settings
  oe_cycle_id :: string
  oe_now :: instant
  oe_plan :: portfolio_plan
  oe_marks :: "(string, dec) dict"
  oe_resolve :: "string \<Rightarrow> rules_resolution result"
  oe_unavailable :: "(string, string) dict"

fun side_name :: "side \<Rightarrow> string" where
  "side_name SELL = ''SELL''"
| "side_name BUY = ''BUY''"

definition client_order_id :: "printer \<Rightarrow> string \<Rightarrow> string \<Rightarrow> side \<Rightarrow> dec \<Rightarrow> dec \<Rightarrow> rebalance_reason \<Rightarrow> string" where
  "client_order_id pr cycle_id symb sd price qty reason =
     ''s7:'' @ cycle_id @ '':'' @ symb @ '':'' @ side_name sd @ '':''
       @ take 12 (pn_hash pr (join_with ''|'' [cycle_id, symb, side_name sd, pn_dec pr price, pn_dec pr qty, pn_reason pr reason]))"

definition skipped :: "builder_env \<Rightarrow> rebalance_action \<Rightarrow> (string, string) dict \<Rightarrow> string \<Rightarrow> order_intent" where
  "skipped env a extra skip_reason =
     (let pr = oe_printer env; symb = normalize_symbol (rb_symbol a)
      in \<lparr>oi_cycle_id = oe_cycle_id env, oi_symbol = symb, oi_side = side_name (rb_side a), oi_order_type = ''LIMIT'',
          oi_price_try = 0, oi_qty = 0, oi_notional_try = 0,
          oi_client_order_id = client_order_id pr (oe_cycle_id env) symb (rb_side a) 0 0 (rb_reason a),
          oi_reason = pn_reason pr (rb_reason a),
          oi_constraints = fold (\<lambda>(k, v). AList.update k v) extra [(''skipped'', ''true''), (''created_at'', pn_time pr (oe_now env))],
          oi_skipped = True, oi_skip_reason = Some skip_reason\<rparr>)"

definition resolve_fee_buffer :: "builder_settings \<Rightarrow> dec" where
  "resolve_fee_buffer cfg =
     (if 0 < ob_fee_buffer_ratio cfg then min (ob_fee_buffer_ratio cfg) 1
      else min (max (ddiv (ob_allocation_fee_buffer_bps cfg) 10000) 0) 1)"

definition resolve_rounding_buffer_try :: "builder_settings \<Rightarrow> ex_rules \<Rightarrow> dec \<Rightarrow> dec" where
  "resolve_rounding_buffer_try cfg rules price =
     (if 0 < ob_rounding_buffer_try cfg then ob_rounding_buffer_try cfg
      else max (dmul price (xr_lot_size rules)) (dmul (xr_tick_size rules) (xr_lot_size rules)))"

definition max_spend_limit :: "builder_settings \<Rightarrow> portfolio_plan \<Rightarrow> dec \<Rightarrow> rebalance_action \<Rightarrow> dec" where
  "max_spend_limit cfg plan cap_remaining a =
     foldl min (rb_target_notional_try a)
       ([pt_cash_try (pp_snapshot plan)]
        @ (if 0 < cap_remaining then [cap_remaining] else [])
        @ (if 0 < ob_max_notional_per_order_try cfg then [ob_max_notional_per_order_try cfg] else []))"

definition max_spend_after_buffers :: "builder_settings \<Rightarrow> portfolio_plan \<Rightarrow> dec \<Rightarrow> rebalance_action \<Rightarrow> ex_rules \<Rightarrow> dec \<Rightarrow> dec" where
  "max_spend_after_buffers cfg plan cap_remaining a rules price =
     max 0 (dsub (dmul (max_spend_limit cfg plan cap_remaining a) (dsub 1 (resolve_fee_buffer cfg)))
       (resolve_rounding_buffer_try cfg rules price))"

definition resolve_base_asset_for_inventory :: "string \<Rightarrow> string option" where
  "resolve_base_asset_for_inventory symb =
     (case split_symbol symb of
        Inl e \<Rightarrow> None
      | Inr (base, quote) \<Rightarrow> if base = [] \<or> quote = [] then None else Some (str_upper base))"

definition plan_balances_by_asset :: "portfolio_plan \<Rightarrow> (string, dec) dict" where
  "plan_balances_by_asset plan = dict_comp str_upper fst (pp_balances plan)"

definition available_qty :: "portfolio_plan \<Rightarrow> string \<Rightarrow> dec" where
  "available_qty plan base_asset =
     (case map_of (plan_balances_by_asset plan) base_asset of Some b \<Rightarrow> max 0 b | None \<Rightarrow> 0)"

definition sell_metrics :: "string \<Rightarrow> string \<Rightarrow> string \<Rightarrow> string \<Rightarrow> (string, string) dict" where
  "sell_metrics available desired qty notional =
     [(''sell_attempted'', ''true''), (''available_qty'', available), (''desired_qty'', desired),
      (''qty_after_quantize'', qty), (''notional_try_after_quantize'', notional)]"

definition desired_sell_qty :: "rebalance_action \<Rightarrow> dec \<Rightarrow> dec" where
  "desired_sell_qty a price =
     (if rb_est_qty a \<le> 0 \<and> 0 < price then ddiv (rb_target_notional_try a) price else rb_est_qty a)"

text \<open>The quantity to sell, or why the sale is skipped, with the metrics.\<close>

definition resolve_sell_qty ::
  "builder_env \<Rightarrow> rebalance_action \<Rightarrow> ex_rules \<Rightarrow> dec \<Rightarrow> (dec \<times> string option \<times> (string, string) dict) result" where
  "resolve_sell_qty env a rules price =
     (let show_dec = pn_dec (oe_printer env) in
      case resolve_base_asset_for_inventory (normalize_symbol (rb_symbol a)) of
        None \<Rightarrow> Inr (0, Some ''invalid_symbol_for_inventory_resolution'', sell_metrics ''0'' ''0'' ''0'' ''0'')
      | Some base_asset \<Rightarrow>
          let available = available_qty (oe_plan env) base_asset;
              desired = desired_sell_qty a price
          in if available \<le> 0 then
               Inr (0, Some ''insufficient_inventory_free_qty'', sell_metrics (show_dec available) ''0'' ''0'' ''0'')
             else if desired \<le> 0 then
               Inr (0, Some ''insufficient_sell_qty_input'', sell_metrics (show_dec available) ''0'' ''0'' ''0'')
             else
               let capped = min desired available
               in rbind (if 0 < capped then rules_quantize_qty rules capped else Inr 0) (\<lambda>qty.
                    Inr (qty, None, sell_metrics (show_dec available) (show_dec desired) (show_dec qty) (show_dec (dmul qty price)))))"

definition accepted_intent :: "builder_env \<Rightarrow> rebalance_action \<Rightarrow> (string, string) dict \<Rightarrow> dec \<Rightarrow> dec \<Rightarrow> order_intent" where
  "accepted_intent env a metrics price qty =
     (let pr = oe_printer env; symb = normalize_symbol (rb_symbol a)
      in \<lparr>oi_cycle_id = oe_cycle_id env, oi_symbol = symb, oi_side = side_name (rb_side a), oi_order_type = ''LIMIT'',
          oi_price_try = price, oi_qty = qty, oi_notional_try = dmul price qty,
          oi_client_order_id = client_order_id pr (oe_cycle_id env) symb (rb_side a) price qty (rb_reason a),
          oi_reason = pn_reason pr (rb_reason a),
          oi_constraints = [(''offset_bps'', pn_dec pr (ob_offset_bps (oe_settings env))), (''quantized'', ''true''),
            (''created_at'', pn_time pr (oe_now env))] @ metrics,
          oi_skipped = False, oi_skip_reason = None\<rparr>)"

text \<open>The checks on the quantised order.\<close>

definition checked_intent ::
  "builder_env \<Rightarrow> rebalance_action \<Rightarrow> ex_rules \<Rightarrow> dec \<Rightarrow> (string, string) dict \<Rightarrow> dec \<Rightarrow> order_intent" where
  "checked_intent env a rules price metrics qty =
     (let skip = skipped env a metrics; notional = dmul price qty
      in if qty \<le> 0 then skip ''qty_rounds_to_zero''
         else if below qty (xr_min_qty rules) then skip ''qty_below_min_qty_after_quantize''
         else if notional < xr_min_notional_try rules then skip ''notional_below_min_total_after_quantize''
         else if rb_side a = SELL \<and> notional < ob_min_order_notional_try (oe_settings env) then
           skip ''notional_below_internal_min_after_quantize''
         else if \<not> fst (validate_notional rules price qty) then skip (snd (validate_notional rules price qty))
         else accepted_intent env a metrics price qty)"

definition buy_intent :: "builder_env \<Rightarrow> dec \<Rightarrow> rebalance_action \<Rightarrow> ex_rules \<Rightarrow> dec \<Rightarrow> order_intent result" where
  "buy_intent env cap_remaining a rules price =
     (let cfg = oe_settings env;
          spend = max_spend_after_buffers cfg (oe_plan env) cap_remaining a rules price;
          qty_raw = ddiv spend price
      in if spend < max (xr_min_notional_try rules) (ob_min_order_notional_try cfg) then
           Inr (skipped env a [] ''insufficient_notional_after_buffers'')
         else rbind (if 0 < qty_raw then rules_quantize_qty rules qty_raw else Inr 0) (\<lambda>qty.
           Inr (checked_intent env a rules price [] qty)))"

definition sell_intent :: "builder_env \<Rightarrow> rebalance_action \<Rightarrow> ex_rules \<Rightarrow> dec \<Rightarrow> order_intent result" where
  "sell_intent env a rules price =
     rbind (resolve_sell_qty env a rules price) (\<lambda>(qty, skip_reason, metrics).
       Inr (case skip_reason of
          Some r \<Rightarrow> skipped env a metrics r
        | None \<Rightarrow> checked_intent env a rules price metrics qty))"

definition sized_intent :: "builder_env \<Rightarrow> dec \<Rightarrow> rebalance_action \<Rightarrow> ex_rules \<Rightarrow> dec \<Rightarrow> order_intent result" where
  "sized_intent env cap_remaining a rules price =
     (if price \<le> 0 then Inr (skipped env a [] ''price_rounds_to_zero'')
      else if rb_side a = BUY then buy_intent env cap_remaining a rules price
      else sell_intent env a rules price)"

definition priced_intent :: "builder_env \<Rightarrow> dec \<Rightarrow> rebalance_action \<Rightarrow> dec \<Rightarrow> rules_resolution \<Rightarrow> order_intent result" where
  "priced_intent env cap_remaining a mark r =
     (case rx_rules r of
        None \<Rightarrow> Inr (skipped env a [] (''rules_unavailable:'' @ status_name (rx_status r)))
      | Some rules \<Rightarrow>
          let offset = ddiv (ob_offset_bps (oe_settings env)) 10000;
              multiplier = (if rb_side a = BUY then dsub 1 offset else dadd 1 offset)
          in rbind (rules_quantize_price rules (dmul mark multiplier)) (sized_intent env cap_remaining a rules))"

definition build_action_intent :: "builder_env \<Rightarrow> dec \<Rightarrow> rebalance_action \<Rightarrow> order_intent result" where
  "build_action_intent env cap_remaining a =
     (let symb = normalize_symbol (rb_symbol a)
      in case map_of (oe_marks env) symb of
           None \<Rightarrow> Inr (skipped env a [] ''missing_mark_price'')
         | Some mark \<Rightarrow>
             if mark \<le> 0 then Inr (skipped env a [] ''missing_mark_price'')
             else rbind (oe_resolve env symb) (priced_intent env cap_remaining a mark))"

definition pay_cap :: "dec \<Rightarrow> order_intent \<Rightarrow> dec" where
  "pay_cap cap_remaining i =
     (if oi_side i = ''BUY'' \<and> \<not> oi_skipped i \<and> 0 < cap_remaining then max 0 (dsub cap_remaining (oi_notional_try i)) else cap_remaining)"

definition build_step ::
  "builder_env \<Rightarrow> risk_mode \<Rightarrow> order_intent list \<times> dec \<Rightarrow> rebalance_action \<Rightarrow> (order_intent list \<times> dec) result" where
  "build_step env final_mode st a =
     (let symb = normalize_symbol (rb_symbol a); intents = fst st; cap_remaining = snd st in
      if final_mode = REDUCE_RISK_ONLY \<and> rb_side a = BUY then Inr st
      else if ob_spot_sell_requires_inventory (oe_settings env) \<and> rb_side a = SELL \<and> rb_est_qty a \<le> 0 then
        Inr (intents @ [skipped env a [] ''spot_sell_requires_inventory''], cap_remaining)
      else case map_of (oe_unavailable env) symb of
        Some why \<Rightarrow> Inr (intents @ [skipped env a [] (''rules_unavailable:'' @ why)], cap_remaining)
      | None \<Rightarrow> rbind (build_action_intent env cap_remaining a) (\<lambda>i. Inr (intents @ [i], pay_cap cap_remaining i)))"

definition build_intents :: "builder_env \<Rightarrow> risk_mode \<Rightarrow> order_intent list result" where
  "build_intents env final_mode =
     (if final_mode = OBSERVE_ONLY then Inr []
      else
        rbind (rfold (build_step env final_mode) ([], ob_notional_cap_try_per_cycle (oe_settings env))
          (sort_key (\<lambda>a. (side_rank (rb_side a), normalize_symbol (rb_symbol a))) (pp_actions (oe_plan env)))) (\<lambda>st.
          Inr (fst st)))"

subsection \<open>One intent\<close>

lemma policy_for_symbol_down [simp]: "down_policy (policy_for_symbol r)"
  by (simp add: policy_for_symbol_def down_policy_def DEFAULT_MONEY_POLICY_def)

interpretation rules_qty: down_quantizer "rules_quantize_qty r" for r
  using down_quantizer.q_nonneg [OF down_quantizer_round_qty [OF policy_for_symbol_down]]
    down_quantizer.q_upper [OF down_quantizer_round_qty [OF policy_for_symbol_down]]
  by unfold_locales (auto simp: rules_quantize_qty_def split: if_splits)

text \<open>What the rules demand of an accepted order.\<close>

definition order_within :: "ex_rules \<Rightarrow> dec \<Rightarrow> dec \<Rightarrow> bool" where
  "order_within rules price qty \<longleftrightarrow> 0 < price \<and> 0 < qty \<and> \<not> below qty (xr_min_qty rules) \<and> \<not> above qty (xr_max_qty rules)
     \<and> xr_min_notional_try rules \<le> dmul price qty"

text \<open>The grid of the rules: a price is a multiple of the tick and a quantity one of the lot, each rounded once.\<close>

definition order_gridded :: "ex_rules \<Rightarrow> dec \<Rightarrow> dec \<Rightarrow> bool" where
  "order_gridded rules price qty \<longleftrightarrow> on_step (xr_tick_size rules) price \<and> on_step (xr_lot_size rules) qty"

lemma rules_quantize_gridded:
  "rules_quantize_price rules x = Inr price \<Longrightarrow> on_step (xr_tick_size rules) price"
  "rules_quantize_qty rules y = Inr qty \<Longrightarrow> on_step (xr_lot_size rules) qty"
  by (auto simp: rules_quantize_price_def rules_quantize_qty_def round_price_def round_qty_def policy_for_symbol_def
      split: if_splits)

lemma skipped_simps [simp]:
  "oi_skipped (skipped env a extra r)" "oi_side (skipped env a extra r) = side_name (rb_side a)"
  by (simp_all add: skipped_def Let_def)

lemma checked_intent_cases:
  "oi_skipped (checked_intent env a rules price metrics qty)
   \<or> (checked_intent env a rules price metrics qty = accepted_intent env a metrics price qty \<and> (0 < price \<longrightarrow> order_within rules price qty))"
  by (auto simp: checked_intent_def Let_def order_within_def validate_notional_def not_le not_less split: if_splits)

lemma accepted_simps [simp]:
  "oi_price_try (accepted_intent env a m price qty) = price" "oi_qty (accepted_intent env a m price qty) = qty"
  "oi_notional_try (accepted_intent env a m price qty) = dmul price qty" "\<not> oi_skipped (accepted_intent env a m price qty)"
  "oi_side (accepted_intent env a m price qty) = side_name (rb_side a)"
  "oi_symbol (accepted_intent env a m price qty) = normalize_symbol (rb_symbol a)"
  by (simp_all add: accepted_intent_def Let_def)

lemma resolve_sell_qty_bound:
  assumes "resolve_sell_qty env a rules price = Inr (qty, None, metrics)"
  shows "\<exists>base. resolve_base_asset_for_inventory (normalize_symbol (rb_symbol a)) = Some base
    \<and> qty \<le> available_qty (oe_plan env) base * dec_slack ^ 2 \<and> on_step (xr_lot_size rules) qty"
proof -
  obtain base where base: "resolve_base_asset_for_inventory (normalize_symbol (rb_symbol a)) = Some base"
    using assms by (auto simp: resolve_sell_qty_def Let_def split: option.splits)
  define av where "av = available_qty (oe_plan env) base"
  define capped where "capped = min (desired_sell_qty a price) av"
  have q: "0 < capped \<and> rules_quantize_qty rules capped = Inr qty"
    using assms unfolding resolve_sell_qty_def base Let_def option.case av_def [symmetric] capped_def [symmetric]
    by (auto simp: rbind_eq_Inr_iff capped_def split: if_splits)
  then have "qty \<le> capped * dec_slack ^ 2" using rules_qty.q_upper [of capped rules qty] by simp
  also have "\<dots> \<le> av * dec_slack ^ 2" by (intro mult_right_mono) (auto simp: capped_def)
  finally show ?thesis using base q rules_quantize_gridded(2) by (auto simp: av_def)
qed

lemma foldl_min_le: "foldl min x ys \<le> (x :: 'a :: linorder)"
  by (induction ys arbitrary: x) (auto intro: order_trans [OF _ min.cobounded1])

lemma foldl_min_le_elem: "y \<in> set ys \<Longrightarrow> foldl min x ys \<le> (y :: 'a :: linorder)"
  by (induction ys arbitrary: x) (auto intro: order_trans [OF foldl_min_le])

lemma max_spend_limit_le:
  "max_spend_limit cfg plan c a \<le> rb_target_notional_try a" "max_spend_limit cfg plan c a \<le> pt_cash_try (pp_snapshot plan)"
  "0 < c \<Longrightarrow> max_spend_limit cfg plan c a \<le> c"
  "0 < ob_max_notional_per_order_try cfg \<Longrightarrow> max_spend_limit cfg plan c a \<le> ob_max_notional_per_order_try cfg"
  unfolding max_spend_limit_def by (auto intro!: foldl_min_le foldl_min_le_elem simp del: foldl_append)

lemma fee_share_bounds: "0 \<le> dsub 1 (resolve_fee_buffer cfg)" "dsub 1 (resolve_fee_buffer cfg) \<le> 1"
proof -
  have f: "0 \<le> resolve_fee_buffer cfg" "resolve_fee_buffer cfg \<le> 1" by (auto simp: resolve_fee_buffer_def)
  show "0 \<le> dsub 1 (resolve_fee_buffer cfg)" using f(2) by (simp add: dec_sign)
  show "dsub 1 (resolve_fee_buffer cfg) \<le> 1" using f(1) by (simp add: dsub_le)
qed

lemma rounding_buffer_nonneg:
  "is_valid_rules rules \<Longrightarrow> 0 \<le> resolve_rounding_buffer_try cfg rules price"
  by (auto simp: resolve_rounding_buffer_try_def is_valid_rules_def dec_sign le_max_iff_disj less_imp_le)

lemma buy_intent_cost:
  assumes "buy_intent env c a rules price = Inr i" "\<not> oi_skipped i" "0 < price"
  shows "oi_notional_try i \<le> max_spend_after_buffers (oe_settings env) (oe_plan env) c a rules price * dec_slack ^ 4"
    "order_within rules price (oi_qty i)" "oi_notional_try i = dmul price (oi_qty i)" "oi_price_try i = price"
    "on_step (xr_lot_size rules) (oi_qty i)"
proof -
  define spend where "spend = max_spend_after_buffers (oe_settings env) (oe_plan env) c a rules price"
  have sp: "0 \<le> spend" by (simp add: spend_def max_spend_after_buffers_def)
  obtain qty where q: "(if 0 < ddiv spend price then rules_quantize_qty rules (ddiv spend price) else Inr 0) = Inr qty"
    and i: "i = checked_intent env a rules price [] qty"
    using assms(1,2) unfolding buy_intent_def Let_def spend_def [symmetric] by (auto simp: rbind_eq_Inr_iff split: if_splits)
  have acc: "i = accepted_intent env a [] price qty" "order_within rules price qty"
    using checked_intent_cases [of env a rules price "[]" qty] assms(2,3) i by auto
  have quantized: "rules_quantize_qty rules (ddiv spend price) = Inr qty" using q acc(2) by (auto simp: order_within_def split: if_splits)
  then have "dmul price qty \<le> spend * dec_slack ^ 4" by (rule rules_qty.spend_bound [OF assms(3) sp])
  then show "oi_notional_try i \<le> max_spend_after_buffers (oe_settings env) (oe_plan env) c a rules price * dec_slack ^ 4"
    by (simp add: acc(1) spend_def)
  show "order_within rules price (oi_qty i)" "oi_notional_try i = dmul price (oi_qty i)" "oi_price_try i = price"
    "on_step (xr_lot_size rules) (oi_qty i)" using acc rules_quantize_gridded(2) [OF quantized] by simp_all
qed

lemma max_spend_upper:
  assumes "0 \<le> resolve_rounding_buffer_try cfg rules price" "max_spend_limit cfg plan c a \<le> L" "0 \<le> L"
  shows "max_spend_after_buffers cfg plan c a rules price \<le> L * dec_slack"
proof -
  define f where "f = dsub 1 (resolve_fee_buffer cfg)"
  have f: "0 \<le> f" "f \<le> 1" using fee_share_bounds by (simp_all add: f_def)
  have "dmul (max_spend_limit cfg plan c a) f \<le> dmul L f" using assms(2) f(1) by (rule dmul_mono [rotated])
  also have "\<dots> \<le> L * f * dec_slack" using assms(3) f(1) by (rule dmul_upper)
  also have "\<dots> \<le> L * dec_slack" using f assms(3) by (intro mult_right_mono mult_left_le) auto
  finally have "dmul (max_spend_limit cfg plan c a) f \<le> L * dec_slack" .
  moreover have "dsub (dmul (max_spend_limit cfg plan c a) f) (resolve_rounding_buffer_try cfg rules price) \<le> dmul (max_spend_limit cfg plan c a) f"
    using assms(1) by (intro dsub_le) auto
  ultimately show ?thesis using assms(3) by (simp add: max_spend_after_buffers_def f_def [symmetric])
qed

subsection \<open>Accepted intents are admissible\<close>

definition rules_trusted :: "builder_env \<Rightarrow> bool" where
  "rules_trusted env \<longleftrightarrow> (\<forall>s r x. oe_resolve env s = Inr r \<longrightarrow> rx_rules r = Some x \<longrightarrow> is_valid_rules x)"

definition symbol_rules_of :: "builder_env \<Rightarrow> string \<Rightarrow> ex_rules option" where
  "symbol_rules_of env symb = (case oe_resolve env symb of Inr r \<Rightarrow> rx_rules r | Inl e \<Rightarrow> None)"

text \<open>
  An order of the plan: within the rules of its symbol and on their grid; a purchase only in NORMAL mode and
  within the cash and the cap per order, a sale within the free balance of its base asset.
\<close>

definition admissible_order :: "builder_env \<Rightarrow> risk_mode \<Rightarrow> order_intent \<Rightarrow> bool" where
  "admissible_order env mode i \<longleftrightarrow>
     (case symbol_rules_of env (oi_symbol i) of None \<Rightarrow> False | Some rules \<Rightarrow>
         order_within rules (oi_price_try i) (oi_qty i) \<and> order_gridded rules (oi_price_try i) (oi_qty i))
     \<and> oi_notional_try i = dmul (oi_price_try i) (oi_qty i)
     \<and> (if oi_side i = ''BUY'' then mode = NORMAL
          \<and> oi_notional_try i \<le> max 0 (pt_cash_try (pp_snapshot (oe_plan env))) * dec_slack ^ 5
          \<and> (0 < ob_max_notional_per_order_try (oe_settings env)
               \<longrightarrow> oi_notional_try i \<le> ob_max_notional_per_order_try (oe_settings env) * dec_slack ^ 5)
        else case resolve_base_asset_for_inventory (oi_symbol i) of
               None \<Rightarrow> False | Some base \<Rightarrow> oi_qty i \<le> available_qty (oe_plan env) base * dec_slack ^ 2)"

lemma priced_cases:
  assumes "build_action_intent env c a = Inr i" "\<not> oi_skipped i"
  obtains rules price where "symbol_rules_of env (normalize_symbol (rb_symbol a)) = Some rules" "0 < price" "on_step (xr_tick_size rules) price"
    "if rb_side a = BUY then buy_intent env c a rules price = Inr i else sell_intent env a rules price = Inr i"
proof -
  obtain mark r where r: "oe_resolve env (normalize_symbol (rb_symbol a)) = Inr r" "priced_intent env c a mark r = Inr i"
    using assms by (auto simp: build_action_intent_def Let_def rbind_eq_Inr_iff split: option.splits if_splits)
  obtain rules price raw where "rx_rules r = Some rules" "sized_intent env c a rules price = Inr i"
      "rules_quantize_price rules raw = Inr price"
    using r(2) assms(2) by (auto simp: priced_intent_def Let_def rbind_eq_Inr_iff split: option.splits)
  then show ?thesis
    using that [of rules price] rules_quantize_gridded(1) [of rules raw price] r(1) assms(2) by (auto simp: sized_intent_def symbol_rules_of_def split: if_splits)
qed

lemma checked_symbol: "oi_symbol (checked_intent env a rules price m q) = normalize_symbol (rb_symbol a)"
  "oi_side (checked_intent env a rules price m q) = side_name (rb_side a)"
  by (simp_all add: checked_intent_def Let_def skipped_def accepted_intent_def)

lemma buy_intent_symbol:
  "buy_intent env c a rules price = Inr i \<Longrightarrow> oi_symbol i = normalize_symbol (rb_symbol a) \<and> oi_side i = side_name (rb_side a)"
  by (auto simp: buy_intent_def Let_def rbind_eq_Inr_iff checked_symbol skipped_def split: if_splits)

lemma sell_intent_ok:
  assumes "sell_intent env a rules price = Inr i" "\<not> oi_skipped i" "0 < price"
  shows "oi_symbol i = normalize_symbol (rb_symbol a)" "oi_side i = side_name (rb_side a)" "order_within rules (oi_price_try i) (oi_qty i)"
    "oi_notional_try i = dmul (oi_price_try i) (oi_qty i)"
    "\<exists>base. resolve_base_asset_for_inventory (oi_symbol i) = Some base \<and> oi_qty i \<le> available_qty (oe_plan env) base * dec_slack ^ 2"
    "oi_price_try i = price" "on_step (xr_lot_size rules) (oi_qty i)"
proof -
  obtain qty metrics where q: "resolve_sell_qty env a rules price = Inr (qty, None, metrics)" "i = checked_intent env a rules price metrics qty"
    using assms(1,2) by (auto simp: sell_intent_def rbind_eq_Inr_iff split: option.splits) (metis option.exhaust skipped_simps(1))
  have acc: "i = accepted_intent env a metrics price qty" "order_within rules price qty"
    using checked_intent_cases [of env a rules price metrics qty] assms(2,3) q(2) by auto
  show "oi_symbol i = normalize_symbol (rb_symbol a)" "oi_side i = side_name (rb_side a)" "order_within rules (oi_price_try i) (oi_qty i)"
    "oi_notional_try i = dmul (oi_price_try i) (oi_qty i)" "oi_price_try i = price" "on_step (xr_lot_size rules) (oi_qty i)"
    using acc resolve_sell_qty_bound [OF q(1)] by auto
  show "\<exists>base. resolve_base_asset_for_inventory (oi_symbol i) = Some base \<and> oi_qty i \<le> available_qty (oe_plan env) base * dec_slack ^ 2"
    using resolve_sell_qty_bound [OF q(1)] acc by auto
qed

lemma side_name_BUY [simp]: "side_name s = ''BUY'' \<longleftrightarrow> s = BUY"
  by (cases s) simp_all

lemma build_action_admissible:
  assumes "rules_trusted env" "build_action_intent env c a = Inr i" "\<not> oi_skipped i" "rb_side a = BUY \<Longrightarrow> mode = NORMAL"
  shows "admissible_order env mode i"
  using assms(2,3)
proof (rule priced_cases)
  fix rules price
  assume rules: "symbol_rules_of env (normalize_symbol (rb_symbol a)) = Some rules" and price: "0 < price" and tick: "on_step (xr_tick_size rules) price"
    and built: "if rb_side a = BUY then buy_intent env c a rules price = Inr i else sell_intent env a rules price = Inr i"
  have valid: "is_valid_rules rules"
    using rules assms(1) by (auto simp: rules_trusted_def symbol_rules_of_def split: sum.splits)
  show ?thesis
  proof (cases "rb_side a = BUY")
    case True
    then have b: "buy_intent env c a rules price = Inr i" using built by simp
    note cost = buy_intent_cost [OF b assms(3) price]
    have up: "oi_notional_try i \<le> L * dec_slack ^ 5" if "max_spend_limit (oe_settings env) (oe_plan env) c a \<le> L" "0 \<le> L" for L
    proof -
      have "max_spend_after_buffers (oe_settings env) (oe_plan env) c a rules price * dec_slack ^ 4 \<le> L * dec_slack * dec_slack ^ 4"
        using max_spend_upper [OF rounding_buffer_nonneg [OF valid] that] by (intro mult_right_mono) auto
      also have "\<dots> = L * dec_slack ^ 5" by (simp add: eval_nat_numeral)
      finally show ?thesis using cost(1) by (rule order_trans [rotated])
    qed
    have cash: "oi_notional_try i \<le> max 0 (pt_cash_try (pp_snapshot (oe_plan env))) * dec_slack ^ 5"
      using max_spend_limit_le(2) [of "oe_settings env" "oe_plan env" c a] by (intro up) auto
    have "oi_notional_try i \<le> ob_max_notional_per_order_try (oe_settings env) * dec_slack ^ 5" if "0 < ob_max_notional_per_order_try (oe_settings env)"
      using max_spend_limit_le(4) [OF that] that by (intro up) auto
    then show ?thesis
      using cash cost(2-5) tick rules buy_intent_symbol [OF b] True assms(4) by (simp add: admissible_order_def order_gridded_def)
  next
    case False
    then have "sell_intent env a rules price = Inr i" using built by simp
    note s = sell_intent_ok [OF this assms(3) price]
    show ?thesis using s tick rules False unfolding admissible_order_def order_gridded_def by auto
  qed
qed

lemma build_step_cases:
  assumes "build_step env mode st a = Inr st'"
  obtains (none) "st' = st"
    | (skip) i where "oi_skipped i" "st' = (fst st @ [i], snd st)"
    | (built) i where "build_action_intent env (snd st) a = Inr i" "st' = (fst st @ [i], pay_cap (snd st) i)"
        "\<not> (mode = REDUCE_RISK_ONLY \<and> rb_side a = BUY)"
proof -
  have "st' = st \<or> (\<exists>i. oi_skipped i \<and> st' = (fst st @ [i], snd st))
    \<or> (\<exists>i. build_action_intent env (snd st) a = Inr i \<and> st' = (fst st @ [i], pay_cap (snd st) i) \<and> \<not> (mode = REDUCE_RISK_ONLY \<and> rb_side a = BUY))"
    using assms unfolding build_step_def Let_def by (auto simp: rbind_eq_Inr_iff split: if_split_asm option.split_asm)
  then show thesis using none skip built by blast
qed

lemma build_step_admissible:
  assumes "rules_trusted env" "mode \<noteq> OBSERVE_ONLY" "build_step env mode st a = Inr st'"
    and "\<forall>i \<in> set (fst st). oi_skipped i \<or> admissible_order env mode i"
  shows "\<forall>i \<in> set (fst st'). oi_skipped i \<or> admissible_order env mode i"
  using assms(3)
proof (cases rule: build_step_cases)
  case (built i)
  have "mode = NORMAL" if "rb_side a = BUY" using that built(3) assms(2) by (cases mode) auto
  then have "oi_skipped i \<or> admissible_order env mode i" using build_action_admissible [OF assms(1) built(1)] by blast
  then show ?thesis using assms(4) built(2) by auto
qed (use assms(4) in auto)

lemma admissible_on_grid:
  assumes "rules_trusted env" "admissible_order env mode i"
  shows "\<exists>rules n m. symbol_rules_of env (oi_symbol i) = Some rules
    \<and> oi_price_try i = dmul (of_int n) (xr_tick_size rules) \<and> oi_qty i = dmul (of_int m) (xr_lot_size rules)"
proof -
  obtain rules where rules: "symbol_rules_of env (oi_symbol i) = Some rules" "order_gridded rules (oi_price_try i) (oi_qty i)"
    using assms(2) by (auto simp: admissible_order_def split: option.splits)
  then have "is_valid_rules rules"
    using assms(1) by (auto simp: rules_trusted_def symbol_rules_of_def split: sum.splits)
  then show ?thesis using rules by (auto simp: order_gridded_def on_step_def is_valid_rules_def)
qed

text \<open>(C24) Every order the builder emits is admissible: with the rules that its symbol has, the price is a positive
  multiple of the tick and the quantity one of the lot, each up to one decimal rounding, the quantity is
  between its bounds and the notional at least the minimum; a purchase is emitted in NORMAL mode only and costs
  at most the available cash and the cap per order (up to five decimal roundings), a sale is within the free
  balance of the base asset (up to two), and OBSERVE_ONLY emits nothing.\<close>

theorem built_orders_admissible:
  assumes "rules_trusted env" "build_intents env mode = Inr intents"
  shows "(mode = OBSERVE_ONLY \<longrightarrow> intents = [])
    \<and> (\<forall>i \<in> set intents. oi_skipped i \<or> admissible_order env mode i
         \<and> (\<exists>rules n m. symbol_rules_of env (oi_symbol i) = Some rules
              \<and> oi_price_try i = dmul (of_int n) (xr_tick_size rules) \<and> oi_qty i = dmul (of_int m) (xr_lot_size rules)))"
proof (cases "mode = OBSERVE_ONLY")
  case True
  then show ?thesis using assms(2) by (simp add: build_intents_def)
next
  case False
  then obtain st where st: "rfold (build_step env mode) ([], ob_notional_cap_try_per_cycle (oe_settings env))
      (sort_key (\<lambda>a. (side_rank (rb_side a), normalize_symbol (rb_symbol a))) (pp_actions (oe_plan env))) = Inr st" "intents = fst st"
    using assms(2) by (auto simp: build_intents_def rbind_eq_Inr_iff)
  have "\<forall>i \<in> set (fst st). oi_skipped i \<or> admissible_order env mode i"
    by (rule rfold_invariant [OF st(1)]) (use build_step_admissible [OF assms(1) False] in auto)
  moreover have "\<exists>rules n m. symbol_rules_of env (oi_symbol i) = Some rules
      \<and> oi_price_try i = dmul (of_int n) (xr_tick_size rules) \<and> oi_qty i = dmul (of_int m) (xr_lot_size rules)"
    if "admissible_order env mode i" for i
    using that admissible_on_grid [OF assms(1)] by blast
  ultimately show ?thesis using False st(2) by blast
qed

subsection \<open>The cap of a cycle\<close>

definition bought :: "order_intent list \<Rightarrow> rat" where
  "bought is = (\<Sum>i \<leftarrow> filter (\<lambda>i. oi_side i = ''BUY'' \<and> \<not> oi_skipped i) is. oi_notional_try i)"

lemma bought_simps:
  "bought [] = 0"
  "bought (is @ [i]) = bought is + (if oi_side i = ''BUY'' \<and> \<not> oi_skipped i then oi_notional_try i else 0)"
  by (simp_all add: bought_def)

text \<open>With a rounding buffer above the decimal precision a purchase never uses up the rest of the cap.\<close>

lemma buy_below_rest:
  assumes "rules_trusted env" "build_action_intent env c a = Inr i" "\<not> oi_skipped i" "oi_side i = ''BUY''"
    and "0 < c" "fits c" "0 < ob_rounding_buffer_try (oe_settings env)" "c \<le> ob_rounding_buffer_try (oe_settings env) * 10 ^ 20"
  shows "0 \<le> oi_notional_try i" "oi_notional_try i < c"
  using assms(2,3)
proof (atomize (full), rule priced_cases)
  fix rules price
  assume price: "0 < price"
    and built: "if rb_side a = BUY then buy_intent env c a rules price = Inr i else sell_intent env a rules price = Inr i"
  define b where "b = ob_rounding_buffer_try (oe_settings env)"
  have "rb_side a = BUY"
  proof (rule ccontr)
    assume n: "rb_side a \<noteq> BUY"
    then have "sell_intent env a rules price = Inr i" using built by simp
    from sell_intent_ok(2) [OF this assms(3) price] have "side_name (rb_side a) = ''BUY''" unfolding assms(4) by (rule sym)
    then show False using n by (simp only: side_name_BUY)
  qed
  then have buy: "buy_intent env c a rules price = Inr i" using built by simp
  note cost = buy_intent_cost [OF buy assms(3) price]
  define f where "f = dsub 1 (resolve_fee_buffer (oe_settings env))"
  define L where "L = max_spend_limit (oe_settings env) (oe_plan env) c a"
  have "dmul L f \<le> dmul c f" using max_spend_limit_le(3) [OF assms(5)] fee_share_bounds(1) by (auto simp: L_def f_def intro: dmul_mono)
  also have "\<dots> \<le> c" using assms(5,6) fee_share_bounds by (intro dmul_le) (auto simp: f_def)
  finally have "dsub (dmul L f) b \<le> dsub c b" by (intro dsub_mono) auto
  then have "max_spend_after_buffers (oe_settings env) (oe_plan env) c a rules price \<le> max 0 (dsub c b)"
    using assms(7) by (simp add: max_spend_after_buffers_def L_def f_def b_def resolve_rounding_buffer_try_def)
  also have "\<dots> \<le> max 0 (c - b) * dec_slack"
    using drnd_upper [of "c - b"] dsub_nonneg_iff [of c b] by (cases "b \<le> c") (auto simp: dsub_def max_def)
  finally have "oi_notional_try i \<le> max 0 (c - b) * dec_slack * dec_slack ^ 4"
    using cost(1) by (meson dec_slack_ge_1(2) mult_right_mono order_trans zero_le_power)
  then have n: "oi_notional_try i \<le> max 0 (c - b) * dec_slack ^ 5" by (simp add: eval_nat_numeral ac_simps)
  have "(c - b) * dec_slack ^ 5 < c" if "b \<le> c"
  proof -
    have s: "dec_slack ^ 5 - 1 < 1 / 10 ^ 20" by (simp add: dec_slack_def field_simps)
    have "c * (dec_slack ^ 5 - 1) \<le> b * 10 ^ 20 * (dec_slack ^ 5 - 1)" using assms(8) by (intro mult_right_mono) (auto simp: b_def)
    also have "\<dots> < b" using s assms(7) by (simp add: b_def field_simps)
    also have "\<dots> \<le> b * dec_slack ^ 5" using mult_left_mono [of 1 "dec_slack ^ 5" b] assms(7) by (simp add: b_def)
    finally show ?thesis by (simp add: algebra_simps)
  qed
  then have "max 0 (c - b) * dec_slack ^ 5 < c" using assms(5) by (cases "b \<le> c") auto
  moreover have "0 \<le> oi_notional_try i" using cost(2,3) price by (simp add: order_within_def dec_sign)
  ultimately show "0 \<le> oi_notional_try i \<and> oi_notional_try i < c" using n by linarith
qed

definition cap_ok :: "dec \<Rightarrow> nat \<Rightarrow> order_intent list \<times> dec \<Rightarrow> bool" where
  "cap_ok cap n st \<longleftrightarrow> 0 < snd st \<and> snd st \<le> cap \<and> fits (snd st) \<and> 0 \<le> bought (fst st)
     \<and> bought (fst st) + snd st \<le> cap * dec_slack ^ n"

lemma build_step_cap:
  assumes "rules_trusted env" "build_step env mode st a = Inr st'" "cap_ok cap n st"
    and "0 < ob_rounding_buffer_try (oe_settings env)" "cap \<le> ob_rounding_buffer_try (oe_settings env) * 10 ^ 20"
  shows "cap_ok cap (Suc n) st'"
proof -
  have c: "0 < snd st" "snd st \<le> cap" "fits (snd st)" "0 \<le> bought (fst st)" "bought (fst st) + snd st \<le> cap * dec_slack ^ n"
    using assms(3) by (auto simp: cap_ok_def)
  have up: "bought (fst st) + snd st \<le> cap * dec_slack ^ Suc n" using c by (intro slack_step_up) auto
  show ?thesis
    using assms(2)
  proof (cases rule: build_step_cases)
    case (built i)
    show ?thesis
    proof (cases "oi_side i = ''BUY'' \<and> \<not> oi_skipped i")
      case True
      note less = buy_below_rest [OF assms(1) built(1) _ _ c(1,3) assms(4)]
      have l: "0 \<le> oi_notional_try i" "oi_notional_try i < snd st" using less True c(2) assms(5) by auto
      have rem: "0 < dsub (snd st) (oi_notional_try i)" "dsub (snd st) (oi_notional_try i) \<le> snd st"
        using l c(3) by (auto simp: dec_sign dsub_le)
      have "bought (fst st) + oi_notional_try i + dsub (snd st) (oi_notional_try i) \<le> cap * dec_slack ^ Suc n"
        using l c by (intro spend_turnover) auto
      then show ?thesis using True built(2) c rem l by (simp add: cap_ok_def bought_simps pay_cap_def)
    next
      case False
      then show ?thesis using built(2) c up by (auto simp: cap_ok_def bought_simps pay_cap_def)
    qed
  qed (use c up in \<open>auto simp: cap_ok_def bought_simps\<close>)
qed

lemma build_loop_cap:
  assumes "rules_trusted env" "rfold (build_step env mode) st xs = Inr st'" "cap_ok cap n st"
    and "0 < ob_rounding_buffer_try (oe_settings env)" "cap \<le> ob_rounding_buffer_try (oe_settings env) * 10 ^ 20"
  shows "cap_ok cap (n + length xs) st'"
  using assms(2,3)
proof (induction xs arbitrary: st n)
  case (Cons a xs)
  then obtain st1 where st1: "build_step env mode st a = Inr st1" "rfold (build_step env mode) st1 xs = Inr st'"
    by (auto simp: rbind_eq_Inr_iff)
  show ?case using Cons.IH [OF st1(2) build_step_cap [OF assms(1) st1(1) Cons.prems(2) assms(4,5)]] by simp
qed simp

text \<open>The purchases of a cycle keep its cap: with a positive cap and a rounding buffer above the decimal
  precision, the notionals of all purchases emitted for a plan add up to at most
  notional_cap_try_per_cycle, up to one decimal rounding per action.\<close>

theorem cycle_cap_kept:
  assumes "rules_trusted env" "build_intents env mode = Inr intents"
    and "0 < ob_notional_cap_try_per_cycle (oe_settings env)" "fits (ob_notional_cap_try_per_cycle (oe_settings env))"
    and "0 < ob_rounding_buffer_try (oe_settings env)"
    and "ob_notional_cap_try_per_cycle (oe_settings env) \<le> ob_rounding_buffer_try (oe_settings env) * 10 ^ 20"
  shows "bought intents \<le> ob_notional_cap_try_per_cycle (oe_settings env) * dec_slack ^ length (pp_actions (oe_plan env))"
proof (cases "mode = OBSERVE_ONLY")
  case True
  then show ?thesis using assms(2,3) by (simp add: build_intents_def bought_simps)
next
  case False
  let ?cap = "ob_notional_cap_try_per_cycle (oe_settings env)"
  let ?xs = "sort_key (\<lambda>a. (side_rank (rb_side a), normalize_symbol (rb_symbol a))) (pp_actions (oe_plan env))"
  obtain st where st: "rfold (build_step env mode) ([], ?cap) ?xs = Inr st" "intents = fst st"
    using assms(2) False by (auto simp: build_intents_def rbind_eq_Inr_iff)
  have "cap_ok ?cap 0 ([], ?cap)" using assms(3,4) by (simp add: cap_ok_def bought_simps)
  from build_loop_cap [OF assms(1) st(1) this assms(5,6)]
  show ?thesis using st(2) by (auto simp: cap_ok_def)
qed

subsection \<open>An example\<close>

definition demo_order_rules :: ex_rules where
  "demo_order_rules = \<lparr>xr_tick_size = 1 / 100, xr_lot_size = 1 / 100, xr_min_notional_try = 10, xr_min_qty = None, xr_max_qty = None,
     xr_price_precision = 2, xr_qty_precision = 2\<rparr>"

definition demo_builder_env :: builder_env where
  "demo_builder_env =
     \<lparr>oe_printer = \<lparr>pn_dec = (\<lambda>_. []), pn_time = (\<lambda>_. []), pn_reason = (\<lambda>_. []), pn_hash = id\<rparr>,
      oe_settings = \<lparr>ob_offset_bps = 0, ob_notional_cap_try_per_cycle = 400, ob_spot_sell_requires_inventory = True,
        ob_min_order_notional_try = 10, ob_max_notional_per_order_try = 0, ob_fee_buffer_ratio = 1 / 100, ob_allocation_fee_buffer_bps = 0,
        ob_rounding_buffer_try = 1\<rparr>,
      oe_cycle_id = ''c'', oe_now = 0,
      oe_plan = \<lparr>pp_timestamp = 0, pp_universe = [], pp_cash_target_try = 0, pp_allocations = [],
        pp_actions = [\<lparr>rb_symbol = ''ETHTRY'', rb_side = BUY, rb_target_notional_try = 500, rb_est_qty = 5, rb_reason = Underweight 0 500 0\<rparr>,
          \<lparr>rb_symbol = ''BTCTRY'', rb_side = SELL, rb_target_notional_try = 300, rb_est_qty = 3, rb_reason = Overweight 300 0 0\<rparr>],
        pp_snapshot = \<lparr>pt_cash_try = 1000, pt_positions = [], pt_equity_try = 1000\<rparr>, pp_balances = [(''BTC'', (2, 0))],
        pp_planned_turnover_try = 0, pp_target_weights = [], pp_notes = []\<rparr>,
      oe_marks = [(''ETHTRY'', 100), (''BTCTRY'', 100)],
      oe_resolve = (\<lambda>s. Inr \<lparr>rx_symbol = s, rx_status = ROk, rx_rules = Some demo_order_rules, rx_reason = None\<rparr>), oe_unavailable = []\<rparr>"

lemma demo_build:
  "map_sum id (map (\<lambda>i. (oi_side i, oi_skipped i, oi_price_try i, oi_qty i, oi_notional_try i))) (build_intents demo_builder_env NORMAL)
     = Inr [(''SELL'', False, 100, 2, 200), (''BUY'', False, 100, 395 / 100, 395)]"
  by code_simp

lemma demo_trusted: "rules_trusted demo_builder_env"
  by (simp add: rules_trusted_def demo_builder_env_def demo_order_rules_def is_valid_rules_def)

definition demo_intents :: "order_intent list" where
  "demo_intents = projr (build_intents demo_builder_env NORMAL)"

lemma demo_intents: "build_intents demo_builder_env NORMAL = Inr demo_intents"
  using demo_build unfolding demo_intents_def by (cases "build_intents demo_builder_env NORMAL") auto

theorem built_orders_admissible_witness:
  "\<exists>s b. demo_intents = [s, b] \<and> admissible_order demo_builder_env NORMAL s \<and> admissible_order demo_builder_env NORMAL b"
proof -
  have "map (\<lambda>i. (oi_side i, oi_skipped i, oi_price_try i, oi_qty i, oi_notional_try i)) demo_intents
      = [(''SELL'', False, 100, 2, 200), (''BUY'', False, 100, 395 / 100, 395)]"
    using demo_build unfolding demo_intents by simp
  then obtain s b where sb: "demo_intents = [s, b]" "\<not> oi_skipped s" "\<not> oi_skipped b" by (auto simp: map_eq_Cons_conv)
  have "\<forall>i \<in> set [s, b]. oi_skipped i \<or> admissible_order demo_builder_env NORMAL i"
    using built_orders_admissible [OF demo_trusted demo_intents] unfolding sb(1) by blast
  then have "admissible_order demo_builder_env NORMAL s" "admissible_order demo_builder_env NORMAL b" using sb(2,3) by simp_all
  then show ?thesis using sb(1) by blast
qed

theorem cycle_cap_kept_witness: "bought demo_intents \<le> 400 * dec_slack ^ 2"
proof -
  have "fits (400 :: rat)" using fits_of_int [of 400] by simp
  then have "bought demo_intents \<le> ob_notional_cap_try_per_cycle (oe_settings demo_builder_env)
      * dec_slack ^ length (pp_actions (oe_plan demo_builder_env))"
    by (intro cycle_cap_kept [OF demo_trusted demo_intents]) (simp_all add: demo_builder_env_def)
  then show ?thesis by (simp add: demo_builder_env_def eval_nat_numeral)
qed

end
