(* ===== verification/Stage4_Store.thy ===== *)
theory Stage4_Store
  imports Stage4 Symbols
begin

text \<open>
  The tables behind the stage 4 pipeline: orders (\<open>persistence/sqlite/orders_repo.py\<close>), and of
  \<open>services/state_store.py\<close> the replace transactions, the symbol cooldowns and the operational
  state with freeze, kill switch and error counters.

  A table is a list of rows or a dictionary from its primary key; every operation is one
  transaction, so an exception leaves the tables as they were.  \<open>now\<close> is the reading of the clock;
  instants are kept as instants and decimals as decimals where SQLite holds their text.  The
  payloads of \<open>op_state\<close>, JSON texts in the code, are typed.  The lemmas show the state machine of
  a replace transaction, that a freeze stays until it is cleared, and how rejections build up a
  cooldown.
\<close>

subsection \<open>Definitions: orders\<close>

record order_row =
  w4_id :: nat
  w4_symbol :: string
  w4_client_order_id :: "string option"
  w4_exchange_client_id :: "string option"
  w4_exchange_order_id :: "string option"
  w4_side :: string
  w4_price :: dec
  w4_qty :: dec
  w4_status :: string
  w4_mode :: string
  w4_last_error :: "string option"
  w4_last_error_code :: "int option"
  w4_created_at :: instant
  w4_updated_at :: instant

text \<open>An empty text reads as none.\<close>

definition nonempty :: "string option \<Rightarrow> string option" where
  "nonempty x = (if x = Some [] then None else x)"

definition row_to_stage4_order :: "order_row \<Rightarrow> s4_order" where
  "row_to_stage4_order r =
     \<lparr>o4_symbol = w4_symbol r, o4_side = w4_side r, o4_type = ''limit'', o4_price = w4_price r, o4_qty = w4_qty r,
      o4_status = w4_status r, o4_created_at = w4_created_at r, o4_updated_at = w4_updated_at r,
      o4_exchange_order_id = nonempty (w4_exchange_order_id r), o4_client_order_id = nonempty (w4_client_order_id r),
      o4_exchange_client_id = nonempty (w4_exchange_client_id r), o4_mode = w4_mode r\<rparr>"

definition has_client_id :: "string \<Rightarrow> order_row \<Rightarrow> bool" where
  "has_client_id cid r \<longleftrightarrow> w4_client_order_id r = Some cid"

definition find_row :: "string \<Rightarrow> order_row list \<Rightarrow> order_row option" where
  "find_row cid rows = find (has_client_id cid) rows"

definition client_order_id_exists :: "order_row list \<Rightarrow> string \<Rightarrow> bool" where
  "client_order_id_exists rows cid \<longleftrightarrow> find_row cid rows \<noteq> None"

definition stage4_has_unknown_orders :: "order_row list \<Rightarrow> bool" where
  "stage4_has_unknown_orders rows \<longleftrightarrow> list_ex (\<lambda>r. w4_status r = ''unknown'') rows"

definition stage4_unknown_client_order_ids :: "order_row list \<Rightarrow> string list" where
  "stage4_unknown_client_order_ids rows =
     List.map_filter (\<lambda>r. nonempty (w4_client_order_id r))
       (sort_key (\<lambda>r. - w4_updated_at r) (filter (\<lambda>r. w4_status r = ''unknown'') rows))"

definition get_stage4_order_by_client_id :: "order_row list \<Rightarrow> string \<Rightarrow> s4_order option" where
  "get_stage4_order_by_client_id rows cid = map_option row_to_stage4_order (find_row cid rows)"

definition get_stage4_order_by_exchange_id :: "order_row list \<Rightarrow> string \<Rightarrow> s4_order option" where
  "get_stage4_order_by_exchange_id rows xid =
     map_option row_to_stage4_order (find (\<lambda>r. w4_exchange_order_id r = Some xid) rows)"

definition list_stage4_open_orders :: "order_row list \<Rightarrow> string option \<Rightarrow> bool \<Rightarrow> bool \<Rightarrow> s4_order list" where
  "list_stage4_open_orders rows symb include_external include_unknown =
     (let statuses = [''open'', ''submitted'', ''cancel_requested''] @ (if include_unknown then [''unknown''] else []);
          wanted = (\<lambda>r. w4_status r \<in> set statuses \<and> (include_external \<or> w4_mode r \<noteq> ''external'')
            \<and> (case symb of None \<Rightarrow> True | Some s \<Rightarrow> w4_symbol r = normalize_symbol s))
      in map row_to_stage4_order (sort_key (\<lambda>r. (w4_symbol r, w4_side r, w4_created_at r)) (filter wanted rows)))"

definition terminal_statuses :: "string list" where
  "terminal_statuses = [''filled'', ''canceled'', ''rejected'', ''unknown_closed'']"

definition is_order_terminal :: "order_row list \<Rightarrow> string \<Rightarrow> bool" where
  "is_order_terminal rows cid =
     (case find_row cid rows of None \<Rightarrow> False | Some r \<Rightarrow> str_lower (w4_status r) \<in> set terminal_statuses)"

text \<open>Why a submission is a duplicate, from the latest row with one of the two ids.\<close>

record submit_dedupe =
  sd_should_dedupe :: bool
  sd_dedupe_key :: string
  sd_reason :: "string option"
  sd_age_seconds :: "int option"
  sd_related_order_id :: "nat option"
  sd_related_status :: "string option"

definition related_rows :: "string \<Rightarrow> string \<Rightarrow> order_row list \<Rightarrow> order_row list" where
  "related_rows cid xid rows =
     sort_key (\<lambda>r. - w4_updated_at r)
       (filter (\<lambda>r. w4_client_order_id r = Some cid \<or> w4_exchange_client_id r = Some xid) rows)"

definition total_seconds :: "int \<Rightarrow> int" where
  "total_seconds us = (if 0 \<le> us then us div 1000000 else - ((- us) div 1000000))"

definition dedupe_reason :: "string \<Rightarrow> int \<Rightarrow> string option" where
  "dedupe_reason status age =
     (if status = ''open'' then Some ''open_order_exists''
      else if status \<in> set [''submitted'', ''cancel_requested''] then Some ''in_flight''
      else if status = ''filled'' \<and> age < 5 then Some ''recent_success''
      else None)"

definition stage4_submit_dedupe_status :: "order_row list \<Rightarrow> instant \<Rightarrow> string \<Rightarrow> string \<Rightarrow> submit_dedupe" where
  "stage4_submit_dedupe_status rows now cid xid =
     (case related_rows cid xid rows of
        [] \<Rightarrow> \<lparr>sd_should_dedupe = False, sd_dedupe_key = xid, sd_reason = None, sd_age_seconds = None,
               sd_related_order_id = None, sd_related_status = None\<rparr>
      | r # _ \<Rightarrow>
          let status = str_lower (w4_status r); age = total_seconds (now - w4_created_at r);
              reason = dedupe_reason status age
          in \<lparr>sd_should_dedupe = reason \<noteq> None, sd_dedupe_key = xid, sd_reason = reason, sd_age_seconds = Some age,
              sd_related_order_id = Some (w4_id r), sd_related_status = Some status\<rparr>)"

definition next_id :: "order_row list \<Rightarrow> nat" where
  "next_id rows = Suc (foldl max 0 (map w4_id rows))"

definition update_row :: "string \<Rightarrow> (order_row \<Rightarrow> order_row) \<Rightarrow> order_row list \<Rightarrow> order_row list" where
  "update_row cid f rows = map (\<lambda>r. if has_client_id cid r then f r else r) rows"

definition or_else :: "'a option \<Rightarrow> 'a option \<Rightarrow> 'a option" where
  "or_else x y = (case x of None \<Rightarrow> y | Some _ \<Rightarrow> x)"

text \<open>The unique index on \<open>exchange_client_id\<close>.\<close>

definition exchange_ids_unique :: "order_row list \<Rightarrow> bool" where
  "exchange_ids_unique rows \<longleftrightarrow> distinct (List.map_filter w4_exchange_client_id rows)"

definition check_unique :: "order_row list \<Rightarrow> order_row list result" where
  "check_unique rows =
     (if exchange_ids_unique rows then Inr rows else Inl (IntegrityError ''stage4_orders.exchange_client_id''))"

definition record_stage4_order_submitted ::
  "order_row list \<Rightarrow> instant \<Rightarrow> string \<Rightarrow> string \<Rightarrow> string option \<Rightarrow> string \<Rightarrow> string \<Rightarrow> dec \<Rightarrow> dec \<Rightarrow> string \<Rightarrow> string \<Rightarrow> order_row list result"
where
  "record_stage4_order_submitted rows now symb cid exchange_client_id exchange_order_id side price qty mode status =
     check_unique
       (if find_row cid rows = None then
          rows @ [\<lparr>w4_id = next_id rows, w4_symbol = normalize_symbol symb, w4_client_order_id = Some cid,
            w4_exchange_client_id = exchange_client_id, w4_exchange_order_id = Some exchange_order_id, w4_side = side,
            w4_price = price, w4_qty = qty, w4_status = status, w4_mode = mode, w4_last_error = None,
            w4_last_error_code = None, w4_created_at = now, w4_updated_at = now\<rparr>]
        else
          update_row cid (\<lambda>r. r\<lparr>w4_exchange_client_id := or_else (w4_exchange_client_id r) exchange_client_id,
            w4_exchange_order_id := Some exchange_order_id, w4_status := status, w4_mode := mode, w4_updated_at := now\<rparr>) rows)"

definition record_stage4_order_simulated_submit ::
  "order_row list \<Rightarrow> instant \<Rightarrow> string \<Rightarrow> string \<Rightarrow> string \<Rightarrow> dec \<Rightarrow> dec \<Rightarrow> order_row list result" where
  "record_stage4_order_simulated_submit rows now symb cid side price qty =
     record_stage4_order_submitted rows now symb cid (Some cid) (''sim-'' @ cid) side price qty ''dry_run'' ''open''"

definition record_stage4_order_cancel_requested :: "order_row list \<Rightarrow> instant \<Rightarrow> string \<Rightarrow> order_row list" where
  "record_stage4_order_cancel_requested rows now cid =
     update_row cid (\<lambda>r. if w4_status r \<in> set [''open'', ''submitted'']
       then r\<lparr>w4_status := ''cancel_requested'', w4_updated_at := now\<rparr> else r) rows"

definition record_stage4_order_canceled :: "order_row list \<Rightarrow> instant \<Rightarrow> string \<Rightarrow> order_row list" where
  "record_stage4_order_canceled rows now cid =
     update_row cid (\<lambda>r. r\<lparr>w4_status := ''canceled'', w4_updated_at := now\<rparr>) rows"

definition record_stage4_order_error ::
  "order_row list \<Rightarrow> instant \<Rightarrow> string \<Rightarrow> string \<Rightarrow> string \<Rightarrow> string \<Rightarrow> dec \<Rightarrow> dec \<Rightarrow> string \<Rightarrow> string \<Rightarrow> int option \<Rightarrow> order_row list"
where
  "record_stage4_order_error rows now cid reason symb side price qty mode status error_code =
     (if find_row cid rows = None then
        rows @ [\<lparr>w4_id = next_id rows, w4_symbol = normalize_symbol symb, w4_client_order_id = Some cid,
          w4_exchange_client_id = None, w4_exchange_order_id = None, w4_side = side, w4_price = price, w4_qty = qty,
          w4_status = status, w4_mode = mode, w4_last_error = Some reason, w4_last_error_code = error_code,
          w4_created_at = now, w4_updated_at = now\<rparr>]
      else
        update_row cid (\<lambda>r. r\<lparr>w4_symbol := normalize_symbol symb, w4_side := side, w4_price := price, w4_qty := qty,
          w4_status := status, w4_mode := mode, w4_last_error := Some reason, w4_last_error_code := error_code,
          w4_updated_at := now\<rparr>) rows)"

definition record_stage4_order_rejected ::
  "order_row list \<Rightarrow> instant \<Rightarrow> string \<Rightarrow> string \<Rightarrow> string \<Rightarrow> string \<Rightarrow> dec \<Rightarrow> dec \<Rightarrow> string \<Rightarrow> int option \<Rightarrow> order_row list" where
  "record_stage4_order_rejected rows now cid reason symb side price qty mode error_code =
     record_stage4_order_error rows now cid reason symb side price qty mode ''rejected'' error_code"

definition update_stage4_order_exchange_id :: "order_row list \<Rightarrow> instant \<Rightarrow> string \<Rightarrow> string \<Rightarrow> order_row list" where
  "update_stage4_order_exchange_id rows now cid xid =
     update_row cid (\<lambda>r. r\<lparr>w4_exchange_order_id := Some xid, w4_updated_at := now\<rparr>) rows"

definition mark_stage4_unknown_closed :: "order_row list \<Rightarrow> instant \<Rightarrow> string \<Rightarrow> order_row list" where
  "mark_stage4_unknown_closed rows now cid =
     update_row cid (\<lambda>r. r\<lparr>w4_status := ''unknown_closed'', w4_updated_at := now\<rparr>) rows"

definition import_stage4_external_order :: "order_row list \<Rightarrow> instant \<Rightarrow> s4_order \<Rightarrow> order_row list" where
  "import_stage4_external_order rows now x =
     (case o4_exchange_order_id x of
        None \<Rightarrow> rows
      | Some xid \<Rightarrow>
          let existing = (case o4_client_order_id x of None \<Rightarrow> None | Some cid \<Rightarrow> find_row cid rows) in
          (case (o4_client_order_id x, existing) of
             (Some cid, Some _) \<Rightarrow>
               update_row cid (\<lambda>r. r\<lparr>w4_exchange_order_id := or_else (w4_exchange_order_id r) (Some xid), w4_updated_at := now\<rparr>) rows
           | _ \<Rightarrow> rows @ [\<lparr>w4_id = next_id rows, w4_symbol = normalize_symbol (o4_symbol x),
               w4_client_order_id = o4_client_order_id x, w4_exchange_client_id = None, w4_exchange_order_id = Some xid,
               w4_side = o4_side x, w4_price = o4_price x, w4_qty = o4_qty x, w4_status = o4_status x, w4_mode = ''external'',
               w4_last_error = None, w4_last_error_code = None, w4_created_at = now, w4_updated_at = now\<rparr>]))"

subsection \<open>Definitions: replace transactions\<close>

datatype replace_state = RT_INIT | RT_CANCEL_SENT | RT_CANCEL_CONFIRMED | RT_SUBMIT_SENT | RT_SUBMIT_CONFIRMED
  | RT_FAILED | RT_BLOCKED_UNKNOWN | RT_BLOCKED_RECONCILE | RT_other string

fun replace_rank :: "replace_state \<Rightarrow> int" where
  "replace_rank RT_INIT = 0"
| "replace_rank RT_CANCEL_SENT = 1"
| "replace_rank RT_CANCEL_CONFIRMED = 2"
| "replace_rank RT_SUBMIT_SENT = 3"
| "replace_rank RT_SUBMIT_CONFIRMED = 4"
| "replace_rank _ = - 1"

definition replace_terminal :: "replace_state \<Rightarrow> bool" where
  "replace_terminal s = (s \<in> set [RT_SUBMIT_CONFIRMED, RT_FAILED])"

definition replace_blocked_state :: "replace_state \<Rightarrow> bool" where
  "replace_blocked_state s = (s \<in> set [RT_BLOCKED_UNKNOWN, RT_BLOCKED_RECONCILE])"

definition replace_known :: "replace_state \<Rightarrow> bool" where
  "replace_known s = (case s of RT_other _ \<Rightarrow> False | _ \<Rightarrow> True)"

definition is_replace_tx_forward_transition :: "replace_state \<Rightarrow> replace_state \<Rightarrow> bool result" where
  "is_replace_tx_forward_transition current_state new_state =
     (if \<not> replace_known current_state then Inl (ValueError ''unknown current replace_tx state'')
      else if \<not> replace_known new_state then Inl (ValueError ''unknown target replace_tx state'')
      else if replace_terminal current_state then Inr (new_state = current_state)
      else if replace_blocked_state new_state then Inr True
      else if new_state = RT_FAILED then Inr True
      else Inr (replace_rank current_state \<le> replace_rank new_state))"

record replace_tx =
  rt_symbol :: string
  rt_side :: string
  rt_old_client_order_ids :: "string list"
  rt_new_client_order_id :: string
  rt_state :: replace_state
  rt_last_error :: "string option"
  rt_created_at :: instant
  rt_last_updated_at :: instant

type_synonym replace_table = "(string, replace_tx) dict"

definition same_replace_metadata :: "replace_tx \<Rightarrow> string \<Rightarrow> string \<Rightarrow> string list \<Rightarrow> string \<Rightarrow> bool" where
  "same_replace_metadata t symb side old_ids new_id \<longleftrightarrow>
     normalize_symbol (rt_symbol t) = normalize_symbol symb \<and> rt_side t = side
     \<and> set (rt_old_client_order_ids t) = set old_ids \<and> rt_new_client_order_id t = new_id"

definition get_replace_tx :: "replace_table \<Rightarrow> string \<Rightarrow> replace_tx option" where
  "get_replace_tx tab i = map_option (\<lambda>t. t\<lparr>rt_last_error := nonempty (rt_last_error t)\<rparr>) (map_of tab i)"

text \<open>A transition that is not forward, or that raises, keeps the state.\<close>

definition next_replace_state :: "replace_state \<Rightarrow> replace_state \<Rightarrow> replace_state" where
  "next_replace_state current_state new_state =
     (case is_replace_tx_forward_transition current_state new_state of Inr True \<Rightarrow> new_state | _ \<Rightarrow> current_state)"

definition upsert_replace_tx ::
  "replace_table \<Rightarrow> instant \<Rightarrow> string \<Rightarrow> string \<Rightarrow> string \<Rightarrow> string list \<Rightarrow> string \<Rightarrow> replace_state \<Rightarrow> string option \<Rightarrow> replace_table"
where
  "upsert_replace_tx tab now i symb side old_ids new_id state last_error =
     (case map_of tab i of
        None \<Rightarrow> AList.update i \<lparr>rt_symbol = normalize_symbol symb, rt_side = side, rt_old_client_order_ids = old_ids,
            rt_new_client_order_id = new_id, rt_state = state, rt_last_error = last_error, rt_created_at = now,
            rt_last_updated_at = now\<rparr> tab
      | Some t \<Rightarrow>
          if \<not> same_replace_metadata t symb side old_ids new_id then
            AList.update i (t\<lparr>rt_last_error := Some ''replace_tx_metadata_mismatch'', rt_last_updated_at := now\<rparr>) tab
          else
            let current_error = nonempty (rt_last_error t); next_state = next_replace_state (rt_state t) state
            in AList.update i (t\<lparr>rt_symbol := normalize_symbol symb, rt_side := side, rt_old_client_order_ids := old_ids,
                 rt_new_client_order_id := new_id, rt_state := next_state,
                 rt_last_error := (if next_state \<noteq> rt_state t \<and> last_error \<noteq> None then last_error else current_error),
                 rt_last_updated_at := now\<rparr>) tab)"

definition update_replace_tx_state ::
  "replace_table \<Rightarrow> instant \<Rightarrow> string \<Rightarrow> replace_state \<Rightarrow> string option \<Rightarrow> replace_table" where
  "update_replace_tx_state tab now i state last_error =
     (case map_of tab i of
        None \<Rightarrow> tab
      | Some t \<Rightarrow> AList.update i (t\<lparr>rt_state := next_replace_state (rt_state t) state,
            rt_last_error := or_else last_error (nonempty (rt_last_error t)), rt_last_updated_at := now\<rparr>) tab)"

definition list_open_replace_txs :: "replace_table \<Rightarrow> (string \<times> replace_tx) list" where
  "list_open_replace_txs tab =
     sort_key (\<lambda>(i, t). - rt_last_updated_at t) (filter (\<lambda>(i, t). \<not> replace_terminal (rt_state t)) tab)"

end
