(* ===== verification/Execution_Wrapper.thy ===== *)
theory Execution_Wrapper
  imports Retry Stage4
begin

text \<open>
  Calls of the exchange with retries: the classification of exceptions,
  \<open>src/src/btcbot/services/execution_errors.py\<close>, and \<open>ExecutionWrapper\<close>,
  \<open>src/src/btcbot/services/execution_wrapper.py\<close>.

  The exchange client is a parameter: functions on a state of its own.  Every call of it that
  places or cancels an order is recorded.  The seconds of a \<open>Retry-After\<close> header and the random
  numbers of the delays are parameters as in the theory of retries.  The lemmas show that a call
  is made at most as often as the limit of attempts allows, and which outcomes are uncertain.
\<close>

subsection \<open>Definitions: classification\<close>

datatype execution_error_category = EC_RATE_LIMIT | EC_TRANSIENT | EC_AUTH | EC_REJECT | EC_UNCERTAIN | EC_FATAL

text \<open>The search for \<open>(?:status|code)\s*[=:]\s*(\d{3})\<close>.\<close>

definition digit_of :: "char \<Rightarrow> int option" where
  "digit_of c = (let n = (of_char c :: int) in if 48 \<le> n \<and> n \<le> 57 then Some (n - 48) else None)"

definition three_digits :: "string \<Rightarrow> int option" where
  "three_digits s =
     (case map digit_of (take 3 s) of
        [Some a, Some b, Some c] \<Rightarrow> Some (100 * a + 10 * b + c)
      | _ \<Rightarrow> None)"

definition status_after :: "string \<Rightarrow> string \<Rightarrow> int option" where
  "status_after w s =
     (if starts_with s w then
        case dropWhile is_space (drop (length w) s) of
          [] \<Rightarrow> None
        | c # t \<Rightarrow> if c \<in> set ''=:'' then three_digits (dropWhile is_space t) else None
      else None)"

fun status_in_text :: "string \<Rightarrow> int option" where
  "status_in_text [] = None"
| "status_in_text (c # cs) =
     (case status_after ''status'' (c # cs) of
        Some n \<Rightarrow> Some n
      | None \<Rightarrow> (case status_after ''code'' (c # cs) of Some n \<Rightarrow> Some n | None \<Rightarrow> status_in_text cs))"

fun exchange_status :: "exchange_exn \<Rightarrow> int option" where
  "exchange_status (HttpStatusError n) = Some n"
| "exchange_status (ExchangeError status message body code msg) =
     (case status of
        Some n \<Rightarrow> Some n
      | None \<Rightarrow>
          (case status_in_text message of
             Some n \<Rightarrow> Some n
           | None \<Rightarrow> status_in_text (case body of None \<Rightarrow> [] | Some b \<Rightarrow> b)))"
| "exchange_status _ = None"

definition names_breaker :: "string \<Rightarrow> bool" where
  "names_breaker s = (str_lower (str_strip s) = ''breaker_open'')"

fun is_breaker_open_error :: "exchange_exn \<Rightarrow> bool" where
  "is_breaker_open_error BreakerOpenError = True"
| "is_breaker_open_error (ExchangeError status message body code msg) =
     ((case code of Some (Code_str s) \<Rightarrow> names_breaker s | _ \<Rightarrow> False)
      \<or> (case msg of Some s \<Rightarrow> names_breaker s | None \<Rightarrow> False))"
| "is_breaker_open_error _ = False"

definition classify_by_status :: "exchange_exn \<Rightarrow> execution_error_category" where
  "classify_by_status e =
     (let status = exchange_status e in
      if is_breaker_open_error e then EC_RATE_LIMIT
      else if status = Some 429 then EC_RATE_LIMIT
      else if status \<in> set [Some 401, Some 403] then EC_AUTH
      else if (case status of Some n \<Rightarrow> 500 \<le> n | None \<Rightarrow> False) then EC_TRANSIENT
      else if status \<in> set [Some 400, Some 404, Some 409, Some 422] then EC_REJECT
      else if e = HttpTransportError then EC_TRANSIENT
      else if e = BuiltinTimeoutError then EC_UNCERTAIN
      else EC_FATAL)"

fun classify_exchange_error :: "py_error \<Rightarrow> execution_error_category" where
  "classify_exchange_error (ExchangeExn e) =
     (if e = HttpTimeout then EC_UNCERTAIN else if e = HttpNetworkError then EC_TRANSIENT else classify_by_status e)"
| "classify_exchange_error _ = EC_FATAL"

subsection \<open>Definitions: the exchange\<close>

record submit_request =
  sq_symbol :: string
  sq_side :: string
  sq_price :: dec
  sq_qty :: dec
  sq_client_order_id :: string

record 'x exchange_client =
  ex_submit :: "'x \<Rightarrow> submit_request \<Rightarrow> 'x \<times> string result"
  ex_cancel :: "'x \<Rightarrow> string \<Rightarrow> 'x \<times> bool result"
  ex_open_orders :: "'x \<Rightarrow> string \<Rightarrow> 'x \<times> s4_order list result"

datatype exchange_call = Submit_call submit_request "string result" | Cancel_call string "bool result"

text \<open>The state of the exchange with the calls made so far.\<close>

type_synonym 'x wire = "'x \<times> exchange_call list"

definition normalize_submit_kwargs :: "submit_request \<Rightarrow> submit_request result" where
  "normalize_submit_kwargs q =
     (if sq_symbol q = [] then Inl (ValueError ''missing required submit field: symbol'')
      else if sq_side q = [] then Inl (ValueError ''missing required submit field: side'')
      else if sq_client_order_id q = [] then Inl (ValueError ''missing required submit field: client_order_id'')
      else Inr q)"

definition submit_call :: "'x exchange_client \<Rightarrow> submit_request \<Rightarrow> 'x wire \<Rightarrow> 'x wire \<times> string result" where
  "submit_call ex q w =
     (case normalize_submit_kwargs q of
        Inl e \<Rightarrow> (w, Inl e)
      | Inr q' \<Rightarrow> (case ex_submit ex (fst w) q' of (x, r) \<Rightarrow> ((x, snd w @ [Submit_call q' r]), r)))"

definition cancel_call :: "'x exchange_client \<Rightarrow> string \<Rightarrow> 'x wire \<Rightarrow> 'x wire \<times> bool result" where
  "cancel_call ex i w =
     (case ex_cancel ex (fst w) i of (x, r) \<Rightarrow> ((x, snd w @ [Cancel_call i r]), r))"

subsection \<open>Definitions: the wrapper\<close>

record wrapper_config =
  wc_submit_retry_max_attempts :: int
  wc_cancel_retry_max_attempts :: int
  wc_retry_base_delay_ms :: int
  wc_retry_max_delay_ms :: int

definition ExecutionWrapper :: "int \<Rightarrow> int \<Rightarrow> int \<Rightarrow> int \<Rightarrow> wrapper_config" where
  "ExecutionWrapper submit_attempts cancel_attempts base_delay max_delay =
     \<lparr>wc_submit_retry_max_attempts = max 1 submit_attempts, wc_cancel_retry_max_attempts = max 1 cancel_attempts,
      wc_retry_base_delay_ms = max 0 base_delay, wc_retry_max_delay_ms = max (max 0 base_delay) max_delay\<rparr>"

definition default_wrapper :: wrapper_config where
  "default_wrapper = ExecutionWrapper 2 2 250 4000"

datatype 'a outcome = Done 'a | Uncertain py_error

definition wrapped_call :: "('w \<Rightarrow> 'w \<times> 'a result) \<Rightarrow> 'w \<Rightarrow> 'w \<times> 'a result" where
  "wrapped_call fn w =
     (case fn w of
        (w', Inl e) \<Rightarrow> (w', Inl (if classify_exchange_error e \<in> set [EC_RATE_LIMIT, EC_TRANSIENT]
                                then RetryableExecutionError e else e))
      | (w', Inr v) \<Rightarrow> (w', Inr v))"

fun is_retryable :: "py_error \<Rightarrow> bool" where
  "is_retryable (RetryableExecutionError e) = True"
| "is_retryable _ = False"

text \<open>What becomes of an exception once the retries are over.\<close>

definition settle_error :: "bool \<Rightarrow> py_error \<Rightarrow> 'a outcome result" where
  "settle_error is_cancel e =
     (case e of
        RetryableExecutionError u \<Rightarrow>
          (case classify_exchange_error u of
             EC_UNCERTAIN \<Rightarrow> Inr (Uncertain u)
           | EC_RATE_LIMIT \<Rightarrow> if is_cancel then Inr (Uncertain u) else Inl u
           | EC_TRANSIENT \<Rightarrow> if is_cancel then Inr (Uncertain u) else Inl u
           | _ \<Rightarrow> Inl u)
      | _ \<Rightarrow> if classify_exchange_error e = EC_UNCERTAIN then Inr (Uncertain e) else Inl e)"

definition execute_call ::
  "wrapper_config \<Rightarrow> (py_error \<Rightarrow> rat option) \<Rightarrow> (nat \<Rightarrow> rat) \<Rightarrow> bool \<Rightarrow> int \<Rightarrow> ('w \<Rightarrow> 'w \<times> 'a result) \<Rightarrow> 'w \<Rightarrow> 'w \<times> 'a outcome result"
where
  "execute_call cfg after rand is_cancel max_attempts fn w =
     (case retry_with_backoff \<lparr>rc_max_attempts = max_attempts, rc_base_delay_ms = wc_retry_base_delay_ms cfg,
             rc_max_delay_ms = wc_retry_max_delay_ms cfg, rc_max_total_sleep = None\<rparr> is_retryable after rand (wrapped_call fn) w of
        (Inr v, _, _, w') \<Rightarrow> (w', Inr (Done v))
      | (Inl e, _, _, w') \<Rightarrow> (w', settle_error is_cancel e))"

definition wrapper_submit ::
  "wrapper_config \<Rightarrow> (py_error \<Rightarrow> rat option) \<Rightarrow> (nat \<Rightarrow> rat) \<Rightarrow> 'x exchange_client \<Rightarrow> submit_request \<Rightarrow> 'x wire \<Rightarrow>
   'x wire \<times> string outcome result" where
  "wrapper_submit cfg after rand ex q = execute_call cfg after rand False (wc_submit_retry_max_attempts cfg) (submit_call ex q)"

definition wrapper_cancel ::
  "wrapper_config \<Rightarrow> (py_error \<Rightarrow> rat option) \<Rightarrow> (nat \<Rightarrow> rat) \<Rightarrow> 'x exchange_client \<Rightarrow> string \<Rightarrow> 'x wire \<Rightarrow>
   'x wire \<times> bool outcome result" where
  "wrapper_cancel cfg after rand ex i = execute_call cfg after rand True (wc_cancel_retry_max_attempts cfg) (cancel_call ex i)"

subsection \<open>What is called\<close>

text \<open>A call is refused before it reaches the exchange, or recorded with its answer.\<close>

definition logs :: "('a result \<Rightarrow> exchange_call) \<Rightarrow> ('x wire \<Rightarrow> 'x wire \<times> 'a result) \<Rightarrow> bool" where
  "logs mk fn \<longleftrightarrow> (\<forall>w. (\<exists>e. fn w = (w, Inl e) \<and> classify_exchange_error e = EC_FATAL \<and> \<not> is_retryable e)
     \<or> (\<exists>x r. fn w = ((x, snd w @ [mk r]), r)))"

text \<open>The failures after which the call is repeated (the last case is the wrapper's own exception).\<close>

definition passing :: "'a result \<Rightarrow> bool" where
  "passing r \<longleftrightarrow> (\<exists>e. r = Inl e \<and> (classify_exchange_error e \<in> {EC_RATE_LIMIT, EC_TRANSIENT} \<or> is_retryable e))"

lemma logs_submit: "logs (Submit_call q) (submit_call ex q)"
  unfolding logs_def submit_call_def normalize_submit_kwargs_def by (auto split: prod.splits)

lemma logs_cancel: "logs (Cancel_call i) (cancel_call ex i)"
  unfolding logs_def cancel_call_def by (auto split: prod.splits)

lemma wrapped_call_cases:
  assumes "logs mk fn" "wrapped_call fn w = (w', r)"
  obtains (refused) e where "w' = w" "r = Inl e" "\<not> is_retryable e"
  | (called) x r' where "w' = (x, snd w @ [mk r'])"
      "\<And>v. r = Inr v \<longleftrightarrow> r' = Inr v" "retry_failure is_retryable r \<Longrightarrow> passing r'"
proof -
  consider e where "fn w = (w, Inl e)" "classify_exchange_error e = EC_FATAL" "\<not> is_retryable e"
    | x r' where "fn w = ((x, snd w @ [mk r']), r')"
    using assms(1) unfolding logs_def by blast
  then show ?thesis
  proof cases
    case 1
    then have "w' = w" "r = Inl e" using assms(2) by (auto simp: wrapped_call_def)
    then show ?thesis using 1(3) by (rule refused)
  next
    case (2 x r')
    show ?thesis
    proof (rule called)
      show "w' = (x, snd w @ [mk r'])" using assms(2) 2 by (auto simp: wrapped_call_def split: sum.splits)
      show "r = Inr v \<longleftrightarrow> r' = Inr v" for v using assms(2) 2 by (auto simp: wrapped_call_def split: sum.splits)
      show "passing r'" if "retry_failure is_retryable r"
        using assms(2) 2 that by (auto simp: wrapped_call_def passing_def split: sum.splits if_splits elim: is_retryable.elims)
    qed
  qed
qed

lemma nth_wrapped_calls:
  assumes "logs mk fn" "nth_call (wrapped_call fn) w j = (w', r)"
    and "\<forall>i < j. retry_failure is_retryable (snd (nth_call (wrapped_call fn) w i))"
  shows "\<exists>rs. snd w' = snd w @ map mk rs \<and> length rs \<le> Suc j \<and> (\<forall>x \<in> set (butlast rs). passing x)
    \<and> (\<forall>v. r = Inr v \<longrightarrow> rs \<noteq> [] \<and> last rs = Inr v)"
  using assms(2,3)
proof (induction j arbitrary: w)
  case 0
  then have "wrapped_call fn w = (w', r)" by simp
  then show ?case
  proof (cases rule: wrapped_call_cases [OF assms(1), consumes 1, case_names refused called])
    case (refused e)
    then show ?thesis by (intro exI [of _ "[]"]) simp
  next
    case (called x r')
    then show ?thesis by (intro exI [of _ "[r']"]) simp
  qed
next
  case (Suc j)
  obtain w1 r1 where w1: "wrapped_call fn w = (w1, r1)" by (cases "wrapped_call fn w")
  have "retry_failure is_retryable (snd (nth_call (wrapped_call fn) w 0))" using Suc.prems(2) by blast
  then have fail: "retry_failure is_retryable r1" using w1 by simp
  have step: "nth_call (wrapped_call fn) w1 j = (w', r)" using Suc.prems(1) w1 by simp
  have rest: "\<forall>i < j. retry_failure is_retryable (snd (nth_call (wrapped_call fn) w1 i))"
  proof (intro allI impI)
    fix i assume "i < j"
    then have "retry_failure is_retryable (snd (nth_call (wrapped_call fn) w (Suc i)))" using Suc.prems(2) by blast
    then show "retry_failure is_retryable (snd (nth_call (wrapped_call fn) w1 i))" using w1 by simp
  qed
  obtain rs where rs: "snd w' = snd w1 @ map mk rs" "length rs \<le> Suc j" "\<forall>x \<in> set (butlast rs). passing x"
      "\<forall>v. r = Inr v \<longrightarrow> rs \<noteq> [] \<and> last rs = Inr v"
    using Suc.IH [OF step rest] by blast
  from w1 show ?case
  proof (cases rule: wrapped_call_cases [OF assms(1), consumes 1, case_names refused called])
    case (refused e)
    then show ?thesis using fail by simp
  next
    case (called x r')
    then show ?thesis using rs fail by (intro exI [of _ "r' # rs"]) auto
  qed
qed

lemma settle_error_not_Done: "settle_error b e \<noteq> Inr (Done v)"
  by (auto simp: settle_error_def split: py_error.splits execution_error_category.splits)

lemma execute_call_calls:
  assumes "execute_call cfg after rand b n fn w = (w', r)" "logs mk fn"
  shows "\<exists>rs. snd w' = snd w @ map mk rs \<and> length rs \<le> nat n \<and> (\<forall>x \<in> set (butlast rs). passing x)
    \<and> (\<forall>v. r = Inr (Done v) \<longrightarrow> rs \<noteq> [] \<and> last rs = Inr v)"
proof -
  let ?cfg = "\<lparr>rc_max_attempts = n, rc_base_delay_ms = wc_retry_base_delay_ms cfg,
             rc_max_delay_ms = wc_retry_max_delay_ms cfg, rc_max_total_sleep = None\<rparr>"
  obtain r0 atts slept w0 where run: "retry_with_backoff ?cfg is_retryable after rand (wrapped_call fn) w = (r0, atts, slept, w0)"
    by (metis prod_cases4)
  have w0: "w' = w0" "r = Inr (Done v) \<longleftrightarrow> r0 = Inr v" for v
    using assms(1) run by (auto simp: execute_call_def settle_error_not_Done split: sum.splits)
  show ?thesis
  proof (cases "n < 1 \<or> wc_retry_base_delay_ms cfg < 0 \<or> wc_retry_max_delay_ms cfg < 0")
    case True
    then have "w0 = w" "\<And>v. r0 \<noteq> Inr v" using run by (auto simp: retry_with_backoff_def split: if_splits)
    then show ?thesis using w0 by (intro exI [of _ "[]"]) auto
  next
    case False
    then have "retry_loop ?cfg is_retryable after rand (wrapped_call fn) (nat n) 1 (draws_of []) (slept_for []) [] w = (r0, atts, slept, w0)"
      using run by (auto simp: retry_with_backoff_def draws_of_def slept_for_def)
    from retry_loop_spec [OF this] obtain j where j: "j < nat n" "nth_call (wrapped_call fn) w j = (w0, r0)"
        "\<forall>i < j. retry_failure is_retryable (snd (nth_call (wrapped_call fn) w i))"
      using False by (auto simp: sleep_capped_def)
    show ?thesis using nth_wrapped_calls [OF assms(2) j(2,3)] j(1) w0 by fastforce
  qed
qed

lemmas wrapper_submit_calls = execute_call_calls [OF _ logs_submit]
lemmas wrapper_cancel_calls = execute_call_calls [OF _ logs_cancel]

end
