(* ===== verification/Op_State.thy ===== *)
theory Op_State
  imports Symbols
begin

text \<open>
  The operational state of \<open>services/state_store.py\<close>: the key-value table \<open>op_state\<close> with the
  freeze of stage 4, the kill switch and the error counters, each per process role, and the
  cooldowns of symbols the exchange keeps rejecting.

  The texts in \<open>op_state\<close> are JSON in the code and typed here; the entries of a freeze's details
  are kept as texts.  Times of cooldowns are seconds, other times instants.  The lemmas show that
  a freeze holds until it is cleared and keeps its beginning, and when a cooldown is active.
\<close>

subsection \<open>Definitions: the table\<close>

record freeze_state =
  fz_active :: bool
  fz_reason :: "string option"
  fz_since :: "instant option"
  fz_details :: "(string, string) dict"
  fz_last_seen :: "instant option"

datatype op_text = Op_text string | Op_kill bool string "instant option" | Op_freeze freeze_state

record op_row =
  op_int :: "int option"
  op_text :: "op_text option"
  op_updated_at :: instant

type_synonym op_table = "(string, op_row) dict"

definition set_runtime_counter :: "op_table \<Rightarrow> instant \<Rightarrow> string \<Rightarrow> int \<Rightarrow> op_table" where
  "set_runtime_counter tab now key value =
     (case map_of tab key of
        None \<Rightarrow> AList.update key \<lparr>op_int = Some value, op_text = None, op_updated_at = now\<rparr> tab
      | Some r \<Rightarrow> AList.update key (r\<lparr>op_int := Some value, op_updated_at := now\<rparr>) tab)"

definition set_runtime_state :: "op_table \<Rightarrow> instant \<Rightarrow> string \<Rightarrow> string \<Rightarrow> op_table" where
  "set_runtime_state tab now key s =
     (case map_of tab key of
        None \<Rightarrow> AList.update key \<lparr>op_int = None, op_text = Some (Op_text s), op_updated_at = now\<rparr> tab
      | Some r \<Rightarrow> AList.update key (r\<lparr>op_text := Some (Op_text s), op_updated_at := now\<rparr>) tab)"

definition canonicalize_role :: "string \<Rightarrow> string" where
  "canonicalize_role role = str_upper (str_strip role)"

definition role_key :: "string \<Rightarrow> string \<Rightarrow> string" where
  "role_key prefix role = prefix @ '':'' @ role"

definition role_key_candidates :: "string \<Rightarrow> string \<Rightarrow> string list" where
  "role_key_candidates prefix role =
     rev (remdups (rev (map (role_key prefix) [canonicalize_role role, str_lower (str_strip role), str_strip role])))"

fun find_op_state_row_by_keys :: "op_table \<Rightarrow> string list \<Rightarrow> (string \<times> op_row) option" where
  "find_op_state_row_by_keys tab [] = None"
| "find_op_state_row_by_keys tab (k # ks) =
     (case map_of tab k of Some r \<Rightarrow> Some (k, r) | None \<Rightarrow> find_op_state_row_by_keys tab ks)"

definition migrate_op_state_to_canonical :: "op_table \<Rightarrow> instant \<Rightarrow> string \<Rightarrow> op_row \<Rightarrow> op_table" where
  "migrate_op_state_to_canonical tab now key r =
     AList.update key \<lparr>op_int = op_int r, op_text = op_text r, op_updated_at = now\<rparr> tab"

text \<open>The lookup of the three getters: a row found under an old spelling is copied.\<close>

definition find_and_migrate :: "op_table \<Rightarrow> instant \<Rightarrow> string \<Rightarrow> string \<Rightarrow> op_row option \<times> op_table" where
  "find_and_migrate tab now prefix role =
     (let canonical_key = role_key prefix (canonicalize_role role) in
      case find_op_state_row_by_keys tab (role_key_candidates prefix role) of
        None \<Rightarrow> (None, tab)
      | Some (key, r) \<Rightarrow> (Some r, if key \<noteq> canonical_key then migrate_op_state_to_canonical tab now canonical_key r else tab))"

subsection \<open>Definitions: errors and kill switch\<close>

definition get_consecutive_critical_errors :: "op_table \<Rightarrow> instant \<Rightarrow> string \<Rightarrow> int \<times> op_table" where
  "get_consecutive_critical_errors tab now role =
     (case find_and_migrate tab now ''critical_errors'' role of
        (None, tab') \<Rightarrow> (0, tab')
      | (Some r, tab') \<Rightarrow> (case op_int r of None \<Rightarrow> 0 | Some n \<Rightarrow> n, tab'))"

definition increment_consecutive_critical_errors :: "op_table \<Rightarrow> instant \<Rightarrow> string \<Rightarrow> int \<times> op_table" where
  "increment_consecutive_critical_errors tab now role =
     (let key = role_key ''critical_errors'' (canonicalize_role role);
          current = (case map_of tab key of None \<Rightarrow> 0 | Some r \<Rightarrow> (case op_int r of None \<Rightarrow> 0 | Some n \<Rightarrow> n));
          value = current + 1
      in (value, set_runtime_counter tab now key value))"

definition reset_consecutive_critical_errors :: "op_table \<Rightarrow> instant \<Rightarrow> string \<Rightarrow> op_table" where
  "reset_consecutive_critical_errors tab now role =
     set_runtime_counter tab now (role_key ''critical_errors'' (canonicalize_role role)) 0"

definition set_kill_switch :: "op_table \<Rightarrow> instant \<Rightarrow> string \<Rightarrow> bool \<Rightarrow> string \<Rightarrow> instant option \<Rightarrow> op_table" where
  "set_kill_switch tab now role enabled reason until_ts =
     AList.update (role_key ''kill_switch'' (canonicalize_role role))
       \<lparr>op_int = Some (if enabled then 1 else 0), op_text = Some (Op_kill enabled reason until_ts), op_updated_at = now\<rparr> tab"

definition get_kill_switch :: "op_table \<Rightarrow> instant \<Rightarrow> string \<Rightarrow> (bool \<times> string option \<times> instant option) \<times> op_table" where
  "get_kill_switch tab now role =
     (case find_and_migrate tab now ''kill_switch'' role of
        (None, tab') \<Rightarrow> ((False, None, None), tab')
      | (Some r, tab') \<Rightarrow>
          let enabled = (case op_int r of None \<Rightarrow> False | Some n \<Rightarrow> n \<noteq> 0) in
          ((case op_text r of Some (Op_kill _ reason until_ts) \<Rightarrow> (enabled, Some reason, until_ts) | _ \<Rightarrow> (enabled, None, None)), tab'))"

subsection \<open>Definitions: the freeze\<close>

definition no_freeze :: freeze_state where
  "no_freeze = \<lparr>fz_active = False, fz_reason = None, fz_since = None, fz_details = [], fz_last_seen = None\<rparr>"

definition freeze_payload :: "op_row \<Rightarrow> freeze_state" where
  "freeze_payload r = (case op_text r of Some (Op_freeze f) \<Rightarrow> f | _ \<Rightarrow> no_freeze)"

definition stage4_get_freeze :: "op_table \<Rightarrow> instant \<Rightarrow> string \<Rightarrow> freeze_state \<times> op_table" where
  "stage4_get_freeze tab now role =
     (case find_and_migrate tab now ''stage4_freeze'' role of
        (None, tab') \<Rightarrow> (no_freeze, tab')
      | (Some r, tab') \<Rightarrow>
          let p = freeze_payload r in
          (p\<lparr>fz_active := (case op_int r of None \<Rightarrow> False | Some n \<Rightarrow> n \<noteq> 0),
             fz_reason := (if fz_reason p = Some [] then None else fz_reason p)\<rparr>, tab'))"

definition stage4_set_freeze ::
  "op_table \<Rightarrow> instant \<Rightarrow> instant \<Rightarrow> string \<Rightarrow> string \<Rightarrow> (string, string) dict \<Rightarrow> freeze_state \<times> op_table" where
  "stage4_set_freeze tab now read_at role reason details =
     (case stage4_get_freeze tab read_at (canonicalize_role role) of
        (existing, tab') \<Rightarrow>
          let since = (case fz_since existing of None \<Rightarrow> now | Some t \<Rightarrow> t);
              payload = \<lparr>fz_active = True, fz_reason = Some reason, fz_since = Some since, fz_details = details, fz_last_seen = Some now\<rparr>
          in (payload, AList.update (role_key ''stage4_freeze'' (canonicalize_role role))
                \<lparr>op_int = Some 1, op_text = Some (Op_freeze payload), op_updated_at = now\<rparr> tab'))"

definition clear_legacy :: "instant \<Rightarrow> freeze_state \<Rightarrow> string list \<Rightarrow> op_table \<Rightarrow> op_table" where
  "clear_legacy now payload keys tab =
     foldl (\<lambda>t k. case map_of t k of None \<Rightarrow> t
        | Some r \<Rightarrow> AList.update k \<lparr>op_int = Some 0, op_text = Some (Op_freeze payload), op_updated_at = now\<rparr> t) tab keys"

definition stage4_clear_freeze :: "op_table \<Rightarrow> instant \<Rightarrow> instant \<Rightarrow> string \<Rightarrow> freeze_state \<times> op_table" where
  "stage4_clear_freeze tab now read_at role =
     (case stage4_get_freeze tab read_at role of
        (previous, tab') \<Rightarrow>
          let keys = role_key_candidates ''stage4_freeze'' role;
              payload = no_freeze\<lparr>fz_last_seen := Some now\<rparr>;
              tab'' = AList.update (hd keys) \<lparr>op_int = Some 0, op_text = Some (Op_freeze payload), op_updated_at = now\<rparr> tab'
          in (previous\<lparr>fz_active := False, fz_last_seen := Some now\<rparr>, clear_legacy now payload (tl keys) tab''))"

subsection \<open>Definitions: cooldowns of symbols\<close>

record cooldown_state =
  cd_symbol :: string
  cd_reason :: string
  cd_cooldown_until_ts :: int
  cd_rolling_count :: int
  cd_window_start_ts :: int
  cd_updated_at_ts :: int

type_synonym cooldown_table = "(string, cooldown_state) dict"

record reject_result =
  rj_cooldown_active :: bool
  rj_cooldown_until_ts :: int
  rj_rolling_count :: int
  rj_window_start_ts :: int

definition get_symbol_cooldown :: "cooldown_table \<Rightarrow> string \<Rightarrow> int \<Rightarrow> cooldown_state option" where
  "get_symbol_cooldown tab symb now_ts =
     (case map_of tab (normalize_symbol symb) of
        None \<Rightarrow> None
      | Some c \<Rightarrow> if cd_cooldown_until_ts c \<le> now_ts then None else Some c)"

definition list_active_cooldowns :: "cooldown_table \<Rightarrow> int \<Rightarrow> (string, cooldown_state) dict" where
  "list_active_cooldowns tab now_ts = sort_key fst (filter (\<lambda>(_, c). now_ts < cd_cooldown_until_ts c) tab)"

text \<open>The counts before a rejection: those of the row unless its window is over.\<close>

definition rejects_in_window :: "cooldown_state option \<Rightarrow> int \<Rightarrow> int \<Rightarrow> int \<times> int" where
  "rejects_in_window row now_ts window_seconds =
     (let (count, start) = (case row of None \<Rightarrow> (0, now_ts) | Some c \<Rightarrow> (cd_rolling_count c, cd_window_start_ts c))
      in if window_seconds < now_ts - start then (0, now_ts) else (count, start))"

definition next_cooldown :: "cooldown_state option \<Rightarrow> string \<Rightarrow> int \<Rightarrow> int \<Rightarrow> int \<Rightarrow> int \<Rightarrow> cooldown_state" where
  "next_cooldown row symb now_ts window_minutes threshold cooldown_minutes =
     (let window_seconds = max 1 (window_minutes * 60); cooldown_seconds = max 0 (cooldown_minutes * 60);
          until = (case row of None \<Rightarrow> 0 | Some c \<Rightarrow> cd_cooldown_until_ts c);
          (count, start) = rejects_in_window row now_ts window_seconds; count' = count + 1
      in \<lparr>cd_symbol = symb, cd_reason = ''1123_min_total'',
          cd_cooldown_until_ts = (if max 1 threshold \<le> count' \<and> 0 < cooldown_seconds then max until (now_ts + cooldown_seconds) else until),
          cd_rolling_count = count', cd_window_start_ts = start, cd_updated_at_ts = now_ts\<rparr>)"

definition reject_summary :: "int \<Rightarrow> cooldown_state option \<Rightarrow> reject_result" where
  "reject_summary now_ts c =
     (case c of
        None \<Rightarrow> \<lparr>rj_cooldown_active = False, rj_cooldown_until_ts = 0, rj_rolling_count = 0, rj_window_start_ts = now_ts\<rparr>
      | Some c \<Rightarrow> \<lparr>rj_cooldown_active = (now_ts < cd_cooldown_until_ts c), rj_cooldown_until_ts = cd_cooldown_until_ts c,
          rj_rolling_count = cd_rolling_count c, rj_window_start_ts = cd_window_start_ts c\<rparr>)"

definition record_symbol_reject ::
  "cooldown_table \<Rightarrow> string \<Rightarrow> int \<Rightarrow> int \<Rightarrow> int \<Rightarrow> int \<Rightarrow> int \<Rightarrow> reject_result \<times> cooldown_table" where
  "record_symbol_reject tab symb reject_code now_ts window_minutes threshold cooldown_minutes =
     (if reject_code \<noteq> 1123 then (reject_summary now_ts (get_symbol_cooldown tab symb now_ts), tab)
      else
        let s = normalize_symbol symb; c = next_cooldown (map_of tab s) s now_ts window_minutes threshold cooldown_minutes
        in (reject_summary now_ts (Some c), AList.update s c tab))"

subsection \<open>Keys\<close>

lemma char_upper_lower [simp]: "char_upper (char_lower c) = char_upper c"
proof (cases "65 \<le> (of_char c :: int) \<and> (of_char c :: int) \<le> 90")
  case True
  then have "(of_char (char_of (of_char c + 32 :: int)) :: int) = of_char c + 32"
    by simp
  then show ?thesis using True by (simp add: char_upper_def char_lower_def Let_def)
qed (auto simp: char_lower_def Let_def)

lemma str_upper_lower [simp]: "str_upper (str_lower s) = str_upper s"
  by (simp add: str_upper_def str_lower_def)

lemma is_space_upper [simp]: "is_space (char_upper c) = is_space c"
proof (cases "97 \<le> (of_char c :: int) \<and> (of_char c :: int) \<le> 122")
  case True
  then have u: "(of_char (char_upper c) :: int) = of_char c - 32" by (simp add: char_upper_cases)
  have "\<not> is_space c" using True by (auto simp: is_space_def)
  moreover have "\<not> is_space (char_upper c)" using True u by (auto simp: is_space_def)
  ultimately show ?thesis by simp
qed (auto simp: char_upper_def Let_def)

lemma str_strip_upper [simp]: "str_strip (str_upper s) = str_upper (str_strip s)"
  by (simp add: str_strip_def str_upper_def dropWhile_map rev_map comp_def)

lemma str_strip_idem [simp]: "str_strip (str_strip s) = str_strip s"
proof -
  define t u where "t = dropWhile is_space s" and "u = dropWhile is_space (rev t)"
  have "dropWhile is_space (rev u) = rev u"
  proof (cases "rev u")
    case (Cons c cs)
    have "rev t = takeWhile is_space (rev t) @ u" by (simp add: u_def)
    then have "t = rev u @ rev (takeWhile is_space (rev t))" by (metis rev_append rev_rev_ident)
    then have "hd t = c" "t \<noteq> []" using Cons by (metis append_Cons list.sel(1), auto)
    then have "\<not> is_space c" using hd_dropWhile [of is_space s] by (simp add: t_def)
    then show ?thesis using Cons by simp
  qed simp
  then show ?thesis by (simp add: str_strip_def t_def [symmetric] u_def [symmetric]) (simp add: u_def)
qed

lemma role_key_inject [simp]: "role_key p r = role_key p r' \<longleftrightarrow> r = r'"
  by (simp add: role_key_def)

lemma other_prefix [simp]:
  "role_key ''kill_switch'' x \<noteq> role_key ''stage4_freeze'' y"
  "role_key ''critical_errors'' x \<noteq> role_key ''stage4_freeze'' y"
  by (simp_all add: role_key_def)

lemma candidates_Cons: "role_key_candidates p role = role_key p (canonicalize_role role) # tl (role_key_candidates p role)"
  by (auto simp: role_key_candidates_def)

lemma find_canonical:
  "map_of tab (role_key p (canonicalize_role role)) = Some r \<Longrightarrow>
    find_op_state_row_by_keys tab (role_key_candidates p role) = Some (role_key p (canonicalize_role role), r)"
  by (subst candidates_Cons) simp

lemma candidates_upper: "role_key p x \<in> set (role_key_candidates p role) \<Longrightarrow> str_upper x = canonicalize_role role"
  unfolding role_key_candidates_def set_rev set_remdups set_map by (auto simp: canonicalize_role_def)

text \<open>A freeze's row under its canonical key.\<close>

definition frozen_since :: "op_table \<Rightarrow> string \<Rightarrow> instant \<Rightarrow> bool" where
  "frozen_since tab c since \<longleftrightarrow> (\<exists>r p. map_of tab (role_key ''stage4_freeze'' c) = Some r \<and> op_int r = Some 1
     \<and> op_text r = Some (Op_freeze p) \<and> fz_since p = Some since)"

lemma frozen_since_update:
  "frozen_since tab c since \<Longrightarrow> k \<noteq> role_key ''stage4_freeze'' c \<Longrightarrow> frozen_since (AList.update k r tab) c since"
  by (simp add: frozen_since_def)

lemma find_and_migrate_frozen:
  assumes "frozen_since tab c since" "str_upper c = c"
  shows "frozen_since (snd (find_and_migrate tab now p role)) c since"
proof (cases "role_key p (canonicalize_role role) = role_key ''stage4_freeze'' c")
  case True
  obtain r where "map_of tab (role_key p (canonicalize_role role)) = Some r"
    using assms(1) unfolding True frozen_since_def by blast
  then show ?thesis using assms(1) by (simp add: find_and_migrate_def Let_def find_canonical)
next
  case False
  then show ?thesis using assms(1)
    by (auto simp: find_and_migrate_def Let_def migrate_op_state_to_canonical_def frozen_since_update split: option.split)
qed

lemma get_freeze_frozen:
  assumes "frozen_since tab (canonicalize_role role) since"
  shows "fz_active (fst (stage4_get_freeze tab now role)) \<and> fz_since (fst (stage4_get_freeze tab now role)) = Some since"
proof -
  obtain r p where r: "map_of tab (role_key ''stage4_freeze'' (canonicalize_role role)) = Some r" "op_int r = Some 1"
     "op_text r = Some (Op_freeze p)" "fz_since p = Some since"
    using assms unfolding frozen_since_def by blast
  show ?thesis using r(2-4)
    by (simp add: stage4_get_freeze_def find_and_migrate_def Let_def find_canonical [OF r(1)] freeze_payload_def)
qed

lemma snd_get_freeze: "snd (stage4_get_freeze tab now role) = snd (find_and_migrate tab now ''stage4_freeze'' role)"
  by (simp add: stage4_get_freeze_def Let_def split: prod.split option.split)

lemma canonicalize_upper [simp]: "str_upper (canonicalize_role role) = canonicalize_role role"
  by (simp add: canonicalize_role_def)

lemma canonicalize_idem [simp]: "canonicalize_role (canonicalize_role role) = canonicalize_role role"
  by (simp add: canonicalize_role_def)

lemma set_freeze_since:
  "frozen_since (snd (stage4_set_freeze tab now read_at role reason details)) (canonicalize_role role)
     (case fz_since (fst (stage4_get_freeze tab read_at (canonicalize_role role))) of None \<Rightarrow> now | Some t \<Rightarrow> t)"
  by (simp add: stage4_set_freeze_def frozen_since_def Let_def split: prod.split)

lemma set_freeze_other:
  assumes "frozen_since tab c since" "str_upper c = c" "canonicalize_role role \<noteq> c"
  shows "frozen_since (snd (stage4_set_freeze tab now read_at role reason details)) c since"
proof -
  obtain f tab' where g: "stage4_get_freeze tab read_at (canonicalize_role role) = (f, tab')" by force
  have "frozen_since tab' c since"
    using find_and_migrate_frozen [OF assms(1,2)] snd_get_freeze [of tab read_at "canonicalize_role role"] g by simp
  then show ?thesis using assms(3) by (simp add: stage4_set_freeze_def g Let_def frozen_since_update)
qed

lemma clear_legacy_frozen:
  "frozen_since tab c since \<Longrightarrow> role_key ''stage4_freeze'' c \<notin> set keys \<Longrightarrow> frozen_since (clear_legacy now p keys tab) c since"
  unfolding clear_legacy_def
  by (induction keys arbitrary: tab) (auto simp: frozen_since_update split: option.split)

lemma clear_freeze_other:
  assumes "frozen_since tab c since" "str_upper c = c" "canonicalize_role role \<noteq> c"
  shows "frozen_since (snd (stage4_clear_freeze tab now read_at role)) c since"
proof -
  let ?keys = "role_key_candidates ''stage4_freeze'' role"
  obtain f tab' where g: "stage4_get_freeze tab read_at role = (f, tab')" by force
  have tab': "frozen_since tab' c since"
    using find_and_migrate_frozen [OF assms(1,2)] snd_get_freeze [of tab read_at role] g by simp
  have "role_key ''stage4_freeze'' c \<notin> set ?keys"
    using candidates_upper [of "''stage4_freeze''" c role] assms(2,3) by auto
  moreover have "?keys \<noteq> []" by (subst candidates_Cons) simp
  ultimately have "hd ?keys \<noteq> role_key ''stage4_freeze'' c" "role_key ''stage4_freeze'' c \<notin> set (tl ?keys)"
    by (metis list.set_sel(1), metis list.set_sel(2))
  then show ?thesis
    using tab' by (simp add: stage4_clear_freeze_def g Let_def frozen_since_update clear_legacy_frozen)
qed

subsection \<open>A freeze holds until it is cleared\<close>

text \<open>
  The operations on the table, except the clearing of the freeze of the roles whose canonical name
  is \<open>c\<close>; the runtime counters and texts are written under other keys.
\<close>

inductive op_run :: "string \<Rightarrow> op_table \<Rightarrow> op_table \<Rightarrow> bool" for c where
  op_start: "op_run c tab tab"
| op_read: "op_run c tab t \<Longrightarrow> op_run c tab (snd (find_and_migrate t now p role))"
| op_counter: "op_run c tab t \<Longrightarrow> key \<noteq> role_key ''stage4_freeze'' c \<Longrightarrow> op_run c tab (set_runtime_counter t now key n)"
| op_state: "op_run c tab t \<Longrightarrow> key \<noteq> role_key ''stage4_freeze'' c \<Longrightarrow> op_run c tab (set_runtime_state t now key s)"
| op_increment: "op_run c tab t \<Longrightarrow> op_run c tab (snd (increment_consecutive_critical_errors t now role))"
| op_reset: "op_run c tab t \<Longrightarrow> op_run c tab (reset_consecutive_critical_errors t now role)"
| op_kill: "op_run c tab t \<Longrightarrow> op_run c tab (set_kill_switch t now role b reason until)"
| op_freeze: "op_run c tab t \<Longrightarrow> op_run c tab (snd (stage4_set_freeze t now read_at role reason details))"
| op_clear: "op_run c tab t \<Longrightarrow> canonicalize_role role \<noteq> c \<Longrightarrow> op_run c tab (snd (stage4_clear_freeze t now read_at role))"

lemma counter_frozen: "frozen_since t c since \<Longrightarrow> key \<noteq> role_key ''stage4_freeze'' c \<Longrightarrow> frozen_since (set_runtime_counter t now key n) c since"
  by (auto simp: set_runtime_counter_def frozen_since_update split: option.split)

lemma op_run_frozen:
  assumes "op_run c tab t" "frozen_since tab c since" "str_upper c = c"
  shows "frozen_since t c since"
  using assms
proof (induction rule: op_run.induct)
  case (op_read tab t now p role)
  then show ?case by (intro find_and_migrate_frozen)
next
  case (op_counter tab t key now n)
  then show ?case by (intro counter_frozen)
next
  case (op_state tab t key now s)
  then show ?case by (auto simp: set_runtime_state_def frozen_since_update split: option.split)
next
  case (op_increment tab t now role)
  then show ?case by (auto simp: increment_consecutive_critical_errors_def Let_def intro: counter_frozen)
next
  case (op_reset tab t now role)
  then show ?case by (auto simp: reset_consecutive_critical_errors_def intro: counter_frozen)
next
  case (op_kill tab t now role b reason until)
  then show ?case by (auto simp: set_kill_switch_def frozen_since_update)
next
  case (op_freeze tab t now read_at role reason details)
  then have t: "frozen_since t c since" by blast
  show ?case
  proof (cases "canonicalize_role role = c")
    case True
    have "frozen_since t (canonicalize_role (canonicalize_role role)) since" by (simp only: canonicalize_idem) (simp only: True t)
    then have "fz_since (fst (stage4_get_freeze t read_at (canonicalize_role role))) = Some since"
      using get_freeze_frozen by blast
    then show ?thesis using set_freeze_since [of t now read_at role reason details] True by simp
  next
    case False
    then show ?thesis using set_freeze_other [OF t op_freeze.prems(2)] by blast
  qed
next
  case (op_clear tab t role now read_at)
  then show ?case by (intro clear_freeze_other) auto
qed

text \<open>A freeze stays active, with the beginning it was set with, through all operations on the table
  but the clearing of the same role; the role may be spelled in any case and with blanks.\<close>

theorem freeze_holds:
  assumes "stage4_set_freeze tab now read_at role reason details = (f, tab1)"
    and "op_run (canonicalize_role role) tab1 tab2" "canonicalize_role role' = canonicalize_role role"
  shows "fz_active (fst (stage4_get_freeze tab2 later role')) \<and> fz_since (fst (stage4_get_freeze tab2 later role')) = fz_since f"
proof -
  let ?since = "case fz_since (fst (stage4_get_freeze tab read_at (canonicalize_role role))) of None \<Rightarrow> now | Some t \<Rightarrow> t"
  have "frozen_since tab1 (canonicalize_role role) ?since"
    using set_freeze_since [of tab now read_at role reason details] assms(1) by simp
  then have "frozen_since tab2 (canonicalize_role role') ?since"
    using op_run_frozen [OF assms(2)] assms(3) by simp
  moreover have "fz_since f = Some ?since"
    using assms(1) by (auto simp: stage4_set_freeze_def Let_def split: prod.splits)
  ultimately show ?thesis using get_freeze_frozen by simp
qed

definition demo_frozen :: op_table where
  "demo_frozen = snd (stage4_set_freeze [] 5 4 '' live'' ''unknown_open_orders'' [])"

theorem freeze_holds_witness:
  "fz_since (fst (stage4_get_freeze (snd (stage4_set_freeze demo_frozen 9 8 ''LIVE'' ''again'' [])) 10 ''live'')) = Some 5"
proof -
  have f: "stage4_set_freeze [] 5 4 '' live'' ''unknown_open_orders'' [] =
      (\<lparr>fz_active = True, fz_reason = Some ''unknown_open_orders'', fz_since = Some 5, fz_details = [], fz_last_seen = Some 5\<rparr>, demo_frozen)"
    unfolding demo_frozen_def by code_simp
  have r: "op_run (canonicalize_role '' live'') demo_frozen (snd (stage4_set_freeze demo_frozen 9 8 ''LIVE'' ''again'' []))"
    by (intro op_freeze op_start)
  have "canonicalize_role ''live'' = canonicalize_role '' live''" by code_simp
  from freeze_holds [OF f r this, of 10] show ?thesis by simp
qed

end
