(* ===== verification/Stage4_Execution.thy ===== *)
theory Stage4_Execution
  imports Execution_Wrapper Stage4_Store Op_State Rules_Service
begin

text \<open>
  The execution gate of stage 4, \<open>src/src/btcbot/services/execution_service_stage4.py\<close>, with the
  policy of \<open>services/trading_policy.py\<close> and the process role of \<open>obs/process_role.py\<close>: from
  lifecycle actions to calls of the exchange, with the tables updated on the way.

  The state is passed explicitly; an exception ends the run and leaves the state as it is then.
  The clock is read by number: \<open>ev_clock n\<close> is its \<open>n\<close>-th reading.  The exchange, SHA-256, the rules
  service and the type name of an exception are parameters; a failing read of the cooldown table is
  an input.  Metrics, logging and emitted decisions are left out.
\<close>

subsection \<open>Definitions: computations with a state and exceptions\<close>

type_synonym ('s, 'a) comp = "'s \<Rightarrow> 's \<times> 'a result"

definition sbind :: "'s \<times> 'a result \<Rightarrow> ('a \<Rightarrow> ('s, 'b) comp) \<Rightarrow> 's \<times> 'b result" where
  "sbind m f = (case m of (s, Inl e) \<Rightarrow> (s, Inl e) | (s, Inr x) \<Rightarrow> f x s)"

fun sfold :: "('a \<Rightarrow> 'b \<Rightarrow> ('s, 'b) comp) \<Rightarrow> 'a list \<Rightarrow> 'b \<Rightarrow> ('s, 'b) comp" where
  "sfold f [] acc s = (s, Inr acc)"
| "sfold f (x # xs) acc s = sbind (f x acc s) (sfold f xs)"

subsection \<open>Definitions: role, settings and policy\<close>

datatype process_role = Role_LIVE | Role_MONITOR

fun role_value :: "process_role \<Rightarrow> string" where
  "role_value Role_LIVE = ''LIVE''"
| "role_value Role_MONITOR = ''MONITOR''"

definition coerce_process_role :: "string option \<Rightarrow> process_role" where
  "coerce_process_role value =
     (case value of None \<Rightarrow> Role_MONITOR
      | Some v \<Rightarrow> if str_upper (str_strip v) = ''LIVE'' then Role_LIVE else Role_MONITOR)"

record exec_settings =
  x4_live_trading :: bool
  x4_live_trading_ack :: "string option"
  x4_dry_run :: bool
  x4_kill_switch :: bool
  x4_kill_switch_effective :: "bool option"
  x4_kill_switch_freeze_all :: bool
  x4_process_role :: "string option"
  x4_reject1123_enforce :: bool
  x4_reject1123_window_minutes :: int
  x4_reject1123_threshold :: int
  x4_reject1123_cooldown_minutes :: int
  x4_min_order_notional_try :: dec
  x4_risk_max_order_notional_try :: dec

definition acknowledged :: "exec_settings \<Rightarrow> bool" where
  "acknowledged st \<longleftrightarrow> x4_live_trading_ack st = Some ''I_UNDERSTAND''"

definition is_live_trading_enabled :: "exec_settings \<Rightarrow> bool" where
  "is_live_trading_enabled st \<longleftrightarrow> x4_live_trading st \<and> acknowledged st"

datatype policy_block_reason = Block_MONITOR_ROLE | Block_KILL_SWITCH | Block_DRY_RUN | Block_NOT_ARMED | Block_ACK_MISSING

fun policy_block_message :: "policy_block_reason \<Rightarrow> string" where
  "policy_block_message Block_MONITOR_ROLE = ''MONITOR role blocks side effects''"
| "policy_block_message Block_KILL_SWITCH = ''KILL_SWITCH=true blocks side effects''"
| "policy_block_message Block_DRY_RUN = ''DRY_RUN=true blocks side effects''"
| "policy_block_message _ = ''Live trading is not armed; set LIVE_TRADING=true and LIVE_TRADING_ACK=I_UNDERSTAND''"

record policy_result =
  pr_allowed :: bool
  pr_reasons :: "policy_block_reason list"
  pr_message :: string

definition listed_if :: "bool \<Rightarrow> 'a \<Rightarrow> 'a list" where
  "listed_if b x = (if b then [x] else [])"

definition validate_live_side_effects_policy :: "string option \<Rightarrow> bool \<Rightarrow> bool \<Rightarrow> bool \<Rightarrow> bool \<Rightarrow> bool \<Rightarrow> policy_result" where
  "validate_live_side_effects_policy role enforce_monitor_role dry_run kill_switch live_enabled live_ack =
     (let role_normalized = str_upper (str_strip (case role of None \<Rightarrow> [] | Some r \<Rightarrow> r));
          first = listed_if (enforce_monitor_role \<and> role_normalized = ''MONITOR'') Block_MONITOR_ROLE
            @ listed_if kill_switch Block_KILL_SWITCH @ listed_if dry_run Block_DRY_RUN;
          unarmed = listed_if (\<not> live_enabled) Block_NOT_ARMED @ listed_if (\<not> live_ack) Block_ACK_MISSING;
          reasons = first @ unarmed;
          messages = map policy_block_message (if first = [] \<and> unarmed \<noteq> [] then [Block_NOT_ARMED] else first)
      in if reasons = [] then \<lparr>pr_allowed = True, pr_reasons = [], pr_message = ''Live side effects are armed''\<rparr>
         else \<lparr>pr_allowed = False, pr_reasons = reasons,
               pr_message = (case messages of [] \<Rightarrow> ''Live side effects are blocked'' | m # _ \<Rightarrow> m)\<rparr>)"

subsection \<open>Definitions: the environment and the state\<close>

record 'x exec_env =
  ev_settings :: exec_settings
  ev_exchange :: "'x exchange_client"
  ev_wrapper :: wrapper_config
  ev_retry_after :: "py_error \<Rightarrow> rat option"
  ev_rand :: "nat \<Rightarrow> rat"
  ev_boundary :: "string \<Rightarrow> boundary_decision result"
  ev_clock :: "nat \<Rightarrow> instant"
  ev_sha256 :: "string \<Rightarrow> string"
  ev_type_name :: "py_error \<Rightarrow> string"
  ev_cooldown_read_fails :: "string \<Rightarrow> int \<Rightarrow> bool"

record reject_detail =
  rd_reason :: stage4_reject_reason
  rd_rejected_by_code :: "int option"
  rd_symbol :: string
  rd_side :: string
  rd_order_type :: string
  rd_min_required_settings :: "dec option"
  rd_min_required_exchange_rule :: "dec option"
  rd_q_price :: dec
  rd_q_qty :: dec
  rd_total_try :: dec

record 'x exec_state =
  es_orders :: "order_row list"
  es_op :: op_table
  es_cooldowns :: cooldown_table
  es_replace :: replace_table
  es_exchange :: 'x
  es_calls :: "exchange_call list"
  es_ticks :: nat
  es_rejects_by_code :: "(int, nat) dict"
  es_rejects_breakdown :: "(stage4_reject_reason, nat) dict"
  es_reject_details :: "reject_detail list"

type_synonym ('x, 'a) exec = "('x exec_state, 'a) comp"

definition with_now :: "'x exec_env \<Rightarrow> (instant \<Rightarrow> 'x exec_state \<Rightarrow> 'b) \<Rightarrow> 'x exec_state \<Rightarrow> 'b" where
  "with_now env f s = f (ev_clock env (es_ticks s)) (s\<lparr>es_ticks := Suc (es_ticks s)\<rparr>)"

definition set_orders :: "order_row list \<Rightarrow> 'x exec_state \<Rightarrow> 'x exec_state" where
  "set_orders rows s = s\<lparr>es_orders := rows\<rparr>"

text \<open>One write of the orders table.\<close>

definition write_orders :: "'x exec_env \<Rightarrow> (order_row list \<Rightarrow> instant \<Rightarrow> order_row list) \<Rightarrow> 'x exec_state \<Rightarrow> 'x exec_state" where
  "write_orders env g = with_now env (\<lambda>now s. set_orders (g (es_orders s) now) s)"

definition try_write_orders :: "'x exec_env \<Rightarrow> (order_row list \<Rightarrow> instant \<Rightarrow> order_row list result) \<Rightarrow> ('x, unit) exec" where
  "try_write_orders env g =
     with_now env (\<lambda>now s. case g (es_orders s) now of Inl e \<Rightarrow> (s, Inl e) | Inr rows \<Rightarrow> (set_orders rows s, Inr ()))"

definition process_role_for_runtime :: "'x exec_env \<Rightarrow> string" where
  "process_role_for_runtime env = role_value (coerce_process_role (x4_process_role (ev_settings env)))"

definition read_freeze :: "'x exec_env \<Rightarrow> 'x exec_state \<Rightarrow> freeze_state \<times> 'x exec_state" where
  "read_freeze env =
     with_now env (\<lambda>now s. case stage4_get_freeze (es_op s) now (process_role_for_runtime env) of
        (f, op) \<Rightarrow> (f, s\<lparr>es_op := op\<rparr>))"

definition ensure_live_write_side_effects_allowed :: "'x exec_env \<Rightarrow> unit result" where
  "ensure_live_write_side_effects_allowed env =
     (let st = ev_settings env;
          policy = validate_live_side_effects_policy (Some (process_role_for_runtime env)) True (x4_dry_run st)
            (x4_kill_switch st) (x4_live_trading st) (acknowledged st)
      in if pr_allowed policy then Inr () else Inl (RuntimeError (pr_message policy)))"

subsection \<open>Definitions: rejections\<close>

definition count_key :: "'k \<Rightarrow> ('k, nat) dict \<Rightarrow> ('k, nat) dict" where
  "count_key k d = AList.update k (Suc (dict_get d k 0)) d"

definition inc_reject_code :: "int \<Rightarrow> 'x exec_state \<Rightarrow> 'x exec_state" where
  "inc_reject_code code s = s\<lparr>es_rejects_by_code := count_key code (es_rejects_by_code s)\<rparr>"

definition record_reject_detail ::
  "lifecycle_action \<Rightarrow> string \<Rightarrow> int option \<Rightarrow> (dec \<times> dec) option \<Rightarrow> dec \<Rightarrow> dec \<Rightarrow> dec \<Rightarrow> 'x exec_state \<Rightarrow> 'x exec_state" where
  "record_reject_detail a reason code mins q_price q_qty total_try s =
     (let mapped = map_stage4_reject_reason (map_option Code_int code) (Some reason) in
      s\<lparr>es_rejects_breakdown := count_key mapped (es_rejects_breakdown s),
        es_reject_details := es_reject_details s @ [\<lparr>rd_reason = mapped, rd_rejected_by_code = code, rd_symbol = la_symbol a,
          rd_side = la_side a, rd_order_type = la_reason a, rd_min_required_settings = map_option fst mins,
          rd_min_required_exchange_rule = map_option snd mins, rd_q_price = q_price, rd_q_qty = q_qty,
          rd_total_try = total_try\<rparr>]\<rparr>)"

definition mode_name :: "bool \<Rightarrow> string" where
  "mode_name live_mode = (if live_mode then ''live'' else ''dry_run'')"

definition reject_row ::
  "'x exec_env \<Rightarrow> bool \<Rightarrow> lifecycle_action \<Rightarrow> string \<Rightarrow> string \<Rightarrow> dec \<Rightarrow> dec \<Rightarrow> int option \<Rightarrow> 'x exec_state \<Rightarrow> 'x exec_state" where
  "reject_row env live_mode a cid reason price qty code =
     write_orders env (\<lambda>rows now. record_stage4_order_rejected rows now cid reason (la_symbol a) (la_side a) price qty
       (mode_name live_mode) code)"

record exec_counts =
  ct_submitted :: nat
  ct_canceled :: nat
  ct_simulated :: nat
  ct_rejected :: nat
  ct_rejected_min :: nat

definition no_counts :: exec_counts where
  "no_counts = \<lparr>ct_submitted = 0, ct_canceled = 0, ct_simulated = 0, ct_rejected = 0, ct_rejected_min = 0\<rparr>"

definition add_counts :: "exec_counts \<Rightarrow> exec_counts \<Rightarrow> exec_counts" where
  "add_counts a b = \<lparr>ct_submitted = ct_submitted a + ct_submitted b, ct_canceled = ct_canceled a + ct_canceled b,
     ct_simulated = ct_simulated a + ct_simulated b, ct_rejected = ct_rejected a + ct_rejected b,
     ct_rejected_min = ct_rejected_min a + ct_rejected_min b\<rparr>"

definition one_rejected :: exec_counts where
  "one_rejected = no_counts\<lparr>ct_rejected := 1\<rparr>"

subsection \<open>Definitions: a submission\<close>

definition build_exchange_client_id :: "(string \<Rightarrow> string) \<Rightarrow> string \<Rightarrow> string \<Rightarrow> string \<Rightarrow> string" where
  "build_exchange_client_id sha256 internal_id symb side =
     (let side_token = take 1 (str_lower (str_strip side));
          symbol_token = str_lower (take 6 (filter (\<lambda>c. c \<noteq> CHR ''_'') (canonical_symbol symb)))
      in take 50 (''b4-'' @ symbol_token @ ''-'' @ (if side_token = [] then ''x'' else side_token) @ ''-''
           @ take 32 (sha256 internal_id)))"

definition cooldown_gate :: "'x exec_env \<Rightarrow> lifecycle_action \<Rightarrow> int \<Rightarrow> 'x exec_state \<Rightarrow> string option" where
  "cooldown_gate env a now_ts s =
     (if \<not> x4_reject1123_enforce (ev_settings env) then None
      else if ev_cooldown_read_fails env (la_symbol a) now_ts then Some ''exchange_reject_1123_state_read_failed''
      else case get_symbol_cooldown (es_cooldowns s) (la_symbol a) now_ts of
        None \<Rightarrow> None
      | Some c \<Rightarrow> if now_ts < cd_cooldown_until_ts c then Some ''exchange_reject_1123_cooldown_gate'' else None)"

definition reject_1123 ::
  "'x exec_env \<Rightarrow> bool \<Rightarrow> lifecycle_action \<Rightarrow> string \<Rightarrow> string \<Rightarrow> dec \<Rightarrow> dec \<Rightarrow> ('x, exec_counts) exec" where
  "reject_1123 env live_mode a cid reason price qty s =
     (record_reject_detail a reason (Some 1123) None price qty (dmul price qty)
        (inc_reject_code 1123 (reject_row env live_mode a cid reason price qty (Some 1123) s)), Inr one_rejected)"

text \<open>Price and quantity on the grid; a notional that only rounding has made too small is repaired.\<close>

record sized_order =
  zo_price :: dec
  zo_qty :: dec
  zo_notional :: dec
  zo_min_required :: dec

definition rounding_fix :: "lifecycle_action \<Rightarrow> exchange_rules \<Rightarrow> sized_order \<Rightarrow> sized_order result" where
  "rounding_fix a rules z =
     (if zo_notional z < zo_min_required z \<and> zo_min_required z \<le> dmul (la_price a) (la_qty a) \<and> 0 < zo_price z then
        rbind (Quantizer_quantize_qty_up (ddiv (zo_min_required z) (zo_price z)) rules) (\<lambda>q2.
          let notional2 = dmul (zo_price z) q2 in
          Inr (if zo_min_required z \<le> notional2 then z\<lparr>zo_qty := q2, zo_notional := notional2\<rparr> else z))
      else Inr z)"

definition size_order :: "exec_settings \<Rightarrow> lifecycle_action \<Rightarrow> exchange_rules \<Rightarrow> sized_order result" where
  "size_order st a rules =
     rbind (Quantizer_quantize_price (la_price a) rules) (\<lambda>p.
     rbind (Quantizer_quantize_qty (la_qty a) rules) (\<lambda>q.
       rounding_fix a rules \<lparr>zo_price = p, zo_qty = q, zo_notional = dmul p q,
         zo_min_required = max (x4_min_order_notional_try st) (er_min_notional rules)\<rparr>))"

definition exchange_error_code :: "py_error \<Rightarrow> int option" where
  "exchange_error_code e =
     (case e of ExchangeExn (ExchangeError status message body code msg) \<Rightarrow> numeric_code code | _ \<Rightarrow> None)"

definition call_submit :: "'x exec_env \<Rightarrow> submit_request \<Rightarrow> ('x, string outcome) exec" where
  "call_submit env q s =
     (case wrapper_submit (ev_wrapper env) (ev_retry_after env) (ev_rand env) (ev_exchange env) q (es_exchange s, es_calls s) of
        ((x, calls), r) \<Rightarrow> (s\<lparr>es_exchange := x, es_calls := calls\<rparr>, r))"

definition call_cancel :: "'x exec_env \<Rightarrow> string \<Rightarrow> ('x, bool outcome) exec" where
  "call_cancel env i s =
     (case wrapper_cancel (ev_wrapper env) (ev_retry_after env) (ev_rand env) (ev_exchange env) i (es_exchange s, es_calls s) of
        ((x, calls), r) \<Rightarrow> (s\<lparr>es_exchange := x, es_calls := calls\<rparr>, r))"

definition note_symbol_reject :: "'x exec_env \<Rightarrow> string \<Rightarrow> 'x exec_state \<Rightarrow> 'x exec_state" where
  "note_symbol_reject env symb =
     with_now env (\<lambda>now s. s\<lparr>es_cooldowns := snd (record_symbol_reject (es_cooldowns s) symb 1123 (now div 1000000)
       (x4_reject1123_window_minutes (ev_settings env)) (x4_reject1123_threshold (ev_settings env))
       (x4_reject1123_cooldown_minutes (ev_settings env)))\<rparr>)"

definition after_ack ::
  "'x exec_env \<Rightarrow> lifecycle_action \<Rightarrow> string \<Rightarrow> string \<Rightarrow> sized_order \<Rightarrow> string outcome \<Rightarrow> ('x, exec_counts) exec" where
  "after_ack env a cid xid z r s =
     (case r of
        Uncertain e \<Rightarrow>
          (write_orders env (\<lambda>rows now. record_stage4_order_error rows now cid ''submit_uncertain_outcome'' (la_symbol a) (la_side a)
             (zo_price z) (zo_qty z) ''live'' ''unknown'' None) s, Inr no_counts)
      | Done exchange_order_id \<Rightarrow>
          sbind (try_write_orders env (\<lambda>rows now. record_stage4_order_submitted rows now (la_symbol a) cid (Some xid)
             exchange_order_id (la_side a) (zo_price z) (zo_qty z) ''live'' ''open'') s)
            (\<lambda>_ s'. (s', Inr (no_counts\<lparr>ct_submitted := 1\<rparr>))))"

definition send_order ::
  "'x exec_env \<Rightarrow> lifecycle_action \<Rightarrow> string \<Rightarrow> string \<Rightarrow> sized_order \<Rightarrow> ('x, exec_counts) exec" where
  "send_order env a cid xid z s =
     (case ensure_live_write_side_effects_allowed env of
        Inl e \<Rightarrow> (s, Inl e)
      | Inr _ \<Rightarrow>
          (case call_submit env \<lparr>sq_symbol = la_symbol a, sq_side = la_side a, sq_price = zo_price z, sq_qty = zo_qty z,
                  sq_client_order_id = xid\<rparr> s of
             (s', Inr r) \<Rightarrow> after_ack env a cid xid z r s'
           | (s', Inl e) \<Rightarrow>
               if exchange_error_code e = Some 1123 then
                 reject_1123 env True a cid ''exchange_reject_1123'' (zo_price z) (zo_qty z) (note_symbol_reject env (la_symbol a) s')
               else (s', Inl e)))"

definition submit_sized ::
  "'x exec_env \<Rightarrow> bool \<Rightarrow> lifecycle_action \<Rightarrow> string \<Rightarrow> string \<Rightarrow> exchange_rules \<Rightarrow> ('x, exec_counts) exec" where
  "submit_sized env live_mode a cid xid rules s =
     (case size_order (ev_settings env) a rules of
        Inl e \<Rightarrow> (s, Inl e)
      | Inr z \<Rightarrow>
          let cap = x4_risk_max_order_notional_try (ev_settings env);
              reject = (\<lambda>row_reason reason mins s. record_reject_detail a reason None mins (zo_price z) (zo_qty z) (zo_notional z)
                (reject_row env live_mode a cid row_reason (zo_price z) (zo_qty z) None s))
          in if zo_notional z < zo_min_required z then
               (reject ''min_notional_violation'' ''min_total''
                  (Some (x4_min_order_notional_try (ev_settings env), er_min_notional rules)) s, Inr (one_rejected\<lparr>ct_rejected_min := 1\<rparr>))
             else if 0 < cap \<and> cap < zo_notional z then
               (reject ''max_order_notional_try'' ''max_order_notional_try'' None s, Inr one_rejected)
             else if \<not> live_mode then
               sbind (try_write_orders env (\<lambda>rows now. record_stage4_order_simulated_submit rows now (la_symbol a) cid (la_side a)
                  (zo_price z) (zo_qty z)) s) (\<lambda>_ s'. (s', Inr (no_counts\<lparr>ct_simulated := 1\<rparr>)))
             else send_order env a cid xid z s)"

definition submit_new ::
  "'x exec_env \<Rightarrow> bool \<Rightarrow> lifecycle_action \<Rightarrow> string \<Rightarrow> ('x, exec_counts) exec" where
  "submit_new env live_mode a cid =
     with_now env (\<lambda>now s.
       let xid = build_exchange_client_id (ev_sha256 env) cid (la_symbol a) (la_side a) in
       if sd_should_dedupe (stage4_submit_dedupe_status (es_orders s) now cid xid) then (s, Inr no_counts)
       else case ev_boundary env (la_symbol a) of
         Inl e \<Rightarrow> (s, Inl e)
       | Inr d \<Rightarrow>
           (case bo_rules d of
              None \<Rightarrow>
                (record_reject_detail a ''missing_exchange_rules'' None None (la_price a) (la_qty a) (dmul (la_price a) (la_qty a))
                   (reject_row env live_mode a cid (''missing_exchange_rules:'' @ status_name (bo_status d)) (la_price a) (la_qty a) None s),
                 Inr one_rejected)
            | Some r \<Rightarrow> submit_sized env live_mode a cid xid (get_rules_stage4 r) s))"

definition execute_submit_action :: "'x exec_env \<Rightarrow> bool \<Rightarrow> lifecycle_action \<Rightarrow> ('x, exec_counts) exec" where
  "execute_submit_action env live_mode a s0 =
     (case read_freeze env s0 of
        (f, s) \<Rightarrow>
          if fz_active f then (s, Inr no_counts)
          else case nonempty (la_client_order_id a) of
            None \<Rightarrow> (s, Inr no_counts)
          | Some cid \<Rightarrow>
              with_now env (\<lambda>now s. case cooldown_gate env a (now div 1000000) s of
                 Some reason \<Rightarrow> reject_1123 env live_mode a cid reason (la_price a) (la_qty a) s
               | None \<Rightarrow> submit_new env live_mode a cid s) s)"

subsection \<open>Definitions: a cancellation\<close>

definition cancel_error ::
  "'x exec_env \<Rightarrow> bool \<Rightarrow> lifecycle_action \<Rightarrow> string \<Rightarrow> string \<Rightarrow> string \<Rightarrow> 'x exec_state \<Rightarrow> 'x exec_state" where
  "cancel_error env live_mode a cid reason status =
     write_orders env (\<lambda>rows now. record_stage4_order_error rows now cid reason (la_symbol a) (la_side a) (la_price a) (la_qty a)
       (mode_name live_mode) status None)"

definition cancel_exchange_id :: "lifecycle_action \<Rightarrow> string \<Rightarrow> order_row list \<Rightarrow> string option" where
  "cancel_exchange_id a cid rows =
     or_else (nonempty (la_exchange_order_id a)) (Option.bind (get_stage4_order_by_client_id rows cid) o4_exchange_order_id)"

definition cancel_live :: "'x exec_env \<Rightarrow> lifecycle_action \<Rightarrow> string \<Rightarrow> string \<Rightarrow> ('x, nat) exec" where
  "cancel_live env a cid exchange_id s =
     (case ensure_live_write_side_effects_allowed env of
        Inl e \<Rightarrow> (s, Inl e)
      | Inr _ \<Rightarrow>
          sbind (call_cancel env exchange_id s) (\<lambda>r s'.
            case r of
              Uncertain e \<Rightarrow> (cancel_error env True a cid ''cancel_uncertain_outcome'' ''unknown'' s', Inr 0)
            | Done b \<Rightarrow> (s', Inr (if b then 1 else 0))))"

definition execute_cancel_action :: "'x exec_env \<Rightarrow> bool \<Rightarrow> lifecycle_action \<Rightarrow> ('x, nat) exec" where
  "execute_cancel_action env live_mode a s =
     (case nonempty (la_client_order_id a) of
        None \<Rightarrow> (s, Inr 0)
      | Some cid \<Rightarrow>
          if is_order_terminal (es_orders s) cid then (s, Inr 0)
          else case cancel_exchange_id a cid (es_orders s) of
            None \<Rightarrow> (cancel_error env live_mode a cid ''cancel_missing_exchange_order_id'' ''error'' s, Inr 0)
          | Some exchange_id \<Rightarrow>
              let s1 = write_orders env (\<lambda>rows now. record_stage4_order_cancel_requested rows now cid) s in
              if live_mode then cancel_live env a cid exchange_id s1
              else (write_orders env (\<lambda>rows now. record_stage4_order_canceled rows now cid) s1, Inr 1))"

subsection \<open>Definitions: replace groups\<close>

record replace_group =
  rg_symbol :: string
  rg_side :: string
  rg_cancel_actions :: "lifecycle_action list"
  rg_submit_action :: lifecycle_action
  rg_submit_count :: nat
  rg_had_multiple_submits :: bool
  rg_selected_submit_client_order_id :: "string option"

record action_bucket =
  ab_cancel :: "lifecycle_action list"
  ab_submit :: "lifecycle_action list"
  ab_other :: "lifecycle_action list"

definition add_to_bucket :: "lifecycle_action \<Rightarrow> action_bucket \<Rightarrow> action_bucket" where
  "add_to_bucket a b =
     (if la_type a = CANCEL \<and> la_reason a = ''replace_cancel'' then b\<lparr>ab_cancel := ab_cancel b @ [a]\<rparr>
      else if la_type a = SUBMIT \<and> la_reason a = ''replace_submit'' then b\<lparr>ab_submit := ab_submit b @ [a]\<rparr>
      else b\<lparr>ab_other := ab_other b @ [a]\<rparr>)"

definition empty_bucket :: action_bucket where
  "empty_bucket = \<lparr>ab_cancel = [], ab_submit = [], ab_other = []\<rparr>"

definition group_action ::
  "(string \<times> string, action_bucket) dict \<Rightarrow> lifecycle_action \<Rightarrow> (string \<times> string, action_bucket) dict" where
  "group_action d a =
     (let k = (la_symbol a, la_side a) in AList.update k (add_to_bucket a (dict_get d k empty_bucket)) d)"

definition split_bucket ::
  "lifecycle_action list \<times> replace_group list \<Rightarrow> (string \<times> string) \<times> action_bucket \<Rightarrow> lifecycle_action list \<times> replace_group list"
where
  "split_bucket acc kb =
     (let (regular, groups) = acc; ((symb, side), b) = kb; regular' = regular @ ab_other b in
      if ab_cancel b \<noteq> [] \<and> ab_submit b \<noteq> [] then
        (regular', groups @ [\<lparr>rg_symbol = symb, rg_side = side, rg_cancel_actions = ab_cancel b, rg_submit_action = last (ab_submit b),
           rg_submit_count = length (ab_submit b), rg_had_multiple_submits = (1 < length (ab_submit b)),
           rg_selected_submit_client_order_id = la_client_order_id (last (ab_submit b))\<rparr>])
      else (regular' @ ab_cancel b @ ab_submit b, groups))"

definition extract_replace_groups :: "lifecycle_action list \<Rightarrow> lifecycle_action list \<times> replace_group list" where
  "extract_replace_groups actions = foldl split_bucket ([], []) (foldl group_action [] actions)"

fun join_texts :: "string \<Rightarrow> string list \<Rightarrow> string" where
  "join_texts sep [] = []"
| "join_texts sep [x] = x"
| "join_texts sep (x # y # xs) = x @ sep @ join_texts sep (y # xs)"

definition id_or_missing :: "string option \<Rightarrow> string" where
  "id_or_missing x = (case nonempty x of None \<Rightarrow> ''missing'' | Some s \<Rightarrow> s)"

definition replace_tx_id :: "(string \<Rightarrow> string) \<Rightarrow> replace_group \<Rightarrow> string" where
  "replace_tx_id sha256 g =
     (let old_ids = sort (map (\<lambda>a. id_or_missing (la_client_order_id a)) (rg_cancel_actions g));
          payload = join_texts ''|'' ([rg_symbol g, rg_side g, id_or_missing (la_client_order_id (rg_submit_action g))] @ old_ids)
      in ''rpl:'' @ take 24 (sha256 payload))"

definition set_replace :: "'x exec_env \<Rightarrow> (replace_table \<Rightarrow> instant \<Rightarrow> replace_table) \<Rightarrow> 'x exec_state \<Rightarrow> 'x exec_state" where
  "set_replace env g = with_now env (\<lambda>now s. s\<lparr>es_replace := g (es_replace s) now\<rparr>)"

definition move_replace_tx :: "'x exec_env \<Rightarrow> string \<Rightarrow> replace_state \<Rightarrow> string option \<Rightarrow> 'x exec_state \<Rightarrow> 'x exec_state" where
  "move_replace_tx env i state err = set_replace env (\<lambda>tab now. update_replace_tx_state tab now i state err)"

definition old_order_statuses :: "string list" where
  "old_order_statuses = [''canceled'', ''filled'', ''rejected'', ''unknown_closed'']"

text \<open>The first cancelled order that is not closed here and at the exchange, as the reason.\<close>

definition unconfirmed :: "order_row list \<Rightarrow> string list \<Rightarrow> lifecycle_action \<Rightarrow> string option" where
  "unconfirmed rows open_ids a =
     (case nonempty (la_client_order_id a) of
        None \<Rightarrow> None
      | Some old_id \<Rightarrow>
          if old_id \<in> set open_ids then Some (''old_id_still_open:'' @ old_id)
          else case get_stage4_order_by_client_id rows old_id of
            None \<Rightarrow> Some (''local_missing_record:'' @ old_id)
          | Some x \<Rightarrow> if o4_status x \<in> set old_order_statuses then None
                      else Some (''local_state_not_terminal:'' @ old_id @ '':'' @ o4_status x))"

fun first_some :: "('a \<Rightarrow> 'b option) \<Rightarrow> 'a list \<Rightarrow> 'b option" where
  "first_some f [] = None"
| "first_some f (x # xs) = (case f x of None \<Rightarrow> first_some f xs | Some y \<Rightarrow> Some y)"

definition confirm_replace_cancels :: "'x exec_env \<Rightarrow> replace_group \<Rightarrow> 'x exec_state \<Rightarrow> 'x exec_state \<times> string option" where
  "confirm_replace_cancels env g s =
     (case ex_open_orders (ev_exchange env) (es_exchange s) (rg_symbol g) of
        (x, Inl e) \<Rightarrow> (s\<lparr>es_exchange := x\<rparr>, Some (''reconcile_failed:'' @ ev_type_name env e))
      | (x, Inr open_orders) \<Rightarrow>
          let open_ids = List.map_filter (\<lambda>x. nonempty (o4_client_order_id x)) open_orders
          in (s\<lparr>es_exchange := x\<rparr>, first_some (unconfirmed (es_orders s) open_ids) (rg_cancel_actions g)))"

definition cancel_all :: "'x exec_env \<Rightarrow> bool \<Rightarrow> lifecycle_action list \<Rightarrow> ('x, nat) exec" where
  "cancel_all env live_mode actions = sfold (\<lambda>a n s. sbind (execute_cancel_action env live_mode a s) (\<lambda>k s'. (s', Inr (n + k)))) actions 0"

definition plain_submit :: "lifecycle_action \<Rightarrow> lifecycle_action" where
  "plain_submit a = a\<lparr>la_type := SUBMIT, la_exchange_order_id := None, la_replace_for := None\<rparr>"

definition submit_replacement :: "'x exec_env \<Rightarrow> bool \<Rightarrow> replace_group \<Rightarrow> string \<Rightarrow> nat \<Rightarrow> ('x, exec_counts) exec" where
  "submit_replacement env live_mode g i canceled s =
     (let s1 = move_replace_tx env i RT_SUBMIT_SENT None (move_replace_tx env i RT_CANCEL_CONFIRMED None s) in
      sbind (execute_submit_action env live_mode (plain_submit (rg_submit_action g)) s1) (\<lambda>c s2.
        (if 0 < ct_submitted c \<or> 0 < ct_simulated c then move_replace_tx env i RT_SUBMIT_CONFIRMED None s2
         else if 0 < ct_rejected c then move_replace_tx env i RT_FAILED (Some ''submit_rejected'') s2
         else s2, Inr (c\<lparr>ct_canceled := canceled\<rparr>))))"

definition run_replace_tx :: "'x exec_env \<Rightarrow> bool \<Rightarrow> replace_group \<Rightarrow> string \<Rightarrow> ('x, exec_counts) exec" where
  "run_replace_tx env live_mode g i s0 =
     (case read_freeze env s0 of
        (f, s) \<Rightarrow>
          if fz_active f then (move_replace_tx env i RT_BLOCKED_UNKNOWN (Some ''freeze_unknown_orders'') s, Inr no_counts)
          else sbind (cancel_all env live_mode (rg_cancel_actions g) s) (\<lambda>canceled s1.
            case confirm_replace_cancels env g (move_replace_tx env i RT_CANCEL_SENT None s1) of
              (s2, Some reason) \<Rightarrow>
                (move_replace_tx env i RT_BLOCKED_RECONCILE (Some reason) s2, Inr (no_counts\<lparr>ct_canceled := canceled\<rparr>))
            | (s2, None) \<Rightarrow> submit_replacement env live_mode g i canceled s2))"

definition drop_underscores :: "string \<Rightarrow> string" where
  "drop_underscores s = filter (\<lambda>c. c \<noteq> CHR ''_'') s"

definition same_group :: "replace_tx \<Rightarrow> replace_group \<Rightarrow> string list \<Rightarrow> string \<Rightarrow> bool" where
  "same_group t g old_ids new_id \<longleftrightarrow>
     drop_underscores (rt_symbol t) = drop_underscores (rg_symbol g) \<and> rt_side t = rg_side g
     \<and> set (rt_old_client_order_ids t) = set old_ids \<and> rt_new_client_order_id t = new_id"

definition execute_replace_group :: "'x exec_env \<Rightarrow> bool \<Rightarrow> replace_group \<Rightarrow> ('x, exec_counts) exec" where
  "execute_replace_group env live_mode g s =
     (let i = replace_tx_id (ev_sha256 env) g;
          old_ids = List.map_filter (\<lambda>a. nonempty (la_client_order_id a)) (rg_cancel_actions g)
      in case nonempty (la_client_order_id (rg_submit_action g)) of
           None \<Rightarrow> (s, Inr no_counts)
         | Some new_id \<Rightarrow>
             if old_ids = [] then (s, Inr no_counts)
             else case get_replace_tx (es_replace s) i of
               None \<Rightarrow> run_replace_tx env live_mode g i
                 (set_replace env (\<lambda>tab now. upsert_replace_tx tab now i (rg_symbol g) (rg_side g) old_ids new_id RT_INIT None) s)
             | Some t \<Rightarrow>
                 if \<not> same_group t g old_ids new_id then
                   (move_replace_tx env i (rt_state t) (Some ''replace_tx_metadata_mismatch'') s, Inr no_counts)
                 else if replace_terminal (rt_state t) then (s, Inr no_counts)
                 else run_replace_tx env live_mode g i s)"

subsection \<open>Definitions: a run\<close>

definition kill_switch_active :: "exec_settings \<Rightarrow> bool" where
  "kill_switch_active st = (case x4_kill_switch_effective st of None \<Rightarrow> x4_kill_switch st | Some b \<Rightarrow> b)"

definition live_mode_of :: "exec_settings \<Rightarrow> bool" where
  "live_mode_of st \<longleftrightarrow> is_live_trading_enabled st \<and> \<not> x4_dry_run st"

text \<open>What kill switch and freeze leave: cancellations, and not even those under \<open>freeze_all\<close>.\<close>

definition keep_cancels :: "bool \<Rightarrow> lifecycle_action list \<Rightarrow> lifecycle_action list" where
  "keep_cancels freeze_all = filter (\<lambda>a. la_type a = CANCEL \<and> \<not> freeze_all)"

definition keep_group_cancels :: "bool \<Rightarrow> replace_group list \<Rightarrow> replace_group list" where
  "keep_group_cancels freeze_all groups =
     filter (\<lambda>g. rg_cancel_actions g \<noteq> []) (map (\<lambda>g. g\<lparr>rg_cancel_actions := filter (\<lambda>_. \<not> freeze_all) (rg_cancel_actions g)\<rparr>) groups)"

definition execute_regular :: "'x exec_env \<Rightarrow> bool \<Rightarrow> lifecycle_action \<Rightarrow> exec_counts \<Rightarrow> ('x, exec_counts) exec" where
  "execute_regular env live_mode a c s =
     (case la_type a of
        CANCEL \<Rightarrow> sbind (execute_cancel_action env live_mode a s) (\<lambda>n s'. (s', Inr (add_counts c (no_counts\<lparr>ct_canceled := n\<rparr>))))
      | SUBMIT \<Rightarrow> sbind (execute_submit_action env live_mode a s) (\<lambda>c' s'. (s', Inr (add_counts c c')))
      | REPLACE \<Rightarrow> (s, Inr c))"

definition execute_group :: "'x exec_env \<Rightarrow> bool \<Rightarrow> bool \<Rightarrow> replace_group \<Rightarrow> exec_counts \<Rightarrow> ('x, exec_counts) exec" where
  "execute_group env live_mode blocked g c s =
     (if blocked then sbind (cancel_all env live_mode (rg_cancel_actions g) s) (\<lambda>n s'. (s', Inr (add_counts c (no_counts\<lparr>ct_canceled := n\<rparr>))))
      else sbind (execute_replace_group env live_mode g s) (\<lambda>c' s'. (s', Inr (add_counts c c'))))"

record execution_report =
  xr4_executed_total :: nat
  xr4_counts :: exec_counts
  xr4_rejected_by_code :: "(int, nat) dict"
  xr4_rejects_breakdown :: "(stage4_reject_reason, nat) dict"
  xr4_reject_details :: "reject_detail list"

fun reason_value :: "stage4_reject_reason \<Rightarrow> string" where
  "reason_value MIN_TOTAL = ''min_total''"
| "reason_value MIN_QTY = ''min_qty''"
| "reason_value TICK_SIZE = ''tick_size''"
| "reason_value STEP_SIZE = ''step_size''"
| "reason_value BREAKER_OPEN = ''breaker_open''"
| "reason_value KILLSWITCH = ''killswitch''"
| "reason_value FREEZE = ''freeze''"
| "reason_value MISSING_RULES = ''missing_rules''"
| "reason_value MAX_ORDER_NOTIONAL = ''max_order_notional''"
| "reason_value UNKNOWN = ''unknown''"

definition report_of :: "exec_counts \<Rightarrow> 'x exec_state \<Rightarrow> execution_report" where
  "report_of c s =
     \<lparr>xr4_executed_total = ct_submitted c + ct_canceled c + ct_simulated c, xr4_counts = c,
      xr4_rejected_by_code = sort_key fst (es_rejects_by_code s),
      xr4_rejects_breakdown = sort_key (\<lambda>(r, n). reason_value r) (es_rejects_breakdown s),
      xr4_reject_details = es_reject_details s\<rparr>"

definition run_actions ::
  "'x exec_env \<Rightarrow> bool \<Rightarrow> lifecycle_action list \<Rightarrow> replace_group list \<Rightarrow> ('x, execution_report) exec" where
  "run_actions env blocked regular groups s =
     (let live_mode = live_mode_of (ev_settings env) in
      sbind (sfold (execute_regular env live_mode) regular no_counts s) (\<lambda>c s1.
      sbind (sfold (execute_group env live_mode blocked) groups c s1) (\<lambda>c' s2. (s2, Inr (report_of c' s2)))))"

definition restrict_actions ::
  "bool \<Rightarrow> bool \<Rightarrow> lifecycle_action list \<times> replace_group list \<Rightarrow> lifecycle_action list \<times> replace_group list" where
  "restrict_actions active freeze_all rg =
     (if active then (keep_cancels freeze_all (fst rg), keep_group_cancels freeze_all (snd rg)) else rg)"

definition execute_with_report :: "'x exec_env \<Rightarrow> lifecycle_action list \<Rightarrow> ('x, execution_report) exec" where
  "execute_with_report env actions s =
     (let st = ev_settings env; freeze_all = x4_kill_switch_freeze_all st in
      if x4_live_trading st \<and> \<not> is_live_trading_enabled st then
        (s, Inl (RuntimeError ''LIVE_TRADING requires LIVE_TRADING_ACK=I_UNDERSTAND''))
      else
        case read_freeze env (s\<lparr>es_rejects_by_code := [], es_rejects_breakdown := [], es_reject_details := []\<rparr>) of
          (f, s1) \<Rightarrow>
            let ks = kill_switch_active st;
                rg = restrict_actions (fz_active f) freeze_all (restrict_actions ks freeze_all (extract_replace_groups actions))
            in run_actions env (ks \<or> fz_active f) (fst rg) (snd rg) s1)"

definition execute_actions :: "'x exec_env \<Rightarrow> lifecycle_action list \<Rightarrow> ('x, nat) exec" where
  "execute_actions env actions s =
     sbind (execute_with_report env actions s) (\<lambda>r s'. (s', Inr (xr4_executed_total r)))"

end
