(* ===== verification/Stage4_Execution_Props.thy ===== *)
theory Stage4_Execution_Props
  imports Stage4_Execution
begin

text \<open>
  What the execution gate of stage 4 guarantees: which submissions reach the exchange, that a
  replacement waits for the orders it replaces, how a replace transaction moves, and how often a
  call is repeated.

  A run is a chain of small steps, so a reflexive and transitive relation between states that every
  step keeps holds between the first and the last state, exception or not: the locale \<open>step_order\<close>
  has the rules for the sequencing operators and is interpreted by the relations needed here.
\<close>

subsection \<open>Relations kept by every step\<close>

locale step_order =
  fixes R :: "'s \<Rightarrow> 's \<Rightarrow> bool"
  assumes refl: "R s s"
    and trans: "R s t \<Longrightarrow> R t u \<Longrightarrow> R s u"
begin

lemma sbind: "R s (fst m) \<Longrightarrow> (\<And>x t. R t (fst (f x t))) \<Longrightarrow> R s (fst (sbind m f))"
  by (cases m) (auto simp: sbind_def intro: trans split: sum.split)

lemma sfold: "(\<And>x acc t. x \<in> set xs \<Longrightarrow> R t (fst (f x acc t))) \<Longrightarrow> R s (fst (sfold f xs acc s))"
proof (induction xs arbitrary: acc s)
  case Nil
  show ?case by (simp add: refl)
next
  case (Cons x xs)
  have "R s (fst (f x acc s))" using Cons.prems by simp
  moreover have "R t (fst (sfold f xs y t))" for y t using Cons.IH Cons.prems by simp
  ultimately show ?case by (simp add: sbind)
qed

lemma pure: "R s (fst (s, x))"
  by (simp add: refl)

end

lemma fst_sbind_return [simp]: "fst (sbind m (\<lambda>x t. (t, Inr (f x)))) = fst m"
  by (cases m) (simp add: sbind_def split: sum.split)

subsection \<open>The calls of a run\<close>

definition calls_ok :: "(exchange_call \<Rightarrow> bool) \<Rightarrow> 'x exec_state \<Rightarrow> 'x exec_state \<Rightarrow> bool" where
  "calls_ok P s t \<longleftrightarrow> (\<exists>new. es_calls t = es_calls s @ new \<and> (\<forall>c \<in> set new. P c))"

interpretation calls: step_order "calls_ok P" for P
proof
  show "calls_ok P s s" for s :: "'x exec_state" by (simp add: calls_ok_def)
  show "calls_ok P s u" if "calls_ok P s t" "calls_ok P t u" for s t u :: "'x exec_state"
    using that by (fastforce simp: calls_ok_def)
qed

lemma calls_ok_same: "es_calls t = es_calls s \<Longrightarrow> calls_ok P s t"
  by (simp add: calls_ok_def)

lemma calls_ok_left: "es_calls s' = es_calls s \<Longrightarrow> calls_ok P s' t = calls_ok P s t"
  by (simp add: calls_ok_def)

lemma calls_ok_mono: "calls_ok P s t \<Longrightarrow> (\<And>c. P c \<Longrightarrow> Q c) \<Longrightarrow> calls_ok Q s t"
  by (fastforce simp: calls_ok_def)

lemma calls_ok_member: "calls_ok P s t \<Longrightarrow> c \<in> set (drop (length (es_calls s)) (es_calls t)) \<Longrightarrow> P c"
  by (auto simp: calls_ok_def)

named_theorems calls_kept \<open>steps that call nothing\<close>

lemma with_now_kept: "(\<And>now t. es_calls t = es_calls s \<Longrightarrow> es_calls (f now t) = es_calls s) \<Longrightarrow> es_calls (with_now env f s) = es_calls s"
  by (simp add: with_now_def)

lemma write_orders_calls [calls_kept]: "es_calls (write_orders env g s) = es_calls s"
  by (simp add: write_orders_def with_now_def set_orders_def)

lemma try_write_orders_calls [calls_kept]: "es_calls (fst (try_write_orders env g s)) = es_calls s"
  by (simp add: try_write_orders_def with_now_def set_orders_def split: sum.split)

lemma read_freeze_calls: "read_freeze env s = (f, t) \<Longrightarrow> es_calls t = es_calls s"
  by (auto simp: read_freeze_def with_now_def split: prod.splits)

lemma move_replace_tx_calls [calls_kept]: "es_calls (move_replace_tx env i st err s) = es_calls s"
  by (simp add: move_replace_tx_def set_replace_def with_now_def)

lemma set_replace_calls [calls_kept]: "es_calls (set_replace env g s) = es_calls s"
  by (simp add: set_replace_def with_now_def)

lemma reject_calls [calls_kept]:
  "es_calls (record_reject_detail a reason code mins p q tot s) = es_calls s"
  "es_calls (inc_reject_code n s) = es_calls s"
  "es_calls (reject_row env live a cid reason p q code s) = es_calls s"
  "es_calls (cancel_error env live a cid reason status s) = es_calls s"
  "es_calls (note_symbol_reject env symb s) = es_calls s"
  by (simp_all add: record_reject_detail_def inc_reject_code_def reject_row_def cancel_error_def note_symbol_reject_def
      with_now_def Let_def calls_kept)

lemma reject_1123_calls [calls_kept]: "es_calls (fst (reject_1123 env live a cid reason p q s)) = es_calls s"
  by (simp add: reject_1123_def calls_kept)

lemma confirm_calls: "confirm_replace_cancels env g s = (t, r) \<Longrightarrow> es_calls t = es_calls s"
  by (auto simp: confirm_replace_cancels_def Let_def split: prod.splits sum.splits)

text \<open>What the two calls of the exchange add.\<close>

lemma call_submit_calls:
  assumes "call_submit env q s = (t, r)"
  shows "\<exists>rs. es_calls t = es_calls s @ map (Submit_call q) rs \<and> length rs \<le> nat (wc_submit_retry_max_attempts (ev_wrapper env))
    \<and> (\<forall>x \<in> set (butlast rs). passing x) \<and> (\<forall>v. r = Inr (Done v) \<longrightarrow> rs \<noteq> [] \<and> last rs = Inr v)"
proof -
  obtain w r0 where w: "wrapper_submit (ev_wrapper env) (ev_retry_after env) (ev_rand env) (ev_exchange env) q
      (es_exchange s, es_calls s) = (w, r0)" by (metis prod.exhaust)
  then have "es_calls t = snd w" "r = r0" using assms by (auto simp: call_submit_def split: prod.splits)
  then show ?thesis using wrapper_submit_calls [OF w [unfolded wrapper_submit_def]] by simp
qed

definition submit_with :: "(submit_request \<Rightarrow> bool) \<Rightarrow> exchange_call \<Rightarrow> bool" where
  "submit_with P c = (case c of Submit_call q r \<Rightarrow> P q | Cancel_call i r \<Rightarrow> True)"

lemma submit_with_simps [simp]: "submit_with P (Submit_call q r) = P q" "submit_with P (Cancel_call i b)"
  by (simp_all add: submit_with_def)

lemma call_submit_ok: "P q \<Longrightarrow> calls_ok (submit_with P) s (fst (call_submit env q s))"
  using call_submit_calls [of env q s "fst (call_submit env q s)" "snd (call_submit env q s)"] by (auto simp: calls_ok_def)

definition no_submit :: "exchange_call \<Rightarrow> bool" where
  "no_submit = submit_with (\<lambda>_. False)"

lemma call_cancel_ok: "calls_ok no_submit s (fst (call_cancel env i s))"
proof -
  obtain w r0 where w: "wrapper_cancel (ev_wrapper env) (ev_retry_after env) (ev_rand env) (ev_exchange env) i
      (es_exchange s, es_calls s) = (w, r0)" by (metis prod.exhaust)
  then have "es_calls (fst (call_cancel env i s)) = snd w" by (auto simp: call_cancel_def split: prod.splits)
  then show ?thesis using wrapper_cancel_calls [OF w [unfolded wrapper_cancel_def]] by (auto simp: calls_ok_def no_submit_def)
qed

subsection \<open>Which submissions reach the exchange\<close>

text \<open>The request is the sized order of an action, within the limits, and side effects are allowed.\<close>

definition admitted :: "'x exec_env \<Rightarrow> lifecycle_action \<Rightarrow> submit_request \<Rightarrow> bool" where
  "admitted env a q \<longleftrightarrow> ensure_live_write_side_effects_allowed env = Inr () \<and>
     (\<exists>d r z. ev_boundary env (la_symbol a) = Inr d \<and> bo_rules d = Some r
        \<and> size_order (ev_settings env) a (get_rules_stage4 r) = Inr z
        \<and> sq_symbol q = la_symbol a \<and> sq_side q = la_side a \<and> sq_price q = zo_price z \<and> sq_qty q = zo_qty z
        \<and> zo_min_required z \<le> zo_notional z
        \<and> (x4_risk_max_order_notional_try (ev_settings env) \<le> 0 \<or> zo_notional z \<le> x4_risk_max_order_notional_try (ev_settings env)))"

lemma after_ack_calls: "es_calls (fst (after_ack env a cid xid z r s)) = es_calls s"
  by (cases r) (simp_all add: after_ack_def calls_kept)

lemma send_order_ok:
  assumes "ensure_live_write_side_effects_allowed env = Inr () \<Longrightarrow>
    P \<lparr>sq_symbol = la_symbol a, sq_side = la_side a, sq_price = zo_price z, sq_qty = zo_qty z, sq_client_order_id = xid\<rparr>"
  shows "calls_ok (submit_with P) s (fst (send_order env a cid xid z s))"
proof (cases "ensure_live_write_side_effects_allowed env")
  case (Inl e)
  then show ?thesis by (simp add: send_order_def calls.refl)
next
  case (Inr u)
  let ?q = "\<lparr>sq_symbol = la_symbol a, sq_side = la_side a, sq_price = zo_price z, sq_qty = zo_qty z, sq_client_order_id = xid\<rparr>"
  obtain s' r where c: "call_submit env ?q s = (s', r)" by (metis prod.exhaust)
  have "calls_ok (submit_with P) s s'" using call_submit_ok [of P ?q s env] assms Inr c by simp
  moreover have "es_calls (fst (send_order env a cid xid z s)) = es_calls s'"
    using Inr c by (simp add: send_order_def after_ack_calls calls_kept split: sum.split)
  ultimately show ?thesis by (simp add: calls_ok_def)
qed

lemma submit_sized_ok:
  assumes "\<And>z xid'. size_order (ev_settings env) a rules = Inr z \<Longrightarrow> zo_min_required z \<le> zo_notional z \<Longrightarrow>
      x4_risk_max_order_notional_try (ev_settings env) \<le> 0 \<or> zo_notional z \<le> x4_risk_max_order_notional_try (ev_settings env) \<Longrightarrow>
      ensure_live_write_side_effects_allowed env = Inr () \<Longrightarrow> live_mode \<Longrightarrow>
      P \<lparr>sq_symbol = la_symbol a, sq_side = la_side a, sq_price = zo_price z, sq_qty = zo_qty z, sq_client_order_id = xid'\<rparr>"
  shows "calls_ok (submit_with P) s (fst (submit_sized env live_mode a cid xid rules s))"
proof (cases "size_order (ev_settings env) a rules")
  case (Inl e)
  then show ?thesis by (simp add: submit_sized_def calls.refl)
next
  case (Inr z)
  let ?cap = "x4_risk_max_order_notional_try (ev_settings env)"
  consider "zo_notional z < zo_min_required z" | "\<not> zo_notional z < zo_min_required z" "0 < ?cap \<and> ?cap < zo_notional z"
    | "\<not> zo_notional z < zo_min_required z" "\<not> (0 < ?cap \<and> ?cap < zo_notional z)" "\<not> live_mode"
    | "\<not> zo_notional z < zo_min_required z" "\<not> (0 < ?cap \<and> ?cap < zo_notional z)" live_mode by blast
  then show ?thesis
  proof cases
    case 3
    then show ?thesis using Inr by (simp add: submit_sized_def Let_def calls_ok_same calls_kept)
  next
    case 4
    then have "calls_ok (submit_with P) s (fst (send_order env a cid xid z s))"
      by (intro send_order_ok assms Inr) auto
    then show ?thesis using Inr 4 by (auto simp: submit_sized_def Let_def)
  qed (use Inr in \<open>simp_all add: submit_sized_def Let_def calls_ok_same calls_kept\<close>)
qed

lemma submit_new_ok:
  assumes "live_mode \<Longrightarrow> Q" "\<And>q. Q \<Longrightarrow> admitted env a q \<Longrightarrow> P q"
  shows "calls_ok (submit_with P) s (fst (submit_new env live_mode a cid s))"
proof -
  have sized: "calls_ok (submit_with P) t (fst (submit_sized env live_mode a cid xid (get_rules_stage4 r) t))"
    if "ev_boundary env (la_symbol a) = Inr d" "bo_rules d = Some r" for t d r xid
    using that assms by (intro submit_sized_ok) (auto simp: admitted_def)
  define now t xid where "now = ev_clock env (es_ticks s)" and "t = s\<lparr>es_ticks := Suc (es_ticks s)\<rparr>"
    and "xid = build_exchange_client_id (ev_sha256 env) cid (la_symbol a) (la_side a)"
  note unfold = submit_new_def with_now_def Let_def now_def [symmetric] t_def [symmetric] xid_def [symmetric]
  have "calls_ok (submit_with P) t (fst (submit_new env live_mode a cid s))"
  proof (cases "sd_should_dedupe (stage4_submit_dedupe_status (es_orders t) now cid xid)")
    case True
    then show ?thesis by (simp add: unfold calls.refl)
  next
    case False
    show ?thesis
    proof (cases "ev_boundary env (la_symbol a)")
      case (Inl e)
      then show ?thesis using False by (simp add: unfold calls.refl)
    next
      case (Inr d)
      then show ?thesis using False sized [OF Inr]
        by (cases "bo_rules d") (simp_all add: unfold calls_ok_same calls_kept)
    qed
  qed
  then show ?thesis by (simp add: calls_ok_def t_def)
qed

lemma execute_submit_ok:
  assumes "live_mode \<Longrightarrow> Q" "\<And>q. Q \<Longrightarrow> admitted env a q \<Longrightarrow> P q"
  shows "calls_ok (submit_with P) s (fst (execute_submit_action env live_mode a s))"
proof -
  obtain f t where t: "read_freeze env s = (f, t)" by force
  define now u where "now = ev_clock env (es_ticks t)" and "u = t\<lparr>es_ticks := Suc (es_ticks t)\<rparr>"
  note unfold = execute_submit_action_def with_now_def t now_def [symmetric] u_def [symmetric]
  have u: "es_calls u = es_calls s" using read_freeze_calls [OF t] by (simp add: u_def)
  have new: "calls_ok (submit_with P) s (fst (submit_new env live_mode a cid u))" for cid
    using submit_new_ok [of live_mode Q env a P u cid] assms unfolding calls_ok_left [OF u] by blast
  show ?thesis
  proof (cases "fz_active f \<or> nonempty (la_client_order_id a) = None")
    case True
    then show ?thesis using read_freeze_calls [OF t] by (auto simp: unfold calls_ok_same)
  next
    case False
    then obtain cid where "nonempty (la_client_order_id a) = Some cid" by auto
    then show ?thesis using False new u
      by (cases "cooldown_gate env a (now div 1000000) u") (simp_all add: unfold calls_ok_same calls_kept)
  qed
qed

subsection \<open>Cancellations and replacements\<close>

lemma no_submit_ok: "calls_ok no_submit s t \<Longrightarrow> calls_ok (submit_with P) s t"
  unfolding no_submit_def by (erule calls_ok_mono) (auto simp: submit_with_def split: exchange_call.splits)

lemma cancel_live_ok: "calls_ok no_submit s (fst (cancel_live env a cid i s))"
proof (cases "ensure_live_write_side_effects_allowed env")
  case (Inr u)
  have "calls_ok no_submit s (fst (sbind (call_cancel env i s) (\<lambda>r s'.
            case r of
              Uncertain e \<Rightarrow> (cancel_error env True a cid ''cancel_uncertain_outcome'' ''unknown'' s', Inr 0)
            | Done b \<Rightarrow> (s', Inr (if b then 1 else 0)))))"
    by (rule calls.sbind [OF call_cancel_ok]) (simp add: calls_ok_same calls_kept split: outcome.split)
  then show ?thesis using Inr by (simp add: cancel_live_def)
qed (simp add: cancel_live_def calls.refl)

lemma execute_cancel_ok: "calls_ok no_submit s (fst (execute_cancel_action env live_mode a s))"
proof (cases "nonempty (la_client_order_id a)")
  case (Some cid)
  let ?s1 = "write_orders env (\<lambda>rows now. record_stage4_order_cancel_requested rows now cid) s"
  have "calls_ok no_submit s (fst (cancel_live env a cid i ?s1))" for i
    using cancel_live_ok [of ?s1 env a cid i] unfolding calls_ok_left [OF write_orders_calls] .
  then show ?thesis using Some
    by (cases "cancel_exchange_id a cid (es_orders s)") (auto simp: execute_cancel_action_def Let_def calls_ok_same calls_kept)
qed (simp add: execute_cancel_action_def calls.refl)

lemma cancel_all_ok: "calls_ok no_submit s (fst (cancel_all env live_mode xs s))"
  unfolding cancel_all_def by (rule calls.sfold) (simp add: execute_cancel_ok)

lemma size_order_plain [simp]: "size_order st (plain_submit a) rules = size_order st a rules"
  by (simp add: size_order_def rounding_fix_def plain_submit_def)

lemma admitted_plain [simp]: "admitted env (plain_submit a) q = admitted env a q"
  by (simp add: admitted_def) (simp add: plain_submit_def)

lemma submit_replacement_ok:
  assumes "live_mode \<Longrightarrow> Q" "\<And>q. Q \<Longrightarrow> admitted env (rg_submit_action g) q \<Longrightarrow> P q"
  shows "calls_ok (submit_with P) s (fst (submit_replacement env live_mode g i n s))"
proof -
  let ?s1 = "move_replace_tx env i RT_SUBMIT_SENT None (move_replace_tx env i RT_CANCEL_CONFIRMED None s)"
  have "calls_ok (submit_with P) ?s1 (fst (execute_submit_action env live_mode (plain_submit (rg_submit_action g)) ?s1))"
    using assms by (intro execute_submit_ok [of _ Q]) simp_all
  then have "calls_ok (submit_with P) s (fst (execute_submit_action env live_mode (plain_submit (rg_submit_action g)) ?s1))"
    by (simp add: calls_ok_def calls_kept)
  then show ?thesis
    unfolding submit_replacement_def Let_def by (rule calls.sbind) (simp add: calls_ok_same calls_kept)
qed

lemma run_replace_ok:
  assumes "live_mode \<Longrightarrow> Q" "\<And>q. Q \<Longrightarrow> admitted env (rg_submit_action g) q \<Longrightarrow> P q"
  shows "calls_ok (submit_with P) s (fst (run_replace_tx env live_mode g i s))"
proof -
  obtain f t where t: "read_freeze env s = (f, t)" by force
  have rest: "calls_ok (submit_with P) u (fst (case confirm_replace_cancels env g (move_replace_tx env i RT_CANCEL_SENT None u) of
              (s2, Some reason) \<Rightarrow>
                (move_replace_tx env i RT_BLOCKED_RECONCILE (Some reason) s2, Inr (no_counts\<lparr>ct_canceled := n\<rparr>))
            | (s2, None) \<Rightarrow> submit_replacement env live_mode g i n s2))" for u n
  proof -
    obtain s2 r where c: "confirm_replace_cancels env g (move_replace_tx env i RT_CANCEL_SENT None u) = (s2, r)" by force
    have s2: "es_calls s2 = es_calls u" using confirm_calls [OF c] by (simp add: calls_kept)
    show ?thesis
    proof (cases r)
      case None
      then show ?thesis using submit_replacement_ok [of live_mode Q env g P s2 i n] assms c
        unfolding calls_ok_left [OF s2] by simp
    next
      case (Some reason)
      then show ?thesis using c s2 by (simp add: calls_ok_same calls_kept)
    qed
  qed
  have "calls_ok (submit_with P) t (fst (run_replace_tx env live_mode g i s))"
    using calls.sbind [OF no_submit_ok [OF cancel_all_ok] rest, of t]
    by (auto simp: run_replace_tx_def t calls_ok_same calls_kept)
  then show ?thesis unfolding calls_ok_left [OF read_freeze_calls [OF t]] .
qed

lemma execute_replace_ok:
  assumes "live_mode \<Longrightarrow> Q" "\<And>q. Q \<Longrightarrow> admitted env (rg_submit_action g) q \<Longrightarrow> P q"
  shows "calls_ok (submit_with P) s (fst (execute_replace_group env live_mode g s))"
proof -
  have new: "calls_ok (submit_with P) s (fst (run_replace_tx env live_mode g i (set_replace env f s)))" for i f
    using run_replace_ok [of live_mode Q env g P "set_replace env f s" i] assms
    unfolding calls_ok_left [OF set_replace_calls] by blast
  show ?thesis
    using new run_replace_ok [of live_mode Q env g P s] assms
    unfolding execute_replace_group_def Let_def
    by (auto simp: calls_ok_same calls_kept split: option.split)
qed

subsection \<open>Grouping keeps the actions\<close>

definition bucket_ok :: "lifecycle_action set \<Rightarrow> action_bucket \<Rightarrow> bool" where
  "bucket_ok A b \<longleftrightarrow> (\<forall>a \<in> set (ab_cancel b). a \<in> A \<and> la_type a = CANCEL)
     \<and> (\<forall>a \<in> set (ab_submit b). a \<in> A \<and> la_type a = SUBMIT) \<and> set (ab_other b) \<subseteq> A"

lemma group_actions_ok:
  assumes "\<forall>(k, b) \<in> set d. bucket_ok A b" "set actions \<subseteq> A"
  shows "\<forall>(k, b) \<in> set (foldl group_action d actions). bucket_ok A b"
  using assms
proof (induction actions arbitrary: d)
  case (Cons a actions)
  let ?k = "(la_symbol a, la_side a)"
  have "bucket_ok A (dict_get d ?k empty_bucket)"
    using Cons.prems(1) by (auto simp: bucket_ok_def empty_bucket_def dest!: map_of_SomeD split: option.split)
  then have "bucket_ok A (add_to_bucket a (dict_get d ?k empty_bucket))"
    using Cons.prems(2) unfolding add_to_bucket_def by (auto simp: bucket_ok_def split: if_splits)
  moreover have "set (AList.update ?k b d) \<subseteq> insert (?k, b) (set d)" for b
    by (induction d) auto
  ultimately have "\<forall>(k, b) \<in> set (group_action d a). bucket_ok A b"
    using Cons.prems(1) unfolding group_action_def Let_def by blast
  then show ?case using Cons.IH Cons.prems(2) by simp
qed simp

definition group_ok :: "lifecycle_action set \<Rightarrow> replace_group \<Rightarrow> bool" where
  "group_ok A g \<longleftrightarrow> rg_submit_action g \<in> A \<and> la_type (rg_submit_action g) = SUBMIT
     \<and> (\<forall>a \<in> set (rg_cancel_actions g). a \<in> A \<and> la_type a = CANCEL)"

lemma split_buckets_ok:
  assumes "\<forall>(k, b) \<in> set d. bucket_ok A b" "set (fst acc) \<subseteq> A" "\<forall>g \<in> set (snd acc). group_ok A g"
  shows "set (fst (foldl split_bucket acc d)) \<subseteq> A \<and> (\<forall>g \<in> set (snd (foldl split_bucket acc d)). group_ok A g)"
  using assms
proof (induction d arbitrary: acc)
  case (Cons kb d)
  obtain symb side b where kb: "kb = ((symb, side), b)" by (metis prod.exhaust)
  have b: "bucket_ok A b" using Cons.prems(1) kb by simp
  have "last (ab_submit b) \<in> set (ab_submit b)" if "ab_submit b \<noteq> []" using that by simp
  then have "set (fst (split_bucket acc kb)) \<subseteq> A" "\<forall>g \<in> set (snd (split_bucket acc kb)). group_ok A g"
    using Cons.prems(2,3) b unfolding kb split_bucket_def by (auto simp: bucket_ok_def group_ok_def Let_def split: prod.splits)
  then show ?case using Cons.IH [of "split_bucket acc kb"] Cons.prems(1) by simp
qed simp

lemma extract_replace_groups_ok:
  "set (fst (extract_replace_groups actions)) \<subseteq> set actions"
  "g \<in> set (snd (extract_replace_groups actions)) \<Longrightarrow> group_ok (set actions) g"
  using split_buckets_ok [OF group_actions_ok [of "[]" "set actions" actions], of "([], [])"]
  unfolding extract_replace_groups_def by auto

lemma restrict_actions_ok:
  "set (fst (restrict_actions b fa rg)) \<subseteq> set (fst rg)"
  "g \<in> set (snd (restrict_actions b fa rg)) \<Longrightarrow> \<forall>g' \<in> set (snd rg). group_ok A g' \<Longrightarrow> group_ok A g"
  "b \<Longrightarrow> a \<in> set (fst (restrict_actions b fa rg)) \<Longrightarrow> la_type a = CANCEL"
  by (cases b; auto simp: restrict_actions_def keep_cancels_def keep_group_cancels_def group_ok_def)+

subsection \<open>Runs\<close>

lemma execute_regular_ok:
  assumes "live_mode \<Longrightarrow> la_type a = SUBMIT \<Longrightarrow> Q" "\<And>q. Q \<Longrightarrow> admitted env a q \<Longrightarrow> P q"
  shows "calls_ok (submit_with P) s (fst (execute_regular env live_mode a c s))"
proof (cases "la_type a")
  case SUBMIT
  then show ?thesis using execute_submit_ok [of live_mode Q env a P s] assms by (simp add: execute_regular_def)
next
  case CANCEL
  then show ?thesis using no_submit_ok [OF execute_cancel_ok] by (simp add: execute_regular_def)
qed (simp add: execute_regular_def calls.refl)

lemma execute_group_ok:
  assumes "live_mode \<Longrightarrow> \<not> blocked \<Longrightarrow> Q" "\<And>q. Q \<Longrightarrow> admitted env (rg_submit_action g) q \<Longrightarrow> P q"
  shows "calls_ok (submit_with P) s (fst (execute_group env live_mode blocked g c s))"
proof (cases blocked)
  case True
  then show ?thesis using no_submit_ok [OF cancel_all_ok] by (simp add: execute_group_def)
next
  case False
  then show ?thesis using execute_replace_ok [of live_mode Q env g P s] assms by (simp add: execute_group_def)
qed

definition gated :: "'x exec_env \<Rightarrow> bool \<Rightarrow> lifecycle_action list \<Rightarrow> submit_request \<Rightarrow> bool" where
  "gated env blocked actions q \<longleftrightarrow> live_mode_of (ev_settings env) \<and> \<not> blocked
     \<and> (\<exists>a \<in> set actions. la_type a = SUBMIT \<and> admitted env a q)"

lemma run_actions_ok:
  assumes "set regular \<subseteq> set actions" "\<And>a. blocked \<Longrightarrow> a \<in> set regular \<Longrightarrow> la_type a = CANCEL"
    and "\<And>g. g \<in> set groups \<Longrightarrow> group_ok (set actions) g"
  shows "calls_ok (submit_with (gated env blocked actions)) s (fst (run_actions env blocked regular groups s))"
  unfolding run_actions_def Let_def
proof (rule calls.sbind)
  let ?P = "gated env blocked actions"
  show "calls_ok (submit_with ?P) s (fst (sfold (execute_regular env (live_mode_of (ev_settings env))) regular no_counts s))"
  proof (rule calls.sfold)
    fix a c t assume a: "a \<in> set regular"
    show "calls_ok (submit_with ?P) t (fst (execute_regular env (live_mode_of (ev_settings env)) a c t))"
      by (rule execute_regular_ok [of _ _ "live_mode_of (ev_settings env) \<and> \<not> blocked \<and> la_type a = SUBMIT"])
        (use a assms(1,2) in \<open>auto simp: gated_def\<close>)
  qed
  show "calls_ok (submit_with ?P) t (fst (sbind (sfold (execute_group env (live_mode_of (ev_settings env)) blocked) groups c t)
      (\<lambda>c' s2. (s2, Inr (report_of c' s2)))))" for c t
  proof (rule calls.sbind)
    show "calls_ok (submit_with ?P) t (fst (sfold (execute_group env (live_mode_of (ev_settings env)) blocked) groups c t))"
    proof (rule calls.sfold)
      fix g c t assume g: "g \<in> set groups"
      show "calls_ok (submit_with ?P) t (fst (execute_group env (live_mode_of (ev_settings env)) blocked g c t))"
        by (rule execute_group_ok [of _ _ "live_mode_of (ev_settings env) \<and> \<not> blocked"])
          (use assms(3) [OF g] in \<open>auto simp: gated_def group_ok_def\<close>)
    qed
  qed (simp add: calls.refl)
qed

lemma execute_with_report_ok:
  "calls_ok (submit_with (gated env (kill_switch_active (ev_settings env)
      \<or> fz_active (fst (read_freeze env (s\<lparr>es_rejects_by_code := [], es_rejects_breakdown := [], es_reject_details := []\<rparr>)))) actions))
    s (fst (execute_with_report env actions s))"
proof -
  let ?s0 = "s\<lparr>es_rejects_by_code := [], es_rejects_breakdown := [], es_reject_details := []\<rparr>"
  obtain f s1 where f: "read_freeze env ?s0 = (f, s1)" by force
  have s1: "es_calls s1 = es_calls s" using read_freeze_calls [OF f] by simp
  define ks fa where "ks = kill_switch_active (ev_settings env)" and "fa = x4_kill_switch_freeze_all (ev_settings env)"
  define rg where "rg = restrict_actions (fz_active f) fa (restrict_actions ks fa (extract_replace_groups actions))"
  have "calls_ok (submit_with (gated env (ks \<or> fz_active f) actions)) s1 (fst (run_actions env (ks \<or> fz_active f) (fst rg) (snd rg) s1))"
  proof (rule run_actions_ok)
    show "set (fst rg) \<subseteq> set actions"
      unfolding rg_def using restrict_actions_ok(1) extract_replace_groups_ok(1) by blast
    show "la_type a = CANCEL" if "ks \<or> fz_active f" "a \<in> set (fst rg)" for a
      using that restrict_actions_ok(1,3) unfolding rg_def by blast
    show "group_ok (set actions) g" if "g \<in> set (snd rg)" for g
      using that restrict_actions_ok(2) extract_replace_groups_ok(2) unfolding rg_def by blast
  qed
  then show ?thesis
    unfolding calls_ok_left [OF s1]
    by (auto simp: execute_with_report_def Let_def f rg_def ks_def fa_def calls.refl)
qed

lemma policy_allows:
  assumes "ensure_live_write_side_effects_allowed env = Inr ()"
  shows "x4_live_trading (ev_settings env) \<and> acknowledged (ev_settings env) \<and> \<not> x4_dry_run (ev_settings env)
    \<and> \<not> x4_kill_switch (ev_settings env) \<and> coerce_process_role (x4_process_role (ev_settings env)) = Role_LIVE"
proof -
  let ?st = "ev_settings env"
  have "pr_allowed (validate_live_side_effects_policy (Some (process_role_for_runtime env)) True (x4_dry_run ?st)
      (x4_kill_switch ?st) (x4_live_trading ?st) (acknowledged ?st))"
    using assms by (auto simp: ensure_live_write_side_effects_allowed_def Let_def split: if_splits)
  then have "str_upper (str_strip (process_role_for_runtime env)) \<noteq> ''MONITOR''" and st: "\<not> x4_kill_switch ?st" "\<not> x4_dry_run ?st"
      "x4_live_trading ?st" "acknowledged ?st"
    by (simp_all add: validate_live_side_effects_policy_def Let_def listed_if_def split: if_splits)
  moreover have "str_upper (str_strip ''MONITOR'') = ''MONITOR''" by code_simp
  ultimately have "coerce_process_role (x4_process_role ?st) = Role_LIVE"
    by (cases "coerce_process_role (x4_process_role ?st)") (simp_all add: process_role_for_runtime_def)
  then show ?thesis using st by simp
qed

lemma size_order_facts:
  assumes "size_order st a rules = Inr z"
  shows "zo_notional z = dmul (zo_price z) (zo_qty z)"
    "zo_min_required z = max (x4_min_order_notional_try st) (er_min_notional rules)"
proof -
  obtain p q where pq: "Quantizer_quantize_price (la_price a) rules = Inr p" "Quantizer_quantize_qty (la_qty a) rules = Inr q"
    "rounding_fix a rules \<lparr>zo_price = p, zo_qty = q, zo_notional = dmul p q,
         zo_min_required = max (x4_min_order_notional_try st) (er_min_notional rules)\<rparr> = Inr z"
    using assms by (auto simp: size_order_def rbind_eq_Inr_iff)
  then show "zo_notional z = dmul (zo_price z) (zo_qty z)"
    "zo_min_required z = max (x4_min_order_notional_try st) (er_min_notional rules)"
    by (auto simp: rounding_fix_def rbind_eq_Inr_iff Let_def split: if_splits)
qed

text \<open>(C2) A submission reaches the exchange only in a live, acknowledged process in the role LIVE, with no
  kill switch set or in effect and no freeze of the role at the start; it belongs to a submit
  action, and its notional is at least both minimum notionals and within the cap per order.\<close>

theorem submissions_gated:
  assumes "execute_with_report env actions s = (s', r)"
    and "Submit_call q answer \<in> set (drop (length (es_calls s)) (es_calls s'))"
  shows "x4_live_trading (ev_settings env) \<and> acknowledged (ev_settings env) \<and> \<not> x4_dry_run (ev_settings env)
    \<and> \<not> x4_kill_switch (ev_settings env) \<and> \<not> kill_switch_active (ev_settings env)
    \<and> coerce_process_role (x4_process_role (ev_settings env)) = Role_LIVE
    \<and> \<not> fz_active (fst (stage4_get_freeze (es_op s) (ev_clock env (es_ticks s)) ''LIVE''))
    \<and> (\<exists>a d rules. a \<in> set actions \<and> la_type a = SUBMIT \<and> sq_symbol q = la_symbol a \<and> sq_side q = la_side a
        \<and> ev_boundary env (la_symbol a) = Inr d \<and> bo_rules d = Some rules
        \<and> max (x4_min_order_notional_try (ev_settings env)) (xr_min_notional_try rules) \<le> dmul (sq_price q) (sq_qty q)
        \<and> (0 < x4_risk_max_order_notional_try (ev_settings env) \<longrightarrow>
             dmul (sq_price q) (sq_qty q) \<le> x4_risk_max_order_notional_try (ev_settings env)))"
proof -
  let ?st = "ev_settings env"
  have "gated env (kill_switch_active ?st
      \<or> fz_active (fst (read_freeze env (s\<lparr>es_rejects_by_code := [], es_rejects_breakdown := [], es_reject_details := []\<rparr>)))) actions q"
    using calls_ok_member [OF execute_with_report_ok [of env s actions, unfolded assms(1) fst_conv] assms(2)]
    unfolding submit_with_simps .
  then obtain a where g: "\<not> kill_switch_active ?st" "a \<in> set actions" "la_type a = SUBMIT" "admitted env a q"
      and fz: "\<not> fz_active (fst (read_freeze env (s\<lparr>es_rejects_by_code := [], es_rejects_breakdown := [], es_reject_details := []\<rparr>)))"
    by (auto simp: gated_def)
  from g(4) obtain d rules z where z: "ev_boundary env (la_symbol a) = Inr d" "bo_rules d = Some rules"
      "size_order ?st a (get_rules_stage4 rules) = Inr z" "zo_min_required z \<le> zo_notional z"
      "x4_risk_max_order_notional_try ?st \<le> 0 \<or> zo_notional z \<le> x4_risk_max_order_notional_try ?st"
      "ensure_live_write_side_effects_allowed env = Inr ()"
    and q: "sq_symbol q = la_symbol a" "sq_side q = la_side a" "sq_price q = zo_price z" "sq_qty q = zo_qty z"
    unfolding admitted_def by blast
  have role: "process_role_for_runtime env = ''LIVE''"
    using policy_allows [OF z(6)] by (simp add: process_role_for_runtime_def)
  have "\<not> fz_active (fst (stage4_get_freeze (es_op s) (ev_clock env (es_ticks s)) ''LIVE''))"
    using fz role by (auto simp: read_freeze_def with_now_def split: prod.splits)
  then show ?thesis
    using policy_allows [OF z(6)] g z(1,2,4,5) q size_order_facts [OF z(3)]
    by (auto simp: get_rules_stage4_def)
qed

subsection \<open>A replacement waits\<close>

text \<open>When the exchange was asked, no replaced order was open there and each was closed here.\<close>

definition replaced_closed :: "'x exec_env \<Rightarrow> replace_group \<Rightarrow> 'x exec_state \<Rightarrow> bool" where
  "replaced_closed env g t \<longleftrightarrow>
     (\<exists>x open_orders. ex_open_orders (ev_exchange env) (es_exchange t) (rg_symbol g) = (x, Inr open_orders)
        \<and> (\<forall>a \<in> set (rg_cancel_actions g). \<forall>old. la_client_order_id a = Some old \<and> old \<noteq> [] \<longrightarrow>
             (\<forall>y \<in> set open_orders. o4_client_order_id y \<noteq> Some old)
             \<and> (\<exists>y. get_stage4_order_by_client_id (es_orders t) old = Some y \<and> o4_status y \<in> set old_order_statuses)))"

lemma first_some_None: "first_some f xs = None \<longleftrightarrow> (\<forall>x \<in> set xs. f x = None)"
  by (induction xs) (auto split: option.split)

lemma map_filter_mem: "y \<in> set xs \<Longrightarrow> f y = Some z \<Longrightarrow> z \<in> set (List.map_filter f xs)"
  by (auto simp: List.map_filter_def intro!: image_eqI [of _ _ y])

lemma confirm_closed:
  assumes "confirm_replace_cancels env g t = (u, None)"
  shows "replaced_closed env g t"
proof -
  obtain x r where e: "ex_open_orders (ev_exchange env) (es_exchange t) (rg_symbol g) = (x, r)" by force
  with assms obtain open_orders where r: "r = Inr open_orders"
    by (cases r) (auto simp: confirm_replace_cancels_def)
  let ?ids = "List.map_filter (\<lambda>x. nonempty (o4_client_order_id x)) open_orders"
  have un: "\<forall>a \<in> set (rg_cancel_actions g). unconfirmed (es_orders t) ?ids a = None"
    using assms e r by (simp add: confirm_replace_cancels_def Let_def first_some_None)
  have "(\<forall>y \<in> set open_orders. o4_client_order_id y \<noteq> Some old)
      \<and> (\<exists>y. get_stage4_order_by_client_id (es_orders t) old = Some y \<and> o4_status y \<in> set old_order_statuses)"
    if "a \<in> set (rg_cancel_actions g)" "la_client_order_id a = Some old" "old \<noteq> []" for a old
  proof -
    have u: "unconfirmed (es_orders t) ?ids a = None" using un that(1) by blast
    have old: "nonempty (la_client_order_id a) = Some old" using that by (simp add: nonempty_def)
    have "o4_client_order_id y \<noteq> Some old" if y: "y \<in> set open_orders" for y
    proof
      assume "o4_client_order_id y = Some old"
      then have "old \<in> set ?ids" using y \<open>old \<noteq> []\<close> by (intro map_filter_mem) (auto simp: nonempty_def)
      then show False using u old by (simp add: unconfirmed_def)
    qed
    then show ?thesis using u old by (auto simp: unconfirmed_def split: if_splits option.splits)
  qed
  then show ?thesis using e r unfolding replaced_closed_def by blast
qed

text \<open>Steps that only read the clock and write the tables of the process state and of the replacements.\<close>

definition books_only :: "'x exec_state \<Rightarrow> 'x exec_state \<Rightarrow> bool" where
  "books_only s t \<longleftrightarrow> (\<exists>op tab n. t = s\<lparr>es_op := op, es_replace := tab, es_ticks := n\<rparr>)"

lemma books_only_trans: "books_only s t \<Longrightarrow> books_only t u \<Longrightarrow> books_only s u"
  unfolding books_only_def by fastforce

lemma books_only_calls: "books_only s t \<Longrightarrow> es_calls t = es_calls s"
  unfolding books_only_def by fastforce

lemma books_onlyI: "t = s\<lparr>es_op := op, es_replace := tab, es_ticks := n\<rparr> \<Longrightarrow> books_only s t"
  unfolding books_only_def by blast

lemma read_freeze_books:
  assumes "read_freeze env s = (f, t)"
  shows "books_only s t"
proof (rule books_onlyI)
  let ?g = "stage4_get_freeze (es_op s) (ev_clock env (es_ticks s)) (process_role_for_runtime env)"
  show "t = s\<lparr>es_op := snd ?g, es_replace := es_replace s, es_ticks := Suc (es_ticks s)\<rparr>"
    using assms by (cases ?g) (auto simp: read_freeze_def with_now_def)
qed

lemma set_replace_books: "books_only s (set_replace env h s)"
  by (rule books_onlyI [where op = "es_op s" and n = "Suc (es_ticks s)" and tab = "h (es_replace s) (ev_clock env (es_ticks s))"]) (simp add: set_replace_def with_now_def)

text \<open>
  Either no submission is made, or it follows a confirmation in the state to which the cancellations of
  the group lead.
\<close>

definition waits :: "'x exec_env \<Rightarrow> bool \<Rightarrow> replace_group \<Rightarrow> 'x exec_state \<Rightarrow> 'x exec_state \<Rightarrow> bool" where
  "waits env live_mode g s s' \<longleftrightarrow> calls_ok no_submit s s'
     \<or> (\<exists>s1 t k. books_only s s1 \<and> cancel_all env live_mode (rg_cancel_actions g) s1 = (t, Inr k)
          \<and> calls_ok (submit_with (\<lambda>_. True)) t s' \<and> replaced_closed env g t)"

lemma waits_books:
  assumes "books_only s t" "waits env live_mode g t u"
  shows "waits env live_mode g s u"
proof (cases "calls_ok no_submit t u")
  case True
  then show ?thesis using books_only_calls [OF assms(1)] by (simp add: waits_def calls_ok_def)
next
  case False
  then show ?thesis using assms(2) books_only_trans [OF assms(1)] unfolding waits_def by blast
qed

lemma waits_none: "es_calls t = es_calls s \<Longrightarrow> waits env live_mode g s t"
  by (simp add: waits_def calls_ok_same)

lemma run_replace_waits: "waits env live_mode g s (fst (run_replace_tx env live_mode g i s))"
proof -
  obtain f t where t: "read_freeze env s = (f, t)" by force
  have "waits env live_mode g t (fst (run_replace_tx env live_mode g i s))"
  proof (cases "fz_active f")
    case True
    then show ?thesis by (simp add: run_replace_tx_def t waits_none calls_kept)
  next
    case False
    obtain u r where u: "cancel_all env live_mode (rg_cancel_actions g) t = (u, r)" by force
    have cu: "calls_ok no_submit t u" using cancel_all_ok [of t env live_mode "rg_cancel_actions g"] u by simp
    show ?thesis
    proof (cases r)
      case (Inl e)
      then show ?thesis using False u cu by (simp add: run_replace_tx_def t sbind_def waits_def)
    next
      case (Inr n)
      let ?v = "move_replace_tx env i RT_CANCEL_SENT None u"
      obtain w c where c: "confirm_replace_cancels env g ?v = (w, c)" by force
      have w: "es_calls w = es_calls u" using confirm_calls [OF c] by (simp add: calls_kept)
      show ?thesis
      proof (cases c)
        case (Some reason)
        then have "calls_ok no_submit t (fst (run_replace_tx env live_mode g i s))"
          using False u Inr c w cu by (simp add: run_replace_tx_def t sbind_def calls_ok_def calls_kept)
        then show ?thesis by (simp add: waits_def)
      next
        case None
        have "calls_ok (submit_with (\<lambda>_. True)) u (fst (submit_replacement env live_mode g i n w))"
          using submit_replacement_ok [of live_mode True env g "\<lambda>_. True" w i n] w by (simp add: calls_ok_def)
        moreover have "replaced_closed env g ?v" using c None by (intro confirm_closed) simp
        then have "replaced_closed env g u"
          by (simp add: replaced_closed_def move_replace_tx_def set_replace_def with_now_def)
        moreover have "books_only t t" by (rule books_onlyI [where op = "es_op t" and tab = "es_replace t" and n = "es_ticks t"]) simp
        ultimately show ?thesis
          using False u Inr c None by (auto simp: waits_def run_replace_tx_def t sbind_def)
      qed
    qed
  qed
  then show ?thesis by (rule waits_books [OF read_freeze_books [OF t]])
qed

lemma execute_replace_waits: "waits env live_mode g s (fst (execute_replace_group env live_mode g s))"
proof -
  have new: "waits env live_mode g s (fst (run_replace_tx env live_mode g i (set_replace env f s)))" for i f
    by (rule waits_books [OF set_replace_books run_replace_waits])
  show ?thesis
    using new run_replace_waits
    unfolding execute_replace_group_def Let_def
    by (auto simp: waits_none calls_kept split: option.split)
qed

text \<open>(C6) A replacement is submitted only after the cancellations of its group, and after nothing else was
  called: with \<open>t\<close> the state to which they lead from the given orders and exchange, the exchange, asked in \<open>t\<close>,
  lists none of the replaced orders as open, and the orders table of \<open>t\<close> has each of them as canceled, filled,
  rejected or closed without a known end.\<close>

theorem replacement_waits:
  assumes "execute_replace_group env live_mode g s = (s', r)"
    and "Submit_call q answer \<in> set (drop (length (es_calls s)) (es_calls s'))"
  shows "\<exists>op tab n t k x listed.
    cancel_all env live_mode (rg_cancel_actions g) (s\<lparr>es_op := op, es_replace := tab, es_ticks := n\<rparr>) = (t, Inr k)
    \<and> (\<exists>cancels. es_calls t = es_calls s @ cancels \<and> (\<forall>c \<in> set cancels. \<exists>i b. c = Cancel_call i b))
    \<and> Submit_call q answer \<in> set (drop (length (es_calls t)) (es_calls s'))
    \<and> ex_open_orders (ev_exchange env) (es_exchange t) (rg_symbol g) = (x, Inr listed)
    \<and> (\<forall>a \<in> set (rg_cancel_actions g). \<forall>old. la_client_order_id a = Some old \<and> old \<noteq> [] \<longrightarrow>
         (\<forall>y \<in> set listed. o4_client_order_id y \<noteq> Some old)
         \<and> (\<exists>y. get_stage4_order_by_client_id (es_orders t) old = Some y
              \<and> o4_status y \<in> {''canceled'', ''filled'', ''rejected'', ''unknown_closed''}))"
proof -
  have w: "waits env live_mode g s s'" using execute_replace_waits [of env live_mode g s] assms(1) by simp
  have "\<not> calls_ok no_submit s s'"
  proof
    assume "calls_ok no_submit s s'"
    then have "no_submit (Submit_call q answer)" using assms(2) by (rule calls_ok_member)
    then show False by (simp add: no_submit_def)
  qed
  then obtain s1 t k where t: "books_only s s1" "cancel_all env live_mode (rg_cancel_actions g) s1 = (t, Inr k)"
      "calls_ok (submit_with (\<lambda>_. True)) t s'" "replaced_closed env g t"
    using w by (auto simp: waits_def)
  obtain op tab n where s1: "s1 = s\<lparr>es_op := op, es_replace := tab, es_ticks := n\<rparr>" using t(1) by (auto simp: books_only_def)
  have "calls_ok no_submit s t"
    using cancel_all_ok [of s1 env live_mode "rg_cancel_actions g"] t(2) books_only_calls [OF t(1)] by (simp add: calls_ok_def)
  then obtain cancels rest where c: "es_calls t = es_calls s @ cancels" "\<forall>c \<in> set cancels. no_submit c" "es_calls s' = es_calls t @ rest"
    using t(3) by (auto simp: calls_ok_def)
  have "\<forall>c \<in> set cancels. \<exists>i b. c = Cancel_call i b"
    using c(2) unfolding no_submit_def by (metis exchange_call.exhaust submit_with_simps(1))
  moreover have "Submit_call q answer \<in> set (drop (length (es_calls t)) (es_calls s'))"
    using assms(2) c by (auto simp: no_submit_def)
  moreover have "set old_order_statuses = {''canceled'', ''filled'', ''rejected'', ''unknown_closed''}"
    by (simp add: old_order_statuses_def)
  ultimately show ?thesis using t(2,4) c(1) unfolding s1 replaced_closed_def by metis
qed

subsection \<open>An example\<close>

text \<open>A live process; the exchange acknowledges every submission and lists no open order.\<close>

definition demo_exchange :: "nat exchange_client" where
  "demo_exchange = \<lparr>ex_submit = (\<lambda>n q. (Suc n, Inr ''X1'')), ex_cancel = (\<lambda>n i. (n, Inr True)),
     ex_open_orders = (\<lambda>n symb. (n, Inr []))\<rparr>"

definition demo_exec_settings :: exec_settings where
  "demo_exec_settings = \<lparr>x4_live_trading = True, x4_live_trading_ack = Some ''I_UNDERSTAND'', x4_dry_run = False,
     x4_kill_switch = False, x4_kill_switch_effective = None, x4_kill_switch_freeze_all = False,
     x4_process_role = Some ''live'', x4_reject1123_enforce = True, x4_reject1123_window_minutes = 60,
     x4_reject1123_threshold = 3, x4_reject1123_cooldown_minutes = 240, x4_min_order_notional_try = 10,
     x4_risk_max_order_notional_try = 1000\<rparr>"

definition demo_ex_rules :: ex_rules where
  "demo_ex_rules = \<lparr>xr_tick_size = 1, xr_lot_size = 1, xr_min_notional_try = 100, xr_min_qty = None, xr_max_qty = None,
     xr_price_precision = 0, xr_qty_precision = 0\<rparr>"

definition demo_boundary :: "string \<Rightarrow> boundary_decision result" where
  "demo_boundary symb = Inr \<lparr>bo_symbol = symb, bo_outcome = BOk, bo_rules = Some demo_ex_rules, bo_reason = ''ok'', bo_status = ROk\<rparr>"

definition demo_exec_env :: "nat exec_env" where
  "demo_exec_env = \<lparr>ev_settings = demo_exec_settings, ev_exchange = demo_exchange, ev_wrapper = default_wrapper,
     ev_retry_after = (\<lambda>e. None), ev_rand = (\<lambda>n. 0), ev_boundary = demo_boundary, ev_clock = (\<lambda>n. int n), ev_sha256 = (\<lambda>s. s),
     ev_type_name = (\<lambda>e. ''Error''), ev_cooldown_read_fails = (\<lambda>symb now. False)\<rparr>"

definition demo_row :: "string \<Rightarrow> string \<Rightarrow> order_row" where
  "demo_row cid status = \<lparr>w4_id = 1, w4_symbol = ''BTCTRY'', w4_client_order_id = Some cid, w4_exchange_client_id = None,
     w4_exchange_order_id = Some ''E1'', w4_side = ''buy'', w4_price = 90, w4_qty = 2, w4_status = status, w4_mode = ''live'',
     w4_last_error = None, w4_last_error_code = None, w4_created_at = 0, w4_updated_at = 0\<rparr>"

definition demo_exec_state :: "order_row list \<Rightarrow> nat exec_state" where
  "demo_exec_state rows = \<lparr>es_orders = rows, es_op = [], es_cooldowns = [], es_replace = [], es_exchange = 0, es_calls = [],
     es_ticks = 0, es_rejects_by_code = [], es_rejects_breakdown = [], es_reject_details = []\<rparr>"

definition demo_submit :: "string \<Rightarrow> lifecycle_action" where
  "demo_submit reason = \<lparr>la_type = SUBMIT, la_symbol = ''BTCTRY'', la_side = ''buy'', la_price = 100, la_qty = 2,
     la_reason = reason, la_client_order_id = Some ''n1'', la_exchange_order_id = None, la_replace_for = None\<rparr>"

definition demo_request :: submit_request where
  "demo_request = \<lparr>sq_symbol = ''BTCTRY'', sq_side = ''buy'', sq_price = 100, sq_qty = 2, sq_client_order_id = ''b4-btctry-b-n1''\<rparr>"

lemma demo_submission:
  "es_calls (fst (execute_with_report demo_exec_env [demo_submit ''new_intent''] (demo_exec_state []))) = [Submit_call demo_request (Inr ''X1'')]"
  by code_simp

theorem submissions_gated_witness:
  "max (10::rat) 100 \<le> dmul (sq_price demo_request) (sq_qty demo_request)
   \<and> es_calls (fst (execute_with_report demo_exec_env [demo_submit ''new_intent''] (demo_exec_state []))) = [Submit_call demo_request (Inr ''X1'')]"
proof -
  obtain s' r where run: "execute_with_report demo_exec_env [demo_submit ''new_intent''] (demo_exec_state []) = (s', r)" by force
  have calls: "es_calls s' = [Submit_call demo_request (Inr ''X1'')]" using demo_submission unfolding run by simp
  have "Submit_call demo_request (Inr ''X1'') \<in> set (drop (length (es_calls (demo_exec_state []))) (es_calls s'))"
    unfolding calls by (simp add: demo_exec_state_def)
  from submissions_gated [OF run this] show ?thesis
    using demo_submission by (auto simp: demo_exec_env_def demo_exec_settings_def demo_boundary_def demo_ex_rules_def)
qed

definition demo_group :: replace_group where
  "demo_group = \<lparr>rg_symbol = ''BTCTRY'', rg_side = ''buy'',
     rg_cancel_actions = [(demo_submit ''replace_cancel'')\<lparr>la_type := CANCEL, la_client_order_id := Some ''o1''\<rparr>],
     rg_submit_action = demo_submit ''replace_submit'', rg_submit_count = 1, rg_had_multiple_submits = False,
     rg_selected_submit_client_order_id = Some ''n1''\<rparr>"

lemma demo_replacement:
  "es_calls (fst (execute_replace_group demo_exec_env True demo_group (demo_exec_state [demo_row ''o1'' ''canceled'']))) = [Submit_call demo_request (Inr ''X1'')]"
  by code_simp

theorem replacement_waits_witness:
  "(\<exists>op tab n t k y. cancel_all demo_exec_env True (rg_cancel_actions demo_group)
          ((demo_exec_state [demo_row ''o1'' ''canceled''])\<lparr>es_op := op, es_replace := tab, es_ticks := n\<rparr>) = (t, Inr k)
      \<and> get_stage4_order_by_client_id (es_orders t) ''o1'' = Some y)
    \<and> es_calls (fst (execute_replace_group demo_exec_env True demo_group (demo_exec_state [demo_row ''o1'' ''canceled'']))) = [Submit_call demo_request (Inr ''X1'')]"
proof -
  obtain s' r where run: "execute_replace_group demo_exec_env True demo_group (demo_exec_state [demo_row ''o1'' ''canceled'']) = (s', r)" by force
  have calls: "es_calls s' = [Submit_call demo_request (Inr ''X1'')]" using demo_replacement unfolding run by simp
  have "Submit_call demo_request (Inr ''X1'') \<in> set (drop (length (es_calls (demo_exec_state [demo_row ''o1'' ''canceled'']))) (es_calls s'))"
    unfolding calls by (simp add: demo_exec_state_def)
  moreover obtain a where "a \<in> set (rg_cancel_actions demo_group)" "la_client_order_id a = Some ''o1''"
    by (simp add: demo_group_def)
  ultimately show ?thesis using replacement_waits [OF run] demo_replacement by blast
qed

end
