(* ===== verification/Stage4_Replace.thy ===== *)
theory Stage4_Replace
  imports Stage4_Execution_Props
begin

text \<open>
  Replace transactions along any sequence of runs of the execution gate: the record of a
  transaction keeps its identity, a settled one (confirmed or failed) never leaves its state, and
  the group it belongs to is never executed again.
\<close>

subsection \<open>One table\<close>

definition same_identity :: "replace_tx \<Rightarrow> replace_tx \<Rightarrow> bool" where
  "same_identity t t' \<longleftrightarrow> normalize_symbol (rt_symbol t') = normalize_symbol (rt_symbol t) \<and> rt_side t' = rt_side t
     \<and> set (rt_old_client_order_ids t') = set (rt_old_client_order_ids t) \<and> rt_new_client_order_id t' = rt_new_client_order_id t
     \<and> rt_created_at t' = rt_created_at t"

definition tx_kept :: "replace_tx \<Rightarrow> replace_tx \<Rightarrow> bool" where
  "tx_kept t t' \<longleftrightarrow> same_identity t t' \<and> (replace_terminal (rt_state t) \<longrightarrow> rt_state t' = rt_state t)"

definition table_kept :: "replace_table \<Rightarrow> replace_table \<Rightarrow> bool" where
  "table_kept tab tab' \<longleftrightarrow> (\<forall>i t. map_of tab i = Some t \<longrightarrow> (\<exists>t'. map_of tab' i = Some t' \<and> tx_kept t t'))"

lemma tx_kept_refl: "tx_kept t t"
  by (simp add: tx_kept_def same_identity_def)

lemma tx_kept_trans: "tx_kept t u \<Longrightarrow> tx_kept u v \<Longrightarrow> tx_kept t v"
  by (simp add: tx_kept_def same_identity_def)

lemma next_replace_state_terminal: "replace_terminal a \<Longrightarrow> next_replace_state a b = a"
  by (simp add: next_replace_state_def is_replace_tx_forward_transition_def split: sum.split bool.split)

lemma table_kept_update: "(\<And>t. map_of tab i = Some t \<Longrightarrow> tx_kept t u) \<Longrightarrow> table_kept tab (AList.update i u tab)"
  unfolding table_kept_def map_of_update by (auto intro: tx_kept_refl)

lemma table_kept_refl: "table_kept tab tab"
  unfolding table_kept_def by (blast intro: tx_kept_refl)

lemma upsert_kept: "table_kept tab (upsert_replace_tx tab now i symb side old_ids new_id state err)"
proof (cases "map_of tab i")
  case None
  show ?thesis unfolding upsert_replace_tx_def None option.case by (rule table_kept_update) (simp add: None)
next
  case (Some t)
  show ?thesis
    unfolding upsert_replace_tx_def Some option.case Let_def
    by (cases "same_replace_metadata t symb side old_ids new_id")
      (auto intro!: table_kept_update simp: Some tx_kept_def same_identity_def same_replace_metadata_def next_replace_state_terminal
        canonical_symbol_idem)
qed

lemma update_state_kept: "table_kept tab (update_replace_tx_state tab now i state err)"
  by (cases "map_of tab i")
    (auto intro!: table_kept_update table_kept_refl simp: update_replace_tx_state_def tx_kept_def same_identity_def next_replace_state_terminal)

subsection \<open>Runs\<close>

definition replace_kept :: "'x exec_state \<Rightarrow> 'x exec_state \<Rightarrow> bool" where
  "replace_kept s t \<longleftrightarrow> table_kept (es_replace s) (es_replace t)"

interpretation rtx: step_order replace_kept
proof
  show "replace_kept s s" for s :: "'x exec_state" by (simp add: replace_kept_def table_kept_refl)
  show "replace_kept s u" if "replace_kept s t" "replace_kept t u" for s t u :: "'x exec_state"
    using that unfolding replace_kept_def table_kept_def by (meson tx_kept_trans)
qed

lemma replace_same: "es_replace t = es_replace s \<Longrightarrow> replace_kept s t"
  by (simp add: replace_kept_def table_kept_refl)

lemma replace_left: "es_replace s' = es_replace s \<Longrightarrow> replace_kept s' t = replace_kept s t"
  by (simp add: replace_kept_def)

named_theorems replace_frame \<open>steps that leave the replace transactions alone\<close>

lemma write_orders_replace [replace_frame]:
  "es_replace (write_orders env g s) = es_replace s"
  "es_replace (fst (try_write_orders env h s)) = es_replace s"
  by (simp_all add: write_orders_def try_write_orders_def with_now_def set_orders_def split: sum.split)

lemma read_freeze_replace: "read_freeze env s = (f, t) \<Longrightarrow> es_replace t = es_replace s"
  by (auto simp: read_freeze_def with_now_def split: prod.splits)

lemma reject_replace [replace_frame]:
  "es_replace (record_reject_detail a reason code mins p q tot s) = es_replace s"
  "es_replace (inc_reject_code n s) = es_replace s"
  "es_replace (reject_row env live a cid reason p q code s) = es_replace s"
  "es_replace (cancel_error env live a cid reason status s) = es_replace s"
  "es_replace (note_symbol_reject env symb s) = es_replace s"
  by (simp_all add: record_reject_detail_def inc_reject_code_def reject_row_def cancel_error_def note_symbol_reject_def
      with_now_def Let_def replace_frame)

lemma reject_1123_replace [replace_frame]: "es_replace (fst (reject_1123 env live a cid reason p q s)) = es_replace s"
  by (simp add: reject_1123_def replace_frame)

lemma call_replace [replace_frame]:
  "es_replace (fst (call_submit env q s)) = es_replace s"
  "es_replace (fst (call_cancel env i s)) = es_replace s"
  by (simp_all add: call_submit_def call_cancel_def split: prod.split)

lemma confirm_replace: "confirm_replace_cancels env g s = (t, r) \<Longrightarrow> es_replace t = es_replace s"
  by (auto simp: confirm_replace_cancels_def Let_def split: prod.splits sum.splits)

lemma after_ack_replace [replace_frame]: "es_replace (fst (after_ack env a cid xid z r s)) = es_replace s"
  by (cases r) (simp_all add: after_ack_def replace_frame)

lemma send_order_replace [replace_frame]: "es_replace (fst (send_order env a cid xid z s)) = es_replace s"
proof (cases "ensure_live_write_side_effects_allowed env")
  case (Inr u)
  let ?q = "\<lparr>sq_symbol = la_symbol a, sq_side = la_side a, sq_price = zo_price z, sq_qty = zo_qty z, sq_client_order_id = xid\<rparr>"
  obtain s' r where c: "call_submit env ?q s = (s', r)" by (metis prod.exhaust)
  have "es_replace s' = es_replace s" using call_replace(1) [of env ?q s] c by simp
  then show ?thesis using Inr c by (simp add: send_order_def replace_frame split: sum.split)
qed (simp add: send_order_def)

lemma submit_sized_replace [replace_frame]: "es_replace (fst (submit_sized env live_mode a cid xid rules s)) = es_replace s"
  by (cases "size_order (ev_settings env) a rules") (simp_all add: submit_sized_def Let_def replace_frame)

lemma submit_new_replace [replace_frame]: "es_replace (fst (submit_new env live_mode a cid s)) = es_replace s"
  by (simp add: submit_new_def with_now_def Let_def replace_frame split: sum.split option.split)

lemma execute_submit_replace [replace_frame]: "es_replace (fst (execute_submit_action env live_mode a s)) = es_replace s"
proof -
  obtain f t where t: "read_freeze env s = (f, t)" by force
  show ?thesis using read_freeze_replace [OF t]
    by (simp add: execute_submit_action_def with_now_def t replace_frame split: option.split)
qed

lemma cancel_live_replace: "replace_kept s (fst (cancel_live env a cid i s))"
proof (cases "ensure_live_write_side_effects_allowed env")
  case (Inr u)
  have "replace_kept s (fst (sbind (call_cancel env i s) (\<lambda>r s'.
            case r of
              Uncertain e \<Rightarrow> (cancel_error env True a cid ''cancel_uncertain_outcome'' ''unknown'' s', Inr 0)
            | Done b \<Rightarrow> (s', Inr (if b then 1 else 0)))))"
    by (rule rtx.sbind) (simp_all add: replace_same replace_frame split: outcome.split)
  then show ?thesis using Inr by (simp add: cancel_live_def)
qed (simp add: cancel_live_def rtx.refl)

lemma execute_cancel_replace: "replace_kept s (fst (execute_cancel_action env live_mode a s))"
proof (cases "nonempty (la_client_order_id a)")
  case (Some cid)
  let ?s1 = "write_orders env (\<lambda>rows now. record_stage4_order_cancel_requested rows now cid) s"
  have "replace_kept s (fst (cancel_live env a cid i ?s1))" for i
    using cancel_live_replace [of ?s1 env a cid i] unfolding replace_left [OF write_orders_replace(1)] .
  then show ?thesis using Some
    by (cases "cancel_exchange_id a cid (es_orders s)") (auto simp: execute_cancel_action_def Let_def replace_same replace_frame)
qed (simp add: execute_cancel_action_def rtx.refl)

lemma cancel_all_replace: "replace_kept s (fst (cancel_all env live_mode xs s))"
  unfolding cancel_all_def by (rule rtx.sfold) (simp add: execute_cancel_replace)

lemma move_replace: "replace_kept s (move_replace_tx env i st err s)"
  by (simp add: move_replace_tx_def set_replace_def with_now_def replace_kept_def update_state_kept)

lemma submit_replacement_replace: "replace_kept s (fst (submit_replacement env live_mode g i n s))"
proof -
  let ?s1 = "move_replace_tx env i RT_SUBMIT_SENT None (move_replace_tx env i RT_CANCEL_CONFIRMED None s)"
  have "replace_kept s ?s1" using move_replace rtx.trans by blast
  moreover have "replace_kept ?s1 (fst (execute_submit_action env live_mode (plain_submit (rg_submit_action g)) ?s1))"
    by (simp add: replace_same replace_frame)
  ultimately have "replace_kept s (fst (execute_submit_action env live_mode (plain_submit (rg_submit_action g)) ?s1))"
    by (rule rtx.trans)
  then show ?thesis unfolding submit_replacement_def Let_def by (rule rtx.sbind) (simp add: rtx.refl move_replace)
qed

lemma run_replace_replace: "replace_kept s (fst (run_replace_tx env live_mode g i s))"
proof -
  obtain f t where t: "read_freeze env s = (f, t)" by force
  have rest: "replace_kept u (fst (case confirm_replace_cancels env g (move_replace_tx env i RT_CANCEL_SENT None u) of
              (s2, Some reason) \<Rightarrow>
                (move_replace_tx env i RT_BLOCKED_RECONCILE (Some reason) s2, Inr (no_counts\<lparr>ct_canceled := n\<rparr>))
            | (s2, None) \<Rightarrow> submit_replacement env live_mode g i n s2))" for u n
  proof -
    let ?v = "move_replace_tx env i RT_CANCEL_SENT None u"
    obtain s2 r where c: "confirm_replace_cancels env g ?v = (s2, r)" by force
    have "replace_kept u ?v" by (rule move_replace)
    moreover have "replace_kept ?v s2" using confirm_replace [OF c] by (rule replace_same)
    ultimately have s2: "replace_kept u s2" by (rule rtx.trans)
    show ?thesis
      using c rtx.trans [OF s2 move_replace] rtx.trans [OF s2 submit_replacement_replace]
      by (simp split: option.split)
  qed
  have "replace_kept t (fst (run_replace_tx env live_mode g i s))"
    using rtx.sbind [OF cancel_all_replace rest, of t] by (simp add: run_replace_tx_def t move_replace)
  then show ?thesis unfolding replace_left [OF read_freeze_replace [OF t]] .
qed

lemma execute_replace_replace: "replace_kept s (fst (execute_replace_group env live_mode g s))"
proof -
  have "replace_kept s (set_replace env (\<lambda>tab now. upsert_replace_tx tab now i (rg_symbol g) (rg_side g) old_ids new_id RT_INIT None) s)"
    for i old_ids new_id
    by (simp add: set_replace_def with_now_def replace_kept_def upsert_kept)
  then have new: "replace_kept s (fst (run_replace_tx env live_mode g i
      (set_replace env (\<lambda>tab now. upsert_replace_tx tab now i (rg_symbol g) (rg_side g) old_ids new_id RT_INIT None) s)))"
    for i old_ids new_id
    using rtx.trans [OF _ run_replace_replace] by blast
  show ?thesis
    unfolding execute_replace_group_def Let_def
    by (simp add: new run_replace_replace move_replace rtx.refl split: option.split)
qed

lemma execute_regular_replace: "replace_kept s (fst (execute_regular env live_mode a c s))"
  by (cases "la_type a") (simp_all add: execute_regular_def execute_cancel_replace replace_same replace_frame)

lemma execute_group_replace: "replace_kept s (fst (execute_group env live_mode blocked g c s))"
  by (simp add: execute_group_def cancel_all_replace execute_replace_replace)

lemma run_actions_replace: "replace_kept s (fst (run_actions env blocked regular groups s))"
  unfolding run_actions_def Let_def
  by (intro rtx.sbind rtx.sfold) (simp_all add: execute_regular_replace execute_group_replace rtx.refl)

lemma execute_with_report_replace: "replace_kept s (fst (execute_with_report env actions s))"
proof -
  let ?s0 = "s\<lparr>es_rejects_by_code := [], es_rejects_breakdown := [], es_reject_details := []\<rparr>"
  obtain f s1 where f: "read_freeze env ?s0 = (f, s1)" by force
  have "es_replace s1 = es_replace s" using read_freeze_replace [OF f] by simp
  then have "replace_kept s1 u = replace_kept s u" for u by (rule replace_left)
  then show ?thesis using run_actions_replace [of s1]
    by (simp add: execute_with_report_def Let_def f rtx.refl)
qed

subsection \<open>Any sequence of runs\<close>

text \<open>Each run may have its own settings, clock and actions, and may end with an exception.\<close>

inductive exec_steps :: "'x exec_state \<Rightarrow> 'x exec_state \<Rightarrow> bool" where
  no_run: "exec_steps s s"
| one_more: "exec_steps s t \<Longrightarrow> execute_with_report env actions t = (u, r) \<Longrightarrow> exec_steps s u"

lemma exec_steps_replace: "exec_steps s t \<Longrightarrow> replace_kept s t"
proof (induction rule: exec_steps.induct)
  case (no_run s)
  show ?case by (rule rtx.refl)
next
  case (one_more s t env actions u r)
  have "replace_kept t u" using execute_with_report_replace [of t env actions] one_more.hyps by simp
  then show ?case using one_more.IH rtx.trans by blast
qed

text \<open>(C20) A replace transaction that is confirmed or failed keeps its state and identity through every sequence
  of runs, and its group is never executed again: no call, no order changed, nothing counted.\<close>

theorem settled_replacement_stays:
  assumes "map_of (es_replace s) (replace_tx_id (ev_sha256 env) g) = Some t" "replace_terminal (rt_state t)"
    and "exec_steps s s'" "execute_replace_group env live_mode g s' = (s'', r)"
  shows "\<exists>t'. map_of (es_replace s'') (replace_tx_id (ev_sha256 env) g) = Some t' \<and> rt_state t' = rt_state t \<and> same_identity t t'
    \<and> r = Inr no_counts \<and> es_calls s'' = es_calls s' \<and> es_orders s'' = es_orders s'"
proof -
  let ?i = "replace_tx_id (ev_sha256 env) g"
  have "replace_kept s' s''" using execute_replace_replace [of s' env live_mode g] assms(4) by simp
  then have "replace_kept s s''" using exec_steps_replace [OF assms(3)] rtx.trans by blast
  then obtain t'' where t'': "map_of (es_replace s'') ?i = Some t''" "tx_kept t t''"
    using assms(1) unfolding replace_kept_def table_kept_def by blast
  obtain t' where t': "map_of (es_replace s') ?i = Some t'" "tx_kept t t'"
    using exec_steps_replace [OF assms(3)] assms(1) unfolding replace_kept_def table_kept_def by blast
  have final: "replace_terminal (rt_state t')" using t'(2) assms(2) by (simp add: tx_kept_def)
  have "r = Inr no_counts \<and> es_calls s'' = es_calls s' \<and> es_orders s'' = es_orders s'"
    using assms(4) final t'(1) unfolding execute_replace_group_def Let_def get_replace_tx_def
    by (auto simp: calls_kept move_replace_tx_def set_replace_def with_now_def split: option.splits if_splits)
  then show ?thesis using t'' assms(2) by (auto simp: tx_kept_def)
qed

definition demo_settled :: "nat exec_state" where
  "demo_settled = fst (execute_replace_group demo_exec_env True demo_group (demo_exec_state [demo_row ''o1'' ''canceled'']))"

lemma demo_settled_state:
  "map_option rt_state (map_of (es_replace demo_settled) (replace_tx_id (ev_sha256 demo_exec_env) demo_group)) = Some RT_SUBMIT_CONFIRMED"
  by code_simp

text \<open>The example: the replacement is confirmed; with the same group the next cycle does nothing.\<close>

theorem settled_replacement_stays_witness:
  "map_option rt_state (map_of (es_replace demo_settled) (replace_tx_id (ev_sha256 demo_exec_env) demo_group)) = Some RT_SUBMIT_CONFIRMED
   \<and> snd (execute_replace_group demo_exec_env True demo_group demo_settled) = Inr no_counts"
proof -
  let ?i = "replace_tx_id (ev_sha256 demo_exec_env) demo_group"
  obtain t where t: "map_of (es_replace demo_settled) ?i = Some t" "rt_state t = RT_SUBMIT_CONFIRMED"
    using demo_settled_state by (auto simp only: map_option_eq_Some)
  obtain s'' r where run: "execute_replace_group demo_exec_env True demo_group demo_settled = (s'', r)" by force
  have final: "replace_terminal (rt_state t)" using t(2) by (simp add: replace_terminal_def)
  from settled_replacement_stays [OF t(1) final exec_steps.no_run run]
  have "r = Inr no_counts" by blast
  then show ?thesis using run demo_settled_state by simp
qed

end
