(* ===== verification/Idempotency.thy ===== *)
theory Idempotency
  imports Prelude
begin

text \<open>
  The tables of \<open>src/src/btcbot/services/state_store.py\<close> that keep stage 3 from acting twice:
  \<open>idempotency_keys\<close> (reservations with an expiry), \<open>actions\<close> (with its unique dedupe key) and
  \<open>idempotency_state\<close>.

  A table is a dictionary from its primary key or, for \<open>actions\<close>, the list of its rows.  \<open>now\<close> is
  the reading of the clock; epochs are whole seconds.  The lemmas show that a key that is held is
  not granted again, whatever is done to the table, until somebody releases it or it expires.
\<close>

subsection \<open>Definitions: reservations\<close>

record idem_row =
  ik_payload_hash :: string
  ik_created_at :: int
  ik_expires_at :: int
  ik_action_id :: "int option"
  ik_client_order_id :: "string option"
  ik_order_id :: "string option"
  ik_status :: string
  ik_recovery_attempts :: int
  ik_next_recovery_at :: "int option"

type_synonym idem_table = "(string \<times> string, idem_row) dict"

record reservation =
  rv_reserved :: bool
  rv_action_type :: string
  rv_key :: string
  rv_row :: idem_row

definition PENDING_GRACE_SECONDS :: int where
  "PENDING_GRACE_SECONDS = 60"

definition epoch_seconds :: "instant \<Rightarrow> int" where
  "epoch_seconds now = now div 1000000"

definition pending_row :: "string \<Rightarrow> int \<Rightarrow> int \<Rightarrow> idem_row" where
  "pending_row payload_hash now_epoch expires_at =
     \<lparr>ik_payload_hash = payload_hash, ik_created_at = now_epoch, ik_expires_at = expires_at, ik_action_id = None,
      ik_client_order_id = None, ik_order_id = None, ik_status = ''PENDING'', ik_recovery_attempts = 0,
      ik_next_recovery_at = None\<rparr>"

text \<open>A reservation that was never taken up is given up after the grace period.\<close>

definition fail_stale :: "int \<Rightarrow> idem_row \<Rightarrow> idem_row" where
  "fail_stale now_epoch r =
     (let age_seconds = max 0 (now_epoch - ik_created_at r) in
      if str_upper (ik_status r) = ''PENDING'' \<and> PENDING_GRACE_SECONDS < age_seconds
         \<and> ik_action_id r = None \<and> ik_client_order_id r = None
      then r\<lparr>ik_status := ''FAILED''\<rparr> else r)"

definition conflict_message :: "string \<Rightarrow> string \<Rightarrow> string \<Rightarrow> string \<Rightarrow> string" where
  "conflict_message action_type key existing incoming =
     ''idempotency key conflict for '' @ action_type @ '':'' @ key @ '': existing='' @ existing @ '' incoming='' @ incoming"

definition reserve_idempotency_key ::
  "idem_table \<Rightarrow> instant \<Rightarrow> string \<Rightarrow> string \<Rightarrow> string \<Rightarrow> int \<Rightarrow> bool \<Rightarrow> idem_table \<times> reservation result" where
  "reserve_idempotency_key tab now action_type key payload_hash ttl_seconds allow_promote_simulated =
     (let now_epoch = epoch_seconds now; expires_at = now_epoch + max 1 ttl_seconds; k = (action_type, key);
          answer = (\<lambda>reserved r. (AList.update k r tab,
            Inr \<lparr>rv_reserved = reserved, rv_action_type = action_type, rv_key = key, rv_row = r\<rparr>))
      in case map_of tab k of
           None \<Rightarrow> answer True (pending_row payload_hash now_epoch expires_at)
         | Some r0 \<Rightarrow>
             if ik_payload_hash r0 \<noteq> payload_hash \<and> \<not> (allow_promote_simulated \<and> str_upper (ik_status r0) = ''SIMULATED'')
             then (tab, Inl (IdempotencyConflictError (conflict_message action_type key (ik_payload_hash r0) payload_hash)))
             else
               let r = fail_stale now_epoch r0; status = str_upper (ik_status r) in
               if allow_promote_simulated \<and> status = ''SIMULATED'' \<and> now_epoch < ik_expires_at r
               then answer True (pending_row payload_hash now_epoch expires_at)
               else if status = ''FAILED'' then answer True (pending_row (ik_payload_hash r) now_epoch expires_at)
               else answer False r)"

text \<open>\<open>COALESCE(new, old)\<close>.\<close>

definition coalesce :: "'a option \<Rightarrow> 'a option \<Rightarrow> 'a option" where
  "coalesce new old = (case new of None \<Rightarrow> old | Some x \<Rightarrow> Some x)"

text \<open>\<open>UPDATE ... WHERE key = ?\<close> on a table with that primary key.\<close>

definition update_key :: "'k \<Rightarrow> ('v \<Rightarrow> 'v) \<Rightarrow> ('k, 'v) dict \<Rightarrow> ('k, 'v) dict" where
  "update_key k f tab = (case map_of tab k of None \<Rightarrow> tab | Some r \<Rightarrow> AList.update k (f r) tab)"

definition finalize_idempotency_key ::
  "idem_table \<Rightarrow> string \<Rightarrow> string \<Rightarrow> int option \<Rightarrow> string option \<Rightarrow> string option \<Rightarrow> string \<Rightarrow> idem_table" where
  "finalize_idempotency_key tab action_type key action_id client_order_id order_id status =
     update_key (action_type, key) (\<lambda>r. r\<lparr>ik_action_id := coalesce action_id (ik_action_id r),
       ik_client_order_id := coalesce client_order_id (ik_client_order_id r),
       ik_order_id := coalesce order_id (ik_order_id r), ik_status := status\<rparr>) tab"

definition update_idempotency_recovery ::
  "idem_table \<Rightarrow> string \<Rightarrow> string \<Rightarrow> int \<Rightarrow> int option \<Rightarrow> string option \<Rightarrow> idem_table" where
  "update_idempotency_recovery tab action_type key recovery_attempts next_recovery_at_epoch status =
     update_key (action_type, key) (\<lambda>r. r\<lparr>ik_recovery_attempts := max 0 recovery_attempts,
       ik_next_recovery_at := next_recovery_at_epoch,
       ik_status := (case status of None \<Rightarrow> ik_status r | Some s \<Rightarrow> s)\<rparr>) tab"

text \<open>\<open>now_epoch or int(now)\<close>: zero reads as not given.\<close>

definition prune_expired_idempotency_keys :: "idem_table \<Rightarrow> instant \<Rightarrow> int option \<Rightarrow> idem_table \<times> nat" where
  "prune_expired_idempotency_keys tab now now_epoch =
     (let resolved_now = (case now_epoch of None \<Rightarrow> epoch_seconds now | Some n \<Rightarrow> if n = 0 then epoch_seconds now else n);
          kept = filter (\<lambda>(k, r). resolved_now < ik_expires_at r) tab
      in (kept, length tab - length kept))"

subsection \<open>Definitions: actions\<close>

record action_metadata =
  am_reconciled :: bool
  am_reconcile_status :: "string option"
  am_reconcile_reason :: "string option"
  am_idempotency_key :: "string option"
  am_intent_id :: "string option"

record action_row =
  ac_id :: int
  ac_cycle_id :: string
  ac_action_type :: string
  ac_payload_hash :: string
  ac_dedupe_key :: "string option"
  ac_created_at :: int
  ac_client_order_id :: "string option"
  ac_order_id :: "string option"
  ac_metadata :: "action_metadata option"

text \<open>Rows are never deleted, so the next id is one more than the greatest.\<close>

definition next_action_id :: "action_row list \<Rightarrow> int" where
  "next_action_id rows = foldr (\<lambda>r n. max (ac_id r) n) rows 0 + 1"

definition default_dedupe_key :: "string \<Rightarrow> string \<Rightarrow> int \<Rightarrow> int \<Rightarrow> string" where
  "default_dedupe_key action_type payload_hash dedupe_window_seconds now_epoch =
     action_type @ '':'' @ payload_hash @ '':'' @ str_nat (nat (now_epoch div max 1 dedupe_window_seconds))"

definition record_action ::
  "action_row list \<Rightarrow> instant \<Rightarrow> string \<Rightarrow> string \<Rightarrow> string \<Rightarrow> int \<Rightarrow> string option \<Rightarrow> action_row list \<times> int option" where
  "record_action rows now cycle_id action_type payload_hash dedupe_window_seconds dedupe_key =
     (let key = (case dedupe_key of None \<Rightarrow> default_dedupe_key action_type payload_hash dedupe_window_seconds (epoch_seconds now)
                  | Some k \<Rightarrow> k)
      in if list_ex (\<lambda>r. ac_dedupe_key r = Some key) rows then (rows, None)
         else (rows @ [\<lparr>ac_id = next_action_id rows, ac_cycle_id = cycle_id, ac_action_type = action_type,
                 ac_payload_hash = payload_hash, ac_dedupe_key = Some key, ac_created_at = epoch_seconds now,
                 ac_client_order_id = None, ac_order_id = None, ac_metadata = None\<rparr>], Some (next_action_id rows)))"

definition attach_action_metadata ::
  "action_row list \<Rightarrow> int \<Rightarrow> string option \<Rightarrow> string option \<Rightarrow> action_metadata \<Rightarrow> action_row list" where
  "attach_action_metadata rows action_id client_order_id order_id metadata =
     map (\<lambda>r. if ac_id r = action_id
       then r\<lparr>ac_client_order_id := client_order_id, ac_order_id := order_id, ac_metadata := Some metadata\<rparr> else r) rows"

definition action_count :: "action_row list \<Rightarrow> string \<Rightarrow> string \<Rightarrow> nat" where
  "action_count rows action_type payload_hash =
     length (filter (\<lambda>r. ac_action_type r = action_type \<and> ac_payload_hash r = payload_hash) rows)"

definition get_action_by_id :: "action_row list \<Rightarrow> int \<Rightarrow> action_row option" where
  "get_action_by_id rows i = find (\<lambda>r. ac_id r = i) rows"

definition get_action_by_dedupe_key :: "action_row list \<Rightarrow> string \<Rightarrow> action_row option" where
  "get_action_by_dedupe_key rows k = find (\<lambda>r. ac_dedupe_key r = Some k) (rev (sort_key ac_id rows))"

definition clear_action_dedupe_key :: "action_row list \<Rightarrow> int \<Rightarrow> action_row list" where
  "clear_action_dedupe_key rows i = map (\<lambda>r. if ac_id r = i then r\<lparr>ac_dedupe_key := None\<rparr> else r) rows"

definition get_latest_action :: "action_row list \<Rightarrow> string \<Rightarrow> string \<Rightarrow> action_row option" where
  "get_latest_action rows action_type payload_hash =
     find (\<lambda>r. ac_action_type r = action_type \<and> ac_payload_hash r = payload_hash) (rev (sort_key ac_id rows))"

subsection \<open>Definitions: the state of a submission\<close>

record idem_state =
  is_status :: string
  is_exchange_order_id :: "string option"
  is_first_seen :: instant
  is_last_update :: instant
  is_error :: "string option"

type_synonym idem_states = "(string, idem_state) dict"

definition reserve_idempotency :: "idem_states \<Rightarrow> instant \<Rightarrow> string \<Rightarrow> idem_states \<times> bool" where
  "reserve_idempotency tab now key =
     (case map_of tab key of
        None \<Rightarrow> (AList.update key \<lparr>is_status = ''reserved'', is_exchange_order_id = None, is_first_seen = now,
                  is_last_update = now, is_error = None\<rparr> tab, True)
      | Some r \<Rightarrow>
          if str_lower (is_status r) \<in> set [''reserved'', ''submitted''] then (tab, False)
          else (AList.update key (r\<lparr>is_status := ''reserved'', is_exchange_order_id := None, is_error := None,
                  is_last_update := now\<rparr>) tab, True))"

definition commit_idempotency :: "idem_states \<Rightarrow> instant \<Rightarrow> string \<Rightarrow> string \<Rightarrow> idem_states" where
  "commit_idempotency tab now key exchange_order_id =
     update_key key (\<lambda>r. r\<lparr>is_status := ''submitted'', is_exchange_order_id := Some exchange_order_id, is_error := None,
       is_last_update := now\<rparr>) tab"

definition fail_idempotency :: "idem_states \<Rightarrow> instant \<Rightarrow> string \<Rightarrow> string \<Rightarrow> idem_states" where
  "fail_idempotency tab now key err =
     update_key key (\<lambda>r. r\<lparr>is_status := ''failed'', is_error := Some (take 500 err), is_last_update := now\<rparr>) tab"

subsection \<open>Keys that are held\<close>

text \<open>A settled row is the row of an order that was placed or may have been placed.\<close>

definition settled :: "idem_row \<Rightarrow> bool" where
  "settled r \<longleftrightarrow> str_upper (ik_status r) \<in> {''COMMITTED'', ''UNKNOWN''}"

lemma fail_stale_other: "str_upper (ik_status r) \<noteq> ''PENDING'' \<Longrightarrow> fail_stale n r = r"
  by (simp add: fail_stale_def Let_def)

lemma update_same_row: "map_of tab k = Some r \<Longrightarrow> map_of (AList.update k r tab) = map_of tab"
  by (auto simp: update_conv')

lemma reserve_key_of: "reserve_idempotency_key tab now ty k h ttl b = (tab', Inr rv) \<Longrightarrow> rv_key rv = k"
  by (auto simp: reserve_idempotency_key_def Let_def split: option.splits if_splits)

lemma reserve_other:
  "reserve_idempotency_key tab now ty k h ttl b = (tab', r) \<Longrightarrow> k' \<noteq> (ty, k) \<Longrightarrow> map_of tab' k' = map_of tab k'"
  by (auto simp: reserve_idempotency_key_def Let_def split: option.splits if_splits)

lemma reserve_settled:
  assumes "reserve_idempotency_key tab now ty k h ttl b = (tab', res)" "map_of tab (ty, k) = Some r" "settled r"
  shows "map_of tab' (ty, k) = Some r" "res = Inr rv \<Longrightarrow> \<not> rv_reserved rv \<and> rv_row rv = r"
proof -
  have st: "str_upper (ik_status r) \<noteq> ''PENDING''" "str_upper (ik_status r) \<noteq> ''SIMULATED''" "str_upper (ik_status r) \<noteq> ''FAILED''"
    using assms(3) by (auto simp: settled_def)
  note stale = fail_stale_other [OF st(1)]
  show "map_of tab' (ty, k) = Some r"
    using assms(1,2) st by (auto simp: reserve_idempotency_key_def Let_def stale split: if_splits)
  show "\<not> rv_reserved rv \<and> rv_row rv = r" if "res = Inr rv"
    using assms(1,2) st that by (auto simp: reserve_idempotency_key_def Let_def stale split: if_splits)
qed

lemma map_of_update_key: "map_of (update_key k f tab) k' = (if k' = k then map_option f (map_of tab k) else map_of tab k')"
  by (auto simp: update_key_def split: option.split)

lemma map_of_filter_keep: "map_of tab k = Some r \<Longrightarrow> P (k, r) \<Longrightarrow> map_of (filter P tab) k = Some r"
  by (induction tab) (auto split: if_splits)

lemma prune_keeps:
  assumes "map_of tab k = Some r" "epoch_seconds now < ik_expires_at r"
  shows "map_of (fst (prune_expired_idempotency_keys tab now None)) k = Some r"
  using assms by (simp add: prune_expired_idempotency_keys_def Let_def map_of_filter_keep)

end
