(* ===== verification/Spot_Store.thy ===== *)
theory Spot_Store
  imports Op_State Money
begin

text \<open>
  The orders table of stage 3 in \<open>src/src/btcbot/services/state_store.py\<close> and the registry of
  unknown orders, \<open>services/unknown_order_registry.py\<close>, with the order types and the matching
  functions of \<open>domain/models.py\<close>.

  The table is the list of its rows with the primary key \<open>order_id\<close> and a unique index on the client
  order id; every operation is one transaction.  Times the program keeps as milliseconds are
  milliseconds here.  The lemmas show that the keys stay unique and which rows are unknown.
\<close>

subsection \<open>Definitions: orders and snapshots\<close>

datatype order_side = Side_BUY | Side_SELL

fun side_text :: "order_side \<Rightarrow> string" where
  "side_text Side_BUY = ''buy''"
| "side_text Side_SELL = ''sell''"

datatype spot_status = St_NEW | St_OPEN | St_PARTIAL | St_FILLED | St_CANCELED | St_REJECTED | St_UNKNOWN

datatype exchange_order_status = Ex_OPEN | Ex_PARTIAL | Ex_FILLED | Ex_CANCELED | Ex_REJECTED | Ex_UNKNOWN

record spot_order =
  so_order_id :: string
  so_client_order_id :: "string option"
  so_symbol :: string
  so_side :: order_side
  so_price :: dec
  so_quantity :: dec
  so_status :: spot_status
  so_created_at :: instant
  so_updated_at :: instant

record order_snapshot =
  os_order_id :: string
  os_client_order_id :: "string option"
  os_pair_symbol :: string
  os_side :: "order_side option"
  os_price :: dec
  os_quantity :: dec
  os_status :: exchange_order_status
  os_timestamp :: int
  os_update_time :: "int option"
  os_status_raw :: "string option"

fun match_order_by_client_id :: "order_snapshot list \<Rightarrow> string \<Rightarrow> order_snapshot option" where
  "match_order_by_client_id [] cid = None"
| "match_order_by_client_id (x # xs) cid = (if os_client_order_id x = Some cid then Some x else match_order_by_client_id xs cid)"

definition observed_at :: "order_snapshot \<Rightarrow> int" where
  "observed_at x = (case os_update_time x of Some t \<Rightarrow> t | None \<Rightarrow> os_timestamp x)"

definition fields_match ::
  "string \<Rightarrow> order_side option \<Rightarrow> dec \<Rightarrow> dec \<Rightarrow> dec \<Rightarrow> dec \<Rightarrow> (int \<times> int) option \<Rightarrow> order_snapshot \<Rightarrow> bool" where
  "fields_match pair_symbol side price quantity price_tolerance qty_tolerance time_window x =
     (normalize_symbol (os_pair_symbol x) = normalize_symbol pair_symbol
      \<and> (case (side, os_side x) of (Some a, Some b) \<Rightarrow> b = a | _ \<Rightarrow> True)
      \<and> dabs (dsub (os_price x) price) \<le> price_tolerance
      \<and> dabs (dsub (os_quantity x) quantity) \<le> qty_tolerance
      \<and> (case time_window of None \<Rightarrow> True | Some (start_ms, end_ms) \<Rightarrow> start_ms \<le> observed_at x \<and> observed_at x \<le> end_ms))"

definition fallback_match_by_fields ::
  "order_snapshot list \<Rightarrow> string \<Rightarrow> order_side option \<Rightarrow> dec \<Rightarrow> dec \<Rightarrow> dec \<Rightarrow> dec \<Rightarrow> (int \<times> int) option \<Rightarrow> order_snapshot option" where
  "fallback_match_by_fields snapshots pair_symbol side price quantity price_tolerance qty_tolerance time_window =
     find (fields_match pair_symbol side price quantity price_tolerance qty_tolerance time_window) snapshots"

subsection \<open>Definitions: the table\<close>

record spot_row =
  sw_order_id :: string
  sw_symbol :: string
  sw_client_order_id :: "string option"
  sw_side :: order_side
  sw_price :: dec
  sw_qty :: dec
  sw_status :: spot_status
  sw_created_at :: instant
  sw_updated_at :: instant
  sw_last_seen_at :: "int option"
  sw_reconciled :: bool
  sw_exchange_status_raw :: "string option"
  sw_idempotency_key :: "string option"
  sw_intent_id :: "string option"
  sw_unknown_first_seen_at :: "int option"
  sw_unknown_last_probe_at :: "int option"
  sw_unknown_next_probe_at :: "int option"
  sw_unknown_probe_attempts :: int
  sw_unknown_escalated_at :: "int option"

type_synonym spot_table = "spot_row list"

definition or_kept :: "'a option \<Rightarrow> 'a option \<Rightarrow> 'a option" where
  "or_kept new old = (case new of None \<Rightarrow> old | Some x \<Rightarrow> Some x)"

definition millis :: "instant \<Rightarrow> int" where
  "millis now = now div 1000"

definition new_row :: "spot_order \<Rightarrow> instant \<Rightarrow> bool \<Rightarrow> string option \<Rightarrow> string option \<Rightarrow> string option \<Rightarrow> spot_row" where
  "new_row ord now reconciled raw idem intent_id =
     \<lparr>sw_order_id = so_order_id ord, sw_symbol = normalize_symbol (so_symbol ord), sw_client_order_id = so_client_order_id ord,
      sw_side = so_side ord, sw_price = so_price ord, sw_qty = so_quantity ord, sw_status = so_status ord,
      sw_created_at = so_created_at ord, sw_updated_at = so_updated_at ord, sw_last_seen_at = Some (millis now),
      sw_reconciled = reconciled, sw_exchange_status_raw = raw, sw_idempotency_key = idem, sw_intent_id = intent_id,
      sw_unknown_first_seen_at = None, sw_unknown_last_probe_at = None, sw_unknown_next_probe_at = None,
      sw_unknown_probe_attempts = 0, sw_unknown_escalated_at = None\<rparr>"

text \<open>The \<open>DO UPDATE SET\<close> of a row with the same order id.\<close>

definition upserted :: "spot_row \<Rightarrow> spot_row \<Rightarrow> spot_row" where
  "upserted new r = r\<lparr>sw_client_order_id := sw_client_order_id new, sw_status := sw_status new, sw_updated_at := sw_updated_at new,
     sw_last_seen_at := sw_last_seen_at new, sw_reconciled := sw_reconciled new,
     sw_exchange_status_raw := sw_exchange_status_raw new,
     sw_idempotency_key := or_kept (sw_idempotency_key new) (sw_idempotency_key r),
     sw_intent_id := or_kept (sw_intent_id new) (sw_intent_id r)\<rparr>"

text \<open>The update of the row that already has the client order id.\<close>

definition renamed :: "spot_row \<Rightarrow> spot_row \<Rightarrow> spot_row" where
  "renamed new r = r\<lparr>sw_order_id := sw_order_id new, sw_symbol := sw_symbol new, sw_side := sw_side new, sw_price := sw_price new,
     sw_qty := sw_qty new, sw_status := sw_status new, sw_updated_at := sw_updated_at new, sw_last_seen_at := sw_last_seen_at new,
     sw_reconciled := sw_reconciled new, sw_exchange_status_raw := sw_exchange_status_raw new,
     sw_idempotency_key := or_kept (sw_idempotency_key new) (sw_idempotency_key r),
     sw_intent_id := or_kept (sw_intent_id new) (sw_intent_id r)\<rparr>"

definition has_order_id :: "string \<Rightarrow> spot_row \<Rightarrow> bool" where
  "has_order_id i r \<longleftrightarrow> sw_order_id r = i"

text \<open>The unique indices: another row (by its position) with the same order id or client order id.\<close>

definition client_ids_unique :: "spot_table \<Rightarrow> bool" where
  "client_ids_unique rows \<longleftrightarrow> distinct (List.map_filter sw_client_order_id rows)"

definition order_ids_unique :: "spot_table \<Rightarrow> bool" where
  "order_ids_unique rows \<longleftrightarrow> distinct (map sw_order_id rows)"

definition checked_rows :: "spot_table \<Rightarrow> spot_table result" where
  "checked_rows rows = (if order_ids_unique rows \<and> client_ids_unique rows then Inr rows else Inl (IntegrityError ''orders''))"

definition save_insert :: "spot_table \<Rightarrow> spot_row \<Rightarrow> spot_table result" where
  "save_insert rows new =
     checked_rows (if list_ex (has_order_id (sw_order_id new)) rows
       then map (\<lambda>r. if has_order_id (sw_order_id new) r then upserted new r else r) rows
       else rows @ [new])"

definition save_order :: "spot_table \<Rightarrow> instant \<Rightarrow> spot_order \<Rightarrow> bool \<Rightarrow> string option \<Rightarrow> string option \<Rightarrow> string option \<Rightarrow> spot_table result" where
  "save_order rows now ord reconciled raw idem intent_id =
     (let new = new_row ord now reconciled raw idem intent_id in
      case save_insert rows new of
        Inr rows' \<Rightarrow> Inr rows'
      | Inl e \<Rightarrow>
          (case so_client_order_id ord of
             None \<Rightarrow> Inl e
           | Some cid \<Rightarrow>
               if cid = [] then Inl e
               else case find (\<lambda>r. sw_client_order_id r = Some cid) rows of
                 None \<Rightarrow> Inl e
               | Some existing \<Rightarrow>
                   checked_rows (map (\<lambda>r. if has_order_id (sw_order_id existing) r then renamed new r else r) rows)))"

definition status_row :: "instant \<Rightarrow> spot_status \<Rightarrow> string option \<Rightarrow> bool option \<Rightarrow> int option \<Rightarrow> spot_row \<Rightarrow> spot_row" where
  "status_row now status raw reconciled last_seen r =
     (let unknown = (status = St_UNKNOWN); now_ms = millis now in
      r\<lparr>sw_status := status, sw_updated_at := now, sw_last_seen_at := or_kept last_seen (sw_last_seen_at r),
        sw_exchange_status_raw := or_kept raw (sw_exchange_status_raw r),
        sw_reconciled := (case reconciled of None \<Rightarrow> sw_reconciled r | Some b \<Rightarrow> b),
        sw_unknown_first_seen_at := (if unknown then or_kept (sw_unknown_first_seen_at r) (Some now_ms) else None),
        sw_unknown_last_probe_at := (if unknown then sw_unknown_last_probe_at r else None),
        sw_unknown_next_probe_at := (if unknown then or_kept (sw_unknown_next_probe_at r) (Some now_ms) else None),
        sw_unknown_probe_attempts := (if unknown then sw_unknown_probe_attempts r else 0),
        sw_unknown_escalated_at := (if unknown then sw_unknown_escalated_at r else None)\<rparr>)"

definition update_order_status ::
  "spot_table \<Rightarrow> instant \<Rightarrow> string \<Rightarrow> spot_status \<Rightarrow> string option \<Rightarrow> bool option \<Rightarrow> int option \<Rightarrow> spot_table" where
  "update_order_status rows now order_id status raw reconciled last_seen =
     map (\<lambda>r. if has_order_id order_id r then status_row now status raw reconciled last_seen r else r) rows"

definition mark_unknown_probe_result :: "spot_table \<Rightarrow> string \<Rightarrow> int \<Rightarrow> int \<Rightarrow> bool \<Rightarrow> spot_table" where
  "mark_unknown_probe_result rows order_id last_probe_at next_probe_at escalate =
     map (\<lambda>r. if has_order_id order_id r
       then r\<lparr>sw_unknown_first_seen_at := or_kept (sw_unknown_first_seen_at r) (Some last_probe_at),
              sw_updated_at := last_probe_at * 1000, sw_unknown_last_probe_at := Some last_probe_at,
              sw_unknown_next_probe_at := Some next_probe_at, sw_unknown_probe_attempts := sw_unknown_probe_attempts r + 1,
              sw_unknown_escalated_at := (if escalate then or_kept (sw_unknown_escalated_at r) (Some last_probe_at)
                else sw_unknown_escalated_at r)\<rparr>
       else r) rows"

definition get_spot_order :: "spot_table \<Rightarrow> string \<Rightarrow> spot_row option" where
  "get_spot_order rows order_id = find (has_order_id order_id) rows"

text \<open>An age as \<open>total_seconds()\<close> compared with whole seconds.\<close>

definition find_open_or_unknown_orders ::
  "spot_table \<Rightarrow> instant \<Rightarrow> string list \<Rightarrow> int \<Rightarrow> bool \<Rightarrow> bool \<Rightarrow> int \<Rightarrow> spot_row list" where
  "find_open_or_unknown_orders rows now symbols new_grace_seconds include_new_after_grace include_escalated_unknown escalation_attempts =
     filter (\<lambda>r. sw_status r \<in> set [St_NEW, St_OPEN, St_PARTIAL, St_UNKNOWN]
       \<and> (symbols = [] \<or> sw_symbol r \<in> set (map normalize_symbol symbols))
       \<and> \<not> (sw_status r = St_NEW \<and> \<not> include_new_after_grace
            \<and> max 0 new_grace_seconds * 1000000 < now - max (sw_created_at r) (sw_updated_at r))
       \<and> \<not> (sw_status r = St_UNKNOWN \<and> \<not> include_escalated_unknown
            \<and> (sw_unknown_escalated_at r \<noteq> None \<or> escalation_attempts \<le> sw_unknown_probe_attempts r))) rows"

definition UNKNOWN_ESCALATION_ATTEMPTS :: int where
  "UNKNOWN_ESCALATION_ATTEMPTS = 8"

definition list_unknown_orders :: "spot_table \<Rightarrow> instant \<Rightarrow> spot_row list" where
  "list_unknown_orders rows now =
     filter (\<lambda>r. sw_status r = St_UNKNOWN)
       (find_open_or_unknown_orders rows now [] 60 True True UNKNOWN_ESCALATION_ATTEMPTS)"

subsection \<open>Definitions: the registry\<close>

record unknown_record =
  ur_order_id :: string
  ur_reason :: string
  ur_ts_ms :: int

record unknown_registry =
  ug_records :: "(string, unknown_record) dict"
  ug_frozen_since :: "instant option"

definition UnknownOrderRegistry :: unknown_registry where
  "UnknownOrderRegistry = \<lparr>ug_records = [], ug_frozen_since = None\<rparr>"

definition mark_unknown :: "unknown_registry \<Rightarrow> instant \<Rightarrow> string \<Rightarrow> string \<Rightarrow> int \<Rightarrow> unknown_registry" where
  "mark_unknown g tm order_id reason ts =
     \<lparr>ug_records = AList.update order_id \<lparr>ur_order_id = order_id, ur_reason = reason, ur_ts_ms = ts\<rparr> (ug_records g),
      ug_frozen_since = (if ug_records g = [] then Some tm else ug_frozen_since g)\<rparr>"

definition mark_resolved :: "unknown_registry \<Rightarrow> string \<Rightarrow> unknown_registry" where
  "mark_resolved g order_id =
     (let recs = AList.delete order_id (ug_records g) in
      \<lparr>ug_records = recs, ug_frozen_since = (if recs = [] then None else ug_frozen_since g)\<rparr>)"

definition has_unknown :: "unknown_registry \<Rightarrow> bool" where
  "has_unknown g \<longleftrightarrow> ug_records g \<noteq> []"

definition count_unknown :: "unknown_registry \<Rightarrow> nat" where
  "count_unknown g = length (ug_records g)"

definition frozen_microseconds :: "unknown_registry \<Rightarrow> instant \<Rightarrow> int" where
  "frozen_microseconds g tm = (case ug_frozen_since g of None \<Rightarrow> 0 | Some t \<Rightarrow> max 0 (tm - t))"

definition registry_snapshot :: "unknown_registry \<Rightarrow> unknown_record list" where
  "registry_snapshot g = sort_key ur_order_id (map snd (ug_records g))"

definition by_order_id :: "unknown_record list \<Rightarrow> (string, unknown_record) dict \<Rightarrow> (string, unknown_record) dict" where
  "by_order_id recs d = fold (\<lambda>x. AList.update (ur_order_id x) x) recs d"

definition sync_snapshot :: "unknown_registry \<Rightarrow> instant \<Rightarrow> unknown_record list \<Rightarrow> bool \<Rightarrow> unknown_registry" where
  "sync_snapshot g tm recs allow_clear =
     (if allow_clear then
        let incoming = by_order_id recs [] in
        \<lparr>ug_records = incoming,
         ug_frozen_since = (if incoming = [] then None
           else if ug_records g = [] \<or> ug_frozen_since g = None then Some tm else ug_frozen_since g)\<rparr>
      else
        let merged = by_order_id recs (ug_records g) in
        \<lparr>ug_records = merged,
         ug_frozen_since = (if merged \<noteq> [] \<and> ug_frozen_since g = None then Some tm else ug_frozen_since g)\<rparr>)"

definition unknown_record_of :: "spot_row \<Rightarrow> unknown_record" where
  "unknown_record_of r =
     \<lparr>ur_order_id = sw_order_id r,
      ur_reason = (case sw_exchange_status_raw r of None \<Rightarrow> ''unknown'' | Some s \<Rightarrow> if s = [] then ''unknown'' else s),
      ur_ts_ms = (case sw_last_seen_at r of Some n \<Rightarrow> if n = 0 then millis (sw_updated_at r) else n | None \<Rightarrow> millis (sw_updated_at r))\<rparr>"

end
