(* ===== verification/Spot_Refresh.thy ===== *)
theory Spot_Refresh
  imports Stage4_Execution Idempotency Spot_Store
begin

text \<open>
  The first part of the execution service of stage 3, \<open>src/src/btcbot/services/execution_service.py\<close>:
  its configuration and state, the registry of unknown orders, and \<open>refresh_order_lifecycle\<close>, which
  compares the orders of the store with those of the exchange.

  The state is passed explicitly; an exception ends the operation and leaves the state as it is then.
  The clock is read by number: \<open>pv_clock n\<close> and \<open>pv_mono n\<close> (the monotonic clock) are its \<open>n\<close>-th
  readings.  The exchange, the market data, SHA-256 and the texts made from decimals and exceptions
  are parameters.  Metrics, logging, emitted decisions and the heartbeat of the instance lock are left
  out.
\<close>

subsection \<open>Definitions: the exchange\<close>

record open_item =
  oi_id :: nat
  oi_price :: dec
  oi_quantity :: dec
  oi_pair_symbol :: string
  oi_method :: string
  oi_order_client_id :: "string option"
  oi_time :: int
  oi_update_time :: "int option"
  oi_status :: string

record open_orders =
  oo_bids :: "open_item list"
  oo_asks :: "open_item list"

text \<open>A listed order; \<open>lo_aware\<close> says that its time of creation is there and has a time zone.\<close>

record listed_order =
  lo_order :: spot_order
  lo_aware :: bool

record 'x spot_exchange =
  sx_client :: "'x exchange_client"
  sx_open_orders :: "'x \<Rightarrow> string \<Rightarrow> 'x \<times> open_orders result"
  sx_all_orders :: "'x \<Rightarrow> string \<Rightarrow> int \<Rightarrow> int \<Rightarrow> 'x \<times> order_snapshot list result"
  sx_list_open_orders :: "'x \<Rightarrow> 'x \<times> listed_order list result"
  sx_balances :: "'x \<Rightarrow> 'x \<times> (string \<times> dec) list result"
  sx_health :: "'x \<Rightarrow> 'x \<times> (bool \<times> bool) result"

definition item_side :: "open_item \<Rightarrow> order_side option" where
  "item_side x =
     (let m = str_lower (str_strip (oi_method x)) in
      if m = ''buy'' then Some Side_BUY else if m = ''sell'' then Some Side_SELL else None)"

definition item_snapshot :: "open_item \<Rightarrow> order_snapshot" where
  "item_snapshot x =
     \<lparr>os_order_id = str_nat (oi_id x), os_client_order_id = oi_order_client_id x, os_pair_symbol = oi_pair_symbol x,
      os_side = item_side x, os_price = oi_price x, os_quantity = oi_quantity x, os_status = Ex_OPEN,
      os_timestamp = oi_time x, os_update_time = oi_update_time x, os_status_raw = Some (oi_status x)\<rparr>"

definition open_items_to_snapshots :: "open_orders \<Rightarrow> order_snapshot list" where
  "open_items_to_snapshots oo = map item_snapshot (oo_bids oo @ oo_asks oo)"

fun map_exchange_status :: "exchange_order_status \<Rightarrow> spot_status" where
  "map_exchange_status Ex_OPEN = St_OPEN"
| "map_exchange_status Ex_PARTIAL = St_PARTIAL"
| "map_exchange_status Ex_FILLED = St_FILLED"
| "map_exchange_status Ex_CANCELED = St_CANCELED"
| "map_exchange_status Ex_REJECTED = St_REJECTED"
| "map_exchange_status Ex_UNKNOWN = St_UNKNOWN"

subsection \<open>Definitions: configuration, environment and state\<close>

record spot_config =
  sc_dry_run :: bool
  sc_ttl_seconds :: int
  sc_live_trading_enabled :: bool
  sc_live_trading_ack :: bool
  sc_reprobe_initial_seconds :: int
  sc_reprobe_max_seconds :: int
  sc_reprobe_escalation_attempts :: int
  sc_reprobe_force_observe_only :: bool
  sc_reprobe_force_kill_switch :: bool
  sc_process_role :: "string option"
  sc_reprobe_max_lookback_seconds :: int
  sc_recovery_max_attempts :: int
  sc_recovery_backoff_seconds :: int
  sc_pending_grace_seconds :: int
  sc_wrapper :: wrapper_config
  sc_sell_requires_inventory :: bool
  sc_quote_override :: "string option"
  sc_estimated_fee_bps :: dec
  sc_safety_buffer_ratio :: dec
  sc_sell_fee_in_base_bps :: dec
  sc_allow_min_notional_upgrade :: bool
  sc_fallback_min_notional :: dec

text \<open>The bounds the constructor puts on its arguments.\<close>

definition quote_override_text :: "string option \<Rightarrow> string option" where
  "quote_override_text q =
     (case q of None \<Rightarrow> None | Some s \<Rightarrow> if str_strip s = [] then None else Some (str_upper (str_strip s)))"

definition configured :: "spot_config \<Rightarrow> spot_config" where
  "configured c =
     (let initial = max 1 (sc_reprobe_initial_seconds c); w = sc_wrapper c in
      c\<lparr>sc_reprobe_initial_seconds := initial, sc_reprobe_max_seconds := max initial (sc_reprobe_max_seconds c),
        sc_reprobe_escalation_attempts := max 1 (sc_reprobe_escalation_attempts c),
        sc_process_role := Some (role_value (coerce_process_role (sc_process_role c))),
        sc_reprobe_max_lookback_seconds := max 3600 (sc_reprobe_max_lookback_seconds c),
        sc_recovery_max_attempts := max 1 (sc_recovery_max_attempts c),
        sc_recovery_backoff_seconds := max 1 (sc_recovery_backoff_seconds c),
        sc_pending_grace_seconds := max 0 (sc_pending_grace_seconds c),
        sc_wrapper := ExecutionWrapper (wc_submit_retry_max_attempts w) (wc_cancel_retry_max_attempts w)
          (wc_retry_base_delay_ms w) (wc_retry_max_delay_ms w),
        sc_quote_override := quote_override_text (sc_quote_override c)\<rparr>)"

record 'x spot_env =
  pv_config :: spot_config
  pv_exchange :: "'x spot_exchange"
  pv_market_rules :: "(string \<Rightarrow> symbol_rules result) option"
  pv_retry_after :: "py_error \<Rightarrow> rat option"
  pv_rand :: "nat \<Rightarrow> rat"
  pv_clock :: "nat \<Rightarrow> instant"
  pv_mono :: "nat \<Rightarrow> instant"
  pv_sha256 :: "string \<Rightarrow> string"
  pv_format8 :: "dec \<Rightarrow> string"
  pv_format :: "dec \<Rightarrow> string"
  pv_through_float :: "dec \<Rightarrow> dec"
  pv_error_text :: "py_error \<Rightarrow> string"
  pv_trading_blocked_by_policy :: bool

record refresh_summary =
  rs_symbols :: "string list"
  rs_local_open_unknown :: nat
  rs_matched_on_exchange :: nat
  rs_imported_external_open :: nat
  rs_marked_missing :: nat
  rs_closed :: nat
  rs_throttled :: nat
  rs_open_orders_calls :: nat
  rs_all_orders_calls :: nat
  rs_backoff_429 :: nat
  rs_skipped_due_to_backoff :: bool
  rs_skip_non_essential :: bool
  rs_error_code :: string
  rs_backoff_endpoints :: "string list"
  rs_backoff_remaining :: "int option"

record execute_summary =
  xs_orders_submitted :: nat
  xs_orders_failed_exchange :: nat
  xs_rejected_intents :: nat
  xs_rejected_precheck :: nat
  xs_attempted_exchange_calls :: nat
  xs_would_submit_orders :: nat
  xs_would_submit_notional :: dec
  xs_orders_simulated :: nat
  xs_rejected_min_notional :: nat
  xs_would_reject_min_notional :: nat

record 'x spot_state =
  ss_idem :: idem_table
  ss_actions :: "action_row list"
  ss_idem_states :: idem_states
  ss_orders :: spot_table
  ss_op :: op_table
  ss_registry :: unknown_registry
  ss_safe_mode :: bool
  ss_kill_switch :: bool
  ss_last_refresh :: "(string, instant) dict"
  ss_backoff_until :: instant
  ss_refreshed_cycles :: "string list"
  ss_refreshed_order :: "string list"
  ss_balance_cache :: "(string, (string, dec) dict) dict"
  ss_balance_order :: "string list"
  ss_refresh_summary :: "refresh_summary option"
  ss_execute_summary :: "execute_summary option"
  ss_exchange :: 'x
  ss_calls :: "exchange_call list"
  ss_ticks :: nat

type_synonym ('x, 'a) spot = "('x spot_state, 'a) comp"

definition at_now :: "'x spot_env \<Rightarrow> (instant \<Rightarrow> 'x spot_state \<Rightarrow> 'b) \<Rightarrow> 'x spot_state \<Rightarrow> 'b" where
  "at_now env f s = f (pv_clock env (ss_ticks s)) (s\<lparr>ss_ticks := Suc (ss_ticks s)\<rparr>)"

definition at_mono :: "'x spot_env \<Rightarrow> (instant \<Rightarrow> 'x spot_state \<Rightarrow> 'b) \<Rightarrow> 'x spot_state \<Rightarrow> 'b" where
  "at_mono env f s = f (pv_mono env (ss_ticks s)) (s\<lparr>ss_ticks := Suc (ss_ticks s)\<rparr>)"

text \<open>A question to the exchange that places and cancels nothing.\<close>

definition ask_exchange :: "('x \<Rightarrow> 'x \<times> 'a result) \<Rightarrow> ('x, 'a) spot" where
  "ask_exchange f s = (case f (ss_exchange s) of (x, r) \<Rightarrow> (s\<lparr>ss_exchange := x\<rparr>, r))"

definition sync_unknown_registry :: "'x spot_env \<Rightarrow> bool \<Rightarrow> 'x spot_state \<Rightarrow> 'x spot_state" where
  "sync_unknown_registry env allow_clear =
     at_now env (\<lambda>now. at_mono env (\<lambda>tm s.
       s\<lparr>ss_registry := sync_snapshot (ss_registry s) tm (map unknown_record_of (list_unknown_orders (ss_orders s) now)) allow_clear\<rparr>))"

definition note_unknown :: "'x spot_env \<Rightarrow> string \<Rightarrow> string \<Rightarrow> int \<Rightarrow> 'x spot_state \<Rightarrow> 'x spot_state" where
  "note_unknown env order_id reason ts =
     at_mono env (\<lambda>tm s. s\<lparr>ss_registry := mark_unknown (ss_registry s) tm order_id reason ts\<rparr>)"

subsection \<open>Definitions: writes of the orders table\<close>

definition set_status ::
  "'x spot_env \<Rightarrow> string \<Rightarrow> spot_status \<Rightarrow> string option \<Rightarrow> bool option \<Rightarrow> int option \<Rightarrow> 'x spot_state \<Rightarrow> 'x spot_state" where
  "set_status env order_id status raw reconciled last_seen =
     at_now env (\<lambda>now s. s\<lparr>ss_orders := update_order_status (ss_orders s) now order_id status raw reconciled last_seen\<rparr>)"

definition store_order ::
  "'x spot_env \<Rightarrow> spot_order \<Rightarrow> bool \<Rightarrow> string option \<Rightarrow> string option \<Rightarrow> string option \<Rightarrow> ('x, unit) spot" where
  "store_order env ord reconciled raw idem intent_id =
     at_now env (\<lambda>now s. case save_order (ss_orders s) now ord reconciled raw idem intent_id of
       Inl e \<Rightarrow> (s, Inl e)
     | Inr rows \<Rightarrow> (s\<lparr>ss_orders := rows\<rparr>, Inr ()))"

definition snapshot_side :: "spot_table \<Rightarrow> order_snapshot \<Rightarrow> order_side option" where
  "snapshot_side rows x =
     (case os_side x of Some d \<Rightarrow> Some d | None \<Rightarrow> map_option sw_side (get_spot_order rows (os_order_id x)))"

definition or_text :: "string option \<Rightarrow> string option \<Rightarrow> string option" where
  "or_text a b = (case a of None \<Rightarrow> b | Some t \<Rightarrow> if t = [] then b else Some t)"

definition save_reconciled_snapshot :: "'x spot_env \<Rightarrow> order_snapshot \<Rightarrow> string option \<Rightarrow> ('x, unit) spot" where
  "save_reconciled_snapshot env x raw s =
     (case snapshot_side (ss_orders s) x of
        None \<Rightarrow> (s, Inr ())
      | Some d \<Rightarrow>
          at_now env (\<lambda>created. at_now env (\<lambda>updated.
            store_order env \<lparr>so_order_id = os_order_id x, so_client_order_id = os_client_order_id x, so_symbol = os_pair_symbol x,
                so_side = d, so_price = os_price x, so_quantity = os_quantity x, so_status = map_exchange_status (os_status x),
                so_created_at = created, so_updated_at = updated\<rparr> True (or_text raw (os_status_raw x)) None None)) s)"

text \<open>\<open>snapshot.update_time or snapshot.timestamp\<close>.\<close>

definition seen_time :: "order_snapshot \<Rightarrow> int" where
  "seen_time x = (case os_update_time x of Some n \<Rightarrow> if n = 0 then os_timestamp x else n | None \<Rightarrow> os_timestamp x)"

subsection \<open>Definitions: the refresh\<close>

definition is_exchange_429_error :: "py_error \<Rightarrow> bool" where
  "is_exchange_429_error e =
     (case e of
        ExchangeExn (HttpStatusError n) \<Rightarrow> n = 429
      | ExchangeExn (ExchangeError status message body code msg) \<Rightarrow> status = Some 429
      | _ \<Rightarrow> False)"

definition is_unknown_probe_due :: "int option \<Rightarrow> int \<Rightarrow> bool" where
  "is_unknown_probe_due next_probe_at now_ms = (case next_probe_at of None \<Rightarrow> True | Some n \<Rightarrow> n \<le> now_ms)"

definition all_orders_start_ms :: "spot_config \<Rightarrow> int \<Rightarrow> spot_row list \<Rightarrow> int" where
  "all_orders_start_ms c now_ms due =
     (let default_start = now_ms - 60 * 60 * 1000;
          max_lookback_start = now_ms - sc_reprobe_max_lookback_seconds c * 1000;
          seen = filter (\<lambda>n. 0 < n \<and> n \<le> now_ms) (List.map_filter sw_unknown_first_seen_at due);
          start_ms = (if seen = [] then default_start else min default_start (Min (set seen) - 60 * 1000))
      in max max_lookback_start start_ms)"

definition match_existing_order :: "string \<Rightarrow> string option \<Rightarrow> order_snapshot list \<Rightarrow> order_snapshot option" where
  "match_existing_order order_id client_order_id snapshots =
     (case find (\<lambda>x. os_order_id x = order_id) snapshots of
        Some x \<Rightarrow> Some x
      | None \<Rightarrow> (case client_order_id of None \<Rightarrow> None | Some cid \<Rightarrow> match_order_by_client_id snapshots cid))"

definition reprobe_backoff :: "spot_config \<Rightarrow> int \<Rightarrow> int" where
  "reprobe_backoff c next_attempt =
     min (sc_reprobe_max_seconds c) (sc_reprobe_initial_seconds c * 2 ^ nat (next_attempt - 1))"

definition mark_unknown_unresolved :: "'x spot_env \<Rightarrow> spot_row \<Rightarrow> int \<Rightarrow> 'x spot_state \<Rightarrow> 'x spot_state" where
  "mark_unknown_unresolved env local now_ms s =
     (let c = pv_config env; next_attempt = max 0 (min (sw_unknown_probe_attempts local) 60) + 1;
          next_probe_at = now_ms + reprobe_backoff c next_attempt * 1000;
          should_escalate = (sc_reprobe_escalation_attempts c \<le> next_attempt \<and> sw_unknown_escalated_at local = None);
          s' = s\<lparr>ss_orders := mark_unknown_probe_result (ss_orders s) (sw_order_id local) now_ms next_probe_at should_escalate\<rparr>
      in if \<not> should_escalate then s'
         else s'\<lparr>ss_safe_mode := (sc_reprobe_force_observe_only c \<or> ss_safe_mode s'),
                 ss_kill_switch := (sc_reprobe_force_kill_switch c \<or> ss_kill_switch s')\<rparr>)"

record refresh_acc =
  ra_summary :: refresh_summary
  ra_failed :: bool
  ra_recent :: "order_snapshot list option"

definition add_endpoint :: "string \<Rightarrow> string list \<Rightarrow> string list" where
  "add_endpoint e es = (if e \<in> set es then es else es @ [e])"

definition lookup_failed :: "string \<Rightarrow> py_error \<Rightarrow> refresh_acc \<Rightarrow> refresh_acc" where
  "lookup_failed endpoint e acc =
     (let m = ra_summary acc in
      acc\<lparr>ra_failed := True,
          ra_summary := (if is_exchange_429_error e
            then m\<lparr>rs_backoff_429 := Suc (rs_backoff_429 m), rs_backoff_endpoints := add_endpoint endpoint (rs_backoff_endpoints m)\<rparr>
            else m)\<rparr>)"

definition count_matched :: "refresh_acc \<Rightarrow> refresh_acc" where
  "count_matched acc = acc\<lparr>ra_summary := (ra_summary acc)\<lparr>rs_matched_on_exchange := Suc (rs_matched_on_exchange (ra_summary acc))\<rparr>\<rparr>"

definition count_closed :: "refresh_acc \<Rightarrow> refresh_acc" where
  "count_closed acc = acc\<lparr>ra_summary := (ra_summary acc)\<lparr>rs_closed := Suc (rs_closed (ra_summary acc))\<rparr>\<rparr>"

definition count_missing :: "refresh_acc \<Rightarrow> refresh_acc" where
  "count_missing acc = acc\<lparr>ra_summary := (ra_summary acc)\<lparr>rs_marked_missing := Suc (rs_marked_missing (ra_summary acc))\<rparr>\<rparr>"

text \<open>One open order of the exchange is written to the store.\<close>

definition save_open_snapshot :: "'x spot_env \<Rightarrow> order_snapshot \<Rightarrow> refresh_acc \<Rightarrow> ('x, refresh_acc) spot" where
  "save_open_snapshot env x acc s =
     (let mapped = map_exchange_status (os_status x);
          is_external = (get_spot_order (ss_orders s) (os_order_id x) = None \<and> mapped \<in> set [St_NEW, St_OPEN, St_PARTIAL]);
          raw = (if is_external then Some ''external_open:exchange_reconcile'' else os_status_raw x);
          m = ra_summary acc;
          acc' = (if is_external then acc\<lparr>ra_summary := m\<lparr>rs_imported_external_open := Suc (rs_imported_external_open m)\<rparr>\<rparr> else acc)
      in sbind (save_reconciled_snapshot env x raw s) (\<lambda>_ s'.
           (set_status env (os_order_id x) mapped (or_text raw (os_status_raw x)) (Some True) (Some (seen_time x)) s', Inr acc')))"

definition fetch_recent ::
  "'x spot_env \<Rightarrow> bool \<Rightarrow> string \<Rightarrow> int \<Rightarrow> spot_row list \<Rightarrow> refresh_acc \<Rightarrow> ('x, refresh_acc) spot" where
  "fetch_recent env skip_non_essential symb now_ms due acc s =
     (if ra_recent acc \<noteq> None \<or> skip_non_essential then (s, Inr acc)
      else
        let m = ra_summary acc;
            acc' = acc\<lparr>ra_summary := m\<lparr>rs_all_orders_calls := Suc (rs_all_orders_calls m)\<rparr>\<rparr>
        in case ask_exchange (\<lambda>x. sx_all_orders (pv_exchange env) x symb (all_orders_start_ms (pv_config env) now_ms due) now_ms) s of
             (s', Inr xs) \<Rightarrow> (s', Inr (acc'\<lparr>ra_recent := Some xs\<rparr>))
           | (s', Inl e) \<Rightarrow> (s', Inr (lookup_failed ''all_orders'' e acc')))"

definition settle_missing :: "'x spot_env \<Rightarrow> int \<Rightarrow> spot_row \<Rightarrow> refresh_acc \<Rightarrow> ('x, refresh_acc) spot" where
  "settle_missing env now_ms local acc =
     at_now env (\<lambda>now s.
       let age_seconds = total_seconds (now - sw_updated_at local) in
       if sw_status local = St_NEW \<and> sc_pending_grace_seconds (pv_config env) < age_seconds then
         (set_status env (sw_order_id local) St_REJECTED (Some ''missing_on_exchange_after_grace'') (Some True) (Some now_ms) s,
          Inr (count_closed acc))
       else if sw_status local \<in> set [St_OPEN, St_PARTIAL] then
         (set_status env (sw_order_id local) St_REJECTED (Some ''missing_on_exchange_reconcile'') (Some True) (Some now_ms) s,
          Inr (count_closed (count_missing acc)))
       else if sw_status local = St_UNKNOWN then (mark_unknown_unresolved env local now_ms s, Inr acc)
       else (s, Inr acc))"

definition unknown_placeholder :: "string \<Rightarrow> bool" where
  "unknown_placeholder order_id = starts_with order_id ''unknown:''"

definition settle_matched :: "'x spot_env \<Rightarrow> spot_row \<Rightarrow> order_snapshot \<Rightarrow> refresh_acc \<Rightarrow> ('x, refresh_acc) spot" where
  "settle_matched env local x acc s =
     (let mapped = map_exchange_status (os_status x);
          mark = (\<lambda>i. set_status env i mapped (os_status_raw x) (Some True) (Some (seen_time x)));
          rename = (unknown_placeholder (sw_order_id local) \<and> (case sw_client_order_id local of None \<Rightarrow> False | Some c \<Rightarrow> c \<noteq> [])
                    \<and> sw_order_id local \<noteq> os_order_id x)
      in sbind (save_reconciled_snapshot env x None s) (\<lambda>_ s1.
           let s2 = mark (os_order_id x) s1;
               acc' = (if mapped \<in> set [St_CANCELED, St_FILLED, St_REJECTED] then count_closed (count_matched acc) else count_matched acc)
           in (if rename then mark (sw_order_id local) s2 else s2, Inr acc')))"

definition refresh_absent ::
  "'x spot_env \<Rightarrow> bool \<Rightarrow> string \<Rightarrow> int \<Rightarrow> spot_row list \<Rightarrow> spot_row \<Rightarrow> refresh_acc \<Rightarrow> ('x, refresh_acc) spot" where
  "refresh_absent env skip_non_essential symb now_ms due local acc s =
     (if sw_status local = St_UNKNOWN \<and> \<not> is_unknown_probe_due (sw_unknown_next_probe_at local) now_ms then (s, Inr acc)
      else sbind (fetch_recent env skip_non_essential symb now_ms due acc s) (\<lambda>acc' s'.
        case ra_recent acc' of
          None \<Rightarrow> (s', Inr acc')
        | Some recent \<Rightarrow>
            (case match_existing_order (sw_order_id local) (sw_client_order_id local) recent of
               None \<Rightarrow> settle_missing env now_ms local acc' s'
             | Some x \<Rightarrow> settle_matched env local x acc' s')))"

definition refresh_local ::
  "'x spot_env \<Rightarrow> bool \<Rightarrow> string \<Rightarrow> int \<Rightarrow> spot_row list \<Rightarrow> order_snapshot list \<Rightarrow> spot_row \<Rightarrow> refresh_acc \<Rightarrow> ('x, refresh_acc) spot" where
  "refresh_local env skip_non_essential symb now_ms due snapshots local acc s =
     (if sw_order_id local \<in> set (map os_order_id snapshots) then (s, Inr (count_matched acc))
      else case Option.bind (sw_client_order_id local) (match_order_by_client_id snapshots) of
        Some x \<Rightarrow>
          (if unknown_placeholder (sw_order_id local) \<and> sw_order_id local \<noteq> os_order_id x
           then set_status env (sw_order_id local) (map_exchange_status (os_status x)) (os_status_raw x) (Some True) (Some (seen_time x)) s
           else s, Inr (count_matched acc))
      | None \<Rightarrow> refresh_absent env skip_non_essential symb now_ms due local acc s)"

definition refresh_symbol ::
  "'x spot_env \<Rightarrow> bool \<Rightarrow> spot_row list \<Rightarrow> int \<Rightarrow> instant \<Rightarrow> string \<Rightarrow> refresh_acc \<Rightarrow> ('x, refresh_acc) spot" where
  "refresh_symbol env skip_non_essential locals now_ms now_mono symb acc0 s0 =
     (let symbol_orders = filter (\<lambda>r. sw_symbol r = symb) locals; m = ra_summary acc0;
          recently = (case map_of (ss_last_refresh s0) symb of None \<Rightarrow> False | Some t \<Rightarrow> now_mono - t < 5 * 1000000)
      in if symbol_orders = [] \<and> recently then (s0, Inr (acc0\<lparr>ra_summary := m\<lparr>rs_throttled := Suc (rs_throttled m)\<rparr>\<rparr>))
         else
           let acc = acc0\<lparr>ra_recent := None, ra_summary := m\<lparr>rs_open_orders_calls := Suc (rs_open_orders_calls m)\<rparr>\<rparr>;
               s = s0\<lparr>ss_last_refresh := AList.update symb now_mono (ss_last_refresh s0)\<rparr>;
               due = filter (\<lambda>r. sw_status r = St_UNKNOWN \<and> is_unknown_probe_due (sw_unknown_next_probe_at r) now_ms) symbol_orders
           in case ask_exchange (\<lambda>x. sx_open_orders (pv_exchange env) x symb) s of
                (s1, Inl e) \<Rightarrow> (s1, Inr (lookup_failed ''open_orders'' e acc))
              | (s1, Inr oo) \<Rightarrow>
                  let snapshots = open_items_to_snapshots oo in
                  sbind (sfold (save_open_snapshot env) snapshots acc s1)
                    (sfold (refresh_local env skip_non_essential symb now_ms due snapshots) symbol_orders))"

definition empty_refresh :: "string list \<Rightarrow> bool \<Rightarrow> refresh_summary" where
  "empty_refresh symbols skip_non_essential =
     \<lparr>rs_symbols = symbols, rs_local_open_unknown = 0, rs_matched_on_exchange = 0, rs_imported_external_open = 0,
      rs_marked_missing = 0, rs_closed = 0, rs_throttled = 0, rs_open_orders_calls = 0, rs_all_orders_calls = 0,
      rs_backoff_429 = 0, rs_skipped_due_to_backoff = False, rs_skip_non_essential = skip_non_essential, rs_error_code = [],
      rs_backoff_endpoints = [], rs_backoff_remaining = None\<rparr>"

definition finish_refresh :: "'x spot_env \<Rightarrow> instant \<Rightarrow> refresh_acc \<Rightarrow> ('x, refresh_summary) spot" where
  "finish_refresh env now_mono acc s =
     (let m = ra_summary acc; limited = (0 < rs_backoff_429 m);
          m' = (if limited then m\<lparr>rs_error_code := ''EXCHANGE_429_BACKOFF''\<rparr>
                else if 0 < rs_marked_missing m then m\<lparr>rs_error_code := ''ORDER_LIFECYCLE_DRIFT''\<rparr> else m);
          s' = s\<lparr>ss_backoff_until := (if limited then max (ss_backoff_until s) (now_mono + 15 * 1000000) else ss_backoff_until s),
                 ss_refresh_summary := Some m'\<rparr>
      in (sync_unknown_registry env (\<not> ra_failed acc) s', Inr m'))"

definition normalized_symbols :: "string list \<Rightarrow> string list" where
  "normalized_symbols symbols = sort (remdups (map normalize_symbol symbols))"

definition refresh_order_lifecycle :: "'x spot_env \<Rightarrow> string list \<Rightarrow> bool \<Rightarrow> ('x, refresh_summary) spot" where
  "refresh_order_lifecycle env symbols skip_non_essential s0 =
     (let symbs = normalized_symbols symbols; m0 = empty_refresh symbs skip_non_essential in
      if symbs = [] then (s0\<lparr>ss_refresh_summary := Some m0\<rparr>, Inr m0)
      else
        at_now env (\<lambda>t0. at_now env (\<lambda>t1. at_mono env (\<lambda>now_mono s.
          let locals = find_open_or_unknown_orders (ss_orders s) t0 symbs (sc_pending_grace_seconds (pv_config env)) True True
                UNKNOWN_ESCALATION_ATTEMPTS;
              m = m0\<lparr>rs_local_open_unknown := length locals\<rparr>
          in if now_mono < ss_backoff_until s then
               let m' = m\<lparr>rs_skipped_due_to_backoff := True, rs_error_code := ''EXCHANGE_429_BACKOFF'',
                     rs_backoff_remaining := Some (max 0 (ss_backoff_until s - now_mono))\<rparr>
               in (s\<lparr>ss_refresh_summary := Some m'\<rparr>, Inr m')
             else sbind (sfold (refresh_symbol env skip_non_essential locals (millis t1) now_mono) symbs
                    \<lparr>ra_summary = m, ra_failed = False, ra_recent = None\<rparr> s) (finish_refresh env now_mono)))) s0)"

end
