(* ===== verification/Spot_Execution.thy ===== *)
theory Spot_Execution
  imports Spot_Refresh
begin

text \<open>
  The execution service of stage 3, \<open>src/src/btcbot/services/execution_service.py\<close>: from intents to
  orders at the exchange under idempotency keys, the reconciliation of uncertain outcomes, the
  recovery of reservations that stayed pending, and the cancellation of stale orders; with the
  intents of \<open>domain/intent.py\<close> and the ids of \<open>domain/models.py\<close>.
\<close>

subsection \<open>Definitions: intents and their ids\<close>

record place_intent =
  pi_symbol :: string
  pi_side :: order_side
  pi_price :: dec
  pi_quantity :: dec
  pi_notional :: dec
  pi_cycle_id :: string
  pi_strategy_id :: string
  pi_intent_salt :: string

record stage3_intent =
  it_intent_id :: string
  it_symbol :: string
  it_side :: order_side
  it_qty :: dec
  it_limit_price :: "dec option"
  it_reason :: string
  it_confidence :: rat
  it_ttl_seconds :: "int option"
  it_idempotency_key :: string
  it_created_at :: instant

fun joined_with :: "string \<Rightarrow> string list \<Rightarrow> string" where
  "joined_with sep [] = []"
| "joined_with sep [x] = x"
| "joined_with sep (x # y # xs) = x @ sep @ joined_with sep (y # xs)"

definition build_idempotency_key ::
  "(string \<Rightarrow> string) \<Rightarrow> (dec \<Rightarrow> string) \<Rightarrow> string \<Rightarrow> string \<Rightarrow> order_side \<Rightarrow> dec \<Rightarrow> dec option \<Rightarrow> string" where
  "build_idempotency_key sha256 text_of cycle_id symb side qty limit_price =
     sha256 (joined_with ''|'' [cycle_id, normalize_symbol symb, side_text side, text_of qty,
       (case limit_price of None \<Rightarrow> [] | Some p \<Rightarrow> text_of p)])"

definition create_intent ::
  "(string \<Rightarrow> string) \<Rightarrow> (dec \<Rightarrow> string) \<Rightarrow> string \<Rightarrow> instant \<Rightarrow> string \<Rightarrow> string \<Rightarrow> order_side \<Rightarrow> dec \<Rightarrow> dec option \<Rightarrow> string \<Rightarrow>
   rat \<Rightarrow> int option \<Rightarrow> string option \<Rightarrow> stage3_intent" where
  "create_intent sha256 text_of fresh_id now cycle_id symb side qty limit_price reason confidence ttl_seconds intent_id =
     \<lparr>it_intent_id = (case intent_id of None \<Rightarrow> fresh_id | Some i \<Rightarrow> if i = [] then fresh_id else i),
      it_symbol = normalize_symbol symb, it_side = side, it_qty = qty, it_limit_price = limit_price, it_reason = reason,
      it_confidence = max 0 (min 1 confidence), it_ttl_seconds = ttl_seconds,
      it_idempotency_key = build_idempotency_key sha256 text_of cycle_id (normalize_symbol symb) side qty limit_price,
      it_created_at = now\<rparr>"

definition to_order_intent :: "'x spot_env \<Rightarrow> string \<Rightarrow> stage3_intent \<Rightarrow> place_intent result" where
  "to_order_intent env cycle_id i =
     (case it_limit_price i of
        None \<Rightarrow> Inl (ValueError ''Intent.limit_price is required for Stage 2 limit execution'')
      | Some p \<Rightarrow> Inr \<lparr>pi_symbol = it_symbol i, pi_side = it_side i, pi_price = pv_through_float env p,
          pi_quantity = pv_through_float env (it_qty i), pi_notional = pv_through_float env (dmul (it_qty i) p),
          pi_cycle_id = cycle_id, pi_strategy_id = ''default'', pi_intent_salt = []\<rparr>)"

definition is_token_char :: "char \<Rightarrow> bool" where
  "is_token_char c = (let n = (of_char c :: int) in (48 \<le> n \<and> n \<le> 57) \<or> (65 \<le> n \<and> n \<le> 90) \<or> (97 \<le> n \<and> n \<le> 122))"

definition symbol_token :: "nat \<Rightarrow> string \<Rightarrow> string" where
  "symbol_token n symb = (let t = take n (str_upper (filter is_token_char symb)) in if t = [] then ''SYMB'' else t)"

definition make_intent_id :: "'x spot_env \<Rightarrow> place_intent \<Rightarrow> string" where
  "make_intent_id env i =
     take 16 (pv_sha256 env (joined_with ''|'' [pi_strategy_id i, symbol_token 12 (pi_symbol i), side_text (pi_side i),
       pv_format8 env (pi_price i), pv_format8 env (pi_quantity i), pv_format8 env (pi_notional i), pi_intent_salt i]))"

definition make_client_order_id :: "'x spot_env \<Rightarrow> place_intent \<Rightarrow> string" where
  "make_client_order_id env i =
     take 40 (joined_with ''-'' [''meva2'', symbol_token 8 (pi_symbol i), (if pi_side i = Side_BUY then ''b'' else ''s''),
       make_intent_id env i, ''a0''])"

definition canonical_place_fields :: "'x spot_env \<Rightarrow> place_intent \<Rightarrow> string \<times> string \<times> string \<times> string" where
  "canonical_place_fields env i =
     (let symb = normalize_symbol (pi_symbol i); raw = (pi_price i, pi_quantity i);
          (p, q) = (case pv_market_rules env of
              None \<Rightarrow> raw
            | Some rules_for \<Rightarrow>
                (case rules_for symb of
                   Inl e \<Rightarrow> raw
                 | Inr rules \<Rightarrow>
                     (case quantize_price (pi_price i) rules of
                        Inl e \<Rightarrow> raw
                      | Inr p \<Rightarrow> (case quantize_quantity (pi_quantity i) rules of Inl e \<Rightarrow> (p, pi_quantity i) | Inr q \<Rightarrow> (p, q)))))
      in (symb, side_text (pi_side i), pv_format env p, pv_format env q))"

definition place_hash :: "'x spot_env \<Rightarrow> place_intent \<Rightarrow> string" where
  "place_hash env i = (case canonical_place_fields env i of (a, b, c, d) \<Rightarrow> pv_sha256 env (joined_with ''|'' [a, b, c, d]))"

definition stable_place_intent_hash :: "'x spot_env \<Rightarrow> place_intent \<Rightarrow> string" where
  "stable_place_intent_hash env i =
     ''place:'' @ pv_sha256 env (joined_with ''|'' [normalize_symbol (pi_symbol i), side_text (pi_side i),
       pv_format env (pi_price i), pv_format env (pi_quantity i)])"

definition place_idempotency_key :: "'x spot_env \<Rightarrow> place_intent \<Rightarrow> stage3_intent option \<Rightarrow> string" where
  "place_idempotency_key env i raw =
     (case raw of
        None \<Rightarrow> stable_place_intent_hash env i
      | Some r \<Rightarrow> if it_idempotency_key r = [] then stable_place_intent_hash env i else it_idempotency_key r)"

definition cancel_hash :: "'x spot_env \<Rightarrow> string \<Rightarrow> string" where
  "cancel_hash env order_id = pv_sha256 env order_id"

subsection \<open>Definitions: the caches of a cycle\<close>

text \<open>The oldest entries are dropped until the limit is kept.\<close>

definition excess :: "nat \<Rightarrow> 'a list \<Rightarrow> 'a list" where
  "excess n xs = take (length xs - n) xs"

definition mark_lifecycle_refreshed :: "string option \<Rightarrow> 'x spot_state \<Rightarrow> 'x spot_state" where
  "mark_lifecycle_refreshed cycle_id s =
     (case nonempty cycle_id of
        None \<Rightarrow> s
      | Some c \<Rightarrow>
          let order = (if c \<in> set (ss_refreshed_cycles s) then remove1 c (ss_refreshed_order s) else ss_refreshed_order s) @ [c];
              out = excess 10 order
          in s\<lparr>ss_refreshed_cycles := filter (\<lambda>x. x \<notin> set out) (List.insert c (ss_refreshed_cycles s)),
               ss_refreshed_order := drop (length out) order\<rparr>)"

definition was_lifecycle_refreshed :: "string option \<Rightarrow> 'x spot_state \<Rightarrow> bool" where
  "was_lifecycle_refreshed cycle_id s = (case nonempty cycle_id of None \<Rightarrow> False | Some c \<Rightarrow> c \<in> set (ss_refreshed_cycles s))"

definition remember_cycle_balances :: "string \<Rightarrow> (string, dec) dict \<Rightarrow> 'x spot_state \<Rightarrow> 'x spot_state" where
  "remember_cycle_balances c balances s =
     (let cache = AList.update c balances (ss_balance_cache s);
          order = remove1 c (ss_balance_order s) @ [c];
          out = excess 10 order
      in s\<lparr>ss_balance_cache := fold AList.delete out cache, ss_balance_order := drop (length out) order\<rparr>)"

definition balance_by_asset :: "(string \<times> dec) list \<Rightarrow> (string, dec) dict" where
  "balance_by_asset items = fold (\<lambda>(asset, free). AList.update (str_upper asset) free) items []"

definition prime_cycle_balances :: "string \<Rightarrow> (string \<times> dec) list \<Rightarrow> 'x spot_state \<Rightarrow> 'x spot_state" where
  "prime_cycle_balances c items s = (if c = [] then s else remember_cycle_balances c (balance_by_asset items) s)"

definition get_cycle_balances :: "'x spot_env \<Rightarrow> string option \<Rightarrow> 'x spot_state \<Rightarrow> 'x spot_state \<times> (string, dec) dict option" where
  "get_cycle_balances env cycle_id s =
     (case nonempty cycle_id of
        None \<Rightarrow> (s, None)
      | Some c \<Rightarrow>
          (case map_of (ss_balance_cache s) c of
             Some b \<Rightarrow> (s, Some b)
           | None \<Rightarrow>
               (case ask_exchange (sx_balances (pv_exchange env)) s of
                  (s', Inl e) \<Rightarrow> (s', None)
                | (s', Inr items) \<Rightarrow> (remember_cycle_balances c (balance_by_asset items) s', Some (balance_by_asset items)))))"

subsection \<open>Definitions: guards\<close>

definition process_role_of :: "'x spot_env \<Rightarrow> string" where
  "process_role_of env = role_value (coerce_process_role (sc_process_role (pv_config env)))"

definition ensure_live_side_effects_allowed :: "'x spot_env \<Rightarrow> ('x, unit) spot" where
  "ensure_live_side_effects_allowed env s =
     (let c = pv_config env;
          policy = validate_live_side_effects_policy (Some (process_role_of env)) True (sc_dry_run c) (ss_kill_switch s)
            (sc_live_trading_enabled c) (sc_live_trading_ack c)
      in (s, if pr_allowed policy then Inr () else Inl (LiveTradingNotArmedError (pr_message policy))))"

definition submission_guarded :: "'x spot_env \<Rightarrow> ('x, bool) spot" where
  "submission_guarded env s =
     (if sc_dry_run (pv_config env) then (s, Inr False)
      else at_now env (\<lambda>now s.
        case get_kill_switch (ss_op s) now (process_role_of env) of
          ((enabled, reason, until_ts), op) \<Rightarrow>
            let s1 = s\<lparr>ss_op := op\<rparr> in
            if enabled \<or> pv_trading_blocked_by_policy env then (s1, Inr True)
            else sbind (ask_exchange (sx_health (pv_exchange env)) s1) (\<lambda>(degraded, breaker_open) s2. (s2, Inr (degraded \<or> breaker_open)))) s)"

definition symbol_rules_for_execution :: "'x spot_env \<Rightarrow> string \<Rightarrow> symbol_rules result" where
  "symbol_rules_for_execution env symb =
     (case pv_market_rules env of
        Some rules_for \<Rightarrow> rules_for symb
      | None \<Rightarrow> Inr \<lparr>sr_pair_symbol = symb, sr_price_scale = 8, sr_quantity_scale = 8,
          sr_min_total = Some (sc_fallback_min_notional (pv_config env)), sr_min_price = None, sr_max_price = None,
          sr_min_qty = None, sr_max_qty = None, sr_tick_size = None, sr_step_size = None\<rparr>)"

definition derive_symbol_assets :: "spot_config \<Rightarrow> string \<Rightarrow> (string \<times> string) result" where
  "derive_symbol_assets c symb =
     (let normalized = normalize_symbol symb in
      case split_symbol normalized of
        Inr (base, quote) \<Rightarrow> Inr (str_upper base, str_upper quote)
      | Inl e \<Rightarrow>
          if \<not> is_value_error e then Inl e
          else case sc_quote_override c of
            None \<Rightarrow> Inl e
          | Some q \<Rightarrow> if matches_quote normalized q then Inr (strip_quote normalized q, q) else Inr (normalized, q))"

type_synonym precheck = "bool \<times> string option \<times> dec option \<times> dec option"

definition covered :: "string \<Rightarrow> dec \<Rightarrow> dec \<Rightarrow> precheck" where
  "covered asset required available =
     (if available < required then (False, Some asset, Some required, Some available) else (True, None, None, None))"

definition sell_requirement :: "spot_config \<Rightarrow> dec \<Rightarrow> dec" where
  "sell_requirement c quantity = dadd quantity (dmul quantity (ddiv (sc_sell_fee_in_base_bps c) 10000))"

definition buy_requirement :: "spot_config \<Rightarrow> dec \<Rightarrow> dec \<Rightarrow> dec" where
  "buy_requirement c price quantity =
     (let notional = dmul price quantity in
      dadd (dadd notional (dmul notional (ddiv (sc_estimated_fee_bps c) 10000))) (dmul notional (sc_safety_buffer_ratio c)))"

definition check_balance_precondition ::
  "spot_config \<Rightarrow> (string, dec) dict option \<Rightarrow> string \<Rightarrow> order_side \<Rightarrow> dec \<Rightarrow> dec \<Rightarrow> precheck result" where
  "check_balance_precondition c balances symb side price quantity =
     rbind (derive_symbol_assets c symb) (\<lambda>(base_asset, quote_asset). Inr (
       let known = (case balances of None \<Rightarrow> [] | Some b \<Rightarrow> b) in
       if known = [] then
         if side = Side_SELL \<and> sc_sell_requires_inventory c then (False, Some base_asset, Some (sell_requirement c quantity), Some 0)
         else (True, None, None, None)
       else if side = Side_BUY then
         let asset = (case sc_quote_override c of None \<Rightarrow> quote_asset | Some q \<Rightarrow> q)
         in covered asset (buy_requirement c price quantity) (dict_get known asset 0)
       else covered base_asset (sell_requirement c quantity) (dict_get known base_asset 0)))"

subsection \<open>Definitions: errors of the exchange\<close>

definition str_contains :: "string \<Rightarrow> string \<Rightarrow> bool" where
  "str_contains w s = list_ex (\<lambda>n. starts_with (drop n s) w) [0..<Suc (length s)]"

definition str_int :: "int \<Rightarrow> string" where
  "str_int n = (if n < 0 then ''-'' @ str_nat (nat (- n)) else str_nat (nat n))"

definition code_text :: "reject_code option \<Rightarrow> string" where
  "code_text c = (case c of None \<Rightarrow> ''None'' | Some (Code_int n) \<Rightarrow> str_int n | Some (Code_str t) \<Rightarrow> t)"

definition text_or_empty :: "string option \<Rightarrow> string" where
  "text_or_empty t = (case t of None \<Rightarrow> [] | Some u \<Rightarrow> u)"

definition is_known_min_notional_reject :: "py_error \<Rightarrow> bool" where
  "is_known_min_notional_reject e =
     (case e of
        ExchangeExn (ExchangeError status message body code msg) \<Rightarrow>
          (code_text code = ''1123'' \<and> str_upper (text_or_empty msg) = ''FAILED_MIN_TOTAL_AMOUNT'')
          \<or> (let joined = str_upper (joined_with '' '' [code_text code, text_or_empty msg, text_or_empty body, message])
             in str_contains ''1123'' joined \<and> str_contains ''FAILED_MIN_TOTAL_AMOUNT'' joined)
      | _ \<Rightarrow> False)"

definition is_uncertain_error :: "py_error \<Rightarrow> bool" where
  "is_uncertain_error e = (classify_exchange_error e \<in> set [EC_UNCERTAIN, EC_TRANSIENT, EC_RATE_LIMIT])"

definition error_body :: "py_error \<Rightarrow> string" where
  "error_body e = (case e of ExchangeExn (ExchangeError status message body code msg) \<Rightarrow> take 2048 (text_or_empty body) | _ \<Rightarrow> [])"

definition raw_error_text :: "'x spot_env \<Rightarrow> py_error \<Rightarrow> string" where
  "raw_error_text env e = take 2048 (if error_body e = [] then pv_error_text env e else error_body e)"

subsection \<open>Definitions: reconciliation\<close>

datatype reconcile_status = Rec_CONFIRMED | Rec_UNKNOWN | Rec_NOT_FOUND

fun reconcile_text :: "reconcile_status \<Rightarrow> string" where
  "reconcile_text Rec_CONFIRMED = ''confirmed''"
| "reconcile_text Rec_UNKNOWN = ''unknown''"
| "reconcile_text Rec_NOT_FOUND = ''not_found''"

record reconcile_outcome =
  ro_status :: reconcile_status
  ro_order_id :: "string option"
  ro_reason :: string

definition confirmed_by :: "string \<Rightarrow> order_snapshot \<Rightarrow> reconcile_outcome" where
  "confirmed_by reason x = \<lparr>ro_status = Rec_CONFIRMED, ro_order_id = Some (os_order_id x), ro_reason = reason\<rparr>"

definition unknown_outcome :: "string option \<Rightarrow> string \<Rightarrow> reconcile_outcome" where
  "unknown_outcome order_id reason = \<lparr>ro_status = Rec_UNKNOWN, ro_order_id = order_id, ro_reason = reason\<rparr>"

text \<open>A match by client id or else by fields, within a time window.\<close>

definition match_submission ::
  "string \<Rightarrow> order_side \<Rightarrow> dec \<Rightarrow> dec \<Rightarrow> int \<Rightarrow> order_snapshot list \<Rightarrow> order_snapshot option" where
  "match_submission symb side price quantity now_ms snapshots =
     fallback_match_by_fields snapshots symb (Some side) price quantity (1 / 10 ^ 8) (1 / 10 ^ 8)
       (Some (now_ms - 5 * 60 * 1000, now_ms))"

definition reconcile_all_orders ::
  "'x spot_env \<Rightarrow> string \<Rightarrow> order_side \<Rightarrow> dec \<Rightarrow> dec \<Rightarrow> string \<Rightarrow> int \<Rightarrow> 'x spot_state \<Rightarrow> 'x spot_state \<times> reconcile_outcome" where
  "reconcile_all_orders env symb side price quantity cid now_ms s =
     (case ask_exchange (\<lambda>x. sx_all_orders (pv_exchange env) x symb (now_ms - 5 * 60 * 1000) now_ms) s of
        (s', Inl e) \<Rightarrow> (s', unknown_outcome None ''reconcile error'')
      | (s', Inr xs) \<Rightarrow>
          (s', case match_order_by_client_id xs cid of
                 Some x \<Rightarrow> confirmed_by ''found in allOrders by client_order_id'' x
               | None \<Rightarrow>
                   (case match_submission symb side price quantity now_ms xs of
                      Some x \<Rightarrow> confirmed_by ''found in allOrders by fallback fields'' x
                    | None \<Rightarrow> \<lparr>ro_status = Rec_NOT_FOUND, ro_order_id = None, ro_reason = ''not found after checks''\<rparr>)))"

definition reconcile_submit ::
  "'x spot_env \<Rightarrow> string \<Rightarrow> order_side \<Rightarrow> dec \<Rightarrow> dec \<Rightarrow> string \<Rightarrow> 'x spot_state \<Rightarrow> 'x spot_state \<times> reconcile_outcome" where
  "reconcile_submit env symb side price quantity cid s =
     (case ask_exchange (\<lambda>x. sx_open_orders (pv_exchange env) x symb) s of
        (s', Inl e) \<Rightarrow> (s', unknown_outcome None ''reconcile error'')
      | (s', Inr oo) \<Rightarrow>
          let snapshots = open_items_to_snapshots oo in
          (case match_order_by_client_id snapshots cid of
             Some x \<Rightarrow> (s', confirmed_by ''found in openOrders by client_order_id'' x)
           | None \<Rightarrow>
               at_now env (\<lambda>now s1.
                 case match_submission symb side price quantity (millis now) snapshots of
                   Some x \<Rightarrow> (s1, confirmed_by ''found in openOrders by fallback fields'' x)
                 | None \<Rightarrow> reconcile_all_orders env symb side price quantity cid (millis now) s1) s'))"

definition canceled_outcome :: "spot_order \<Rightarrow> order_snapshot list \<Rightarrow> reconcile_outcome" where
  "canceled_outcome ord recent =
     (case match_existing_order (so_order_id ord) (so_client_order_id ord) recent of
        None \<Rightarrow> unknown_outcome (Some (so_order_id ord)) ''order absent in openOrders but not found in allOrders''
      | Some x \<Rightarrow>
          if os_status x = Ex_FILLED then
            \<lparr>ro_status = Rec_CONFIRMED, ro_order_id = Some (so_order_id ord), ro_reason = ''order filled''\<rparr>
          else if os_status x = Ex_CANCELED then
            \<lparr>ro_status = Rec_CONFIRMED, ro_order_id = Some (so_order_id ord), ro_reason = ''order canceled''\<rparr>
          else unknown_outcome (Some (so_order_id ord)) ''order status unresolved'')"

definition reconcile_cancel :: "'x spot_env \<Rightarrow> spot_order \<Rightarrow> 'x spot_state \<Rightarrow> 'x spot_state \<times> reconcile_outcome" where
  "reconcile_cancel env ord s =
     (let symb = normalize_symbol (so_symbol ord); failed = unknown_outcome (Some (so_order_id ord)) ''reconcile error'' in
      case ask_exchange (\<lambda>x. sx_open_orders (pv_exchange env) x symb) s of
        (s', Inl e) \<Rightarrow> (s', failed)
      | (s', Inr oo) \<Rightarrow>
          if list_ex (\<lambda>x. str_nat (oi_id x) = so_order_id ord) (oo_bids oo @ oo_asks oo)
          then (s', unknown_outcome (Some (so_order_id ord)) ''order still present in openOrders'')
          else
            at_now env (\<lambda>t0. at_now env (\<lambda>t1 s1.
              case ask_exchange (\<lambda>x. sx_all_orders (pv_exchange env) x symb (millis t0 - 3600 * 1000) (millis t1)) s1 of
                (s2, Inl e) \<Rightarrow> (s2, failed)
              | (s2, Inr recent) \<Rightarrow> (s2, canceled_outcome ord recent))) s')"

subsection \<open>Definitions: writes of the idempotency tables\<close>

definition finalize_key ::
  "string \<Rightarrow> string \<Rightarrow> int option \<Rightarrow> string option \<Rightarrow> string option \<Rightarrow> string \<Rightarrow> 'x spot_state \<Rightarrow> 'x spot_state" where
  "finalize_key action_type key action_id cid order_id status s =
     s\<lparr>ss_idem := finalize_idempotency_key (ss_idem s) action_type key action_id cid order_id status\<rparr>"

definition reserve_key ::
  "'x spot_env \<Rightarrow> string \<Rightarrow> string \<Rightarrow> string \<Rightarrow> int \<Rightarrow> bool \<Rightarrow> ('x, reservation) spot" where
  "reserve_key env action_type key payload_hash ttl_seconds promote =
     at_now env (\<lambda>now s. case reserve_idempotency_key (ss_idem s) now action_type key payload_hash ttl_seconds promote of
       (tab, r) \<Rightarrow> (s\<lparr>ss_idem := tab\<rparr>, r))"

definition new_action ::
  "'x spot_env \<Rightarrow> string \<Rightarrow> string \<Rightarrow> string \<Rightarrow> string \<Rightarrow> 'x spot_state \<Rightarrow> 'x spot_state \<times> int option" where
  "new_action env cycle_id action_type payload_hash dedupe_key =
     at_now env (\<lambda>now s. case record_action (ss_actions s) now cycle_id action_type payload_hash 300 (Some dedupe_key) of
       (rows, i) \<Rightarrow> (s\<lparr>ss_actions := rows\<rparr>, i))"

definition attach_metadata ::
  "int \<Rightarrow> string option \<Rightarrow> string option \<Rightarrow> action_metadata \<Rightarrow> 'x spot_state \<Rightarrow> 'x spot_state" where
  "attach_metadata i cid order_id m s = s\<lparr>ss_actions := attach_action_metadata (ss_actions s) i cid order_id m\<rparr>"

definition clear_dedupe :: "int \<Rightarrow> 'x spot_state \<Rightarrow> 'x spot_state" where
  "clear_dedupe i s = s\<lparr>ss_actions := clear_action_dedupe_key (ss_actions s) i\<rparr>"

definition prune_keys :: "'x spot_env \<Rightarrow> 'x spot_state \<Rightarrow> 'x spot_state" where
  "prune_keys env = at_now env (\<lambda>now s. s\<lparr>ss_idem := fst (prune_expired_idempotency_keys (ss_idem s) now None)\<rparr>)"

text \<open>The key was granted, but the action is already recorded.\<close>

definition handle_reservation_without_new_action ::
  "string \<Rightarrow> string \<Rightarrow> string \<Rightarrow> string \<Rightarrow> 'x spot_state \<Rightarrow> 'x spot_state" where
  "handle_reservation_without_new_action action_type idem_type key dedupe_key s =
     (case get_action_by_dedupe_key (ss_actions s) dedupe_key of
        Some a \<Rightarrow> finalize_key idem_type key (Some (ac_id a)) (ac_client_order_id a) (ac_order_id a)
          (if starts_with action_type ''would_'' then ''SIMULATED'' else ''COMMITTED'') s
      | None \<Rightarrow> finalize_key idem_type key None None None ''FAILED'' s)"

subsection \<open>Definitions: recovery of a pending reservation\<close>

definition recovery_lookup :: "'x spot_env \<Rightarrow> string \<Rightarrow> string \<Rightarrow> ('x, order_snapshot option) spot" where
  "recovery_lookup env symb cid s =
     sbind (ask_exchange (\<lambda>x. sx_open_orders (pv_exchange env) x symb) s) (\<lambda>oo s1.
       case match_order_by_client_id (open_items_to_snapshots oo) cid of
         Some x \<Rightarrow> (s1, Inr (Some x))
       | None \<Rightarrow>
           at_now env (\<lambda>now s2.
             sbind (ask_exchange (\<lambda>x. sx_all_orders (pv_exchange env) x symb (millis now - 5 * 60 * 1000) (millis now)) s2)
               (\<lambda>xs s3. (s3, Inr (match_order_by_client_id xs cid)))) s1)"

definition set_recovery :: "string \<Rightarrow> int \<Rightarrow> int option \<Rightarrow> string option \<Rightarrow> 'x spot_state \<Rightarrow> 'x spot_state" where
  "set_recovery key attempts next_at status s =
     s\<lparr>ss_idem := update_idempotency_recovery (ss_idem s) ''place_order'' key attempts next_at status\<rparr>"

definition recovery_failed :: "spot_config \<Rightarrow> int \<Rightarrow> reservation \<Rightarrow> 'x spot_state \<Rightarrow> 'x spot_state" where
  "recovery_failed c now_epoch rv s =
     (let attempts = ik_recovery_attempts (rv_row rv) + 1;
          max_backoff = sc_recovery_backoff_seconds c * 2 ^ nat (sc_recovery_max_attempts c - 1);
          backoff_seconds = min (sc_recovery_backoff_seconds c * 2 ^ nat (attempts - 1)) max_backoff;
          final = (sc_recovery_max_attempts c \<le> attempts)
      in set_recovery (rv_key rv) attempts (if final then None else Some (now_epoch + backoff_seconds))
           (Some (if final then ''FAILED'' else ''PENDING'')) s)"

definition recover_stale_pending :: "'x spot_env \<Rightarrow> place_intent \<Rightarrow> reservation \<Rightarrow> string \<Rightarrow> 'x spot_state \<Rightarrow> 'x spot_state" where
  "recover_stale_pending env i rv cid =
     at_now env (\<lambda>now s.
       let now_epoch = epoch_seconds now; row = rv_row rv;
           settled = (\<lambda>order_id status s. set_recovery (rv_key rv) 0 None None
             (finalize_key ''place_order'' (rv_key rv) (ik_action_id row) (ik_client_order_id row) order_id status s))
       in if (case ik_next_recovery_at row of None \<Rightarrow> False | Some t \<Rightarrow> now_epoch < t) then s
          else case recovery_lookup env (normalize_symbol (pi_symbol i)) cid s of
            (s', Inl e) \<Rightarrow> recovery_failed (pv_config env) now_epoch rv s'
          | (s', Inr (Some x)) \<Rightarrow> settled (Some (os_order_id x)) ''COMMITTED'' s'
          | (s', Inr None) \<Rightarrow> settled None ''FAILED'' s')"

subsection \<open>Definitions: the submission\<close>

record placing =
  pl_intent :: place_intent
  pl_intent_id :: "string option"
  pl_symbol :: string
  pl_price :: dec
  pl_quantity :: dec
  pl_notional :: dec
  pl_key :: string
  pl_cid :: string
  pl_action_id :: int

definition map_exchange_ack_to_submit_result :: "string \<Rightarrow> string result" where
  "map_exchange_ack_to_submit_result ack = (if ack = [] then Inl (ValidationError ''submit ack missing order_id'') else Inr ack)"

definition placing_request :: "placing \<Rightarrow> submit_request" where
  "placing_request p =
     \<lparr>sq_symbol = pl_symbol p, sq_side = side_text (pi_side (pl_intent p)), sq_price = pl_price p, sq_qty = pl_quantity p,
      sq_client_order_id = pl_cid p\<rparr>"

definition wire_submit :: "'x spot_env \<Rightarrow> submit_request \<Rightarrow> ('x, string outcome) spot" where
  "wire_submit env q s =
     (case wrapper_submit (sc_wrapper (pv_config env)) (pv_retry_after env) (pv_rand env) (sx_client (pv_exchange env)) q
        (ss_exchange s, ss_calls s) of
        ((x, calls), r) \<Rightarrow> (s\<lparr>ss_exchange := x, ss_calls := calls\<rparr>, r))"

definition wire_cancel :: "'x spot_env \<Rightarrow> string \<Rightarrow> ('x, bool outcome) spot" where
  "wire_cancel env i s =
     (case wrapper_cancel (sc_wrapper (pv_config env)) (pv_retry_after env) (pv_rand env) (sx_client (pv_exchange env)) i
        (ss_exchange s, ss_calls s) of
        ((x, calls), r) \<Rightarrow> (s\<lparr>ss_exchange := x, ss_calls := calls\<rparr>, r))"

definition submit_blocked :: py_error where
  "submit_blocked = SubmitBlockedDueToUnknownError ''submit blocked while unknown orders exist''"

fun is_submit_blocked :: "py_error \<Rightarrow> bool" where
  "is_submit_blocked (SubmitBlockedDueToUnknownError _) = True"
| "is_submit_blocked _ = False"

definition spot_submit_limit_order :: "'x spot_env \<Rightarrow> placing \<Rightarrow> ('x, string outcome) spot" where
  "spot_submit_limit_order env p s0 =
     (let s = sync_unknown_registry env False s0 in
      if has_unknown (ss_registry s) then (s, Inl submit_blocked)
      else sbind (wire_submit env (placing_request p) s) (\<lambda>r s'.
        case r of
          Uncertain e \<Rightarrow> (s', Inr (Uncertain e))
        | Done ack \<Rightarrow> (s', map_sum id Done (map_exchange_ack_to_submit_result ack))))"

definition placing_order :: "placing \<Rightarrow> string \<Rightarrow> string option \<Rightarrow> spot_status \<Rightarrow> instant \<Rightarrow> instant \<Rightarrow> spot_order" where
  "placing_order p order_id cid status created updated =
     \<lparr>so_order_id = order_id, so_client_order_id = cid, so_symbol = pl_symbol p, so_side = pi_side (pl_intent p),
      so_price = pl_price p, so_quantity = pl_quantity p, so_status = status, so_created_at = created, so_updated_at = updated\<rparr>"

definition placing_metadata :: "placing \<Rightarrow> bool \<Rightarrow> string option \<Rightarrow> string option \<Rightarrow> action_metadata" where
  "placing_metadata p reconciled status reason =
     \<lparr>am_reconciled = reconciled, am_reconcile_status = status, am_reconcile_reason = reason,
      am_idempotency_key = Some (pl_key p), am_intent_id = pl_intent_id p\<rparr>"

definition finalize_placing :: "placing \<Rightarrow> string option \<Rightarrow> string \<Rightarrow> 'x spot_state \<Rightarrow> 'x spot_state" where
  "finalize_placing p order_id status = finalize_key ''place_order'' (pl_key p) (Some (pl_action_id p)) (Some (pl_cid p)) order_id status"

definition commit_state :: "'x spot_env \<Rightarrow> string \<Rightarrow> string \<Rightarrow> 'x spot_state \<Rightarrow> 'x spot_state" where
  "commit_state env key order_id = at_now env (\<lambda>now s. s\<lparr>ss_idem_states := commit_idempotency (ss_idem_states s) now key order_id\<rparr>)"

definition fail_state :: "'x spot_env \<Rightarrow> string \<Rightarrow> string \<Rightarrow> 'x spot_state \<Rightarrow> 'x spot_state" where
  "fail_state env key err = at_now env (\<lambda>now s. s\<lparr>ss_idem_states := fail_idempotency (ss_idem_states s) now key err\<rparr>)"

definition or_unresolved :: "string \<Rightarrow> string" where
  "or_unresolved reason = (if reason = [] then ''submit_reconcile_unknown'' else reason)"

text \<open>The order may exist at the exchange: it is recorded as unknown, which stops all submissions.\<close>

definition record_unknown :: "'x spot_env \<Rightarrow> placing \<Rightarrow> reconcile_outcome \<Rightarrow> ('x, unit) spot" where
  "record_unknown env p out s =
     (let reason = or_unresolved (ro_reason out); unknown_id = ''unknown:'' @ pl_cid p;
          s1 = attach_metadata (pl_action_id p) (Some (pl_cid p)) None
            (placing_metadata p False (Some (reconcile_text (ro_status out))) (Some (ro_reason out))) s;
          s2 = fail_state env (pl_key p) reason (finalize_placing p None ''UNKNOWN'' s1)
      in at_now env (\<lambda>now s3.
           sbind (store_order env (placing_order p unknown_id (Some (pl_cid p)) St_UNKNOWN now now) True None (Some (pl_key p))
              (pl_intent_id p) s3)
             (\<lambda>_ s4. (note_unknown env unknown_id reason (millis now) s4, Inr ()))) s2)"

definition commit_placing ::
  "'x spot_env \<Rightarrow> placing \<Rightarrow> string \<Rightarrow> bool \<Rightarrow> string option \<Rightarrow> string option \<Rightarrow> 'x spot_state \<Rightarrow> 'x spot_state" where
  "commit_placing env p order_id reconciled status reason s =
     (let s1 = attach_metadata (pl_action_id p) (Some (pl_cid p)) (Some order_id) (placing_metadata p reconciled status reason) s;
          s2 = finalize_placing p (Some order_id) ''COMMITTED'' s1
      in if sc_dry_run (pv_config env) then s2 else commit_state env (pl_key p) order_id s2)"

text \<open>An exception, but the order was found at the exchange.\<close>

definition record_reconciled :: "'x spot_env \<Rightarrow> placing \<Rightarrow> string \<Rightarrow> reconcile_outcome \<Rightarrow> ('x, unit) spot" where
  "record_reconciled env p order_id out =
     at_now env (\<lambda>created. at_now env (\<lambda>updated s.
       sbind (store_order env (placing_order p order_id (Some (pl_cid p)) St_NEW created updated) True None (Some (pl_key p))
          (pl_intent_id p) s)
         (\<lambda>_ s'. (commit_placing env p order_id True (Some (reconcile_text (ro_status out))) (Some (ro_reason out))
            (set_status env order_id St_OPEN None (Some True) None s'), Inr ()))))"

text \<open>The order was acknowledged, or found after an uncertain answer.\<close>

definition record_placed :: "'x spot_env \<Rightarrow> placing \<Rightarrow> string \<Rightarrow> ('x, unit) spot" where
  "record_placed env p order_id =
     at_now env (\<lambda>now s.
       sbind (store_order env (placing_order p order_id (Some (pl_cid p)) St_OPEN now now) False None (Some (pl_key p))
          (pl_intent_id p) s)
         (\<lambda>_ s'. (commit_placing env p order_id False None None s', Inr ())))"

definition rejected_order_id :: "placing \<Rightarrow> instant \<Rightarrow> string" where
  "rejected_order_id p now =
     ''rejected:'' @ pl_cid p @ '':'' @ take 12 (pl_key p) @ '':'' @ str_nat (nat (millis now))"

definition record_rejected :: "'x spot_env \<Rightarrow> placing \<Rightarrow> py_error \<Rightarrow> ('x, unit) spot" where
  "record_rejected env p e =
     at_now env (\<lambda>t0. at_now env (\<lambda>created. at_now env (\<lambda>updated s.
       sbind (store_order env (placing_order p (rejected_order_id p t0) None St_REJECTED created updated) True
          (Some (raw_error_text env e)) (Some (pl_key p)) (pl_intent_id p) s)
         (\<lambda>_ s'. (clear_dedupe (pl_action_id p) (finalize_placing p None ''FAILED'' s'), Inr ())))))"

definition found_order :: "reconcile_outcome \<Rightarrow> string option" where
  "found_order out = (if ro_status out = Rec_CONFIRMED then ro_order_id out else None)"

definition reconcile_placing :: "'x spot_env \<Rightarrow> placing \<Rightarrow> 'x spot_state \<Rightarrow> 'x spot_state \<times> reconcile_outcome" where
  "reconcile_placing env p = reconcile_submit env (pl_symbol p) (pi_side (pl_intent p)) (pl_price p) (pl_quantity p) (pl_cid p)"

definition count_placed :: "execute_summary \<Rightarrow> execute_summary" where
  "count_placed m = m\<lparr>xs_orders_submitted := Suc (xs_orders_submitted m)\<rparr>"

definition count_failed :: "execute_summary \<Rightarrow> execute_summary" where
  "count_failed m = m\<lparr>xs_orders_failed_exchange := Suc (xs_orders_failed_exchange m)\<rparr>"

definition submit_error ::
  "'x spot_env \<Rightarrow> placing \<Rightarrow> py_error \<Rightarrow> execute_summary \<Rightarrow> ('x, execute_summary) spot" where
  "submit_error env p e m0 s =
     (let m1 = count_failed m0;
          m = (if is_known_min_notional_reject e then m1\<lparr>xs_rejected_min_notional := Suc (xs_rejected_min_notional m1)\<rparr> else m1)
      in if \<not> is_uncertain_error e then sbind (record_rejected env p e s) (\<lambda>_ s'. (s', Inr m))
         else case reconcile_placing env p s of
           (s1, out) \<Rightarrow>
             (case found_order out of
                None \<Rightarrow> sbind (record_unknown env p out s1) (\<lambda>_ s'. (s', Inr m))
              | Some order_id \<Rightarrow> sbind (record_reconciled env p order_id out s1) (\<lambda>_ s'. (s', Inr (count_placed m)))))"

definition submit_uncertain :: "'x spot_env \<Rightarrow> placing \<Rightarrow> execute_summary \<Rightarrow> ('x, execute_summary) spot" where
  "submit_uncertain env p m0 s =
     (let m = count_failed m0 in
      case reconcile_placing env p s of
        (s1, out) \<Rightarrow>
          (case found_order out of
             None \<Rightarrow> sbind (record_unknown env p out s1) (\<lambda>_ s'. (s', Inr m))
           | Some order_id \<Rightarrow> sbind (record_placed env p order_id s1) (\<lambda>_ s'. (s', Inr (count_placed m)))))"

definition place_live :: "'x spot_env \<Rightarrow> placing \<Rightarrow> execute_summary \<Rightarrow> ('x, execute_summary) spot" where
  "place_live env p m0 s =
     (let m = m0\<lparr>xs_attempted_exchange_calls := Suc (xs_attempted_exchange_calls m0)\<rparr> in
      case spot_submit_limit_order env p s of
        (s', Inl e) \<Rightarrow> if is_submit_blocked e then (s', Inl e) else submit_error env p e m s'
      | (s', Inr (Uncertain e)) \<Rightarrow> submit_uncertain env p m s'
      | (s', Inr (Done order_id)) \<Rightarrow> sbind (record_placed env p order_id s') (\<lambda>_ s2. (s2, Inr (count_placed m))))"

definition place_simulated :: "placing \<Rightarrow> execute_summary \<Rightarrow> 'x spot_state \<Rightarrow> 'x spot_state \<times> execute_summary" where
  "place_simulated p m s =
     (finalize_placing p None ''SIMULATED''
        (attach_metadata (pl_action_id p) (Some (pl_cid p)) None (placing_metadata p False None None) s),
      m\<lparr>xs_would_submit_orders := Suc (xs_would_submit_orders m),
        xs_would_submit_notional := dadd (xs_would_submit_notional m) (pl_notional p),
        xs_orders_simulated := Suc (xs_orders_simulated m)\<rparr>)"

subsection \<open>Definitions: an intent\<close>

definition PLACE_ORDER_IDEMPOTENCY_TTL_SECONDS :: int where
  "PLACE_ORDER_IDEMPOTENCY_TTL_SECONDS = 7 * 24 * 60 * 60"

definition CANCEL_ORDER_IDEMPOTENCY_TTL_SECONDS :: int where
  "CANCEL_ORDER_IDEMPOTENCY_TTL_SECONDS = 24 * 60 * 60"

definition place_action_type :: "'x spot_env \<Rightarrow> string" where
  "place_action_type env = (if sc_dry_run (pv_config env) then ''would_place_order'' else ''place_order'')"

definition duplicate_intent :: "'x spot_env \<Rightarrow> place_intent \<Rightarrow> reservation \<Rightarrow> 'x spot_state \<Rightarrow> 'x spot_state" where
  "duplicate_intent env i rv =
     at_now env (\<lambda>now s.
       let row = rv_row rv; age = max 0 (epoch_seconds now - ik_created_at row) in
       case nonempty (ik_client_order_id row) of
         None \<Rightarrow> s
       | Some cid \<Rightarrow>
           if str_upper (ik_status row) = ''PENDING'' \<and> sc_pending_grace_seconds (pv_config env) < age
           then recover_stale_pending env i rv cid s else s)"

definition place_reserved ::
  "'x spot_env \<Rightarrow> place_intent \<Rightarrow> stage3_intent option \<Rightarrow> dec \<times> dec \<times> dec \<Rightarrow> string \<Rightarrow> execute_summary \<Rightarrow> ('x, execute_summary) spot"
where
  "place_reserved env i raw sized key m s =
     (let (price, quantity, notional) = sized; cid = make_client_order_id env i; action_type = place_action_type env;
          dedupe_key = action_type @ '':'' @ key;
          s1 = finalize_key ''place_order'' key None (Some cid) None ''PENDING'' s
      in case new_action env (pi_cycle_id i) action_type (place_hash env i) dedupe_key s1 of
           (s2, None) \<Rightarrow> (handle_reservation_without_new_action action_type ''place_order'' key dedupe_key s2, Inr m)
         | (s2, Some action_id) \<Rightarrow>
             let p = \<lparr>pl_intent = i, pl_intent_id = map_option it_intent_id raw, pl_symbol = normalize_symbol (pi_symbol i),
                   pl_price = price, pl_quantity = quantity, pl_notional = notional, pl_key = key, pl_cid = cid,
                   pl_action_id = action_id\<rparr>;
                 s3 = finalize_placing p None ''PENDING'' s2
             in if sc_dry_run (pv_config env) then (case place_simulated p m s3 of (s4, m') \<Rightarrow> (s4, Inr m'))
                else place_live env p m s3)"

definition reserve_and_place ::
  "'x spot_env \<Rightarrow> place_intent \<Rightarrow> stage3_intent option \<Rightarrow> dec \<times> dec \<times> dec \<Rightarrow> execute_summary \<Rightarrow> ('x, execute_summary) spot" where
  "reserve_and_place env i raw sized m s =
     (let key = place_idempotency_key env i raw in
      sbind (reserve_key env ''place_order'' key (place_hash env i) PLACE_ORDER_IDEMPOTENCY_TTL_SECONDS
          (\<not> sc_dry_run (pv_config env)) s)
        (\<lambda>rv s1. if \<not> rv_reserved rv then (duplicate_intent env i rv s1, Inr m)
                 else place_reserved env i raw sized key m s1))"

datatype sized_or_refused = Sized "dec \<times> dec \<times> dec" | Refused order_sizing_status

definition size_place_intent :: "'x spot_env \<Rightarrow> place_intent \<Rightarrow> sized_or_refused result" where
  "size_place_intent env i =
     (if pv_market_rules env = None \<and> sc_dry_run (pv_config env)
      then Inr (Sized (pi_price i, pi_quantity i, dmul (pi_price i) (pi_quantity i)))
      else rbind (symbol_rules_for_execution env (normalize_symbol (pi_symbol i))) (\<lambda>rules.
        rbind (size_order_from_notional (pi_notional i) (pi_price i) rules (sc_fallback_min_notional (pv_config env))
            (sc_allow_min_notional_upgrade (pv_config env))) (\<lambda>z.
          Inr (if osr_status z = OK then Sized (osr_price z, osr_quantity z, osr_notional z) else Refused (osr_status z)))))"

definition count_refused :: "bool \<Rightarrow> order_sizing_status \<Rightarrow> execute_summary \<Rightarrow> execute_summary" where
  "count_refused dry_run st m =
     (let m1 = m\<lparr>xs_rejected_intents := Suc (xs_rejected_intents m)\<rparr> in
      if st \<noteq> BELOW_MIN_NOTIONAL then m1
      else if dry_run then m1\<lparr>xs_would_reject_min_notional := Suc (xs_would_reject_min_notional m1)\<rparr>
      else m1\<lparr>xs_rejected_min_notional := Suc (xs_rejected_min_notional m1)\<rparr>)"

definition count_precheck :: "execute_summary \<Rightarrow> execute_summary" where
  "count_precheck m = m\<lparr>xs_rejected_precheck := Suc (xs_rejected_precheck m), xs_rejected_intents := Suc (xs_rejected_intents m)\<rparr>"

definition execute_intent ::
  "'x spot_env \<Rightarrow> (string, dec) dict option \<Rightarrow> place_intent \<times> stage3_intent option \<Rightarrow> execute_summary \<Rightarrow> ('x, execute_summary) spot" where
  "execute_intent env balances ir m s =
     (let (i, raw) = ir; c = pv_config env; live = \<not> sc_dry_run c in
      sbind (if live then ensure_live_side_effects_allowed env s else (s, Inr ())) (\<lambda>_ s.
        case size_place_intent env i of
          Inl e \<Rightarrow> (s, Inl e)
        | Inr (Refused st) \<Rightarrow> (s, Inr (count_refused (\<not> live) st m))
        | Inr (Sized (price, quantity, notional)) \<Rightarrow>
            (case (if live then check_balance_precondition c balances (normalize_symbol (pi_symbol i)) (pi_side i) price quantity
                   else Inr (True, None, None, None)) of
               Inl e \<Rightarrow> (s, Inl e)
             | Inr (sufficient, _) \<Rightarrow>
                 if sufficient then reserve_and_place env i raw (price, quantity, notional) m s else (s, Inr (count_precheck m)))))"

subsection \<open>Definitions: the run\<close>

datatype intent_input = Stage3_input stage3_intent | Order_input place_intent

definition normalize_input :: "'x spot_env \<Rightarrow> string option \<Rightarrow> intent_input \<Rightarrow> (place_intent \<times> stage3_intent option) result" where
  "normalize_input env cycle_id x =
     (case x of
        Order_input i \<Rightarrow> Inr (i, None)
      | Stage3_input r \<Rightarrow>
          (case cycle_id of
             None \<Rightarrow> Inl (ValueError ''cycle_id is required when executing Stage 3 Intent inputs'')
           | Some c \<Rightarrow> rbind (to_order_intent env c r) (\<lambda>i. Inr (i, Some r))))"

definition empty_summary :: execute_summary where
  "empty_summary =
     \<lparr>xs_orders_submitted = 0, xs_orders_failed_exchange = 0, xs_rejected_intents = 0, xs_rejected_precheck = 0,
      xs_attempted_exchange_calls = 0, xs_would_submit_orders = 0, xs_would_submit_notional = 0, xs_orders_simulated = 0,
      xs_rejected_min_notional = 0, xs_would_reject_min_notional = 0\<rparr>"

definition refresh_once :: "'x spot_env \<Rightarrow> string list \<Rightarrow> string option \<Rightarrow> ('x, unit) spot" where
  "refresh_once env symbols cycle_id s =
     (if was_lifecycle_refreshed cycle_id s then (s, Inr ())
      else sbind (refresh_order_lifecycle env symbols False s) (\<lambda>_ s'. (mark_lifecycle_refreshed cycle_id s', Inr ())))"

definition place_all ::
  "'x spot_env \<Rightarrow> string option \<Rightarrow> (place_intent \<times> stage3_intent option) list \<Rightarrow> ('x, nat) spot" where
  "place_all env cycle_id intents s =
     (case (if sc_dry_run (pv_config env) then (s, None) else get_cycle_balances env cycle_id s) of
        (s1, balances) \<Rightarrow>
          sbind (sfold (execute_intent env balances) intents empty_summary s1)
            (\<lambda>m s'. (s'\<lparr>ss_execute_summary := Some m\<rparr>, Inr (xs_orders_submitted m))))"

definition execute_intents :: "'x spot_env \<Rightarrow> intent_input list \<Rightarrow> string option \<Rightarrow> ('x, nat) spot" where
  "execute_intents env inputs cycle_id s0 =
     (case rmap (normalize_input env cycle_id) inputs of
        Inl e \<Rightarrow> (s0, Inl e)
      | Inr intents \<Rightarrow>
          let execution_cycle = (case intents of [] \<Rightarrow> None | (i, r) # _ \<Rightarrow> Some (pi_cycle_id i)) in
          sbind (refresh_once env (map (\<lambda>(i, r). pi_symbol i) intents) execution_cycle s0) (\<lambda>_ s1.
            let s2 = sync_unknown_registry env False ((prune_keys env s1)\<lparr>ss_execute_summary := Some empty_summary\<rparr>) in
            if ss_safe_mode s2 \<or> ss_kill_switch s2 then (s2, Inr 0)
            else sbind (submission_guarded env s2) (\<lambda>guarded s3.
              if guarded then (s3, Inr 0)
              else if has_unknown (ss_registry s3) then (s3, Inl submit_blocked)
              else place_all env execution_cycle intents s3)))"

end
