(* ===== verification/Spot_Cancel.thy ===== *)
theory Spot_Cancel
  imports Spot_Execution
begin

text \<open>
  The rest of the execution service of stage 3: \<open>cancel_stale_orders\<close> and the start of the service
  (\<open>src/src/btcbot/services/execution_service.py\<close>).
\<close>

subsection \<open>Definitions: the start\<close>

text \<open>The state of a new service on a store: the registry is read from the orders table.\<close>

definition start_service ::
  "'x spot_env \<Rightarrow> bool \<Rightarrow> bool \<Rightarrow> idem_table \<Rightarrow> action_row list \<Rightarrow> idem_states \<Rightarrow> spot_table \<Rightarrow> op_table \<Rightarrow> 'x \<Rightarrow> 'x spot_state" where
  "start_service env safe_mode kill_switch keys actions states rows op x =
     sync_unknown_registry env True
       \<lparr>ss_idem = keys, ss_actions = actions, ss_idem_states = states, ss_orders = rows, ss_op = op,
        ss_registry = UnknownOrderRegistry, ss_safe_mode = safe_mode, ss_kill_switch = kill_switch, ss_last_refresh = [],
        ss_backoff_until = 0, ss_refreshed_cycles = [], ss_refreshed_order = [], ss_balance_cache = [], ss_balance_order = [],
        ss_refresh_summary = None, ss_execute_summary = None, ss_exchange = x, ss_calls = [], ss_ticks = 0\<rparr>"

subsection \<open>Definitions: cancellation of an order\<close>

record canceling =
  cn_order :: spot_order
  cn_key :: string
  cn_action_id :: int

definition was_submitted_in_cycle :: "action_row list \<Rightarrow> string \<Rightarrow> spot_order \<Rightarrow> bool" where
  "was_submitted_in_cycle rows cycle_id ord =
     list_ex (\<lambda>a. ac_cycle_id a = cycle_id \<and> ac_action_type a = ''place_order''
       \<and> (ac_order_id a = Some (so_order_id ord)
          \<or> (so_client_order_id ord \<noteq> None \<and> ac_client_order_id a = so_client_order_id ord))) rows"

definition finalize_canceling :: "canceling \<Rightarrow> string \<Rightarrow> 'x spot_state \<Rightarrow> 'x spot_state" where
  "finalize_canceling k status =
     finalize_key ''cancel_order'' (cn_key k) (Some (cn_action_id k)) (so_client_order_id (cn_order k))
       (Some (so_order_id (cn_order k))) status"

definition cancel_metadata :: "bool \<Rightarrow> string option \<Rightarrow> string option \<Rightarrow> action_metadata" where
  "cancel_metadata reconciled status reason =
     \<lparr>am_reconciled = reconciled, am_reconcile_status = status, am_reconcile_reason = reason, am_idempotency_key = None,
      am_intent_id = None\<rparr>"

definition attach_canceling :: "canceling \<Rightarrow> action_metadata \<Rightarrow> 'x spot_state \<Rightarrow> 'x spot_state" where
  "attach_canceling k = attach_metadata (cn_action_id k) (so_client_order_id (cn_order k)) (Some (so_order_id (cn_order k)))"

definition release_canceling :: "canceling \<Rightarrow> 'x spot_state \<Rightarrow> 'x spot_state" where
  "release_canceling k s = clear_dedupe (cn_action_id k) (finalize_canceling k ''FAILED'' s)"

definition confirmed_status :: "reconcile_outcome \<Rightarrow> spot_status" where
  "confirmed_status out = (if str_contains ''filled'' (str_lower (ro_reason out)) then St_FILLED else St_CANCELED)"

definition cancel_uncertain :: "'x spot_env \<Rightarrow> canceling \<Rightarrow> nat \<Rightarrow> 'x spot_state \<Rightarrow> 'x spot_state \<times> nat" where
  "cancel_uncertain env k canceled s =
     (case reconcile_cancel env (cn_order k) s of
        (s1, out) \<Rightarrow>
          let i = so_order_id (cn_order k); ok = (ro_status out = Rec_CONFIRMED);
              s2 = attach_canceling k (cancel_metadata ok (Some (reconcile_text (ro_status out))) (Some (ro_reason out))) s1
          in (case ro_status out of
                Rec_UNKNOWN \<Rightarrow>
                  at_now env (\<lambda>now s3. finalize_canceling k ''UNKNOWN''
                    (note_unknown env i (if ro_reason out = [] then ''cancel_reconcile_unknown'' else ro_reason out) (millis now)
                      (set_status env i St_UNKNOWN None (Some True) None s3))) s2
              | Rec_CONFIRMED \<Rightarrow> finalize_canceling k ''COMMITTED'' (set_status env i (confirmed_status out) None (Some True) None s2)
              | Rec_NOT_FOUND \<Rightarrow> release_canceling k s2,
              if ok then Suc canceled else canceled))"

definition cancel_at_exchange :: "'x spot_env \<Rightarrow> canceling \<Rightarrow> nat \<Rightarrow> 'x spot_state \<Rightarrow> 'x spot_state \<times> nat" where
  "cancel_at_exchange env k canceled s =
     (let i = so_order_id (cn_order k) in
      case wire_cancel env i s of
        (s1, Inl e) \<Rightarrow> (release_canceling k s1, canceled)
      | (s1, Inr (Uncertain e)) \<Rightarrow> cancel_uncertain env k canceled s1
      | (s1, Inr (Done ok)) \<Rightarrow>
          if \<not> ok then (release_canceling k s1, canceled)
          else (finalize_canceling k ''COMMITTED''
                  (attach_canceling k (cancel_metadata False None None) (set_status env i St_CANCELED None None None s1)),
                Suc canceled))"

definition cancel_action_type :: "'x spot_env \<Rightarrow> string" where
  "cancel_action_type env = (if sc_dry_run (pv_config env) then ''would_cancel_order'' else ''cancel_order'')"

definition cancel_reserved :: "'x spot_env \<Rightarrow> string \<Rightarrow> spot_order \<Rightarrow> string \<Rightarrow> nat \<Rightarrow> 'x spot_state \<Rightarrow> 'x spot_state \<times> nat" where
  "cancel_reserved env cycle_id ord key canceled s =
     (let action_type = cancel_action_type env; dedupe_key = action_type @ '':'' @ key in
      case new_action env cycle_id action_type (cancel_hash env (so_order_id ord)) dedupe_key s of
        (s1, None) \<Rightarrow> (handle_reservation_without_new_action action_type ''cancel_order'' key dedupe_key s1, canceled)
      | (s1, Some i) \<Rightarrow>
          let k = \<lparr>cn_order = ord, cn_key = key, cn_action_id = i\<rparr>; s2 = finalize_canceling k ''PENDING'' s1 in
          if sc_dry_run (pv_config env) then (finalize_canceling k ''SIMULATED'' s2, Suc canceled)
          else cancel_at_exchange env k canceled s2)"

definition cancel_order_once :: "'x spot_env \<Rightarrow> string \<Rightarrow> spot_order \<Rightarrow> nat \<Rightarrow> ('x, nat) spot" where
  "cancel_order_once env cycle_id ord canceled s =
     (let key = ''cancel:'' @ so_order_id ord in
      sbind (reserve_key env ''cancel_order'' key (cancel_hash env (so_order_id ord)) CANCEL_ORDER_IDEMPOTENCY_TTL_SECONDS
          (\<not> sc_dry_run (pv_config env)) s)
        (\<lambda>rv s1. if \<not> rv_reserved rv then (s1, Inr canceled)
                 else (case cancel_reserved env cycle_id ord key canceled s1 of (s2, n) \<Rightarrow> (s2, Inr n))))"

definition stale_listed :: "spot_config \<Rightarrow> instant \<Rightarrow> listed_order \<Rightarrow> bool" where
  "stale_listed c now x =
     (lo_aware x \<and> so_status (lo_order x) \<noteq> St_UNKNOWN
      \<and> sc_ttl_seconds c * 1000000 < now - so_created_at (lo_order x))"

definition cancel_if_stale :: "'x spot_env \<Rightarrow> string \<Rightarrow> instant \<Rightarrow> listed_order \<Rightarrow> nat \<Rightarrow> ('x, nat) spot" where
  "cancel_if_stale env cycle_id now x canceled s =
     (if \<not> stale_listed (pv_config env) now x \<or> was_submitted_in_cycle (ss_actions s) cycle_id (lo_order x) then (s, Inr canceled)
      else sbind (if sc_dry_run (pv_config env) then (s, Inr ()) else ensure_live_side_effects_allowed env s)
        (\<lambda>_ s1. cancel_order_once env cycle_id (lo_order x) canceled s1))"

definition cancel_stale_orders :: "'x spot_env \<Rightarrow> string \<Rightarrow> ('x, nat) spot" where
  "cancel_stale_orders env cycle_id s0 =
     (case ask_exchange (sx_list_open_orders (pv_exchange env)) s0 of
        (s, Inl e) \<Rightarrow> (s, Inr 0)
      | (s, Inr listed) \<Rightarrow>
          if ss_safe_mode s \<or> ss_kill_switch s then (s, Inr 0)
          else sbind (submission_guarded env s) (\<lambda>guarded s1.
            if guarded then (s1, Inr 0)
            else at_now env (\<lambda>now s2. sfold (cancel_if_stale env cycle_id now) listed 0 s2) (prune_keys env s1)))"

end
