(* ===== verification/Spot_Props.thy ===== *)
theory Spot_Props
  imports Spot_Cancel Stage4_Execution_Props
begin

text \<open>
  What the execution service of stage 3 guarantees: which submissions reach the exchange, and that a
  key whose order was placed, or may have been placed, is not used for another submission before it
  expires.

  A run is a chain of small steps.  Most steps are \<open>quiet\<close>: they call nothing, touch no idempotency
  key, no action and no cached balances, and never switch the kill switch or the safe mode off.  \<open>quiet\<close> and the
  relations that the other steps keep are interpretations of \<open>step_order\<close>.
\<close>

subsection \<open>Quiet steps\<close>

definition quiet :: "'x spot_state \<Rightarrow> 'x spot_state \<Rightarrow> bool" where
  "quiet s t \<longleftrightarrow> ss_idem t = ss_idem s \<and> ss_calls t = ss_calls s \<and> ss_actions t = ss_actions s
     \<and> ss_balance_cache t = ss_balance_cache s
     \<and> (ss_kill_switch s \<longrightarrow> ss_kill_switch t) \<and> (ss_safe_mode s \<longrightarrow> ss_safe_mode t)"

interpretation quiet: step_order quiet
  by unfold_locales (auto simp: quiet_def)

lemma sbind_quiet:
  "quiet s (fst m) \<Longrightarrow> (\<And>x t. snd m = Inr x \<Longrightarrow> fst m = t \<Longrightarrow> quiet t (fst (f x t))) \<Longrightarrow> quiet s (fst (sbind m f))"
  by (cases m) (auto simp: sbind_def intro: quiet.trans split: sum.split)

lemma tick_quiet: "quiet (s\<lparr>ss_ticks := n\<rparr>) t \<longleftrightarrow> quiet s t"
  by (simp add: quiet_def)

lemma at_now_quiet: "(\<And>tm t. quiet t (fst (f tm t))) \<Longrightarrow> quiet s (fst (at_now env f s))"
  unfolding at_now_def using tick_quiet by blast

lemma at_now_quiet_state: "(\<And>tm t. quiet t (f tm t)) \<Longrightarrow> quiet s (at_now env f s)"
  unfolding at_now_def using tick_quiet by blast

lemma at_mono_quiet: "(\<And>tm t. quiet t (fst (f tm t))) \<Longrightarrow> quiet s (fst (at_mono env f s))"
  unfolding at_mono_def using tick_quiet by blast

named_theorems quiet_steps \<open>steps that are quiet\<close>

lemma quiet_self [simp, quiet_steps]: "quiet s s"
  by (rule quiet.refl)

lemma sync_quiet [quiet_steps]: "quiet s (sync_unknown_registry env b s)"
  by (simp add: sync_unknown_registry_def at_now_def at_mono_def quiet_def)

lemma note_unknown_quiet [quiet_steps]: "quiet s (note_unknown env i reason ts s)"
  by (simp add: note_unknown_def at_mono_def quiet_def)

lemma set_status_quiet [quiet_steps]: "quiet s (set_status env i st raw rec seen s)"
  by (simp add: set_status_def at_now_def quiet_def)

lemma store_order_quiet [quiet_steps]: "quiet s (fst (store_order env ord rec raw idem i s))"
  by (simp add: store_order_def at_now_def quiet_def split: sum.split)

lemma ask_exchange_quiet [quiet_steps]: "quiet s (fst (ask_exchange f s))"
  by (simp add: ask_exchange_def quiet_def split: prod.split)

lemma ask_exchange_quietD: "ask_exchange f s = (t, r) \<Longrightarrow> quiet s t"
  using ask_exchange_quiet [of s f] by simp

lemma unresolved_quiet [quiet_steps]: "quiet s (mark_unknown_unresolved env local now_ms s)"
  by (simp add: mark_unknown_unresolved_def Let_def quiet_def)

lemma save_snapshot_quiet [quiet_steps]: "quiet s (fst (save_reconciled_snapshot env x raw s))"
  unfolding save_reconciled_snapshot_def
  by (auto split: option.split intro!: at_now_quiet quiet_steps quiet.pure)

lemma save_open_quiet [quiet_steps]: "quiet s (fst (save_open_snapshot env x acc s))"
  unfolding save_open_snapshot_def Let_def by (auto intro!: quiet.sbind quiet_steps)

lemma fetch_recent_quiet [quiet_steps]: "quiet s (fst (fetch_recent env skip symb now_ms due acc s))"
  unfolding fetch_recent_def Let_def
  by (auto split: prod.split sum.split intro: quiet.pure ask_exchange_quietD)

lemma settle_missing_quiet [quiet_steps]: "quiet s (fst (settle_missing env now_ms local acc s))"
  unfolding settle_missing_def Let_def by (rule at_now_quiet) (auto intro: quiet_steps quiet.pure)

lemma settle_matched_quiet [quiet_steps]: "quiet s (fst (settle_matched env local x acc s))"
  unfolding settle_matched_def Let_def
  by (auto intro!: quiet.sbind quiet_steps intro: quiet.trans [OF set_status_quiet set_status_quiet])

lemma refresh_absent_quiet [quiet_steps]: "quiet s (fst (refresh_absent env skip symb now_ms due local acc s))"
  unfolding refresh_absent_def
  by (auto split: option.split intro!: quiet.sbind quiet_steps quiet.pure)

lemma refresh_local_quiet [quiet_steps]: "quiet s (fst (refresh_local env skip symb now_ms due xs local acc s))"
  unfolding refresh_local_def by (auto split: option.split intro: quiet_steps quiet.pure)

lemma refresh_symbol_quiet [quiet_steps]: "quiet s (fst (refresh_symbol env skip locals now_ms now_mono symb acc s))"
proof -
  let ?s = "s\<lparr>ss_last_refresh := AList.update symb now_mono (ss_last_refresh s)\<rparr>"
  obtain t r where ask: "ask_exchange (\<lambda>x. sx_open_orders (pv_exchange env) x symb) ?s = (t, r)" by force
  have "quiet s t" using ask_exchange_quietD [OF ask] by (simp add: quiet_def)
  moreover have "quiet t (fst (sbind (sfold (save_open_snapshot env) xs acc' t) (sfold (refresh_local env skip symb now_ms due ys) zs)))"
    for xs acc' due ys zs by (intro quiet.sbind quiet.sfold quiet_steps)
  ultimately show ?thesis
    unfolding refresh_symbol_def Let_def ask by (auto split: sum.split intro: quiet.pure quiet.trans)
qed

lemma finish_refresh_quiet [quiet_steps]: "quiet s (fst (finish_refresh env now_mono acc s))"
proof -
  have "quiet s (s\<lparr>ss_backoff_until := u, ss_refresh_summary := m\<rparr>)" for u m by (simp add: quiet_def)
  then show ?thesis unfolding finish_refresh_def Let_def fst_conv by (rule quiet.trans) (rule sync_quiet)
qed

lemma refresh_quiet [quiet_steps]: "quiet s (fst (refresh_order_lifecycle env symbols skip s))"
  unfolding refresh_order_lifecycle_def Let_def
  by (auto intro!: at_now_quiet at_mono_quiet quiet.sbind quiet.sfold quiet_steps)
    (auto simp: quiet_def)

lemma mark_refreshed_quiet [quiet_steps]: "quiet s (mark_lifecycle_refreshed c s)"
  by (simp add: mark_lifecycle_refreshed_def Let_def quiet_def split: option.split)

lemma refresh_once_quiet [quiet_steps]: "quiet s (fst (refresh_once env symbols c s))"
  unfolding refresh_once_def by (auto intro!: quiet.sbind quiet_steps quiet.pure)

lemma op_quiet: "quiet (s\<lparr>ss_op := op\<rparr>) t \<longleftrightarrow> quiet s t"
  by (simp add: quiet_def)

lemma guarded_quiet [quiet_steps]: "quiet s (fst (submission_guarded env s))"
proof -
  have health: "quiet t (fst (sbind (ask_exchange f (t\<lparr>ss_op := op\<rparr>)) (\<lambda>(a, b) u. (u, Inr (a \<or> b)))))" for f op and t :: "'x spot_state"
    unfolding op_quiet [of op t, symmetric] by (rule quiet.sbind [OF ask_exchange_quiet]) (auto split: prod.split)
  show ?thesis
    unfolding submission_guarded_def Let_def
    by (auto intro!: at_now_quiet health split: prod.split) (simp_all add: op_quiet quiet_def)
qed

lemma ensure_allowed_quiet [quiet_steps]: "quiet s (fst (ensure_live_side_effects_allowed env s))"
  by (simp add: ensure_live_side_effects_allowed_def quiet_def Let_def)

lemma reconcile_placing_quiet: "reconcile_placing env p s = (t, out) \<Longrightarrow> quiet s t"
  by (auto simp: reconcile_placing_def reconcile_submit_def reconcile_all_orders_def at_now_def Let_def tick_quiet
      intro: quiet.trans dest!: ask_exchange_quietD split: prod.splits sum.splits option.splits)
    (auto simp: quiet_def)

subsection \<open>Steps that move a key or call the exchange\<close>

text \<open>Where \<open>J\<close> holds of the idempotency keys, it still does afterwards and all new calls satisfy \<open>P\<close>.\<close>

definition moves :: "(idem_table \<Rightarrow> bool) \<Rightarrow> (exchange_call \<Rightarrow> bool) \<Rightarrow> 'x spot_state \<Rightarrow> 'x spot_state \<Rightarrow> bool" where
  "moves J P s t \<longleftrightarrow> (J (ss_idem s) \<longrightarrow> J (ss_idem t) \<and> (\<exists>new. ss_calls t = ss_calls s @ new \<and> (\<forall>c \<in> set new. P c)))"

interpretation moves: step_order "moves J P" for J P
proof
  show "moves J P s s" for s :: "'x spot_state" by (simp add: moves_def)
  show "moves J P s u" if "moves J P s t" "moves J P t u" for s t u :: "'x spot_state"
  proof -
    have "J (ss_idem u) \<and> (\<exists>new. ss_calls u = ss_calls s @ new \<and> (\<forall>c \<in> set new. P c))" if j: "J (ss_idem s)"
    proof -
      obtain xs ys where "ss_calls t = ss_calls s @ xs" "\<forall>c \<in> set xs. P c" "ss_calls u = ss_calls t @ ys" "\<forall>c \<in> set ys. P c"
          "J (ss_idem u)"
        using \<open>moves J P s t\<close> \<open>moves J P t u\<close> j unfolding moves_def by blast
      then show ?thesis by (intro conjI exI [of _ "xs @ ys"]) auto
    qed
    then show ?thesis by (simp add: moves_def)
  qed
qed

lemma quiet_moves: "quiet s t \<Longrightarrow> moves J P s t"
  by (simp add: quiet_def moves_def)

lemma moves_self [simp]: "moves J P s s"
  by (rule moves.refl)

lemma moves_left: "ss_idem s' = ss_idem s \<Longrightarrow> ss_calls s' = ss_calls s \<Longrightarrow> moves J P s' t = moves J P s t"
  by (simp add: moves_def)

lemma moves_same: "ss_idem t = ss_idem s \<Longrightarrow> ss_calls t = ss_calls s \<Longrightarrow> moves J P s t"
  by (simp add: moves_def)

lemma tick_moves: "moves J P (s\<lparr>ss_ticks := n\<rparr>) t \<longleftrightarrow> moves J P s t"
  by (simp add: moves_def)

lemma at_now_moves: "(\<And>tm t. moves J P t (fst (f tm t))) \<Longrightarrow> moves J P s (fst (at_now env f s))"
  unfolding at_now_def using tick_moves by blast

lemma at_now_moves_state: "(\<And>tm t. moves J P t (f tm t)) \<Longrightarrow> moves J P s (at_now env f s)"
  unfolding at_now_def using tick_moves by blast

text \<open>A key whose row may be changed without losing \<open>J\<close>.\<close>

definition free :: "(idem_table \<Rightarrow> bool) \<Rightarrow> string \<Rightarrow> string \<Rightarrow> bool" where
  "free J action_type key \<longleftrightarrow> (\<forall>tab. J tab \<longrightarrow>
     (\<forall>i cid oid st. J (finalize_idempotency_key tab action_type key i cid oid st))
     \<and> (\<forall>n t st. J (update_idempotency_recovery tab action_type key n t st)))"

named_theorems moves_steps \<open>steps that keep \<open>moves\<close>\<close>

lemma finalize_moves [moves_steps]: "free J ty k \<Longrightarrow> moves J P s (finalize_key ty k i cid oid st s)"
  by (simp add: finalize_key_def moves_def free_def)

lemma finalize_placing_moves [moves_steps]: "free J ''place_order'' (pl_key p) \<Longrightarrow> moves J P s (finalize_placing p oid st s)"
  by (simp add: finalize_placing_def finalize_moves)

lemma set_recovery_moves [moves_steps]: "free J ''place_order'' k \<Longrightarrow> moves J P s (set_recovery k n t st s)"
  by (simp add: set_recovery_def moves_def free_def)

lemma attach_moves [moves_steps]: "moves J P s (attach_metadata i cid oid m s)"
  by (simp add: attach_metadata_def moves_same)

lemma clear_dedupe_moves [moves_steps]: "moves J P s (clear_dedupe i s)"
  by (simp add: clear_dedupe_def moves_same)

lemma state_moves [moves_steps]: "moves J P s (commit_state env k oid s)" "moves J P s (fail_state env k err s)"
  by (simp_all add: commit_state_def fail_state_def at_now_def moves_same)

lemma new_action_moves: "new_action env c ty h d s = (t, i) \<Longrightarrow> moves J P s t"
  by (auto simp: new_action_def at_now_def moves_def split: prod.splits)

lemma handle_moves [moves_steps]:
  "free J ity k \<Longrightarrow> moves J P s (handle_reservation_without_new_action ty ity k d s)"
  by (simp add: handle_reservation_without_new_action_def finalize_moves split: option.split)

lemma commit_placing_moves [moves_steps]:
  assumes "free J ''place_order'' (pl_key p)"
  shows "moves J P s (commit_placing env p oid rec st reason s)"
proof -
  let ?s2 = "finalize_placing p (Some oid) ''COMMITTED'' (attach_metadata (pl_action_id p) (Some (pl_cid p)) (Some oid)
      (placing_metadata p rec st reason) s)"
  have "moves J P s ?s2" by (rule moves.trans [OF attach_moves finalize_placing_moves [OF assms]])
  moreover have "moves J P ?s2 (commit_state env (pl_key p) oid ?s2)" by (rule moves_steps)
  ultimately show ?thesis by (auto simp: commit_placing_def Let_def intro: moves.trans)
qed

lemma store_order_moves [moves_steps]: "moves J P s (fst (store_order env ord rec raw idem i s))"
  by (rule quiet_moves) (rule store_order_quiet)

lemma record_unknown_moves [moves_steps]:
  assumes "free J ''place_order'' (pl_key p)"
  shows "moves J P s (fst (record_unknown env p out s))"
proof -
  let ?s2 = "\<lambda>r m. fail_state env (pl_key p) r (finalize_placing p None ''UNKNOWN'' (attach_metadata (pl_action_id p) (Some (pl_cid p)) None m s))"
  have "moves J P s (?s2 r m)" for r m
    by (rule moves.trans [OF moves.trans [OF attach_moves finalize_placing_moves [OF assms]] state_moves(2)])
  moreover have "moves J P t (fst (at_now env (\<lambda>now u. sbind (store_order env (placing_order p i (Some (pl_cid p)) St_UNKNOWN now now)
      True None (Some (pl_key p)) (pl_intent_id p) u) (\<lambda>_ v. (note_unknown env i r (millis now) v, Inr ()))) t))" for i r t
    by (intro at_now_moves moves.sbind moves_steps) (simp add: quiet_moves note_unknown_quiet)
  ultimately show ?thesis unfolding record_unknown_def Let_def by (rule moves.trans)
qed

lemma record_reconciled_moves [moves_steps]:
  "free J ''place_order'' (pl_key p) \<Longrightarrow> moves J P s (fst (record_reconciled env p oid out s))"
  unfolding record_reconciled_def
  by (intro at_now_moves moves.sbind moves_steps)
    (simp, rule moves.trans [OF quiet_moves [OF set_status_quiet]], erule commit_placing_moves)

lemma record_placed_moves [moves_steps]:
  "free J ''place_order'' (pl_key p) \<Longrightarrow> moves J P s (fst (record_placed env p oid s))"
  unfolding record_placed_def by (intro at_now_moves moves.sbind moves_steps) (simp add: moves_steps)

lemma record_rejected_moves [moves_steps]:
  "free J ''place_order'' (pl_key p) \<Longrightarrow> moves J P s (fst (record_rejected env p e s))"
  unfolding record_rejected_def
  by (intro at_now_moves moves.sbind moves_steps) (simp, rule moves.trans [OF finalize_placing_moves clear_dedupe_moves])

subsection \<open>A submission\<close>

lemma wire_submit_calls:
  assumes "wire_submit env q s = (t, r)"
  shows "ss_idem t = ss_idem s" "\<exists>rs. ss_calls t = ss_calls s @ map (Submit_call q) rs
    \<and> length rs \<le> nat (wc_submit_retry_max_attempts (sc_wrapper (pv_config env)))
    \<and> (\<forall>x \<in> set (butlast rs). passing x) \<and> (\<forall>v. r = Inr (Done v) \<longrightarrow> rs \<noteq> [] \<and> last rs = Inr v)"
proof -
  obtain w r0 where w: "wrapper_submit (sc_wrapper (pv_config env)) (pv_retry_after env) (pv_rand env) (sx_client (pv_exchange env)) q
      (ss_exchange s, ss_calls s) = (w, r0)" by (metis prod.exhaust)
  then have t: "ss_calls t = snd w" "r = r0" "ss_idem t = ss_idem s" using assms by (auto simp: wire_submit_def split: prod.splits)
  then show "ss_idem t = ss_idem s" by simp
  show "\<exists>rs. ss_calls t = ss_calls s @ map (Submit_call q) rs
    \<and> length rs \<le> nat (wc_submit_retry_max_attempts (sc_wrapper (pv_config env)))
    \<and> (\<forall>x \<in> set (butlast rs). passing x) \<and> (\<forall>v. r = Inr (Done v) \<longrightarrow> rs \<noteq> [] \<and> last rs = Inr v)"
    using wrapper_submit_calls [OF w [unfolded wrapper_submit_def]] t by simp
qed

lemma wire_submit_moves: "(\<And>a. P (Submit_call q a)) \<Longrightarrow> moves J P s (fst (wire_submit env q s))"
  using wire_submit_calls [of env q s "fst (wire_submit env q s)" "snd (wire_submit env q s)"]
  by (auto simp: moves_def)

lemma wire_cancel_moves: "(\<And>a. P (Cancel_call i a)) \<Longrightarrow> moves J P s (fst (wire_cancel env i s))"
proof -
  assume P: "\<And>a. P (Cancel_call i a)"
  obtain w r0 where w: "wrapper_cancel (sc_wrapper (pv_config env)) (pv_retry_after env) (pv_rand env) (sx_client (pv_exchange env)) i
      (ss_exchange s, ss_calls s) = (w, r0)" by (metis prod.exhaust)
  then have "ss_calls (fst (wire_cancel env i s)) = snd w" "ss_idem (fst (wire_cancel env i s)) = ss_idem s"
    by (auto simp: wire_cancel_def split: prod.splits)
  then show ?thesis using wrapper_cancel_calls [OF w [unfolded wrapper_cancel_def]] P by (auto simp: moves_def)
qed

text \<open>An unknown order in the registry stops the submission.\<close>

lemma submit_limit_moves:
  assumes "\<And>a. P (Submit_call (placing_request p) a)"
  shows "moves J P s (fst (spot_submit_limit_order env p s))"
proof -
  let ?s = "sync_unknown_registry env False s"
  have "moves J P ?s (fst (spot_submit_limit_order env p s))"
    unfolding spot_submit_limit_order_def Let_def
    by (auto intro!: moves.sbind wire_submit_moves assms split: outcome.split)
  then show ?thesis by (rule moves.trans [OF quiet_moves [OF sync_quiet]])
qed

lemma submit_error_moves:
  assumes "free J ''place_order'' (pl_key p)"
  shows "moves J P s (fst (submit_error env p e m s))"
proof -
  obtain t out where t: "reconcile_placing env p s = (t, out)" by force
  note 1 = moves.trans [OF quiet_moves [OF reconcile_placing_quiet [OF t]]]
  show ?thesis
    by (auto simp: submit_error_def Let_def t moves_steps assms split: option.split intro: 1)
qed

lemma submit_uncertain_moves:
  assumes "free J ''place_order'' (pl_key p)"
  shows "moves J P s (fst (submit_uncertain env p m s))"
proof -
  obtain t out where t: "reconcile_placing env p s = (t, out)" by force
  note 1 = moves.trans [OF quiet_moves [OF reconcile_placing_quiet [OF t]]]
  show ?thesis
    by (auto simp: submit_uncertain_def Let_def t moves_steps assms split: option.split intro: 1)
qed

lemma place_live_moves:
  assumes "free J ''place_order'' (pl_key p)" "\<And>a. P (Submit_call (placing_request p) a)"
  shows "moves J P s (fst (place_live env p m s))"
proof -
  obtain t r where t: "spot_submit_limit_order env p s = (t, r)" by force
  have "moves J P s t" using submit_limit_moves [of P p J s env] assms(2) t by simp
  note 1 = moves.trans [OF this]
  show ?thesis
    by (auto simp: place_live_def Let_def t moves_steps assms(1) \<open>moves J P s t\<close> split: sum.split outcome.split
        intro: 1 submit_error_moves submit_uncertain_moves assms(1))
qed

subsection \<open>An intent\<close>

text \<open>Reserving the key keeps \<open>J\<close>, and the key is only granted or recovered when it is free.\<close>

definition guards :: "(idem_table \<Rightarrow> bool) \<Rightarrow> string \<Rightarrow> bool" where
  "guards J key \<longleftrightarrow> (\<forall>tab now h ttl b tab' r. J tab \<longrightarrow> reserve_idempotency_key tab now ''place_order'' key h ttl b = (tab', r) \<longrightarrow>
     J tab' \<and> (\<forall>rv. r = Inr rv \<longrightarrow> rv_key rv = key
       \<and> (rv_reserved rv \<or> str_upper (ik_status (rv_row rv)) = ''PENDING'' \<longrightarrow> free J ''place_order'' key)))"

lemma recover_moves:
  assumes "free J ''place_order'' (rv_key rv)"
  shows "moves J P s (recover_stale_pending env i rv cid s)"
proof -
  have look: "moves J P u (fst (recovery_lookup env symb cid u))" for symb and u :: "'a spot_state"
    unfolding recovery_lookup_def
    by (auto intro!: quiet_moves quiet.sbind quiet_steps at_now_quiet split: option.split)
  have fin: "moves J P u (set_recovery (rv_key rv) n t st (finalize_key ''place_order'' (rv_key rv) a c oid w u))"
    for n t st a c oid w and u :: "'a spot_state"
    using assms by (blast intro: moves.trans [OF finalize_moves set_recovery_moves])
  have failed: "moves J P u (recovery_failed cfg now rv u)" for cfg now and u :: "'a spot_state"
    using assms by (simp add: recovery_failed_def Let_def set_recovery_moves)
  have "moves J P u (case recovery_lookup env symb cid u of
            (t, Inl e) \<Rightarrow> recovery_failed cfg now rv t
          | (t, Inr (Some x)) \<Rightarrow> set_recovery (rv_key rv) 0 None None (finalize_key ''place_order'' (rv_key rv) a c (Some (os_order_id x)) ''COMMITTED'' t)
          | (t, Inr None) \<Rightarrow> set_recovery (rv_key rv) 0 None None (finalize_key ''place_order'' (rv_key rv) a c None ''FAILED'' t))"
    for symb cfg now a c and u :: "'a spot_state"
  proof -
    obtain t r where t: "recovery_lookup env symb cid u = (t, r)" by force
    then have "moves J P u t" using look [of u symb] by simp
    then show ?thesis using fin failed unfolding t by (auto split: sum.split option.split intro: moves.trans)
  qed
  then show ?thesis unfolding recover_stale_pending_def Let_def by (intro at_now_moves_state) simp
qed

lemma duplicate_moves:
  assumes "str_upper (ik_status (rv_row rv)) = ''PENDING'' \<Longrightarrow> free J ''place_order'' (rv_key rv)"
  shows "moves J P s (duplicate_intent env i rv s)"
  unfolding duplicate_intent_def Let_def
  by (intro at_now_moves_state) (auto split: option.split intro: recover_moves assms)

text \<open>The order that is sent for an intent.\<close>

definition request_for :: "'x spot_env \<Rightarrow> place_intent \<Rightarrow> dec \<Rightarrow> dec \<Rightarrow> submit_request" where
  "request_for env i price quantity =
     \<lparr>sq_symbol = normalize_symbol (pi_symbol i), sq_side = side_text (pi_side i), sq_price = price, sq_qty = quantity,
      sq_client_order_id = make_client_order_id env i\<rparr>"

lemma place_reserved_moves:
  assumes "free J ''place_order'' key"
    and "\<And>a. \<not> sc_dry_run (pv_config env) \<Longrightarrow> P (Submit_call (request_for env i (fst sized) (fst (snd sized))) a)"
  shows "moves J P s (fst (place_reserved env i raw sized key m s))"
proof -
  obtain price quantity notional where z: "sized = (price, quantity, notional)" by (metis prod.exhaust)
  let ?s1 = "finalize_key ''place_order'' key None (Some (make_client_order_id env i)) None ''PENDING'' s"
  let ?d = "place_action_type env @ '':'' @ key"
  obtain s2 r where s2: "new_action env (pi_cycle_id i) (place_action_type env) (place_hash env i) ?d ?s1 = (s2, r)" by force
  have 12: "moves J P s s2" using finalize_moves [OF assms(1)] new_action_moves [OF s2] by (rule moves.trans)
  show ?thesis
  proof (cases r)
    case None
    then show ?thesis
      using moves.trans [OF 12 handle_moves [OF assms(1)]] s2 by (simp add: place_reserved_def z Let_def)
  next
    case (Some n)
    define p where "p = \<lparr>pl_intent = i, pl_intent_id = map_option it_intent_id raw, pl_symbol = normalize_symbol (pi_symbol i),
                   pl_price = price, pl_quantity = quantity, pl_notional = notional, pl_key = key, pl_cid = make_client_order_id env i,
                   pl_action_id = n\<rparr>"
    have p: "pl_key p = key" "placing_request p = request_for env i price quantity"
      by (simp_all add: p_def placing_request_def request_for_def)
    let ?s3 = "finalize_placing p None ''PENDING'' s2"
    have 3: "moves J P s ?s3" using 12 finalize_placing_moves [of J p P s2] assms(1) p by (metis moves.trans)
    have eq: "fst (place_reserved env i raw sized key m s) =
        (if sc_dry_run (pv_config env) then fst (place_simulated p m ?s3) else fst (place_live env p m ?s3))"
      using s2 Some by (simp add: place_reserved_def z Let_def p_def split: prod.split)
    show ?thesis
    proof (cases "sc_dry_run (pv_config env)")
      case True
      have "moves J P ?s3 (fst (place_simulated p m ?s3))"
        unfolding place_simulated_def fst_conv
        by (rule moves.trans [OF attach_moves finalize_placing_moves]) (simp add: assms(1) p)
      then show ?thesis using 3 True eq by (simp add: moves.trans)
    next
      case False
      have "moves J P ?s3 (fst (place_live env p m ?s3))"
        using assms p False by (intro place_live_moves) (simp_all add: z)
      then show ?thesis using moves.trans [OF 3] False eq by simp
    qed
  qed
qed

lemma reserve_and_place_moves:
  assumes "guards J (place_idempotency_key env i raw)"
    and "\<And>a. \<not> sc_dry_run (pv_config env) \<Longrightarrow> free J ''place_order'' (place_idempotency_key env i raw) \<Longrightarrow>
      P (Submit_call (request_for env i (fst sized) (fst (snd sized))) a)"
  shows "moves J P s (fst (reserve_and_place env i raw sized m s))"
proof -
  let ?key = "place_idempotency_key env i raw" and ?b = "\<not> sc_dry_run (pv_config env)"
  define now where "now = pv_clock env (ss_ticks s)"
  obtain tab r where tab: "reserve_idempotency_key (ss_idem s) now ''place_order'' ?key (place_hash env i)
      PLACE_ORDER_IDEMPOTENCY_TTL_SECONDS ?b = (tab, r)" by force
  let ?s1 = "s\<lparr>ss_ticks := Suc (ss_ticks s), ss_idem := tab\<rparr>"
  have s1: "reserve_key env ''place_order'' ?key (place_hash env i) PLACE_ORDER_IDEMPOTENCY_TTL_SECONDS ?b s = (?s1, r)"
    using tab by (simp add: reserve_key_def at_now_def now_def)
  show ?thesis
  proof (cases "J (ss_idem s)")
    case False
    then show ?thesis by (simp add: moves_def)
  next
    case True
    then have j: "J tab" and free: "\<And>rv. r = Inr rv \<Longrightarrow> rv_key rv = ?key \<and>
        (rv_reserved rv \<or> str_upper (ik_status (rv_row rv)) = ''PENDING'' \<longrightarrow> free J ''place_order'' ?key)"
      using assms(1) tab unfolding guards_def by blast+
    have 1: "moves J P s ?s1" using j by (simp add: moves_def)
    show ?thesis
    proof (cases r)
      case (Inl e)
      then show ?thesis using 1 s1 by (simp add: reserve_and_place_def Let_def sbind_def)
    next
      case (Inr rv)
      have "moves J P ?s1 (fst (if \<not> rv_reserved rv then (duplicate_intent env i rv ?s1, Inr m)
                 else place_reserved env i raw sized ?key m ?s1))"
        using free [OF Inr] assms(2) by (auto intro: duplicate_moves place_reserved_moves)
      then show ?thesis using moves.trans [OF 1] s1 Inr by (simp add: reserve_and_place_def Let_def sbind_def)
    qed
  qed
qed

text \<open>The service is armed, and the request is the sized order of the intent, covered by the balances.\<close>

definition armed :: "'x spot_env \<Rightarrow> bool" where
  "armed env \<longleftrightarrow> \<not> sc_dry_run (pv_config env) \<and> sc_live_trading_enabled (pv_config env) \<and> sc_live_trading_ack (pv_config env)
     \<and> coerce_process_role (sc_process_role (pv_config env)) = Role_LIVE"

definition sendable :: "'x spot_env \<Rightarrow> (string, dec) dict option \<Rightarrow> place_intent \<Rightarrow> submit_request \<Rightarrow> bool" where
  "sendable env balances i q \<longleftrightarrow> armed env \<and> (\<exists>price quantity notional info.
     size_place_intent env i = Inr (Sized (price, quantity, notional))
     \<and> check_balance_precondition (pv_config env) balances (normalize_symbol (pi_symbol i)) (pi_side i) price quantity = Inr (True, info)
     \<and> q = request_for env i price quantity)"

lemma sbind_moves:
  "moves J P s (fst m) \<Longrightarrow> (\<And>x t. m = (t, Inr x) \<Longrightarrow> moves J P t (fst (f x t))) \<Longrightarrow> moves J P s (fst (sbind m f))"
  by (cases m) (auto simp: sbind_def intro: moves.trans split: sum.split)

lemma allowed_armed:
  assumes "ensure_live_side_effects_allowed env s = (t, Inr u)"
  shows "armed env \<and> t = s"
proof -
  have "pr_allowed (validate_live_side_effects_policy (Some (process_role_of env)) True (sc_dry_run (pv_config env))
      (ss_kill_switch s) (sc_live_trading_enabled (pv_config env)) (sc_live_trading_ack (pv_config env)))"
    using assms by (auto simp: ensure_live_side_effects_allowed_def Let_def split: if_splits)
  then have "str_upper (str_strip (process_role_of env)) \<noteq> ''MONITOR''" "\<not> sc_dry_run (pv_config env)"
      "sc_live_trading_enabled (pv_config env)" "sc_live_trading_ack (pv_config env)"
    by (simp_all add: validate_live_side_effects_policy_def Let_def listed_if_def split: if_splits)
  moreover have "str_upper (str_strip ''MONITOR'') = ''MONITOR''" by code_simp
  ultimately show ?thesis
    using assms by (cases "coerce_process_role (sc_process_role (pv_config env))")
      (auto simp: armed_def process_role_of_def ensure_live_side_effects_allowed_def Let_def)
qed

lemma execute_intent_moves:
  assumes "guards J (place_idempotency_key env i raw)"
    and "\<And>q a. sendable env b i q \<Longrightarrow> free J ''place_order'' (place_idempotency_key env i raw) \<Longrightarrow> P (Submit_call q a)"
  shows "moves J P s (fst (execute_intent env b (i, raw) m s))"
proof -
  let ?live = "\<not> sc_dry_run (pv_config env)"
  let ?check = "\<lambda>price quantity. if ?live then check_balance_precondition (pv_config env) b (normalize_symbol (pi_symbol i)) (pi_side i) price quantity
                   else Inr (True, None, None, None)"
  have go: "moves J P t (fst (reserve_and_place env i raw (price, quantity, notional) m t))"
    if "?live \<Longrightarrow> armed env" "size_place_intent env i = Inr (Sized (price, quantity, notional))" "?check price quantity = Inr (True, info)"
    for t price quantity notional info
  proof (rule reserve_and_place_moves [OF assms(1)])
    fix a
    assume live: ?live and key: "free J ''place_order'' (place_idempotency_key env i raw)"
    have "sendable env b i (request_for env i price quantity)"
      using that live unfolding sendable_def by (auto simp del: split_paired_Ex)
    then show "P (Submit_call (request_for env i (fst (price, quantity, notional)) (fst (snd (price, quantity, notional)))) a)"
      using assms(2) key by simp
  qed
  show ?thesis
    unfolding execute_intent_def Let_def prod.case
  proof (rule sbind_moves)
    show "moves J P s (fst (if ?live then ensure_live_side_effects_allowed env s else (s, Inr ())))"
      by (simp add: quiet_moves ensure_allowed_quiet)
  next
    fix u t
    assume "(if ?live then ensure_live_side_effects_allowed env s else (s, Inr ())) = (t, Inr u)"
    then have "?live \<Longrightarrow> armed env" using allowed_armed by (auto split: if_splits)
    then show "moves J P t (fst (case size_place_intent env i of
          Inl e \<Rightarrow> (t, Inl e)
        | Inr (Sized (price, quantity, notional)) \<Rightarrow>
            (case ?check price quantity of
               Inl e \<Rightarrow> (t, Inl e)
             | Inr (sufficient, _) \<Rightarrow>
                 if sufficient then reserve_and_place env i raw (price, quantity, notional) m t else (t, Inr (count_precheck m)))
        | Inr (Refused st) \<Rightarrow> (t, Inr (count_refused (\<not> ?live) st m))))"
      by (auto split: sum.split sized_or_refused.split intro: go)
  qed
qed

text \<open>The balances an order is checked against: those cached for the cycle, or else what the exchange answers.\<close>

definition balances_of ::
  "'x spot_env \<Rightarrow> (string, (string, dec) dict) dict \<Rightarrow> 'x \<Rightarrow> string option \<Rightarrow> (string, dec) dict option" where
  "balances_of env cache x cycle_id =
     (case nonempty cycle_id of
        None \<Rightarrow> None
      | Some c \<Rightarrow>
          (case map_of cache c of
             Some b \<Rightarrow> Some b
           | None \<Rightarrow> (case snd (sx_balances (pv_exchange env) x) of Inl e \<Rightarrow> None | Inr items \<Rightarrow> Some (balance_by_asset items))))"

lemma cycle_balances_are:
  assumes "get_cycle_balances env c s = (t, b)"
  shows "b = balances_of env (ss_balance_cache s) (ss_exchange s) c" "ss_idem t = ss_idem s" "ss_calls t = ss_calls s"
  using assms
  by (auto simp: get_cycle_balances_def balances_of_def ask_exchange_def remember_cycle_balances_def Let_def
      split: option.splits prod.splits sum.splits)

lemma place_all_moves:
  assumes "\<And>i raw. (i, raw) \<in> set xs \<Longrightarrow> guards J (place_idempotency_key env i raw)"
    and "\<And>i raw q a. (i, raw) \<in> set xs \<Longrightarrow> sendable env (balances_of env (ss_balance_cache s) (ss_exchange s) c) i q \<Longrightarrow>
      free J ''place_order'' (place_idempotency_key env i raw) \<Longrightarrow> P (Submit_call q a)"
  shows "moves J P s (fst (place_all env c xs s))"
proof -
  obtain t b where t: "(if sc_dry_run (pv_config env) then (s, None) else get_cycle_balances env c s) = (t, b)" by (metis prod.exhaust)
  have st: "moves J P s t"
    using t cycle_balances_are(2,3) [of env c s t b] by (auto intro: moves_same split: if_splits)
  have b: "b = balances_of env (ss_balance_cache s) (ss_exchange s) c" if "sendable env b i q" for i q
    using that t cycle_balances_are(1) [of env c s t b] by (auto simp: sendable_def armed_def)
  have "moves J P t (fst (execute_intent env b x m t))" if x: "x \<in> set xs" for x m t
  proof -
    obtain i raw where i: "x = (i, raw)" by force
    show ?thesis unfolding i
    proof (rule execute_intent_moves)
      show "guards J (place_idempotency_key env i raw)" using assms(1) x i by simp
      show "P (Submit_call q a)" if "sendable env b i q" "free J ''place_order'' (place_idempotency_key env i raw)" for q a
        using assms(2) that b [OF that(1)] x i by simp
    qed
  qed
  then have "moves J P t (fst (sfold (execute_intent env b) xs empty_summary t))" by (rule moves.sfold)
  then have "moves J P t (fst (sbind (sfold (execute_intent env b) xs empty_summary t)
      (\<lambda>m s'. (s'\<lparr>ss_execute_summary := Some m\<rparr>, Inr (xs_orders_submitted m)))))"
    by (rule sbind_moves) (simp add: moves_same)
  then show ?thesis unfolding place_all_def t prod.case by (rule moves.trans [OF st])
qed

lemma guard_not_blocked:
  "submission_guarded env s = (t, Inr False) \<Longrightarrow> \<not> sc_dry_run (pv_config env) \<Longrightarrow> \<not> pv_trading_blocked_by_policy env"
  by (auto simp: submission_guarded_def at_now_def Let_def split: prod.splits if_splits)

text \<open>The cycle of a run, and the state in which it starts to place orders when nothing stops it.\<close>

definition first_cycle :: "(place_intent \<times> stage3_intent option) list \<Rightarrow> string option" where
  "first_cycle xs = (case xs of [] \<Rightarrow> None | (i, r) # _ \<Rightarrow> Some (pi_cycle_id i))"

definition before_placing :: "'x spot_env \<Rightarrow> (place_intent \<times> stage3_intent option) list \<Rightarrow> 'x spot_state \<Rightarrow> 'x spot_state" where
  "before_placing env xs s =
     (let s1 = fst (refresh_once env (map (\<lambda>(i, r). pi_symbol i) xs) (first_cycle xs) s);
          s2 = sync_unknown_registry env False ((prune_keys env s1)\<lparr>ss_execute_summary := Some empty_summary\<rparr>)
      in fst (submission_guarded env s2))"

lemma before_placing_cache: "ss_balance_cache (before_placing env xs s) = ss_balance_cache s"
proof -
  define s1 where "s1 = fst (refresh_once env (map (\<lambda>(i, r). pi_symbol i) xs) (first_cycle xs) s)"
  define s2 where "s2 = sync_unknown_registry env False ((prune_keys env s1)\<lparr>ss_execute_summary := Some empty_summary\<rparr>)"
  have "ss_balance_cache (fst (submission_guarded env s2)) = ss_balance_cache s2"
    using guarded_quiet [of s2 env] by (simp add: quiet_def)
  also have "\<dots> = ss_balance_cache ((prune_keys env s1)\<lparr>ss_execute_summary := Some empty_summary\<rparr>)"
    unfolding s2_def using sync_quiet by (metis quiet_def)
  also have "\<dots> = ss_balance_cache s1" by (simp add: prune_keys_def at_now_def)
  also have "\<dots> = ss_balance_cache s"
    unfolding s1_def using refresh_once_quiet [of s env "map (\<lambda>(i, r). pi_symbol i) xs" "first_cycle xs"] by (simp add: quiet_def)
  finally show ?thesis by (simp add: before_placing_def Let_def s1_def s2_def)
qed

definition known_balances :: "'x spot_env \<Rightarrow> (place_intent \<times> stage3_intent option) list \<Rightarrow> 'x spot_state \<Rightarrow> (string, dec) dict option" where
  "known_balances env xs s = balances_of env (ss_balance_cache s) (ss_exchange (before_placing env xs s)) (first_cycle xs)"

lemma execute_intents_moves:
  assumes "rmap (normalize_input env c) inputs = Inr xs"
    and "\<And>i raw. (i, raw) \<in> set xs \<Longrightarrow> guards J (place_idempotency_key env i raw)"
    and "\<And>tab n. J tab \<Longrightarrow> J (fst (prune_expired_idempotency_keys tab (pv_clock env n) None))"
    and "\<And>i raw q a. (i, raw) \<in> set xs \<Longrightarrow> sendable env (known_balances env xs s) i q \<Longrightarrow>
      free J ''place_order'' (place_idempotency_key env i raw) \<Longrightarrow> \<not> ss_safe_mode s \<Longrightarrow> \<not> ss_kill_switch s \<Longrightarrow> \<not> pv_trading_blocked_by_policy env \<Longrightarrow> P (Submit_call q a)"
  shows "moves J P s (fst (execute_intents env inputs c s))"
proof -
  let ?cycle = "first_cycle xs"
  obtain s1 r where s1: "refresh_once env (map (\<lambda>(i, r). pi_symbol i) xs) ?cycle s = (s1, r)" by force
  have q1: "quiet s s1" using refresh_once_quiet [of s env "map (\<lambda>(i, r). pi_symbol i) xs" ?cycle] s1 by simp
  define s2 where "s2 = sync_unknown_registry env False ((prune_keys env s1)\<lparr>ss_execute_summary := Some empty_summary\<rparr>)"
  have "moves J P s1 (prune_keys env s1)" using assms(3) by (auto simp: prune_keys_def at_now_def moves_def)
  moreover have "moves J P (prune_keys env s1) ((prune_keys env s1)\<lparr>ss_execute_summary := Some empty_summary\<rparr>)" by (simp add: moves_same)
  moreover have "moves J P ((prune_keys env s1)\<lparr>ss_execute_summary := Some empty_summary\<rparr>) s2"
    unfolding s2_def by (rule quiet_moves [OF sync_quiet])
  ultimately have m2: "moves J P s s2" using quiet_moves [OF q1] by (blast intro: moves.trans)
  have flags: "ss_safe_mode s2 = ss_safe_mode s1" "ss_kill_switch s2 = ss_kill_switch s1"
    by (simp_all add: s2_def sync_unknown_registry_def prune_keys_def at_now_def at_mono_def)
  have rest: "moves J P s2 (fst (if ss_safe_mode s2 \<or> ss_kill_switch s2 then (s2, Inr 0)
            else sbind (submission_guarded env s2) (\<lambda>guarded s3.
              if guarded then (s3, Inr 0)
              else if has_unknown (ss_registry s3) then (s3, Inl submit_blocked)
              else place_all env ?cycle xs s3)))"
  proof (cases "ss_safe_mode s2 \<or> ss_kill_switch s2")
    case False
    then have off: "\<not> ss_safe_mode s" "\<not> ss_kill_switch s" using q1 flags by (auto simp: quiet_def)
    have "moves J P t (fst (place_all env ?cycle xs t))" if "submission_guarded env s2 = (t, Inr False)" for t
    proof (rule place_all_moves [OF assms(2)])
      fix i raw q a
      assume i: "(i, raw) \<in> set xs" "sendable env (balances_of env (ss_balance_cache t) (ss_exchange t) ?cycle) i q"
        "free J ''place_order'' (place_idempotency_key env i raw)"
      have "t = before_placing env xs s" using that by (simp add: before_placing_def Let_def s1 s2_def)
      then have "sendable env (known_balances env xs s) i q"
        using i(2) before_placing_cache [of env xs s] by (simp add: known_balances_def)
      note i = i(1) this i(3)
      then have "\<not> pv_trading_blocked_by_policy env" using guard_not_blocked [OF that] by (simp add: sendable_def armed_def)
      then show "P (Submit_call q a)" using assms(4) i off by blast
    qed
    then have "moves J P s2 (fst (sbind (submission_guarded env s2) (\<lambda>guarded s3.
              if guarded then (s3, Inr 0)
              else if has_unknown (ss_registry s3) then (s3, Inl submit_blocked)
              else place_all env ?cycle xs s3)))"
      by (intro sbind_moves quiet_moves [OF guarded_quiet]) auto
    then show ?thesis using False by simp
  qed simp
  show ?thesis
  proof (cases r)
    case (Inl e)
    then show ?thesis using s1 quiet_moves [OF q1] assms(1) by (simp add: execute_intents_def first_cycle_def [symmetric] Let_def sbind_def)
  next
    case (Inr u)
    then have "fst (execute_intents env inputs c s) = fst (if ss_safe_mode s2 \<or> ss_kill_switch s2 then (s2, Inr 0)
            else sbind (submission_guarded env s2) (\<lambda>guarded s3.
              if guarded then (s3, Inr 0)
              else if has_unknown (ss_registry s3) then (s3, Inl submit_blocked)
              else place_all env ?cycle xs s3))"
      using s1 assms(1) by (simp add: execute_intents_def first_cycle_def [symmetric] Let_def sbind_def s2_def)
    then show ?thesis using moves.trans [OF m2 rest] by simp
  qed
qed

subsection \<open>Which submissions reach the exchange\<close>

lemma guards_True: "guards (\<lambda>_. True) key"
  unfolding guards_def free_def by (auto dest: reserve_key_of)

text \<open>What the check of the balances demands: of known balances that they cover the order, otherwise only that it is no sale that needs inventory.\<close>

definition balances_cover :: "spot_config \<Rightarrow> (string, dec) dict option \<Rightarrow> string \<times> string \<Rightarrow> order_side \<Rightarrow> dec \<Rightarrow> dec \<Rightarrow> bool" where
  "balances_cover c b assets side price quantity \<longleftrightarrow>
     (case b of
        Some (x # known) \<Rightarrow>
          if side = Side_BUY
          then buy_requirement c price quantity
            \<le> dict_get (x # known) (case sc_quote_override c of None \<Rightarrow> snd assets | Some q \<Rightarrow> q) 0
          else sell_requirement c quantity \<le> dict_get (x # known) (fst assets) 0
      | _ \<Rightarrow> \<not> (side = Side_SELL \<and> sc_sell_requires_inventory c))"

lemma checked_balances_cover:
  assumes "check_balance_precondition c b symb side price quantity = Inr (True, info)"
  shows "\<exists>assets. derive_symbol_assets c symb = Inr assets \<and> balances_cover c b assets side price quantity"
proof -
  obtain base quote where d: "derive_symbol_assets c symb = Inr (base, quote)"
    using assms by (auto simp: check_balance_precondition_def rbind_eq_Inr_iff)
  consider "b = None" | "b = Some []" | x known where "b = Some (x # known)" by (metis list.exhaust option.exhaust)
  then show ?thesis
    using assms unfolding check_balance_precondition_def d
    by cases (auto simp: d balances_cover_def covered_def Let_def split: if_splits option.splits)
qed

text \<open>(C1) A submission reaches the exchange only from a service that is armed for live trading with role LIVE, not in
  safe mode, without kill switch and not blocked by policy; the request is the order of one of the intents, sized within
  the rules of its symbol to at least the minimum notional.  It is covered, with fees and buffer, by the balances known
  for the cycle: those cached, or else those the exchange answers when the placing starts.  Where none are known (no id of the
  cycle, no answer, or an empty one) only sales that need inventory are stopped.\<close>

theorem spot_submissions_gated:
  assumes "execute_intents env inputs c s = (s', res)"
    and "Submit_call q answer \<in> set (drop (length (ss_calls s)) (ss_calls s'))"
  shows "armed env \<and> \<not> ss_safe_mode s \<and> \<not> ss_kill_switch s \<and> \<not> pv_trading_blocked_by_policy env
    \<and> (\<exists>xs i raw rules assets.
         rmap (normalize_input env c) inputs = Inr xs \<and> (i, raw) \<in> set xs
         \<and> q = request_for env i (sq_price q) (sq_qty q)
         \<and> symbol_rules_for_execution env (normalize_symbol (pi_symbol i)) = Inr rules
         \<and> within_rules (sq_price q) (sq_qty q) rules
         \<and> (let least = dec_or (sr_min_total rules) (sc_fallback_min_notional (pv_config env)) in
              0 < least \<longrightarrow> least \<le> dmul (sq_price q) (sq_qty q))
         \<and> derive_symbol_assets (pv_config env) (normalize_symbol (pi_symbol i)) = Inr assets
         \<and> balances_cover (pv_config env)
             (balances_of env (ss_balance_cache s) (ss_exchange (before_placing env xs s)) (first_cycle xs))
             assets (pi_side i) (sq_price q) (sq_qty q))"
proof (cases "rmap (normalize_input env c) inputs")
  case (Inl e)
  then show ?thesis using assms by (simp add: execute_intents_def)
next
  case (Inr xs)
  let ?b = "known_balances env xs s"
  define P where "P = (\<lambda>call. \<forall>q a. call = Submit_call q a \<longrightarrow>
    \<not> ss_safe_mode s \<and> \<not> ss_kill_switch s \<and> \<not> pv_trading_blocked_by_policy env
    \<and> (\<exists>i raw. (i, raw) \<in> set xs \<and> sendable env ?b i q))"
  have "moves (\<lambda>_. True) P s (fst (execute_intents env inputs c s))"
    by (rule execute_intents_moves [OF Inr guards_True]) (auto simp: P_def simp del: split_paired_Ex)
  then have "\<forall>c \<in> set (drop (length (ss_calls s)) (ss_calls s')). P c"
    using assms(1) by (auto simp: moves_def)
  then obtain i raw where i: "\<not> ss_safe_mode s" "\<not> ss_kill_switch s" "\<not> pv_trading_blocked_by_policy env"
      "(i, raw) \<in> set xs" "sendable env ?b i q"
    using assms(2) unfolding P_def by blast
  then obtain p y n info where z: "armed env" "size_place_intent env i = Inr (Sized (p, y, n))" "q = request_for env i p y"
      "check_balance_precondition (pv_config env) ?b (normalize_symbol (pi_symbol i)) (pi_side i) p y = Inr (True, info)"
    unfolding sendable_def by blast
  from z(1,2) obtain rules r where r: "symbol_rules_for_execution env (normalize_symbol (pi_symbol i)) = Inr rules"
      "size_order_from_notional (pi_notional i) (pi_price i) rules (sc_fallback_min_notional (pv_config env))
         (sc_allow_min_notional_upgrade (pv_config env)) = Inr r" "osr_status r = OK" "p = osr_price r" "y = osr_quantity r"
    by (auto simp: size_place_intent_def armed_def rbind_eq_Inr_iff split: if_splits)
  have "within_rules p y rules \<and> (0 < dec_or (sr_min_total rules) (sc_fallback_min_notional (pv_config env)) \<longrightarrow>
      dec_or (sr_min_total rules) (sc_fallback_min_notional (pv_config env)) \<le> dmul p y)"
    using r(2,3,4,5) by (metis size_order_OK_elim not_le validate_order_within)
  moreover have q: "sq_price q = p" "sq_qty q = y" using z(3) by (simp_all add: request_for_def)
  moreover note checked_balances_cover [OF z(4)]
  ultimately show ?thesis using i(1-4) z(1,3) r(1) Inr unfolding Let_def known_balances_def q by blast
qed

end
