(* ===== verification/Spot_Keys.thy ===== *)
theory Spot_Keys
  imports Spot_Props
begin

text \<open>
  What the idempotency keys of the execution service of stage 3 guarantee over any sequence of runs,
  cancellations and refreshes: a key with a settled row is not used for another submission before it
  expires.  Two lemmas record what happens to a key that recovery has given up.
\<close>

subsection \<open>Cancellations\<close>

lemma finalize_canceling_moves: "free J ''cancel_order'' (cn_key k) \<Longrightarrow> moves J P s (finalize_canceling k st s)"
  by (simp add: finalize_canceling_def finalize_moves)

lemma release_canceling_moves: "free J ''cancel_order'' (cn_key k) \<Longrightarrow> moves J P s (release_canceling k s)"
  unfolding release_canceling_def by (rule moves.trans [OF finalize_canceling_moves clear_dedupe_moves])

lemma attach_canceling_moves: "moves J P s (attach_canceling k m s)"
  unfolding attach_canceling_def by (rule attach_moves)

lemma reconcile_cancel_quiet:
  assumes "reconcile_cancel env ord s = (t, out)"
  shows "quiet s t"
proof -
  obtain u r where u: "ask_exchange (\<lambda>x. sx_open_orders (pv_exchange env) x (normalize_symbol (so_symbol ord))) s = (u, r)" by force
  have later: "quiet v (fst (at_now env (\<lambda>t0. at_now env (\<lambda>t1 w.
      case ask_exchange (\<lambda>x. sx_all_orders (pv_exchange env) x symb (millis t0 - 3600 * 1000) (millis t1)) w of
                (x, Inl e) \<Rightarrow> (x, y)
              | (x, Inr recent) \<Rightarrow> (x, canceled_outcome ord recent))) v))" for v y symb
    by (intro at_now_quiet) (auto split: prod.split sum.split dest: ask_exchange_quietD)
  have "quiet u t"
  proof (cases r)
    case (Inl e)
    then show ?thesis using assms by (simp add: reconcile_cancel_def u Let_def)
  next
    case (Inr oo)
    show ?thesis
    proof (cases "list_ex (\<lambda>x. str_nat (oi_id x) = so_order_id ord) (oo_bids oo @ oo_asks oo)")
      case True
      then show ?thesis using assms Inr by (simp add: reconcile_cancel_def u Let_def del: list_ex_append)
    next
      case False
      then show ?thesis
        using later [of u "unknown_outcome (Some (so_order_id ord)) ''reconcile error''" "normalize_symbol (so_symbol ord)"] assms Inr
        by (simp add: reconcile_cancel_def u Let_def del: list_ex_append)
    qed
  qed
  then show ?thesis by (rule quiet.trans [OF ask_exchange_quietD [OF u]])
qed

lemma cancel_uncertain_moves:
  assumes "free J ''cancel_order'' (cn_key k)"
  shows "moves J P s (fst (cancel_uncertain env k n s))"
proof -
  obtain t out where t: "reconcile_cancel env (cn_order k) s = (t, out)" by force
  define u where "u = attach_canceling k (cancel_metadata (ro_status out = Rec_CONFIRMED) (Some (reconcile_text (ro_status out)))
    (Some (ro_reason out))) t"
  have u: "moves J P s u" unfolding u_def by (rule moves.trans [OF quiet_moves [OF reconcile_cancel_quiet [OF t]] attach_canceling_moves])
  have fin: "moves J P v (finalize_canceling k st v)" for st and v :: "'a spot_state"
    by (rule finalize_canceling_moves [OF assms])
  have unknown: "moves J P u (at_now env (\<lambda>now v. finalize_canceling k st (note_unknown env i r (millis now) (set_status env i w a b c v))) u)"
    for st i r w a b c
    by (rule at_now_moves_state, rule moves.trans [OF quiet_moves [OF quiet.trans [OF set_status_quiet note_unknown_quiet]] fin])
  have conf: "moves J P u (finalize_canceling k st (set_status env i w a b c u))" for st i w a b c
    by (rule moves.trans [OF quiet_moves [OF set_status_quiet] fin])
  let ?i = "so_order_id (cn_order k)"
  have "fst (cancel_uncertain env k n s) = (case ro_status out of
      Rec_UNKNOWN \<Rightarrow> at_now env (\<lambda>now v. finalize_canceling k ''UNKNOWN''
        (note_unknown env ?i (if ro_reason out = [] then ''cancel_reconcile_unknown'' else ro_reason out) (millis now)
          (set_status env ?i St_UNKNOWN None (Some True) None v))) u
    | Rec_CONFIRMED \<Rightarrow> finalize_canceling k ''COMMITTED'' (set_status env ?i (confirmed_status out) None (Some True) None u)
    | Rec_NOT_FOUND \<Rightarrow> release_canceling k u)"
    by (simp add: cancel_uncertain_def t Let_def u_def split: reconcile_status.split)
  moreover have "moves J P s (release_canceling k u)" by (rule moves.trans [OF u release_canceling_moves [OF assms]])
  ultimately show ?thesis
    using moves.trans [OF u unknown] moves.trans [OF u conf] by (simp only:) (simp split: reconcile_status.split)
qed

lemma cancel_at_exchange_moves:
  assumes "free J ''cancel_order'' (cn_key k)" "\<And>i a. P (Cancel_call i a)"
  shows "moves J P s (fst (cancel_at_exchange env k n s))"
proof -
  obtain t r where t: "wire_cancel env (so_order_id (cn_order k)) s = (t, r)" by force
  have st: "moves J P s t" using wire_cancel_moves [of P "so_order_id (cn_order k)" J s env] assms(2) t by simp
  have fine: "moves J P t (finalize_canceling k w (attach_canceling k m (set_status env i v a b c t)))" for w m i v a b c
    by (rule moves.trans [OF quiet_moves [OF set_status_quiet] moves.trans [OF attach_canceling_moves finalize_canceling_moves [OF assms(1)]]])
  show ?thesis
    using moves.trans [OF st fine] moves.trans [OF st release_canceling_moves [OF assms(1)]]
      moves.trans [OF st cancel_uncertain_moves [OF assms(1)]]
    by (auto simp: cancel_at_exchange_def Let_def t split: sum.split outcome.split)
qed

lemma cancel_reserved_moves:
  assumes "free J ''cancel_order'' key" "\<And>i a. P (Cancel_call i a)"
  shows "moves J P s (fst (cancel_reserved env c ord key n s))"
proof -
  let ?d = "cancel_action_type env @ '':'' @ key"
  obtain t r where t: "new_action env c (cancel_action_type env) (cancel_hash env (so_order_id ord)) ?d s = (t, r)" by force
  have st: "moves J P s t" by (rule new_action_moves [OF t])
  show ?thesis
  proof (cases r)
    case None
    then show ?thesis using moves.trans [OF st handle_moves [OF assms(1)]] t by (simp add: cancel_reserved_def Let_def)
  next
    case (Some i)
    let ?k = "\<lparr>cn_order = ord, cn_key = key, cn_action_id = i\<rparr>"
    have fin: "moves J P v (finalize_canceling ?k w v)" for w and v :: "'a spot_state"
      using assms(1) by (intro finalize_canceling_moves) simp
    have sim: "moves J P s (finalize_canceling ?k ''SIMULATED'' (finalize_canceling ?k ''PENDING'' t))"
      by (rule moves.trans [OF st moves.trans [OF fin fin]])
    have live: "moves J P s (fst (cancel_at_exchange env ?k n (finalize_canceling ?k ''PENDING'' t)))"
      using assms by (intro moves.trans [OF st moves.trans [OF fin cancel_at_exchange_moves]]) auto
    show ?thesis using Some t sim live by (simp add: cancel_reserved_def Let_def)
  qed
qed

text \<open>Cancellations may change every row but those \<open>J\<close> is about.\<close>

definition ignores_cancels :: "(idem_table \<Rightarrow> bool) \<Rightarrow> bool" where
  "ignores_cancels J \<longleftrightarrow> (\<forall>key. free J ''cancel_order'' key
     \<and> (\<forall>tab now h ttl b. J tab \<longrightarrow> J (fst (reserve_idempotency_key tab now ''cancel_order'' key h ttl b))))"

lemma cancel_once_moves:
  assumes "ignores_cancels J" "\<And>i a. P (Cancel_call i a)"
  shows "moves J P s (fst (cancel_order_once env c ord n s))"
  unfolding cancel_order_once_def Let_def
proof (rule sbind_moves)
  show "moves J P s (fst (reserve_key env ''cancel_order'' key h ttl b s))" for key h ttl b
    using assms(1) by (auto simp: reserve_key_def at_now_def moves_def ignores_cancels_def split: prod.split) (metis fst_conv)
next
  fix rv t
  have "moves J P t (fst (cancel_reserved env c ord key n t))" for key
    using assms by (intro cancel_reserved_moves) (auto simp: ignores_cancels_def)
  then show "moves J P t (fst (if \<not> rv_reserved rv then (t, Inr n)
      else (case cancel_reserved env c ord (''cancel:'' @ so_order_id ord) n t of (s2, n) \<Rightarrow> (s2, Inr n))))"
    by (simp split: prod.split) (metis fst_conv)
qed

lemma cancel_stale_moves:
  assumes "ignores_cancels J" "\<And>i a. P (Cancel_call i a)"
    and "\<And>tab n. J tab \<Longrightarrow> J (fst (prune_expired_idempotency_keys tab (pv_clock env n) None))"
  shows "moves J P s (fst (cancel_stale_orders env c s))"
proof -
  obtain t r where t: "ask_exchange (sx_list_open_orders (pv_exchange env)) s = (t, r)" by force
  have st: "moves J P s t" by (rule quiet_moves [OF ask_exchange_quietD [OF t]])
  have one: "moves J P u (fst (cancel_if_stale env c now x n u))" for u now x n
    unfolding cancel_if_stale_def
    by (auto intro!: sbind_moves quiet_moves [OF ensure_allowed_quiet] cancel_once_moves assms(1,2))
  have prune: "moves J P u (prune_keys env u)" for u
    using assms(3) by (auto simp: prune_keys_def at_now_def moves_def)
  have all: "moves J P u (fst (at_now env (\<lambda>now v. sfold (cancel_if_stale env c now) xs n v) (prune_keys env u)))" for u xs n
    by (rule moves.trans [OF prune]) (intro at_now_moves moves.sfold one)
  have "moves J P t (fst (sbind (submission_guarded env t) (\<lambda>guarded s1.
            if guarded then (s1, Inr 0)
            else at_now env (\<lambda>now s2. sfold (cancel_if_stale env c now) xs 0 s2) (prune_keys env s1))))" for xs
    by (rule sbind_moves [OF quiet_moves [OF guarded_quiet]]) (simp add: all)
  then show ?thesis using moves.trans [OF st] st by (simp add: cancel_stale_orders_def t split: sum.split)
qed

subsection \<open>Settled keys\<close>

text \<open>What the program does with the service, one after the other.\<close>

datatype service_op = Execute "intent_input list" "string option" | Cancel_stale string | Refresh "string list" bool

fun run_op :: "'x spot_env \<Rightarrow> service_op \<Rightarrow> 'x spot_state \<Rightarrow> 'x spot_state" where
  "run_op env (Execute inputs c) s = fst (execute_intents env inputs c s)"
| "run_op env (Cancel_stale c) s = fst (cancel_stale_orders env c s)"
| "run_op env (Refresh symbols skip) s = fst (refresh_order_lifecycle env symbols skip s)"

definition run_ops :: "'x spot_env \<Rightarrow> service_op list \<Rightarrow> 'x spot_state \<Rightarrow> 'x spot_state" where
  "run_ops env ops s = fold (run_op env) ops s"

definition has_row :: "string \<Rightarrow> idem_row \<Rightarrow> idem_table \<Rightarrow> bool" where
  "has_row k r tab \<longleftrightarrow> map_of tab (''place_order'', k) = Some r"

lemma has_row_free: "(ty, key) \<noteq> (''place_order'', k) \<Longrightarrow> free (has_row k r) ty key"
  by (auto simp: free_def has_row_def finalize_idempotency_key_def update_idempotency_recovery_def map_of_update_key)

lemma has_row_not_free:
  assumes "settled r"
  shows "\<not> free (has_row k r) ''place_order'' k"
proof
  let ?tab = "[((''place_order'', k), r)]"
  assume "free (has_row k r) ''place_order'' k"
  then have "has_row k r (finalize_idempotency_key ?tab ''place_order'' k None None None ''FAILED'')"
    by (simp add: free_def has_row_def)
  then have "ik_status r = ''FAILED''"
    by (auto simp: has_row_def finalize_idempotency_key_def map_of_update_key coalesce_def) (metis idem_row.select_convs(7) idem_row.surjective idem_row.update_convs(7))
  moreover have "str_upper ''FAILED'' = ''FAILED''" by code_simp
  ultimately show False using assms by (simp add: settled_def)
qed

lemma has_row_guards:
  assumes "settled r"
  shows "guards (has_row k r) key"
proof (cases "key = k")
  case True
  have "\<not> str_upper (ik_status r) = ''PENDING''" using assms by (auto simp: settled_def)
  then show ?thesis
    unfolding guards_def has_row_def True using reserve_settled [OF _ _ assms] reserve_key_of by metis
next
  case False
  then have "free (has_row k r) ''place_order'' key" by (simp add: has_row_free)
  moreover have "(''place_order'', k) \<noteq> (''place_order'', key)" using False by simp
  ultimately show ?thesis unfolding guards_def has_row_def using reserve_other reserve_key_of by metis
qed

lemma has_row_ignores_cancels: "ignores_cancels (has_row k r)"
proof -
  have "free (has_row k r) ''cancel_order'' key" for key by (simp add: has_row_free)
  moreover have "has_row k r (fst (reserve_idempotency_key tab now ''cancel_order'' key h ttl b))" if "has_row k r tab" for tab now key h ttl b
  proof -
    obtain tab' res where "reserve_idempotency_key tab now ''cancel_order'' key h ttl b = (tab', res)" by force
    then show ?thesis using reserve_other [of tab now "''cancel_order''" key h ttl b tab' res "(''place_order'', k)"] that
      by (simp add: has_row_def)
  qed
  ultimately show ?thesis by (simp add: ignores_cancels_def)
qed

text \<open>A call that does not submit an order under the key.\<close>

definition other_key :: "'x spot_env \<Rightarrow> service_op list \<Rightarrow> string \<Rightarrow> exchange_call \<Rightarrow> bool" where
  "other_key env ops k call \<longleftrightarrow> (\<forall>q a. call = Submit_call q a \<longrightarrow>
     (\<exists>inputs c xs i raw. Execute inputs c \<in> set ops \<and> rmap (normalize_input env c) inputs = Inr xs \<and> (i, raw) \<in> set xs
        \<and> place_idempotency_key env i raw \<noteq> k \<and> q = request_for env i (sq_price q) (sq_qty q)))"

lemma run_op_moves:
  assumes "settled r" "\<And>n. epoch_seconds (pv_clock env n) < ik_expires_at r" "op \<in> set ops"
  shows "moves (has_row k r) (other_key env ops k) s (run_op env op s)"
proof -
  have prune: "has_row k r (fst (prune_expired_idempotency_keys tab (pv_clock env n) None))" if "has_row k r tab" for tab n
    using that prune_keeps assms(2) by (simp add: has_row_def)
  show ?thesis
  proof (cases op)
    case (Execute inputs c)
    show ?thesis
    proof (cases "rmap (normalize_input env c) inputs")
      case (Inl e)
      then show ?thesis by (simp add: Execute execute_intents_def)
    next
      case (Inr xs)
      have "moves (has_row k r) (other_key env ops k) s (fst (execute_intents env inputs c s))"
      proof (rule execute_intents_moves [OF Inr has_row_guards [OF assms(1)] prune])
        fix i raw q a
        assume i: "(i, raw) \<in> set xs" "sendable env (known_balances env xs s) i q" "free (has_row k r) ''place_order'' (place_idempotency_key env i raw)"
        then have "place_idempotency_key env i raw \<noteq> k" using has_row_not_free [OF assms(1)] by metis
        moreover have "q = request_for env i (sq_price q) (sq_qty q)"
          using i(2) by (auto simp: sendable_def request_for_def)
        ultimately show "other_key env ops k (Submit_call q a)"
          using i(1) Inr assms(3) unfolding Execute other_key_def by blast
      qed
      then show ?thesis by (simp add: Execute)
    qed
  next
    case (Cancel_stale c)
    show ?thesis unfolding Cancel_stale run_op.simps
      by (rule cancel_stale_moves [OF has_row_ignores_cancels _ prune]) (simp add: other_key_def)
  next
    case (Refresh symbols skip)
    show ?thesis unfolding Refresh run_op.simps by (rule quiet_moves [OF refresh_quiet])
  qed
qed

text \<open>(C4) While a key has a settled row (its order was placed, or may have been placed) that has not expired, the row does not
  change and no order is submitted under the key, whatever sequence of executions, cancellations and refreshes runs:
  every submission belongs to an intent with another key.\<close>

theorem settled_key_not_submitted:
  assumes "map_of (ss_idem s) (''place_order'', k) = Some r" "settled r"
    and "\<forall>n. epoch_seconds (pv_clock env n) < ik_expires_at r"
  shows "map_of (ss_idem (run_ops env ops s)) (''place_order'', k) = Some r
    \<and> (\<exists>new. ss_calls (run_ops env ops s) = ss_calls s @ new \<and> (\<forall>call \<in> set new. other_key env ops k call))"
proof -
  have "moves (has_row k r) (other_key env ops k) s (fold (run_op env) xs s)" if "set xs \<subseteq> set ops" for xs
    using that
  proof (induction xs arbitrary: s)
    case (Cons x xs)
    then show ?case using moves.trans [OF run_op_moves [OF assms(2), of env x ops k s]] assms(3) by simp
  qed simp
  from this [of ops] show ?thesis using assms(1) by (simp add: run_ops_def moves_def has_row_def)
qed

end
