(* ===== verification/Spot_Unknown.thy ===== *)
theory Spot_Unknown
  imports Spot_Keys
begin

text \<open>
  What follows from a submission in the execution service of stage 3: the state of its key, and that an
  order nobody knows the fate of stops the rest of the batch.  The last part gives examples.
\<close>

subsection \<open>The key after a submission\<close>

lemma quiet_idem: "quiet s t \<Longrightarrow> ss_idem t = ss_idem s"
  by (simp add: quiet_def)

lemmas quiet_idems = store_order_quiet [THEN quiet_idem] note_unknown_quiet [THEN quiet_idem] set_status_quiet [THEN quiet_idem]
  sync_quiet [THEN quiet_idem]

lemma side_idems [simp]:
  "ss_idem (attach_metadata i cid oid m s) = ss_idem s" "ss_idem (clear_dedupe i s) = ss_idem s"
  "ss_idem (commit_state env k x s) = ss_idem s" "ss_idem (fail_state env k err s) = ss_idem s"
  by (simp_all add: attach_metadata_def clear_dedupe_def commit_state_def fail_state_def at_now_def)

definition placed_status :: "placing \<Rightarrow> string \<Rightarrow> 'x spot_state \<Rightarrow> 'x spot_state \<Rightarrow> bool" where
  "placed_status p st s t \<longleftrightarrow> (\<exists>oid. ss_idem t = ss_idem (finalize_placing p oid st s))"

lemma placed_status_left: "ss_idem s' = ss_idem s \<Longrightarrow> placed_status p st s' t = placed_status p st s t"
  by (simp add: placed_status_def finalize_placing_def finalize_key_def)

lemma finalize_placing_idem: "ss_idem (finalize_placing p oid st s) =
    finalize_idempotency_key (ss_idem s) ''place_order'' (pl_key p) (Some (pl_action_id p)) (Some (pl_cid p)) oid st"
  by (simp add: finalize_placing_def finalize_key_def)

lemma store_then:
  assumes "sbind (store_order env ord rec raw idem i s) (\<lambda>_ t. (f t, Inr x)) = (u, Inr y)"
  shows "\<exists>t. ss_idem t = ss_idem s \<and> u = f t"
proof -
  obtain t r where "store_order env ord rec raw idem i s = (t, r)" by force
  then show ?thesis using assms store_order_quiet [of s env ord rec raw idem i]
    by (auto simp: sbind_def quiet_def split: sum.splits)
qed

lemma commit_placing_status: "ss_idem (commit_placing env p oid rec st reason s) = ss_idem (finalize_placing p (Some oid) ''COMMITTED'' s)"
  by (simp add: commit_placing_def Let_def finalize_placing_idem)

lemma record_placed_status:
  assumes "record_placed env p oid s = (t, Inr u)"
  shows "placed_status p ''COMMITTED'' s t"
proof -
  let ?now = "pv_clock env (ss_ticks s)" and ?v = "s\<lparr>ss_ticks := Suc (ss_ticks s)\<rparr>"
  have "sbind (store_order env (placing_order p oid (Some (pl_cid p)) St_OPEN ?now ?now) False None (Some (pl_key p)) (pl_intent_id p) ?v)
      (\<lambda>_ w. (commit_placing env p oid False None None w, Inr ())) = (t, Inr u)"
    using assms by (simp only: record_placed_def at_now_def)
  from store_then [OF this] obtain w where "ss_idem w = ss_idem s" "t = commit_placing env p oid False None None w" by auto
  then show ?thesis unfolding placed_status_def by (auto simp: commit_placing_status finalize_placing_idem)
qed

lemma record_reconciled_status:
  assumes "record_reconciled env p oid out s = (t, Inr u)"
  shows "placed_status p ''COMMITTED'' s t"
proof -
  let ?t = "\<lambda>w. commit_placing env p oid True (Some (reconcile_text (ro_status out))) (Some (ro_reason out))
      (set_status env oid St_OPEN None (Some True) None w)"
  obtain ord v where "sbind (store_order env ord True None (Some (pl_key p)) (pl_intent_id p) v) (\<lambda>_ w. (?t w, Inr ())) = (t, Inr u)"
      and v: "ss_idem v = ss_idem s"
    using assms unfolding record_reconciled_def at_now_def by fastforce
  from store_then [OF this(1)] v obtain w where w: "ss_idem w = ss_idem s" "t = ?t w" by auto
  then have "ss_idem (set_status env oid St_OPEN None (Some True) None w) = ss_idem s" by (simp add: quiet_idems)
  then show ?thesis unfolding placed_status_def w(2) commit_placing_status by (auto simp: finalize_placing_idem)
qed

lemma record_unknown_status:
  assumes "record_unknown env p out s = (t, Inr u)"
  shows "placed_status p ''UNKNOWN'' s t" "has_unknown (ss_registry t)"
proof -
  let ?i = "''unknown:'' @ pl_cid p" and ?r = "or_unresolved (ro_reason out)"
  define s2 where "s2 = fail_state env (pl_key p) ?r (finalize_placing p None ''UNKNOWN''
     (attach_metadata (pl_action_id p) (Some (pl_cid p)) None
            (placing_metadata p False (Some (reconcile_text (ro_status out))) (Some (ro_reason out))) s))"
  have "at_now env (\<lambda>now s3.
           sbind (store_order env (placing_order p ?i (Some (pl_cid p)) St_UNKNOWN now now) True None (Some (pl_key p))
              (pl_intent_id p) s3)
             (\<lambda>_ s4. (note_unknown env ?i ?r (millis now) s4, Inr ()))) s2 = (t, Inr u)"
    using assms by (simp add: record_unknown_def Let_def s2_def)
  from store_then [OF this [unfolded at_now_def]]
  obtain v where v: "ss_idem v = ss_idem s2" "t = note_unknown env ?i ?r (millis (pv_clock env (ss_ticks s2))) v" by auto
  have "ss_idem s2 = ss_idem (finalize_placing p None ''UNKNOWN'' s)" by (simp add: s2_def finalize_placing_idem)
  then show "placed_status p ''UNKNOWN'' s t" unfolding placed_status_def v(2) using v(1) by (auto simp: quiet_idems)
  show "has_unknown (ss_registry t)"
    by (auto simp: v(2) note_unknown_def at_mono_def has_unknown_def mark_unknown_def AList.update_nonempty)
qed

lemma record_rejected_status:
  assumes "record_rejected env p e s = (t, Inr u)"
  shows "placed_status p ''FAILED'' s t"
proof -
  let ?t = "\<lambda>w. clear_dedupe (pl_action_id p) (finalize_placing p None ''FAILED'' w)"
  obtain ord v where "sbind (store_order env ord True (Some (raw_error_text env e)) (Some (pl_key p)) (pl_intent_id p) v)
      (\<lambda>_ w. (?t w, Inr ())) = (t, Inr u)" and v: "ss_idem v = ss_idem s"
    using assms unfolding record_rejected_def at_now_def by fastforce
  from store_then [OF this(1)] v obtain w where "ss_idem w = ss_idem s" "t = ?t w" by auto
  then show ?thesis unfolding placed_status_def by (auto simp: finalize_placing_idem)
qed

lemma submit_limit_idem: "spot_submit_limit_order env p s = (t, r) \<Longrightarrow> ss_idem t = ss_idem s"
proof -
  assume a: "spot_submit_limit_order env p s = (t, r)"
  obtain u x where "wire_submit env (placing_request p) (sync_unknown_registry env False s) = (u, x)" by force
  then show ?thesis using a
    by (auto simp: spot_submit_limit_order_def Let_def sbind_def quiet_idems dest!: wire_submit_calls(1)
        split: if_splits sum.splits outcome.splits)
qed

lemma then_return:
  assumes "sbind m (\<lambda>_ t. (t, Inr x)) = (t, Inr y)"
  shows "\<exists>u. m = (t, Inr u)"
  using assms by (cases m) (auto simp: sbind_def split: sum.splits)

lemma reconcile_placing_idem: "reconcile_placing env p s = (t, out) \<Longrightarrow> ss_idem t = ss_idem s"
  by (rule quiet_idem [OF reconcile_placing_quiet])

text \<open>How a submission ends, unless the program is stopped by an exception.\<close>

definition submission_ended :: "placing \<Rightarrow> bool \<Rightarrow> 'x spot_state \<Rightarrow> 'x spot_state \<Rightarrow> bool" where
  "submission_ended p refused s t \<longleftrightarrow> placed_status p ''COMMITTED'' s t
     \<or> placed_status p ''UNKNOWN'' s t \<and> has_unknown (ss_registry t)
     \<or> placed_status p ''FAILED'' s t \<and> refused"

lemma ended_left:
  assumes "ss_idem s' = ss_idem s"
  shows "submission_ended p b s' t = submission_ended p b s t"
  unfolding submission_ended_def placed_status_left [OF assms] ..

lemma placed_ended: "record_placed env p oid s = (t, Inr x) \<Longrightarrow> submission_ended p b s t"
  unfolding submission_ended_def by (rule disjI1) (rule record_placed_status)

lemma reconciled_ended: "record_reconciled env p oid out s = (t, Inr x) \<Longrightarrow> submission_ended p b s t"
  unfolding submission_ended_def by (rule disjI1) (rule record_reconciled_status)

lemma unknown_ended: "record_unknown env p out s = (t, Inr x) \<Longrightarrow> submission_ended p b s t"
  unfolding submission_ended_def by (intro disjI2 disjI1 conjI) (erule record_unknown_status)+

lemma rejected_ended: "record_rejected env p e s = (t, Inr x) \<Longrightarrow> b \<Longrightarrow> submission_ended p b s t"
  unfolding submission_ended_def by (intro disjI2 conjI) (erule record_rejected_status)

lemmas records_ended = placed_ended reconciled_ended unknown_ended rejected_ended

lemma submit_uncertain_ended:
  assumes "submit_uncertain env p m s = (t, Inr m')"
  shows "submission_ended p b s t"
proof -
  obtain u out where u: "reconcile_placing env p s = (u, out)" by force
  have "submission_ended p b u t"
  proof (cases "found_order out")
    case None
    then have "\<exists>x. record_unknown env p out u = (t, Inr x)"
      using assms u by (intro then_return [where x = "count_failed m" and y = m']) (simp add: submit_uncertain_def Let_def)
    then show ?thesis by (auto intro: records_ended)
  next
    case (Some oid)
    then have "\<exists>x. record_placed env p oid u = (t, Inr x)"
      using assms u by (intro then_return [where x = "count_placed (count_failed m)" and y = m']) (simp add: submit_uncertain_def Let_def)
    then show ?thesis by (auto intro: records_ended)
  qed
  then show ?thesis unfolding ended_left [OF reconcile_placing_idem [OF u]] .
qed

lemma submit_error_ended:
  assumes "submit_error env p e m s = (t, Inr m')"
  shows "submission_ended p (\<not> is_uncertain_error e) s t"
proof (cases "is_uncertain_error e")
  case False
  then have "\<exists>x. record_rejected env p e s = (t, Inr x)"
    using assms by (auto simp: submit_error_def Let_def dest: then_return split: if_splits)
  then show ?thesis using False by (auto intro: records_ended)
next
  case True
  obtain u out where u: "reconcile_placing env p s = (u, out)" by force
  have "submission_ended p (\<not> is_uncertain_error e) u t"
  proof (cases "found_order out")
    case None
    then have "\<exists>x. record_unknown env p out u = (t, Inr x)"
      using assms u True by (auto simp: submit_error_def Let_def dest: then_return split: if_splits)
    then show ?thesis by (auto intro: records_ended)
  next
    case (Some oid)
    then have "\<exists>x. record_reconciled env p oid out u = (t, Inr x)"
      using assms u True by (auto simp: submit_error_def Let_def dest: then_return split: if_splits)
    then show ?thesis by (auto intro: records_ended)
  qed
  then show ?thesis unfolding ended_left [OF reconcile_placing_idem [OF u]] .
qed

lemma place_live_ended:
  assumes "place_live env p m s = (t, Inr m')"
  shows "submission_ended p (\<exists>u e. spot_submit_limit_order env p s = (u, Inl e) \<and> \<not> is_uncertain_error e) s t"
proof -
  obtain u r where u: "spot_submit_limit_order env p s = (u, r)" by force
  have "submission_ended p (\<exists>u e. spot_submit_limit_order env p s = (u, Inl e) \<and> \<not> is_uncertain_error e) u t"
  proof (cases r)
    case (Inl e)
    then have "submission_ended p (\<not> is_uncertain_error e) u t"
      using assms u by (intro submit_error_ended) (auto simp: place_live_def Let_def split: if_splits)
    then show ?thesis using u Inl by (auto simp: submission_ended_def)
  next
    case (Inr out)
    show ?thesis
    proof (cases out)
      case (Done oid)
      then have "\<exists>x. record_placed env p oid u = (t, Inr x)"
        using assms u Inr by (auto simp: place_live_def Let_def dest: then_return)
      then show ?thesis by (auto intro: records_ended)
    next
      case (Uncertain e)
      then show ?thesis using assms u Inr
        by (intro submit_uncertain_ended) (simp add: place_live_def Let_def)
    qed
  qed
  then show ?thesis unfolding ended_left [OF submit_limit_idem [OF u]] .
qed

text \<open>(C19) When a submission returns, the row of its key is settled (COMMITTED, or UNKNOWN with the order registered as unknown,
  so that nothing else is submitted), or FAILED because the exchange definitely refused the order; expiry and payload
  hash are those of the reservation.\<close>

theorem submission_settles_key:
  assumes "place_live env p m s = (t, Inr m')" "map_of (ss_idem s) (''place_order'', pl_key p) = Some r0"
  shows "\<exists>r. map_of (ss_idem t) (''place_order'', pl_key p) = Some r \<and> ik_expires_at r = ik_expires_at r0
    \<and> ik_payload_hash r = ik_payload_hash r0 \<and> ik_client_order_id r = Some (pl_cid p)
    \<and> (ik_status r = ''COMMITTED'' \<or> ik_status r = ''UNKNOWN'' \<and> has_unknown (ss_registry t)
       \<or> ik_status r = ''FAILED'' \<and> (\<exists>u e. spot_submit_limit_order env p s = (u, Inl e) \<and> \<not> is_uncertain_error e))"
proof -
  have row: "\<exists>r. map_of (ss_idem t) (''place_order'', pl_key p) = Some r \<and> ik_expires_at r = ik_expires_at r0
      \<and> ik_payload_hash r = ik_payload_hash r0 \<and> ik_client_order_id r = Some (pl_cid p) \<and> ik_status r = st"
    if "placed_status p st s t" for st
    using that assms(2)
    by (auto simp: placed_status_def finalize_placing_idem finalize_idempotency_key_def map_of_update_key coalesce_def)
  show ?thesis
    using place_live_ended [OF assms(1)] row unfolding submission_ended_def by blast
qed

subsection \<open>An unknown order stops the batch\<close>

text \<open>An order that the registry holds as unknown.\<close>

definition held_unknown :: "unknown_registry \<Rightarrow> string \<Rightarrow> bool" where
  "held_unknown g order_id \<longleftrightarrow> order_id \<in> fst ` set (ug_records g)"

lemma has_unknown_held: "has_unknown g \<longleftrightarrow> (\<exists>x. held_unknown g x)"
  unfolding has_unknown_def held_unknown_def by (cases "ug_records g") auto

definition frozen :: "'x spot_state \<Rightarrow> 'x spot_state \<Rightarrow> bool" where
  "frozen s t \<longleftrightarrow> (has_unknown (ss_registry s) \<longrightarrow> (\<forall>x. held_unknown (ss_registry s) x \<longrightarrow> held_unknown (ss_registry t) x)
     \<and> ss_calls t = ss_calls s)"

lemma frozen_has_unknown: "frozen s t \<Longrightarrow> has_unknown (ss_registry s) \<Longrightarrow> has_unknown (ss_registry t)"
  unfolding frozen_def has_unknown_held by blast

interpretation frozen: step_order frozen
  by unfold_locales (auto simp: frozen_def has_unknown_held)

lemma frozen_same: "ss_registry t = ss_registry s \<Longrightarrow> ss_calls t = ss_calls s \<Longrightarrow> frozen s t"
  by (simp add: frozen_def)

lemma frozen_self [simp]: "frozen s s"
  by (rule frozen.refl)

lemma by_order_id_keeps: "x \<in> fst ` set d \<Longrightarrow> x \<in> fst ` set (by_order_id recs d)"
  unfolding by_order_id_def by (induction recs arbitrary: d) (simp_all add: dom_update)

lemma sync_keeps_unknown: "held_unknown g x \<Longrightarrow> held_unknown (sync_snapshot g tm recs False) x"
  by (simp add: held_unknown_def sync_snapshot_def Let_def by_order_id_keeps)

lemma sync_frozen: "frozen s (sync_unknown_registry env False s)"
  by (simp add: frozen_def sync_unknown_registry_def at_now_def at_mono_def sync_keeps_unknown)

lemma blocked_submission:
  assumes "has_unknown (ss_registry s)"
  shows "spot_submit_limit_order env p s = (sync_unknown_registry env False s, Inl submit_blocked)"
  using frozen_has_unknown [OF sync_frozen assms, of env] by (simp add: spot_submit_limit_order_def Let_def)

lemma place_live_frozen: "frozen s (fst (place_live env p m s))"
proof (cases "has_unknown (ss_registry s)")
  case True
  then show ?thesis using sync_frozen [of s env] by (simp add: place_live_def Let_def blocked_submission submit_blocked_def)
qed (simp add: frozen_def)

lemma key_steps_frozen:
  "frozen s (finalize_key ty k i cid oid st s)" "frozen s (attach_metadata a c d md s)"
  "frozen s (set_recovery key n t stt s)"
  by (simp_all add: finalize_key_def attach_metadata_def set_recovery_def frozen_same)

lemma ask_exchange_frozen: "frozen s (fst (ask_exchange f s))"
  by (simp add: ask_exchange_def frozen_same split: prod.split)

lemma at_now_frozen: "(\<And>tm t. frozen t (f tm t)) \<Longrightarrow> frozen s (at_now env f s)"
  using frozen.trans [OF frozen_same [of "s\<lparr>ss_ticks := Suc (ss_ticks s)\<rparr>" s]] by (simp add: at_now_def)

lemma at_now_frozen_comp: "(\<And>tm t. frozen t (fst (f tm t))) \<Longrightarrow> frozen s (fst (at_now env f s))"
  using frozen.trans [OF frozen_same [of "s\<lparr>ss_ticks := Suc (ss_ticks s)\<rparr>" s]] by (simp add: at_now_def)

lemma duplicate_frozen: "frozen s (duplicate_intent env i rv s)"
proof -
  have look: "frozen t (fst (recovery_lookup env symb cid t))" for symb cid and t :: "'a spot_state"
    unfolding recovery_lookup_def
    by (intro frozen.sbind ask_exchange_frozen) (auto split: option.split intro!: at_now_frozen_comp frozen.sbind ask_exchange_frozen)
  have "frozen t (recover_stale_pending env i rv cid t)" for cid and t :: "'a spot_state"
    unfolding recover_stale_pending_def Let_def
  proof (intro at_now_frozen)
    fix now and u :: "'a spot_state"
    obtain v r where v: "recovery_lookup env (normalize_symbol (pi_symbol i)) cid u = (v, r)" by force
    have "frozen u v" using look [of u "normalize_symbol (pi_symbol i)" cid] v by simp
    moreover have "frozen v (set_recovery k n t st (finalize_key ty k' a c oid w v))" for k n t st ty k' a c oid w
      by (rule frozen.trans [OF key_steps_frozen(1) key_steps_frozen(3)])
    moreover have "frozen v (recovery_failed cfg n rv v)" for cfg n
      unfolding recovery_failed_def Let_def by (rule key_steps_frozen)
    ultimately show "frozen u (if case ik_next_recovery_at (rv_row rv) of None \<Rightarrow> False | Some t \<Rightarrow> epoch_seconds now < t then u
          else case recovery_lookup env (normalize_symbol (pi_symbol i)) cid u of
            (s', Inl e) \<Rightarrow> recovery_failed (pv_config env) (epoch_seconds now) rv s'
          | (s', Inr None) \<Rightarrow> set_recovery (rv_key rv) 0 None None
              (finalize_key ''place_order'' (rv_key rv) (ik_action_id (rv_row rv)) (ik_client_order_id (rv_row rv)) None ''FAILED'' s')
          | (s', Inr (Some x)) \<Rightarrow> set_recovery (rv_key rv) 0 None None
              (finalize_key ''place_order'' (rv_key rv) (ik_action_id (rv_row rv)) (ik_client_order_id (rv_row rv)) (Some (os_order_id x))
                ''COMMITTED'' s'))"
      unfolding v by (auto split: sum.split option.split intro: frozen.trans)
  qed
  then show ?thesis unfolding duplicate_intent_def Let_def by (intro at_now_frozen) (auto split: option.split)
qed

lemma place_reserved_frozen: "frozen s (fst (place_reserved env i raw sized key m s))"
proof -
  let ?s1 = "finalize_key ''place_order'' key None (Some (make_client_order_id env i)) None ''PENDING'' s"
  obtain t r where t: "new_action env (pi_cycle_id i) (place_action_type env) (place_hash env i) (place_action_type env @ '':'' @ key) ?s1 = (t, r)"
    by force
  have "frozen ?s1 t" using t by (auto simp: new_action_def at_now_def frozen_def split: prod.splits)
  then have st: "frozen s t" by (rule frozen.trans [OF key_steps_frozen(1)])
  have handle: "frozen t (handle_reservation_without_new_action a b c d t)" for a b c d
    by (auto simp: handle_reservation_without_new_action_def key_steps_frozen split: option.split)
  have sim: "frozen t (fst (place_simulated p m (finalize_placing p None st t)))" for p st
    unfolding place_simulated_def fst_conv finalize_placing_def
    by (rule frozen.trans [OF frozen.trans [OF key_steps_frozen(1) key_steps_frozen(2)] key_steps_frozen(1)])
  have live: "frozen t (fst (place_live env p m (finalize_placing p None st t)))" for p st
    unfolding finalize_placing_def by (rule frozen.trans [OF key_steps_frozen(1) place_live_frozen])
  have eq: "fst (place_reserved env i raw (p, q, n) key m s) = (case r of
      None \<Rightarrow> handle_reservation_without_new_action (place_action_type env) ''place_order'' key (place_action_type env @ '':'' @ key) t
    | Some action_id \<Rightarrow>
        let pl = \<lparr>pl_intent = i, pl_intent_id = map_option it_intent_id raw, pl_symbol = normalize_symbol (pi_symbol i),
                   pl_price = p, pl_quantity = q, pl_notional = n, pl_key = key, pl_cid = make_client_order_id env i,
                   pl_action_id = action_id\<rparr>
        in if sc_dry_run (pv_config env) then fst (place_simulated pl m (finalize_placing pl None ''PENDING'' t))
           else fst (place_live env pl m (finalize_placing pl None ''PENDING'' t)))" for p q n
    using t by (simp add: place_reserved_def Let_def split: prod.split option.split)
  obtain p q n where "sized = (p, q, n)" by (metis prod.exhaust)
  then show ?thesis unfolding eq Let_def \<open>sized = (p, q, n)\<close>
    by (auto split: option.split intro: frozen.trans [OF st handle] frozen.trans [OF st sim] frozen.trans [OF st live])
qed

lemma execute_intent_frozen: "frozen s (fst (execute_intent env b x m s))"
proof -
  obtain i raw where x: "x = (i, raw)" by force
  have res: "frozen t (fst (reserve_key env ty k h ttl p t))" for ty k h ttl p and t :: "'a spot_state"
    unfolding reserve_key_def by (intro at_now_frozen_comp) (simp add: frozen_same split: prod.split)
  have place: "frozen t (fst (reserve_and_place env i raw z m t))" for z and t :: "'a spot_state"
    unfolding reserve_and_place_def Let_def
    by (intro frozen.sbind res) (simp add: duplicate_frozen place_reserved_frozen)
  have allow: "frozen s (fst (ensure_live_side_effects_allowed env s))"
    by (simp add: ensure_live_side_effects_allowed_def Let_def)
  show ?thesis
    unfolding x execute_intent_def Let_def prod.case
    by (intro frozen.sbind) (auto simp: allow place split: sum.split sized_or_refused.split)
qed

text \<open>(C5) Once an order is registered as unknown, the rest of a batch sends nothing: no further intent is submitted and that
  order and every other one the registry holds stay in it, whatever the intents, the store and the exchange are.\<close>

theorem unknown_order_stops_batch:
  assumes "map_of (ug_records (ss_registry s)) order_id = Some record" "sfold (execute_intent env b) xs m s = (t, r)"
  shows "ss_calls t = ss_calls s
    \<and> (\<forall>x \<in> insert order_id (fst ` set (ug_records (ss_registry s))). \<exists>later. map_of (ug_records (ss_registry t)) x = Some later)"
proof -
  have held: "held_unknown g x \<longleftrightarrow> (\<exists>later. map_of (ug_records g) x = Some later)" for g x
    unfolding held_unknown_def by (metis map_of_eq_None_iff not_Some_eq)
  have "frozen s (fst (sfold (execute_intent env b) xs m s))" by (rule frozen.sfold) (rule execute_intent_frozen)
  moreover have "held_unknown (ss_registry s) order_id" using assms(1) held by blast
  ultimately have "ss_calls t = ss_calls s" "\<forall>x. held_unknown (ss_registry s) x \<longrightarrow> held_unknown (ss_registry t) x"
    using assms(2) unfolding frozen_def has_unknown_held by auto
  then show ?thesis using \<open>held_unknown (ss_registry s) order_id\<close> unfolding held [symmetric] held_unknown_def by blast
qed

subsection \<open>A key that recovery has given up\<close>

text \<open>
  Recovery marks a pending key FAILED for retry, but leaves the dedupe key of its action.  The retry then finds
  the action recorded and marks the key COMMITTED: the order is never sent.
\<close>

lemma dedupe_row: "get_action_by_dedupe_key rows d = Some a \<Longrightarrow> list_ex (\<lambda>r. ac_dedupe_key r = Some d) rows"
proof -
  assume "get_action_by_dedupe_key rows d = Some a"
  moreover have "find P xs = Some x \<Longrightarrow> P x \<and> x \<in> set xs" for P x and xs :: "action_row list"
    by (induction xs) (auto split: if_splits)
  ultimately have "ac_dedupe_key a = Some d" "a \<in> set (rev (sort_key ac_id rows))"
    unfolding get_action_by_dedupe_key_def by blast+
  then show ?thesis by (auto simp: list_ex_iff)
qed

lemma given_up_key_commits:
  assumes "map_of (ss_idem s) (''place_order'', key) = Some r" "ik_status r = ''FAILED''" "ik_payload_hash r = place_hash env i"
    and "key = place_idempotency_key env i raw" "\<not> sc_dry_run (pv_config env)"
    and "get_action_by_dedupe_key (ss_actions s) (''place_order:'' @ key) = Some a"
    and "reserve_and_place env i raw sized m s = (t, res)"
  shows "ss_calls t = ss_calls s \<and> (\<exists>r'. map_of (ss_idem t) (''place_order'', key) = Some r' \<and> ik_status r' = ''COMMITTED'')"
proof -
  have up: "str_upper ''FAILED'' = ''FAILED''" by code_simp
  have stale: "fail_stale n r = r" for n by (rule fail_stale_other) (simp add: assms(2) up)
  obtain tab rv where res: "reserve_key env ''place_order'' key (place_hash env i) PLACE_ORDER_IDEMPOTENCY_TTL_SECONDS True s
      = (s\<lparr>ss_ticks := Suc (ss_ticks s), ss_idem := tab\<rparr>, Inr rv)" "rv_reserved rv" "map_of tab (''place_order'', key) \<noteq> None"
    using assms(1,2,3) up by (auto simp: reserve_key_def at_now_def reserve_idempotency_key_def Let_def stale)
  obtain p q n where z: "sized = (p, q, n)" by (metis prod.exhaust)
  have t: "t = fst (place_reserved env i raw (p, q, n) key m (s\<lparr>ss_ticks := Suc (ss_ticks s), ss_idem := tab\<rparr>))"
    using assms(4,5,7) res z by (simp add: reserve_and_place_def Let_def sbind_def)
  have live: "place_action_type env = ''place_order''" using assms(5) by (simp add: place_action_type_def)
  have known: "list_ex (\<lambda>r. ac_dedupe_key r = Some (''place_order:'' @ key)) (ss_actions s)" using assms(6) by (rule dedupe_row)
  have "\<not> starts_with ''place_order'' ''would_''" by code_simp
  then show ?thesis
    using res(3) assms(6) known
    by (auto simp: t place_reserved_def live Let_def new_action_def at_now_def record_action_def finalize_key_def
        handle_reservation_without_new_action_def finalize_idempotency_key_def map_of_update_key)
qed

subsection \<open>Examples\<close>

text \<open>A live service; the exchange acknowledges the first submission and times out on the later ones.\<close>

definition demo_spot_client :: "nat exchange_client" where
  "demo_spot_client = \<lparr>ex_submit = (\<lambda>n q. (Suc n, if n = 0 then Inr ''77'' else Inl (ExchangeExn HttpTimeout))),
     ex_cancel = (\<lambda>n i. (n, Inr True)), ex_open_orders = (\<lambda>n symb. (n, Inr []))\<rparr>"

definition demo_spot_exchange :: "nat spot_exchange" where
  "demo_spot_exchange = \<lparr>sx_client = demo_spot_client, sx_open_orders = (\<lambda>n symb. (n, Inr \<lparr>oo_bids = [], oo_asks = []\<rparr>)),
     sx_all_orders = (\<lambda>n symb a b. (n, Inr [])), sx_list_open_orders = (\<lambda>n. (n, Inr [])),
     sx_balances = (\<lambda>n. (n, Inr [(''TRY'', 1000)])), sx_health = (\<lambda>n. (n, Inr (False, False)))\<rparr>"

definition demo_spot_config :: spot_config where
  "demo_spot_config = configured \<lparr>sc_dry_run = False, sc_ttl_seconds = 120, sc_live_trading_enabled = True, sc_live_trading_ack = True,
     sc_reprobe_initial_seconds = 30, sc_reprobe_max_seconds = 900, sc_reprobe_escalation_attempts = 8,
     sc_reprobe_force_observe_only = False, sc_reprobe_force_kill_switch = False, sc_process_role = Some ''live'',
     sc_reprobe_max_lookback_seconds = 86400, sc_recovery_max_attempts = 3, sc_recovery_backoff_seconds = 30,
     sc_pending_grace_seconds = 60, sc_wrapper = default_wrapper, sc_sell_requires_inventory = True, sc_quote_override = None,
     sc_estimated_fee_bps = 15, sc_safety_buffer_ratio = 0, sc_sell_fee_in_base_bps = 0, sc_allow_min_notional_upgrade = False,
     sc_fallback_min_notional = 10\<rparr>"

definition demo_spot_env :: "nat spot_env" where
  "demo_spot_env = \<lparr>pv_config = demo_spot_config, pv_exchange = demo_spot_exchange, pv_market_rules = None,
     pv_retry_after = (\<lambda>e. None), pv_rand = (\<lambda>n. 0), pv_clock = (\<lambda>n. int n), pv_mono = (\<lambda>n. int n), pv_sha256 = (\<lambda>t. t),
     pv_format8 = (\<lambda>d. ''d''), pv_format = (\<lambda>d. ''d''), pv_through_float = (\<lambda>d. d), pv_error_text = (\<lambda>e. ''error''),
     pv_trading_blocked_by_policy = False\<rparr>"

definition demo_spot_state :: "idem_table \<Rightarrow> unknown_registry \<Rightarrow> nat spot_state" where
  "demo_spot_state keys registry =
     \<lparr>ss_idem = keys, ss_actions = [], ss_idem_states = [], ss_orders = [], ss_op = [], ss_registry = registry,
      ss_safe_mode = False, ss_kill_switch = False, ss_last_refresh = [], ss_backoff_until = 0, ss_refreshed_cycles = [],
      ss_refreshed_order = [], ss_balance_cache = [], ss_balance_order = [], ss_refresh_summary = None, ss_execute_summary = None,
      ss_exchange = 0, ss_calls = [], ss_ticks = 0\<rparr>"

definition demo_place :: place_intent where
  "demo_place = \<lparr>pi_symbol = ''BTC_TRY'', pi_side = Side_BUY, pi_price = 100, pi_quantity = 2, pi_notional = 200,
     pi_cycle_id = ''c1'', pi_strategy_id = ''default'', pi_intent_salt = []\<rparr>"

definition demo_spot_request :: submit_request where
  "demo_spot_request = request_for demo_spot_env demo_place 100 2"

lemma demo_spot_run:
  "ss_calls (fst (execute_intents demo_spot_env [Order_input demo_place] None (demo_spot_state [] UnknownOrderRegistry)))
   = [Submit_call demo_spot_request (Inr ''77'')]"
  by code_simp

theorem spot_submissions_gated_witness:
  "armed demo_spot_env \<and> (10::rat) \<le> dmul (sq_price demo_spot_request) (sq_qty demo_spot_request)"
proof -
  let ?s = "demo_spot_state [] UnknownOrderRegistry"
  obtain s' res where run: "execute_intents demo_spot_env [Order_input demo_place] None ?s = (s', res)" by force
  have "Submit_call demo_spot_request (Inr ''77'') \<in> set (drop (length (ss_calls ?s)) (ss_calls s'))"
    using demo_spot_run by (simp add: run) (simp add: demo_spot_state_def)
  from spot_submissions_gated [OF run this]
  obtain rules where r: "armed demo_spot_env"
      "symbol_rules_for_execution demo_spot_env (normalize_symbol (pi_symbol demo_place)) = Inr rules"
      "let least = dec_or (sr_min_total rules) (sc_fallback_min_notional (pv_config demo_spot_env)) in
         0 < least \<longrightarrow> least \<le> dmul (sq_price demo_spot_request) (sq_qty demo_spot_request)"
    by (auto simp: normalize_input_def)
  have "dec_or (sr_min_total rules) (sc_fallback_min_notional (pv_config demo_spot_env)) = 10"
    using r(2) by (auto simp: symbol_rules_for_execution_def demo_spot_env_def demo_spot_config_def configured_def Let_def dec_or_def)
  then show ?thesis using r(1,3) by (simp add: Let_def)
qed

definition demo_settled :: idem_row where
  "demo_settled = (pending_row ''h'' 0 600000)\<lparr>ik_status := ''COMMITTED'', ik_order_id := Some ''77''\<rparr>"

definition demo_key :: string where
  "demo_key = place_idempotency_key demo_spot_env demo_place None"

text \<open>The clock of this service stands still at the beginning of the epoch.\<close>

definition demo_still_env :: "nat spot_env" where
  "demo_still_env = demo_spot_env\<lparr>pv_clock := (\<lambda>n. 0)\<rparr>"

theorem settled_key_not_submitted_witness:
  "map_of (ss_idem (run_ops demo_still_env [Execute [Order_input demo_place] None, Cancel_stale ''c2'', Refresh [''BTC_TRY''] False]
     (demo_spot_state [((''place_order'', demo_key), demo_settled)] UnknownOrderRegistry))) (''place_order'', demo_key) = Some demo_settled"
proof -
  let ?s = "demo_spot_state [((''place_order'', demo_key), demo_settled)] UnknownOrderRegistry"
  have row: "map_of (ss_idem ?s) (''place_order'', demo_key) = Some demo_settled" by (simp add: demo_spot_state_def)
  have "str_upper ''COMMITTED'' = ''COMMITTED''" by code_simp
  then have set: "settled demo_settled" by (simp add: settled_def demo_settled_def)
  have "\<forall>n. epoch_seconds (pv_clock demo_still_env n) < ik_expires_at demo_settled"
    by (simp add: demo_still_env_def demo_settled_def pending_row_def epoch_seconds_def)
  from settled_key_not_submitted [OF row set this] show ?thesis by blast
qed

definition demo_placing :: placing where
  "demo_placing = \<lparr>pl_intent = demo_place, pl_intent_id = None, pl_symbol = ''BTCTRY'', pl_price = 100, pl_quantity = 2,
     pl_notional = 200, pl_key = ''k'', pl_cid = ''cid'', pl_action_id = 1\<rparr>"

lemma demo_place_live:
  "map_sum (\<lambda>e. ()) xs_orders_submitted
     (snd (place_live demo_spot_env demo_placing empty_summary (demo_spot_state [((''place_order'', ''k''), pending_row ''h'' 0 9)] UnknownOrderRegistry)))
   = Inr 1"
  by code_simp

theorem submission_settles_key_witness:
  "\<exists>r. map_of (ss_idem (fst (place_live demo_spot_env demo_placing empty_summary
       (demo_spot_state [((''place_order'', ''k''), pending_row ''h'' 0 9)] UnknownOrderRegistry)))) (''place_order'', ''k'') = Some r
     \<and> ik_expires_at r = 9 \<and> ik_client_order_id r = Some ''cid''"
proof -
  let ?s = "demo_spot_state [((''place_order'', ''k''), pending_row ''h'' 0 9)] UnknownOrderRegistry"
  obtain t res where run: "place_live demo_spot_env demo_placing empty_summary ?s = (t, res)" by force
  then obtain m' where ok: "place_live demo_spot_env demo_placing empty_summary ?s = (t, Inr m')"
    using demo_place_live by (cases res) simp_all
  have "map_of (ss_idem ?s) (''place_order'', pl_key demo_placing) = Some (pending_row ''h'' 0 9)"
    by (simp add: demo_spot_state_def demo_placing_def)
  from submission_settles_key [OF ok this] show ?thesis
    using ok by (auto simp: demo_placing_def pending_row_def)
qed

definition demo_unknown :: unknown_registry where
  "demo_unknown = mark_unknown UnknownOrderRegistry 0 ''unknown:x'' ''timeout'' 1"

theorem unknown_order_stops_batch_witness:
  "ss_calls (fst (sfold (execute_intent demo_spot_env None) [(demo_place, None), (demo_place, None)] empty_summary
     (demo_spot_state [] demo_unknown))) = []"
proof -
  let ?s = "demo_spot_state [] demo_unknown"
  obtain t r where run: "sfold (execute_intent demo_spot_env None) [(demo_place, None), (demo_place, None)] empty_summary ?s = (t, r)"
    by (rule prod.exhaust)
  have "map_of (ug_records (ss_registry ?s)) ''unknown:x'' = Some \<lparr>ur_order_id = ''unknown:x'', ur_reason = ''timeout'', ur_ts_ms = 1\<rparr>"
    by (simp add: demo_spot_state_def demo_unknown_def mark_unknown_def UnknownOrderRegistry_def)
  then have "ss_calls t = ss_calls ?s" using unknown_order_stops_batch [OF _ run] by blast
  also have "\<dots> = []" by (simp add: demo_spot_state_def)
  finally show ?thesis unfolding run by simp
qed

end
