(* ===== verification/Spot_Risk.thy ===== *)
theory Spot_Risk
  imports Spot_Execution
begin

text \<open>
  The risk layer of stage 3: the rules provider \<open>src/src/btcbot/risk/exchange_rules.py\<close>, the policy
  \<open>risk/policy.py\<close>, the service \<open>services/risk_service.py\<close> with the table of intents
  (\<open>services/state_store.py\<close>), and the account snapshot \<open>services/cycle_account_snapshot.py\<close>.

  The policy sees the intents of a cycle one after the other and keeps the notional it has approved.
  The theorem says what an approved intent has passed and that the cycle cap holds; the lemmas at the
  end evaluate two gaps the code has.
\<close>

subsection \<open>Definitions: the rules provider\<close>

record s3_rules =
  s3r_min_notional :: dec
  s3r_price_tick :: dec
  s3r_qty_step :: dec

record rules_provider =
  xp_symbol_rules :: "string \<Rightarrow> symbol_rules result"
  xp_cache_ttl_seconds :: int
  xp_allow_default_fallback :: bool

type_synonym s3_cache = "(string, instant \<times> s3_rules) dict"

definition provider_rules :: "symbol_rules \<Rightarrow> s3_rules" where
  "provider_rules r =
     \<lparr>s3r_min_notional = dec_or (sr_min_total r) 10, s3r_price_tick = dec_or (sr_tick_size r) (1 / 100),
      s3r_qty_step = dec_or (sr_step_size r) (1 / 10 ^ 8)\<rparr>"

definition default_rules :: s3_rules where
  "default_rules = \<lparr>s3r_min_notional = 10, s3r_price_tick = 1 / 100, s3r_qty_step = 1 / 10 ^ 8\<rparr>"

definition get_s3_rules :: "rules_provider \<Rightarrow> instant \<Rightarrow> string \<Rightarrow> s3_cache \<Rightarrow> s3_cache \<times> s3_rules result" where
  "get_s3_rules pr now symb cache =
     (let normalized = canonical_symbol symb;
          fetched =
            (case xp_symbol_rules pr symb of
               Inr r \<Rightarrow> (AList.update normalized (now, provider_rules r) cache, Inr (provider_rules r))
             | Inl e \<Rightarrow>
                 if \<not> xp_allow_default_fallback pr
                 then (cache, Inl (ExchangeRulesUnavailableError (''exchange_rules_missing_fail_closed:'' @ normalized)))
                 else (AList.update normalized (now, default_rules) cache, Inr default_rules))
      in case map_of cache normalized of
           Some (fetched_at, rules) \<Rightarrow>
             if now - fetched_at < xp_cache_ttl_seconds pr * 1000000 then (cache, Inr rules) else fetched
         | None \<Rightarrow> fetched)"

subsection \<open>Definitions: the policy\<close>

datatype s3_reason =
    Block_max_open_orders_per_symbol
  | Block_cooldown
  | Block_missing_limit_price
  | Block_min_notional
  | Block_non_positive_after_quantize
  | Block_notional_cap
  | Block_cash_reserve_target
  | Block_max_notional_cap_non_positive
  | Block_rules_unavailable

text \<open>The fields of an event that only repeat the context and the configuration are left out.\<close>

record block_event =
  be_intent_id :: string
  be_symbol :: string
  be_reason :: s3_reason
  be_cycle_id :: string
  be_intent_notional :: "dec option"
  be_used_notional :: "dec option"

record s3_policy =
  s3_max_orders_per_cycle :: int
  s3_max_open_orders_per_symbol :: int
  s3_cooldown_seconds :: int
  s3_notional_cap_per_cycle :: dec
  s3_max_notional_per_order :: dec

record s3_context =
  rc_cycle_id :: string
  rc_open_orders :: "(string, nat) dict"
  rc_last_intent_ts :: "(string \<times> string, instant) dict"
  rc_mark_prices :: "(string, dec) dict"
  rc_open_order_identifiers :: "(string, string list) dict"
  rc_cash_try_free :: dec
  rc_try_cash_target :: dec
  rc_investable_try :: dec

record s3_env =
  ze_policy :: s3_policy
  ze_provider :: rules_provider
  ze_clock :: "nat \<Rightarrow> instant"

record intent_row =
  in_intent_id :: string
  in_symbol :: string
  in_side :: string
  in_idempotency_key :: string
  in_created_at :: instant

record s3_state =
  zs_cache :: s3_cache
  zs_blocked :: "block_event list"
  zs_orders :: spot_table
  zs_intents :: "intent_row list"
  zs_ticks :: nat

type_synonym 'a s3 = "(s3_state, 'a) comp"

definition risk_now :: "s3_env \<Rightarrow> (instant \<Rightarrow> s3_state \<Rightarrow> 'b) \<Rightarrow> s3_state \<Rightarrow> 'b" where
  "risk_now env f s = f (ze_clock env (zs_ticks s)) (s\<lparr>zs_ticks := Suc (zs_ticks s)\<rparr>)"

definition log_block :: "s3_context \<Rightarrow> stage3_intent \<Rightarrow> s3_reason \<Rightarrow> dec option \<Rightarrow> dec option \<Rightarrow> s3_state \<Rightarrow> s3_state" where
  "log_block ctx i reason notional used s =
     s\<lparr>zs_blocked := zs_blocked s @ [\<lparr>be_intent_id = it_intent_id i, be_symbol = normalize_symbol (it_symbol i),
       be_reason = reason, be_cycle_id = rc_cycle_id ctx, be_intent_notional = notional, be_used_notional = used\<rparr>]\<rparr>"

definition rounding_policy :: "s3_rules \<Rightarrow> money_policy" where
  "rounding_policy r = DEFAULT_MONEY_POLICY\<lparr>mp_price_tick := s3r_price_tick r, mp_qty_step := s3r_qty_step r\<rparr>"

fun is_rules_unavailable :: "py_error \<Rightarrow> bool" where
  "is_rules_unavailable (ExchangeRulesUnavailableError _) = True"
| "is_rules_unavailable _ = False"

definition provider_call :: "s3_env \<Rightarrow> string \<Rightarrow> s3_rules s3" where
  "provider_call env symb =
     risk_now env (\<lambda>now s. case get_s3_rules (ze_provider env) now symb (zs_cache s) of
       (cache, r) \<Rightarrow> (s\<lparr>zs_cache := cache\<rparr>, r))"

definition quantized_intent :: "s3_context \<Rightarrow> stage3_intent \<Rightarrow> dec \<Rightarrow> s3_rules \<Rightarrow> (stage3_intent \<times> s3_rules) option s3" where
  "quantized_intent ctx i price rules s =
     (let policy = rounding_policy rules; q_price = round_price price policy; q_qty = round_qty (it_qty i) policy in
      if q_price \<le> 0 \<or> q_qty \<le> 0 then (log_block ctx i Block_non_positive_after_quantize None None s, Inr None)
      else if dmul q_price q_qty < s3r_min_notional rules then (log_block ctx i Block_min_notional None None s, Inr None)
      else (s, Inr (Some (i\<lparr>it_qty := q_qty, it_limit_price := Some q_price\<rparr>, rules))))"

definition normalize_intent :: "s3_env \<Rightarrow> s3_context \<Rightarrow> stage3_intent \<Rightarrow> (stage3_intent \<times> s3_rules) option s3" where
  "normalize_intent env ctx i s =
     (case it_limit_price i of
        None \<Rightarrow> (s, Inr (Some (i, \<lparr>s3r_min_notional = 0, s3r_price_tick = 0, s3r_qty_step = 1 / 10 ^ 8\<rparr>)))
      | Some price \<Rightarrow>
          (case provider_call env (it_symbol i) s of
             (s', Inl e) \<Rightarrow>
               if is_rules_unavailable e then (log_block ctx i Block_rules_unavailable None None s', Inr None) else (s', Inl e)
           | (s', Inr rules) \<Rightarrow> quantized_intent ctx i price rules s'))"

type_synonym approvals = "stage3_intent list \<times> dec"

definition approve_within_cap :: "s3_env \<Rightarrow> s3_context \<Rightarrow> stage3_intent \<Rightarrow> dec \<Rightarrow> approvals \<Rightarrow> approvals s3" where
  "approve_within_cap env ctx i notional acc s =
     (let (approved, used) = acc in
      if s3_notional_cap_per_cycle (ze_policy env) < dadd used notional
      then (log_block ctx i Block_notional_cap (Some notional) (Some used) s, Inr acc)
      else (s, Inr (approved @ [i], dadd used notional)))"

definition size_approved ::
  "s3_env \<Rightarrow> s3_context \<Rightarrow> stage3_intent \<Rightarrow> s3_rules \<Rightarrow> dec \<Rightarrow> approvals \<Rightarrow> approvals s3" where
  "size_approved env ctx i rules price acc s =
     (let notional = dmul (it_qty i) price; used = snd acc; cap = s3_max_notional_per_order (ze_policy env) in
      if it_side i = Side_BUY \<and> 0 < rc_investable_try ctx \<and> rc_investable_try ctx < dadd used notional
      then (log_block ctx i Block_cash_reserve_target (Some notional) (Some used) s, Inr acc)
      else if 0 < cap \<and> cap < notional then
        let capped_qty = round_qty (ddiv cap price) (rounding_policy rules) in
        if capped_qty \<le> 0 then (log_block ctx i Block_max_notional_cap_non_positive (Some notional) None s, Inr acc)
        else approve_within_cap env ctx (i\<lparr>it_qty := capped_qty\<rparr>) (dmul capped_qty price) acc s
      else approve_within_cap env ctx i notional acc s)"

definition evaluate_normalized :: "s3_env \<Rightarrow> s3_context \<Rightarrow> stage3_intent \<Rightarrow> approvals \<Rightarrow> approvals s3" where
  "evaluate_normalized env ctx i acc s =
     sbind (normalize_intent env ctx i s) (\<lambda>found s'.
       case found of
         None \<Rightarrow> (s', Inr acc)
       | Some (normalized, rules) \<Rightarrow>
           (case it_limit_price normalized of
              None \<Rightarrow> (log_block ctx i Block_missing_limit_price None None s', Inr acc)
            | Some price \<Rightarrow> size_approved env ctx normalized rules price acc s'))"

definition evaluate_intent :: "s3_env \<Rightarrow> s3_context \<Rightarrow> stage3_intent \<Rightarrow> approvals \<Rightarrow> approvals s3" where
  "evaluate_intent env ctx i acc s =
     (let symb = normalize_symbol (it_symbol i); pol = ze_policy env in
      if s3_max_open_orders_per_symbol pol \<le> int (dict_get (rc_open_orders ctx) symb 0)
      then (log_block ctx i Block_max_open_orders_per_symbol None None s, Inr acc)
      else case map_of (rc_last_intent_ts ctx) (symb, side_text (it_side i)) of
        None \<Rightarrow> evaluate_normalized env ctx i acc s
      | Some last_ts \<Rightarrow>
          risk_now env (\<lambda>now s'.
            if now - last_ts < s3_cooldown_seconds pol * 1000000
            then (log_block ctx i Block_cooldown None None s', Inr acc)
            else evaluate_normalized env ctx i acc s') s)"

text \<open>\<open>xs[:n]\<close>: a negative \<open>n\<close> drops from the end.\<close>

definition slice_to :: "int \<Rightarrow> 'a list \<Rightarrow> 'a list" where
  "slice_to n xs = take (if 0 \<le> n then nat n else length xs - nat (- n)) xs"

definition evaluate_intents :: "s3_env \<Rightarrow> s3_context \<Rightarrow> stage3_intent list \<Rightarrow> stage3_intent list s3" where
  "evaluate_intents env ctx intents s =
     sbind (sfold (evaluate_intent env ctx) (slice_to (s3_max_orders_per_cycle (ze_policy env)) intents) ([], 0)
         (s\<lparr>zs_blocked := []\<rparr>))
       (\<lambda>acc s'. (s', Inr (fst acc)))"

subsection \<open>Definitions: the table of intents\<close>

definition record_intent :: "intent_row list \<Rightarrow> instant \<Rightarrow> stage3_intent \<Rightarrow> intent_row list" where
  "record_intent rows ts i =
     (if list_ex (\<lambda>r. in_intent_id r = it_intent_id i \<or> in_idempotency_key r = it_idempotency_key i) rows then rows
      else rows @ [\<lparr>in_intent_id = it_intent_id i, in_symbol = normalize_symbol (it_symbol i), in_side = side_text (it_side i),
        in_idempotency_key = it_idempotency_key i, in_created_at = ts\<rparr>])"

definition later_ts :: "(string \<times> string, instant) dict \<Rightarrow> intent_row \<Rightarrow> (string \<times> string, instant) dict" where
  "later_ts d r =
     (let k = (in_symbol r, in_side r) in
      AList.update k (case map_of d k of None \<Rightarrow> in_created_at r | Some t \<Rightarrow> max t (in_created_at r)) d)"

definition get_last_intent_ts_by_symbol_side :: "intent_row list \<Rightarrow> (string \<times> string, instant) dict" where
  "get_last_intent_ts_by_symbol_side rows = foldl later_ts [] rows"

subsection \<open>Definitions: the account snapshot\<close>

record cycle_holding =
  ch_asset :: string
  ch_free :: dec
  ch_locked :: dec

definition holding_total :: "cycle_holding \<Rightarrow> dec" where
  "holding_total h = dadd (ch_free h) (ch_locked h)"

record cycle_account_snapshot =
  ca_timestamp :: instant
  ca_quote_asset :: string
  ca_try_cash_target :: dec
  ca_cash_try_total :: dec
  ca_cash_try_free :: dec
  ca_cash_try_locked :: dec
  ca_investable_try :: dec
  ca_holdings :: "(string, cycle_holding) dict"

definition add_holding :: "cycle_holding \<Rightarrow> (string, cycle_holding) dict \<Rightarrow> (string, cycle_holding) dict" where
  "add_holding h d =
     (let asset = str_strip (str_upper (ch_asset h)) in
      if asset = [] then d else AList.update asset (h\<lparr>ch_asset := asset\<rparr>) d)"

definition build_cycle_account_snapshot :: "cycle_holding list \<Rightarrow> dec \<Rightarrow> instant \<Rightarrow> string \<Rightarrow> cycle_account_snapshot" where
  "build_cycle_account_snapshot balances try_cash_target now quote_asset =
     (let q = str_strip (str_upper quote_asset); normalized = (if q = [] then ''TRY'' else q);
          holdings = fold add_holding balances [];
          quote = dict_get holdings normalized \<lparr>ch_asset = normalized, ch_free = 0, ch_locked = 0\<rparr>
      in \<lparr>ca_timestamp = now, ca_quote_asset = normalized, ca_try_cash_target = try_cash_target,
          ca_cash_try_total = holding_total quote, ca_cash_try_free = ch_free quote, ca_cash_try_locked = ch_locked quote,
          ca_investable_try = max 0 (dsub (ch_free quote) try_cash_target), ca_holdings = holdings\<rparr>)"

subsection \<open>Definitions: the service\<close>

definition missing_confirmed :: "int \<Rightarrow> spot_row \<Rightarrow> bool" where
  "missing_confirmed now_ms r =
     (let raw = str_lower (case sw_exchange_status_raw r of None \<Rightarrow> [] | Some t \<Rightarrow> t);
          first_seen = (case sw_unknown_first_seen_at r of None \<Rightarrow> 0 | Some n \<Rightarrow> n)
      in raw \<in> set [''missing_from_open_orders'', ''reconciled_missing_from_exchange_open_orders'']
         \<and> (2 \<le> sw_unknown_probe_attempts r \<or> 0 < first_seen \<and> 300 * 1000 \<le> now_ms - first_seen))"

record open_order_counts =
  oc_counts :: "(string, nat) dict"
  oc_identifiers :: "(string, string list) dict"

definition identifier_of :: "spot_row \<Rightarrow> string" where
  "identifier_of r = (case sw_client_order_id r of None \<Rightarrow> sw_order_id r | Some c \<Rightarrow> if c = [] then sw_order_id r else c)"

definition count_existing ::
  "s3_env \<Rightarrow> string list \<Rightarrow> int \<Rightarrow> spot_row \<Rightarrow> open_order_counts \<Rightarrow> open_order_counts s3" where
  "count_existing env scoped now_ms r acc =
     (let symb = normalize_symbol (sw_symbol r) in
      if scoped \<noteq> [] \<and> symb \<notin> set scoped then (\<lambda>s. (s, Inr acc))
      else if sw_status r = St_UNKNOWN \<and> missing_confirmed now_ms r then
        risk_now env (\<lambda>now s. (s\<lparr>zs_orders := update_order_status (zs_orders s) now (sw_order_id r) St_CANCELED
          (Some ''reconciled_missing_from_exchange_open_orders'') (Some True) None\<rparr>, Inr acc))
      else if sw_status r \<notin> set [St_OPEN, St_PARTIAL] then (\<lambda>s. (s, Inr acc))
      else (\<lambda>s. (s, Inr
        \<lparr>oc_counts = AList.update symb (Suc (dict_get (oc_counts acc) symb 0)) (oc_counts acc),
         oc_identifiers = AList.update symb (dict_get (oc_identifiers acc) symb [] @ [identifier_of r]) (oc_identifiers acc)\<rparr>)))"

definition resolved_mark_prices :: "string list \<Rightarrow> (string, dec) dict option \<Rightarrow> (string, dec) dict" where
  "resolved_mark_prices scoped mark_prices =
     (case mark_prices of
        None \<Rightarrow> []
      | Some d \<Rightarrow>
          let normalized = dict_comp normalize_symbol (\<lambda>x. x) d in
          if scoped = [] then normalized
          else List.map_filter (\<lambda>symb. map_option (Pair symb) (map_of normalized symb)) scoped)"

definition risk_filter ::
  "s3_env \<Rightarrow> string \<Rightarrow> stage3_intent list \<Rightarrow> (string, dec) dict option \<Rightarrow> dec \<Rightarrow> dec \<Rightarrow> cycle_account_snapshot option \<Rightarrow>
   stage3_intent list s3" where
  "risk_filter env cycle_id intents mark_prices try_cash_target investable_try account =
     (let scoped = normalized_symbols (map it_symbol intents) in
      risk_now env (\<lambda>t0. risk_now env (\<lambda>t1 s.
        let existing = find_open_or_unknown_orders (zs_orders s) t0 scoped PENDING_GRACE_SECONDS False False
              UNKNOWN_ESCALATION_ATTEMPTS
        in sbind (sfold (count_existing env scoped (millis t1)) existing \<lparr>oc_counts = [], oc_identifiers = []\<rparr> s)
             (\<lambda>counts s1.
               let ctx = \<lparr>rc_cycle_id = cycle_id, rc_open_orders = oc_counts counts,
                     rc_last_intent_ts = get_last_intent_ts_by_symbol_side (zs_intents s1),
                     rc_mark_prices = resolved_mark_prices scoped mark_prices,
                     rc_open_order_identifiers = oc_identifiers counts,
                     rc_cash_try_free = (case account of None \<Rightarrow> 0 | Some a \<Rightarrow> ca_cash_try_free a),
                     rc_try_cash_target = (case account of None \<Rightarrow> try_cash_target | Some a \<Rightarrow> ca_try_cash_target a),
                     rc_investable_try = (case account of None \<Rightarrow> investable_try | Some a \<Rightarrow> ca_investable_try a)\<rparr>
               in sbind (evaluate_intents env ctx intents s1) (\<lambda>approved.
                    risk_now env (\<lambda>now s2.
                      (s2\<lparr>zs_intents := foldl (\<lambda>rows. record_intent rows now) (zs_intents s2) approved\<rparr>, Inr approved)))))))"

subsection \<open>Folds that keep a property of the accumulator\<close>

lemma sbind_Inr: "sbind m f = (s', Inr y) \<Longrightarrow> \<exists>s x. m = (s, Inr x) \<and> f x s = (s', Inr y)"
  by (cases m) (auto simp: sbind_def split: sum.splits)

lemma sfold_keeps:
  assumes "sfold f xs acc s = (s', Inr acc')" "I s acc"
    and "\<And>x s acc t acc'. x \<in> set xs \<Longrightarrow> I s acc \<Longrightarrow> f x acc s = (t, Inr acc') \<Longrightarrow> I t acc'"
  shows "I s' acc'"
  using assms
proof (induction xs arbitrary: acc s)
  case (Cons x xs)
  from Cons.prems(1) obtain t acc1 where t: "f x acc s = (t, Inr acc1)" "sfold f xs acc1 t = (s', Inr acc')"
    by (auto dest: sbind_Inr)
  have "I t acc1" by (rule Cons.prems(3) [OF _ Cons.prems(2) t(1)]) simp
  then show ?case by (rule Cons.IH [OF t(2)]) (rule Cons.prems(3); simp)
qed simp

lemma sfold_counts:
  assumes "sfold f xs acc s = (s', Inr acc')"
    and "\<And>x s acc t acc'. f x acc s = (t, Inr acc') \<Longrightarrow> m acc' \<le> Suc (m acc)"
  shows "m acc' \<le> m acc + length xs"
  using assms(1)
proof (induction xs arbitrary: acc s)
  case (Cons x xs)
  from Cons.prems(1) obtain t acc1 where t: "f x acc s = (t, Inr acc1)" "sfold f xs acc1 t = (s', Inr acc')"
    by (auto dest: sbind_Inr)
  show ?case using Cons.IH [OF t(2)] assms(2) [OF t(1)] by simp
qed simp

lemma dsum_snoc: "dsum (xs @ [x]) = dadd (dsum xs) x"
  by (simp add: dsum_def)

subsection \<open>What an approved intent has passed\<close>

definition intent_notional :: "stage3_intent \<Rightarrow> dec" where
  "intent_notional a = dmul (it_qty a) (case it_limit_price a of None \<Rightarrow> 0 | Some p \<Rightarrow> p)"

text \<open>The rules the provider may answer for a symbol with a cache: cached ones, those of the exchange, or the defaults.\<close>

definition answerable :: "rules_provider \<Rightarrow> s3_cache \<Rightarrow> string \<Rightarrow> s3_rules \<Rightarrow> bool" where
  "answerable pr cache symb rules \<longleftrightarrow>
     (\<exists>t. map_of cache (canonical_symbol symb) = Some (t, rules))
     \<or> (\<exists>other r. canonical_symbol other = canonical_symbol symb \<and> xp_symbol_rules pr other = Inr r \<and> rules = provider_rules r)
     \<or> xp_allow_default_fallback pr \<and> rules = default_rules"

text \<open>The intent with a price and a quantity on the grid of such rules, of at least the minimum notional unless it may be cut.\<close>

definition resized :: "s3_env \<Rightarrow> s3_cache \<Rightarrow> s3_rules \<Rightarrow> stage3_intent \<Rightarrow> stage3_intent \<Rightarrow> bool" where
  "resized env cache rules i a \<longleftrightarrow> (\<exists>price. it_limit_price i \<noteq> None \<and> 0 < price \<and> 0 < it_qty a
     \<and> a = i\<lparr>it_qty := it_qty a, it_limit_price := Some price\<rparr>
     \<and> answerable (ze_provider env) cache (it_symbol i) rules
     \<and> on_step (s3r_price_tick rules) price \<and> on_step (s3r_qty_step rules) (it_qty a)
     \<and> (s3_max_notional_per_order (ze_policy env) \<le> 0 \<longrightarrow> s3r_min_notional rules \<le> intent_notional a))"

definition slot_free :: "s3_env \<Rightarrow> s3_context \<Rightarrow> stage3_intent \<Rightarrow> bool" where
  "slot_free env ctx i \<longleftrightarrow>
     int (dict_get (rc_open_orders ctx) (normalize_symbol (it_symbol i)) 0) < s3_max_open_orders_per_symbol (ze_policy env)
     \<and> (\<forall>t. map_of (rc_last_intent_ts ctx) (normalize_symbol (it_symbol i), side_text (it_side i)) = Some t \<longrightarrow>
          (\<exists>n. s3_cooldown_seconds (ze_policy env) * 1000000 \<le> ze_clock env n - t))"

definition order_capped :: "s3_env \<Rightarrow> stage3_intent \<Rightarrow> bool" where
  "order_capped env a \<longleftrightarrow>
     (let cap = s3_max_notional_per_order (ze_policy env) in 0 < cap \<longrightarrow> intent_notional a \<le> cap * dec_slack ^ 4)"

definition reserve_kept :: "s3_env \<Rightarrow> s3_context \<Rightarrow> stage3_intent list \<Rightarrow> bool" where
  "reserve_kept env ctx approved \<longleftrightarrow>
     (0 < rc_investable_try ctx \<and> s3_max_notional_per_order (ze_policy env) \<le> 0 \<longrightarrow>
       (\<forall>k < length approved. it_side (approved ! k) = Side_BUY \<longrightarrow>
          dsum (map intent_notional (take (Suc k) approved)) \<le> rc_investable_try ctx))"

definition approvals_ok :: "s3_env \<Rightarrow> s3_cache \<Rightarrow> s3_context \<Rightarrow> stage3_intent list \<Rightarrow> approvals \<Rightarrow> bool" where
  "approvals_ok env cache ctx intents acc \<longleftrightarrow>
     (\<forall>a \<in> set (fst acc). (\<exists>i \<in> set intents. (\<exists>rules. resized env cache rules i a) \<and> slot_free env ctx i) \<and> order_capped env a)
     \<and> snd acc = dsum (map intent_notional (fst acc))
     \<and> (fst acc = [] \<or> snd acc \<le> s3_notional_cap_per_cycle (ze_policy env))
     \<and> reserve_kept env ctx (fst acc)"

lemma approvals_ok_Nil: "approvals_ok env cache ctx intents ([], 0)"
  by (simp add: approvals_ok_def reserve_kept_def dsum_def)

lemma approvals_ok_add:
  assumes "approvals_ok env cache ctx intents acc" "i \<in> set intents" "resized env cache rules i a" "slot_free env ctx i" "order_capped env a"
    and "approve_within_cap env ctx a (intent_notional a) acc s = (t, Inr acc')"
    and "it_side a = Side_BUY \<Longrightarrow> 0 < rc_investable_try ctx \<Longrightarrow> s3_max_notional_per_order (ze_policy env) \<le> 0 \<Longrightarrow>
      dadd (snd acc) (intent_notional a) \<le> rc_investable_try ctx"
  shows "approvals_ok env cache ctx intents acc'"
proof (cases "acc' = acc")
  case False
  then have acc': "fst acc' = fst acc @ [a]" "snd acc' = dadd (snd acc) (intent_notional a)"
      "\<not> s3_notional_cap_per_cycle (ze_policy env) < dadd (snd acc) (intent_notional a)"
    using assms(6) by (auto simp: approve_within_cap_def split: prod.splits if_splits)
  have "reserve_kept env ctx (fst acc')"
    using assms(1,7) unfolding reserve_kept_def approvals_ok_def acc' by (auto simp: less_Suc_eq nth_append dsum_snoc)
  then show ?thesis using assms(1-5) unfolding approvals_ok_def acc'(1,2) using acc'(3) by (auto simp: dsum_snoc)
qed (use assms(1) in simp)

interpretation grid: down_quantizer "\<lambda>x. Inr (round_qty x (rounding_policy rules))" for rules
  by (rule down_quantizer_round_qty) (simp add: rounding_policy_def down_policy_def DEFAULT_MONEY_POLICY_def)

lemma intent_notional_price [simp]: "it_limit_price a = Some p \<Longrightarrow> intent_notional a = dmul (it_qty a) p"
  by (simp add: intent_notional_def)

lemma order_capped_resized:
  assumes "0 < price" "it_qty a = round_qty (ddiv (s3_max_notional_per_order (ze_policy env)) price) (rounding_policy rules)"
    and "it_limit_price a = Some price"
  shows "order_capped env a"
  using grid.spend_bound [OF assms(1), of "s3_max_notional_per_order (ze_policy env)" rules "it_qty a"] assms
  by (simp add: order_capped_def Let_def dmul_def mult.commute)

lemma order_capped_small:
  assumes "\<not> (0 < cap \<and> cap < intent_notional a)" "cap = s3_max_notional_per_order (ze_policy env)"
  shows "order_capped env a"
proof -
  have "intent_notional a \<le> cap * dec_slack ^ 4" if "0 < cap"
  proof -
    have "intent_notional a \<le> cap * 1" using assms(1) that by simp
    also have "\<dots> \<le> cap * dec_slack ^ 4" using that by (intro mult_left_mono) simp_all
    finally show ?thesis .
  qed
  then show ?thesis using assms(2) by (simp add: order_capped_def Let_def)
qed

lemma size_approved_ok:
  assumes "approvals_ok env cache ctx intents acc" "i \<in> set intents" "resized env cache rules i a" "slot_free env ctx i" "it_limit_price a = Some price"
    and "size_approved env ctx a rules price acc s = (t, Inr acc')"
  shows "approvals_ok env cache ctx intents acc'"
proof -
  obtain p where p: "0 < p" "a = i\<lparr>it_qty := it_qty a, it_limit_price := Some p\<rparr>" "it_limit_price i \<noteq> None"
      "answerable (ze_provider env) cache (it_symbol i) rules" "on_step (s3r_price_tick rules) p"
    using assms(3) unfolding resized_def by blast
  have price_p: "it_limit_price a = Some p" by (subst p(2)) simp
  have price: "0 < price" using p(1) price_p assms(5) by simp
  let ?cap = "s3_max_notional_per_order (ze_policy env)"
  let ?q = "round_qty (ddiv ?cap price) (rounding_policy rules)"
  consider (same) "acc' = acc"
    | (plain) "\<not> (it_side a = Side_BUY \<and> 0 < rc_investable_try ctx \<and> rc_investable_try ctx < dadd (snd acc) (intent_notional a))"
        "\<not> (0 < ?cap \<and> ?cap < intent_notional a)" "approve_within_cap env ctx a (intent_notional a) acc s = (t, Inr acc')"
    | (capped) "0 < ?cap" "0 < ?q" "approve_within_cap env ctx (a\<lparr>it_qty := ?q\<rparr>) (intent_notional (a\<lparr>it_qty := ?q\<rparr>)) acc s = (t, Inr acc')"
    using assms(5,6) by (auto simp: size_approved_def Let_def not_le split: if_splits)
  then show ?thesis
  proof cases
    case plain
    show ?thesis
      by (rule approvals_ok_add [OF assms(1-4) order_capped_small [OF plain(2) refl] plain(3)]) (use plain(1) in auto)
  next
    case capped
    have "a\<lparr>it_qty := ?q\<rparr> = i\<lparr>it_qty := ?q, it_limit_price := Some p\<rparr>" by (subst p(2)) simp
    moreover have "on_step (s3r_qty_step rules) ?q" by (simp add: round_qty_def rounding_policy_def)
    ultimately have "resized env cache rules i (a\<lparr>it_qty := ?q\<rparr>)"
      using p(1,3-5) capped(1,2) unfolding resized_def by (intro exI [of _ p]) auto
    moreover have "order_capped env (a\<lparr>it_qty := ?q\<rparr>)"
      by (rule order_capped_resized [OF price, of _ env rules]) (simp_all add: assms(5))
    ultimately show ?thesis
      by (rule approvals_ok_add [OF assms(1,2) _ assms(4) _ capped(3)]) (use capped(1) in auto)
  qed (use assms(1) in simp)
qed

text \<open>A cache that answers nothing a given one does not, and steps that leave it and the table of intents so.\<close>

definition tables_kept :: "s3_env \<Rightarrow> s3_cache \<Rightarrow> intent_row list \<Rightarrow> s3_state \<Rightarrow> bool" where
  "tables_kept env cache rows s \<longleftrightarrow> zs_intents s = rows
     \<and> (\<forall>symb rules. answerable (ze_provider env) (zs_cache s) symb rules \<longrightarrow> answerable (ze_provider env) cache symb rules)"

lemma tables_kept_same:
  "zs_intents t = zs_intents s \<Longrightarrow> zs_cache t = zs_cache s \<Longrightarrow> tables_kept env cache rows t = tables_kept env cache rows s"
  by (simp add: tables_kept_def)

lemma log_block_kept [simp]: "tables_kept env cache rows (log_block ctx i reason n u s) = tables_kept env cache rows s"
  by (rule tables_kept_same) (simp_all add: log_block_def)

lemma get_s3_rules_answers:
  assumes "get_s3_rules pr now symb cache = (cache', r)"
  shows "answerable pr cache' other rules \<Longrightarrow> answerable pr cache other rules"
    and "r = Inr rules \<Longrightarrow> answerable pr cache symb rules"
proof -
  let ?k = "canonical_symbol symb"
  have origin: "answerable pr cache other x" if "canonical_symbol other = ?k"
      "(\<exists>r. xp_symbol_rules pr symb = Inr r \<and> x = provider_rules r) \<or> xp_allow_default_fallback pr \<and> x = default_rules" for other x
    using that unfolding answerable_def by metis
  have "cache' = cache \<and> (\<forall>x. r = Inr x \<longrightarrow> (\<exists>t. map_of cache ?k = Some (t, x)))
    \<or> (\<exists>x. cache' = AList.update ?k (now, x) cache \<and> r = Inr x
        \<and> ((\<exists>r. xp_symbol_rules pr symb = Inr r \<and> x = provider_rules r) \<or> xp_allow_default_fallback pr \<and> x = default_rules))"
    using assms unfolding get_s3_rules_def Let_def by (auto split: option.splits sum.splits if_splits)
  then consider (same) "cache' = cache" "\<And>x. r = Inr x \<Longrightarrow> \<exists>t. map_of cache ?k = Some (t, x)"
    | (fetched) x where "cache' = AList.update ?k (now, x) cache" "r = Inr x"
        "(\<exists>r. xp_symbol_rules pr symb = Inr r \<and> x = provider_rules r) \<or> xp_allow_default_fallback pr \<and> x = default_rules"
    by blast
  note cases = this
  show "answerable pr cache other rules" if a: "answerable pr cache' other rules"
  proof (cases rule: cases)
    case same
    then show ?thesis using a by simp
  next
    case (fetched x)
    show ?thesis
    proof (cases "canonical_symbol other = ?k \<and> rules = x")
      case True
      then show ?thesis using origin fetched(3) by blast
    next
      case False
      then show ?thesis using a unfolding fetched(1) answerable_def by (auto split: if_splits)
    qed
  qed
  show "answerable pr cache symb rules" if "r = Inr rules"
    using that by (cases rule: cases) (use origin in \<open>auto simp: answerable_def\<close>)
qed

lemma provider_call_kept:
  assumes "provider_call env symb s = (t, r)" "tables_kept env cache rows s"
  shows "tables_kept env cache rows t" and "r = Inr rules \<Longrightarrow> answerable (ze_provider env) cache symb rules"
proof -
  obtain c x where g: "get_s3_rules (ze_provider env) (ze_clock env (zs_ticks s)) symb (zs_cache s) = (c, x)" by force
  then have t: "t = s\<lparr>zs_ticks := Suc (zs_ticks s), zs_cache := c\<rparr>" "r = x"
    using assms(1) by (auto simp: provider_call_def risk_now_def)
  show "tables_kept env cache rows t" using assms(2) get_s3_rules_answers(1) [OF g] by (auto simp: tables_kept_def t(1))
  show "r = Inr rules \<Longrightarrow> answerable (ze_provider env) cache symb rules"
    using assms(2) get_s3_rules_answers(2) [OF g] t(2) by (auto simp: tables_kept_def)
qed

lemma normalize_intent_kept:
  assumes "normalize_intent env ctx i s = (t, r)" "tables_kept env cache rows s"
  shows "tables_kept env cache rows t"
  using assms provider_call_kept(1) [of env "it_symbol i" s _ _ cache rows]
  by (auto simp: normalize_intent_def quantized_intent_def Let_def split: option.splits prod.splits sum.splits if_splits)

lemma normalize_intent_found:
  assumes "normalize_intent env ctx i s = (t, Inr (Some (a, rules)))" "it_limit_price a = Some price" "tables_kept env cache rows s"
  shows "resized env cache rules i a"
proof (cases "it_limit_price i")
  case None
  then show ?thesis using assms(1,2) by (auto simp: normalize_intent_def)
next
  case (Some wanted)
  obtain u x where call: "provider_call env (it_symbol i) s = (u, x)" by force
  then obtain r where r: "x = Inr r" "quantized_intent ctx i wanted r u = (t, Inr (Some (a, rules)))"
    using assms(1) Some by (auto simp: normalize_intent_def split: sum.splits if_splits)
  define q where "q = round_price wanted (rounding_policy r)"
  define y where "y = round_qty (it_qty i) (rounding_policy r)"
  have a: "a = i\<lparr>it_qty := y, it_limit_price := Some q\<rparr>" "rules = r" "0 < q" "0 < y" "\<not> dmul q y < s3r_min_notional r"
    using r(2) unfolding quantized_intent_def Let_def q_def [symmetric] y_def [symmetric] by (auto split: if_splits)
  have "on_step (s3r_price_tick r) q" "on_step (s3r_qty_step r) y"
    by (simp_all add: q_def y_def round_price_def round_qty_def rounding_policy_def)
  moreover have "answerable (ze_provider env) cache (it_symbol i) r" using provider_call_kept(2) [OF call assms(3)] r(1) by simp
  moreover have "intent_notional a = dmul q y" by (simp add: a(1) intent_notional_def dmul_def mult.commute)
  ultimately show ?thesis using a Some unfolding resized_def by (intro exI [of _ q]) auto
qed

lemma approve_within_cap_kept:
  "approve_within_cap env ctx a n acc s = (t, r) \<Longrightarrow> tables_kept env cache rows s \<Longrightarrow> tables_kept env cache rows t"
  by (auto simp: approve_within_cap_def split: prod.splits if_splits)

lemma size_approved_kept:
  "size_approved env ctx a rules price acc s = (t, r) \<Longrightarrow> tables_kept env cache rows s \<Longrightarrow> tables_kept env cache rows t"
  by (auto simp: size_approved_def Let_def split: if_splits dest: approve_within_cap_kept)

lemma evaluate_normalized_ok:
  assumes "approvals_ok env cache ctx intents acc" "i \<in> set intents" "slot_free env ctx i" "tables_kept env cache rows s"
    and "evaluate_normalized env ctx i acc s = (t, Inr acc')"
  shows "approvals_ok env cache ctx intents acc' \<and> tables_kept env cache rows t"
proof -
  obtain found u where n: "normalize_intent env ctx i s = (u, Inr found)"
    and r: "(case found of None \<Rightarrow> (u, Inr acc)
       | Some (normalized, rules) \<Rightarrow>
           (case it_limit_price normalized of
              None \<Rightarrow> (log_block ctx i Block_missing_limit_price None None u, Inr acc)
            | Some price \<Rightarrow> size_approved env ctx normalized rules price acc u)) = (t, Inr acc')"
    using assms(5) unfolding evaluate_normalized_def by (blast dest: sbind_Inr)
  have u: "tables_kept env cache rows u" by (rule normalize_intent_kept [OF n assms(4)])
  show ?thesis
  proof (cases found)
    case (Some f)
    obtain a rules where f: "f = (a, rules)" by (cases f)
    show ?thesis
    proof (cases "it_limit_price a")
      case (Some price)
      have run: "size_approved env ctx a rules price acc u = (t, Inr acc')" using r f \<open>found = Some f\<close> Some by simp
      have "resized env cache rules i a"
        by (rule normalize_intent_found [OF _ Some assms(4)]) (use n f \<open>found = Some f\<close> in simp)
      then have "approvals_ok env cache ctx intents acc'" by (rule size_approved_ok [OF assms(1,2) _ assms(3) Some run])
      then show ?thesis using size_approved_kept [OF run u] by blast
    qed (use r f \<open>found = Some f\<close> assms(1) u in auto)
  qed (use r assms(1) u in simp)
qed

lemma evaluate_intent_ok:
  assumes "approvals_ok env cache ctx intents acc" "i \<in> set intents" "tables_kept env cache rows s"
    and "evaluate_intent env ctx i acc s = (t, Inr acc')"
  shows "approvals_ok env cache ctx intents acc' \<and> tables_kept env cache rows t"
proof -
  have ticks: "tables_kept env cache rows (s\<lparr>zs_ticks := n\<rparr>) = tables_kept env cache rows s" for n
    by (rule tables_kept_same) simp_all
  have "acc' = acc \<and> tables_kept env cache rows t
    \<or> (\<exists>u. slot_free env ctx i \<and> tables_kept env cache rows u \<and> evaluate_normalized env ctx i acc u = (t, Inr acc'))"
    using assms(3,4) unfolding evaluate_intent_def slot_free_def risk_now_def Let_def
    by (auto simp: not_le not_less ticks split: if_splits option.splits)
  then show ?thesis using evaluate_normalized_ok [OF assms(1,2)] assms(1) by blast
qed

lemma approved_length:
  assumes "evaluate_intent env ctx i acc s = (t, Inr acc')"
  shows "length (fst acc') \<le> Suc (length (fst acc))"
proof -
  have cap: "length (fst acc') \<le> Suc (length (fst acc))" if "approve_within_cap env ctx a n acc s = (t, Inr acc')" for a n s
    using that by (auto simp: approve_within_cap_def split: prod.splits if_splits)
  have size: "length (fst acc') \<le> Suc (length (fst acc))" if "size_approved env ctx a rules price acc s = (t, Inr acc')" for a rules price s
    using that by (auto simp: size_approved_def Let_def split: if_splits dest: cap)
  have norm: "length (fst acc') \<le> Suc (length (fst acc))" if run: "evaluate_normalized env ctx i acc s = (t, Inr acc')" for s
  proof -
    obtain found u where "normalize_intent env ctx i s = (u, Inr found)" and r: "(case found of None \<Rightarrow> (u, Inr acc)
       | Some (normalized, rules) \<Rightarrow>
           (case it_limit_price normalized of
              None \<Rightarrow> (log_block ctx i Block_missing_limit_price None None u, Inr acc)
            | Some price \<Rightarrow> size_approved env ctx normalized rules price acc u)) = (t, Inr acc')"
      using run unfolding evaluate_normalized_def by (blast dest: sbind_Inr)
    then show ?thesis by (cases found) (auto split: option.splits dest: size)
  qed
  show ?thesis
    using assms by (auto simp: evaluate_intent_def risk_now_def Let_def split: if_splits option.splits dest: norm)
qed

lemma slice_to_subset: "set (slice_to n xs) \<subseteq> set xs"
  by (auto simp: slice_to_def dest: in_set_takeD)

lemma evaluate_intents_ok:
  assumes "evaluate_intents env ctx intents s = (t, Inr approved)" "tables_kept env cache rows s"
  shows "approvals_ok env cache ctx intents (approved, dsum (map intent_notional approved))" "tables_kept env cache rows t"
    and "length approved \<le> length (slice_to (s3_max_orders_per_cycle (ze_policy env)) intents)"
proof -
  let ?xs = "slice_to (s3_max_orders_per_cycle (ze_policy env)) intents"
  let ?I = "\<lambda>s acc. approvals_ok env cache ctx intents acc \<and> tables_kept env cache rows s"
  obtain acc u where acc: "sfold (evaluate_intent env ctx) ?xs ([], 0) (s\<lparr>zs_blocked := []\<rparr>) = (u, Inr acc)" "fst acc = approved" "u = t"
    using assms(1) unfolding evaluate_intents_def by (auto dest!: sbind_Inr)
  have "?I u acc"
  proof (rule sfold_keeps [where I = ?I, OF acc(1)])
    have "tables_kept env cache rows (s\<lparr>zs_blocked := []\<rparr>)" using assms(2) by (subst tables_kept_same [of _ s]) simp_all
    then show "?I (s\<lparr>zs_blocked := []\<rparr>) ([], 0)" using approvals_ok_Nil by blast
  next
    fix i s acc t acc'
    assume "i \<in> set ?xs" and step: "?I s acc" "evaluate_intent env ctx i acc s = (t, Inr acc')"
    then have "i \<in> set intents" by (meson slice_to_subset subsetD)
    from evaluate_intent_ok [OF conjunct1 [OF step(1)] this conjunct2 [OF step(1)] step(2)] show "?I t acc'" .
  qed
  moreover from this have "snd acc = dsum (map intent_notional (fst acc))" unfolding approvals_ok_def by blast
  ultimately show "approvals_ok env cache ctx intents (approved, dsum (map intent_notional approved))" "tables_kept env cache rows t"
    using acc(2,3) by (metis prod.collapse)+
  have "length (fst acc) \<le> length (fst ([] :: stage3_intent list, 0 :: dec)) + length ?xs"
    by (rule sfold_counts [where m = "\<lambda>acc. length (fst acc)", OF acc(1)]) (rule approved_length)
  then show "length approved \<le> length ?xs" using acc(2) by simp
qed

subsection \<open>The context of the service\<close>

definition occupies :: "string \<Rightarrow> spot_row \<Rightarrow> bool" where
  "occupies symb r \<longleftrightarrow> sw_symbol r = symb \<and> sw_status r \<in> set [St_OPEN, St_PARTIAL]"

lemma count_existing_intents:
  "count_existing env scoped now_ms r acc s = (t, Inr acc') \<Longrightarrow> zs_intents t = zs_intents s"
  by (auto simp: count_existing_def Let_def risk_now_def split: if_splits)

lemma count_existing_cache:
  "count_existing env scoped now_ms r acc s = (t, Inr acc') \<Longrightarrow> zs_cache t = zs_cache s"
  by (auto simp: count_existing_def Let_def risk_now_def split: if_splits)

lemma counted_kept:
  assumes "sfold (count_existing env scoped now_ms) found acc s = (t, Inr acc')"
  shows "zs_intents t = zs_intents s \<and> zs_cache t = zs_cache s"
  using sfold_keeps [where I = "\<lambda>t acc. zs_intents t = zs_intents s \<and> zs_cache t = zs_cache s", OF assms]
    count_existing_intents count_existing_cache by (metis (no_types, lifting))

lemma count_existing_counts:
  assumes "count_existing env scoped now_ms r acc s = (t, Inr acc')" "symb \<in> set scoped"
  shows "dict_get (oc_counts acc) symb 0 + (if occupies symb r then 1 else 0) \<le> dict_get (oc_counts acc') symb 0
    \<or> normalize_symbol (sw_symbol r) \<noteq> sw_symbol r"
  using assms by (auto simp: count_existing_def occupies_def Let_def risk_now_def split: if_splits option.splits)

lemma counted_rows:
  assumes "sfold (count_existing env scoped now_ms) rows acc s = (t, Inr acc')" "symb \<in> set scoped" "normalize_symbol symb = symb"
  shows "dict_get (oc_counts acc) symb 0 + length (filter (occupies symb) rows) \<le> dict_get (oc_counts acc') symb 0
    \<and> zs_intents t = zs_intents s"
  using assms(1)
proof (induction rows arbitrary: acc s)
  case (Cons r rows)
  from Cons.prems obtain u acc1 where u: "count_existing env scoped now_ms r acc s = (u, Inr acc1)"
      "sfold (count_existing env scoped now_ms) rows acc1 u = (t, Inr acc')"
    by (auto dest: sbind_Inr)
  have "dict_get (oc_counts acc) symb 0 + (if occupies symb r then 1 else 0) \<le> dict_get (oc_counts acc1) symb 0"
  proof (cases "occupies symb r")
    case False
    then show ?thesis
      using u(1) by (auto simp: count_existing_def occupies_def Let_def risk_now_def split: if_splits option.splits)
  next
    case True
    then show ?thesis using count_existing_counts [OF u(1) assms(2)] assms(3) by (auto simp: occupies_def)
  qed
  then show ?case using Cons.IH [OF u(2)] count_existing_intents [OF u(1)] by auto
qed simp

lemma occupies_found:
  assumes "symb \<in> set scoped" "normalize_symbol symb = symb"
  shows "filter (occupies symb) (find_open_or_unknown_orders rows now scoped g a b n) = filter (occupies symb) rows"
proof -
  have "symb \<in> set (map normalize_symbol scoped)" using assms by (metis image_eqI image_set)
  then show ?thesis
    unfolding find_open_or_unknown_orders_def filter_filter occupies_def
  proof (intro filter_cong refl)
    fix x
    show "((sw_status x \<in> set [St_NEW, St_OPEN, St_PARTIAL, St_UNKNOWN]
        \<and> (scoped = [] \<or> sw_symbol x \<in> set (map normalize_symbol scoped))
        \<and> \<not> (sw_status x = St_NEW \<and> \<not> a \<and> max 0 g * 1000000 < now - max (sw_created_at x) (sw_updated_at x))
        \<and> \<not> (sw_status x = St_UNKNOWN \<and> \<not> b \<and> (sw_unknown_escalated_at x \<noteq> None \<or> n \<le> sw_unknown_probe_attempts x)))
        \<and> sw_symbol x = symb \<and> sw_status x \<in> set [St_OPEN, St_PARTIAL])
      = (sw_symbol x = symb \<and> sw_status x \<in> set [St_OPEN, St_PARTIAL])"
      using \<open>symb \<in> set (map normalize_symbol scoped)\<close> by (cases "sw_status x") (auto simp del: set_map)
  qed
qed

lemma later_ts_max:
  "(\<exists>t. map_of d k = Some t) \<or> (\<exists>r \<in> set rows. k = (in_symbol r, in_side r)) \<Longrightarrow>
     \<exists>t. map_of (foldl later_ts d rows) k = Some t \<and> (\<forall>u. map_of d k = Some u \<longrightarrow> u \<le> t)
       \<and> (\<forall>r \<in> set rows. k = (in_symbol r, in_side r) \<longrightarrow> in_created_at r \<le> t)"
proof (induction rows arbitrary: d)
  case (Cons r rows)
  have "(\<exists>t. map_of (later_ts d r) k = Some t) \<or> (\<exists>r \<in> set rows. k = (in_symbol r, in_side r))"
    using Cons.prems by (auto simp: later_ts_def Let_def split: option.splits)
  from Cons.IH [OF this] obtain t where t: "map_of (foldl later_ts (later_ts d r) rows) k = Some t"
      "\<forall>u. map_of (later_ts d r) k = Some u \<longrightarrow> u \<le> t" "\<forall>r \<in> set rows. k = (in_symbol r, in_side r) \<longrightarrow> in_created_at r \<le> t"
    by blast
  have r: "in_created_at r \<le> t" if "k = (in_symbol r, in_side r)"
    using t(2) that by (auto simp: later_ts_def Let_def split: option.splits)
  have "u \<le> t" if "map_of d k = Some u" for u
    using t(2) that by (cases "k = (in_symbol r, in_side r)") (auto simp: later_ts_def Let_def split: option.splits)
  then show ?case using t(1,3) r by auto
qed auto

lemma last_intent_ts_covers:
  "r \<in> set rows \<Longrightarrow> \<exists>t. map_of (get_last_intent_ts_by_symbol_side rows) (in_symbol r, in_side r) = Some t \<and> in_created_at r \<le> t"
  using later_ts_max [of "[]" "(in_symbol r, in_side r)" rows] by (auto simp: get_last_intent_ts_by_symbol_side_def)

subsection \<open>The table of intents after a cycle\<close>

lemma record_intent_keeps: "set rows \<subseteq> set (record_intent rows now i)"
  by (auto simp: record_intent_def)

lemma record_intents_keeps: "set rows \<subseteq> set (foldl (\<lambda>rows. record_intent rows now) rows xs)"
proof (induction xs arbitrary: rows)
  case (Cons x xs)
  show ?case using record_intent_keeps [of rows now x] Cons.IH [of "record_intent rows now x"] by auto
qed simp

definition recorded :: "intent_row list \<Rightarrow> stage3_intent \<Rightarrow> bool" where
  "recorded rows i \<longleftrightarrow> (\<exists>r \<in> set rows. in_intent_id r = it_intent_id i \<or> in_idempotency_key r = it_idempotency_key i)"

lemma record_intent_recorded: "recorded (record_intent rows now i) i"
  by (auto simp: recorded_def record_intent_def list_ex_iff)

lemma record_intents_recorded: "a \<in> set xs \<Longrightarrow> recorded (foldl (\<lambda>rows. record_intent rows now) rows xs) a"
proof (induction xs arbitrary: rows)
  case (Cons x xs)
  show ?case
  proof (cases "a = x")
    case True
    then show ?thesis using record_intent_recorded [of rows now x] record_intents_keeps [of "record_intent rows now x" now xs]
      by (auto simp: recorded_def)
  next
    case False
    then show ?thesis using Cons by simp
  qed
qed simp

subsection \<open>The filter\<close>

definition passed :: "s3_env \<Rightarrow> s3_state \<Rightarrow> stage3_intent \<Rightarrow> bool" where
  "passed env s i \<longleftrightarrow>
     int (length (filter (occupies (normalize_symbol (it_symbol i))) (zs_orders s))) < s3_max_open_orders_per_symbol (ze_policy env)
     \<and> (\<forall>r \<in> set (zs_intents s). in_symbol r = normalize_symbol (it_symbol i) \<and> in_side r = side_text (it_side i) \<longrightarrow>
          (\<exists>n. s3_cooldown_seconds (ze_policy env) * 1000000 \<le> ze_clock env n - in_created_at r))"

lemma slot_free_passed:
  assumes "slot_free env ctx i" "rc_last_intent_ts ctx = get_last_intent_ts_by_symbol_side (zs_intents s)"
    and "length (filter (occupies (normalize_symbol (it_symbol i))) (zs_orders s))
      \<le> dict_get (rc_open_orders ctx) (normalize_symbol (it_symbol i)) 0"
  shows "passed env s i"
proof -
  have "\<exists>n. s3_cooldown_seconds (ze_policy env) * 1000000 \<le> ze_clock env n - in_created_at r"
    if r: "r \<in> set (zs_intents s)" "in_symbol r = normalize_symbol (it_symbol i)" "in_side r = side_text (it_side i)" for r
  proof -
    obtain t where t: "map_of (rc_last_intent_ts ctx) (normalize_symbol (it_symbol i), side_text (it_side i)) = Some t" "in_created_at r \<le> t"
      using last_intent_ts_covers [OF r(1)] r(2,3) assms(2) by auto
    obtain n where "s3_cooldown_seconds (ze_policy env) * 1000000 \<le> ze_clock env n - t"
      using assms(1) t(1) by (auto simp: slot_free_def)
    then show ?thesis using t(2) by (intro exI [of _ n]) linarith
  qed
  then show ?thesis using assms(1,3) by (auto simp: passed_def slot_free_def)
qed

text \<open>
  (C9) What the risk service approves: at most the allowed number of intents, each an intent of the
  input for a symbol with a free slot and outside the cooldown, whose positive price and quantity are now on
  the grid of rules that the provider may answer for the symbol (multiples of tick and step, rounded once) and,
  unless there is a cap per order, of at least their minimum notional; each is within the cap per order (up to four
  roundings), and their notional is within the cap of the cycle.  With a positive investable amount, and only
  then and without a cap per order, every purchase leaves the running total within that amount.  Each
  approved intent is in the table of intents afterwards, by its id or its key, and no row of it is lost.
\<close>

theorem risk_filter_sound:
  assumes "risk_filter env c intents marks target investable account s = (s', Inr approved)"
  shows "length approved \<le> length (slice_to (s3_max_orders_per_cycle (ze_policy env)) intents)
    \<and> (\<forall>a \<in> set approved. order_capped env a \<and> (\<exists>i \<in> set intents. passed env s i
         \<and> (\<exists>price rules. it_limit_price i \<noteq> None \<and> 0 < price \<and> 0 < it_qty a
              \<and> a = i\<lparr>it_qty := it_qty a, it_limit_price := Some price\<rparr>
              \<and> answerable (ze_provider env) (zs_cache s) (it_symbol i) rules
              \<and> on_step (s3r_price_tick rules) price \<and> on_step (s3r_qty_step rules) (it_qty a)
              \<and> (s3_max_notional_per_order (ze_policy env) \<le> 0 \<longrightarrow> s3r_min_notional rules \<le> intent_notional a))))
    \<and> (approved = [] \<or> dsum (map intent_notional approved) \<le> s3_notional_cap_per_cycle (ze_policy env))
    \<and> (let budget = (case account of None \<Rightarrow> investable | Some a \<Rightarrow> ca_investable_try a) in
         0 < budget \<and> s3_max_notional_per_order (ze_policy env) \<le> 0 \<longrightarrow>
         (\<forall>k < length approved. it_side (approved ! k) = Side_BUY \<longrightarrow> dsum (map intent_notional (take (Suc k) approved)) \<le> budget))
    \<and> set (zs_intents s) \<subseteq> set (zs_intents s')
    \<and> (\<forall>a \<in> set approved. \<exists>r \<in> set (zs_intents s'). in_intent_id r = it_intent_id a \<or> in_idempotency_key r = it_idempotency_key a)"
proof -
  let ?scoped = "normalized_symbols (map it_symbol intents)"
  let ?s = "s\<lparr>zs_ticks := Suc (Suc (zs_ticks s))\<rparr>"
  let ?found = "find_open_or_unknown_orders (zs_orders s) (ze_clock env (zs_ticks s)) ?scoped PENDING_GRACE_SECONDS False False
    UNKNOWN_ESCALATION_ATTEMPTS"
  obtain counts u ctx v where run:
      "sfold (count_existing env ?scoped (millis (ze_clock env (Suc (zs_ticks s))))) ?found \<lparr>oc_counts = [], oc_identifiers = []\<rparr> ?s
        = (u, Inr counts)"
      "evaluate_intents env ctx intents u = (v, Inr approved)"
      "rc_open_orders ctx = oc_counts counts" "rc_last_intent_ts ctx = get_last_intent_ts_by_symbol_side (zs_intents u)"
      "rc_investable_try ctx = (case account of None \<Rightarrow> investable | Some a \<Rightarrow> ca_investable_try a)"
      "zs_intents s' = foldl (\<lambda>rows. record_intent rows (ze_clock env (zs_ticks v))) (zs_intents v) approved"
    using assms unfolding risk_filter_def Let_def risk_now_def
    by (auto dest!: sbind_Inr)
  have u: "zs_intents u = zs_intents s" "zs_cache u = zs_cache s" using counted_kept [OF run(1)] by simp_all
  then have "tables_kept env (zs_cache s) (zs_intents s) u" by (simp add: tables_kept_def)
  note evaluated = evaluate_intents_ok [OF run(2) this]
  have slot: "passed env s i" if "i \<in> set intents" "slot_free env ctx i" for i
  proof (rule slot_free_passed [OF that(2)])
    have symb: "normalize_symbol (it_symbol i) \<in> set ?scoped" using that(1) by (simp add: normalized_symbols_def)
    have idem: "normalize_symbol (normalize_symbol (it_symbol i)) = normalize_symbol (it_symbol i)" by simp
    show "rc_last_intent_ts ctx = get_last_intent_ts_by_symbol_side (zs_intents s)" using run(4) u(1) by simp
    show "length (filter (occupies (normalize_symbol (it_symbol i))) (zs_orders s))
        \<le> dict_get (rc_open_orders ctx) (normalize_symbol (it_symbol i)) 0"
      using counted_rows [OF run(1) symb idem] run(3) by (simp add: occupies_found [OF symb idem])
  qed
  have ok: "order_capped env a \<and> (\<exists>i \<in> set intents. passed env s i \<and> (\<exists>rules. resized env (zs_cache s) rules i a))"
    if "a \<in> set approved" for a
    using evaluated(1) that slot unfolding approvals_ok_def fst_conv by blast
  moreover have "approved = [] \<or> dsum (map intent_notional approved) \<le> s3_notional_cap_per_cycle (ze_policy env)"
    using evaluated(1) unfolding approvals_ok_def fst_conv snd_conv by blast
  moreover have "reserve_kept env ctx approved" using evaluated(1) unfolding approvals_ok_def fst_conv by blast
  moreover have "zs_intents v = zs_intents s" using evaluated(2) by (simp add: tables_kept_def)
  then have "set (zs_intents s) \<subseteq> set (zs_intents s')" "\<forall>a \<in> set approved. recorded (zs_intents s') a"
    using record_intents_keeps record_intents_recorded unfolding run(6) by auto
  ultimately show ?thesis
    using evaluated(3) unfolding reserve_kept_def run(5) Let_def recorded_def resized_def by blast
qed

subsection \<open>Examples\<close>

definition demo_risk_env :: s3_env where
  "demo_risk_env =
     \<lparr>ze_policy = \<lparr>s3_max_orders_per_cycle = 3, s3_max_open_orders_per_symbol = 1, s3_cooldown_seconds = 30,
        s3_notional_cap_per_cycle = 250, s3_max_notional_per_order = 0\<rparr>,
      ze_provider = \<lparr>xp_symbol_rules = (\<lambda>_. Inl (ValueError [])), xp_cache_ttl_seconds = 600, xp_allow_default_fallback = True\<rparr>,
      ze_clock = (\<lambda>n. 100000000 + int n)\<rparr>"

definition demo_wish :: "string \<Rightarrow> string \<Rightarrow> dec \<Rightarrow> stage3_intent" where
  "demo_wish i symb qty =
     \<lparr>it_intent_id = i, it_symbol = symb, it_side = Side_BUY, it_qty = qty, it_limit_price = Some 100, it_reason = [],
      it_confidence = 1, it_ttl_seconds = None, it_idempotency_key = i, it_created_at = 0\<rparr>"

definition demo_risk_state :: s3_state where
  "demo_risk_state =
     \<lparr>zs_cache = [], zs_blocked = [], zs_orders = [],
      zs_intents = [\<lparr>in_intent_id = ''x'', in_symbol = ''ETHTRY'', in_side = ''buy'', in_idempotency_key = ''x'', in_created_at = 90000000\<rparr>],
      zs_ticks = 0\<rparr>"

text \<open>The cooldown stops the second intent, the cap of the cycle the third.\<close>

lemma demo_filter:
  "map_sum (\<lambda>e. ()) (map (\<lambda>a. (it_intent_id a, it_qty a)))
     (snd (risk_filter demo_risk_env ''c'' [demo_wish ''a'' ''BTC_TRY'' 2, demo_wish ''b'' ''ETH_TRY'' 1, demo_wish ''d'' ''SOL_TRY'' 1]
       None 0 1000 None demo_risk_state)) = Inr [(''a'', 2)]"
  by code_simp

theorem risk_filter_sound_witness:
  "\<exists>s' a. risk_filter demo_risk_env ''c'' [demo_wish ''a'' ''BTC_TRY'' 2, demo_wish ''b'' ''ETH_TRY'' 1, demo_wish ''d'' ''SOL_TRY'' 1]
       None 0 1000 None demo_risk_state = (s', Inr [a]) \<and> dsum (map intent_notional [a]) \<le> 250"
proof -
  let ?xs = "[demo_wish ''a'' ''BTC_TRY'' 2, demo_wish ''b'' ''ETH_TRY'' 1, demo_wish ''d'' ''SOL_TRY'' 1]"
  obtain s' r where run: "risk_filter demo_risk_env ''c'' ?xs None 0 1000 None demo_risk_state = (s', r)" by force
  then obtain a where a: "r = Inr [a]" using demo_filter by (cases r) (auto simp: map_eq_Cons_conv)
  from risk_filter_sound [OF run [unfolded a]] show ?thesis
    using run a by (auto simp: demo_risk_env_def)
qed

text \<open>
  Two gaps.  With cash at or below its target the investable amount is zero, which reads as no limit:
  the purchase is approved.  And the quantity cut to the cap per order is not checked against the
  minimum notional again.
\<close>

lemma reserve_not_enforced_at_zero:
  "ca_investable_try (build_cycle_account_snapshot [\<lparr>ch_asset = ''TRY'', ch_free = 100, ch_locked = 0\<rparr>] 300 0 ''TRY'') = 0"
  "map_sum (\<lambda>e. ()) (map intent_notional)
     (snd (risk_filter demo_risk_env ''c'' [demo_wish ''a'' ''BTC_TRY'' 2] None 0 0
        (Some (build_cycle_account_snapshot [\<lparr>ch_asset = ''TRY'', ch_free = 100, ch_locked = 0\<rparr>] 300 0 ''TRY'')) demo_risk_state))
   = Inr [200]"
  by code_simp+

lemma capped_below_minimum:
  "map_sum (\<lambda>e. ()) (map intent_notional)
     (snd (risk_filter (demo_risk_env\<lparr>ze_policy := (ze_policy demo_risk_env)\<lparr>s3_max_notional_per_order := 5\<rparr>\<rparr>) ''c''
        [demo_wish ''a'' ''BTC_TRY'' 2] None 0 1000 None demo_risk_state)) = Inr [5]"
  "s3r_min_notional default_rules = 10"
  by code_simp+

end
