(* ===== verification/Stage4_Accounting.thy ===== *)
theory Stage4_Accounting
  imports Ledger_Service Stage4_Execution Spot_Store
begin

text \<open>
  The accounting of stage 4: \<open>src/src/btcbot/services/accounting_service_stage4.py\<close> on the tables of
  fills, applied fills, positions, snapshots and cursors in \<open>services/state_store.py\<close>, and the step of
  \<open>services/stage4_cycle_runner.py\<close> that fetches the fills of a cycle and books them in one transaction.

  The exchange is the function \<open>fe_recent_fills\<close>; the text made of a fill without id is a parameter.
  The theorems show that a fill is booked once however often it is delivered, and that a fetch misses
  no fill of its window and never moves the cursor back.
\<close>

subsection \<open>Definitions: fills and tables\<close>

record trade_fill =
  tf_fill_id :: "string option"
  tf_order_id :: string
  tf_symbol :: string
  tf_side :: order_side
  tf_price :: dec
  tf_qty :: dec
  tf_fee :: dec
  tf_fee_currency :: string
  tf_ts :: instant

record fills_env =
  fe_recent_fills :: "string \<Rightarrow> int \<Rightarrow> trade_fill list result"
  fe_fallback_id :: "trade_fill \<Rightarrow> string"
  fe_lookback_minutes :: int
  fe_clock :: "nat \<Rightarrow> instant"
  fe_event_texts :: "ledger_event \<Rightarrow> string \<times> string"
  fe_ledger_fallback_id :: "s4_fill \<Rightarrow> string"

record fills_state =
  fa_applied :: "string list"
  fa_fills :: "s4_fill list"
  fa_positions :: "(string, s4_position) dict"
  fa_snapshots :: "pnl_snapshot list"
  fa_cursors :: "(string, string) dict"
  fa_audits :: "(string, nat \<times> string list) dict"
  fa_ledger :: ledger_store
  fa_last_applied :: nat
  fa_last_stats :: "(string, nat \<times> nat) dict"
  fa_in_transaction :: bool
  fa_ticks :: nat

definition fills_now :: "fills_env \<Rightarrow> (instant \<Rightarrow> fills_state \<Rightarrow> 'b) \<Rightarrow> fills_state \<Rightarrow> 'b" where
  "fills_now env f s = f (fe_clock env (fa_ticks s)) (s\<lparr>fa_ticks := Suc (fa_ticks s)\<rparr>)"

text \<open>\<open>INSERT OR IGNORE\<close> with the fill id as key; the flag says whether the row is new.\<close>

definition mark_fill_applied :: "string list \<Rightarrow> string \<Rightarrow> string list \<times> bool" where
  "mark_fill_applied applied fill_id =
     (if fill_id \<in> set applied then (applied, False) else (applied @ [fill_id], True))"

definition save_stage4_fill :: "s4_fill list \<Rightarrow> s4_fill \<Rightarrow> s4_fill list" where
  "save_stage4_fill rows f =
     (if list_ex (\<lambda>r. f4_fill_id r = f4_fill_id f) rows then rows
      else rows @ [f\<lparr>f4_symbol := normalize_symbol (f4_symbol f)\<rparr>])"

definition get_stage4_position :: "(string, s4_position) dict \<Rightarrow> string \<Rightarrow> s4_position option" where
  "get_stage4_position d symb = map_of d (normalize_symbol symb)"

definition save_stage4_position :: "(string, s4_position) dict \<Rightarrow> s4_position \<Rightarrow> (string, s4_position) dict" where
  "save_stage4_position d p =
     AList.update (normalize_symbol (p4_symbol p)) (p\<lparr>p4_symbol := normalize_symbol (p4_symbol p)\<rparr>) d"

definition list_stage4_positions :: "(string, s4_position) dict \<Rightarrow> s4_position list" where
  "list_stage4_positions d = map snd (sort_key fst d)"

text \<open>The realised profit of the first snapshot since the beginning of the day.\<close>

definition realized_total_at_day_start :: "pnl_snapshot list \<Rightarrow> instant \<Rightarrow> dec" where
  "realized_total_at_day_start rows day_start =
     (case sort_key pn_ts (filter (\<lambda>r. day_start \<le> pn_ts r) rows) of [] \<Rightarrow> 0 | r # _ \<Rightarrow> pn_realized_total_try r)"

definition compute_drawdown_pct :: "pnl_snapshot list \<Rightarrow> dec \<Rightarrow> dec" where
  "compute_drawdown_pct rows equity_now =
     (let peak = foldl max equity_now (map pn_total_equity_try rows) in
      if peak \<le> 0 then 0 else max 0 (dmul (ddiv (dsub peak equity_now) peak) 100))"

definition all_digits :: "string \<Rightarrow> bool" where
  "all_digits s = (s \<noteq> [] \<and> list_all (\<lambda>c. let n = (of_char c :: int) in 48 \<le> n \<and> n \<le> 57) s)"

definition set_cursor :: "(string, string) dict \<Rightarrow> string \<Rightarrow> string \<Rightarrow> (string, string) dict result" where
  "set_cursor d key new =
     (let moved_back = (case map_of d key of
            None \<Rightarrow> False
          | Some previous \<Rightarrow> all_digits previous \<and> all_digits new
              \<and> (case (int_of_str new, int_of_str previous) of (Some a, Some b) \<Rightarrow> a < b | _ \<Rightarrow> False))
      in if moved_back then Inl (ValueError (''cursor_monotonicity_violation key='' @ key)) else Inr (AList.update key new d))"

subsection \<open>Definitions: fetching\<close>

record fetch_result =
  fr_fills :: "s4_fill list"
  fr_seen :: nat
  fr_deduped :: nat
  fr_cursor_after :: "string option"
  fr_last_seen_id :: "string option"
  fr_last_seen_ts :: "int option"

record fetch_acc =
  fc_fills :: "s4_fill list"
  fc_seen :: nat
  fc_deduped :: nat
  fc_max_ts :: int
  fc_last_id :: "string option"
  fc_last_ts :: "int option"

definition cursor_key :: "string \<Rightarrow> string" where
  "cursor_key symb = ''fills_cursor:'' @ normalize_symbol symb"

definition id_text :: "trade_fill \<Rightarrow> string" where
  "id_text f = (case tf_fill_id f of None \<Rightarrow> [] | Some i \<Rightarrow> i)"

definition fill_identity :: "fills_env \<Rightarrow> trade_fill \<Rightarrow> string" where
  "fill_identity env f = (let i = str_strip (id_text f) in if i = [] then fe_fallback_id env f else i)"

definition booked_fill :: "fills_env \<Rightarrow> trade_fill \<Rightarrow> s4_fill" where
  "booked_fill env f =
     \<lparr>f4_fill_id = fill_identity env f, f4_order_id = tf_order_id f, f4_symbol = tf_symbol f, f4_side = side_text (tf_side f),
      f4_price = tf_price f, f4_qty = tf_qty f, f4_fee = tf_fee f, f4_fee_asset = tf_fee_currency f, f4_ts = tf_ts f\<rparr>"

text \<open>The ids seen so far are the ids of the fills kept so far.\<close>

definition collect_fill :: "fills_env \<Rightarrow> fetch_acc \<Rightarrow> trade_fill \<Rightarrow> fetch_acc" where
  "collect_fill env acc0 f =
     (let acc = acc0\<lparr>fc_seen := Suc (fc_seen acc0)\<rparr>; i = fill_identity env f; ts_ms = millis (tf_ts f) in
      if i \<in> set (map f4_fill_id (fc_fills acc)) then acc\<lparr>fc_deduped := Suc (fc_deduped acc)\<rparr>
      else
        let later = (case fc_last_ts acc of None \<Rightarrow> True | Some t \<Rightarrow> t \<le> ts_ms) in
        acc\<lparr>fc_fills := fc_fills acc @ [booked_fill env f], fc_max_ts := max (fc_max_ts acc) ts_ms,
            fc_last_id := (if later then Some i else fc_last_id acc),
            fc_last_ts := (if later then Some ts_ms else fc_last_ts acc)\<rparr>)"

definition collect_fills :: "fills_env \<Rightarrow> int \<Rightarrow> int \<Rightarrow> trade_fill list \<Rightarrow> fetch_acc" where
  "collect_fills env floor_ms since_ms incoming =
     foldl (collect_fill env)
       \<lparr>fc_fills = [], fc_seen = 0, fc_deduped = 0, fc_max_ts = floor_ms, fc_last_id = None, fc_last_ts = None\<rparr>
       (sort_key (\<lambda>f. (tf_ts f, id_text f)) (filter (\<lambda>f. since_ms * 1000 \<le> tf_ts f) incoming))"

definition fetched_of :: "fetch_acc \<Rightarrow> fetch_result" where
  "fetched_of acc =
     \<lparr>fr_fills = fc_fills acc, fr_seen = fc_seen acc, fr_deduped = fc_deduped acc,
      fr_cursor_after = (if 0 < fc_max_ts acc then Some (str_nat (nat (fc_max_ts acc))) else None),
      fr_last_seen_id = fc_last_id acc, fr_last_seen_ts = fc_last_ts acc\<rparr>"

definition fetch_window :: "fills_env \<Rightarrow> string \<Rightarrow> int \<Rightarrow> int \<Rightarrow> fetch_result result" where
  "fetch_window env symb floor_ms since_ms =
     rbind (fe_recent_fills env symb since_ms) (\<lambda>incoming. Inr (fetched_of (collect_fills env floor_ms since_ms incoming)))"

definition fetch_new_fills :: "fills_env \<Rightarrow> string \<Rightarrow> (fills_state, fetch_result) comp" where
  "fetch_new_fills env symb s =
     (let lookback_ms = fe_lookback_minutes env * 60 * 1000 in
      case map_of (fa_cursors s) (cursor_key symb) of
        Some text_ms \<Rightarrow>
          (s, case int_of_str text_ms of
                None \<Rightarrow> Inl (ValueError ''invalid literal for int()'')
              | Some floor_ms \<Rightarrow> fetch_window env symb floor_ms (max 0 (floor_ms - lookback_ms)))
      | None \<Rightarrow> fills_now env (\<lambda>now s. (s, fetch_window env symb 0 (max 0 (millis now - lookback_ms)))) s)"

subsection \<open>Definitions: booking\<close>

definition convert_fee_to_try :: "string \<Rightarrow> dec \<Rightarrow> (string, dec) dict \<Rightarrow> dec \<times> string option" where
  "convert_fee_to_try fee_asset fee_amount mark_prices =
     (let currency = str_upper fee_asset in
      if fee_amount \<le> 0 then (0, None)
      else if currency = ''TRY'' then (fee_amount, None)
      else
        let marks = dict_comp normalize_symbol (\<lambda>x. x) mark_prices;
            rate = (\<lambda>symb. case map_of marks (normalize_symbol symb) of Some r \<Rightarrow> if 0 < r then Some r else None | None \<Rightarrow> None)
        in case rate (currency @ ''TRY'') of
             Some direct \<Rightarrow> (dmul fee_amount direct, None)
           | None \<Rightarrow>
               (case rate (''TRY'' @ currency) of
                  Some inverted \<Rightarrow> (ddiv fee_amount inverted, None)
                | None \<Rightarrow> (0, Some (''missing_fee_conversion:'' @ currency))))"

definition is_buy_fill :: "s4_fill \<Rightarrow> bool" where
  "is_buy_fill f \<longleftrightarrow> str_lower (f4_side f) = ''buy''"

definition updated_position :: "s4_position \<Rightarrow> s4_fill \<Rightarrow> dec \<Rightarrow> s4_position result" where
  "updated_position p f fee_try =
     (if is_buy_fill f then
        let total_cost = dadd (dadd (dmul (p4_avg_cost_try p) (p4_qty p)) (dmul (f4_price f) (f4_qty f))) fee_try;
            new_qty = dadd (p4_qty p) (f4_qty f)
        in Inr (p\<lparr>p4_qty := new_qty, p4_avg_cost_try := (if 0 < new_qty then ddiv total_cost new_qty else 0),
             p4_last_update_ts := f4_ts f\<rparr>)
      else if p4_qty p < f4_qty f then Inl (AccountingIntegrityError ''oversell_detected'')
      else
        let realized = dsub (dmul (dsub (f4_price f) (p4_avg_cost_try p)) (f4_qty f)) fee_try;
            remaining = dsub (p4_qty p) (f4_qty f)
        in Inr (p\<lparr>p4_qty := remaining, p4_avg_cost_try := (if 0 < remaining then p4_avg_cost_try p else 0),
             p4_realized_pnl_try := dadd (p4_realized_pnl_try p) realized, p4_last_update_ts := f4_ts f\<rparr>))"

record apply_acc =
  aa_notes :: "string list"
  aa_applied :: nat
  aa_stats :: "(string, nat \<times> nat) dict"

definition position_or_new :: "(string, s4_position) dict \<Rightarrow> s4_fill \<Rightarrow> s4_position" where
  "position_or_new d f =
     (case get_stage4_position d (f4_symbol f) of
        Some p \<Rightarrow> p
      | None \<Rightarrow> \<lparr>p4_symbol = f4_symbol f, p4_qty = 0, p4_avg_cost_try = 0, p4_realized_pnl_try = 0, p4_last_update_ts = f4_ts f\<rparr>)"

definition apply_fill_once :: "(string, dec) dict \<Rightarrow> s4_fill \<Rightarrow> apply_acc \<Rightarrow> (fills_state, apply_acc) comp" where
  "apply_fill_once mark_prices f acc s =
     (let symb = normalize_symbol (f4_symbol f); (n, d) = dict_get (aa_stats acc) symb (0, 0) in
      case mark_fill_applied (fa_applied s) (f4_fill_id f) of
        (_, False) \<Rightarrow> (s, Inr (acc\<lparr>aa_stats := AList.update symb (n, Suc d) (aa_stats acc)\<rparr>))
      | (applied, True) \<Rightarrow>
          let s1 = s\<lparr>fa_applied := applied, fa_fills := save_stage4_fill (fa_fills s) f\<rparr>;
              (fee_try, note) = convert_fee_to_try (f4_fee_asset f) (f4_fee f) mark_prices;
              acc1 = acc\<lparr>aa_applied := Suc (aa_applied acc), aa_stats := AList.update symb (Suc n, d) (aa_stats acc),
                aa_notes := aa_notes acc @ (case note of None \<Rightarrow> [] | Some t \<Rightarrow> [t @ '':'' @ f4_fill_id f])\<rparr>
          in case updated_position (position_or_new (fa_positions s1) f) f fee_try of
               Inl e \<Rightarrow> (s1, Inl e)
             | Inr p \<Rightarrow> (s1\<lparr>fa_positions := save_stage4_position (fa_positions s1) p\<rparr>, Inr acc1))"

definition day_micros :: int where
  "day_micros = 24 * 60 * 60 * 1000000"

definition equity_of :: "(string, dec) dict \<Rightarrow> dec \<Rightarrow> s4_position list \<Rightarrow> dec" where
  "equity_of mark_prices try_cash positions =
     foldl (\<lambda>acc p. dadd acc (dmul (p4_qty p) (dict_get mark_prices (normalize_symbol (p4_symbol p)) (p4_avg_cost_try p))))
       try_cash positions"

text \<open>
  The audit is written on a connection of its own that begins with \<open>BEGIN IMMEDIATE\<close>; while a transaction
  of the store holds the write lock of the database file this raises after the busy timeout.
\<close>

definition record_accounting_audit :: "instant \<Rightarrow> nat \<Rightarrow> string list \<Rightarrow> (fills_state, unit) comp" where
  "record_accounting_audit now n notes s =
     (if fa_in_transaction s then (s, Inl (OperationalError ''database is locked''))
      else (s\<lparr>fa_audits := AList.update (''accounting-'' @ str_nat (nat (now div 1000000))) (n, notes) (fa_audits s)\<rparr>, Inr ()))"

definition finish_apply ::
  "fills_env \<Rightarrow> s4_fill list \<Rightarrow> (string, dec) dict \<Rightarrow> dec \<Rightarrow> apply_acc \<Rightarrow> (fills_state, pnl_snapshot) comp" where
  "finish_apply env fills mark_prices try_cash acc =
     fills_now env (\<lambda>today. fills_now env (\<lambda>now s.
       let positions = list_stage4_positions (fa_positions s);
           realized_total = dsum (map p4_realized_pnl_try positions);
           total_equity = equity_of mark_prices try_cash positions;
           baseline = realized_total_at_day_start (fa_snapshots s) (today div day_micros * day_micros);
           pnl = \<lparr>pn_total_equity_try = total_equity, pn_realized_today_try = dsub realized_total baseline,
             pn_drawdown_pct = compute_drawdown_pct (fa_snapshots s) total_equity, pn_ts = now,
             pn_realized_total_try = realized_total\<rparr>;
           s1 = s\<lparr>fa_snapshots := fa_snapshots s @ [pnl]\<rparr>
       in sbind (if aa_notes acc = [] then (s1, Inr ()) else record_accounting_audit now (length fills) (aa_notes acc) s1)
            (\<lambda>_ s2. (s2\<lparr>fa_last_applied := aa_applied acc, fa_last_stats := aa_stats acc\<rparr>, Inr pnl))))"

definition apply_s4_fills ::
  "fills_env \<Rightarrow> s4_fill list \<Rightarrow> (string, dec) dict \<Rightarrow> dec \<Rightarrow> (fills_state, pnl_snapshot) comp" where
  "apply_s4_fills env fills mark_prices try_cash s =
     sbind (sfold (apply_fill_once mark_prices) fills \<lparr>aa_notes = [], aa_applied = 0, aa_stats = []\<rparr> s)
       (finish_apply env fills mark_prices try_cash)"

subsection \<open>Definitions: the step of the cycle\<close>

record fetched =
  ft_fills :: "s4_fill list"
  ft_cursors :: "(string, string) dict"
  ft_failed :: "string list"

definition fetch_symbol :: "fills_env \<Rightarrow> string \<Rightarrow> fetched \<times> fills_state \<Rightarrow> fetched \<times> fills_state" where
  "fetch_symbol env symb = (\<lambda>(acc, s).
     let normalized = normalize_symbol symb in
     case fetch_new_fills env symb s of
       (s', Inl e) \<Rightarrow> (acc\<lparr>ft_failed := ft_failed acc @ [normalized]\<rparr>, s')
     | (s', Inr r) \<Rightarrow>
         (acc\<lparr>ft_fills := ft_fills acc @ fr_fills r,
              ft_cursors := (case fr_cursor_after r of None \<Rightarrow> ft_cursors acc | Some c \<Rightarrow> AList.update normalized c (ft_cursors acc))\<rparr>,
          s'))"

text \<open>A transaction: an exception rolls the tables back; the readings of the clock have happened.\<close>

definition book_transaction ::
  "fills_env \<Rightarrow> fetched \<Rightarrow> (string, dec) dict \<Rightarrow> dec \<Rightarrow> (fills_state, append_result \<times> pnl_snapshot) comp" where
  "book_transaction env fetched mark_prices try_cash s =
     (let (ledger, appended) = ingest_exchange_updates (fe_event_texts env) (fe_ledger_fallback_id env) (fa_ledger s) (ft_fills fetched);
          settled = sbind (apply_s4_fills env (ft_fills fetched) mark_prices try_cash (s\<lparr>fa_ledger := ledger, fa_in_transaction := True\<rparr>))
            (\<lambda>pnl s1.
            case rfold (\<lambda>d (symb, c). if symb \<in> set (ft_failed fetched) then Inr d else set_cursor d (cursor_key symb) c)
                (fa_cursors s1) (ft_cursors fetched) of
              Inl e \<Rightarrow> (s1, Inl e)
            | Inr cursors \<Rightarrow> (s1\<lparr>fa_cursors := cursors\<rparr>, Inr (appended, pnl)))
      in case settled of
           (s', Inl e) \<Rightarrow> (s\<lparr>fa_ticks := fa_ticks s'\<rparr>, Inl e)
         | (s', Inr r) \<Rightarrow> (s'\<lparr>fa_in_transaction := False\<rparr>, Inr r))"

definition book_cycle ::
  "fills_env \<Rightarrow> string list \<Rightarrow> (string, dec) dict \<Rightarrow> dec \<Rightarrow> (fills_state, append_result \<times> pnl_snapshot) comp" where
  "book_cycle env symbols mark_prices try_cash s =
     (case fold (fetch_symbol env) symbols (\<lparr>ft_fills = [], ft_cursors = [], ft_failed = []\<rparr>, s) of
        (fetched, s') \<Rightarrow> book_transaction env fetched mark_prices try_cash s')"

subsection \<open>A fill is booked once\<close>

lemma sbind_Inr4: "sbind m f = (s', Inr y) \<Longrightarrow> \<exists>s x. m = (s, Inr x) \<and> f x s = (s', Inr y)"
  by (cases m) (auto simp: sbind_def split: sum.splits)

text \<open>The fills whose id has not been applied, each once.\<close>

fun fresh_fills :: "string set \<Rightarrow> s4_fill list \<Rightarrow> s4_fill list" where
  "fresh_fills A [] = []"
| "fresh_fills A (f # fs) =
     (if f4_fill_id f \<in> A then fresh_fills A fs else f # fresh_fills (insert (f4_fill_id f) A) fs)"

lemma fresh_fills_append:
  "fresh_fills A (xs @ ys) = fresh_fills A xs @ fresh_fills (A \<union> f4_fill_id ` set xs) ys"
  by (induction xs arbitrary: A) (auto simp: insert_absorb)

definition book_qty :: "dec \<Rightarrow> s4_fill \<Rightarrow> dec" where
  "book_qty q f = (if is_buy_fill f then dadd q (f4_qty f) else dsub q (f4_qty f))"

definition position_qty :: "(string, s4_position) dict \<Rightarrow> string \<Rightarrow> dec" where
  "position_qty d symb = (case map_of d symb of None \<Rightarrow> 0 | Some p \<Rightarrow> p4_qty p)"

definition positions_wf :: "(string, s4_position) dict \<Rightarrow> bool" where
  "positions_wf d \<longleftrightarrow> (\<forall>k p. map_of d k = Some p \<longrightarrow> p4_symbol p = k \<and> canonical_symbol k = k \<and> 0 \<le> p4_qty p)"

definition fill_of :: "string \<Rightarrow> s4_fill \<Rightarrow> bool" where
  "fill_of symb f \<longleftrightarrow> normalize_symbol (f4_symbol f) = symb"

lemma updated_position_qty:
  "updated_position p f fee = Inr p' \<Longrightarrow> p4_qty p' = book_qty (p4_qty p) f \<and> p4_symbol p' = p4_symbol p
     \<and> (is_buy_fill f \<or> f4_qty f \<le> p4_qty p)"
  by (auto simp: updated_position_def book_qty_def Let_def not_less split: if_splits)

lemma position_or_new_wf:
  assumes "positions_wf d"
  shows "normalize_symbol (p4_symbol (position_or_new d f)) = normalize_symbol (f4_symbol f)"
    and "p4_qty (position_or_new d f) = position_qty d (normalize_symbol (f4_symbol f))"
  using assms by (auto simp: position_or_new_def get_stage4_position_def position_qty_def positions_wf_def split: option.splits)

lemma apply_fill_once_cases:
  assumes "apply_fill_once marks f acc s = (t, Inr acc')"
  obtains (seen) "f4_fill_id f \<in> set (fa_applied s)" "t = s"
    | (fresh) fee p where "f4_fill_id f \<notin> set (fa_applied s)" "updated_position (position_or_new (fa_positions s) f) f fee = Inr p"
        "t = s\<lparr>fa_applied := fa_applied s @ [f4_fill_id f], fa_fills := save_stage4_fill (fa_fills s) f,
               fa_positions := save_stage4_position (fa_positions s) p\<rparr>"
  using assms
  by (auto simp: apply_fill_once_def mark_fill_applied_def Let_def split: prod.splits if_splits sum.splits)

definition booked :: "string \<Rightarrow> s4_fill list \<Rightarrow> fills_state \<Rightarrow> fills_state \<Rightarrow> bool" where
  "booked symb fills s t \<longleftrightarrow>
     position_qty (fa_positions t) symb
       = foldl book_qty (position_qty (fa_positions s) symb) (filter (fill_of symb) (fresh_fills (set (fa_applied s)) fills))
     \<and> set (fa_applied t) = set (fa_applied s) \<union> f4_fill_id ` set fills \<and> positions_wf (fa_positions t)"

lemma apply_fill_once_booked:
  assumes "apply_fill_once marks f acc s = (t, Inr acc')" "positions_wf (fa_positions s)"
    and "is_buy_fill f \<longrightarrow> 0 \<le> f4_qty f"
  shows "booked symb [f] s t"
  using assms(1)
proof (cases rule: apply_fill_once_cases)
  case (fresh fee p)
  note up = updated_position_qty [OF fresh(2)] position_or_new_wf [OF assms(2), of f]
  have qty: "p4_qty p = book_qty (position_qty (fa_positions s) (normalize_symbol (f4_symbol f))) f"
    and symb: "normalize_symbol (p4_symbol p) = normalize_symbol (f4_symbol f)"
    using up by auto
  have old: "0 \<le> position_qty (fa_positions s) k" for k
    using assms(2) by (auto simp: position_qty_def positions_wf_def split: option.splits)
  have "0 \<le> p4_qty p"
    using up old [of "normalize_symbol (f4_symbol f)"] assms(3) by (auto simp: book_qty_def dec_sign)
  then have "positions_wf (fa_positions t)"
    using assms(2) fresh(3) symb by (auto simp: positions_wf_def save_stage4_position_def)
  then show ?thesis
    using fresh qty symb by (auto simp: booked_def fill_of_def position_qty_def save_stage4_position_def)
qed (use assms(2) in \<open>auto simp: booked_def insert_absorb\<close>)

lemma booked_append:
  assumes "booked symb xs s t" "booked symb ys t u"
  shows "booked symb (xs @ ys) s u"
  using assms by (auto simp: booked_def fresh_fills_append image_Un Un_assoc)

lemma apply_loop_booked:
  assumes "sfold (apply_fill_once marks) fills acc s = (t, Inr acc')" "positions_wf (fa_positions s)"
    and "\<forall>f \<in> set fills. is_buy_fill f \<longrightarrow> 0 \<le> f4_qty f"
  shows "booked symb fills s t"
  using assms
proof (induction fills arbitrary: acc s)
  case (Cons f fills)
  from Cons.prems(1) obtain u acc1 where u: "apply_fill_once marks f acc s = (u, Inr acc1)"
      "sfold (apply_fill_once marks) fills acc1 u = (t, Inr acc')"
    by (auto dest: sbind_Inr4)
  have first: "booked symb [f] s u" using apply_fill_once_booked [OF u(1)] Cons.prems by simp
  then have "booked symb fills u t" using Cons.IH [OF u(2)] Cons.prems(3) by (simp add: booked_def)
  then show ?case using booked_append [OF first] by simp
qed (simp add: booked_def)

lemma finish_apply_fst:
  "fa_positions (fst (finish_apply env fills marks cash acc s)) = fa_positions s"
  "fa_applied (fst (finish_apply env fills marks cash acc s)) = fa_applied s"
  "fa_fills (fst (finish_apply env fills marks cash acc s)) = fa_fills s"
  "aa_notes acc = [] \<Longrightarrow> \<exists>pnl. snd (finish_apply env fills marks cash acc s) = Inr pnl"
  by (simp_all add: finish_apply_def fills_now_def record_accounting_audit_def sbind_def Let_def)

lemma finish_apply_tables:
  "finish_apply env fills marks cash acc s = (t, r) \<Longrightarrow>
     fa_positions t = fa_positions s \<and> fa_applied t = fa_applied s \<and> fa_fills t = fa_fills s"
  by (metis finish_apply_fst(1,2,3) fst_conv)

text \<open>
  (C8) Booking fills changes the position of every symbol by exactly the fills whose id was not applied
  before, each once, in their order; all their ids are applied afterwards, and positions stay
  well-formed and not negative.
\<close>

theorem fills_booked_once:
  assumes "apply_s4_fills env fills marks cash s = (t, Inr pnl)" "positions_wf (fa_positions s)"
    and "\<forall>f \<in> set fills. is_buy_fill f \<longrightarrow> 0 \<le> f4_qty f"
  shows "position_qty (fa_positions t) symb
       = foldl book_qty (position_qty (fa_positions s) symb) (filter (fill_of symb) (fresh_fills (set (fa_applied s)) fills))
    \<and> set (fa_applied t) = set (fa_applied s) \<union> f4_fill_id ` set fills \<and> positions_wf (fa_positions t)"
proof -
  obtain u acc where u: "sfold (apply_fill_once marks) fills \<lparr>aa_notes = [], aa_applied = 0, aa_stats = []\<rparr> s = (u, Inr acc)"
      "finish_apply env fills marks cash acc u = (t, Inr pnl)"
    using assms(1) unfolding apply_s4_fills_def by (blast dest: sbind_Inr4)
  show ?thesis
    using apply_loop_booked [OF u(1) assms(2,3), of symb] finish_apply_tables [OF u(2)] by (simp add: booked_def)
qed

lemma apply_loop_seen:
  "f4_fill_id ` set fills \<subseteq> set (fa_applied s) \<Longrightarrow>
     \<exists>stats. sfold (apply_fill_once marks) fills acc s = (s, Inr (acc\<lparr>aa_stats := stats\<rparr>))"
proof (induction fills arbitrary: acc)
  case (Cons f fills)
  have "\<exists>stats. apply_fill_once marks f acc s = (s, Inr (acc\<lparr>aa_stats := stats\<rparr>))"
    using Cons.prems by (auto simp: apply_fill_once_def mark_fill_applied_def Let_def split: prod.splits)
  then obtain st where st: "apply_fill_once marks f acc s = (s, Inr (acc\<lparr>aa_stats := st\<rparr>))" ..
  show ?case using Cons.IH [of "acc\<lparr>aa_stats := st\<rparr>"] Cons.prems by (simp add: sbind_def st)
next
  case Nil
  then show ?case by (intro exI [of _ "aa_stats acc"]) simp
qed

lemma redelivered_fills_change_nothing:
  assumes "f4_fill_id ` set fills \<subseteq> set (fa_applied s)" "apply_s4_fills env fills marks cash s = (t, r)"
  shows "fa_positions t = fa_positions s \<and> fa_fills t = fa_fills s \<and> fa_applied t = fa_applied s \<and> (\<exists>pnl. r = Inr pnl)"
proof -
  obtain stats where "sfold (apply_fill_once marks) fills \<lparr>aa_notes = [], aa_applied = 0, aa_stats = []\<rparr> s
      = (s, Inr \<lparr>aa_notes = [], aa_applied = 0, aa_stats = stats\<rparr>)"
    using apply_loop_seen [OF assms(1), of marks "\<lparr>aa_notes = [], aa_applied = 0, aa_stats = []\<rparr>"] by auto
  then have run: "finish_apply env fills marks cash \<lparr>aa_notes = [], aa_applied = 0, aa_stats = stats\<rparr> s = (t, r)"
    using assms(2) by (simp add: apply_s4_fills_def sbind_def)
  then have "\<exists>pnl. r = Inr pnl"
    using finish_apply_fst(4) [of "\<lparr>aa_notes = [], aa_applied = 0, aa_stats = stats\<rparr>" env fills marks cash s] by simp
  then show ?thesis using finish_apply_tables [OF run] by blast
qed

subsection \<open>A fetch misses nothing and the cursor does not move back\<close>

lemma digit_code: "k < 10 \<Longrightarrow> (of_char (char_of (48 + k :: nat) :: char) :: int) = 48 + int k"
proof -
  assume "k < 10"
  moreover have "(of_char (char_of (48 + k :: nat) :: char) :: int) = int (of_char (char_of (48 + k :: nat) :: char))"
    by (simp only: of_nat_of_char)
  ultimately show ?thesis by (simp add: of_char_of)
qed

lemma dec_digits_snoc:
  "dec_digits p acc xs = Some v \<Longrightarrow> k < 10 \<Longrightarrow> dec_digits p acc (xs @ [char_of (48 + k :: nat)]) = Some (10 * v + int k)"
proof (induction p acc xs rule: dec_digits.induct)
  case (1 prev acc)
  have "(of_char (CHR ''_'') :: int) = 95" by simp
  then have "char_of (48 + k :: nat) \<noteq> CHR ''_''" using digit_code [OF 1(2)] 1(2) by auto
  then show ?case using 1 by (auto simp: digit_code Let_def split: if_splits)
qed (auto simp: Let_def split: if_splits)

definition is_digit :: "char \<Rightarrow> bool" where
  "is_digit c \<longleftrightarrow> 48 \<le> (of_char c :: int) \<and> (of_char c :: int) \<le> 57"

lemma str_nat_digits: "str_nat n \<noteq> [] \<and> list_all is_digit (str_nat n)"
proof (induction n rule: str_nat.induct)
  case (1 n)
  have "is_digit (char_of (48 + k :: nat))" if "k < 10" for k using that by (simp add: is_digit_def digit_code)
  then show ?case using 1 by (subst str_nat.simps, subst (2) str_nat.simps) (simp del: str_nat.simps)
qed

lemma dec_digits_str_nat: "dec_digits False 0 (str_nat n) = Some (int n)"
proof (induction n rule: str_nat.induct)
  case (1 n)
  show ?case
  proof (cases "n < 10")
    case True
    then have "(of_char (char_of (48 + n :: nat) :: char) :: int) = 48 + int n" by (rule digit_code)
    moreover from this have "char_of (48 + n :: nat) \<noteq> CHR ''_''" using True by auto
    ultimately show ?thesis using True by (subst str_nat.simps) (simp add: Let_def)
  next
    case False
    have "10 * int (n div 10) + int (n mod 10) = int n" by presburger
    then show ?thesis
      using dec_digits_snoc [OF 1 [OF False], of "n mod 10"] False by (subst str_nat.simps) (simp del: str_nat.simps)
  qed
qed

lemma digit_not_space: "is_digit c \<Longrightarrow> \<not> is_space c"
proof -
  assume "is_digit c"
  moreover have "is_space c \<Longrightarrow> (of_char c :: int) \<le> 32" by (auto simp: is_space_def)
  ultimately show ?thesis by (auto simp: is_digit_def)
qed

lemma strip_digits: "list_all is_digit s \<Longrightarrow> str_strip s = s"
proof -
  have "dropWhile is_space t = t" if "list_all is_digit t" for t
    using that digit_not_space by (cases t) auto
  from this [of s] this [of "rev s"] show "list_all is_digit s \<Longrightarrow> str_strip s = s"
    by (simp add: str_strip_def list_all_rev)
qed

lemma int_of_str_nat [simp]: "int_of_str (str_nat n) = Some (int n)"
proof -
  obtain c cs where c: "str_nat n = c # cs" "is_digit c" using str_nat_digits [of n] by (cases "str_nat n") auto
  have "c \<noteq> CHR ''-''" "c \<noteq> CHR ''+''" using c(2) by (auto simp: is_digit_def)
  then have "\<not> starts_with (str_nat n) ''-''" "\<not> starts_with (str_nat n) ''+''"
    unfolding c(1) by (simp_all add: starts_with_def)
  then show ?thesis
    using strip_digits str_nat_digits [of n] dec_digits_str_nat [of n]
    by (simp add: int_of_str_def Let_def del: str_nat.simps)
qed

lemma collect_fill_cases:
  obtains (seen) "fill_identity env f \<in> f4_fill_id ` set (fc_fills acc)" "fc_fills (collect_fill env acc f) = fc_fills acc"
      "fc_max_ts (collect_fill env acc f) = fc_max_ts acc"
    | (new) "fill_identity env f \<notin> f4_fill_id ` set (fc_fills acc)"
      "fc_fills (collect_fill env acc f) = fc_fills acc @ [booked_fill env f]"
      "fc_max_ts (collect_fill env acc f) = max (fc_max_ts acc) (millis (tf_ts f))"
  by (cases "fill_identity env f \<in> f4_fill_id ` set (fc_fills acc)") (auto simp: collect_fill_def Let_def)

definition collected :: "fills_env \<Rightarrow> int \<Rightarrow> trade_fill set \<Rightarrow> fetch_acc \<Rightarrow> bool" where
  "collected env floor_ms fs acc \<longleftrightarrow>
     f4_fill_id ` set (fc_fills acc) = fill_identity env ` fs \<and> distinct (map f4_fill_id (fc_fills acc))
     \<and> set (fc_fills acc) \<subseteq> booked_fill env ` fs \<and> floor_ms \<le> fc_max_ts acc
     \<and> (\<forall>g \<in> set (fc_fills acc). millis (f4_ts g) \<le> fc_max_ts acc)"

lemma booked_fill_simps [simp]: "f4_fill_id (booked_fill env f) = fill_identity env f" "f4_ts (booked_fill env f) = tf_ts f"
  by (simp_all add: booked_fill_def)

lemma collected_step:
  assumes "collected env floor_ms fs acc"
  shows "collected env floor_ms (insert f fs) (collect_fill env acc f)"
proof (cases rule: collect_fill_cases [of env f acc])
  case seen
  then show ?thesis using assms by (auto simp: collected_def)
next
  case new
  then show ?thesis using assms unfolding collected_def by (auto simp: image_Un intro: max.coboundedI1)
qed

lemma collected_fold: "collected env floor_ms fs acc \<Longrightarrow> collected env floor_ms (fs \<union> set xs) (foldl (collect_fill env) acc xs)"
proof (induction xs arbitrary: fs acc)
  case (Cons x xs)
  then show ?case using Cons.IH [OF collected_step [OF Cons.prems]] by simp
qed simp

lemma collect_fills_collected:
  "collected env floor_ms {f \<in> set incoming. since_ms * 1000 \<le> tf_ts f} (collect_fills env floor_ms since_ms incoming)"
proof -
  have "collected env floor_ms {}
     \<lparr>fc_fills = [], fc_seen = 0, fc_deduped = 0, fc_max_ts = floor_ms, fc_last_id = None, fc_last_ts = None\<rparr>"
    by (simp add: collected_def)
  from collected_fold [OF this, of "sort_key (\<lambda>f. (tf_ts f, id_text f)) (filter (\<lambda>f. since_ms * 1000 \<le> tf_ts f) incoming)"]
  show ?thesis by (simp add: collect_fills_def)
qed

text \<open>
  (C35) A fetch with a stored cursor asks for everything since the cursor less the lookback, returns each
  fill of that window once, and its new cursor is at or after the old one and every returned fill, so
  that writing it never violates the monotonicity of cursors.
\<close>

theorem fetch_complete_and_monotone:
  assumes "fetch_new_fills env symb s = (t, Inr r)" "map_of (fa_cursors s) (cursor_key symb) = Some c" "int_of_str c = Some floor_ms"
  shows "\<exists>incoming since_ms. since_ms = max 0 (floor_ms - fe_lookback_minutes env * 60 * 1000)
    \<and> fe_recent_fills env symb since_ms = Inr incoming
    \<and> f4_fill_id ` set (fr_fills r) = fill_identity env ` {f \<in> set incoming. since_ms * 1000 \<le> tf_ts f}
    \<and> distinct (map f4_fill_id (fr_fills r))
    \<and> set (fr_fills r) \<subseteq> booked_fill env ` {f \<in> set incoming. since_ms * 1000 \<le> tf_ts f}
    \<and> (case fr_cursor_after r of
         None \<Rightarrow> floor_ms \<le> 0
       | Some c' \<Rightarrow> (\<exists>n. int_of_str c' = Some n \<and> floor_ms \<le> n \<and> (\<forall>g \<in> set (fr_fills r). millis (f4_ts g) \<le> n))
           \<and> set_cursor (fa_cursors t) (cursor_key symb) c' = Inr (AList.update (cursor_key symb) c' (fa_cursors t)))"
proof -
  let ?since = "max 0 (floor_ms - fe_lookback_minutes env * 60 * 1000)"
  obtain incoming where inc: "fe_recent_fills env symb ?since = Inr incoming"
      "r = fetched_of (collect_fills env floor_ms ?since incoming)" "t = s"
    using assms by (auto simp: fetch_new_fills_def fetch_window_def Let_def rbind_eq_Inr_iff)
  have col: "collected env floor_ms {f \<in> set incoming. ?since * 1000 \<le> tf_ts f} (collect_fills env floor_ms ?since incoming)"
    by (rule collect_fills_collected)
  have "set_cursor (fa_cursors t) (cursor_key symb) c' = Inr (AList.update (cursor_key symb) c' (fa_cursors t))"
    if "int_of_str c' = Some n" "floor_ms \<le> n" for c' n
    using that assms(2,3) inc(3) by (auto simp: set_cursor_def)
  then show ?thesis
    using col inc(1) unfolding collected_def inc(2) fetched_of_def
    by (intro exI [of _ incoming] exI [of _ ?since]) (auto simp del: str_nat.simps)
qed

subsection \<open>Examples\<close>

definition demo_trade :: "string \<Rightarrow> order_side \<Rightarrow> dec \<Rightarrow> dec \<Rightarrow> string \<Rightarrow> trade_fill" where
  "demo_trade i side qty fee ccy =
     \<lparr>tf_fill_id = Some i, tf_order_id = ''o'', tf_symbol = ''BTC_TRY'', tf_side = side, tf_price = 100, tf_qty = qty, tf_fee = fee,
      tf_fee_currency = ccy, tf_ts = 5000\<rparr>"

definition demo_fills_env :: "trade_fill list \<Rightarrow> fills_env" where
  "demo_fills_env fs =
     \<lparr>fe_recent_fills = (\<lambda>_ _. Inr fs), fe_fallback_id = (\<lambda>_. ''x''), fe_lookback_minutes = 30, fe_clock = (\<lambda>n. day_micros + int n),
      fe_event_texts = (\<lambda>_. ([], [])), fe_ledger_fallback_id = (\<lambda>_. [])\<rparr>"

definition demo_fills_state :: fills_state where
  "demo_fills_state =
     \<lparr>fa_applied = [], fa_fills = [], fa_positions = [], fa_snapshots = [], fa_cursors = [(''fills_cursor:BTCTRY'', ''1'')],
      fa_audits = [], fa_ledger = \<lparr>lg_events = [], lg_checkpoints = [], lg_equity_points = []\<rparr>, fa_last_applied = 0,
      fa_last_stats = [], fa_in_transaction = False, fa_ticks = 0\<rparr>"

definition demo_booking :: "s4_fill list" where
  "demo_booking = map (booked_fill (demo_fills_env []))
     [demo_trade ''a'' Side_BUY 3 0 ''TRY'', demo_trade ''b'' Side_SELL 1 0 ''TRY'', demo_trade ''a'' Side_BUY 3 0 ''TRY'']"

lemma demo_booking_runs:
  "map_sum (\<lambda>e. ()) (\<lambda>x. ()) (snd (apply_s4_fills (demo_fills_env []) demo_booking [] 1000 demo_fills_state)) = Inr ()"
  "foldl book_qty 0 (filter (fill_of ''BTCTRY'') (fresh_fills {} demo_booking)) = 2"
  by code_simp+

theorem fills_booked_once_witness:
  "position_qty (fa_positions (fst (apply_s4_fills (demo_fills_env []) demo_booking [] 1000 demo_fills_state))) ''BTCTRY'' = 2"
proof -
  obtain t r where run: "apply_s4_fills (demo_fills_env []) demo_booking [] 1000 demo_fills_state = (t, r)" by force
  then obtain pnl where r: "r = Inr pnl" using demo_booking_runs(1) by (cases r) simp_all
  have st: "fa_positions demo_fills_state = []" "fa_applied demo_fills_state = []" by (simp_all add: demo_fills_state_def)
  then have "positions_wf (fa_positions demo_fills_state)" by (simp add: positions_wf_def)
  moreover have "\<forall>f \<in> set demo_booking. is_buy_fill f \<longrightarrow> 0 \<le> f4_qty f"
    by (simp add: demo_booking_def booked_fill_def demo_trade_def)
  ultimately show ?thesis
    using fills_booked_once [OF run [unfolded r], of "''BTCTRY''"] demo_booking_runs(2)
    by (simp add: run st) (simp add: position_qty_def)
qed

lemma demo_fetch_runs:
  "map_sum (\<lambda>e. ()) fr_cursor_after
     (snd (fetch_new_fills (demo_fills_env [demo_trade ''a'' Side_BUY 3 0 ''TRY'']) ''BTC_TRY'' demo_fills_state)) = Inr (Some ''5'')"
  "int_of_str ''1'' = Some 1" "cursor_key ''BTC_TRY'' = ''fills_cursor:BTCTRY''"
  by code_simp+

theorem fetch_complete_and_monotone_witness:
  "\<exists>t r. fetch_new_fills (demo_fills_env [demo_trade ''a'' Side_BUY 3 0 ''TRY'']) ''BTC_TRY'' demo_fills_state = (t, Inr r)
     \<and> distinct (map f4_fill_id (fr_fills r)) \<and> (\<exists>n. int_of_str ''5'' = Some n \<and> 1 \<le> n)"
proof -
  let ?env = "demo_fills_env [demo_trade ''a'' Side_BUY 3 0 ''TRY'']"
  obtain t x where run: "fetch_new_fills ?env ''BTC_TRY'' demo_fills_state = (t, x)" by force
  then obtain r where r: "x = Inr r" "fr_cursor_after r = Some ''5''" using demo_fetch_runs(1) by (cases x) simp_all
  have "map_of (fa_cursors demo_fills_state) (cursor_key ''BTC_TRY'') = Some ''1''"
    unfolding demo_fetch_runs(3) by (simp add: demo_fills_state_def)
  from fetch_complete_and_monotone [OF run [unfolded r(1)] this demo_fetch_runs(2)]
  show ?thesis using run r by auto
qed

text \<open>
  On the first cycle of a day there is no snapshot of that day, so the baseline is zero and the realised
  profit of all time counts as that of the day.
\<close>

lemma first_cycle_counts_all_profit:
  "map_sum (\<lambda>e. ()) pn_realized_today_try (snd (apply_s4_fills (demo_fills_env []) [] [] 1000
     (demo_fills_state\<lparr>fa_positions := [(''BTCTRY'', \<lparr>p4_symbol = ''BTCTRY'', p4_qty = 0, p4_avg_cost_try = 0,
        p4_realized_pnl_try = 500, p4_last_update_ts = 0\<rparr>)],
      fa_snapshots := [\<lparr>pn_total_equity_try = 1000, pn_realized_today_try = 500, pn_drawdown_pct = 0, pn_ts = 0,
        pn_realized_total_try = 500\<rparr>]\<rparr>))) = Inr 500"
  by code_simp

text \<open>
  A fee without a conversion to TRY is to be written to the audit, which needs the write lock the
  transaction of the cycle holds: booking fails, and it fails again in every later cycle.
\<close>

lemma apply_loop_in_transaction:
  "sfold (apply_fill_once marks) fills acc s = (t, Inr acc') \<Longrightarrow> fa_in_transaction t = fa_in_transaction s"
proof (induction fills arbitrary: acc s)
  case (Cons f fills)
  from Cons.prems obtain u acc1 where u: "apply_fill_once marks f acc s = (u, Inr acc1)"
      "sfold (apply_fill_once marks) fills acc1 u = (t, Inr acc')"
    by (auto dest: sbind_Inr4)
  have "fa_in_transaction u = fa_in_transaction s" using u(1) by (cases rule: apply_fill_once_cases) simp_all
  then show ?case using Cons.IH [OF u(2)] by simp
qed simp

lemma finish_apply_locked:
  "aa_notes acc \<noteq> [] \<Longrightarrow> fa_in_transaction s \<Longrightarrow>
     snd (finish_apply env fills marks cash acc s) = Inl (OperationalError ''database is locked'')"
  by (simp add: finish_apply_def fills_now_def record_accounting_audit_def sbind_def Let_def)

lemma unconverted_fee_blocks_booking:
  assumes "ingest_exchange_updates (fe_event_texts env) (fe_ledger_fallback_id env) (fa_ledger s) (ft_fills fs) = (ledger, appended)"
    and "sfold (apply_fill_once marks) (ft_fills fs) \<lparr>aa_notes = [], aa_applied = 0, aa_stats = []\<rparr>
      (s\<lparr>fa_ledger := ledger, fa_in_transaction := True\<rparr>) = (u, Inr acc)"
    and "aa_notes acc \<noteq> []"
  shows "\<exists>n. book_transaction env fs marks cash s = (s\<lparr>fa_ticks := n\<rparr>, Inl (OperationalError ''database is locked''))"
proof -
  have "fa_in_transaction u" using apply_loop_in_transaction [OF assms(2)] by simp
  then have "snd (finish_apply env (ft_fills fs) marks cash acc u) = Inl (OperationalError ''database is locked'')"
    by (rule finish_apply_locked [OF assms(3)])
  then obtain v where "finish_apply env (ft_fills fs) marks cash acc u = (v, Inl (OperationalError ''database is locked''))"
    by (metis prod.collapse)
  then show ?thesis using assms(1,2) by (auto simp: book_transaction_def apply_s4_fills_def sbind_def)
qed

lemma failed_booking_rolls_back:
  "book_transaction env fs marks cash s = (t, Inl e) \<Longrightarrow> \<exists>n. t = s\<lparr>fa_ticks := n\<rparr>"
  by (auto simp: book_transaction_def Let_def split: prod.splits sum.splits)

end
