(* ===== verification/Stage4_Reconcile.thy ===== *)
theory Stage4_Reconcile
  imports Stage4_Store Op_State
begin

text \<open>
  The comparison of the stored orders of stage 4 with the open orders of the exchange:
  \<open>src/src/btcbot/services/reconcile_service.py\<close>, the step of \<open>services/stage4_cycle_runner.py\<close> that
  fetches the open orders and applies the result to the store, and the freeze it raises when orders
  of unknown origin appear (\<open>_evaluate_unknown_order_freeze\<close>).

  The exchange is the function \<open>ne_open_orders\<close>; \<open>ne_iso\<close> is the text of an instant.  The details of a
  freeze that are only shown (the samples of ids) are left out.  The theorems say what a comparison
  finds and that foreign orders freeze the process; the lemmas at the end evaluate three gaps.
\<close>

subsection \<open>Definitions: the comparison\<close>

record reconcile_result =
  rr_mark_unknown_closed :: "string list"
  rr_import_external :: "s4_order list"
  rr_enrich_exchange_ids :: "(string \<times> string) list"
  rr_external_missing_client_id :: "s4_order list"

definition id_or_empty :: "string option \<Rightarrow> string" where
  "id_or_empty x = (case x of None \<Rightarrow> [] | Some i \<Rightarrow> i)"

definition client_id_of :: "s4_order \<Rightarrow> string" where
  "client_id_of x = id_or_empty (o4_client_order_id x)"

definition by_client :: "s4_order list \<Rightarrow> (string, s4_order) dict" where
  "by_client xs = fold (\<lambda>x. AList.update (client_id_of x) x) xs []"

definition tracked :: "s4_order \<Rightarrow> bool" where
  "tracked x \<longleftrightarrow> client_id_of x \<noteq> [] \<and> o4_mode x \<noteq> ''external''"

definition resolve_orders :: "s4_order list \<Rightarrow> s4_order list \<Rightarrow> string list \<Rightarrow> reconcile_result" where
  "resolve_orders exchange_open_orders db_open_orders failed_symbols =
     (let blocked = map str_upper failed_symbols;
          exchange_by_client = by_client (filter (\<lambda>x. client_id_of x \<noteq> []) exchange_open_orders);
          db_by_client = by_client (filter tracked db_open_orders);
          checked = filter (\<lambda>(c, x). str_upper (o4_symbol x) \<notin> set blocked) db_by_client
      in \<lparr>rr_mark_unknown_closed = map fst (filter (\<lambda>(c, x). map_of exchange_by_client c = None) checked),
          rr_import_external = map (\<lambda>(c, x). x\<lparr>o4_mode := ''external''\<rparr>)
            (filter (\<lambda>(c, x). map_of db_by_client c = None) exchange_by_client),
          rr_enrich_exchange_ids = List.map_filter (\<lambda>(c, x). case map_of exchange_by_client c of
              None \<Rightarrow> None
            | Some y \<Rightarrow>
                if id_or_empty (o4_exchange_order_id x) = [] \<and> id_or_empty (o4_exchange_order_id y) \<noteq> []
                then Some (c, id_or_empty (o4_exchange_order_id y)) else None) checked,
          rr_external_missing_client_id = filter (\<lambda>x. client_id_of x = []) exchange_open_orders\<rparr>)"

subsection \<open>Definitions: the step of the cycle\<close>

record freeze_settings =
  fq_enabled :: bool
  fq_threshold :: int
  fq_persist_cycles :: int
  fq_persist_seconds :: int

record recon_env =
  ne_open_orders :: "string \<Rightarrow> s4_order list result"
  ne_clock :: "nat \<Rightarrow> instant"
  ne_freeze :: freeze_settings
  ne_role :: string
  ne_iso :: "instant \<Rightarrow> string"

record recon_state =
  ns_rows :: "order_row list"
  ns_op :: op_table
  ns_ticks :: nat

definition fetch_open :: "recon_env \<Rightarrow> string \<Rightarrow> s4_order list \<times> string list \<Rightarrow> s4_order list \<times> string list" where
  "fetch_open env symb acc =
     (case ne_open_orders env symb of
        Inl e \<Rightarrow> (fst acc, snd acc @ [normalize_symbol symb])
      | Inr xs \<Rightarrow> (fst acc @ xs, snd acc))"

definition stamped :: "recon_env \<Rightarrow> (order_row list \<Rightarrow> instant \<Rightarrow> order_row list) \<Rightarrow> recon_state \<Rightarrow> recon_state" where
  "stamped env f s = s\<lparr>ns_rows := f (ns_rows s) (ne_clock env (ns_ticks s)), ns_ticks := Suc (ns_ticks s)\<rparr>"

definition apply_reconcile :: "recon_env \<Rightarrow> reconcile_result \<Rightarrow> recon_state \<Rightarrow> recon_state" where
  "apply_reconcile env r s =
     fold (\<lambda>c. stamped env (\<lambda>rows now. mark_stage4_unknown_closed rows now c)) (rr_mark_unknown_closed r)
       (fold (\<lambda>(c, xid). stamped env (\<lambda>rows now. update_stage4_order_exchange_id rows now c xid)) (rr_enrich_exchange_ids r)
         (fold (\<lambda>x. stamped env (\<lambda>rows now. import_stage4_external_order rows now x)) (rr_import_external r) s))"

text \<open>The symbols without a price count as failed, too; the stored orders are those of all symbols.\<close>

definition reconcile_step ::
  "recon_env \<Rightarrow> string list \<Rightarrow> string list \<Rightarrow> recon_state \<Rightarrow> (s4_order list \<times> s4_order list \<times> reconcile_result) \<times> recon_state" where
  "reconcile_step env active_symbols mark_price_errors s =
     (let (exch, failed) = fold (fetch_open env) active_symbols ([], mark_price_errors);
          db = list_stage4_open_orders (ns_rows s) None False True;
          r = resolve_orders exch db failed
      in ((exch, db, r), apply_reconcile env r s))"

subsection \<open>Definitions: the freeze\<close>

text \<open>The reason of a new freeze, if any, and the count of cycles with a mismatch.\<close>

definition freeze_trigger ::
  "freeze_settings \<Rightarrow> freeze_state \<Rightarrow> int \<Rightarrow> instant \<Rightarrow> nat \<Rightarrow> nat \<Rightarrow> nat \<Rightarrow> string option \<times> int" where
  "freeze_trigger st existing prev_cycles cycle_now missing_client_id unknown_open_orders mismatch =
     (if 0 < missing_client_id then (Some ''external_missing_client_id'', 1)
      else if max 1 (fq_threshold st) \<le> int unknown_open_orders then (Some ''unknown_open_orders'', 1)
      else
        let cycles = (if 0 < mismatch then prev_cycles + 1 else 0) in
        (if 0 < mismatch \<and> max 1 (fq_persist_cycles st) \<le> cycles then Some ''db_exchange_mismatch''
         else if 0 < mismatch \<and> fz_active existing then
           (case fz_since existing of
              None \<Rightarrow> None
            | Some since \<Rightarrow>
                if max 0 (fq_persist_seconds st) \<le> total_seconds (cycle_now - since) then Some ''db_exchange_mismatch'' else None)
         else None, cycles))"

definition str_int_signed :: "int \<Rightarrow> string" where
  "str_int_signed n = (if n < 0 then ''-'' @ str_nat (nat (- n)) else str_nat (nat n))"

definition previous_cycles :: "freeze_state \<Rightarrow> int result" where
  "previous_cycles existing =
     (case map_of (if fz_active existing then fz_details existing else []) ''persist_cycles'' of
        None \<Rightarrow> Inr 0
      | Some t \<Rightarrow> (case int_of_str t of None \<Rightarrow> Inl (ValueError ''invalid literal for int()'') | Some n \<Rightarrow> Inr n))"

definition freeze_details :: "recon_env \<Rightarrow> instant \<Rightarrow> nat \<Rightarrow> nat \<Rightarrow> reconcile_result \<Rightarrow> int \<Rightarrow> (string, string) dict" where
  "freeze_details env cycle_now exchange_open db_open r cycles =
     [(''exchange_open_orders'', str_nat exchange_open), (''db_open_orders'', str_nat db_open),
      (''missing_client_id_count'', str_nat (length (rr_external_missing_client_id r))),
      (''unknown_open_orders_count'', str_nat (length (rr_import_external r))),
      (''db_exchange_mismatch_count'', str_nat (length (rr_mark_unknown_closed r))),
      (''persist_cycles'', str_int_signed cycles), (''last_cycle_ts'', ne_iso env cycle_now)]"

definition heartbeat_details :: "recon_env \<Rightarrow> instant \<Rightarrow> nat \<Rightarrow> nat \<Rightarrow> (string, string) dict \<Rightarrow> (string, string) dict" where
  "heartbeat_details env cycle_now exchange_open db_open d =
     AList.update ''db_open_orders'' (str_nat db_open)
       (AList.update ''exchange_open_orders'' (str_nat exchange_open) (AList.update ''last_cycle_ts'' (ne_iso env cycle_now) d))"

definition freeze_now :: "recon_env \<Rightarrow> string \<Rightarrow> (string, string) dict \<Rightarrow> recon_state \<Rightarrow> freeze_state \<times> recon_state" where
  "freeze_now env reason details s =
     (case stage4_set_freeze (ns_op s) (ne_clock env (ns_ticks s)) (ne_clock env (Suc (ns_ticks s))) (ne_role env) reason details of
        (f, tab) \<Rightarrow> (f, s\<lparr>ns_op := tab, ns_ticks := Suc (Suc (ns_ticks s))\<rparr>))"

definition evaluate_unknown_freeze ::
  "recon_env \<Rightarrow> instant \<Rightarrow> s4_order list \<Rightarrow> s4_order list \<Rightarrow> reconcile_result \<Rightarrow> recon_state \<Rightarrow>
   (freeze_state \<times> bool) result \<times> recon_state" where
  "evaluate_unknown_freeze env cycle_now exch db r s0 =
     (case stage4_get_freeze (ns_op s0) (ne_clock env (ns_ticks s0)) (ne_role env) of
        (existing, tab) \<Rightarrow>
          let s = s0\<lparr>ns_op := tab, ns_ticks := Suc (ns_ticks s0)\<rparr> in
          if \<not> fq_enabled (ne_freeze env) then (Inr (existing, False), s)
          else case previous_cycles existing of
            Inl e \<Rightarrow> (Inl e, s)
          | Inr prev_cycles \<Rightarrow>
              (case freeze_trigger (ne_freeze env) existing prev_cycles cycle_now (length (rr_external_missing_client_id r))
                  (length (rr_import_external r)) (length (rr_mark_unknown_closed r)) of
                 (Some reason, cycles) \<Rightarrow>
                   (case freeze_now env reason (freeze_details env cycle_now (length exch) (length db) r cycles) s of
                      (f, s') \<Rightarrow> (Inr (f, True), s'))
               | (None, cycles) \<Rightarrow>
                   if fz_active existing then
                     (case freeze_now env (case fz_reason existing of None \<Rightarrow> ''unknown_open_orders'' | Some t \<Rightarrow> t)
                         (heartbeat_details env cycle_now (length exch) (length db) (fz_details existing)) s of
                        (f, s') \<Rightarrow> (Inr (f, False), s'))
                   else (Inr (existing, False), s)))"

definition reconcile_cycle ::
  "recon_env \<Rightarrow> string list \<Rightarrow> string list \<Rightarrow> instant \<Rightarrow> recon_state \<Rightarrow>
   (reconcile_result \<times> (freeze_state \<times> bool) result) \<times> recon_state" where
  "reconcile_cycle env active_symbols mark_price_errors cycle_now s =
     (case reconcile_step env active_symbols mark_price_errors s of
        ((exch, db, r), s1) \<Rightarrow>
          (case evaluate_unknown_freeze env cycle_now exch db r s1 of (f, s2) \<Rightarrow> ((r, f), s2)))"

subsection \<open>What a comparison finds\<close>

lemma map_of_fold_update:
  "map_of (fold (\<lambda>x. AList.update (f x) x) xs d) c =
     (case filter (\<lambda>x. f x = c) (rev xs) of [] \<Rightarrow> map_of d c | x # _ \<Rightarrow> Some x)"
  by (induction xs arbitrary: d) (auto split: list.splits)

lemma dict_wf_fold_update: "dict_wf d \<Longrightarrow> dict_wf (fold (\<lambda>x. AList.update (f x) x) xs d)"
  by (induction xs arbitrary: d) auto

lemma by_client_wf [simp]: "dict_wf (by_client xs)"
  by (simp add: by_client_def dict_wf_fold_update)

lemma by_client_None [simp]: "map_of (by_client xs) c = None \<longleftrightarrow> c \<notin> client_id_of ` set xs"
proof (cases "filter (\<lambda>x. client_id_of x = c) (rev xs)")
  case (Cons y ys)
  then have "y \<in> set (filter (\<lambda>x. client_id_of x = c) (rev xs))" by simp
  then have "y \<in> set xs" "client_id_of y = c" by simp_all
  then show ?thesis using Cons by (auto simp: by_client_def map_of_fold_update)
qed (auto simp: by_client_def map_of_fold_update filter_empty_conv)

lemma by_client_Some:
  assumes "map_of (by_client xs) c = Some x"
  shows "x \<in> set xs \<and> client_id_of x = c"
proof (cases "filter (\<lambda>x. client_id_of x = c) (rev xs)")
  case (Cons y ys)
  then have "y = x" using assms by (simp add: by_client_def map_of_fold_update)
  then have "x \<in> set (filter (\<lambda>x. client_id_of x = c) (rev xs))" using Cons by simp
  then show ?thesis by simp
qed (use assms in \<open>simp add: by_client_def map_of_fold_update\<close>)

lemma by_client_distinct:
  assumes "distinct (map client_id_of xs)"
  shows "map_of (by_client xs) c = Some x \<longleftrightarrow> x \<in> set xs \<and> client_id_of x = c"
proof
  assume x: "x \<in> set xs \<and> client_id_of x = c"
  then obtain y where y: "map_of (by_client xs) c = Some y"
    using by_client_None [of xs c] by (metis image_eqI not_Some_eq)
  then have "y = x" using by_client_Some [OF y] x assms by (metis distinct_map inj_on_def)
  then show "map_of (by_client xs) c = Some x" using y by simp
qed (rule by_client_Some)

lemma in_by_client: "(c, x) \<in> set (by_client xs) \<longleftrightarrow> map_of (by_client xs) c = Some x"
  by (simp add: map_of_eq_Some_iff)

lemma in_filtered_keys:
  "c \<in> set (map fst (filter (\<lambda>(c, x). P c x) (filter (\<lambda>(c, x). Q c x) d))) \<longleftrightarrow> (\<exists>x. (c, x) \<in> set d \<and> Q c x \<and> P c x)"
  by force

lemma by_client_key: "(c, x) \<in> set (by_client xs) \<Longrightarrow> x \<in> set xs \<and> client_id_of x = c"
  by (metis in_by_client by_client_Some)

lemma client_id_of_mode [simp]: "client_id_of (x\<lparr>o4_mode := m\<rparr>) = client_id_of x"
  by (simp add: client_id_of_def)

lemma closed_ids:
  assumes "distinct (map client_id_of (filter tracked db))"
  shows "set (rr_mark_unknown_closed (resolve_orders exch db failed)) = {client_id_of x |x. x \<in> set db \<and> tracked x
           \<and> str_upper (o4_symbol x) \<notin> str_upper ` set failed \<and> client_id_of x \<notin> client_id_of ` set exch}"
proof -
  let ?exch = "by_client (filter (\<lambda>x. client_id_of x \<noteq> []) exch)"
  let ?db = "by_client (filter tracked db)"
  have in_db: "(c, x) \<in> set ?db \<longleftrightarrow> x \<in> set db \<and> tracked x \<and> client_id_of x = c" for c x
    unfolding in_by_client by_client_distinct [OF assms(1)] by auto
  have listed: "map_of ?exch c = None \<longleftrightarrow> c \<notin> client_id_of ` {y \<in> set exch. client_id_of y \<noteq> []}" for c
    by simp
  have mem: "c \<in> set (rr_mark_unknown_closed (resolve_orders exch db failed)) \<longleftrightarrow> (\<exists>x. (c, x) \<in> set ?db
      \<and> str_upper (o4_symbol x) \<notin> str_upper ` set failed \<and> map_of ?exch c = None)" for c
    unfolding resolve_orders_def Let_def reconcile_result.simps in_filtered_keys by (simp only: set_map)
  have any: "client_id_of x \<in> client_id_of ` {y \<in> set exch. client_id_of y \<noteq> []} \<longleftrightarrow> client_id_of x \<in> client_id_of ` set exch"
    if "tracked x" for x
    using that by (auto simp: tracked_def image_iff)
  show ?thesis
    unfolding set_eq_iff mem listed in_db using any by blast
qed

lemma imported_keys:
  "map client_id_of (rr_import_external (resolve_orders exch db failed)) =
     map fst (filter (\<lambda>(c, x). map_of (by_client (filter tracked db)) c = None) (by_client (filter (\<lambda>x. client_id_of x \<noteq> []) exch)))"
  unfolding resolve_orders_def Let_def reconcile_result.simps map_map
proof (rule map_cong [OF refl])
  fix kv
  assume "kv \<in> set (filter (\<lambda>(c, x). map_of (by_client (filter tracked db)) c = None) (by_client (filter (\<lambda>x. client_id_of x \<noteq> []) exch)))"
  then have "(fst kv, snd kv) \<in> set (by_client (filter (\<lambda>x. client_id_of x \<noteq> []) exch))" by (simp del: by_client_None)
  then show "(client_id_of \<circ> (\<lambda>(c, x). x\<lparr>o4_mode := ''external''\<rparr>)) kv = fst kv"
    by (cases kv) (simp add: by_client_key)
qed

lemma imported_ids:
  "client_id_of ` set (rr_import_external (resolve_orders exch db failed)) = {client_id_of y |y. y \<in> set exch \<and> client_id_of y \<noteq> []}
     - {client_id_of x |x. x \<in> set db \<and> tracked x}"
proof -
  let ?exch = "by_client (filter (\<lambda>x. client_id_of x \<noteq> []) exch)"
  let ?db = "by_client (filter tracked db)"
  have listed: "map_of ?exch c = None \<longleftrightarrow> c \<notin> client_id_of ` {y \<in> set exch. client_id_of y \<noteq> []}" for c
    by simp
  have keys: "fst ` set ?exch = client_id_of ` {y \<in> set exch. client_id_of y \<noteq> []}"
    using listed unfolding map_of_eq_None_iff by (auto simp only: set_eq_iff)
  have "client_id_of ` set (rr_import_external (resolve_orders exch db failed)) = fst ` {kv \<in> set ?exch. map_of ?db (fst kv) = None}"
    using arg_cong [OF imported_keys, of set] by (simp only: set_map set_filter case_prod_beta)
  also have "\<dots> = {c \<in> fst ` set ?exch. map_of ?db c = None}" by auto
  also have "\<dots> = {client_id_of y |y. y \<in> set exch \<and> client_id_of y \<noteq> []} - {client_id_of x |x. x \<in> set db \<and> tracked x}"
    unfolding keys by_client_None set_filter by blast
  finally show ?thesis .
qed

lemma imported_orders:
  "\<forall>z \<in> set (rr_import_external (resolve_orders exch db failed)). \<exists>y \<in> set exch. z = y\<lparr>o4_mode := ''external''\<rparr>"
proof
  fix z
  assume "z \<in> set (rr_import_external (resolve_orders exch db failed))"
  then obtain c y where "(c, y) \<in> set (by_client (filter (\<lambda>x. client_id_of x \<noteq> []) exch))" "z = y\<lparr>o4_mode := ''external''\<rparr>"
    unfolding resolve_orders_def Let_def reconcile_result.simps by force
  then show "\<exists>y \<in> set exch. z = y\<lparr>o4_mode := ''external''\<rparr>" using by_client_key by fastforce
qed

lemma enriched_ids:
  "\<forall>(c, xid) \<in> set (rr_enrich_exchange_ids (resolve_orders exch db failed)). \<exists>x \<in> set db. \<exists>y \<in> set exch.
     client_id_of x = c \<and> client_id_of y = c \<and> id_or_empty (o4_exchange_order_id x) = [] \<and> o4_exchange_order_id y = Some xid"
proof (rule ballI, rule case_prodI2)
  fix cx c xid
  assume "cx \<in> set (rr_enrich_exchange_ids (resolve_orders exch db failed))" "cx = (c, xid)"
  then obtain x y where xy: "(c, x) \<in> set (by_client (filter tracked db))" "map_of (by_client (filter (\<lambda>x. client_id_of x \<noteq> []) exch)) c = Some y" "id_or_empty (o4_exchange_order_id x) = []"
      "id_or_empty (o4_exchange_order_id y) \<noteq> []" "xid = id_or_empty (o4_exchange_order_id y)"
    unfolding resolve_orders_def Let_def reconcile_result.simps
    by (auto simp del: by_client_None simp: map_filter_def split: option.splits if_splits)
  have "o4_exchange_order_id y = Some xid" using xy(4,5) by (auto simp: id_or_empty_def split: option.splits)
  moreover have "x \<in> set db" "client_id_of x = c" using by_client_key [OF xy(1)] by auto
  moreover have "y \<in> set exch" "client_id_of y = c" using by_client_Some [OF xy(2)] by auto
  ultimately show "\<exists>x \<in> set db. \<exists>y \<in> set exch. client_id_of x = c \<and> client_id_of y = c
       \<and> id_or_empty (o4_exchange_order_id x) = [] \<and> o4_exchange_order_id y = Some xid" using xy(3) by blast
qed

text \<open>
  (C36) What a comparison finds, when the client ids of the stored orders differ: a stored order of the program
  counts as closed exactly when the exchange lists no order with its client id and its symbol could be
  read; what is imported are the listed orders with a client id the program does not track, each id
  once; an exchange id is only taken from a listed order with the same client id.
\<close>

theorem resolve_orders_spec:
  assumes "distinct (map client_id_of (filter tracked db))" "r = resolve_orders exch db failed"
  shows "set (rr_mark_unknown_closed r) = {client_id_of x |x. x \<in> set db \<and> tracked x
           \<and> str_upper (o4_symbol x) \<notin> str_upper ` set failed \<and> client_id_of x \<notin> client_id_of ` set exch}
    \<and> client_id_of ` set (rr_import_external r) = {client_id_of y |y. y \<in> set exch \<and> client_id_of y \<noteq> []}
         - {client_id_of x |x. x \<in> set db \<and> tracked x}
    \<and> distinct (map client_id_of (rr_import_external r))
    \<and> (\<forall>z \<in> set (rr_import_external r). \<exists>y \<in> set exch. z = y\<lparr>o4_mode := ''external''\<rparr>)
    \<and> (\<forall>(c, xid) \<in> set (rr_enrich_exchange_ids r). \<exists>x \<in> set db. \<exists>y \<in> set exch. client_id_of x = c \<and> client_id_of y = c
         \<and> id_or_empty (o4_exchange_order_id x) = [] \<and> o4_exchange_order_id y = Some xid)"
proof -
  have "distinct (map client_id_of (rr_import_external (resolve_orders exch db failed)))"
    unfolding imported_keys by (simp add: distinct_map_filter)
  then show ?thesis unfolding assms(2) closed_ids [OF assms(1)] imported_ids
    using imported_orders [of exch db failed] enriched_ids [of exch db failed] by blast
qed

subsection \<open>Foreign orders freeze the process\<close>

lemma freeze_now_op [simp]:
  "ns_op (snd (freeze_now env reason details s)) = snd (stage4_set_freeze (ns_op s) (ne_clock env (ns_ticks s))
     (ne_clock env (Suc (ns_ticks s))) (ne_role env) reason details)"
  by (simp add: freeze_now_def case_prod_unfold)

lemma freeze_now_active: "fz_active (fst (freeze_now env reason details s))"
  by (simp add: freeze_now_def stage4_set_freeze_def case_prod_unfold Let_def)

lemma evaluate_run:
  "op_run c (ns_op s) (ns_op (snd (evaluate_unknown_freeze env now exch db r s)))"
proof -
  obtain f tab where g: "stage4_get_freeze (ns_op s) (ne_clock env (ns_ticks s)) (ne_role env) = (f, tab)" by force
  have tab: "op_run c (ns_op s) tab"
    using op_read [OF op_start] snd_get_freeze [of "ns_op s"] g by (metis snd_conv)
  have "op_run c (ns_op s) (ns_op (snd (freeze_now env reason details (s\<lparr>ns_op := tab, ns_ticks := Suc (ns_ticks s)\<rparr>))))"
    for reason details
    using op_freeze [OF tab] by simp
  then show ?thesis using tab
    by (auto simp: evaluate_unknown_freeze_def g Let_def case_prod_unfold simp del: freeze_now_op split: sum.split option.split)
qed

lemma stamped_op [simp]: "ns_op (stamped env f s) = ns_op s"
  by (simp add: stamped_def)

lemma fold_stamped_op: "(\<And>x s. ns_op (g x s) = ns_op s) \<Longrightarrow> ns_op (fold g xs s) = ns_op s"
  by (induction xs arbitrary: s) auto

lemma apply_reconcile_op [simp]: "ns_op (apply_reconcile env r s) = ns_op s"
  by (simp add: apply_reconcile_def fold_stamped_op case_prod_beta)

text \<open>The orders the exchange lists for the symbols, and what the comparison makes of them.\<close>

definition listed_orders :: "recon_env \<Rightarrow> string list \<Rightarrow> s4_order set" where
  "listed_orders env symbols = {y. \<exists>symb xs. symb \<in> set symbols \<and> ne_open_orders env symb = Inr xs \<and> y \<in> set xs}"

lemma listed_orders_Cons:
  "listed_orders env (symb # symbols) =
     (case ne_open_orders env symb of Inl e \<Rightarrow> {} | Inr xs \<Rightarrow> set xs) \<union> listed_orders env symbols"
  unfolding listed_orders_def by (cases "ne_open_orders env symb") auto

lemma fetched_orders: "set (fst (fold (fetch_open env) symbols acc)) = set (fst acc) \<union> listed_orders env symbols"
proof (induction symbols arbitrary: acc)
  case (Cons symb symbols)
  then show ?case unfolding listed_orders_Cons by (cases "ne_open_orders env symb") (auto simp: fetch_open_def)
qed (simp add: listed_orders_def)

lemma ids_of_tracked: "{client_id_of x |x. x \<in> set xs \<and> tracked x} = set (map client_id_of (filter tracked xs))"
  by auto

lemma missing_ids: "set (rr_external_missing_client_id (resolve_orders exch db failed)) = {y \<in> set exch. client_id_of y = []}"
  unfolding resolve_orders_def Let_def by simp

lemma foreign_count:
  "length (rr_import_external (resolve_orders exch db failed)) =
     card ({client_id_of y |y. y \<in> set exch \<and> client_id_of y \<noteq> []} - {client_id_of x |x. x \<in> set db \<and> tracked x})"
proof -
  have "distinct (map client_id_of (rr_import_external (resolve_orders exch db failed)))"
    unfolding imported_keys by (simp add: distinct_map_filter)
  then have "length (rr_import_external (resolve_orders exch db failed))
      = card (client_id_of ` set (rr_import_external (resolve_orders exch db failed)))"
    using distinct_card by fastforce
  then show ?thesis unfolding imported_ids .
qed

text \<open>
  (C15) A freeze survives every comparison, with its beginning, whatever the comparison finds.  And when the
  freezing is enabled and the exchange lists, for the symbols of the cycle, an order without client id, or at
  least the threshold of client ids that no stored open order of the program has, the process is frozen afterwards.
\<close>

theorem foreign_orders_freeze:
  assumes "reconcile_cycle env symbols errors now s = ((r, Inr (fz, triggered)), s')"
    and "canonicalize_role (ne_role env) = c"
    and "listed = {y. \<exists>symb xs. symb \<in> set symbols \<and> ne_open_orders env symb = Inr xs \<and> y \<in> set xs}"
    and "own = {client_id_of x |x. x \<in> set (list_stage4_open_orders (ns_rows s) None False True) \<and> tracked x}"
  shows "(\<forall>since. frozen_since (ns_op s) c since \<longrightarrow> frozen_since (ns_op s') c since)
    \<and> (fq_enabled (ne_freeze env) \<and> ((\<exists>y \<in> listed. client_id_of y = [])
           \<or> max 1 (fq_threshold (ne_freeze env)) \<le> int (card ({client_id_of y |y. y \<in> listed \<and> client_id_of y \<noteq> []} - own)))
         \<longrightarrow> triggered \<and> fz_active fz \<and> (\<exists>since. frozen_since (ns_op s') c since))"
proof -
  obtain exch db s1 where step: "reconcile_step env symbols errors s = ((exch, db, r), s1)"
      "evaluate_unknown_freeze env now exch db r s1 = (Inr (fz, triggered), s')"
    using assms(1) by (auto simp: reconcile_cycle_def split: prod.splits)
  have s1: "ns_op s1 = ns_op s" using step(1) by (auto simp: reconcile_step_def Let_def split: prod.splits)
  obtain xs failed where fetched: "fold (fetch_open env) symbols ([], errors) = (xs, failed)" by force
  have r: "r = resolve_orders exch db failed" "db = list_stage4_open_orders (ns_rows s) None False True" "exch = xs"
    using step(1) unfolding reconcile_step_def fetched Let_def prod.case by blast+
  have exch: "set exch = listed" using fetched_orders [of env symbols "([], errors)"] by (simp add: fetched r(3) assms(3) listed_orders_def)
  have "op_run c (ns_op s) (ns_op s')" using evaluate_run [of c s1] step(2) s1 by (metis snd_conv)
  then have "\<forall>since. frozen_since (ns_op s) c since \<longrightarrow> frozen_since (ns_op s') c since"
    using op_run_frozen assms(2) by (metis canonicalize_upper)
  moreover have "triggered \<and> fz_active fz \<and> (\<exists>since. frozen_since (ns_op s') c since)"
    if on: "fq_enabled (ne_freeze env)" and foreign: "(\<exists>y \<in> listed. client_id_of y = [])
        \<or> max 1 (fq_threshold (ne_freeze env)) \<le> int (card ({client_id_of y |y. y \<in> listed \<and> client_id_of y \<noteq> []} - own))"
  proof -
    have found: "rr_external_missing_client_id r \<noteq> [] \<or> max 1 (fq_threshold (ne_freeze env)) \<le> int (length (rr_import_external r))"
      using foreign
    proof
      assume "\<exists>y \<in> listed. client_id_of y = []"
      then have "set (rr_external_missing_client_id r) \<noteq> {}" unfolding r(1) missing_ids exch by blast
      then show ?thesis by simp
    next
      assume "max 1 (fq_threshold (ne_freeze env)) \<le> int (card ({client_id_of y |y. y \<in> listed \<and> client_id_of y \<noteq> []} - own))"
      then show ?thesis unfolding r(1) foreign_count exch assms(4) r(2) by blast
    qed
    obtain existing tab where g: "stage4_get_freeze (ns_op s1) (ne_clock env (ns_ticks s1)) (ne_role env) = (existing, tab)" by force
    let ?s = "s1\<lparr>ns_op := tab, ns_ticks := Suc (ns_ticks s1)\<rparr>"
    obtain prev where prev: "previous_cycles existing = Inr prev"
      using step(2) on by (cases "previous_cycles existing") (auto simp: evaluate_unknown_freeze_def g Let_def)
    obtain reason cycles where t: "freeze_trigger (ne_freeze env) existing prev now (length (rr_external_missing_client_id r))
        (length (rr_import_external r)) (length (rr_mark_unknown_closed r)) = (Some reason, cycles)"
      using found unfolding freeze_trigger_def by (cases "rr_external_missing_client_id r = []") auto
    have run: "freeze_now env reason (freeze_details env now (length exch) (length db) r cycles) ?s = (fz, s')" "triggered"
      using step(2) on prev t by (auto simp: evaluate_unknown_freeze_def g Let_def split: prod.splits)
    have "fz_active fz" using freeze_now_active run(1) by (metis fst_conv)
    moreover have "ns_op s' = ns_op (snd (freeze_now env reason (freeze_details env now (length exch) (length db) r cycles) ?s))"
      using run(1) by simp
    then have "\<exists>since. frozen_since (ns_op s') c since" using set_freeze_since assms(2) by (metis freeze_now_op)
    ultimately show ?thesis using run(2) by blast
  qed
  ultimately show ?thesis by blast
qed

subsection \<open>Examples\<close>

definition demo_freeze_settings :: freeze_settings where
  "demo_freeze_settings = \<lparr>fq_enabled = True, fq_threshold = 1, fq_persist_cycles = 3, fq_persist_seconds = 30\<rparr>"

definition demo_listed :: "string option \<Rightarrow> s4_order" where
  "demo_listed cid =
     \<lparr>o4_symbol = ''BTCTRY'', o4_side = ''buy'', o4_type = ''limit'', o4_price = 100, o4_qty = 1, o4_status = ''open'',
      o4_created_at = 0, o4_updated_at = 0, o4_exchange_order_id = Some ''77'', o4_client_order_id = cid,
      o4_exchange_client_id = None, o4_mode = ''live''\<rparr>"

definition demo_recon_env :: "s4_order list \<Rightarrow> recon_env" where
  "demo_recon_env xs =
     \<lparr>ne_open_orders = (\<lambda>_. Inr xs), ne_clock = int, ne_freeze = demo_freeze_settings, ne_role = ''LIVE'', ne_iso = (\<lambda>_. [])\<rparr>"

text \<open>A row of an order that was submitted as the execution gate does it.\<close>

definition demo_rows :: "order_row list" where
  "demo_rows = (case record_stage4_order_submitted [] 0 ''BTCTRY'' ''s4-1'' (Some ''b4-1'') ''77'' ''buy'' 100 1 ''live'' ''submitted'' of
     Inl e \<Rightarrow> [] | Inr rows \<Rightarrow> rows)"

definition demo_recon_state :: recon_state where
  "demo_recon_state = \<lparr>ns_rows = demo_rows, ns_op = [], ns_ticks = 1\<rparr>"

theorem resolve_orders_spec_witness:
  "set (rr_mark_unknown_closed (resolve_orders [] [demo_listed (Some ''a'')] [''ETHTRY''])) = {''a''}"
proof -
  have "distinct (map client_id_of (filter tracked [demo_listed (Some ''a'')]))" by code_simp
  from resolve_orders_spec [OF this refl, of "[]" "[''ETHTRY'']"] show ?thesis
    by (auto simp: demo_listed_def client_id_of_def id_or_empty_def tracked_def str_upper_def char_upper_def)
qed

text \<open>
  An order of the program is stored under its own id and sent under the id derived from it
  (\<open>exchange_client_id\<close>), which is what the exchange lists.  The comparison looks for the own id only: the
  live order is closed in the store, imported as a foreign one, and the process freezes.
\<close>

lemma own_order_taken_for_foreign:
  "map (\<lambda>r. (w4_client_order_id r, w4_status r, w4_mode r))
     (ns_rows (snd (reconcile_cycle (demo_recon_env [demo_listed (Some ''b4-1'')]) [''BTC_TRY''] [] 5 demo_recon_state)))
   = [(Some ''s4-1'', ''unknown_closed'', ''live''), (Some ''b4-1'', ''open'', ''external'')]"
  "map_sum (\<lambda>e. ()) snd (snd (fst (reconcile_cycle (demo_recon_env [demo_listed (Some ''b4-1'')]) [''BTC_TRY''] [] 5 demo_recon_state)))
   = Inr True"
  by code_simp+

theorem foreign_orders_freeze_witness:
  "\<exists>since. frozen_since (ns_op (snd (reconcile_cycle (demo_recon_env [demo_listed (Some ''b4-1'')]) [''BTC_TRY''] [] 5 demo_recon_state))) ''LIVE'' since"
proof -
  let ?env = "demo_recon_env [demo_listed (Some ''b4-1'')]"
  obtain r f s' where run: "reconcile_cycle ?env [''BTC_TRY''] [] 5 demo_recon_state = ((r, f), s')" by (metis prod.exhaust)
  let ?listed = "{y. \<exists>symb xs. symb \<in> set [''BTC_TRY''] \<and> ne_open_orders ?env symb = Inr xs \<and> y \<in> set xs}"
  let ?own = "{client_id_of x |x. x \<in> set (list_stage4_open_orders (ns_rows demo_recon_state) None False True) \<and> tracked x}"
  have "map client_id_of (filter tracked (list_stage4_open_orders (ns_rows demo_recon_state) None False True)) = [''s4-1'']" by code_simp
  then have "?own = {''s4-1''}" by (simp only: ids_of_tracked list.set)
  moreover have "{client_id_of y |y. y \<in> ?listed \<and> client_id_of y \<noteq> []} = {''b4-1''}"
    by (auto simp: demo_recon_env_def demo_listed_def client_id_of_def id_or_empty_def)
  ultimately have one: "card ({client_id_of y |y. y \<in> ?listed \<and> client_id_of y \<noteq> []} - ?own) = 1" by simp
  obtain fz b where "f = Inr (fz, b)" using own_order_taken_for_foreign(2) unfolding run by (cases f) auto
  then have run': "reconcile_cycle ?env [''BTC_TRY''] [] 5 demo_recon_state = ((r, Inr (fz, b)), s')" using run by simp
  have c: "canonicalize_role (ne_role ?env) = ''LIVE''" by code_simp
  have on: "fq_enabled (ne_freeze ?env)" "max 1 (fq_threshold (ne_freeze ?env)) \<le> 1" by (simp_all add: demo_recon_env_def demo_freeze_settings_def)
  from foreign_orders_freeze [OF run' c refl refl] have "\<exists>since. frozen_since (ns_op s') ''LIVE'' since" unfolding one using on by simp
  then show ?thesis unfolding run' by simp
qed

text \<open>The stored orders of all symbols are compared with the listed ones of the active symbols.\<close>

lemma inactive_symbol_closed:
  "map w4_status (ns_rows (snd (reconcile_step (demo_recon_env []) [''ETHTRY''] [] demo_recon_state))) = [''unknown_closed'']"
  by code_simp

text \<open>
  The count of cycles with a mismatch is kept in the details of a freeze, so without a freeze it starts
  anew in every cycle: a mismatch freezes the process only with \<open>persist_cycles\<close> of one.
\<close>

lemma mismatch_never_freezes:
  assumes "\<not> fz_active existing" "2 \<le> fq_persist_cycles st" "unknown < max 1 (fq_threshold st)"
    and "previous_cycles existing = Inr prev"
  shows "fst (freeze_trigger st existing prev now 0 (nat unknown) mismatch) = None"
  using assms by (auto simp: freeze_trigger_def previous_cycles_def)

end
