(* ===== verification/Stage4_Degrade.thy ===== *)
theory Stage4_Degrade
  imports Risk_Budget Stage4_Execution
begin

text \<open>
  How stage 4 reacts to anomalies: their detection (\<open>src/src/btcbot/services/anomaly_detector_service.py\<close>),
  the degradation level (\<open>domain/anomalies.py\<close>) with its row in \<open>services/state_store.py\<close> and the
  commands \<open>degrade-clear\<close> and \<open>degrade-override\<close> of \<open>cli.py\<close>, and the steps of
  \<open>services/stage4_cycle_runner.py\<close> that decide the level of a cycle and filter its actions by it.

  Sets of codes are lists.  The JSON texts of the row are typed, a text in the details of an event is the
  value it is made of.  The theorems of \<open>Stage4_Degrade_Props\<close> are about levels, recovery and the actions
  that reach the execution gate.
\<close>

subsection \<open>Definitions: detection\<close>

datatype anomaly_code = STALE_MARKET_DATA | EXCHANGE_LATENCY_SPIKE | ORDER_REJECT_SPIKE | CLOCK_SKEW
  | CURSOR_STALL | PNL_DIVERGENCE | MANUAL_OVERRIDE

datatype severity = Sev_WARN | Sev_ERROR

fun code_value :: "anomaly_code \<Rightarrow> string" where
  "code_value STALE_MARKET_DATA = ''STALE_MARKET_DATA''"
| "code_value EXCHANGE_LATENCY_SPIKE = ''EXCHANGE_LATENCY_SPIKE''"
| "code_value ORDER_REJECT_SPIKE = ''ORDER_REJECT_SPIKE''"
| "code_value CLOCK_SKEW = ''CLOCK_SKEW''"
| "code_value CURSOR_STALL = ''CURSOR_STALL''"
| "code_value PNL_DIVERGENCE = ''PNL_DIVERGENCE''"
| "code_value MANUAL_OVERRIDE = ''MANUAL_OVERRIDE''"

fun severity_text :: "severity \<Rightarrow> string" where
  "severity_text Sev_WARN = ''WARN''"
| "severity_text Sev_ERROR = ''ERROR''"

datatype anomaly_details =
    Stale_details "string list" rat int
  | Latency_details int int
  | Reject_details int int
  | Stall_details "string list" int int
  | Skew_details int int
  | Divergence_details dec dec dec dec dec dec
  | Manual_details string string

record anomaly_event =
  an_code :: anomaly_code
  an_severity :: severity
  an_ts :: instant
  an_details :: anomaly_details

record detector_config =
  dc_stale_seconds :: int
  dc_reject_threshold :: int
  dc_latency_ms :: "int option"
  dc_stall_cycles :: int
  dc_skew_seconds :: int
  dc_divergence_warn :: dec
  dc_divergence_error :: dec

definition largest :: "'a::linorder list \<Rightarrow> 'a" where
  "largest xs = foldl max (hd xs) (tl xs)"

definition keys_where :: "('v \<Rightarrow> bool) \<Rightarrow> (string, 'v) dict \<Rightarrow> string list" where
  "keys_where p d = sort (map fst (filter (\<lambda>(k, v). p v) d))"

definition warn_event :: "anomaly_code \<Rightarrow> instant \<Rightarrow> anomaly_details \<Rightarrow> anomaly_event" where
  "warn_event c ts d = \<lparr>an_code = c, an_severity = Sev_WARN, an_ts = ts, an_details = d\<rparr>"

definition stale_events :: "detector_config \<Rightarrow> instant \<Rightarrow> (string, rat) dict option \<Rightarrow> anomaly_event list" where
  "stale_events cfg ts ages =
     (case ages of
        None \<Rightarrow> []
      | Some d \<Rightarrow>
          let is_stale = (\<lambda>age. of_int (dc_stale_seconds cfg) < age); stale = keys_where is_stale d in
          if stale = [] then []
          else [warn_event STALE_MARKET_DATA ts
                  (Stale_details stale (largest (filter is_stale (map snd d))) (dc_stale_seconds cfg))])"

definition latency_events :: "detector_config \<Rightarrow> instant \<Rightarrow> int option \<Rightarrow> anomaly_event list" where
  "latency_events cfg ts duration =
     (case (dc_latency_ms cfg, duration) of
        (Some bound, Some ms) \<Rightarrow> if bound \<le> ms then [warn_event EXCHANGE_LATENCY_SPIKE ts (Latency_details ms bound)] else []
      | _ \<Rightarrow> [])"

definition reject_events :: "detector_config \<Rightarrow> instant \<Rightarrow> int \<Rightarrow> anomaly_event list" where
  "reject_events cfg ts reject_count =
     (if dc_reject_threshold cfg \<le> reject_count
      then [warn_event ORDER_REJECT_SPIKE ts (Reject_details reject_count (dc_reject_threshold cfg))] else [])"

definition stall_events :: "detector_config \<Rightarrow> instant \<Rightarrow> (string, int) dict \<Rightarrow> anomaly_event list" where
  "stall_events cfg ts stalls =
     (let is_stalled = (\<lambda>n. dc_stall_cycles cfg \<le> n); stalled = keys_where is_stalled stalls in
      if stalled = [] then []
      else [warn_event CURSOR_STALL ts
              (Stall_details stalled (largest (filter is_stalled (map snd stalls))) (dc_stall_cycles cfg))])"

definition skew_events :: "detector_config \<Rightarrow> instant \<Rightarrow> pnl_snapshot \<Rightarrow> anomaly_event list" where
  "skew_events cfg ts pnl =
     (let skew = \<bar>ts - pn_ts pnl\<bar> in
      if dc_skew_seconds cfg * 1000000 < skew then [warn_event CLOCK_SKEW ts (Skew_details skew (dc_skew_seconds cfg))] else [])"

definition divergence_events :: "detector_config \<Rightarrow> instant \<Rightarrow> pnl_snapshot \<Rightarrow> pnl_report \<Rightarrow> anomaly_event list" where
  "divergence_events cfg ts pnl ledger =
     (let equity = pn_total_equity_try pnl; booked = pr_equity_estimate ledger; diff = dsub equity booked;
          details = Divergence_details equity booked (pr_realized_pnl_total ledger) (pr_unrealized_pnl_total ledger)
            (dsum (map snd (pr_fees_total_by_currency ledger))) diff;
          event = (\<lambda>sev. [\<lparr>an_code = PNL_DIVERGENCE, an_severity = sev, an_ts = ts, an_details = details\<rparr>])
      in if dc_divergence_error cfg \<le> dabs diff then event Sev_ERROR
         else if dc_divergence_warn cfg \<le> dabs diff then event Sev_WARN else [])"

definition add_event :: "anomaly_event list \<Rightarrow> anomaly_event \<Rightarrow> anomaly_event list" where
  "add_event events e =
     (if (an_code e, an_severity e) \<in> set (map (\<lambda>x. (an_code x, an_severity x)) events) then events else events @ [e])"

definition detect ::
  "detector_config \<Rightarrow> instant \<Rightarrow> (string, rat) dict option \<Rightarrow> int \<Rightarrow> int option \<Rightarrow> (string, int) dict \<Rightarrow>
   pnl_snapshot \<Rightarrow> pnl_report \<Rightarrow> anomaly_event list" where
  "detect cfg ts ages reject_count duration stalls pnl ledger =
     foldl add_event []
       (stale_events cfg ts ages @ latency_events cfg ts duration @ reject_events cfg ts reject_count
        @ stall_events cfg ts stalls @ skew_events cfg ts pnl @ divergence_events cfg ts pnl ledger)"

subsection \<open>Definitions: the level\<close>

record degrade_decision =
  dg_mode_override :: "risk_mode option"
  dg_reasons :: "string list"
  dg_cooldown_until :: "instant option"
  dg_level :: int
  dg_shrink :: dec
  dg_universe_cap :: "int option"
  dg_recovery :: int

definition combine_modes :: "risk_mode \<Rightarrow> risk_mode option \<Rightarrow> risk_mode" where
  "combine_modes base_mode override =
     (case override of
        None \<Rightarrow> base_mode
      | Some OBSERVE_ONLY \<Rightarrow> OBSERVE_ONLY
      | Some REDUCE_RISK_ONLY \<Rightarrow> if base_mode = NORMAL then REDUCE_RISK_ONLY else base_mode
      | Some NORMAL \<Rightarrow> base_mode)"

record degrade_inputs =
  di_anomalies :: "anomaly_event list"
  di_now :: instant
  di_override :: "risk_mode option"
  di_cooldown_until :: "instant option"
  di_last_reasons :: "string list"
  di_recent_warn_count :: int
  di_warn_threshold :: int
  di_warn_codes :: "anomaly_code list"
  di_recent_warn_codes :: "anomaly_code list"
  di_previous_level :: int
  di_breaker_open :: bool
  di_freeze_active :: bool
  di_streak :: int

definition level_policy :: "int \<Rightarrow> risk_mode option \<times> dec \<times> int option \<times> int" where
  "level_policy level =
     (if 3 \<le> level then (Some OBSERVE_ONLY, 0, Some 2, 1800)
      else if level = 2 then (Some REDUCE_RISK_ONLY, 1 / 4, Some 4, 900)
      else if level = 1 then (Some REDUCE_RISK_ONLY, 1 / 2, Some 8, 900)
      else (None, 1, None, 0))"

definition build_decision :: "instant \<Rightarrow> int \<Rightarrow> string list \<Rightarrow> int \<Rightarrow> degrade_decision" where
  "build_decision now level reasons recovery =
     (case level_policy level of
        (mode, factor, cap, cooldown_seconds) \<Rightarrow>
          \<lparr>dg_mode_override = mode, dg_reasons = reasons,
           dg_cooldown_until = (if 1 \<le> level then Some (now + cooldown_seconds * 1000000) else None),
           dg_level = level, dg_shrink = factor, dg_universe_cap = cap, dg_recovery = recovery\<rparr>)"

definition level_from_override :: "risk_mode option \<Rightarrow> int" where
  "level_from_override m = (case m of Some OBSERVE_ONLY \<Rightarrow> 3 | Some REDUCE_RISK_ONLY \<Rightarrow> 1 | _ \<Rightarrow> 0)"

definition sorted_set :: "string list \<Rightarrow> string list" where
  "sorted_set xs = sort (remdups xs)"

text \<open>No configured warn codes means that all count.\<close>

definition counted_codes :: "anomaly_code list \<Rightarrow> anomaly_code list \<Rightarrow> anomaly_code list" where
  "counted_codes warn_codes = filter (\<lambda>c. warn_codes = [] \<or> c \<in> set warn_codes)"

definition warn_codes_of :: "anomaly_event list \<Rightarrow> anomaly_code list" where
  "warn_codes_of events = map an_code (filter (\<lambda>e. an_severity e = Sev_WARN) events)"

definition cooling :: "degrade_inputs \<Rightarrow> bool" where
  "cooling i = (case di_cooldown_until i of None \<Rightarrow> False | Some t \<Rightarrow> di_now i < t)"

definition critical :: "degrade_inputs \<Rightarrow> bool" where
  "critical i \<longleftrightarrow> di_breaker_open i \<or> di_freeze_active i \<or> list_ex (\<lambda>e. an_severity e = Sev_ERROR) (di_anomalies i)"

definition critical_reasons :: "degrade_inputs \<Rightarrow> string list" where
  "critical_reasons i =
     sorted_set (map (\<lambda>e. code_value (an_code e)) (di_anomalies i) @ (if di_breaker_open i then [''BREAKER_OPEN''] else [])
       @ (if di_freeze_active i then [''STAGE4_FREEZE_ACTIVE''] else []))"

definition warn_count :: "degrade_inputs \<Rightarrow> int" where
  "warn_count i =
     (if counted_codes (di_warn_codes i) (warn_codes_of (di_anomalies i)) = []
         \<and> counted_codes (di_warn_codes i) (di_recent_warn_codes i) = []
      then 0 else di_recent_warn_count i)"

definition required_streak :: "int \<Rightarrow> int" where
  "required_streak level = (if level = 1 then 8 else 4)"

definition step_down :: "degrade_inputs \<Rightarrow> degrade_decision" where
  "step_down i =
     (if 1 \<le> di_previous_level i then
        let next_stability = di_streak i + 1 in
        if next_stability < required_streak (di_previous_level i)
        then build_decision (di_now i) (di_previous_level i) (di_last_reasons i) next_stability
        else build_decision (di_now i) (di_previous_level i - 1) [] 0
      else build_decision (di_now i) 0 [] 0)"

definition decide_degrade :: "degrade_inputs \<Rightarrow> degrade_decision" where
  "decide_degrade i =
     (let recent = sorted_set (map code_value (counted_codes (di_warn_codes i) (di_recent_warn_codes i))) in
      if cooling i then
        build_decision (di_now i) (if 1 \<le> di_previous_level i then di_previous_level i else level_from_override (di_override i))
          (di_last_reasons i) (di_streak i)
      else if critical i then build_decision (di_now i) 3 (critical_reasons i) 0
      else if di_warn_threshold i * 2 \<le> warn_count i then build_decision (di_now i) 2 recent 0
      else if di_warn_threshold i \<le> warn_count i then
        build_decision (di_now i) 1 (if recent = [] then di_last_reasons i else recent) 0
      else step_down i)"

subsection \<open>Definitions: the stored row\<close>

record degrade_row =
  dr_cooldown_until :: "instant option"
  dr_override :: "risk_mode option"
  dr_level :: int
  dr_reasons :: "string list"
  dr_universe_cap :: "int option"
  dr_recovery :: int
  dr_next :: "(int \<times> risk_mode option) option"
  dr_warn_window :: int
  dr_warn_codes :: "anomaly_code list"
  dr_stalls :: "(string, int) dict"
  dr_rejects :: int
  dr_updated_at :: instant

record degrade_store =
  gs_row :: "degrade_row option"
  gs_events :: "(string, string \<times> anomaly_event) dict"

definition no_degrade :: degrade_row where
  "no_degrade =
     \<lparr>dr_cooldown_until = None, dr_override = None, dr_level = 0, dr_reasons = [], dr_universe_cap = None, dr_recovery = 0,
      dr_next = None, dr_warn_window = 0, dr_warn_codes = [], dr_stalls = [], dr_rejects = 0, dr_updated_at = 0\<rparr>"

definition current_row :: "degrade_store \<Rightarrow> degrade_row" where
  "current_row g = (case gs_row g of None \<Rightarrow> no_degrade | Some r \<Rightarrow> r)"

definition event_id :: "string \<Rightarrow> anomaly_event \<Rightarrow> string" where
  "event_id cycle_id e = cycle_id @ '':'' @ code_value (an_code e) @ '':'' @ severity_text (an_severity e)"

definition save_anomaly_events ::
  "(string, string \<times> anomaly_event) dict \<Rightarrow> string \<Rightarrow> anomaly_event list \<Rightarrow> (string, string \<times> anomaly_event) dict" where
  "save_anomaly_events tab cycle_id events = foldl (\<lambda>t e. AList.update (event_id cycle_id e) (cycle_id, e) t) tab events"

definition fetch_recent_anomaly_codes :: "(string, string \<times> anomaly_event) dict \<Rightarrow> int \<Rightarrow> string list" where
  "fetch_recent_anomaly_codes tab limit =
     take (nat (max 1 limit)) (map (\<lambda>(i, c, e). code_value (an_code e)) (rev (sort_key (\<lambda>(i, c, e). (an_ts e, i)) tab)))"

definition persist_degrade :: "degrade_store \<Rightarrow> string \<Rightarrow> anomaly_event list \<Rightarrow> degrade_row \<Rightarrow> degrade_store" where
  "persist_degrade g cycle_id events r = \<lparr>gs_row = Some r, gs_events = save_anomaly_events (gs_events g) cycle_id events\<rparr>"

definition run_degrade_clear :: "instant \<Rightarrow> degrade_store \<Rightarrow> degrade_store" where
  "run_degrade_clear now g = g\<lparr>gs_row := Some (no_degrade\<lparr>dr_updated_at := now\<rparr>)\<rparr>"

definition run_degrade_override :: "(instant \<Rightarrow> string) \<Rightarrow> instant \<Rightarrow> instant \<Rightarrow> risk_mode \<Rightarrow> int \<Rightarrow> string \<Rightarrow> degrade_store \<Rightarrow> degrade_store" where
  "run_degrade_override iso_text now written_at mode cooldown_seconds reason g =
     (let override = (if mode = NORMAL then None else Some mode) in
      persist_degrade g (''manual_override:'' @ iso_text now)
        [warn_event MANUAL_OVERRIDE now (Manual_details reason (mode_value mode))]
        (no_degrade\<lparr>dr_cooldown_until := (if override = None then None else Some (now + max 0 cooldown_seconds * 1000000)),
          dr_override := override,
          dr_level := (case override of None \<Rightarrow> 0 | Some m \<Rightarrow> if m = OBSERVE_ONLY then 3 else 2),
          dr_reasons := [''MANUAL_OVERRIDE'', reason], dr_warn_codes := [MANUAL_OVERRIDE], dr_updated_at := written_at\<rparr>))"

subsection \<open>Definitions: the decision of a cycle\<close>

record degrade_settings =
  gt_config :: detector_config
  gt_warn_threshold :: int
  gt_warn_codes :: "anomaly_code list"

text \<open>What a symbol's fetch did to its cursor: before, after, fills ingested and persisted.\<close>

record cursor_diag =
  cu_before :: "string option"
  cu_after :: "string option"
  cu_ingested :: int
  cu_persisted :: int

record cycle_facts =
  cy_cycle_id :: string
  cy_now :: instant
  cy_dry_run :: bool
  cy_diag :: "(string, cursor_diag) dict"
  cy_events_inserted :: int
  cy_events_ignored :: int
  cy_ages :: "(string, rat) dict"
  cy_snapshot :: pnl_snapshot
  cy_report :: pnl_report
  cy_breaker_open :: bool
  cy_observed_at :: instant
  cy_duration_ms :: int
  cy_ended_at :: instant
  cy_end_duration_ms :: int
  cy_rejected :: int
  cy_written_at :: instant

definition stalled_further :: "cycle_facts \<Rightarrow> cursor_diag \<Rightarrow> bool" where
  "stalled_further f d =
     (let dedupe_only = 0 < cu_ingested d \<and> cu_persisted d = 0 \<and> cy_events_inserted f = 0 \<and> 0 < cy_events_ignored f
      in cu_before d \<noteq> None \<and> cu_before d = cu_after d \<and> \<not> dedupe_only)"

definition cursor_stalls :: "cycle_facts \<Rightarrow> (string, int) dict \<Rightarrow> (string, int) dict" where
  "cursor_stalls f previous =
     (if cy_dry_run f then []
      else map (\<lambda>(symb, d). (symb, if stalled_further f d then dict_get previous symb 0 + 1 else 0)) (cy_diag f))"

record assessment =
  as_anomalies :: "anomaly_event list"
  as_warn_window :: int
  as_recent_codes :: "anomaly_code list"
  as_decision :: degrade_decision

text \<open>The same steps before and after the execution, with the counts and the level of their time.\<close>

definition assess ::
  "degrade_settings \<Rightarrow> degrade_row \<Rightarrow> cycle_facts \<Rightarrow> instant \<Rightarrow> int \<Rightarrow> int \<Rightarrow> int \<Rightarrow> int \<Rightarrow> assessment" where
  "assess st row f ts rejects duration level streak =
     (let anomalies = detect (gt_config st) ts (Some (cy_ages f)) rejects (Some duration) (cursor_stalls f (dr_stalls row))
            (cy_snapshot f) (cy_report f);
          current = filter (\<lambda>c. c \<in> set (gt_warn_codes st)) (warn_codes_of anomalies);
          window = (if current \<noteq> [] then dr_warn_window row + 1 else 0);
          recent = (if current \<noteq> [] then current else dr_warn_codes row)
      in \<lparr>as_anomalies = anomalies, as_warn_window = window, as_recent_codes = recent,
          as_decision = decide_degrade
            \<lparr>di_anomalies = anomalies, di_now = cy_now f, di_override = dr_override row, di_cooldown_until = dr_cooldown_until row,
             di_last_reasons = dr_reasons row, di_recent_warn_count = window, di_warn_threshold = gt_warn_threshold st,
             di_warn_codes = gt_warn_codes st, di_recent_warn_codes = recent, di_previous_level = level,
             di_breaker_open = cy_breaker_open f, di_freeze_active = False, di_streak = streak\<rparr>\<rparr>)"

definition assess_before :: "degrade_settings \<Rightarrow> degrade_row \<Rightarrow> cycle_facts \<Rightarrow> assessment" where
  "assess_before st row f =
     assess st row f (cy_observed_at f) (dr_rejects row) (cy_duration_ms f) (dr_level row) (dr_recovery row)"

definition assess_after :: "degrade_settings \<Rightarrow> degrade_row \<Rightarrow> cycle_facts \<Rightarrow> degrade_decision \<Rightarrow> assessment" where
  "assess_after st row f d =
     assess st row f (cy_ended_at f) (cy_rejected f) (cy_end_duration_ms f) (dg_level d) (dg_recovery d)"

text \<open>Stored is the decision made before the execution, with the counts made after it.\<close>

definition next_row :: "degrade_row \<Rightarrow> cycle_facts \<Rightarrow> degrade_decision \<Rightarrow> assessment \<Rightarrow> degrade_row" where
  "next_row row f d later =
     \<lparr>dr_cooldown_until = dg_cooldown_until d, dr_override = dg_mode_override d, dr_level = dg_level d, dr_reasons = dg_reasons d,
      dr_universe_cap = dg_universe_cap d, dr_recovery = dg_recovery d,
      dr_next = Some (dg_level (as_decision later), dg_mode_override (as_decision later)),
      dr_warn_window = as_warn_window later, dr_warn_codes = as_recent_codes later,
      dr_stalls = cursor_stalls f (dr_stalls row), dr_rejects = cy_rejected f, dr_updated_at = cy_written_at f\<rparr>"

definition degrade_cycle :: "degrade_settings \<Rightarrow> cycle_facts \<Rightarrow> degrade_store \<Rightarrow> (degrade_decision \<times> degrade_decision) \<times> degrade_store" where
  "degrade_cycle st f g =
     (let row = current_row g; d = as_decision (assess_before st row f); later = assess_after st row f d
      in ((d, as_decision later), persist_degrade g (cy_cycle_id f) (as_anomalies later) (next_row row f d later)))"

subsection \<open>Definitions: the actions of a cycle\<close>

record pair_info =
  pi_pair_symbol :: string
  pi_denominator_scale :: int
  pi_numerator_scale :: int
  pi_tick_size :: "dec option"
  pi_step_size :: "dec option"
  pi_min_total_amount :: "dec option"

definition positive_or :: "dec option \<Rightarrow> dec \<Rightarrow> dec" where
  "positive_or x d = (case x of None \<Rightarrow> d | Some v \<Rightarrow> if 0 < v then v else d)"

definition build_exchange_rules :: "pair_info \<Rightarrow> exchange_rules" where
  "build_exchange_rules p =
     \<lparr>er_tick_size = positive_or (pi_tick_size p) (quantum (pi_denominator_scale p)),
      er_step_size = positive_or (pi_step_size p) (quantum (pi_numerator_scale p)),
      er_min_notional = (case pi_min_total_amount p of None \<Rightarrow> 0 | Some v \<Rightarrow> v),
      er_price_precision = pi_denominator_scale p, er_qty_precision = pi_numerator_scale p\<rparr>"

definition cap_symbols :: "string list \<Rightarrow> int option \<Rightarrow> lifecycle_action list \<Rightarrow> lifecycle_action list" where
  "cap_symbols active_symbols cap actions =
     (case cap of
        None \<Rightarrow> actions
      | Some n \<Rightarrow> filter (\<lambda>a. normalize_symbol (la_symbol a) \<in> set (take (nat n) active_symbols)) actions)"

definition is_side :: "string \<Rightarrow> lifecycle_action \<Rightarrow> bool" where
  "is_side side a \<longleftrightarrow> la_type a = SUBMIT \<and> str_upper (la_side a) = side"

definition shrink_actions :: "dec \<Rightarrow> lifecycle_action list \<Rightarrow> lifecycle_action list" where
  "shrink_actions factor actions =
     (if factor < 1 then map (\<lambda>a. if is_side ''BUY'' a then a\<lparr>la_qty := dmul (la_qty a) factor\<rparr> else a) actions else actions)"

definition gate_actions_by_mode :: "lifecycle_action list \<Rightarrow> risk_mode \<Rightarrow> lifecycle_action list" where
  "gate_actions_by_mode actions mode =
     (case mode of
        OBSERVE_ONLY \<Rightarrow> []
      | REDUCE_RISK_ONLY \<Rightarrow> filter (\<lambda>a. la_type a = CANCEL \<or> is_side ''SELL'' a) actions
      | NORMAL \<Rightarrow> actions)"

text \<open>An action carries no notional of its intent, so that of the intent is price times quantity.\<close>

definition prefilter_submit :: "dec \<Rightarrow> exchange_rules \<Rightarrow> lifecycle_action \<Rightarrow> lifecycle_action option result" where
  "prefilter_submit min_order rules a =
     rbind (Quantizer_quantize_price (la_price a) rules) (\<lambda>p.
     rbind (Quantizer_quantize_qty (la_qty a) rules) (\<lambda>q.
       let min_required = max min_order (er_min_notional rules) in
       if min_required \<le> dmul p q then Inr (Some a)
       else if min_required \<le> dmul (la_price a) (la_qty a) \<and> 0 < p then
         rbind (Quantizer_quantize_qty_up (ddiv min_required p) rules) (\<lambda>q2.
           Inr (if min_required \<le> dmul p q2 then Some (a\<lparr>la_price := p, la_qty := q2\<rparr>) else None))
       else Inr None))"

definition prefilter_step ::
  "(string, pair_info) dict \<Rightarrow> dec \<Rightarrow> lifecycle_action list \<times> nat \<Rightarrow> lifecycle_action \<Rightarrow> (lifecycle_action list \<times> nat) result" where
  "prefilter_step pairs min_order acc a =
     (let keep = Inr (fst acc @ [a], snd acc) in
      if la_type a \<noteq> SUBMIT then keep
      else case map_of pairs (normalize_symbol (la_symbol a)) of
        None \<Rightarrow> keep
      | Some p \<Rightarrow>
          rbind (prefilter_submit min_order (build_exchange_rules p) a) (\<lambda>kept.
            Inr (case kept of None \<Rightarrow> (fst acc, Suc (snd acc)) | Some b \<Rightarrow> (fst acc @ [b], snd acc))))"

definition pairs_by_symbol :: "pair_info list \<Rightarrow> (string, pair_info) dict" where
  "pairs_by_symbol xs = fold (\<lambda>p. AList.update (normalize_symbol (pi_pair_symbol p)) p) xs []"

definition prefilter_min_notional ::
  "pair_info list \<Rightarrow> dec \<Rightarrow> lifecycle_action list \<Rightarrow> (lifecycle_action list \<times> nat) result" where
  "prefilter_min_notional pair_info min_order actions =
     rfold (prefilter_step (pairs_by_symbol pair_info) min_order) ([], 0) actions"

record suppressed =
  su_submit :: nat
  su_replace_submit :: nat
  su_cancel :: nat

definition count_suppressed :: "lifecycle_action list \<Rightarrow> suppressed" where
  "count_suppressed actions =
     (let count = (\<lambda>t. length (filter (\<lambda>a. la_type a = t) actions))
      in \<lparr>su_submit = count SUBMIT, su_replace_submit = count REPLACE, su_cancel = count CANCEL\<rparr>)"

definition suppress_actions :: "bool \<Rightarrow> bool \<Rightarrow> lifecycle_action list \<Rightarrow> lifecycle_action list \<times> suppressed" where
  "suppress_actions active freeze_all actions =
     (if active
      then (keep_cancels freeze_all actions, count_suppressed (filter (\<lambda>a. \<not> (la_type a = CANCEL \<and> \<not> freeze_all)) actions))
      else (actions, count_suppressed []))"

record gate_inputs =
  gi_active_symbols :: "string list"
  gi_base_mode :: risk_mode
  gi_force_dry_run_submit :: bool
  gi_pair_info :: "pair_info list"
  gi_min_order_notional :: dec
  gi_kill_switch :: bool
  gi_freeze_active :: bool
  gi_freeze_all :: bool

definition final_mode :: "gate_inputs \<Rightarrow> degrade_decision \<Rightarrow> risk_mode" where
  "final_mode g d = (if gi_force_dry_run_submit g then NORMAL else combine_modes (gi_base_mode g) (dg_mode_override d))"

definition actions_to_execute ::
  "gate_inputs \<Rightarrow> degrade_decision \<Rightarrow> lifecycle_action list \<Rightarrow> (lifecycle_action list \<times> nat \<times> suppressed \<times> suppressed) result" where
  "actions_to_execute g d accepted =
     (let gated = gate_actions_by_mode
            (shrink_actions (dg_shrink d) (cap_symbols (gi_active_symbols g) (dg_universe_cap d) accepted)) (final_mode g d)
      in rbind (prefilter_min_notional (gi_pair_info g) (gi_min_order_notional g) gated) (\<lambda>(filtered, dropped).
           let (kept, by_kill) = suppress_actions (gi_kill_switch g) (gi_freeze_all g) filtered;
               (kept', by_freeze) = suppress_actions (gi_freeze_active g) (gi_freeze_all g) kept
           in Inr (kept', dropped, by_kill, by_freeze)))"

end
