(* ===== verification/Stage4_Degrade_Props.thy ===== *)
theory Stage4_Degrade_Props
  imports Stage4_Degrade
begin

text \<open>
  Properties of \<open>Stage4_Degrade\<close>: what a level means and how it moves, that quiet cycles lead back to the
  normal level when they are far enough apart, that a level never ends while they are not, and which
  actions of a cycle reach the execution gate.
\<close>

subsection \<open>Levels\<close>

lemma build_decision_simps [simp]:
  "dg_level (build_decision now level reasons k) = level"
  "dg_recovery (build_decision now level reasons k) = k"
  "dg_reasons (build_decision now level reasons k) = reasons"
  "dg_mode_override (build_decision now level reasons k) = fst (level_policy level)"
  "dg_shrink (build_decision now level reasons k) = fst (snd (level_policy level))"
  "dg_universe_cap (build_decision now level reasons k) = fst (snd (snd (level_policy level)))"
  "dg_cooldown_until (build_decision now level reasons k) =
     (if 1 \<le> level then Some (now + snd (snd (snd (level_policy level))) * 1000000) else None)"
  by (simp_all add: build_decision_def split: prod.split)






lemma combine_modes_stricter: "MODE_ORDER base \<le> MODE_ORDER (combine_modes base m)"
  by (cases base; auto simp: combine_modes_def split: option.split risk_mode.split)

subsection \<open>Runs of cycles\<close>

fun degrade_run :: "degrade_settings \<Rightarrow> cycle_facts list \<Rightarrow> degrade_store \<Rightarrow> degrade_store" where
  "degrade_run st [] g = g"
| "degrade_run st (f # fs) g = degrade_run st fs (snd (degrade_cycle st f g))"

lemma degrade_cycle_row:
  "current_row (snd (degrade_cycle st f g)) =
     next_row (current_row g) f (as_decision (assess_before st (current_row g) f))
       (assess_after st (current_row g) f (as_decision (assess_before st (current_row g) f)))"
  by (simp add: degrade_cycle_def Let_def persist_degrade_def current_row_def)

lemma next_row_simps [simp]:
  "dr_cooldown_until (next_row row f d later) = dg_cooldown_until d" "dr_override (next_row row f d later) = dg_mode_override d"
  "dr_level (next_row row f d later) = dg_level d" "dr_recovery (next_row row f d later) = dg_recovery d"
  by (simp_all add: next_row_def)

definition before_inputs :: "degrade_settings \<Rightarrow> degrade_row \<Rightarrow> cycle_facts \<Rightarrow> degrade_inputs" where
  "before_inputs st row f =
     (let anomalies = as_anomalies (assess_before st row f) in
      \<lparr>di_anomalies = anomalies, di_now = cy_now f, di_override = dr_override row, di_cooldown_until = dr_cooldown_until row,
       di_last_reasons = dr_reasons row, di_recent_warn_count = as_warn_window (assess_before st row f),
       di_warn_threshold = gt_warn_threshold st, di_warn_codes = gt_warn_codes st,
       di_recent_warn_codes = as_recent_codes (assess_before st row f), di_previous_level = dr_level row,
       di_breaker_open = cy_breaker_open f, di_freeze_active = False, di_streak = dr_recovery row\<rparr>)"

lemma before_decision: "as_decision (assess_before st row f) = decide_degrade (before_inputs st row f)"
  by (simp add: before_inputs_def assess_before_def assess_def Let_def)

lemma before_inputs_simps [simp]:
  "di_now (before_inputs st row f) = cy_now f" "di_previous_level (before_inputs st row f) = dr_level row"
  "di_streak (before_inputs st row f) = dr_recovery row" "di_cooldown_until (before_inputs st row f) = dr_cooldown_until row"
  "di_warn_threshold (before_inputs st row f) = gt_warn_threshold st"
  by (simp_all add: before_inputs_def Let_def)

text \<open>A cycle without an anomaly, whatever the execution did after the decision.\<close>

definition calm_cycle :: "degrade_settings \<Rightarrow> degrade_row \<Rightarrow> cycle_facts \<Rightarrow> bool" where
  "calm_cycle st row f \<longleftrightarrow> as_anomalies (assess_before st row f) = [] \<and> \<not> cy_breaker_open f"

definition level_rank :: "int \<Rightarrow> int \<Rightarrow> int" where
  "level_rank level streak =
     (if level \<le> 0 then 0 else if level = 1 then 8 - streak else if level = 2 then 12 - streak else 16 - streak)"

definition row_ok :: "degrade_row \<Rightarrow> bool" where
  "row_ok row \<longleftrightarrow> 0 \<le> dr_level row \<and> dr_level row \<le> 3 \<and> 0 \<le> dr_recovery row
     \<and> (1 \<le> dr_level row \<longrightarrow> dr_recovery row < required_streak (dr_level row)) \<and> (dr_level row = 0 \<longrightarrow> dr_recovery row = 0)"

lemma quiet_step:
  assumes "calm_cycle st row f" "0 < gt_warn_threshold st" "row_ok row"
    and "\<forall>t. dr_cooldown_until row = Some t \<longrightarrow> t \<le> cy_now f"
    and "row' = next_row row f (as_decision (assess_before st row f)) later"
  shows "row_ok row' \<and> (\<forall>t. dr_cooldown_until row' = Some t \<longrightarrow> t \<le> cy_now f + 1800 * 1000000)
    \<and> level_rank (dr_level row') (dr_recovery row') = max 0 (level_rank (dr_level row) (dr_recovery row) - 1)"
proof -
  let ?i = "before_inputs st row f"
  have calm: "\<not> cooling ?i" "\<not> critical ?i"
    using assms(1,4) by (auto simp: cooling_def critical_def calm_cycle_def before_inputs_def Let_def split: option.split)
  have none: "as_anomalies (assess_before st row f) = []" using assms(1) by (simp add: calm_cycle_def)
  then have "as_warn_window (assess_before st row f) = 0"
    by (simp add: assess_before_def assess_def Let_def warn_codes_of_def)
  then have "warn_count ?i = 0" by (simp add: warn_count_def before_inputs_def Let_def)
  then have d: "as_decision (assess_before st row f) = step_down ?i"
    using calm assms(2) by (simp add: before_decision decide_degrade_def Let_def)
  have "dr_level row \<in> {0, 1, 2, 3}" using assms(3) by (auto simp: row_ok_def)
  then show ?thesis
    using assms(3) unfolding assms(5) d
    by (auto simp: row_ok_def step_down_def Let_def level_policy_def level_rank_def required_streak_def split: if_splits)
qed

fun spaced :: "degrade_settings \<Rightarrow> cycle_facts list \<Rightarrow> degrade_store \<Rightarrow> bool" where
  "spaced st [] g = True"
| "spaced st (f # fs) g = (calm_cycle st (current_row g) f
     \<and> (\<forall>h \<in> set fs. cy_now f + 1800 * 1000000 \<le> cy_now h) \<and> spaced st fs (snd (degrade_cycle st f g)))"

lemma recovery_counts:
  assumes "spaced st fs g" "0 < gt_warn_threshold st" "row_ok (current_row g)"
    and "\<forall>t f. dr_cooldown_until (current_row g) = Some t \<and> f \<in> set fs \<longrightarrow> t \<le> cy_now f"
  shows "row_ok (current_row (degrade_run st fs g))
    \<and> level_rank (dr_level (current_row (degrade_run st fs g))) (dr_recovery (current_row (degrade_run st fs g)))
       = max 0 (level_rank (dr_level (current_row g)) (dr_recovery (current_row g)) - int (length fs))"
  using assms
proof (induction fs arbitrary: g)
  case Nil
  then show ?case by (auto simp: level_rank_def row_ok_def required_streak_def split: if_splits)
next
  case (Cons f fs)
  let ?g = "snd (degrade_cycle st f g)"
  have q: "calm_cycle st (current_row g) f" "\<forall>h \<in> set fs. cy_now f + 1800 * 1000000 \<le> cy_now h" "spaced st fs ?g"
    using Cons.prems(1) by auto
  have step: "row_ok (current_row ?g) \<and> (\<forall>t. dr_cooldown_until (current_row ?g) = Some t \<longrightarrow> t \<le> cy_now f + 1800 * 1000000)
      \<and> level_rank (dr_level (current_row ?g)) (dr_recovery (current_row ?g))
        = max 0 (level_rank (dr_level (current_row g)) (dr_recovery (current_row g)) - 1)"
    using Cons.prems(4) by (intro quiet_step [OF q(1) Cons.prems(2,3) _ degrade_cycle_row]) simp
  have "\<forall>t h. dr_cooldown_until (current_row ?g) = Some t \<and> h \<in> set fs \<longrightarrow> t \<le> cy_now h"
    using step q(2) by fastforce
  then show ?case using Cons.IH [OF q(3) Cons.prems(2)] step by auto
qed

text \<open>
  (C38) Quiet cycles lead back: after sixteen cycles without anomaly, each at least the longest cooldown (30
  minutes) after the one before, the level is zero and no mode is overridden, whatever level the row
  had.
\<close>

theorem quiet_cycles_recover:
  assumes "spaced st fs g" "16 \<le> length fs" "0 < gt_warn_threshold st" "row_ok (current_row g)"
    and "\<forall>t f. dr_cooldown_until (current_row g) = Some t \<and> f \<in> set fs \<longrightarrow> t \<le> cy_now f"
  shows "dr_level (current_row (degrade_run st fs g)) = 0"
proof -
  let ?row = "current_row (degrade_run st fs g)"
  have "level_rank (dr_level (current_row g)) (dr_recovery (current_row g)) \<le> 16"
    using assms(4) by (auto simp: level_rank_def row_ok_def)
  then have "level_rank (dr_level ?row) (dr_recovery ?row) \<le> 0" "row_ok ?row"
    using recovery_counts [OF assms(1,3,4,5)] assms(2) by auto
  then show ?thesis by (auto simp: level_rank_def row_ok_def required_streak_def split: if_splits)
qed

text \<open>Every cycle comes before the end of the shortest cooldown after the one before.\<close>

fun within_cooldown :: "instant \<Rightarrow> cycle_facts list \<Rightarrow> bool" where
  "within_cooldown until [] = True"
| "within_cooldown until (f # fs) = (cy_now f < until \<and> within_cooldown (cy_now f + 900 * 1000000) fs)"

lemma within_cooldown_mono: "within_cooldown t fs \<Longrightarrow> t \<le> u \<Longrightarrow> within_cooldown u fs"
  by (cases fs) auto

text \<open>
  (C39) A level lasts while cycles come within its cooldown: a decision inside the cooldown keeps the level and
  begins the cooldown anew, whatever the cycle observes.  With cycles less than 15 minutes apart a
  level above zero therefore never ends, and an error does not raise it.
\<close>

theorem level_lasts_while_cycles_come:
  assumes "dr_cooldown_until (current_row g) = Some until" "within_cooldown until fs" "1 \<le> dr_level (current_row g)"
  shows "dr_level (current_row (degrade_run st fs g)) = dr_level (current_row g)
    \<and> dr_recovery (current_row (degrade_run st fs g)) = dr_recovery (current_row g)"
  using assms
proof (induction fs arbitrary: g until)
  case (Cons f fs)
  let ?g = "snd (degrade_cycle st f g)"
  let ?level = "dr_level (current_row g)"
  have "cooling (before_inputs st (current_row g) f)" using Cons.prems by (simp add: cooling_def)
  then have d: "as_decision (assess_before st (current_row g) f) = build_decision (cy_now f) ?level
      (di_last_reasons (before_inputs st (current_row g) f)) (dr_recovery (current_row g))"
    using Cons.prems(3) by (simp add: before_decision decide_degrade_def Let_def)
  have row: "dr_level (current_row ?g) = ?level" "dr_recovery (current_row ?g) = dr_recovery (current_row g)"
    "dr_cooldown_until (current_row ?g) = Some (cy_now f + snd (snd (snd (level_policy ?level))) * 1000000)"
    using Cons.prems(3) by (simp_all add: degrade_cycle_row d)
  have "900 \<le> snd (snd (snd (level_policy ?level)))" using Cons.prems(3) by (simp add: level_policy_def)
  then have "within_cooldown (cy_now f + snd (snd (snd (level_policy ?level))) * 1000000) fs"
    using Cons.prems(2) by (auto intro: within_cooldown_mono)
  then show ?case using Cons.IH [OF row(3)] row Cons.prems(3) by simp
qed simp

subsection \<open>The actions that reach the execution gate\<close>

text \<open>An action that passed the check of the minimum notional.\<close>

definition notional_checked :: "gate_inputs \<Rightarrow> lifecycle_action \<Rightarrow> bool" where
  "notional_checked g a \<longleftrightarrow> (\<forall>p. la_type a = SUBMIT \<and> map_of (pairs_by_symbol (gi_pair_info g)) (normalize_symbol (la_symbol a)) = Some p
     \<longrightarrow> (let rules = build_exchange_rules p; min_required = max (gi_min_order_notional g) (er_min_notional rules) in
          min_required \<le> dmul (la_price a) (la_qty a)
          \<or> (\<exists>q r. Quantizer_quantize_price (la_price a) rules = Inr q \<and> Quantizer_quantize_qty (la_qty a) rules = Inr r
               \<and> min_required \<le> dmul q r)))"

text \<open>The same action, except for price and quantity.\<close>

definition same_action :: "lifecycle_action \<Rightarrow> lifecycle_action \<Rightarrow> bool" where
  "same_action a b \<longleftrightarrow> b\<lparr>la_price := la_price a, la_qty := la_qty a\<rparr> = a"

lemma same_action_fields:
  assumes "same_action a b"
  shows "la_type b = la_type a" "la_symbol b = la_symbol a" "la_side b = la_side a"
    "la_client_order_id b = la_client_order_id a" "is_side s b = is_side s a"
proof -
  have eq: "b\<lparr>la_price := la_price a, la_qty := la_qty a\<rparr> = a" using assms by (simp add: same_action_def)
  show fields: "la_type b = la_type a" "la_symbol b = la_symbol a" "la_side b = la_side a" "la_client_order_id b = la_client_order_id a"
    using arg_cong [OF eq, of la_type] arg_cong [OF eq, of la_symbol] arg_cong [OF eq, of la_side]
      arg_cong [OF eq, of la_client_order_id] by simp_all
  show "is_side s b = is_side s a" by (simp add: is_side_def fields)
qed

lemma same_action_refl [simp]: "same_action a a" and same_action_updates [simp]:
  "same_action a (a\<lparr>la_qty := q\<rparr>)" "same_action a (a\<lparr>la_price := p, la_qty := q\<rparr>)"
  by (simp_all add: same_action_def)

lemma same_action_trans: "same_action a b \<Longrightarrow> same_action b c \<Longrightarrow> same_action a c"
  by (cases a; cases b; cases c) (simp add: same_action_def)

lemma prefilter_submit_kept:
  assumes "prefilter_submit (gi_min_order_notional g) (build_exchange_rules p) a = Inr (Some b)"
    and "map_of (pairs_by_symbol (gi_pair_info g)) (normalize_symbol (la_symbol a)) = Some p"
  shows "same_action a b \<and> notional_checked g b"
  using assms
  by (auto simp: prefilter_submit_def rbind_eq_Inr_iff Let_def notional_checked_def split: if_splits)

lemma prefilter_step_kept:
  assumes "prefilter_step (pairs_by_symbol (gi_pair_info g)) (gi_min_order_notional g) acc a = Inr acc'"
    and "b \<in> set (fst acc')" "b \<notin> set (fst acc)"
  shows "same_action a b \<and> notional_checked g b"
proof (cases "la_type a = SUBMIT \<and> map_of (pairs_by_symbol (gi_pair_info g)) (normalize_symbol (la_symbol a)) \<noteq> None")
  case True
  then obtain p where p: "map_of (pairs_by_symbol (gi_pair_info g)) (normalize_symbol (la_symbol a)) = Some p" by blast
  then obtain kept where "prefilter_submit (gi_min_order_notional g) (build_exchange_rules p) a = Inr kept"
      "acc' = (case kept of None \<Rightarrow> (fst acc, Suc (snd acc)) | Some b \<Rightarrow> (fst acc @ [b], snd acc))"
    using assms(1) True by (auto simp: prefilter_step_def Let_def rbind_eq_Inr_iff)
  then show ?thesis using assms(2,3) prefilter_submit_kept [OF _ p] by (cases kept) auto
next
  case False
  then have "acc' = (fst acc @ [a], Suc (snd acc) - 1)"
    using assms(1) by (auto simp: prefilter_step_def Let_def split: option.splits)
  then have "b = a" using assms(2,3) by simp
  then show ?thesis using False by (auto simp: notional_checked_def)
qed

lemma prefilter_kept:
  assumes "rfold (prefilter_step (pairs_by_symbol (gi_pair_info g)) (gi_min_order_notional g)) acc actions = Inr res"
    and "b \<in> set (fst res)" "b \<notin> set (fst acc)"
  shows "\<exists>a \<in> set actions. same_action a b \<and> notional_checked g b"
  using assms
proof (induction actions arbitrary: acc)
  case (Cons a actions)
  obtain acc' where acc': "prefilter_step (pairs_by_symbol (gi_pair_info g)) (gi_min_order_notional g) acc a = Inr acc'"
      "rfold (prefilter_step (pairs_by_symbol (gi_pair_info g)) (gi_min_order_notional g)) acc' actions = Inr res"
    using Cons.prems(1) by (auto simp: rbind_eq_Inr_iff)
  show ?case
  proof (cases "b \<in> set (fst acc')")
    case True
    then have "same_action a b \<and> notional_checked g b" using prefilter_step_kept [OF acc'(1)] Cons.prems(3) by blast
    then show ?thesis by auto
  next
    case False
    then show ?thesis using Cons.IH [OF acc'(2) Cons.prems(2)] by auto
  qed
qed simp

lemma suppress_kept: "b \<in> set (fst (suppress_actions active freeze_all actions)) \<Longrightarrow>
    b \<in> set actions \<and> (active \<longrightarrow> la_type b = CANCEL \<and> \<not> freeze_all)"
  by (auto simp: suppress_actions_def keep_cancels_def split: if_splits)

lemma gated_by_mode: "b \<in> set (gate_actions_by_mode actions mode) \<Longrightarrow>
    b \<in> set actions \<and> mode \<noteq> OBSERVE_ONLY \<and> (mode = REDUCE_RISK_ONLY \<longrightarrow> la_type b = CANCEL \<or> is_side ''SELL'' b)"
  by (cases mode) (auto simp: gate_actions_by_mode_def)

lemma shrunk:
  assumes "b \<in> set (shrink_actions factor actions)"
  shows "\<exists>a \<in> set actions. same_action a b"
proof (cases "factor < 1")
  case True
  then obtain a where "a \<in> set actions" "b = (if is_side ''BUY'' a then a\<lparr>la_qty := dmul (la_qty a) factor\<rparr> else a)"
    using assms unfolding shrink_actions_def by auto
  then show ?thesis by (intro bexI [of _ a]) (simp_all split: if_split)
next
  case False
  then have "b \<in> set actions" using assms by (simp add: shrink_actions_def)
  then show ?thesis by (intro bexI [of _ b]) simp_all
qed

text \<open>
  (C3) What a cycle hands to the execution gate are accepted actions, changed in price and quantity only:
  none in OBSERVE_ONLY mode, cancellations and sales in REDUCE_RISK_ONLY mode, cancellations only under
  the kill switch or a freeze and none if these freeze all, of the first symbols only when the level caps
  them.  A submission for a symbol with pair information has, as it stands or quantized by the rules of the
  pair, at least the minimum notional of the settings and of the pair; one for a symbol that is not in
  the pair information is not checked and passes.
\<close>

theorem executed_actions_sound:
  assumes "actions_to_execute g d accepted = Inr (actions, dropped, by_kill, by_freeze)" "b \<in> set actions"
  shows "(\<exists>a \<in> set accepted. same_action a b)
    \<and> final_mode g d \<noteq> OBSERVE_ONLY
    \<and> (final_mode g d = REDUCE_RISK_ONLY \<longrightarrow> la_type b = CANCEL \<or> is_side ''SELL'' b)
    \<and> (gi_kill_switch g \<or> gi_freeze_active g \<longrightarrow> la_type b = CANCEL \<and> \<not> gi_freeze_all g)
    \<and> (\<forall>n. dg_universe_cap d = Some n \<longrightarrow> normalize_symbol (la_symbol b) \<in> set (take (nat n) (gi_active_symbols g)))
    \<and> (\<forall>pair. la_type b = SUBMIT \<and> map_of (pairs_by_symbol (gi_pair_info g)) (normalize_symbol (la_symbol b)) = Some pair
         \<longrightarrow> (let rules = build_exchange_rules pair; min_required = max (gi_min_order_notional g) (er_min_notional rules) in
                min_required \<le> dmul (la_price b) (la_qty b)
                \<or> (\<exists>q r. Quantizer_quantize_price (la_price b) rules = Inr q \<and> Quantizer_quantize_qty (la_qty b) rules = Inr r
                     \<and> min_required \<le> dmul q r)))"
proof -
  let ?gated = "gate_actions_by_mode (shrink_actions (dg_shrink d) (cap_symbols (gi_active_symbols g) (dg_universe_cap d) accepted))
    (final_mode g d)"
  obtain filtered where f: "prefilter_min_notional (gi_pair_info g) (gi_min_order_notional g) ?gated = Inr (filtered, dropped)"
      "actions = fst (suppress_actions (gi_freeze_active g) (gi_freeze_all g) (fst (suppress_actions (gi_kill_switch g) (gi_freeze_all g) filtered)))"
    using assms(1) by (auto simp: actions_to_execute_def Let_def rbind_eq_Inr_iff case_prod_unfold)
  have b: "b \<in> set filtered" "gi_kill_switch g \<or> gi_freeze_active g \<longrightarrow> la_type b = CANCEL \<and> \<not> gi_freeze_all g"
    using assms(2) f(2) suppress_kept by blast+
  obtain c where c: "c \<in> set ?gated" "same_action c b" "notional_checked g b"
    using prefilter_kept [OF f(1) [unfolded prefilter_min_notional_def]] b(1) by auto
  from gated_by_mode [OF c(1)] obtain a where a: "a \<in> set (cap_symbols (gi_active_symbols g) (dg_universe_cap d) accepted)"
      "same_action a c" and mode: "final_mode g d \<noteq> OBSERVE_ONLY"
      "final_mode g d = REDUCE_RISK_ONLY \<longrightarrow> la_type c = CANCEL \<or> is_side ''SELL'' c"
    using shrunk by blast
  have "same_action a b" using same_action_trans [OF a(2) c(2)] .
  moreover have "a \<in> set accepted" "\<forall>n. dg_universe_cap d = Some n \<longrightarrow> normalize_symbol (la_symbol a) \<in> set (take (nat n) (gi_active_symbols g))"
    using a(1) by (auto simp: cap_symbols_def split: option.splits)
  ultimately show ?thesis
    unfolding notional_checked_def [symmetric]
    using b(2) c(3) mode same_action_fields [OF c(2)] same_action_fields [OF \<open>same_action a b\<close>] by auto
qed

subsection \<open>Examples\<close>

definition demo_degrade_settings :: degrade_settings where
  "demo_degrade_settings =
     \<lparr>gt_config = \<lparr>dc_stale_seconds = 30, dc_reject_threshold = 3, dc_latency_ms = Some 2000, dc_stall_cycles = 5,
        dc_skew_seconds = 30, dc_divergence_warn = 50, dc_divergence_error = 200\<rparr>,
      gt_warn_threshold = 3, gt_warn_codes = [STALE_MARKET_DATA, ORDER_REJECT_SPIKE, PNL_DIVERGENCE]\<rparr>"

definition demo_cycle :: "instant \<Rightarrow> dec \<Rightarrow> cycle_facts" where
  "demo_cycle now equity =
     \<lparr>cy_cycle_id = ''c'', cy_now = now, cy_dry_run = False, cy_diag = [], cy_events_inserted = 0, cy_events_ignored = 0,
      cy_ages = [], cy_snapshot = \<lparr>pn_total_equity_try = equity, pn_realized_today_try = 0, pn_drawdown_pct = 0, pn_ts = now,
        pn_realized_total_try = 0\<rparr>,
      cy_report = \<lparr>pr_realized_pnl_total = 0, pr_unrealized_pnl_total = 0, pr_fees_total_by_currency = [], pr_per_symbol = [],
        pr_equity_estimate = 1000, pr_fees_total_try = None, pr_missing_currencies = []\<rparr>,
      cy_breaker_open = False, cy_observed_at = now, cy_duration_ms = 100, cy_ended_at = now, cy_end_duration_ms = 200,
      cy_rejected = 0, cy_written_at = now\<rparr>"

definition demo_level :: "int \<Rightarrow> degrade_store" where
  "demo_level level = \<lparr>gs_row = Some (no_degrade\<lparr>dr_level := level, dr_cooldown_until := Some 0\<rparr>), gs_events = []\<rparr>"

lemma demo_calm:
  assumes "dr_rejects row < 3"
  shows "calm_cycle demo_degrade_settings row (demo_cycle now 1000)"
proof -
  have "fits 1000" using fits_of_int [of 1000] by simp
  then show ?thesis using assms
    by (simp add: calm_cycle_def assess_before_def assess_def Let_def detect_def demo_cycle_def demo_degrade_settings_def
        stale_events_def latency_events_def reject_events_def stall_events_def skew_events_def divergence_events_def
        keys_where_def cursor_stalls_def dabs_def)
qed

lemma demo_spaced:
  assumes "dr_rejects (current_row g) < 3" "sorted_wrt (\<lambda>a b. a + 1800 * 1000000 \<le> b) ts"
  shows "spaced demo_degrade_settings (map (\<lambda>t. demo_cycle t 1000) ts) g"
  using assms
proof (induction ts arbitrary: g)
  case (Cons t ts)
  have "dr_rejects (current_row (snd (degrade_cycle demo_degrade_settings (demo_cycle t 1000) g))) < 3"
    by (simp add: degrade_cycle_row next_row_def demo_cycle_def)
  then show ?case using Cons.IH Cons.prems demo_calm by (auto simp: demo_cycle_def)
qed simp

definition demo_times :: "int list" where
  "demo_times = map (\<lambda>n. int n * 1800000000) [0..<16]"

theorem quiet_cycles_recover_witness:
  "dr_level (current_row (degrade_run demo_degrade_settings (map (\<lambda>t. demo_cycle t 1000) demo_times) (demo_level 3))) = 0"
proof (rule quiet_cycles_recover)
  have "sorted_wrt (\<lambda>a b. a + 1800 * 1000000 \<le> b) demo_times" by (simp add: demo_times_def sorted_wrt_map upt_rec)
  then show "spaced demo_degrade_settings (map (\<lambda>t. demo_cycle t 1000) demo_times) (demo_level 3)"
    by (intro demo_spaced) (simp_all add: demo_level_def current_row_def no_degrade_def)
  show "row_ok (current_row (demo_level 3))"
    by (simp add: row_ok_def demo_level_def current_row_def no_degrade_def required_streak_def)
qed (auto simp: demo_times_def demo_degrade_settings_def demo_level_def current_row_def demo_cycle_def no_degrade_def)

theorem level_lasts_while_cycles_come_witness:
  "dr_level (current_row (degrade_run demo_degrade_settings [demo_cycle 1 1000, demo_cycle 600000000 0]
     (demo_level 1\<lparr>gs_row := Some (no_degrade\<lparr>dr_level := 1, dr_cooldown_until := Some 900000000\<rparr>)\<rparr>))) = 1"
proof -
  let ?g = "demo_level 1\<lparr>gs_row := Some (no_degrade\<lparr>dr_level := 1, dr_cooldown_until := Some 900000000\<rparr>)\<rparr>"
  have row: "dr_cooldown_until (current_row ?g) = Some 900000000" "dr_level (current_row ?g) = 1"
    by (simp_all add: current_row_def)
  have "within_cooldown 900000000 [demo_cycle 1 1000, demo_cycle 600000000 0]" by (simp add: demo_cycle_def)
  from level_lasts_while_cycles_come [OF row(1) this] row show ?thesis by simp
qed

definition demo_degrade_inputs :: "int \<Rightarrow> int \<Rightarrow> degrade_inputs" where
  "demo_degrade_inputs level warnings =
     \<lparr>di_anomalies = (if warnings = 0 then [] else [warn_event ORDER_REJECT_SPIKE 5 (Reject_details 3 3)]), di_now = 5,
      di_override = None, di_cooldown_until = None, di_last_reasons = [''PNL_DIVERGENCE''], di_recent_warn_count = warnings,
      di_warn_threshold = 3, di_warn_codes = [ORDER_REJECT_SPIKE],
      di_recent_warn_codes = (if warnings = 0 then [] else [ORDER_REJECT_SPIKE]),
      di_previous_level = level, di_breaker_open = False, di_freeze_active = False, di_streak = 0\<rparr>"


text \<open>At level three a quiet cycle keeps the level; warnings at the threshold lower it to one.\<close>

lemma warnings_lower_level:
  "dg_level (decide_degrade (demo_degrade_inputs 3 3)) = 1" "dg_level (decide_degrade (demo_degrade_inputs 3 0)) = 3"
  by code_simp+

text \<open>A cancellation of a symbol beyond the cap of the level is dropped with the submissions.\<close>

definition demo_lifecycle :: "lifecycle_action_type \<Rightarrow> string \<Rightarrow> string \<Rightarrow> lifecycle_action" where
  "demo_lifecycle t symb side =
     \<lparr>la_type = t, la_symbol = symb, la_side = side, la_price = 100, la_qty = 2, la_reason = [], la_client_order_id = Some ''a'',
      la_exchange_order_id = None, la_replace_for = None\<rparr>"

definition demo_gate :: "string list \<Rightarrow> gate_inputs" where
  "demo_gate symbols =
     \<lparr>gi_active_symbols = symbols, gi_base_mode = NORMAL, gi_force_dry_run_submit = False,
      gi_pair_info = [\<lparr>pi_pair_symbol = ''BTC_TRY'', pi_denominator_scale = 0, pi_numerator_scale = 2, pi_tick_size = None,
        pi_step_size = None, pi_min_total_amount = Some 99\<rparr>],
      gi_min_order_notional = 10, gi_kill_switch = False, gi_freeze_active = False, gi_freeze_all = False\<rparr>"

lemma demo_executed:
  "map_sum (\<lambda>e. ()) (\<lambda>(actions, rest). map (\<lambda>a. (la_type a, la_symbol a, la_qty a)) actions)
     (actions_to_execute (demo_gate [''BTCTRY'']) (build_decision 0 1 [] 0)
        [demo_lifecycle SUBMIT ''BTC_TRY'' ''buy'', demo_lifecycle SUBMIT ''BTC_TRY'' ''sell'', demo_lifecycle CANCEL ''ETH_TRY'' ''buy''])
   = Inr [(SUBMIT, ''BTC_TRY'', 2)]"
  by code_simp

theorem executed_actions_sound_witness:
  "\<exists>b. map_sum (\<lambda>e. ()) fst (actions_to_execute (demo_gate [''BTCTRY'']) (build_decision 0 1 [] 0)
        [demo_lifecycle SUBMIT ''BTC_TRY'' ''buy'', demo_lifecycle SUBMIT ''BTC_TRY'' ''sell'', demo_lifecycle CANCEL ''ETH_TRY'' ''buy''])
      = Inr [b] \<and> notional_checked (demo_gate [''BTCTRY'']) b"
proof -
  let ?xs = "[demo_lifecycle SUBMIT ''BTC_TRY'' ''buy'', demo_lifecycle SUBMIT ''BTC_TRY'' ''sell'', demo_lifecycle CANCEL ''ETH_TRY'' ''buy'']"
  obtain r where r: "actions_to_execute (demo_gate [''BTCTRY'']) (build_decision 0 1 [] 0) ?xs = r" by blast
  obtain acts n k z where acts: "r = Inr (acts, n, k, z)" "length acts = 1"
    using demo_executed unfolding r by (cases r) (auto simp: map_eq_Cons_conv)
  then obtain b where b: "acts = [b]" by (cases acts) auto
  from executed_actions_sound [OF r [unfolded acts(1)], of b] show ?thesis
    unfolding r acts(1) b notional_checked_def by simp
qed

end
