(* ===== verification/Stage7_Adaptation.thy ===== *)
theory Stage7_Adaptation
  imports Risk_Budget
begin

text \<open>
  The adaptation of the parameters of stage 7: \<open>src/src/btcbot/domain/adaptation_models.py\<close>,
  \<open>services/param_bounds.py\<close>, \<open>services/adaptation_service.py\<close> and the tables of active parameters,
  changes and checkpoints in \<open>services/state_store.py\<close>.

  The fields of two parameter sets whose texts differ are the parameter \<open>pe_text_diff\<close>, as the text of a
  decimal depends on its exponent; the id of a change contains a hash and is the parameter \<open>pe_change_id\<close>.
  The flags of a cycle are dictionaries of booleans.
\<close>

subsection \<open>Definitions: parameters and bounds\<close>

record stage7_params =
  ap_universe_size :: int
  ap_score_weights :: "(string, dec) dict"
  ap_order_offset_bps :: int
  ap_turnover_cap_try :: dec
  ap_max_orders_per_cycle :: int
  ap_max_spread_bps :: int
  ap_cash_target_try :: dec
  ap_min_quote_volume_try :: dec
  ap_version :: int
  ap_updated_at :: instant

record adapt_settings =
  xs_notional_cap :: dec
  xs_try_cash_max :: dec
  xs_max_drawdown_pct :: dec
  xs_universe_size :: int
  xs_score_weights :: "(string, dec) dict option"
  xs_order_offset_bps :: dec
  xs_max_orders_per_cycle :: int
  xs_max_spread_bps :: dec
  xs_try_cash_target :: dec
  xs_min_quote_volume_try :: dec

definition weight_keys :: "string list" where
  "weight_keys = [''liquidity'', ''spread'', ''volatility'']"

definition default_weights :: "(string, dec) dict" where
  "default_weights = [(''liquidity'', 5 / 10), (''spread'', 3 / 10), (''volatility'', 2 / 10)]"

definition normalize_weights :: "(string, dec) dict \<Rightarrow> (string, dec) dict" where
  "normalize_weights weights =
     (let clipped = map (\<lambda>k. (k, min 1 (max 0 (dict_get weights k 0)))) weight_keys; total = dsum (map snd clipped)
      in if total \<le> 0 then default_weights else map (\<lambda>(k, v). (k, ddiv v total)) clipped)"

definition clamp :: "'a::linorder \<Rightarrow> 'a \<Rightarrow> 'a \<Rightarrow> 'a" where
  "clamp lo hi x = min hi (max lo x)"

definition apply_bounds :: "stage7_params \<Rightarrow> adapt_settings \<Rightarrow> stage7_params" where
  "apply_bounds p st =
     p\<lparr>ap_universe_size := clamp 5 50 (ap_universe_size p),
       ap_score_weights := normalize_weights (ap_score_weights p),
       ap_order_offset_bps := clamp 0 50 (ap_order_offset_bps p),
       ap_turnover_cap_try := clamp 0 (max 0 (xs_notional_cap st)) (ap_turnover_cap_try p),
       ap_max_orders_per_cycle := clamp 1 20 (ap_max_orders_per_cycle p),
       ap_max_spread_bps := clamp 10 500 (ap_max_spread_bps p),
       ap_cash_target_try := clamp 0 (xs_try_cash_max st) (ap_cash_target_try p),
       ap_min_quote_volume_try := max 0 (ap_min_quote_volume_try p)\<rparr>"

record run_metrics =
  rm_ts :: instant
  rm_alert_flags :: "(string, bool) dict"
  rm_quality_flags :: "(string, bool) dict"
  rm_mode_final :: string
  rm_net_pnl_try :: dec
  rm_max_drawdown_pct :: dec
  rm_oms_rejected_count :: int
  rm_oms_throttled_count :: int

definition alert :: "string \<Rightarrow> run_metrics \<Rightarrow> bool" where
  "alert name r = dict_get (rm_alert_flags r) name False"

text \<open>Three throttled cycles or three below the floor of minus fifty trigger a rollback, too.\<close>

definition has_rollback_trigger :: "run_metrics list \<Rightarrow> bool" where
  "has_rollback_trigger recent \<longleftrightarrow>
     list_ex (alert ''drawdown_breach'') recent \<or> list_ex (alert ''reject_spike'') recent
     \<or> (3 \<le> length recent \<and> list_all (alert ''throttled'') (take 3 recent))
     \<or> (3 \<le> length recent \<and> list_all (\<lambda>r. rm_net_pnl_try r < - 50) (take 3 recent))"

subsection \<open>Definitions: the proposal\<close>

datatype change_outcome = APPLIED | REJECTED | ROLLED_BACK

record window_summary =
  wn_cycles :: nat
  wn_avg_net_pnl_try :: dec
  wn_max_drawdown_pct :: dec
  wn_rejects_total :: int
  wn_throttled_total :: int

record param_change =
  pc_change_id :: string
  pc_ts :: instant
  pc_from_version :: int
  pc_to_version :: int
  pc_changes :: "string list"
  pc_reason :: string
  pc_metrics_window :: "window_summary option"
  pc_outcome :: change_outcome
  pc_notes :: "string list"

record adapt_env =
  pe_settings :: adapt_settings
  pe_text_diff :: "stage7_params \<Rightarrow> stage7_params \<Rightarrow> string list"
  pe_change_id :: "instant \<Rightarrow> int \<Rightarrow> int \<Rightarrow> stage7_params \<Rightarrow> string"

definition metrics_summary :: "run_metrics list \<Rightarrow> window_summary option" where
  "metrics_summary recent =
     (if recent = [] then None
      else Some \<lparr>wn_cycles = length recent,
        wn_avg_net_pnl_try = ddiv (dsum (map rm_net_pnl_try recent)) (of_nat (length recent)),
        wn_max_drawdown_pct = foldl max (rm_max_drawdown_pct (hd recent)) (map rm_max_drawdown_pct (tl recent)),
        wn_rejects_total = sum_list (map rm_oms_rejected_count recent),
        wn_throttled_total = sum_list (map rm_oms_throttled_count recent)\<rparr>)"

text \<open>One heuristic: at most three of them change something, each leaves a reason.\<close>

definition adjust ::
  "bool \<Rightarrow> (stage7_params \<Rightarrow> stage7_params) \<Rightarrow> string \<Rightarrow> stage7_params \<times> string list \<Rightarrow> stage7_params \<times> string list" where
  "adjust cond f reason acc = (if cond \<and> length (snd acc) < 3 then (f (fst acc), snd acc @ [reason]) else acc)"

definition healthy_window :: "run_metrics list \<Rightarrow> bool" where
  "healthy_window recent \<longleftrightarrow> 3 \<le> length recent
     \<and> list_all (\<lambda>r. rm_mode_final r = ''NORMAL'' \<and> \<not> list_ex snd (rm_alert_flags r)) (take 3 recent)"

definition adjusted :: "adapt_settings \<Rightarrow> run_metrics list \<Rightarrow> stage7_params \<Rightarrow> stage7_params \<times> string list" where
  "adjusted st recent active =
     (case recent of
        [] \<Rightarrow> (active, [''insufficient_metrics''])
      | latest # _ \<Rightarrow>
          let a1 = adjust (alert ''reject_spike'' latest)
                (\<lambda>p. p\<lparr>ap_order_offset_bps := max 0 (ap_order_offset_bps p - 2)\<rparr>) ''reject_spike_reduce_offset'' (active, []);
              a2 = adjust (alert ''throttled'' latest)
                (\<lambda>p. p\<lparr>ap_max_orders_per_cycle := max 1 (ap_max_orders_per_cycle p - 1)\<rparr>) ''throttled_reduce_order_count'' a1;
              a3 = adjust (dmul (xs_max_drawdown_pct st) (8 / 10) \<le> rm_max_drawdown_pct latest)
                (\<lambda>p. p\<lparr>ap_turnover_cap_try := dmul (ap_turnover_cap_try p) (95 / 100)\<rparr>) ''high_drawdown_reduce_turnover'' a2;
              a4 = adjust (dict_get (rm_quality_flags latest) ''missing_mark_price'' False)
                (\<lambda>p. p\<lparr>ap_max_spread_bps := max 10 (ap_max_spread_bps p - 10),
                       ap_min_quote_volume_try := dadd (ap_min_quote_volume_try p) 100\<rparr>) ''low_liquidity_tighten_filters'' a3
          in adjust (healthy_window recent \<and> snd a4 = [])
               (\<lambda>p. p\<lparr>ap_universe_size := ap_universe_size p + 1, ap_turnover_cap_try := dmul (ap_turnover_cap_try p) (105 / 100)\<rparr>)
               ''healthy_window_expand_small'' a4)"

text \<open>Equality of dictionaries does not depend on their order.\<close>

definition same_params :: "stage7_params \<Rightarrow> stage7_params \<Rightarrow> bool" where
  "same_params p q \<longleftrightarrow> p\<lparr>ap_score_weights := sort_key fst (ap_score_weights p)\<rparr> = q\<lparr>ap_score_weights := sort_key fst (ap_score_weights q)\<rparr>"

definition propose_update :: "adapt_env \<Rightarrow> run_metrics list \<Rightarrow> stage7_params \<Rightarrow> instant \<Rightarrow> stage7_params \<times> param_change" where
  "propose_update env recent active now =
     (let (proposed, reasons) = adjusted (pe_settings env) recent active;
          bounded = apply_bounds proposed (pe_settings env);
          reason = (if same_params bounded active then ''no_change'' else case reasons of [] \<Rightarrow> ''heuristic_update'' | r # _ \<Rightarrow> r);
          changes = pe_text_diff env active bounded;
          next_version = ap_version active + (if changes = [] then 0 else 1);
          candidate = bounded\<lparr>ap_version := next_version, ap_updated_at := now\<rparr>
      in (candidate,
          \<lparr>pc_change_id = pe_change_id env now (ap_version active) next_version candidate, pc_ts = now,
           pc_from_version = ap_version active, pc_to_version = next_version, pc_changes = changes, pc_reason = reason,
           pc_metrics_window = metrics_summary recent, pc_outcome = REJECTED, pc_notes = reasons\<rparr>))"

subsection \<open>Definitions: the tables\<close>

text \<open>A checkpoint without parameters is the row \<open>{}\<close> that is written for an unknown version.\<close>

record params_checkpoint =
  kp_ts :: instant
  kp_params :: "stage7_params option"
  kp_good :: bool

record adapt_store =
  av_active :: "stage7_params option"
  av_checkpoints :: "(int, params_checkpoint) dict"
  av_changes :: "(string, param_change) dict"
  av_metrics :: "run_metrics list"

definition put_checkpoint :: "stage7_params \<Rightarrow> (int, params_checkpoint) dict \<Rightarrow> (int, params_checkpoint) dict" where
  "put_checkpoint p = AList.update (ap_version p) \<lparr>kp_ts = ap_updated_at p, kp_params = Some p, kp_good = True\<rparr>"

definition default_params :: "adapt_settings \<Rightarrow> instant \<Rightarrow> stage7_params" where
  "default_params st now =
     \<lparr>ap_universe_size = xs_universe_size st,
      ap_score_weights = (case xs_score_weights st of Some (w # ws) \<Rightarrow> w # ws | _ \<Rightarrow> default_weights),
      ap_order_offset_bps = trunc_int (xs_order_offset_bps st), ap_turnover_cap_try = xs_notional_cap st,
      ap_max_orders_per_cycle = xs_max_orders_per_cycle st, ap_max_spread_bps = trunc_int (xs_max_spread_bps st),
      ap_cash_target_try = xs_try_cash_target st, ap_min_quote_volume_try = xs_min_quote_volume_try st,
      ap_version = 1, ap_updated_at = now\<rparr>"

definition get_active_stage7_params :: "adapt_settings \<Rightarrow> instant \<Rightarrow> adapt_store \<Rightarrow> stage7_params \<times> adapt_store" where
  "get_active_stage7_params st now g =
     (case av_active g of
        Some p \<Rightarrow> (p, g)
      | None \<Rightarrow>
          let p = default_params st now
          in (p, g\<lparr>av_active := Some p, av_checkpoints := put_checkpoint p (av_checkpoints g)\<rparr>))"

definition set_active_stage7_params :: "stage7_params \<Rightarrow> param_change \<Rightarrow> adapt_store \<Rightarrow> adapt_store" where
  "set_active_stage7_params p change g =
     g\<lparr>av_active := Some p, av_changes := AList.update (pc_change_id change) change (av_changes g),
       av_checkpoints := put_checkpoint p (av_checkpoints g)\<rparr>"

definition set_stage7_checkpoint_goodness :: "int \<Rightarrow> bool \<Rightarrow> instant \<Rightarrow> adapt_store \<Rightarrow> adapt_store" where
  "set_stage7_checkpoint_goodness version is_good now g =
     g\<lparr>av_checkpoints := AList.update version
        (case map_of (av_checkpoints g) version of
           None \<Rightarrow> \<lparr>kp_ts = now, kp_params = None, kp_good = is_good\<rparr>
         | Some c \<Rightarrow> c\<lparr>kp_good := is_good\<rparr>) (av_checkpoints g)\<rparr>"

definition good_checkpoints :: "(int \<Rightarrow> bool) \<Rightarrow> adapt_store \<Rightarrow> (int \<times> params_checkpoint) list" where
  "good_checkpoints wanted g = sort_key (\<lambda>(v, c). - v) (filter (\<lambda>(v, c). kp_good c \<and> wanted v) (av_checkpoints g))"

definition read_checkpoint :: "(int \<times> params_checkpoint) list \<Rightarrow> stage7_params option result" where
  "read_checkpoint rows =
     (case rows of
        [] \<Rightarrow> Inr None
      | (v, c) # _ \<Rightarrow> (case kp_params c of None \<Rightarrow> Inl (KeyError ''universe_size'') | Some p \<Rightarrow> Inr (Some p)))"

definition get_last_good_stage7_params_checkpoint :: "adapt_store \<Rightarrow> stage7_params option result" where
  "get_last_good_stage7_params_checkpoint g = read_checkpoint (good_checkpoints (\<lambda>_. True) g)"

definition get_previous_good_stage7_params_checkpoint :: "int \<Rightarrow> adapt_store \<Rightarrow> stage7_params option result" where
  "get_previous_good_stage7_params_checkpoint before_version g = read_checkpoint (good_checkpoints (\<lambda>v. v < before_version) g)"

definition fetch_stage7_run_metrics :: "int \<Rightarrow> adapt_store \<Rightarrow> run_metrics list" where
  "fetch_stage7_run_metrics limit g = take (nat limit) (sort_key (\<lambda>r. - rm_ts r) (av_metrics g))"

subsection \<open>Definitions: the service\<close>

definition rollback_target :: "int \<Rightarrow> adapt_store \<Rightarrow> stage7_params option result" where
  "rollback_target version g =
     rbind (get_last_good_stage7_params_checkpoint g) (\<lambda>found.
       case found of
         None \<Rightarrow> Inr None
       | Some p \<Rightarrow> if ap_version p = version then get_previous_good_stage7_params_checkpoint version g else Inr (Some p))"

definition rollback_change :: "adapt_env \<Rightarrow> run_metrics list \<Rightarrow> stage7_params \<Rightarrow> stage7_params \<Rightarrow> instant \<Rightarrow> param_change" where
  "rollback_change env recent active target now =
     \<lparr>pc_change_id = pe_change_id env now (ap_version active) (ap_version target) target, pc_ts = now,
      pc_from_version = ap_version active, pc_to_version = ap_version target, pc_changes = pe_text_diff env active target,
      pc_reason = ''guardrail_breach_rollback'', pc_metrics_window = metrics_summary recent, pc_outcome = ROLLED_BACK,
      pc_notes = [''rollback_triggered'']\<rparr>"

definition roll_back ::
  "adapt_env \<Rightarrow> run_metrics list \<Rightarrow> stage7_params \<Rightarrow> instant \<Rightarrow> instant \<Rightarrow> adapt_store \<Rightarrow> param_change option result \<times> adapt_store" where
  "roll_back env recent active now written_at g =
     (let g1 = set_stage7_checkpoint_goodness (ap_version active) False written_at g in
      case rollback_target (ap_version active) g1 of
        Inl e \<Rightarrow> (Inl e, g1)
      | Inr None \<Rightarrow> (Inr None, g1)
      | Inr (Some target) \<Rightarrow>
          let change = rollback_change env recent active target now
          in (Inr (Some change), set_active_stage7_params target change g1))"

definition apply_proposal ::
  "adapt_env \<Rightarrow> run_metrics list \<Rightarrow> stage7_params \<Rightarrow> instant \<Rightarrow> adapt_store \<Rightarrow> param_change option result \<times> adapt_store" where
  "apply_proposal env recent active now g =
     (case propose_update env recent active now of
        (candidate, change) \<Rightarrow>
          let latest = hd recent in
          if rm_mode_final latest \<noteq> ''NORMAL'' then (Inr None, g)
          else if list_ex (\<lambda>name. alert name latest) [''drawdown_breach'', ''reject_spike'', ''throttled''] then (Inr None, g)
          else if pc_changes change = [] then (Inr None, g)
          else
            let applied = change\<lparr>pc_outcome := APPLIED, pc_ts := now\<rparr>
            in (Inr (Some applied), set_active_stage7_params (candidate\<lparr>ap_updated_at := now\<rparr>) applied g))"

definition evaluate_and_apply ::
  "adapt_env \<Rightarrow> instant \<Rightarrow> instant \<Rightarrow> adapt_store \<Rightarrow> param_change option result \<times> adapt_store" where
  "evaluate_and_apply env now written_at g0 =
     (case get_active_stage7_params (pe_settings env) now g0 of
        (active, g) \<Rightarrow>
          let recent = fetch_stage7_run_metrics 5 g in
          if recent = [] then (Inr None, g)
          else if has_rollback_trigger recent then roll_back env recent active now written_at g
          else apply_proposal env recent active now g)"

subsection \<open>What is activated\<close>

lemma clamp_ge: "lo \<le> hi \<Longrightarrow> lo \<le> clamp lo hi x" and clamp_le: "clamp lo hi x \<le> hi"
  by (auto simp: clamp_def)

text \<open>The bounds of the parameters.\<close>

definition within_bounds :: "adapt_settings \<Rightarrow> stage7_params \<Rightarrow> bool" where
  "within_bounds st p \<longleftrightarrow> 5 \<le> ap_universe_size p \<and> ap_universe_size p \<le> 50 \<and> 0 \<le> ap_order_offset_bps p \<and> ap_order_offset_bps p \<le> 50
     \<and> 1 \<le> ap_max_orders_per_cycle p \<and> ap_max_orders_per_cycle p \<le> 20 \<and> 10 \<le> ap_max_spread_bps p \<and> ap_max_spread_bps p \<le> 500
     \<and> 0 \<le> ap_turnover_cap_try p \<and> ap_turnover_cap_try p \<le> max 0 (xs_notional_cap st)
     \<and> 0 \<le> ap_cash_target_try p \<and> ap_cash_target_try p \<le> xs_try_cash_max st \<and> 0 \<le> ap_min_quote_volume_try p
     \<and> map fst (ap_score_weights p) = weight_keys \<and> (\<forall>v \<in> snd ` set (ap_score_weights p). 0 \<le> v)"

lemma normalize_weights_ok:
  "map fst (normalize_weights w) = weight_keys \<and> (\<forall>v \<in> snd ` set (normalize_weights w). 0 \<le> v)"
proof -
  define c where "c = map (\<lambda>k. (k, min 1 (max 0 (dict_get w k 0)))) weight_keys"
  have keys: "map fst c = weight_keys" by (simp add: c_def comp_def)
  have "0 \<le> snd kv" if "kv \<in> set c" for kv using that by (auto simp: c_def)
  then have "\<forall>v \<in> snd ` set (map (\<lambda>(k, v). (k, ddiv v (dsum (map snd c)))) c). 0 \<le> v" if "0 < dsum (map snd c)"
    using that by (fastforce intro!: ddiv_nonneg)
  moreover have "map fst (map (\<lambda>(k, v). (k, ddiv v (dsum (map snd c)))) c) = weight_keys"
    unfolding keys [symmetric] by (simp add: case_prod_beta comp_def)
  moreover have "map fst default_weights = weight_keys \<and> (\<forall>v \<in> snd ` set default_weights. 0 \<le> v)"
    by (simp add: default_weights_def weight_keys_def)
  ultimately show ?thesis unfolding normalize_weights_def Let_def c_def [symmetric] by simp
qed

lemma apply_bounds_simps [simp]:
  "ap_universe_size (apply_bounds p st) = clamp 5 50 (ap_universe_size p)"
  "ap_score_weights (apply_bounds p st) = normalize_weights (ap_score_weights p)"
  "ap_order_offset_bps (apply_bounds p st) = clamp 0 50 (ap_order_offset_bps p)"
  "ap_turnover_cap_try (apply_bounds p st) = clamp 0 (max 0 (xs_notional_cap st)) (ap_turnover_cap_try p)"
  "ap_max_orders_per_cycle (apply_bounds p st) = clamp 1 20 (ap_max_orders_per_cycle p)"
  "ap_max_spread_bps (apply_bounds p st) = clamp 10 500 (ap_max_spread_bps p)"
  "ap_cash_target_try (apply_bounds p st) = clamp 0 (xs_try_cash_max st) (ap_cash_target_try p)"
  "ap_min_quote_volume_try (apply_bounds p st) = max 0 (ap_min_quote_volume_try p)"
  by (simp_all add: apply_bounds_def)

lemma apply_bounds_within: "0 \<le> xs_try_cash_max st \<Longrightarrow> within_bounds st (apply_bounds p st)"
  unfolding within_bounds_def apply_bounds_simps using normalize_weights_ok [of "ap_score_weights p"]
  by (simp add: clamp_ge clamp_le)

lemma apply_bounds_version [simp]: "ap_version (apply_bounds p st) = ap_version p"
  by (simp add: apply_bounds_def)

text \<open>Parameters of the store: the defaults, or bounded ones.\<close>

definition params_ok :: "adapt_settings \<Rightarrow> stage7_params \<Rightarrow> bool" where
  "params_ok st p \<longleftrightarrow> within_bounds st p \<or> (\<exists>now. p = default_params st now)"

definition adapt_ok :: "adapt_settings \<Rightarrow> adapt_store \<Rightarrow> bool" where
  "adapt_ok st g \<longleftrightarrow> (\<forall>p. av_active g = Some p \<longrightarrow> params_ok st p)
     \<and> (\<forall>v c p. map_of (av_checkpoints g) v = Some c \<and> kp_params c = Some p \<longrightarrow> params_ok st p \<and> ap_version p = v)
     \<and> (\<forall>v c. map_of (av_checkpoints g) v = Some c \<and> kp_good c \<longrightarrow> kp_params c \<noteq> None)
     \<and> dict_wf (av_checkpoints g)"

lemma adapt_ok_get: "adapt_ok st g \<Longrightarrow> adapt_ok st (snd (get_active_stage7_params st now g))
    \<and> params_ok st (fst (get_active_stage7_params st now g))
    \<and> av_active (snd (get_active_stage7_params st now g)) = Some (fst (get_active_stage7_params st now g))"
  unfolding get_active_stage7_params_def
  by (auto simp: adapt_ok_def params_ok_def put_checkpoint_def Let_def simp del: map_of_eq_Some_iff split: option.split if_splits)

lemma adapt_ok_set: "adapt_ok st g \<Longrightarrow> params_ok st p \<Longrightarrow> adapt_ok st (set_active_stage7_params p change g)"
  by (auto simp: adapt_ok_def set_active_stage7_params_def put_checkpoint_def simp del: map_of_eq_Some_iff split: if_splits)

lemma adapt_ok_bad: "adapt_ok st g \<Longrightarrow> adapt_ok st (set_stage7_checkpoint_goodness v False now g)"
  unfolding adapt_ok_def set_stage7_checkpoint_goodness_def
  by (cases "map_of (av_checkpoints g) v") (auto simp del: map_of_eq_Some_iff split: if_splits)

lemma read_checkpoint_good:
  assumes "read_checkpoint (good_checkpoints wanted g) = Inr (Some p)" "adapt_ok st g"
  shows "\<exists>c. map_of (av_checkpoints g) (ap_version p) = Some c \<and> kp_good c \<and> kp_params c = Some p"
proof -
  obtain v c rest where rows: "good_checkpoints wanted g = (v, c) # rest" "kp_params c = Some p"
    using assms(1) by (auto simp: read_checkpoint_def split: list.splits option.splits)
  then have "(v, c) \<in> set (good_checkpoints wanted g)" by simp
  then have "(v, c) \<in> set (av_checkpoints g)" "kp_good c" by (simp_all add: good_checkpoints_def)
  moreover from this have "map_of (av_checkpoints g) v = Some c" using assms(2) by (simp add: adapt_ok_def)
  ultimately show ?thesis using assms(2) rows(2) unfolding adapt_ok_def by blast
qed

lemma read_checkpoint_total: "adapt_ok st g \<Longrightarrow> \<exists>r. read_checkpoint (good_checkpoints wanted g) = Inr r"
proof -
  assume ok: "adapt_ok st g"
  show ?thesis
  proof (cases "good_checkpoints wanted g")
    case (Cons vc rest)
    then have "vc \<in> set (good_checkpoints wanted g)" by simp
    then have vc: "(fst vc, snd vc) \<in> set (av_checkpoints g)" "kp_good (snd vc)" by (auto simp: good_checkpoints_def)
    then have "map_of (av_checkpoints g) (fst vc) = Some (snd vc)" using ok by (simp add: adapt_ok_def)
    then have "kp_params (snd vc) \<noteq> None" using ok vc(2) unfolding adapt_ok_def by blast
    then show ?thesis using Cons by (cases vc) (auto simp: read_checkpoint_def split: option.split)
  qed (simp add: read_checkpoint_def)
qed

lemma good_checkpoints_greatest:
  assumes "good_checkpoints wanted g = (v, c) # rest" "(w, d) \<in> set (good_checkpoints wanted g)"
  shows "w \<le> v"
proof -
  have "sorted (map (\<lambda>(v, c). - v) (good_checkpoints wanted g))" unfolding good_checkpoints_def by (rule sorted_sort_key)
  then have "\<forall>x \<in> set rest. - v \<le> (case x of (w, d) \<Rightarrow> - w)" unfolding assms(1) by (simp add: sorted_wrt_map)
  then show ?thesis using assms by auto
qed

text \<open>The versions with good parameters other than a given one.\<close>

definition good_others :: "int \<Rightarrow> adapt_store \<Rightarrow> int set" where
  "good_others version g = {v. v \<noteq> version \<and> (\<exists>k. map_of (av_checkpoints g) v = Some k \<and> kp_good k)}"

text \<open>Once the active version is bad, the target is the greatest other good version.\<close>

lemma rollback_target_is:
  assumes "adapt_ok st g" "\<not> (\<exists>k. map_of (av_checkpoints g) version = Some k \<and> kp_good k)"
  shows "good_others version g = {} \<Longrightarrow> rollback_target version g = Inr None"
    and "good_others version g \<noteq> {} \<Longrightarrow> \<exists>p k. rollback_target version g = Inr (Some p) \<and> ap_version p \<in> good_others version g
      \<and> (\<forall>v \<in> good_others version g. v \<le> ap_version p) \<and> map_of (av_checkpoints g) (ap_version p) = Some k \<and> kp_params k = Some p"
proof -
  let ?rows = "good_checkpoints (\<lambda>_. True) g"
  have rows: "(v, c) \<in> set ?rows \<longleftrightarrow> map_of (av_checkpoints g) v = Some c \<and> kp_good c" for v c
    using assms(1) by (auto simp: good_checkpoints_def adapt_ok_def)
  have others: "v \<in> good_others version g \<longleftrightarrow> (\<exists>c. (v, c) \<in> set ?rows)" for v
    using assms(2) unfolding good_others_def rows mem_Collect_eq by metis
  show "rollback_target version g = Inr None" if "good_others version g = {}"
  proof -
    have "?rows = []" using that others by (metis all_not_in_conv list.set_intros(1) neq_Nil_conv prod.exhaust)
    then show ?thesis
      by (simp add: rollback_target_def get_last_good_stage7_params_checkpoint_def read_checkpoint_def)
  qed
  show "\<exists>p k. rollback_target version g = Inr (Some p) \<and> ap_version p \<in> good_others version g
      \<and> (\<forall>v \<in> good_others version g. v \<le> ap_version p) \<and> map_of (av_checkpoints g) (ap_version p) = Some k \<and> kp_params k = Some p"
    if some: "good_others version g \<noteq> {}"
  proof -
    obtain v c rest where r: "?rows = (v, c) # rest"
      using some others by (metis all_not_in_conv empty_iff list.exhaust list.set(1) prod.exhaust)
    then have vc: "map_of (av_checkpoints g) v = Some c" "kp_good c" using rows [of v c] by simp_all
    obtain q where q: "kp_params c = Some q" "ap_version q = v"
      using assms(1) vc unfolding adapt_ok_def by (metis not_None_eq)
    have "v \<in> good_others version g" using others r by auto
    moreover have "\<forall>w \<in> good_others version g. w \<le> v" using others good_checkpoints_greatest [OF r] by blast
    moreover have "ap_version q \<noteq> version" using calculation(1) q(2) by (simp add: good_others_def)
    then have "rollback_target version g = Inr (Some q)"
      using r q by (simp add: rollback_target_def get_last_good_stage7_params_checkpoint_def read_checkpoint_def)
    ultimately show ?thesis using vc(1) q by blast
  qed
qed

lemma within_bounds_version [simp]:
  "within_bounds st (p\<lparr>ap_version := v\<rparr>) = within_bounds st p"
  "within_bounds st (p\<lparr>ap_updated_at := t\<rparr>) = within_bounds st p"
  by (simp_all add: within_bounds_def)

lemma candidate_ok:
  assumes "propose_update env recent active now = (candidate, change)" "0 \<le> xs_try_cash_max (pe_settings env)"
  shows "within_bounds (pe_settings env) candidate \<and> (pc_changes change \<noteq> [] \<longrightarrow> ap_version candidate = ap_version active + 1)"
proof -
  obtain proposed reasons where a: "adjusted (pe_settings env) recent active = (proposed, reasons)" by force
  let ?b = "apply_bounds proposed (pe_settings env)"
  have c: "candidate = ?b\<lparr>ap_version := ap_version active + (if pe_text_diff env active ?b = [] then 0 else 1), ap_updated_at := now\<rparr>"
    "pc_changes change = pe_text_diff env active ?b"
    using assms(1) by (auto simp: propose_update_def a Let_def)
  show ?thesis unfolding c using apply_bounds_within [OF assms(2), of proposed] by simp
qed

lemma set_active_is_active [simp]: "av_active (set_active_stage7_params p c g) = Some p"
  by (simp add: set_active_stage7_params_def)

lemma rollback_change_outcome [simp]: "pc_outcome (rollback_change env recent active p now) = ROLLED_BACK"
  by (simp add: rollback_change_def)

lemma goodness_checkpoint:
  "map_of (av_checkpoints (set_stage7_checkpoint_goodness version flag now g)) v =
     (if v = version then Some (case map_of (av_checkpoints g) version of
        None \<Rightarrow> \<lparr>kp_ts = now, kp_params = None, kp_good = flag\<rparr> | Some c \<Rightarrow> c\<lparr>kp_good := flag\<rparr>)
      else map_of (av_checkpoints g) v)"
  by (simp add: set_stage7_checkpoint_goodness_def del: map_of_eq_Some_iff)

lemma good_others_goodness [simp]: "good_others version (set_stage7_checkpoint_goodness version flag now g) = good_others version g"
  unfolding good_others_def goodness_checkpoint by auto

lemma marked_bad: "\<exists>k. map_of (av_checkpoints (set_stage7_checkpoint_goodness version False now g)) version = Some k \<and> \<not> kp_good k"
  unfolding goodness_checkpoint by (simp split: option.split)

lemma roll_back_ok:
  assumes "adapt_ok (pe_settings env) g" "roll_back env recent active now written_at g = (r, g')"
    and "av_active g = Some active"
  shows "adapt_ok (pe_settings env) g' \<and> (\<exists>k. map_of (av_checkpoints g') (ap_version active) = Some k \<and> \<not> kp_good k)"
    and "good_others (ap_version active) g = {} \<Longrightarrow> r = Inr None \<and> av_active g' = Some active"
    and "good_others (ap_version active) g \<noteq> {} \<Longrightarrow> \<exists>c p k. r = Inr (Some c) \<and> pc_outcome c = ROLLED_BACK \<and> av_active g' = Some p
      \<and> ap_version p \<in> good_others (ap_version active) g \<and> (\<forall>v \<in> good_others (ap_version active) g. v \<le> ap_version p)
      \<and> map_of (av_checkpoints g) (ap_version p) = Some k \<and> kp_params k = Some p"
proof -
  let ?v = "ap_version active"
  let ?g1 = "set_stage7_checkpoint_goodness ?v False written_at g"
  have ok: "adapt_ok (pe_settings env) ?g1" using adapt_ok_bad [OF assms(1)] .
  have act: "av_active ?g1 = Some active" using assms(3) by (simp add: set_stage7_checkpoint_goodness_def)
  have bad: "\<not> (\<exists>k. map_of (av_checkpoints ?g1) ?v = Some k \<and> kp_good k)" using marked_bad [of ?v written_at g] by auto
  have kept: "adapt_ok (pe_settings env) g' \<and> (\<exists>k. map_of (av_checkpoints g') ?v = Some k \<and> \<not> kp_good k)
      \<and> r = Inr None \<and> av_active g' = Some active" if "good_others ?v g = {}"
  proof -
    have "rollback_target ?v ?g1 = Inr None" using rollback_target_is(1) [OF ok bad] that by simp
    then have "r = Inr None" "g' = ?g1" using assms(2) by (simp_all add: roll_back_def Let_def)
    then show ?thesis using ok act marked_bad by blast
  qed
  have moved: "adapt_ok (pe_settings env) g' \<and> (\<exists>k. map_of (av_checkpoints g') ?v = Some k \<and> \<not> kp_good k)
      \<and> (\<exists>c p k. r = Inr (Some c) \<and> pc_outcome c = ROLLED_BACK \<and> av_active g' = Some p
      \<and> ap_version p \<in> good_others ?v g \<and> (\<forall>v \<in> good_others ?v g. v \<le> ap_version p)
      \<and> map_of (av_checkpoints g) (ap_version p) = Some k \<and> kp_params k = Some p)" if some: "good_others ?v g \<noteq> {}"
  proof -
    obtain p k where p: "rollback_target ?v ?g1 = Inr (Some p)" "ap_version p \<in> good_others ?v g"
        "\<forall>v \<in> good_others ?v g. v \<le> ap_version p" "map_of (av_checkpoints ?g1) (ap_version p) = Some k" "kp_params k = Some p"
      using rollback_target_is(2) [OF ok bad] some unfolding good_others_goodness by blast
    have other: "ap_version p \<noteq> ?v" using p(2) by (simp add: good_others_def)
    define change where "change = rollback_change env recent active p now"
    have res: "g' = set_active_stage7_params p change ?g1" "r = Inr (Some change)"
      using assms(2) p(1) by (simp_all add: roll_back_def Let_def change_def)
    have "params_ok (pe_settings env) p" using ok p(4,5) unfolding adapt_ok_def by blast
    then have "adapt_ok (pe_settings env) g'" unfolding res using adapt_ok_set [OF ok] by blast
    moreover have "map_of (av_checkpoints g') ?v = map_of (av_checkpoints ?g1) ?v"
      using other unfolding res by (simp add: set_active_stage7_params_def put_checkpoint_def del: map_of_eq_Some_iff)
    moreover have "map_of (av_checkpoints g) (ap_version p) = Some k"
      using p(4) other unfolding goodness_checkpoint by simp
    ultimately show ?thesis using marked_bad [of ?v written_at g] p(2,3,5) res
      by (metis change_def rollback_change_outcome set_active_is_active)
  qed
  show "adapt_ok (pe_settings env) g' \<and> (\<exists>k. map_of (av_checkpoints g') ?v = Some k \<and> \<not> kp_good k)"
    using kept moved by blast
  show "r = Inr None \<and> av_active g' = Some active" if "good_others ?v g = {}" using kept that by blast
  show "\<exists>c p k. r = Inr (Some c) \<and> pc_outcome c = ROLLED_BACK \<and> av_active g' = Some p
      \<and> ap_version p \<in> good_others ?v g \<and> (\<forall>v \<in> good_others ?v g. v \<le> ap_version p)
      \<and> map_of (av_checkpoints g) (ap_version p) = Some k \<and> kp_params k = Some p" if "good_others ?v g \<noteq> {}"
    using moved that by blast
qed

lemma apply_proposal_is:
  assumes "apply_proposal env recent active now g = (r, g')" "propose_update env recent active now = (candidate, change)"
  shows "if rm_mode_final (hd recent) \<noteq> ''NORMAL'' \<or> list_ex (\<lambda>name. alert name (hd recent)) [''drawdown_breach'', ''reject_spike'', ''throttled'']
      \<or> pc_changes change = []
    then r = Inr None \<and> g' = g
    else r = Inr (Some (change\<lparr>pc_outcome := APPLIED, pc_ts := now\<rparr>))
      \<and> g' = set_active_stage7_params (candidate\<lparr>ap_updated_at := now\<rparr>) (change\<lparr>pc_outcome := APPLIED, pc_ts := now\<rparr>) g"
  using assms(1) unfolding apply_proposal_def assms(2) prod.case Let_def by (auto split: if_splits)

text \<open>
  (C12) An evaluation never fails and keeps the store sound.  On a rollback trigger the active version is marked
  bad and, if another version is good, the parameters stored for the greatest of them become active; if none
  is, the active ones stay.  Without a trigger the proposed parameters are activated exactly if
  there are metrics, the last cycle was in NORMAL mode without one of the three alerts and something changes; they are
  within the bounds and have the next version.
\<close>

theorem adaptation_step_sound:
  assumes "evaluate_and_apply env now written_at g = (r, g')" "adapt_ok (pe_settings env) g"
    and "0 \<le> xs_try_cash_max (pe_settings env)" "fst (get_active_stage7_params (pe_settings env) now g) = active"
    and "recent = fetch_stage7_run_metrics 5 g" "propose_update env recent active now = (candidate, change)"
    and "others = {v. v \<noteq> ap_version active \<and> (\<exists>k. map_of (av_checkpoints g) v = Some k \<and> kp_good k)}"
  shows "adapt_ok (pe_settings env) g' \<and>
    (if has_rollback_trigger recent then
       (\<exists>k. map_of (av_checkpoints g') (ap_version active) = Some k \<and> \<not> kp_good k) \<and>
       (if others = {} then r = Inr None \<and> av_active g' = Some active
        else \<exists>c p k. r = Inr (Some c) \<and> pc_outcome c = ROLLED_BACK \<and> av_active g' = Some p
          \<and> ap_version p \<in> others \<and> (\<forall>v \<in> others. v \<le> ap_version p)
          \<and> map_of (av_checkpoints g) (ap_version p) = Some k \<and> kp_params k = Some p)
     else if recent = [] \<or> rm_mode_final (hd recent) \<noteq> ''NORMAL''
         \<or> list_ex (\<lambda>name. alert name (hd recent)) [''drawdown_breach'', ''reject_spike'', ''throttled''] \<or> pc_changes change = []
     then r = Inr None \<and> av_active g' = Some active
     else (\<exists>c. r = Inr (Some c) \<and> pc_outcome c = APPLIED) \<and> av_active g' = Some (candidate\<lparr>ap_updated_at := now\<rparr>)
       \<and> within_bounds (pe_settings env) candidate \<and> ap_version candidate = ap_version active + 1)"
proof -
  let ?st = "pe_settings env"
  define g1 where "g1 = snd (get_active_stage7_params ?st now g)"
  have get: "get_active_stage7_params ?st now g = (active, g1)" using assms(4) by (auto simp: g1_def)
  have g1: "adapt_ok ?st g1" "av_active g1 = Some active"
    using adapt_ok_get [OF assms(2), of now] unfolding get by simp_all
  have same: "fetch_stage7_run_metrics 5 g1 = recent"
    using get by (auto simp: assms(5) fetch_stage7_run_metrics_def get_active_stage7_params_def Let_def split: option.splits)
  have checkpoints: "map_of (av_checkpoints g1) v = map_of (av_checkpoints g) v" if "v \<noteq> ap_version active" for v
    using that get
    by (auto simp: get_active_stage7_params_def Let_def put_checkpoint_def simp del: map_of_eq_Some_iff split: option.splits)
  then have others: "good_others (ap_version active) g1 = others"
    unfolding good_others_def assms(7) by (intro Collect_cong) (auto simp del: map_of_eq_Some_iff)
  have run: "(r, g') = (if recent = [] then (Inr None, g1) else if has_rollback_trigger recent
      then roll_back env recent active now written_at g1 else apply_proposal env recent active now g1)"
    unfolding assms(1) [symmetric] evaluate_and_apply_def get Let_def prod.case same by (simp split: list.split)
  have empty: "\<not> has_rollback_trigger []" by (simp add: has_rollback_trigger_def)
  consider "recent = []" | "recent \<noteq> []" "has_rollback_trigger recent" | "recent \<noteq> []" "\<not> has_rollback_trigger recent" by blast
  then show ?thesis
  proof cases
    case 1
    then show ?thesis using run g1 empty by simp
  next
    case 2
    then have "roll_back env recent active now written_at g1 = (r, g')" using run by simp
    note rolled = roll_back_ok [OF g1(1) this g1(2), unfolded others]
    have "\<exists>c p k. r = Inr (Some c) \<and> pc_outcome c = ROLLED_BACK \<and> av_active g' = Some p
        \<and> ap_version p \<in> others \<and> (\<forall>v \<in> others. v \<le> ap_version p)
        \<and> map_of (av_checkpoints g) (ap_version p) = Some k \<and> kp_params k = Some p" if some: "others \<noteq> {}"
    proof -
      obtain c p k where c: "r = Inr (Some c)" "pc_outcome c = ROLLED_BACK" "av_active g' = Some p" "ap_version p \<in> others"
          "\<forall>v \<in> others. v \<le> ap_version p" "map_of (av_checkpoints g1) (ap_version p) = Some k" "kp_params k = Some p"
        using rolled(3) [OF some] by blast
      have "map_of (av_checkpoints g) (ap_version p) = Some k"
        using c(6) checkpoints [of "ap_version p"] c(4) unfolding assms(7) by simp
      then show ?thesis using c by blast
    qed
    then show ?thesis using rolled(1,2) 2(2) by simp
  next
    case 3
    have "apply_proposal env recent active now g1 = (r, g')" using run 3 by simp
    note applied = apply_proposal_is [OF this assms(6)]
    note ok = candidate_ok [OF assms(6,3)]
    have params: "params_ok ?st (candidate\<lparr>ap_updated_at := now\<rparr>)" using ok by (simp add: params_ok_def)
    show ?thesis
    proof (cases "rm_mode_final (hd recent) \<noteq> ''NORMAL'' \<or> list_ex (\<lambda>name. alert name (hd recent)) [''drawdown_breach'', ''reject_spike'', ''throttled'']
        \<or> pc_changes change = []")
      case True
      then have "r = Inr None" "g' = g1" using applied by presburger+
      then show ?thesis using True 3 g1 by presburger
    next
      case False
      then have res: "r = Inr (Some (change\<lparr>pc_outcome := APPLIED, pc_ts := now\<rparr>))"
          "g' = set_active_stage7_params (candidate\<lparr>ap_updated_at := now\<rparr>) (change\<lparr>pc_outcome := APPLIED, pc_ts := now\<rparr>) g1"
        using applied by presburger+
      have "adapt_ok ?st g'" unfolding res using adapt_ok_set [OF g1(1) params] by blast
      moreover have "\<exists>c. r = Inr (Some c) \<and> pc_outcome c = APPLIED" unfolding res(1) by simp
      moreover have "av_active g' = Some (candidate\<lparr>ap_updated_at := now\<rparr>)" unfolding res(2) by simp
      moreover have "ap_version candidate = ap_version active + 1" "within_bounds ?st candidate" using ok False by auto
      ultimately show ?thesis using False 3 by presburger
    qed
  qed
qed

text \<open>Three versions, all good, and a last cycle that breached the drawdown.\<close>

definition demo_adapt_settings :: adapt_settings where
  "demo_adapt_settings = \<lparr>xs_notional_cap = 100, xs_try_cash_max = 300, xs_max_drawdown_pct = 1, xs_universe_size = 20,
     xs_score_weights = None, xs_order_offset_bps = 5, xs_max_orders_per_cycle = 3, xs_max_spread_bps = 200,
     xs_try_cash_target = 300, xs_min_quote_volume_try = 0\<rparr>"

definition demo_adapt_env :: adapt_env where
  "demo_adapt_env = \<lparr>pe_settings = demo_adapt_settings,
     pe_text_diff = (\<lambda>p q. if ap_universe_size p = ap_universe_size q then [] else [''universe_size'']),
     pe_change_id = (\<lambda>now v w p. ''s7chg'')\<rparr>"

definition demo_version :: "int \<Rightarrow> stage7_params" where
  "demo_version v = (default_params demo_adapt_settings v)\<lparr>ap_version := v\<rparr>"

definition demo_metrics :: "(string, bool) dict \<Rightarrow> run_metrics" where
  "demo_metrics flags = \<lparr>rm_ts = 9, rm_alert_flags = flags, rm_quality_flags = [], rm_mode_final = ''NORMAL'', rm_net_pnl_try = 1,
     rm_max_drawdown_pct = 0, rm_oms_rejected_count = 0, rm_oms_throttled_count = 0\<rparr>"

definition demo_adapt_store :: "(string, bool) dict \<Rightarrow> adapt_store" where
  "demo_adapt_store flags = \<lparr>av_active = Some (demo_version 3),
     av_checkpoints = map (\<lambda>v. (v, \<lparr>kp_ts = v, kp_params = Some (demo_version v), kp_good = True\<rparr>)) [1, 2, 3],
     av_changes = [], av_metrics = [demo_metrics flags]\<rparr>"

lemma demo_version_ok: "within_bounds demo_adapt_settings (demo_version v)"
  by (simp add: demo_version_def) (simp add: within_bounds_def default_params_def demo_adapt_settings_def trunc_int_def default_weights_def weight_keys_def)

lemma demo_adapt_ok: "adapt_ok demo_adapt_settings (demo_adapt_store flags)"
  by (auto simp: adapt_ok_def demo_adapt_store_def params_ok_def demo_version_ok simp del: map_of_eq_Some_iff
      split: if_splits) (simp_all add: demo_version_def default_params_def)

lemma demo_trigger: "has_rollback_trigger (fetch_stage7_run_metrics 5 (demo_adapt_store [(''drawdown_breach'', True)]))"
  by code_simp

lemma adaptation_step_sound_witness:
  "\<exists>r g' p. evaluate_and_apply demo_adapt_env 10 11 (demo_adapt_store [(''drawdown_breach'', True)]) = (r, g')
     \<and> adapt_ok demo_adapt_settings g' \<and> av_active g' = Some p \<and> 2 \<le> ap_version p"
proof -
  let ?g = "demo_adapt_store [(''drawdown_breach'', True)]"
  define others where "others = {v. v \<noteq> ap_version (demo_version 3) \<and> (\<exists>k. map_of (av_checkpoints ?g) v = Some k \<and> kp_good k)}"
  obtain r g' where run: "evaluate_and_apply demo_adapt_env 10 11 ?g = (r, g')" by force
  obtain candidate change where p: "propose_update demo_adapt_env (fetch_stage7_run_metrics 5 ?g) (demo_version 3) 10 = (candidate, change)" by force
  have ok: "adapt_ok (pe_settings demo_adapt_env) ?g" "0 \<le> xs_try_cash_max (pe_settings demo_adapt_env)"
      "fst (get_active_stage7_params (pe_settings demo_adapt_env) 10 ?g) = demo_version 3"
    using demo_adapt_ok by (simp_all add: demo_adapt_env_def) (simp_all add: demo_adapt_settings_def demo_adapt_store_def get_active_stage7_params_def)
  have two: "2 \<in> others" by (simp add: others_def demo_adapt_store_def demo_version_def default_params_def)
  note sound = adaptation_step_sound [OF run ok refl p others_def]
  then have "adapt_ok demo_adapt_settings g'" by (simp add: demo_adapt_env_def)
  moreover obtain p where "av_active g' = Some p" "\<forall>v \<in> others. v \<le> ap_version p"
    using sound demo_trigger two by (metis empty_iff)
  ultimately show ?thesis using run two by blast
qed

text \<open>
  A single breach keeps triggering for the five cycles it is in the window: each evaluation rolls back further,
  although the breach happened under version 3, and the last one marks the first version bad and keeps it.
\<close>

lemma rollback_cascades:
  fixes g :: adapt_store
  defines "g \<equiv> demo_adapt_store [(''drawdown_breach'', True)]"
    and "step \<equiv> (\<lambda>g. snd (evaluate_and_apply demo_adapt_env 10 11 g))"
  shows "map_option ap_version (av_active (step g)) = Some 2"
    and "map_option ap_version (av_active (step (step g))) = Some 1"
    and "map_option ap_version (av_active (step (step (step g)))) = Some 1"
    and "map (\<lambda>(v, c). (v, kp_good c)) (av_checkpoints (step (step (step g)))) = [(1, False), (2, False), (3, False)]"
  unfolding assms by code_simp+

end
