(* ===== verification/Stage7_Filter.thy ===== *)
theory Stage7_Filter
  imports Stage7_Risk Stage4
begin

text \<open>
  The risk filter of a stage 7 cycle, \<open>src/src/btcbot/services/risk_policy_service.py\<close>: lifecycle
  actions pass or not one by one under the risk decision of the cycle.

  The theorem gives what an accepted action has passed and that the orders are counted across the
  actions.  The exposure is not: \<open>exposure_not_accumulated\<close> shows two purchases of a symbol that
  exceed its limit together.
\<close>

subsection \<open>Definitions\<close>

datatype cycle_reason = C_accepted | C_submit_disabled | C_cancel_disabled | C_cap_max_orders | C_cap_max_notional
  | C_cap_max_exposure | C_reduce_only_blocked

record policy_decision =
  pd_accepted :: bool
  pd_reason :: cycle_reason
  pd_action :: lifecycle_action

record cycle_filter =
  cf_accepted :: "lifecycle_action list"
  cf_decisions :: "policy_decision list"
  cf_submits :: int

definition pass_action :: "lifecycle_action \<Rightarrow> cycle_filter \<Rightarrow> cycle_filter" where
  "pass_action a s = s\<lparr>cf_accepted := cf_accepted s @ [a],
     cf_decisions := cf_decisions s @ [\<lparr>pd_accepted = True, pd_reason = C_accepted, pd_action = a\<rparr>]\<rparr>"

definition block_action :: "cycle_reason \<Rightarrow> lifecycle_action \<Rightarrow> cycle_filter \<Rightarrow> cycle_filter" where
  "block_action r a s = s\<lparr>cf_decisions := cf_decisions s @ [\<lparr>pd_accepted = False, pd_reason = r, pd_action = a\<rparr>]\<rparr>"

definition reduces :: "dec \<Rightarrow> lifecycle_action \<Rightarrow> bool" where
  "reduces pos a \<longleftrightarrow> (str_upper (la_side a) = ''SELL'' \<and> 0 < pos) \<or> (str_upper (la_side a) = ''BUY'' \<and> pos < 0)"

definition projected_exposure :: "dec \<Rightarrow> lifecycle_action \<Rightarrow> dec" where
  "projected_exposure pos a =
     dmul (dabs (dadd pos (if str_upper (la_side a) = ''BUY'' then la_qty a else - la_qty a))) (la_price a)"

text \<open>The counter of a refused submission is taken back, so it counts the accepted ones.\<close>

definition filter_submit :: "cycle_risk_output \<Rightarrow> dec \<Rightarrow> lifecycle_action \<Rightarrow> cycle_filter \<Rightarrow> cycle_filter" where
  "filter_submit risk pos a s =
     (if \<not> co_allow_submit risk then block_action C_submit_disabled a s
      else if co_mode risk = REDUCE_RISK_ONLY \<and> \<not> reduces pos a then block_action C_reduce_only_blocked a s
      else if co_max_orders_per_cycle risk < cf_submits s + 1 then block_action C_cap_max_orders a s
      else if co_max_order_notional_try risk < dmul (la_price a) (la_qty a) then block_action C_cap_max_notional a s
      else if co_max_symbol_exposure_try risk < projected_exposure pos a then block_action C_cap_max_exposure a s
      else pass_action a (s\<lparr>cf_submits := cf_submits s + 1\<rparr>))"

definition filter_cycle_action :: "cycle_risk_output \<Rightarrow> (string, dec) dict \<Rightarrow> cycle_filter \<Rightarrow> lifecycle_action \<Rightarrow> cycle_filter" where
  "filter_cycle_action risk positions s a =
     (case la_type a of
        CANCEL \<Rightarrow> if co_allow_cancel risk then pass_action a s else block_action C_cancel_disabled a s
      | REPLACE \<Rightarrow> pass_action a s
      | SUBMIT \<Rightarrow> filter_submit risk (dict_get positions (la_symbol a) 0) a s)"

definition filter_cycle_actions ::
  "lifecycle_action list \<Rightarrow> (string, dec) dict \<Rightarrow> cycle_risk_output \<Rightarrow> lifecycle_action list \<times> policy_decision list" where
  "filter_cycle_actions actions positions risk =
     (let s = foldl (filter_cycle_action risk positions) \<lparr>cf_accepted = [], cf_decisions = [], cf_submits = 0\<rparr> actions
      in (cf_accepted s, cf_decisions s))"

subsection \<open>What passes\<close>

text \<open>The conditions an accepted action has passed.\<close>

definition passes :: "cycle_risk_output \<Rightarrow> (string, dec) dict \<Rightarrow> lifecycle_action \<Rightarrow> bool" where
  "passes risk positions a \<longleftrightarrow>
     (la_type a = CANCEL \<longrightarrow> co_allow_cancel risk)
     \<and> (la_type a = SUBMIT \<longrightarrow> co_allow_submit risk
          \<and> (co_mode risk = REDUCE_RISK_ONLY \<longrightarrow> reduces (dict_get positions (la_symbol a) 0) a)
          \<and> dmul (la_price a) (la_qty a) \<le> co_max_order_notional_try risk
          \<and> projected_exposure (dict_get positions (la_symbol a) 0) a \<le> co_max_symbol_exposure_try risk)"

abbreviation submits :: "lifecycle_action list \<Rightarrow> lifecycle_action list" where
  "submits \<equiv> filter (\<lambda>a. la_type a = SUBMIT)"

definition filter_ok :: "cycle_risk_output \<Rightarrow> (string, dec) dict \<Rightarrow> lifecycle_action list \<Rightarrow> cycle_filter \<Rightarrow> bool" where
  "filter_ok risk positions done_actions s \<longleftrightarrow>
     map pd_action (cf_decisions s) = done_actions
     \<and> cf_accepted s = map pd_action (filter pd_accepted (cf_decisions s))
     \<and> list_all (passes risk positions) (cf_accepted s)
     \<and> cf_submits s = int (length (submits (cf_accepted s)))
     \<and> cf_submits s \<le> max 0 (co_max_orders_per_cycle risk)
     \<and> list_all (\<lambda>d. \<not> pd_accepted d \<and> la_type (pd_action d) = CANCEL \<longrightarrow> \<not> co_allow_cancel risk) (cf_decisions s)"

lemma list_all_map_filter: "list_all P (map f (filter Q xs)) \<longleftrightarrow> (\<forall>x \<in> set xs. Q x \<longrightarrow> P (f x))"
  by (auto simp: list_all_iff)

lemma filter_ok_block:
  "filter_ok risk positions done_actions s \<Longrightarrow> la_type a = CANCEL \<longrightarrow> \<not> co_allow_cancel risk
     \<Longrightarrow> filter_ok risk positions (done_actions @ [a]) (block_action r a s)"
  unfolding filter_ok_def block_action_def by (clarsimp simp: list_all_map_filter list_all_iff)

lemma filter_ok_pass:
  "filter_ok risk positions done_actions s \<Longrightarrow> passes risk positions a \<Longrightarrow> la_type a \<noteq> SUBMIT
     \<Longrightarrow> filter_ok risk positions (done_actions @ [a]) (pass_action a s)"
  by (clarsimp simp: filter_ok_def pass_action_def list_all_iff)

lemma filter_ok_pass_submit:
  "filter_ok risk positions done_actions s \<Longrightarrow> passes risk positions a \<Longrightarrow> la_type a = SUBMIT
     \<Longrightarrow> cf_submits s + 1 \<le> co_max_orders_per_cycle risk
     \<Longrightarrow> filter_ok risk positions (done_actions @ [a]) (pass_action a (s\<lparr>cf_submits := cf_submits s + 1\<rparr>))"
  by (clarsimp simp: filter_ok_def pass_action_def list_all_iff)

lemma filter_ok_step:
  assumes "filter_ok risk positions done_actions s"
  shows "filter_ok risk positions (done_actions @ [a]) (filter_cycle_action risk positions s a)"
proof (cases "la_type a")
  case SUBMIT
  note blocked = filter_ok_block [OF assms, of a]
  note pass = filter_ok_pass_submit [OF assms, of a]
  show ?thesis
    using SUBMIT blocked pass by (simp add: filter_cycle_action_def filter_submit_def passes_def)
next
  case CANCEL
  then show ?thesis using filter_ok_block [OF assms, of a] filter_ok_pass [OF assms, of a]
    by (simp add: filter_cycle_action_def passes_def)
next
  case REPLACE
  then show ?thesis using filter_ok_pass [OF assms, of a] by (simp add: filter_cycle_action_def passes_def)
qed

lemma filter_ok_fold:
  "filter_ok risk positions done_actions s
     \<Longrightarrow> filter_ok risk positions (done_actions @ actions) (foldl (filter_cycle_action risk positions) s actions)"
proof (induction actions arbitrary: done_actions s)
  case (Cons a actions)
  from Cons.IH [OF filter_ok_step [OF Cons.prems]] show ?case by simp
qed simp

text \<open>
  (C11) The decisions answer the actions one by one and the accepted actions are those with a positive decision.
  An accepted submission has passed the mode, the notional and the exposure limit, at most the allowed
  number of submissions is accepted, and a cancellation is refused only if cancelling is forbidden.
\<close>

theorem cycle_filter_sound:
  assumes "filter_cycle_actions actions positions risk = (accepted, decisions)"
  shows "map pd_action decisions = actions \<and> accepted = map pd_action (filter pd_accepted decisions)
    \<and> (\<forall>a \<in> set accepted. passes risk positions a)
    \<and> int (length (submits accepted)) \<le> max 0 (co_max_orders_per_cycle risk)
    \<and> (co_allow_cancel risk \<longrightarrow> (\<forall>a \<in> set actions. la_type a = CANCEL \<longrightarrow> a \<in> set accepted))"
proof -
  define s where "s = foldl (filter_cycle_action risk positions) \<lparr>cf_accepted = [], cf_decisions = [], cf_submits = 0\<rparr> actions"
  have "filter_ok risk positions [] \<lparr>cf_accepted = [], cf_decisions = [], cf_submits = 0\<rparr>" by (simp add: filter_ok_def)
  from filter_ok_fold [OF this, of actions] have ok: "filter_ok risk positions actions s" by (simp add: s_def)
  have res: "cf_accepted s = accepted" "cf_decisions s = decisions"
    using assms by (simp_all add: filter_cycle_actions_def Let_def s_def)
  have answers: "map pd_action decisions = actions"
    and all: "accepted = map pd_action (filter pd_accepted decisions)" "\<forall>a \<in> set accepted. passes risk positions a"
    and refused: "\<forall>d \<in> set decisions. \<not> pd_accepted d \<and> la_type (pd_action d) = CANCEL \<longrightarrow> \<not> co_allow_cancel risk"
    using ok unfolding filter_ok_def list_all_iff res by fast+
  have count: "int (length (submits accepted)) \<le> max 0 (co_max_orders_per_cycle risk)"
    using ok unfolding filter_ok_def res by (elim conjE) simp
  have cancels: "a \<in> set (map pd_action (filter pd_accepted decisions))"
    if cancel: "co_allow_cancel risk" "la_type a = CANCEL" and a: "a \<in> set actions" for a
  proof -
    obtain d where d: "d \<in> set decisions" "pd_action d = a" using a answers by auto
    then have "pd_accepted d" using refused cancel by blast
    then show ?thesis using d by auto
  qed
  then show ?thesis using answers all count by blast
qed

definition demo_purchase :: "dec \<Rightarrow> lifecycle_action" where
  "demo_purchase q = \<lparr>la_type = SUBMIT, la_symbol = ''BTCTRY'', la_side = ''BUY'', la_price = 100, la_qty = q, la_reason = '''',
     la_client_order_id = None, la_exchange_order_id = None, la_replace_for = None\<rparr>"

definition demo_cycle_risk :: cycle_risk_output where
  "demo_cycle_risk = \<lparr>co_mode = NORMAL, co_reasons = [], co_max_order_notional_try = 1000, co_max_orders_per_cycle = 2,
     co_max_symbol_exposure_try = 1000, co_daily_loss_limit_try = 100, co_max_drawdown_bps = 500, co_fee_burn_limit_try = 10,
     co_cooldown_until = None, co_allow_submit = True, co_allow_cancel = True, co_decided_at = 0\<rparr>"

lemma cycle_filter_sound_witness:
  "int (length (submits (fst (filter_cycle_actions [demo_purchase 1, demo_purchase 20, demo_purchase 2, demo_purchase 3] [] demo_cycle_risk)))) \<le> 2"
  using cycle_filter_sound [OF surjective_pairing, of "[demo_purchase 1, demo_purchase 20, demo_purchase 2, demo_purchase 3]" "[]" demo_cycle_risk]
  by (elim conjE) (simp only: demo_cycle_risk_def cycle_risk_output.simps max_def, simp)

text \<open>Each purchase is compared with the limit alone: together these two exceed it.\<close>

lemma exposure_not_accumulated:
  "fst (filter_cycle_actions [demo_purchase 9, demo_purchase 9] [] demo_cycle_risk) = [demo_purchase 9, demo_purchase 9]"
  "co_max_symbol_exposure_try demo_cycle_risk < projected_exposure (la_qty (demo_purchase 9)) (demo_purchase 9)"
  by code_simp+

end
