(* ===== verification/Stage4_Agent.thy ===== *)
theory Stage4_Agent
  imports Stage4 Symbols
begin

text \<open>
  The agent policy of a stage 4 cycle: the decision types of \<open>src/src/btcbot/agent/contracts.py\<close>, the
  policies of \<open>agent/policy.py\<close>, the guard of \<open>agent/guardrails.py\<close> and their use in
  \<open>_apply_agent_policy\<close> of \<open>services/stage4_cycle_runner.py\<close>.

  A client of a language model is a function from the context to a text, and the decoding of that text
  by the schema is a function to a decision; the prompt, the audit records and the risk adjustments of a
  decision, which nothing reads, are left out.  A declared constraint of a field that is violated is
  \<open>ValidationError\<close>.

  The theorem shows that the policy only drops intents, and what the remaining orders have passed.
  The guard compares the declared notional of an intent with its limits: \<open>guard_trusts_notional\<close> is a
  decision of a model whose order is larger than the limit.
\<close>

subsection \<open>Definitions: decisions\<close>

datatype decision_action = PROPOSE_INTENTS | ADJUST_RISK | AGENT_OBSERVE_ONLY | NO_OP

record intent_proposal =
  ip_symbol :: string
  ip_side :: string
  ip_notional_try :: dec
  ip_qty :: dec
  ip_price_try :: dec
  ip_reason :: string
  ip_client_order_id :: "string option"

definition proposal_fields_ok :: "intent_proposal \<Rightarrow> bool" where
  "proposal_fields_ok p \<longleftrightarrow> 0 < ip_notional_try p \<and> 0 < ip_qty p \<and> 0 < ip_price_try p
     \<and> 1 \<le> length (ip_reason p) \<and> length (ip_reason p) \<le> 256
     \<and> (case ip_client_order_id p of None \<Rightarrow> True | Some c \<Rightarrow> 4 \<le> length c \<and> length c \<le> 64)
     \<and> str_strip (str_upper (ip_side p)) \<in> {''BUY'', ''SELL''}"

definition OrderIntentProposal :: "intent_proposal \<Rightarrow> intent_proposal result" where
  "OrderIntentProposal p =
     (if proposal_fields_ok p
      then Inr (p\<lparr>ip_symbol := str_strip (canonical_symbol (ip_symbol p)), ip_side := str_strip (str_upper (ip_side p))\<rparr>)
      else Inl (ValidationError ''OrderIntentProposal''))"

record decision_rationale =
  dr_reasons :: "string list"
  dr_confidence :: dec
  dr_constraints_hit :: "string list"
  dr_citations :: "string list"

record agent_decision =
  ad_action :: decision_action
  ad_intents :: "intent_proposal list"
  ad_observe_only :: bool
  ad_rationale :: decision_rationale

record risk_state =
  rk_kill_switch :: bool
  rk_safe_mode :: bool
  rk_drawdown_pct :: dec
  rk_gross_exposure_try :: dec
  rk_stale_data_seconds :: dec
  rk_cooldown_until :: "instant option"

record agent_context =
  ac_cycle_id :: string
  ac_generated_at :: instant
  ac_market_snapshot :: "(string, dec) dict"
  ac_market_spreads_bps :: "(string, dec) dict"
  ac_market_data_age_seconds :: dec
  ac_portfolio :: "(string, dec) dict"
  ac_open_orders :: "(string \<times> string \<times> dec \<times> dec) list"
  ac_risk_state :: risk_state
  ac_recent_events :: "string list"
  ac_started_at :: instant
  ac_is_live_mode :: bool

record safe_decision =
  sd_decision :: agent_decision
  sd_blocked_reasons :: "string list"
  sd_dropped_symbols :: "string list"
  sd_observe_only_override :: bool

subsection \<open>Definitions: policies\<close>

type_synonym agent_policy = "agent_context \<Rightarrow> agent_decision result"

definition observing :: "string list \<Rightarrow> dec \<Rightarrow> string list \<Rightarrow> string list \<Rightarrow> agent_decision" where
  "observing reasons confidence constraints citations =
     \<lparr>ad_action = AGENT_OBSERVE_ONLY, ad_intents = [], ad_observe_only = True,
      ad_rationale = \<lparr>dr_reasons = reasons, dr_confidence = confidence, dr_constraints_hit = constraints, dr_citations = citations\<rparr>\<rparr>"

definition stale_data :: "agent_context \<Rightarrow> bool" where
  "stale_data c \<longleftrightarrow> 0 < rk_stale_data_seconds (ac_risk_state c)
     \<and> rk_stale_data_seconds (ac_risk_state c) \<le> ac_market_data_age_seconds c"

definition RuleBasedPolicy_evaluate :: agent_policy where
  "RuleBasedPolicy_evaluate c =
     (let r = ac_risk_state c in
      if rk_kill_switch r
        then Inr (observing [''Kill switch active''] 1 [''kill_switch''] [''risk_state.kill_switch''])
      else if stale_data c \<or> rk_safe_mode r
        then Inr (observing
               ((if stale_data c then [''Market data stale''] else []) @ (if rk_safe_mode r then [''Safe mode active''] else []))
               (95 / 100)
               ((if stale_data c then [''stale_data''] else []) @ (if rk_safe_mode r then [''safe_mode''] else []))
               [''risk_state'', ''market_data_age_seconds''])
      else Inr \<lparr>ad_action = NO_OP, ad_intents = [], ad_observe_only = False,
             ad_rationale = \<lparr>dr_reasons = [''No policy override; keep upstream planning intents''], dr_confidence = 8 / 10,
               dr_constraints_hit = [], dr_citations = [''planning_kernel'']\<rparr>\<rparr>)"

text \<open>The text from the first opening to the last closing brace, within the allowed length.\<close>

fun find_char :: "char \<Rightarrow> string \<Rightarrow> nat option" where
  "find_char c [] = None"
| "find_char c (x # xs) = (if x = c then Some 0 else map_option Suc (find_char c xs))"

definition rfind_char :: "char \<Rightarrow> string \<Rightarrow> nat option" where
  "rfind_char c s = map_option (\<lambda>i. length s - 1 - i) (find_char c (rev s))"

definition sanitize_llm_json :: "string \<Rightarrow> nat \<Rightarrow> string" where
  "sanitize_llm_json raw max_response_chars =
     (let bounded = take max_response_chars raw in
      case (find_char CHR 0x7B bounded, rfind_char CHR 0x7D bounded) of
        (Some start, Some e) \<Rightarrow> if e \<le> start then bounded else drop start (take (e + 1) bounded)
      | _ \<Rightarrow> bounded)"

definition LlmPolicy_evaluate ::
  "(agent_context \<Rightarrow> string result) \<Rightarrow> (string \<Rightarrow> agent_decision option) \<Rightarrow> nat \<Rightarrow> agent_policy" where
  "LlmPolicy_evaluate client validate max_response_chars c =
     (case client c of
        Inl e \<Rightarrow> Inl (RuntimeError ''llm request failed'')
      | Inr response \<Rightarrow>
          (case validate (sanitize_llm_json response max_response_chars) of
             None \<Rightarrow> Inl (RuntimeError ''llm response failed schema validation'')
           | Some d \<Rightarrow> Inr d))"

definition FallbackPolicy_evaluate :: "agent_policy \<Rightarrow> agent_policy \<Rightarrow> agent_policy" where
  "FallbackPolicy_evaluate primary fallback c = (case primary c of Inl e \<Rightarrow> fallback c | Inr d \<Rightarrow> Inr d)"

subsection \<open>Definitions: the guard\<close>

record safety_guard =
  sg_max_exposure_try :: dec
  sg_max_order_notional_try :: dec
  sg_max_drawdown_pct :: dec
  sg_min_notional_try :: dec
  sg_max_spread_bps :: dec
  sg_symbol_allowlist :: "string list"
  sg_stale_data_seconds :: int
  sg_kill_switch :: bool
  sg_safe_mode :: bool
  sg_observe_only_override :: bool

definition block_reasons :: "safety_guard \<Rightarrow> agent_context \<Rightarrow> string list" where
  "block_reasons g c =
     (let r = ac_risk_state c in
      (if sg_kill_switch g then [''kill_switch''] else [])
      @ (if sg_safe_mode g then [''safe_mode''] else [])
      @ (if sg_observe_only_override g then [''observe_only_override''] else [])
      @ (if sg_max_drawdown_pct g \<le> rk_drawdown_pct r then [''max_drawdown''] else [])
      @ (if of_int (sg_stale_data_seconds g) \<le> ac_market_data_age_seconds c then [''stale_data''] else [])
      @ (case rk_cooldown_until r of None \<Rightarrow> [] | Some t \<Rightarrow> if ac_generated_at c < t then [''cooldown''] else [])
      @ (if sg_max_exposure_try g \<le> rk_gross_exposure_try r then [''max_exposure''] else []))"

definition drop_reasons :: "safety_guard \<Rightarrow> agent_context \<Rightarrow> intent_proposal \<Rightarrow> string list" where
  "drop_reasons g c i =
     (if ip_symbol i \<in> set (sg_symbol_allowlist g) then [] else [''symbol_not_allowed''])
     @ (if ip_notional_try i < sg_min_notional_try g then [''below_min_notional''] else [])
     @ (if sg_max_order_notional_try g < ip_notional_try i then [''above_max_notional''] else [])
     @ (if sg_max_spread_bps g < dict_get (ac_market_spreads_bps c) (ip_symbol i) 0 then [''spread_too_wide''] else [])"

definition guard_apply :: "safety_guard \<Rightarrow> agent_context \<Rightarrow> agent_decision \<Rightarrow> safe_decision" where
  "guard_apply g c d =
     (let blocked = block_reasons g c in
      if blocked \<noteq> [] then
        \<lparr>sd_decision = d\<lparr>ad_action := AGENT_OBSERVE_ONLY, ad_observe_only := True, ad_intents := []\<rparr>,
         sd_blocked_reasons = sort (remdups blocked), sd_dropped_symbols = [], sd_observe_only_override = True\<rparr>
      else
        \<lparr>sd_decision = d\<lparr>ad_intents := filter (\<lambda>i. drop_reasons g c i = []) (ad_intents d)\<rparr>, sd_blocked_reasons = [],
         sd_dropped_symbols = sort (remdups (map ip_symbol (filter (\<lambda>i. drop_reasons g c i \<noteq> []) (ad_intents d)))),
         sd_observe_only_override = False\<rparr>)"

subsection \<open>Definitions: the step of the cycle\<close>

record agent_settings =
  ag_enabled :: bool
  ag_provider :: string
  ag_llm_enabled :: bool
  ag_observe_only :: bool
  ag_symbol_allowlist :: "string list"
  ag_max_order_notional_try :: dec
  ag_max_spread_bps :: dec
  ag_symbols :: "string list"
  ag_kill_switch_effective :: bool
  ag_safe_mode :: bool
  ag_stale_market_data_seconds :: int
  ag_risk_max_gross_exposure_try :: dec
  ag_risk_max_order_notional_try :: dec
  ag_max_drawdown_pct :: dec
  ag_min_order_notional_try :: dec

record agent_inputs =
  ai_cycle_id :: string
  ai_started_at :: instant
  ai_now :: instant
  ai_mark_prices :: "(string, dec) dict"
  ai_spreads_bps :: "(string, dec) dict"
  ai_data_age_seconds :: dec
  ai_positions :: "s4_position list"
  ai_open_orders :: "s4_order list"
  ai_drawdown_pct :: dec
  ai_live_mode :: bool
  ai_failed_symbols :: "string list"
  ai_budget_multiplier :: dec

definition gross_exposure :: "agent_inputs \<Rightarrow> dec" where
  "gross_exposure x =
     dsum (map (\<lambda>p. dmul (p4_qty p) (dict_get (ai_mark_prices x) (normalize_symbol (p4_symbol p)) (p4_avg_cost_try p))) (ai_positions x))"

definition agent_context_of :: "agent_settings \<Rightarrow> agent_inputs \<Rightarrow> agent_context result" where
  "agent_context_of st x =
     (if ai_data_age_seconds x < 0 then Inl (ValidationError ''AgentContext'')
      else Inr \<lparr>ac_cycle_id = ai_cycle_id x, ac_generated_at = ai_now x, ac_market_snapshot = ai_mark_prices x,
        ac_market_spreads_bps = ai_spreads_bps x, ac_market_data_age_seconds = ai_data_age_seconds x,
        ac_portfolio = foldl (\<lambda>d p. AList.update (normalize_symbol (p4_symbol p)) (p4_qty p) d) []
          (filter (\<lambda>p. normalize_symbol (p4_symbol p) \<notin> set (ai_failed_symbols x)) (ai_positions x)),
        ac_open_orders = map (\<lambda>o4. (normalize_symbol (o4_symbol o4), o4_side o4, o4_qty o4, o4_price o4)) (ai_open_orders x),
        ac_risk_state = \<lparr>rk_kill_switch = ag_kill_switch_effective st, rk_safe_mode = ag_safe_mode st,
          rk_drawdown_pct = ai_drawdown_pct x, rk_gross_exposure_try = gross_exposure x,
          rk_stale_data_seconds = of_int (ag_stale_market_data_seconds st), rk_cooldown_until = None\<rparr>,
        ac_recent_events = map (\<lambda>s. ''mark_price_error:'' @ s) (sort (remdups (ai_failed_symbols x))),
        ac_started_at = ai_started_at x, ac_is_live_mode = ai_live_mode x\<rparr>)"

definition proposal_of :: "s4_order \<Rightarrow> intent_proposal result" where
  "proposal_of o4 =
     OrderIntentProposal
       \<lparr>ip_symbol = normalize_symbol (o4_symbol o4), ip_side = o4_side o4, ip_notional_try = dmul (o4_price o4) (o4_qty o4),
        ip_qty = o4_qty o4, ip_price_try = o4_price o4,
        ip_reason = (case o4_client_order_id o4 of Some (c # cs) \<Rightarrow> c # cs | _ \<Rightarrow> ''pipeline_intent''),
        ip_client_order_id = o4_client_order_id o4\<rparr>"

definition base_decision :: "s4_order list \<Rightarrow> agent_decision result" where
  "base_decision intents =
     rbind (rmap proposal_of intents) (\<lambda>ps.
       Inr \<lparr>ad_action = PROPOSE_INTENTS, ad_intents = ps, ad_observe_only = False,
         ad_rationale = \<lparr>dr_reasons = [''Upstream planning intents''], dr_confidence = 1, dr_constraints_hit = [],
           dr_citations = [''planning_kernel'']\<rparr>\<rparr>)"

text \<open>The only client of the cycle runner always fails.\<close>

definition unavailable_client :: "agent_context \<Rightarrow> string result" where
  "unavailable_client c = Inl (RuntimeError ''llm client not configured'')"

definition resolve_agent_policy :: "agent_settings \<Rightarrow> (string \<Rightarrow> agent_decision option) \<Rightarrow> agent_policy" where
  "resolve_agent_policy st validate =
     (if str_lower (ag_provider st) \<noteq> ''llm'' then RuleBasedPolicy_evaluate
      else if \<not> ag_llm_enabled st then RuleBasedPolicy_evaluate
      else FallbackPolicy_evaluate (LlmPolicy_evaluate unavailable_client validate 6000) RuleBasedPolicy_evaluate)"

definition safety_guard_of :: "agent_settings \<Rightarrow> agent_inputs \<Rightarrow> safety_guard" where
  "safety_guard_of st x =
     (let multiplier = min 1 (max 0 (ai_budget_multiplier x)) in
      \<lparr>sg_max_exposure_try = dmul (ag_risk_max_gross_exposure_try st) multiplier,
       sg_max_order_notional_try =
         dmul (if 0 < ag_max_order_notional_try st then ag_max_order_notional_try st else ag_risk_max_order_notional_try st) multiplier,
       sg_max_drawdown_pct = ag_max_drawdown_pct st, sg_min_notional_try = ag_min_order_notional_try st,
       sg_max_spread_bps = ag_max_spread_bps st,
       sg_symbol_allowlist = map normalize_symbol (if ag_symbol_allowlist st = [] then ag_symbols st else ag_symbol_allowlist st),
       sg_stale_data_seconds = ag_stale_market_data_seconds st, sg_kill_switch = ag_kill_switch_effective st,
       sg_safe_mode = ag_safe_mode st, sg_observe_only_override = ag_observe_only st\<rparr>)"

definition to_stage4_orders :: "safe_decision \<Rightarrow> instant \<Rightarrow> bool \<Rightarrow> s4_order list" where
  "to_stage4_orders s now live =
     (if sd_observe_only_override s \<or> ad_observe_only (sd_decision s) then []
      else map (\<lambda>i. \<lparr>o4_symbol = ip_symbol i, o4_side = str_lower (ip_side i), o4_type = ''limit'', o4_price = ip_price_try i,
        o4_qty = ip_qty i, o4_status = ''new'', o4_created_at = now, o4_updated_at = now, o4_exchange_order_id = None,
        o4_client_order_id = ip_client_order_id i, o4_exchange_client_id = None,
        o4_mode = (if live then ''live'' else ''dry_run'')\<rparr>) (ad_intents (sd_decision s)))"

definition apply_agent_policy ::
  "agent_settings \<Rightarrow> (string \<Rightarrow> agent_decision option) \<Rightarrow> agent_inputs \<Rightarrow> s4_order list \<Rightarrow> s4_order list result" where
  "apply_agent_policy st validate x intents =
     (if \<not> ag_enabled st then Inr intents
      else
        rbind (agent_context_of st x) (\<lambda>c.
        rbind (base_decision intents) (\<lambda>base.
        rbind (resolve_agent_policy st validate c) (\<lambda>evaluated.
          let chosen = (if ad_action evaluated \<in> {NO_OP, ADJUST_RISK} then base else evaluated)
          in Inr (to_stage4_orders (guard_apply (safety_guard_of st x) c chosen) (ai_now x) (ai_live_mode x))))))"

subsection \<open>What the policy does\<close>

text \<open>Without a client of a language model every provider gives the rules.\<close>

lemma resolve_agent_policy_is_rules: "resolve_agent_policy st validate = RuleBasedPolicy_evaluate"
  by (simp add: resolve_agent_policy_def FallbackPolicy_evaluate_def LlmPolicy_evaluate_def unavailable_client_def fun_eq_iff)

lemma rules_decide:
  "\<exists>d. RuleBasedPolicy_evaluate c = Inr d \<and> (ad_action d = NO_OP \<or> ad_observe_only d \<and> ad_action d = AGENT_OBSERVE_ONLY)"
  by (auto simp: RuleBasedPolicy_evaluate_def observing_def Let_def)

text \<open>The order that is sent on for an intent.\<close>

definition restamped :: "agent_inputs \<Rightarrow> s4_order \<Rightarrow> s4_order" where
  "restamped x o4 = \<lparr>o4_symbol = str_strip (normalize_symbol (o4_symbol o4)), o4_side = str_lower (str_strip (str_upper (o4_side o4))),
     o4_type = ''limit'', o4_price = o4_price o4, o4_qty = o4_qty o4, o4_status = ''new'', o4_created_at = ai_now x,
     o4_updated_at = ai_now x, o4_exchange_order_id = None, o4_client_order_id = o4_client_order_id o4,
     o4_exchange_client_id = None, o4_mode = (if ai_live_mode x then ''live'' else ''dry_run'')\<rparr>"

text \<open>The limits an order of the guard keeps.\<close>

definition budget_share :: "agent_inputs \<Rightarrow> dec" where
  "budget_share x = min 1 (max 0 (ai_budget_multiplier x))"

definition guarded_order :: "agent_settings \<Rightarrow> agent_inputs \<Rightarrow> s4_order \<Rightarrow> bool" where
  "guarded_order st x r \<longleftrightarrow>
     o4_symbol r \<in> normalize_symbol ` set (if ag_symbol_allowlist st = [] then ag_symbols st else ag_symbol_allowlist st)
     \<and> ag_min_order_notional_try st \<le> dmul (o4_price r) (o4_qty r)
     \<and> dmul (o4_price r) (o4_qty r)
         \<le> dmul (if 0 < ag_max_order_notional_try st then ag_max_order_notional_try st else ag_risk_max_order_notional_try st) (budget_share x)
     \<and> dict_get (ai_spreads_bps x) (o4_symbol r) 0 \<le> ag_max_spread_bps st"

text \<open>The conditions under which the guard lets something pass.\<close>

definition agent_trades :: "agent_settings \<Rightarrow> agent_inputs \<Rightarrow> bool" where
  "agent_trades st x \<longleftrightarrow> \<not> ag_kill_switch_effective st \<and> \<not> ag_safe_mode st \<and> \<not> ag_observe_only st
     \<and> ai_drawdown_pct x < ag_max_drawdown_pct st \<and> ai_data_age_seconds x < of_int (ag_stale_market_data_seconds st)
     \<and> gross_exposure x < dmul (ag_risk_max_gross_exposure_try st) (budget_share x)"

definition proposed :: "(intent_proposal \<Rightarrow> bool) \<Rightarrow> s4_order \<Rightarrow> bool" where
  "proposed P o4 = (case proposal_of o4 of Inl e \<Rightarrow> False | Inr i \<Rightarrow> P i)"

lemma orders_of_proposals:
  assumes "rmap proposal_of intents = Inr ps"
  shows "to_stage4_orders \<lparr>sd_decision = d\<lparr>ad_intents := filter P ps\<rparr>, sd_blocked_reasons = b, sd_dropped_symbols = ds,
      sd_observe_only_override = False\<rparr> (ai_now x) (ai_live_mode x)
    = (if ad_observe_only d then [] else map (restamped x) (filter (proposed P) intents))"
  using assms
proof (induction intents arbitrary: ps)
  case Nil
  then show ?case by (simp add: to_stage4_orders_def)
next
  case (Cons o4 intents)
  then obtain i rest where i: "proposal_of o4 = Inr i" "rmap proposal_of intents = Inr rest" "ps = i # rest"
    by (auto simp: rbind_eq_Inr_iff)
  from Cons.IH [OF i(2)] i show ?case
    by (auto simp: to_stage4_orders_def proposed_def restamped_def proposal_of_def OrderIntentProposal_def split: if_splits)
qed

lemma proposal_fields:
  assumes "proposal_of o4 = Inr i"
  shows "ip_symbol i = str_strip (normalize_symbol (o4_symbol o4))" "ip_notional_try i = dmul (o4_price o4) (o4_qty o4)"
  using assms by (auto simp: proposal_of_def OrderIntentProposal_def Let_def split: if_splits)

lemma restamped_simps:
  "o4_symbol (restamped x o4) = str_strip (normalize_symbol (o4_symbol o4))"
  "o4_price (restamped x o4) = o4_price o4" "o4_qty (restamped x o4) = o4_qty o4"
  by (simp_all add: restamped_def)

lemma proposed_is_guarded:
  assumes "proposal_of o4 = Inr i" "ac_market_spreads_bps c = ai_spreads_bps x"
  shows "drop_reasons (safety_guard_of st x) c i = [] \<longleftrightarrow> guarded_order st x (restamped x o4)"
  unfolding guarded_order_def drop_reasons_def safety_guard_of_def Let_def budget_share_def restamped_simps
    proposal_fields [OF assms(1)] assms(2)
  by (simp add: not_less)

lemma rmap_all_Inr: "rmap f xs = Inr ys \<Longrightarrow> x \<in> set xs \<Longrightarrow> \<exists>y. f x = Inr y"
  by (induction xs arbitrary: ys) (auto simp: rbind_eq_Inr_iff)

lemma agent_context_fields:
  assumes "agent_context_of st x = Inr c"
  shows "ac_market_data_age_seconds c = ai_data_age_seconds x" "rk_drawdown_pct (ac_risk_state c) = ai_drawdown_pct x"
    "rk_cooldown_until (ac_risk_state c) = None" "rk_gross_exposure_try (ac_risk_state c) = gross_exposure x"
    "rk_kill_switch (ac_risk_state c) = ag_kill_switch_effective st" "rk_safe_mode (ac_risk_state c) = ag_safe_mode st"
    "rk_stale_data_seconds (ac_risk_state c) = of_int (ag_stale_market_data_seconds st)"
  using assms by (auto simp: agent_context_of_def split: if_splits)

lemma unblocked_is_trading:
  assumes "agent_context_of st x = Inr c"
  shows "block_reasons (safety_guard_of st x) c = [] \<longleftrightarrow> agent_trades st x"
  unfolding agent_trades_def block_reasons_def safety_guard_of_def Let_def budget_share_def agent_context_fields [OF assms]
  by (simp add: not_le)

lemma trading_rules:
  assumes "agent_trades st x" "agent_context_of st x = Inr c" "RuleBasedPolicy_evaluate c = Inr d"
  shows "ad_action d = NO_OP"
  using assms(1,3) unfolding agent_trades_def RuleBasedPolicy_evaluate_def stale_data_def Let_def agent_context_fields [OF assms(2)]
  by (auto split: if_splits)

text \<open>
  (C10) What the agent policy returns, whatever its provider: unless something blocks trading, exactly the
  intents that pass the guard, in their order, restamped and with price, quantity and client id unchanged; nothing
  under the kill switch, in safe or observing mode, at the limit of drawdown, with stale data or at the limit
  of the exposure scaled by the budget.  An intent passes exactly if its symbol is allowed, its spread within the limit
  and its notional between the minimum and the cap scaled by the budget.
\<close>

theorem agent_policy_only_drops:
  assumes "apply_agent_policy st validate x intents = Inr orders" "ag_enabled st"
    and "share = min 1 (max 0 (ai_budget_multiplier x))"
  shows "orders =
    (if ag_kill_switch_effective st \<or> ag_safe_mode st \<or> ag_observe_only st
        \<or> ag_max_drawdown_pct st \<le> ai_drawdown_pct x \<or> of_int (ag_stale_market_data_seconds st) \<le> ai_data_age_seconds x
        \<or> dmul (ag_risk_max_gross_exposure_try st) share \<le> gross_exposure x
     then []
     else map (restamped x) (filter (\<lambda>i. let r = restamped x i; notional = dmul (o4_price i) (o4_qty i) in
         o4_symbol r \<in> normalize_symbol ` set (if ag_symbol_allowlist st = [] then ag_symbols st else ag_symbol_allowlist st)
         \<and> ag_min_order_notional_try st \<le> notional
         \<and> notional \<le> dmul (if 0 < ag_max_order_notional_try st then ag_max_order_notional_try st
               else ag_risk_max_order_notional_try st) share
         \<and> dict_get (ai_spreads_bps x) (o4_symbol r) 0 \<le> ag_max_spread_bps st) intents))"
proof -
  let ?g = "safety_guard_of st x"
  obtain c base d where c: "agent_context_of st x = Inr c" and base: "base_decision intents = Inr base"
    and d: "RuleBasedPolicy_evaluate c = Inr d"
    and orders: "orders = to_stage4_orders (guard_apply ?g c (if ad_action d \<in> {NO_OP, ADJUST_RISK} then base else d))
      (ai_now x) (ai_live_mode x)"
    using assms by (auto simp: apply_agent_policy_def resolve_agent_policy_is_rules rbind_eq_Inr_iff Let_def)
  obtain ps where ps: "rmap proposal_of intents = Inr ps" "ad_intents base = ps" "\<not> ad_observe_only base"
    using base by (auto simp: base_decision_def rbind_eq_Inr_iff)
  have spreads: "ac_market_spreads_bps c = ai_spreads_bps x" using c by (auto simp: agent_context_of_def split: if_splits)
  have "orders = (if agent_trades st x then map (restamped x) (filter (\<lambda>i. guarded_order st x (restamped x i)) intents) else [])"
  proof (cases "agent_trades st x")
    case True
    then have free: "block_reasons ?g c = []" "ad_action d = NO_OP" using unblocked_is_trading [OF c] trading_rules [OF _ c d] by simp_all
    have "filter (proposed (\<lambda>i. drop_reasons ?g c i = [])) intents = filter (\<lambda>i. guarded_order st x (restamped x i)) intents"
    proof (rule filter_cong [OF refl])
      fix o4
      assume "o4 \<in> set intents"
      then obtain i where i: "proposal_of o4 = Inr i" using rmap_all_Inr [OF ps(1)] by blast
      show "proposed (\<lambda>i. drop_reasons ?g c i = []) o4 = guarded_order st x (restamped x o4)"
        using proposed_is_guarded [OF i spreads] i by (simp add: proposed_def)
    qed
    then show ?thesis
      using orders_of_proposals [OF ps(1)] ps(2,3) free True by (simp add: orders guard_apply_def Let_def)
  next
    case False
    then show ?thesis
      using unblocked_is_trading [OF c] by (simp add: orders guard_apply_def to_stage4_orders_def Let_def)
  qed
  then show ?thesis
    unfolding agent_trades_def guarded_order_def budget_share_def assms(3) Let_def
    by (simp add: restamped_def not_le)
qed

definition demo_agent_settings :: agent_settings where
  "demo_agent_settings = \<lparr>ag_enabled = True, ag_provider = ''LLM'', ag_llm_enabled = True, ag_observe_only = False,
     ag_symbol_allowlist = [], ag_max_order_notional_try = 0, ag_max_spread_bps = 120, ag_symbols = [''btc_try''],
     ag_kill_switch_effective = False, ag_safe_mode = False, ag_stale_market_data_seconds = 30,
     ag_risk_max_gross_exposure_try = 1000, ag_risk_max_order_notional_try = 500, ag_max_drawdown_pct = 20,
     ag_min_order_notional_try = 10\<rparr>"

definition demo_agent_inputs :: agent_inputs where
  "demo_agent_inputs = \<lparr>ai_cycle_id = ''c1'', ai_started_at = 0, ai_now = 1, ai_mark_prices = [(''BTCTRY'', 100)],
     ai_spreads_bps = [(''BTCTRY'', 5)], ai_data_age_seconds = 2, ai_positions = [], ai_open_orders = [], ai_drawdown_pct = 1,
     ai_live_mode = False, ai_failed_symbols = [], ai_budget_multiplier = 1 / 2\<rparr>"

definition demo_intent :: "dec \<Rightarrow> s4_order" where
  "demo_intent q = \<lparr>o4_symbol = ''BTC_TRY'', o4_side = ''buy'', o4_type = ''limit'', o4_price = 100, o4_qty = q, o4_status = ''new'',
     o4_created_at = 0, o4_updated_at = 0, o4_exchange_order_id = None, o4_client_order_id = Some ''cid1'',
     o4_exchange_client_id = None, o4_mode = ''dry_run''\<rparr>"

lemma demo_agent_runs:
  "apply_agent_policy demo_agent_settings (\<lambda>_. None) demo_agent_inputs [demo_intent 2, demo_intent 3]
     = Inr [restamped demo_agent_inputs (demo_intent 2)]"
  by code_simp

lemma agent_policy_only_drops_witness:
  "[restamped demo_agent_inputs (demo_intent 2)]
     = map (restamped demo_agent_inputs) (filter (\<lambda>i. dmul (o4_price i) (o4_qty i) \<le> 250) [demo_intent 2, demo_intent 3])"
proof -
  have dec: "dmul 100 2 = 200" "dmul 100 3 = 300" "dmul 500 (1 / 2) = 250" by code_simp+
  have "filter (\<lambda>i. dmul (o4_price i) (o4_qty i) \<le> 250) [demo_intent 2, demo_intent 3] = [demo_intent 2]"
    by (simp add: demo_intent_def dec)
  moreover have "length [restamped demo_agent_inputs (demo_intent 2)] = 1" by simp
  ultimately show ?thesis
    using agent_policy_only_drops [OF demo_agent_runs _ refl] by (simp add: demo_agent_settings_def)
qed

text \<open>A model may declare any notional: the guard does not compare it with price and quantity.\<close>

lemma guard_trusts_notional:
  fixes i :: intent_proposal
  defines "i \<equiv> \<lparr>ip_symbol = ''BTCTRY'', ip_side = ''BUY'', ip_notional_try = 100, ip_qty = 50, ip_price_try = 100, ip_reason = ''r'',
    ip_client_order_id = None\<rparr>"
  assumes "sg_symbol_allowlist g = [''BTCTRY'']" "sg_min_notional_try g = 10" "sg_max_order_notional_try g = 500"
    "sg_max_spread_bps g = 120" "ac_market_spreads_bps c = []"
  shows "drop_reasons g c i = []" "sg_max_order_notional_try g < dmul (ip_price_try i) (ip_qty i)"
proof -
  show "drop_reasons g c i = []" using assms by (simp add: drop_reasons_def)
  have "dmul 100 50 = 5000" by code_simp
  then show "sg_max_order_notional_try g < dmul (ip_price_try i) (ip_qty i)" using assms by simp
qed

end
