(* ===== verification/Spec2Isabelle.thy ===== *)
theory Spec2Isabelle
  imports Ledger_Report Oms_Props Order_Lifecycle Risk_Policy Allocation Stage7_Risk Order_Builder Stage4_Store Stage4_Replace Spot_Unknown Spot_Risk Stage4_Accounting Stage4_Reconcile Stage4_Degrade_Props Stage7_Adaptation Stage7_Filter Stage4_Agent
begin

text \<open>
  A verification library for the trading bot under \<open>src/src/btcbot\<close>: the parts that decide about
  money and orders, as definitions that can be evaluated, with theorems about them.

  The program trades on one exchange in cycles.  In a stage 3 cycle it places the intents of its
  strategies under idempotency keys.  In a stage 4 cycle it fetches fills and orders, keeps positions
  and a ledger, plans wanted orders, compares them with the open ones, filters the resulting actions
  by risk and hands them to an execution gate.  The execution services of the two stages are the only
  parts that call the exchange to place or cancel orders.  In a stage 7 cycle (a simulation beside it) a portfolio plan
  is made from target weights, turned into order intents, and processed by an order management
  service, under the decision of a risk budget.

  \<^bold>\<open>Theories and the code they model\<close>

  \<^item> \<open>Prelude\<close>: exceptions as values of \<open>py_error\<close> and the sum type \<open>result\<close>, loops that stop at an
    exception, dictionaries in insertion order, ASCII strings.  \<open>Rounding\<close>, \<open>Py_Decimal\<close>, \<open>Py_Float\<close>:
    rounding to a number of significant digits, the arithmetic of \<open>decimal\<close> (28 digits, half even)
    and of binary floats, with the error bounds the components use.
  \<^item> \<open>Symbols\<close> (\<open>domain/symbols.py\<close>); \<open>Money\<close> (\<open>domain/models.py\<close>, \<open>domain/money_policy.py\<close> and the
    quantiser of \<open>domain/stage4.py\<close>): exchange rules, rounding to the grid, validation and sizing.
  \<^item> \<open>Ledger\<close>, \<open>Ledger_Replay\<close> (\<open>domain/ledger.py\<close>): the reducer of fill and fee events with FIFO lots, its
    order independence, the JSON form and the drawdown.  \<open>Ledger_Service\<close>, \<open>Ledger_Report\<close>
    (\<open>services/ledger_service.py\<close>): ingestion, checkpoints as a refinement of the full replay, fees and
    their conversion.  \<open>Portfolio_Accounting\<close> (\<open>accounting/ledger.py\<close> and its models).
  \<^item> \<open>Rate_Limiter\<close>, \<open>Retry\<close> (\<open>services/rate_limiter.py\<close>, \<open>services/retry.py\<close>); \<open>Execution_Wrapper\<close>
    (\<open>services/execution_wrapper.py\<close>, \<open>services/execution_errors.py\<close>): classified and retried calls.
  \<^item> \<open>Stage4\<close>, \<open>Order_Lifecycle\<close>, \<open>Risk_Policy\<close>, \<open>Allocation\<close> with \<open>Strategy_Core\<close>: the data of stage 4, the
    lifecycle planner, the risk filter and the cash allocation.
  \<^item> \<open>Stage4_Store\<close>, \<open>Op_State\<close> (\<open>persistence/sqlite/orders_repo.py\<close>, \<open>services/state_store.py\<close>): orders,
    replace transactions, freeze, kill switch, error counters and cooldowns.
    \<open>Stage4_Execution\<close>, \<open>Stage4_Execution_Props\<close>, \<open>Stage4_Replace\<close>
    (\<open>services/execution_service_stage4.py\<close>): the execution gate and what it guarantees.
  \<^item> \<open>Idempotency\<close>, \<open>Spot_Store\<close> (\<open>services/state_store.py\<close>, \<open>services/unknown_order_registry.py\<close>, matching
    of \<open>domain/models.py\<close>): reservations of idempotency keys, recorded actions, the orders of stage 3 and
    the registry of unknown orders.  \<open>Spot_Refresh\<close>, \<open>Spot_Execution\<close>, \<open>Spot_Cancel\<close>
    (\<open>services/execution_service.py\<close>, \<open>domain/intent.py\<close>): the execution service of stage 3, which compares
    its orders with the exchange, places intents under idempotency keys, reconciles uncertain answers,
    recovers pending keys and cancels stale orders.  \<open>Spot_Props\<close> shows which submissions reach the
    exchange, \<open>Spot_Keys\<close> that a settled key is not used again, \<open>Spot_Unknown\<close> how a submission settles
    its key and that an unknown order stops the batch, with the examples.
  \<^item> \<open>Spot_Risk\<close> (\<open>risk/policy.py\<close>, \<open>risk/exchange_rules.py\<close>, \<open>services/risk_service.py\<close>,
    \<open>services/cycle_account_snapshot.py\<close>): the risk layer of stage 3, which decides what
    \<open>Spot_Execution\<close> may place.
  \<^item> \<open>Stage4_Accounting\<close> (\<open>services/accounting_service_stage4.py\<close>, the fetching and booking step of
    \<open>services/stage4_cycle_runner.py\<close>): fills are booked once into positions and profit, together with
    \<open>Ledger_Service\<close> in one transaction, and the cursors of the fetches never move back.
  \<^item> \<open>Stage4_Reconcile\<close> (\<open>services/reconcile_service.py\<close> and its step of
    \<open>services/stage4_cycle_runner.py\<close>): stored orders are compared with those at the exchange on
    \<open>Stage4_Store\<close>, and orders of unknown origin freeze the process on \<open>Op_State\<close>.
    \<open>Stage4_Degrade\<close>, \<open>Stage4_Degrade_Props\<close> (\<open>domain/anomalies.py\<close>,
    \<open>services/anomaly_detector_service.py\<close>, the commands \<open>degrade-clear\<close> and \<open>degrade-override\<close> of \<open>cli.py\<close>):
    anomalies, the degradation level with its cooldown, and the filter that decides which actions of a
    cycle are handed to \<open>Stage4_Execution\<close>.
  \<^item> \<open>Stage4_Agent\<close> (\<open>agent/contracts.py\<close>, \<open>agent/policy.py\<close>, \<open>agent/guardrails.py\<close>, \<open>_apply_agent_policy\<close> of
    \<open>services/stage4_cycle_runner.py\<close>): the policy and the guard that intents pass before they are planned.
  \<^item> \<open>Oms\<close>, \<open>Oms_Props\<close> (\<open>services/oms_service.py\<close> and its store): intents, idempotency keys, order
    events and reconciliation of stage 7.
  \<^item> \<open>Risk_Budget\<close> (\<open>domain/risk_budget.py\<close>, \<open>risk/budget.py\<close>, \<open>services/risk_budget_service.py\<close>),
    \<open>Stage7_Risk\<close> (\<open>services/stage7_risk_budget_service.py\<close>): modes, limits, capital and treasury, the
    decision of a cycle with its cooldown.  \<open>Stage7_Filter\<close> (\<open>services/risk_policy_service.py\<close>): the filter
    of actions by that decision.
  \<^item> \<open>Stage7_Adaptation\<close> (\<open>domain/adaptation_models.py\<close>, \<open>services/param_bounds.py\<close>,
    \<open>services/adaptation_service.py\<close> and its tables in \<open>services/state_store.py\<close>): versions of the parameters
    of stage 7, their bounds, proposals and rollbacks.
  \<^item> \<open>Rules_Service\<close> (\<open>services/exchange_rules_service.py\<close>), \<open>Portfolio_Policy\<close>
    (\<open>services/portfolio_policy_service.py\<close>), \<open>Order_Builder\<close> (\<open>services/order_builder_service.py\<close>): rules
    from metadata, the portfolio plan, and the order intents made from it.

  \<^bold>\<open>How the code is represented\<close>

  A class with state is a record, its methods are functions from the state to the state and a
  result.  \<open>Inl e\<close> is the exception \<open>e\<close>, and every raise, early return and fallback is a branch.  A
  decimal is a rational, every operation on it rounded as the context of the program does; NaN,
  infinities and the exponent range do not occur (an infinite cap is \<open>None\<close>), and the exponent a
  decimal is stored with is not kept, so texts made from decimals, ids and hashes are parameters or
  typed data.  Floats are rationals with 53 significant bits; \<open>log\<close>, \<open>sqrt\<close> and float sums are
  parameters.  Datetimes are microseconds since the epoch; every reading of the clock is an argument
  (\<open>ev_clock n\<close> is the \<open>n\<close>-th).  A SQLite table is a list of rows or a dictionary from the primary
  key; \<open>INSERT OR IGNORE\<close>, \<open>ON CONFLICT\<close> and unique indices are written out, and an operation that
  raises leaves the table as it was.  JSON texts are trees or typed payloads.  Rows that SQL may
  return in any order (equal sort keys) keep the order of insertion.  SHA-256, the exchange client
  and the random numbers of delays are parameters.  Log output, metrics and decision events are left
  out; threads and locks are not modelled, an operation is atomic.

  \<^bold>\<open>Interfaces\<close>

  The locale \<open>rounding\<close> states what a rounding function promises and is interpreted by decimals and
  floats; \<open>down_quantizer\<close> is the contract of the quantisers, interpreted by every one of the program;
  \<open>checkpointed\<close> is a replay with checkpoints, interpreted by the ledger; \<open>fee_converter\<close> is the contract
  of the conversion of fees; \<open>step_order\<close> has the sequencing rules for relations that every step of a
  computation with state and exceptions keeps, interpreted by the calls and by the replace
  transactions of the execution gate (stage 4), and by the calls, the kept keys and the frozen batches
  of the execution service (stage 3).

  \<^bold>\<open>Bounds and termination\<close>

  All loops are structural recursions or folds over finite lists, except the matching of sales with
  lots, the retries and the decimal places of a number, which have termination proofs: a round of
  matching drops a lot or leaves nothing to sell, a retry uses up an attempt, a decimal place divides
  the denominator.  No fuel is used.  Bounds on sums of decimals carry the factor \<open>dec_slack\<close> per
  operation, the largest relative error of one rounding; on amounts with few digits the operations
  are exact and the theorems say so.

  \<^bold>\<open>Not modelled\<close>

  The command line, configuration parsing, HTTP and websocket adapters, authentication and secrets,
  health checks, metrics and logging, replay tools and reports, schema migrations and the instance
  lock of the database (input and output); the cycle runners, which call the modelled services in
  turn and handle their errors (of stage 4 the steps that fetch and book fills, reconcile orders,
  decide the degradation and filter the actions are modelled); universe selection and the strategies;
  the prompts for a language model and the audit of its decisions.
\<close>

end
